(* ===== verification/Prelude.thy ===== *)
theory Prelude
  imports
    Main
    "HOL-Library.Char_ord"
    "HOL-Library.List_Lexorder"
    "HOL-Library.Product_Lexorder"
    "HOL-Library.Option_ord"
begin

text \<open>
  Shared vocabulary of the development: the result type of fallible code with its
  sequencing, Rust strings as UTF-8 byte lists, machine integers, the list operations
  the SQL statements are built from, the reversed order behind \<open>ORDER BY ... DESC\<close>,
  and the lemmas and lemma collections the component theories share.
\<close>

named_theorems result_simps \<open>inversion of successful results\<close>
named_theorems frame_simps \<open>what a statement leaves unchanged\<close>

section \<open>Results: \<open>Result<T, E>\<close> as a sum\<close>

text \<open>
  \<open>Inl e\<close> is \<open>Err(e)\<close> and \<open>Inr x\<close> is \<open>Ok(x)\<close>. \<open>rbind\<close> is the question mark
  operator: it stops at the first error. \<open>require\<close> is a guarded early return.
\<close>

definition rbind :: "'e + 'a \<Rightarrow> ('a \<Rightarrow> 'e + 'b) \<Rightarrow> 'e + 'b" where
  "rbind r f = (case r of Inl e \<Rightarrow> Inl e | Inr x \<Rightarrow> f x)"

definition require :: "bool \<Rightarrow> 'e \<Rightarrow> 'e + unit" where
  "require b e = (if b then Inr () else Inl e)"

definition ok_or :: "'a option \<Rightarrow> 'e \<Rightarrow> 'e + 'a" where
  "ok_or x e = (case x of None \<Rightarrow> Inl e | Some y \<Rightarrow> Inr y)"

text \<open>A \<open>for\<close> loop over a list whose body may return early with an error.\<close>

fun foldM :: "('a \<Rightarrow> 's \<Rightarrow> 'e + 's) \<Rightarrow> 'a list \<Rightarrow> 's \<Rightarrow> 'e + 's" where
  "foldM f [] s = Inr s"
| "foldM f (x # xs) s = rbind (f x s) (foldM f xs)"

text \<open>\<open>iter().map(f).collect::<Result<Vec<_>, _>>()\<close>: the first error wins.\<close>

fun mapM :: "('a \<Rightarrow> 'e + 'b) \<Rightarrow> 'a list \<Rightarrow> 'e + 'b list" where
  "mapM f [] = Inr []"
| "mapM f (x # xs) = rbind (f x) (\<lambda>y. rbind (mapM f xs) (\<lambda>ys. Inr (y # ys)))"

text \<open>A sequence of checks with early returns: the first error is the result.\<close>

fun all_ok :: "('e + unit) list \<Rightarrow> 'e + unit" where
  "all_ok [] = Inr ()"
| "all_ok (r # rs) = rbind r (\<lambda>_. all_ok rs)"

lemma rbind_Inr [simp]: "rbind (Inr x) f = f x"
  by (simp add: rbind_def)

lemma rbind_Inl [simp]: "rbind (Inl e) f = Inl e"
  by (simp add: rbind_def)

lemma rbind_Inr_iff [result_simps]: "rbind r f = Inr y \<longleftrightarrow> (\<exists>x. r = Inr x \<and> f x = Inr y)"
  by (cases r) auto

lemma rbind_Inl_iff: "rbind r f = Inl e \<longleftrightarrow> r = Inl e \<or> (\<exists>x. r = Inr x \<and> f x = Inl e)"
  by (cases r) auto

lemma require_Inr_iff [result_simps]: "require b e = Inr u \<longleftrightarrow> b"
  by (simp add: require_def)

lemma require_Inl_iff: "require b e = Inl e' \<longleftrightarrow> \<not> b \<and> e' = e"
  by (auto simp: require_def)

lemma require_True [simp]: "require True e = Inr ()"
  and require_False [simp]: "require False e = Inl e"
  by (simp_all add: require_def)

lemma ok_or_Inr_iff [result_simps]: "ok_or x e = Inr y \<longleftrightarrow> x = Some y"
  by (auto simp: ok_or_def split: option.splits)

lemma ok_or_simps [simp]: "ok_or None e = Inl e" "ok_or (Some y) e = Inr y"
  by (simp_all add: ok_or_def)

lemma all_ok_Inr_iff [result_simps]: "all_ok rs = Inr u \<longleftrightarrow> list_all (\<lambda>r. r = Inr ()) rs"
  by (induction rs) (auto simp: rbind_Inr_iff)

lemma foldM_append: "foldM f (xs @ ys) s = rbind (foldM f xs s) (foldM f ys)"
proof (induction xs arbitrary: s)
  case (Cons x xs)
  then show ?case by (cases "f x s") auto
qed simp

text \<open>The rule behind every loop invariant: the body keeps \<open>P\<close>, so the loop does.\<close>

lemma foldM_invariant:
  assumes "foldM f xs s = Inr s'" and "P s"
    and "\<And>x s s'. x \<in> set xs \<Longrightarrow> P s \<Longrightarrow> f x s = Inr s' \<Longrightarrow> P s'"
  shows "P s'"
  using assms
proof (induction xs arbitrary: s)
  case (Cons x xs)
  from Cons.prems(1) obtain t where t: "f x s = Inr t" "foldM f xs t = Inr s'"
    by (auto simp: result_simps)
  from t(1) Cons.prems(2,3) have "P t" by auto
  with Cons.IH [OF t(2)] Cons.prems(3) show ?case by auto
qed simp

lemma mapM_Inr_iff [result_simps]:
  "mapM f xs = Inr ys \<longleftrightarrow> list_all2 (\<lambda>x y. f x = Inr y) xs ys"
  by (induction xs arbitrary: ys) (auto simp: result_simps list_all2_Cons1)

section \<open>Rust strings: UTF-8 bytes\<close>

text \<open>
  A \<open>String\<close> is the list of its UTF-8 bytes, so \<open>len()\<close> is \<open>length\<close> and the byte-wise
  comparison of Rust and of SQLite's BINARY collation is the lexicographic order of
  \<open>List_Lexorder\<close> over \<open>Char_ord\<close>. \<open>utf8_chars\<close> is \<open>chars()\<close>: each scalar value is
  the lead byte with its continuation bytes.
\<close>

definition cont_byte :: "char \<Rightarrow> bool" where
  "cont_byte c \<longleftrightarrow> of_char c div 64 = (2 :: nat)"

function utf8_chars :: "string \<Rightarrow> string list" where
  "utf8_chars [] = []"
| "utf8_chars (c # cs) = (c # takeWhile cont_byte cs) # utf8_chars (dropWhile cont_byte cs)"
  by pat_completeness auto
termination
  by (relation "measure length") (auto simp: le_imp_less_Suc length_dropWhile_le)

definition chars_count :: "string \<Rightarrow> nat" where
  "chars_count s = length (utf8_chars s)"

text \<open>\<open>char::is_whitespace\<close>, the Unicode property White_Space, on the UTF-8 bytes.\<close>

definition white_space :: "string \<Rightarrow> bool" where
  "white_space c =
     (let b = map of_char c :: nat list in
      (length b = 1 \<and> (9 \<le> b ! 0 \<and> b ! 0 \<le> 13 \<or> b ! 0 = 32))
      \<or> b \<in> set [[194, 133], [194, 160], [225, 154, 128]]
      \<or> (length b = 3 \<and> b ! 0 = 226 \<and> b ! 1 = 128
           \<and> (128 \<le> b ! 2 \<and> b ! 2 \<le> 138 \<or> b ! 2 = 168 \<or> b ! 2 = 169 \<or> b ! 2 = 175))
      \<or> b \<in> set [[226, 129, 159], [227, 128, 128]])"

definition trim :: "string \<Rightarrow> string" where
  "trim s = concat (rev (dropWhile white_space (rev (dropWhile white_space (utf8_chars s)))))"

text \<open>\<open>s.trim().is_empty()\<close>.\<close>

definition blank :: "string \<Rightarrow> bool" where
  "blank s \<longleftrightarrow> trim s = []"

lemma concat_utf8_chars [simp]: "concat (utf8_chars s) = s"
  by (induction s rule: utf8_chars.induct) auto

lemma utf8_chars_nonempty: "c \<in> set (utf8_chars s) \<Longrightarrow> c \<noteq> []"
  by (induction s rule: utf8_chars.induct) auto

lemma utf8_chars_eq_Nil_iff [simp]: "utf8_chars s = [] \<longleftrightarrow> s = []"
  by (cases s) auto

lemma blank_Nil [simp]: "blank []"
  by (simp add: blank_def trim_def)

lemma concat_chars_Nil_iff:
  "(\<And>c. c \<in> set cs \<Longrightarrow> c \<noteq> []) \<Longrightarrow> concat cs = [] \<longleftrightarrow> cs = []"
  by (cases cs) auto

lemma all_dropWhile_iff: "(\<forall>x \<in> set (dropWhile P xs). P x) \<longleftrightarrow> (\<forall>x \<in> set xs. P x)"
  by (induction xs) auto

lemma blank_iff: "blank s \<longleftrightarrow> list_all white_space (utf8_chars s)"
proof -
  let ?kept = "rev (dropWhile white_space (rev (dropWhile white_space (utf8_chars s))))"
  have sub: "set ?kept \<subseteq> set (utf8_chars s)"
    by (auto dest!: set_dropWhileD)
  have "blank s \<longleftrightarrow> ?kept = []"
    unfolding blank_def trim_def
    by (rule concat_chars_Nil_iff) (use sub utf8_chars_nonempty in blast)
  also have "\<dots> \<longleftrightarrow> list_all white_space (utf8_chars s)"
    by (simp add: dropWhile_eq_Nil_conv list_all_iff all_dropWhile_iff)
  finally show ?thesis .
qed

section \<open>Decimal formatting\<close>

fun show_nat :: "nat \<Rightarrow> string" where
  "show_nat n = (if n < 10 then [char_of (48 + n)]
                 else show_nat (n div 10) @ [char_of (48 + n mod 10)])"

declare show_nat.simps [simp del]

definition show_int :: "int \<Rightarrow> string" where
  "show_int i = (if i < 0 then CHR ''-'' # show_nat (nat (- i)) else show_nat (nat i))"

section \<open>Machine integers\<close>

text \<open>
  \<open>i64\<close> values are \<open>int\<close>. Arithmetic on values that arrive from outside wraps, as it
  does in a release build: \<open>i64_wrap\<close> is the representative in the range of \<open>i64\<close>.
\<close>

definition i64_wrap :: "int \<Rightarrow> int" where
  "i64_wrap x = (x + 2 ^ 63) mod 2 ^ 64 - 2 ^ 63"

definition i64_range :: "int \<Rightarrow> bool" where
  "i64_range x \<longleftrightarrow> - (2 ^ 63) \<le> x \<and> x < 2 ^ 63"

lemma i64_wrap_id: "i64_range x \<Longrightarrow> i64_wrap x = x"
  by (simp add: i64_wrap_def i64_range_def)

lemma i64_wrap_range: "i64_range (i64_wrap x)"
  by (simp add: i64_wrap_def i64_range_def)

section \<open>Lists as arrays\<close>

text \<open>Indexing a vector with a \<open>usize\<close>: out of range is a panic, here \<open>None\<close>.\<close>

definition nth_opt :: "'a list \<Rightarrow> nat \<Rightarrow> 'a option" where
  "nth_opt xs i = (if i < length xs then Some (xs ! i) else None)"

lemma nth_opt_Some [simp]: "i < length xs \<Longrightarrow> nth_opt xs i = Some (xs ! i)"
  by (simp add: nth_opt_def)

text \<open>A loop whose body may panic, collecting its results.\<close>

fun map_opt :: "('a \<Rightarrow> 'b option) \<Rightarrow> 'a list \<Rightarrow> 'b list option" where
  "map_opt f [] = Some []"
| "map_opt f (x # xs) = Option.bind (f x) (\<lambda>y. Option.bind (map_opt f xs) (\<lambda>ys. Some (y # ys)))"

lemma map_opt_Some: "(\<And>x. x \<in> set xs \<Longrightarrow> f x = Some (g x)) \<Longrightarrow> map_opt f xs = Some (map g xs)"
  by (induction xs) auto

section \<open>Rows of a table\<close>

text \<open>
  A table is the list of its rows in insertion order. \<open>find_by\<close> is
  \<open>SELECT ... WHERE key = k\<close> read as one optional row, \<open>update_where\<close> the rows after an
  \<open>UPDATE\<close>, \<open>rows_where\<close> the number of rows it touches, \<open>sql_max\<close> the aggregate \<open>MAX\<close>
  (NULL on no rows) and \<open>next_seq\<close> the statement
  \<open>SELECT COALESCE(MAX(sequence), 0) + 1 ... WHERE owner = k\<close>.
\<close>

definition find_by :: "('r \<Rightarrow> 'k) \<Rightarrow> 'k \<Rightarrow> 'r list \<Rightarrow> 'r option" where
  "find_by key k rows = List.find (\<lambda>r. key r = k) rows"

definition update_where :: "('r \<Rightarrow> bool) \<Rightarrow> ('r \<Rightarrow> 'r) \<Rightarrow> 'r list \<Rightarrow> 'r list" where
  "update_where p f rows = map (\<lambda>r. if p r then f r else r) rows"

definition rows_where :: "('r \<Rightarrow> bool) \<Rightarrow> 'r list \<Rightarrow> nat" where
  "rows_where p rows = length (filter p rows)"

definition sql_max :: "int list \<Rightarrow> int option" where
  "sql_max xs = (if xs = [] then None else Some (Max (set xs)))"

text \<open>\<open>is_none_or\<close>: a condition on the value that is there.\<close>

fun opt_all :: "('a \<Rightarrow> bool) \<Rightarrow> 'a option \<Rightarrow> bool" where
  "opt_all P None = True"
| "opt_all P (Some x) = P x"

definition coalesce :: "'a option \<Rightarrow> 'a \<Rightarrow> 'a" where
  "coalesce x d = (case x of None \<Rightarrow> d | Some y \<Rightarrow> y)"

definition next_seq :: "('r \<Rightarrow> 'k) \<Rightarrow> ('r \<Rightarrow> int) \<Rightarrow> 'k \<Rightarrow> 'r list \<Rightarrow> int" where
  "next_seq owner seqno k rows =
     coalesce (sql_max (map seqno (filter (\<lambda>r. owner r = k) rows))) 0 + 1"

lemma find_by_Some_iff:
  assumes "distinct (map key rows)"
  shows "find_by key k rows = Some r \<longleftrightarrow> r \<in> set rows \<and> key r = k"
  using assms
  by (induction rows) (auto simp: find_by_def image_iff)

lemma find_by_SomeD: "find_by key k rows = Some r \<Longrightarrow> r \<in> set rows \<and> key r = k"
  by (induction rows) (auto simp: find_by_def split: if_splits)

lemma find_by_None_iff: "find_by key k rows = None \<longleftrightarrow> k \<notin> key ` set rows"
  by (induction rows) (auto simp: find_by_def)

lemma ex_key_iff: "(\<exists>r \<in> set rows. key r = k) \<longleftrightarrow> k \<in> key ` set rows"
  by (metis imageE imageI)

lemma find_by_append:
  "find_by key k (xs @ ys) = (case find_by key k xs of Some r \<Rightarrow> Some r | None \<Rightarrow> find_by key k ys)"
  by (induction xs) (auto simp: find_by_def)

lemma find_by_snoc [simp]:
  "find_by key k (rows @ [r]) = (case find_by key k rows of Some x \<Rightarrow> Some x
                                 | None \<Rightarrow> if key r = k then Some r else None)"
  by (induction rows) (auto simp: find_by_def)

lemma set_update_where: "set (update_where p f rows) = (\<lambda>r. if p r then f r else r) ` set rows"
  by (simp add: update_where_def)

lemma map_update_where [simp]:
  "(\<And>r. p r \<Longrightarrow> key (f r) = key r) \<Longrightarrow> map key (update_where p f rows) = map key rows"
  by (auto simp: update_where_def)

lemma find_by_update_where:
  "(\<And>r. p r \<Longrightarrow> key (f r) = key r) \<Longrightarrow>
   find_by key k (update_where p f rows) =
     map_option (\<lambda>r. if p r then f r else r) (find_by key k rows)"
  by (induction rows) (auto simp: update_where_def find_by_def)

lemma update_where_append [simp]:
  "update_where p f (xs @ ys) = update_where p f xs @ update_where p f ys"
  by (simp add: update_where_def)

lemma rows_where_0_iff [simp]: "rows_where p rows = 0 \<longleftrightarrow> (\<forall>r \<in> set rows. \<not> p r)"
  by (simp add: rows_where_def filter_empty_conv)

text \<open>A key that is unique makes a \<open>WHERE\<close> on it select at most one row.\<close>

lemma filter_key_eq:
  assumes "distinct (map key rows)" and "r \<in> set rows"
  shows "filter (\<lambda>x. key x = key r) rows = [r]"
  using assms
proof (induction rows)
  case (Cons a rows)
  show ?case
  proof (cases "a = r")
    case True
    with Cons.prems show ?thesis
      by (auto simp: filter_empty_conv image_iff)
  next
    case False
    with Cons show ?thesis by (auto simp: image_iff)
  qed
qed simp

lemma rows_where_key:
  assumes "distinct (map key rows)" and "r \<in> set rows" and "P r"
  shows "rows_where (\<lambda>x. key x = key r \<and> P x) rows = 1"
proof -
  have "filter (\<lambda>x. key x = key r \<and> P x) rows = filter P (filter (\<lambda>x. key x = key r) rows)"
    by (simp add: conj_commute)
  then show ?thesis
    using filter_key_eq [OF assms(1,2)] assms(3) by (simp add: rows_where_def)
qed

lemma key_eqD: "distinct (map key rows) \<Longrightarrow> r \<in> set rows \<Longrightarrow> x \<in> set rows \<Longrightarrow> key x = key r \<Longrightarrow> x = r"
  by (auto simp: distinct_map inj_on_def)

lemma update_where_key:
  assumes "distinct (map key rows)" and "r \<in> set rows" and "P r"
  shows "update_where (\<lambda>x. key x = key r \<and> P x) f rows = update_where (\<lambda>x. key x = key r) f rows"
  using assms key_eqD [OF assms(1,2)] unfolding update_where_def by (intro map_cong) auto

lemma filter_owner_Nil: "k \<notin> f ` set xs \<Longrightarrow> filter (\<lambda>x. f x = k) xs = []"
  by (induction xs) auto

lemma sql_max_Nil [simp]: "sql_max [] = None"
  by (simp add: sql_max_def)

lemma coalesce_simps [simp]: "coalesce None d = d" "coalesce (Some x) d = x"
  by (simp_all add: coalesce_def)

section \<open>Gap-free sequences\<close>

text \<open>
  The store numbers the entries of a log per owner from 1. A log is gap-free when the
  numbers of every owner are \<open>1, ..., n\<close> in the order of insertion.
\<close>

definition gap_free :: "('r \<Rightarrow> 'k) \<Rightarrow> ('r \<Rightarrow> int) \<Rightarrow> 'r list \<Rightarrow> bool" where
  "gap_free owner seqno rows \<longleftrightarrow>
     (\<forall>k. map seqno (filter (\<lambda>r. owner r = k) rows)
          = map int [1..<Suc (length (filter (\<lambda>r. owner r = k) rows))])"

lemma sql_max_upto: "sql_max (map int [1..<Suc n]) = (if n = 0 then None else Some (int n))"
proof -
  have "Max (int ` {1..n}) = int n" if "n \<noteq> 0"
    using that by (intro Max_eqI) auto
  moreover have "set (map int [1..<Suc n]) = int ` {1..n}"
    by (metis atLeastLessThanSuc_atLeastAtMost set_map set_upt)
  ultimately show ?thesis by (auto simp: sql_max_def simp del: set_map)
qed

lemma gap_free_next_seq:
  assumes "gap_free owner seqno rows"
  shows "next_seq owner seqno k rows = int (length (filter (\<lambda>r. owner r = k) rows)) + 1"
proof -
  let ?n = "length (filter (\<lambda>r. owner r = k) rows)"
  have "sql_max (map seqno (filter (\<lambda>r. owner r = k) rows))
        = (if ?n = 0 then None else Some (int ?n))"
    using assms by (simp only: gap_free_def sql_max_upto)
  then show ?thesis by (auto simp: next_seq_def)
qed

lemma gap_free_snoc:
  assumes "gap_free owner seqno rows" and "seqno r = next_seq owner seqno (owner r) rows"
  shows "gap_free owner seqno (rows @ [r])"
  using assms gap_free_next_seq [OF assms(1), of "owner r"]
  by (auto simp: gap_free_def)

lemma gap_free_Nil [simp]: "gap_free owner seqno []"
  by (simp add: gap_free_def)

lemma gap_free_bounds:
  assumes "gap_free owner seqno rows" and "r \<in> set rows"
  shows "1 \<le> seqno r \<and> seqno r < next_seq owner seqno (owner r) rows"
proof -
  let ?own = "filter (\<lambda>x. owner x = owner r) rows"
  have "seqno r \<in> set (map seqno ?own)" using assms(2) by auto
  also have "map seqno ?own = map int [1..<Suc (length ?own)]"
    using assms(1) by (simp only: gap_free_def)
  finally have "1 \<le> seqno r \<and> seqno r \<le> int (length ?own)" by auto
  then show ?thesis using gap_free_next_seq [OF assms(1)] by simp
qed

lemma gap_free_append_owner:
  assumes "gap_free owner seqno rows" and "k \<notin> owner ` set rows"
    and "\<And>r. r \<in> set new \<Longrightarrow> owner r = k"
    and "map seqno new = map int [1..<Suc (length new)]"
  shows "gap_free owner seqno (rows @ new)"
  unfolding gap_free_def
proof
  fix j
  have "filter (\<lambda>r. owner r = j) new = (if j = k then new else [])"
    using assms(3) by (auto simp: filter_empty_conv intro!: filter_True)
  moreover have "filter (\<lambda>r. owner r = k) rows = []"
    using assms(2) by (auto simp: filter_empty_conv)
  ultimately show "map seqno (filter (\<lambda>r. owner r = j) (rows @ new))
      = map int [1..<Suc (length (filter (\<lambda>r. owner r = j) (rows @ new)))]"
    using assms(1,4) by (cases "j = k") (auto simp: gap_free_def)
qed

lemma gap_free_sorted:
  assumes "gap_free owner seqno rows"
  shows "sorted_wrt (<) (map seqno (filter (\<lambda>r. owner r = k) rows))"
proof -
  have "sorted_wrt (<) (map int [1..<n])" for n
    by (simp add: sorted_wrt_map strict_sorted_iff)
  with assms show ?thesis by (simp only: gap_free_def)
qed

text \<open>\<open>INSERT ... ON CONFLICT(key) DO UPDATE\<close>, and \<open>DELETE ... WHERE key = k\<close>.\<close>

definition upsert_by :: "('r \<Rightarrow> 'k) \<Rightarrow> ('r \<Rightarrow> 'r) \<Rightarrow> 'r \<Rightarrow> 'r list \<Rightarrow> 'r list" where
  "upsert_by key upd new rows =
     (if key new \<in> key ` set rows
      then update_where (\<lambda>x. key x = key new) upd rows
      else rows @ [new])"

lemma find_by_upsert:
  assumes "\<And>x. key (upd x) = key x"
  shows "find_by key k (upsert_by key upd new rows) =
    (if k = key new then Some (case find_by key k rows of None \<Rightarrow> new | Some x \<Rightarrow> upd x)
     else find_by key k rows)"
proof (cases "find_by key (key new) rows")
  case None
  then have "key new \<notin> key ` set rows" by (simp add: find_by_None_iff)
  with None show ?thesis
    by (auto simp: upsert_by_def split: option.split)
next
  case (Some y)
  then have "key new \<in> key ` set rows" by (metis find_by_None_iff option.distinct(1))
  moreover have "find_by key k (update_where (\<lambda>x. key x = key new) upd rows)
      = (if k = key new then Some (upd y) else find_by key k rows)"
    using Some assms
    by (cases "find_by key k rows") (auto simp: find_by_update_where dest: find_by_SomeD)
  ultimately show ?thesis using Some by (simp add: upsert_by_def)
qed

lemma distinct_upsert:
  assumes "\<And>x. key (upd x) = key x" and "distinct (map key rows)"
  shows "distinct (map key (upsert_by key upd new rows))"
  using assms by (simp add: upsert_by_def)

lemma set_upsert:
  "set (upsert_by key upd new rows) \<subseteq> insert new (set rows \<union> upd ` set rows)"
  by (auto simp: upsert_by_def set_update_where)

lemma find_by_filter_key:
  "find_by key k (filter (\<lambda>x. key x \<noteq> j) rows) = (if k = j then None else find_by key k rows)"
  by (induction rows) (auto simp: find_by_def)

lemma distinct_filter_key: "distinct (map key rows) \<Longrightarrow> distinct (map key (filter P rows))"
  by (simp add: distinct_map_filter)

section \<open>Ordered sets\<close>

text \<open>
  A \<open>BTreeSet\<close> is the list of what was inserted; iterating it yields each element once, in
  order. \<open>union\<close> and \<open>difference\<close> iterate in order too.
\<close>

definition btree_iter :: "'a :: linorder list \<Rightarrow> 'a list" where
  "btree_iter xs = sort (remdups xs)"

lemma set_btree_iter [simp]: "set (btree_iter xs) = set xs"
  and distinct_btree_iter [simp]: "distinct (btree_iter xs)"
  and sorted_btree_iter [simp]: "sorted (btree_iter xs)"
  by (simp_all add: btree_iter_def)

section \<open>Descending order\<close>

text \<open>
  \<open>ORDER BY x DESC\<close> and comparators that swap their arguments sort by \<open>Desc x\<close>, the same
  values in the reversed order.
\<close>

datatype 'a desc = Desc (undesc: 'a)

instantiation desc :: (linorder) linorder
begin

definition less_eq_desc :: "'a desc \<Rightarrow> 'a desc \<Rightarrow> bool" where
  "less_eq_desc x y \<longleftrightarrow> undesc y \<le> undesc x"

definition less_desc :: "'a desc \<Rightarrow> 'a desc \<Rightarrow> bool" where
  "less_desc x y \<longleftrightarrow> undesc y < undesc x"

instance
  by standard (auto simp: less_eq_desc_def less_desc_def desc.expand)

end

lemma Desc_le_iff [simp]: "Desc x \<le> Desc y \<longleftrightarrow> y \<le> x"
  and Desc_less_iff [simp]: "Desc x < Desc y \<longleftrightarrow> y < x"
  by (simp_all add: less_eq_desc_def less_desc_def)

end
