(* ===== verification/Model.thy ===== *)
theory Model
  imports Prelude Complex_Main
begin

text \<open>
  The data types of \<open>crates/optimizer-store\<close>: the errors of \<open>error.rs\<close> and the
  structures and enumerations of \<open>model.rs\<close>. A field \<open>f\<close> of a structure is named with a
  short prefix for the structure (\<open>doc_title\<close> is \<open>DocumentRecord::title\<close>), because HOL
  record fields are global. Enumerations keep their constructors and are written
  qualified (\<open>OperationState.Review\<close>) where two of them share a name. \<open>String\<close> is
  \<open>string\<close> (UTF-8 bytes), \<open>i64\<close> is \<open>int\<close>, \<open>f64\<close> rates are the exact quotient as
  \<open>rat\<close>, before it is rounded to a double.
\<close>

section \<open>Errors\<close>

text \<open>
  The failures of a SQL statement that the schema can cause. The argument names the table,
  the constraint or the message of the trigger that raised it.
\<close>

datatype SqliteError =
  ConstraintCheck string
| ConstraintPrimaryKey string
| ConstraintUnique string
| ConstraintForeignKey string
| TriggerAbort string
| QueryReturnedNoRows
| InvalidColumnType string

datatype StoreError =
  Sqlite SqliteError
| UnsafeSqliteVersion (actual: string) (minimum: string)
| Validation string
| Snapshot string
| NotFound (entity: string) (nf_id: string)
| Conflict string string int int string string
| StateConflict string string int int string string
| InvariantViolation string

type_synonym 'a StoreResult = "StoreError + 'a"

type_synonym bytes = "char list"

text \<open>The \<open>Display\<close> implementation; \<open>sq\<close> renders the error of the SQLite library.\<close>

fun store_error_display :: "(SqliteError \<Rightarrow> string) \<Rightarrow> StoreError \<Rightarrow> string" where
  "store_error_display sq (Sqlite e) = ''sqlite error: '' @ sq e"
| "store_error_display sq (UnsafeSqliteVersion a m) =
     ''SQLite '' @ a @ '' is unsafe for this store; minimum is '' @ m"
| "store_error_display sq (Validation m) = ''validation error: '' @ m"
| "store_error_display sq (Snapshot m) = ''snapshot error: '' @ m"
| "store_error_display sq (NotFound e i) = e @ '' not found: '' @ i"
| "store_error_display sq (Conflict e i er ar eh ah) =
     e @ '' '' @ i @ '' changed: expected revision/hash '' @ show_int er @ ''/'' @ eh
       @ '', actual '' @ show_int ar @ ''/'' @ ah"
| "store_error_display sq (StateConflict e i er ar es as) =
     e @ '' '' @ i @ '' changed: expected revision/state '' @ show_int er @ ''/'' @ es
       @ '', actual '' @ show_int ar @ ''/'' @ as"
| "store_error_display sq (InvariantViolation m) = ''store invariant violated: '' @ m"

section \<open>JSON values\<close>

text \<open>
  \<open>serde_json::Value\<close>. Parsing and printing are library code: they are the parameters
  \<open>from_str\<close> and \<open>to_str\<close> of the operations that use them.
\<close>

datatype json =
  JNull | JBool bool | JNumber string | JString string | JArray "json list"
| JObject "(string \<times> json) list"

fun is_object :: "json \<Rightarrow> bool" where
  "is_object (JObject _) = True"
| "is_object _ = False"

fun json_get :: "json \<Rightarrow> string \<Rightarrow> json option" where
  "json_get (JObject m) k = map_of m k"
| "json_get _ k = None"

fun json_as_str :: "json \<Rightarrow> string option" where
  "json_as_str (JString s) = Some s"
| "json_as_str _ = None"

section \<open>The interface of a string enumeration\<close>

text \<open>
  Every enumeration of \<open>model.rs\<close> that is stored in a TEXT column has \<open>as_str\<close> and
  \<open>parse\<close>. The code relies on two laws: what is written can be read back, and a string
  that can be read is the one that would be written.
\<close>

locale enum_codec =
  fixes as_str :: "'e \<Rightarrow> string"
    and parse :: "string \<Rightarrow> 'e option"
  assumes parse_as_str: "parse (as_str x) = Some x"
    and as_str_parse: "parse s = Some x \<Longrightarrow> as_str x = s"
begin

lemma as_str_inject: "as_str x = as_str y \<longleftrightarrow> x = y"
  using parse_as_str by (metis option.inject)

lemma parse_eq_Some_iff: "parse s = Some x \<longleftrightarrow> s = as_str x"
  using parse_as_str as_str_parse by metis

lemma parse_None_iff: "parse s = None \<longleftrightarrow> s \<notin> range as_str"
  using parse_eq_Some_iff by (metis option.exhaust option.distinct(1) rangeE rangeI)

end

section \<open>Projects, branches and documents\<close>

record SeedDocument =
  sd_id :: string
  sd_parent_id :: "string option"
  sd_kind :: string
  sd_title :: string
  sd_order_key :: string

record SeedBlock =
  sb_id :: string
  sb_document_id :: string
  sb_kind :: string
  sb_order_key :: string
  sb_content_json :: string
  sb_plain_text :: string
  sb_content_hash :: string
  sb_locked :: bool

record ProjectSeed =
  seed_project_id :: string
  seed_title :: string
  seed_language :: string
  seed_initial_commit_id :: string
  seed_initial_root_hash :: string
  seed_main_branch_id :: string
  seed_documents :: "SeedDocument list"
  seed_blocks :: "SeedBlock list"
  seed_created_at :: string

record ProjectRecord =
  pj_id :: string
  pj_title :: string
  pj_language :: string
  pj_schema_version :: int
  pj_head_commit_id :: string
  pj_revision :: int
  pj_created_at :: string
  pj_updated_at :: string

record BranchRecord =
  br_id :: string
  br_project_id :: string
  br_name :: string
  br_head_commit_id :: string
  br_created_at :: string
  br_updated_at :: string

record DocumentRecord =
  doc_id :: string
  doc_project_id :: string
  doc_parent_id :: "string option"
  doc_kind :: string
  doc_title :: string
  doc_order_key :: string
  doc_revision :: int
  doc_deleted_at :: "string option"

record DocumentMutation =
  mut_document_id :: string
  mut_expected_revision :: int
  mut_parent_id :: "string option"
  mut_kind :: string
  mut_title :: string
  mut_order_key :: string
  mut_active :: bool
  mut_before_hash :: string
  mut_after_hash :: string
  mut_operation :: string

record ApplyDocumentBatch =
  adb_mutations :: "DocumentMutation list"
  adb_commit_id :: string
  adb_branch_id :: string
  adb_expected_head_commit_id :: string
  adb_expected_project_revision :: int
  adb_new_root_hash :: string
  adb_reason :: string
  adb_actor_type :: string
  adb_actor_id :: "string option"
  adb_occurred_at :: string

record DocumentBatchReceipt =
  dbr_commit_id :: string
  dbr_previous_head_commit_id :: string
  dbr_project_revision :: int

record CreateDocumentWithBlock =
  cdb_document_id :: string
  cdb_document_parent_id :: "string option"
  cdb_document_kind :: string
  cdb_document_title :: string
  cdb_document_order_key :: string
  cdb_block_id :: string
  cdb_block_kind :: string
  cdb_block_order_key :: string
  cdb_block_content_json :: string
  cdb_block_plain_text :: string
  cdb_block_content_hash :: string
  cdb_block_locked :: bool
  cdb_commit_id :: string
  cdb_branch_id :: string
  cdb_expected_head_commit_id :: string
  cdb_expected_project_revision :: int
  cdb_new_root_hash :: string
  cdb_actor_type :: string
  cdb_actor_id :: "string option"
  cdb_occurred_at :: string

record CreateDocumentReceipt =
  cdr_document_id :: string
  cdr_block_id :: string
  cdr_commit_id :: string
  cdr_previous_head_commit_id :: string
  cdr_project_revision :: int

record BlockRecord =
  blk_id :: string
  blk_document_id :: string
  blk_kind :: string
  blk_order_key :: string
  blk_content_json :: string
  blk_plain_text :: string
  blk_content_hash :: string
  blk_revision :: int
  blk_locked :: bool

section \<open>Summaries, style samples and knowledge\<close>

record SummaryInvalidationRecord =
  inv_project_id :: string
  inv_scope_type :: string
  inv_scope_id :: string
  inv_source_commit_id :: string
  inv_reason :: string
  inv_invalidation_count :: int
  inv_created_at :: string

record PutSummaryRecord =
  put_project_id :: string
  put_scope_type :: string
  put_scope_id :: string
  put_expected_source_commit_id :: string
  put_source_hash :: string
  put_summary :: string
  put_summary_hash :: string
  put_provider_id :: string
  put_model :: string
  put_generated_at :: string

record SummaryRecord =
  sum_project_id :: string
  sum_scope_type :: string
  sum_scope_id :: string
  sum_source_commit_id :: string
  sum_source_hash :: string
  sum_summary :: string
  sum_summary_hash :: string
  sum_provider_id :: string
  sum_model :: string
  sum_revision :: int
  sum_generated_at :: string
  sum_updated_at :: string

record StyleSampleRecord =
  sty_id :: string
  sty_project_id :: string
  sty_title :: string
  sty_content :: string
  sty_content_hash :: string
  sty_status :: string
  sty_sensitivity :: string
  sty_revision :: int
  sty_created_at :: string
  sty_updated_at :: string

record CreateStyleSample =
  css_id :: string
  css_project_id :: string
  css_title :: string
  css_content :: string
  css_content_hash :: string
  css_sensitivity :: string
  css_created_at :: string

record SetStyleSampleStatus =
  sss_project_id :: string
  sss_id :: string
  sss_expected_revision :: int
  sss_status :: string
  sss_updated_at :: string

record KnowledgeItemRecord =
  kn_id :: string
  kn_project_id :: string
  kn_kind :: string
  kn_title :: string
  kn_content :: string
  kn_content_hash :: string
  kn_status :: string
  kn_authority :: string
  kn_sensitivity :: string
  kn_severity :: "string option"
  kn_revision :: int
  kn_created_at :: string
  kn_updated_at :: string

record CreateKnowledgeItem =
  cki_id :: string
  cki_project_id :: string
  cki_kind :: string
  cki_title :: string
  cki_content :: string
  cki_content_hash :: string
  cki_authority :: string
  cki_sensitivity :: string
  cki_severity :: "string option"
  cki_created_at :: string

record SetKnowledgeItemStatus =
  sks_project_id :: string
  sks_id :: string
  sks_expected_revision :: int
  sks_status :: string
  sks_updated_at :: string

section \<open>Operation and review enumerations\<close>

datatype OperationState =
  Draft | Compiling | Preflight | Queued | Streaming | Validating | Review | Accepted | Rejected | Conflicted | Failed | Cancelled

fun operation_state_as_str :: "OperationState \<Rightarrow> string" where
  "operation_state_as_str OperationState.Draft = ''draft''"
| "operation_state_as_str OperationState.Compiling = ''compiling''"
| "operation_state_as_str OperationState.Preflight = ''preflight''"
| "operation_state_as_str OperationState.Queued = ''queued''"
| "operation_state_as_str OperationState.Streaming = ''streaming''"
| "operation_state_as_str OperationState.Validating = ''validating''"
| "operation_state_as_str OperationState.Review = ''review''"
| "operation_state_as_str OperationState.Accepted = ''accepted''"
| "operation_state_as_str OperationState.Rejected = ''rejected''"
| "operation_state_as_str OperationState.Conflicted = ''conflicted''"
| "operation_state_as_str OperationState.Failed = ''failed''"
| "operation_state_as_str OperationState.Cancelled = ''cancelled''"

definition operation_state_parse :: "string \<Rightarrow> OperationState option" where
  "operation_state_parse value =
     (if value = ''draft'' then Some OperationState.Draft
      else if value = ''compiling'' then Some OperationState.Compiling
      else if value = ''preflight'' then Some OperationState.Preflight
      else if value = ''queued'' then Some OperationState.Queued
      else if value = ''streaming'' then Some OperationState.Streaming
      else if value = ''validating'' then Some OperationState.Validating
      else if value = ''review'' then Some OperationState.Review
      else if value = ''accepted'' then Some OperationState.Accepted
      else if value = ''rejected'' then Some OperationState.Rejected
      else if value = ''conflicted'' then Some OperationState.Conflicted
      else if value = ''failed'' then Some OperationState.Failed
      else if value = ''cancelled'' then Some OperationState.Cancelled
      else None)"

lemma operation_state_parse_as_str: "operation_state_parse (operation_state_as_str x) = Some x"
  by (cases x) (simp_all add: operation_state_parse_def)

lemma operation_state_as_str_parse: "operation_state_parse s = Some x \<Longrightarrow> operation_state_as_str x = s"
  by (auto simp: operation_state_parse_def split: if_splits)

interpretation operation_state_codec: enum_codec operation_state_as_str operation_state_parse
  by unfold_locales (simp_all add: operation_state_parse_as_str operation_state_as_str_parse)

datatype OperationArtifactKind =
  PatchProposal | Findings

fun operation_artifact_kind_as_str :: "OperationArtifactKind \<Rightarrow> string" where
  "operation_artifact_kind_as_str OperationArtifactKind.PatchProposal = ''patch_proposal''"
| "operation_artifact_kind_as_str OperationArtifactKind.Findings = ''findings''"

definition operation_artifact_kind_parse :: "string \<Rightarrow> OperationArtifactKind option" where
  "operation_artifact_kind_parse value =
     (if value = ''patch_proposal'' then Some OperationArtifactKind.PatchProposal
      else if value = ''findings'' then Some OperationArtifactKind.Findings
      else None)"

lemma operation_artifact_kind_parse_as_str: "operation_artifact_kind_parse (operation_artifact_kind_as_str x) = Some x"
  by (cases x) (simp_all add: operation_artifact_kind_parse_def)

lemma operation_artifact_kind_as_str_parse: "operation_artifact_kind_parse s = Some x \<Longrightarrow> operation_artifact_kind_as_str x = s"
  by (auto simp: operation_artifact_kind_parse_def split: if_splits)

interpretation operation_artifact_kind_codec: enum_codec operation_artifact_kind_as_str operation_artifact_kind_parse
  by unfold_locales (simp_all add: operation_artifact_kind_parse_as_str operation_artifact_kind_as_str_parse)

datatype ReviewSessionStatus =
  Review | Ready | Applied | Rejected | Conflicted

fun review_session_status_as_str :: "ReviewSessionStatus \<Rightarrow> string" where
  "review_session_status_as_str ReviewSessionStatus.Review = ''review''"
| "review_session_status_as_str ReviewSessionStatus.Ready = ''ready''"
| "review_session_status_as_str ReviewSessionStatus.Applied = ''applied''"
| "review_session_status_as_str ReviewSessionStatus.Rejected = ''rejected''"
| "review_session_status_as_str ReviewSessionStatus.Conflicted = ''conflicted''"

definition review_session_status_parse :: "string \<Rightarrow> ReviewSessionStatus option" where
  "review_session_status_parse value =
     (if value = ''review'' then Some ReviewSessionStatus.Review
      else if value = ''ready'' then Some ReviewSessionStatus.Ready
      else if value = ''applied'' then Some ReviewSessionStatus.Applied
      else if value = ''rejected'' then Some ReviewSessionStatus.Rejected
      else if value = ''conflicted'' then Some ReviewSessionStatus.Conflicted
      else None)"

lemma review_session_status_parse_as_str: "review_session_status_parse (review_session_status_as_str x) = Some x"
  by (cases x) (simp_all add: review_session_status_parse_def)

lemma review_session_status_as_str_parse: "review_session_status_parse s = Some x \<Longrightarrow> review_session_status_as_str x = s"
  by (auto simp: review_session_status_parse_def split: if_splits)

interpretation review_session_status_codec: enum_codec review_session_status_as_str review_session_status_parse
  by unfold_locales (simp_all add: review_session_status_parse_as_str review_session_status_as_str_parse)

datatype ReviewEventKind =
  Decision | Apply | Conflict | Rebase | Reject

fun review_event_kind_as_str :: "ReviewEventKind \<Rightarrow> string" where
  "review_event_kind_as_str ReviewEventKind.Decision = ''decision''"
| "review_event_kind_as_str ReviewEventKind.Apply = ''apply''"
| "review_event_kind_as_str ReviewEventKind.Conflict = ''conflict''"
| "review_event_kind_as_str ReviewEventKind.Rebase = ''rebase''"
| "review_event_kind_as_str ReviewEventKind.Reject = ''reject''"

definition review_event_kind_parse :: "string \<Rightarrow> ReviewEventKind option" where
  "review_event_kind_parse value =
     (if value = ''decision'' then Some ReviewEventKind.Decision
      else if value = ''apply'' then Some ReviewEventKind.Apply
      else if value = ''conflict'' then Some ReviewEventKind.Conflict
      else if value = ''rebase'' then Some ReviewEventKind.Rebase
      else if value = ''reject'' then Some ReviewEventKind.Reject
      else None)"

lemma review_event_kind_parse_as_str: "review_event_kind_parse (review_event_kind_as_str x) = Some x"
  by (cases x) (simp_all add: review_event_kind_parse_def)

lemma review_event_kind_as_str_parse: "review_event_kind_parse s = Some x \<Longrightarrow> review_event_kind_as_str x = s"
  by (auto simp: review_event_kind_parse_def split: if_splits)

interpretation review_event_kind_codec: enum_codec review_event_kind_as_str review_event_kind_parse
  by unfold_locales (simp_all add: review_event_kind_parse_as_str review_event_kind_as_str_parse)

datatype ReviewDecision =
  Accepted | Rejected

fun review_decision_as_str :: "ReviewDecision \<Rightarrow> string" where
  "review_decision_as_str ReviewDecision.Accepted = ''accepted''"
| "review_decision_as_str ReviewDecision.Rejected = ''rejected''"

definition review_decision_parse :: "string \<Rightarrow> ReviewDecision option" where
  "review_decision_parse value =
     (if value = ''accepted'' then Some ReviewDecision.Accepted
      else if value = ''rejected'' then Some ReviewDecision.Rejected
      else None)"

lemma review_decision_parse_as_str: "review_decision_parse (review_decision_as_str x) = Some x"
  by (cases x) (simp_all add: review_decision_parse_def)

lemma review_decision_as_str_parse: "review_decision_parse s = Some x \<Longrightarrow> review_decision_as_str x = s"
  by (auto simp: review_decision_parse_def split: if_splits)

interpretation review_decision_codec: enum_codec review_decision_as_str review_decision_parse
  by unfold_locales (simp_all add: review_decision_parse_as_str review_decision_as_str_parse)

section \<open>Operation runs and their audit\<close>

record NewContextPacket =
  ncp_id :: string
  ncp_operation_intent_id :: string
  ncp_project_id :: string
  ncp_base_commit_id :: string
  ncp_packet_hash :: string
  ncp_payload_json :: string
  ncp_created_at :: string

record ContextPacketRecord =
  cp_id :: string
  cp_operation_intent_id :: string
  cp_project_id :: string
  cp_base_commit_id :: string
  cp_packet_hash :: string
  cp_payload_json :: string
  cp_created_at :: string

record ModelUsageRecord =
  mu_input_tokens :: int
  mu_output_tokens :: int
  mu_total_tokens :: int
  mu_cached_input_tokens :: "int option"
  mu_reasoning_tokens :: "int option"

record OperationFailureRecord =
  of_code :: string
  of_message :: string
  of_retriable :: bool

record NewOperationRun =
  nor_id :: string
  nor_operation_intent_id :: string
  nor_project_id :: string
  nor_base_commit_id :: string
  nor_provider_id :: string
  nor_provider_configuration_id :: "string option"
  nor_provider_endpoint_id :: "string option"
  nor_model :: string
  nor_state :: OperationState
  nor_response_id :: "string option"
  nor_finish_reason :: "string option"
  nor_usage :: "ModelUsageRecord option"
  nor_failure :: "OperationFailureRecord option"
  nor_started_at :: string
  nor_updated_at :: string

record OperationRunRecord =
  orr_id :: string
  orr_operation_intent_id :: string
  orr_project_id :: string
  orr_base_commit_id :: string
  orr_provider_id :: string
  orr_provider_configuration_id :: "string option"
  orr_provider_endpoint_id :: "string option"
  orr_model :: string
  orr_state :: OperationState
  orr_context_packet_id :: "string option"
  orr_response_id :: "string option"
  orr_finish_reason :: "string option"
  orr_usage :: "ModelUsageRecord option"
  orr_failure :: "OperationFailureRecord option"
  orr_started_at :: string
  orr_updated_at :: string

record OperationInsightsRecord =
  oir_total_input_tokens :: int
  oir_total_output_tokens :: int
  oir_total_tokens :: int
  oir_accepted_count :: int
  oir_rejected_count :: int
  oir_conflicted_count :: int
  oir_total_runs :: int

record RevisionMetrics =
  rm_total_proposals_accepted :: int
  rm_proposals_with_rejection :: int
  rm_accepted_after_rejection :: int
  rm_accepted_after_rejection_rate :: rat

record PayloadHashVariations =
  phv_total_proposals :: int
  phv_proposals_with_variation :: int
  phv_variations :: int
  phv_variation_rate :: rat

record NewOperationLifecycleEvent =
  nle_from_state :: OperationState
  nle_to_state :: OperationState
  nle_occurred_at :: string
  nle_reason :: "string option"

record OperationLifecycleEventRecord =
  le_run_id :: string
  le_sequence :: int
  le_from_state :: OperationState
  le_to_state :: OperationState
  le_occurred_at :: string
  le_reason :: "string option"

record NewOperationAttempt =
  noa_sequence :: int
  noa_started_at :: string
  noa_finished_at :: string
  noa_outcome :: string
  noa_response_started :: bool
  noa_response_id :: "string option"
  noa_failure_code :: "string option"
  noa_failure_kind :: "string option"
  noa_http_status :: "int option"
  noa_remote_request_id :: "string option"
  noa_retry_after_ms :: "int option"
  noa_retriable :: "bool option"
  noa_retry_delay_ms :: "int option"

record OperationAttemptRecord =
  oa_run_id :: string
  oa_sequence :: int
  oa_started_at :: string
  oa_finished_at :: string
  oa_outcome :: string
  oa_response_started :: bool
  oa_response_id :: "string option"
  oa_failure_code :: "string option"
  oa_failure_kind :: "string option"
  oa_http_status :: "int option"
  oa_remote_request_id :: "string option"
  oa_retry_after_ms :: "int option"
  oa_retriable :: "bool option"
  oa_retry_delay_ms :: "int option"

record NewOperationArtifact =
  nar_id :: string
  nar_kind :: OperationArtifactKind
  nar_binding_hash :: string
  nar_payload_json :: string
  nar_created_at :: string

record OperationArtifactRecord =
  art_id :: string
  art_run_id :: string
  art_kind :: OperationArtifactKind
  art_binding_hash :: string
  art_payload_json :: string
  art_created_at :: string

record PersistOperationBundle =
  pob_run :: NewOperationRun
  pob_context_packet :: "NewContextPacket option"
  pob_lifecycle_events :: "NewOperationLifecycleEvent list"
  pob_attempts :: "NewOperationAttempt list"
  pob_artifact :: "NewOperationArtifact option"

section \<open>Reviews and candidate branches\<close>

record AppendReviewEvent =
  are_id :: string
  are_proposal_id :: string
  are_expected_revision :: int
  are_expected_status :: ReviewSessionStatus
  are_kind :: ReviewEventKind
  are_next_status :: ReviewSessionStatus
  are_hunk_id :: "string option"
  are_decision :: "ReviewDecision option"
  are_payload_json :: "string option"
  are_occurred_at :: string

record ReviewSessionRecord =
  rsr_proposal_id :: string
  rsr_run_id :: string
  rsr_revision :: int
  rsr_status :: ReviewSessionStatus
  rsr_updated_at :: string

record ReviewEventRecord =
  rev_id :: string
  rev_proposal_id :: string
  rev_sequence :: int
  rev_base_revision :: int
  rev_new_revision :: int
  rev_kind :: ReviewEventKind
  rev_previous_status :: ReviewSessionStatus
  rev_next_status :: ReviewSessionStatus
  rev_hunk_id :: "string option"
  rev_decision :: "ReviewDecision option"
  rev_payload_json :: "string option"
  rev_occurred_at :: string

record ReviewCandidateBranchRecord =
  rcb_proposal_id :: string
  rcb_branch_id :: string
  rcb_branch_name :: string
  rcb_commit_id :: string
  rcb_snapshot_id :: string
  rcb_created_at :: string

record ReviewCandidateSummaryRecord =
  rcs_proposal_id :: string
  rcs_run_id :: string
  rcs_project_id :: string
  rcs_operation_intent_id :: string
  rcs_provider_id :: string
  rcs_model :: string
  rcs_base_commit_id :: string
  rcs_target_document_id :: string
  rcs_target_block_id :: string
  rcs_hunk_count :: int
  rcs_summary :: "string option"
  rcs_revision :: int
  rcs_status :: ReviewSessionStatus
  rcs_created_at :: string
  rcs_updated_at :: string
  rcs_candidate_branch :: "ReviewCandidateBranchRecord option"

record CreateReviewCandidateBranch =
  crb_proposal_id :: string
  crb_expected_review_revision :: int
  crb_project_id :: string
  crb_expected_project_head_commit_id :: string
  crb_branch_id :: string
  crb_branch_name :: string
  crb_commit_id :: string
  crb_snapshot_id :: string
  crb_target_document_id :: string
  crb_target_block_id :: string
  crb_expected_block_revision :: int
  crb_expected_block_hash :: string
  crb_new_content_json :: string
  crb_new_plain_text :: string
  crb_new_content_hash :: string
  crb_new_root_hash :: string
  crb_occurred_at :: string

section \<open>Edits, commits and snapshots\<close>

record ApplyBlockEdit =
  abe_edit_id :: string
  abe_commit_id :: string
  abe_branch_id :: string
  abe_expected_head_commit_id :: string
  abe_expected_project_revision :: int
  abe_block_id :: string
  abe_expected_revision :: int
  abe_expected_hash :: string
  abe_new_content_json :: string
  abe_new_plain_text :: string
  abe_new_content_hash :: string
  abe_new_root_hash :: string
  abe_reason :: string
  abe_actor_type :: string
  abe_actor_id :: "string option"
  abe_occurred_at :: string
  abe_review_event :: "AppendReviewEvent option"

record EditReceipt =
  er_edit_id :: string
  er_commit_id :: string
  er_previous_head_commit_id :: string
  er_block_id :: string
  er_new_revision :: int
  er_new_content_hash :: string

record CommitRecord =
  cm_id :: string
  cm_project_id :: string
  cm_root_hash :: string
  cm_reason :: string
  cm_actor_type :: string
  cm_actor_id :: "string option"
  cm_created_at :: string
  cm_parents :: "string list"

record CreateSnapshot =
  csn_id :: string
  csn_project_id :: string
  csn_commit_id :: string
  csn_root_hash :: string
  csn_codec :: string
  csn_codec_version :: int
  csn_payload :: bytes
  csn_checksum :: string
  csn_created_at :: string

record SnapshotRecord =
  snr_id :: string
  snr_project_id :: string
  snr_commit_id :: string
  snr_root_hash :: string
  snr_codec :: string
  snr_codec_version :: int
  snr_payload :: bytes
  snr_checksum :: string
  snr_created_at :: string

record RestoreSnapshot =
  rs_snapshot_id :: string
  rs_branch_id :: string
  rs_new_commit_id :: string
  rs_edit_id_prefix :: string
  rs_actor_type :: string
  rs_actor_id :: "string option"
  rs_occurred_at :: string

record RestoreReceipt =
  rr_snapshot_id :: string
  rr_commit_id :: string
  rr_previous_head_commit_id :: string
  rr_restored_root_hash :: string
  rr_changed_blocks :: nat

section \<open>Facts about the stored enumerations\<close>

lemmas as_str_inject [simp] =
  operation_state_codec.as_str_inject operation_artifact_kind_codec.as_str_inject
  review_session_status_codec.as_str_inject review_event_kind_codec.as_str_inject
  review_decision_codec.as_str_inject

lemmas parse_as_str [simp] =
  operation_state_parse_as_str operation_artifact_kind_parse_as_str
  review_session_status_parse_as_str review_event_kind_parse_as_str
  review_decision_parse_as_str

lemmas parse_eq_Some_iff =
  operation_state_codec.parse_eq_Some_iff operation_artifact_kind_codec.parse_eq_Some_iff
  review_session_status_codec.parse_eq_Some_iff review_event_kind_codec.parse_eq_Some_iff
  review_decision_codec.parse_eq_Some_iff

end
