(* ===== verification/Schema.thy ===== *)
theory Schema
  imports Model
begin

text \<open>
  The database of the store: the tables that \<open>migration.rs\<close> creates (schema version 11),
  one list of rows per table, and the SQL statements that write them. Every INSERT checks
  what SQLite checks, in its order: CHECK constraints, PRIMARY KEY and UNIQUE, foreign
  keys; an UPDATE also runs the BEFORE UPDATE triggers. A violated constraint is the error
  of the statement and leaves the database as it was. The immutability triggers need no
  definition: no statement of the model updates or deletes a row of those tables.

  Tables whose columns are the fields of a structure of \<open>model.rs\<close> store that structure;
  the others have a row record here. Columns that hold an enumeration stay strings, as in
  the database, and are parsed by the code that reads them.
\<close>

section \<open>The library code behind the schema\<close>

text \<open>
  \<open>serde_from_str\<close> is \<open>serde_json::from_str::<Value>\<close> (\<open>Inl\<close> is its error message) and
  \<open>sqlite_json\<close> the JSON parser of SQLite behind \<open>json_valid\<close> and \<open>json_type\<close>. They are
  different parsers and are parameters of the model, as are the functions
  \<open>json_extract(text, path)\<close> and \<open>json_array_length(value)\<close> of SQLite, which return a
  value of one of SQLite's storage classes.
\<close>

datatype SqlValue = SqlNull | SqlInteger int | SqlReal string | SqlText string

record Env =
  serde_from_str :: "string \<Rightarrow> string + json"
  sqlite_json :: "string \<Rightarrow> json option"
  sqlite_json_extract :: "string \<Rightarrow> string \<Rightarrow> SqlValue"
  sqlite_json_array_length :: "SqlValue \<Rightarrow> SqliteError + SqlValue"

definition json_valid :: "Env \<Rightarrow> string \<Rightarrow> bool" where
  "json_valid env s \<longleftrightarrow> sqlite_json env s \<noteq> None"

definition json_is_object :: "Env \<Rightarrow> string \<Rightarrow> bool" where
  "json_is_object env s \<longleftrightarrow> (case sqlite_json env s of Some j \<Rightarrow> is_object j | None \<Rightarrow> False)"

text \<open>
  \<open>row.get\<close> of \<open>rusqlite\<close> into a \<open>String\<close>, an \<open>i64\<close> and an \<open>Option<String>\<close>: a value of
  another storage class is the error \<open>InvalidColumnType\<close>, here with the column's name.
\<close>

fun get_text :: "string \<Rightarrow> SqlValue \<Rightarrow> string StoreResult" where
  "get_text col (SqlText s) = Inr s"
| "get_text col _ = Inl (Sqlite (InvalidColumnType col))"

fun get_i64 :: "string \<Rightarrow> SqlValue \<Rightarrow> int StoreResult" where
  "get_i64 col (SqlInteger i) = Inr i"
| "get_i64 col _ = Inl (Sqlite (InvalidColumnType col))"

fun get_opt_text :: "string \<Rightarrow> SqlValue \<Rightarrow> string option StoreResult" where
  "get_opt_text col SqlNull = Inr None"
| "get_opt_text col v = map_sum id Some (get_text col v)"

text \<open>SQLite's text functions read a value up to its first NUL.\<close>

definition c_text :: "string \<Rightarrow> string" where
  "c_text s = takeWhile (\<lambda>c. c \<noteq> CHR 0x00) s"

definition sql_length :: "string \<Rightarrow> nat" where
  "sql_length s = chars_count (c_text s)"

section \<open>Rows\<close>

record ProjectRow =
  pr_id :: string
  pr_title :: string
  pr_language :: string
  pr_schema_version :: int
  pr_head_commit_id :: "string option"
  pr_revision :: int
  pr_created_at :: string
  pr_updated_at :: string

record BlockRow = BlockRecord +
  blk_deleted_at :: "string option"

record CommitRow =
  cn_id :: string
  cn_project_id :: string
  cn_root_hash :: string
  cn_reason :: string
  cn_actor_type :: string
  cn_actor_id :: "string option"
  cn_created_at :: string

record CommitParentRow =
  par_commit_id :: string
  par_parent_id :: string
  par_position :: int

record EditJournalRow =
  ej_id :: string
  ej_project_id :: string
  ej_block_id :: string
  ej_base_revision :: int
  ej_new_revision :: int
  ej_before_hash :: string
  ej_after_hash :: string
  ej_before_content_json :: string
  ej_after_content_json :: string
  ej_before_plain_text :: string
  ej_after_plain_text :: string
  ej_occurred_at :: string

record ChangeSetRow =
  chg_commit_id :: string
  chg_position :: int
  chg_entity_type :: string
  chg_entity_id :: string
  chg_operation :: string
  chg_before_hash :: "string option"
  chg_after_hash :: "string option"
  chg_edit_journal_id :: "string option"

record FtsRow =
  fts_block_id :: string
  fts_document_id :: string
  fts_plain_text :: string

text \<open>\<open>RawOperationRun\<close> of \<open>operation.rs\<close>: one row of \<open>operation_run\<close>.\<close>

record RawOperationRun =
  ror_id :: string
  ror_operation_intent_id :: string
  ror_project_id :: string
  ror_base_commit_id :: string
  ror_provider_id :: string
  ror_provider_configuration_id :: "string option"
  ror_provider_endpoint_id :: "string option"
  ror_model :: string
  ror_state :: string
  ror_context_packet_id :: "string option"
  ror_response_id :: "string option"
  ror_finish_reason :: "string option"
  ror_input_tokens :: "int option"
  ror_output_tokens :: "int option"
  ror_total_tokens :: "int option"
  ror_cached_input_tokens :: "int option"
  ror_reasoning_tokens :: "int option"
  ror_failure_code :: "string option"
  ror_failure_message :: "string option"
  ror_failure_retriable :: "int option"
  ror_started_at :: string
  ror_updated_at :: string

record LifecycleRow =
  lr_run_id :: string
  lr_sequence :: int
  lr_from_state :: string
  lr_to_state :: string
  lr_occurred_at :: string
  lr_reason :: "string option"

record ArtifactRow =
  ar_id :: string
  ar_run_id :: string
  ar_kind :: string
  ar_binding_hash :: string
  ar_payload_json :: string
  ar_created_at :: string

record ReviewHeadRow =
  rh_proposal_id :: string
  rh_run_id :: string
  rh_revision :: int
  rh_status :: string
  rh_updated_at :: string

record ReviewEventRow =
  re_id :: string
  re_proposal_id :: string
  re_sequence :: int
  re_base_revision :: int
  re_new_revision :: int
  re_kind :: string
  re_previous_status :: string
  re_next_status :: string
  re_hunk_id :: "string option"
  re_decision :: "string option"
  re_payload_json :: "string option"
  re_occurred_at :: string

record CandidateRow =
  cb_proposal_id :: string
  cb_branch_id :: string
  cb_commit_id :: string
  cb_snapshot_id :: string
  cb_created_at :: string

section \<open>The database\<close>

record Database =
  user_version :: int
  schema_migration_t :: "int list"
  project_t :: "ProjectRow list"
  document_t :: "DocumentRecord list"
  block_t :: "BlockRow list"
  block_fts_t :: "FtsRow list"
  commit_node_t :: "CommitRow list"
  commit_parent_t :: "CommitParentRow list"
  branch_t :: "BranchRecord list"
  edit_journal_t :: "EditJournalRow list"
  change_set_t :: "ChangeSetRow list"
  snapshot_t :: "SnapshotRecord list"
  packet_t :: "ContextPacketRecord list"
  run_t :: "RawOperationRun list"
  lifecycle_t :: "LifecycleRow list"
  artifact_t :: "ArtifactRow list"
  review_head_t :: "ReviewHeadRow list"
  review_event_t :: "ReviewEventRow list"
  attempt_t :: "OperationAttemptRecord list"
  candidate_t :: "CandidateRow list"
  style_t :: "StyleSampleRecord list"
  summary_t :: "SummaryRecord list"
  invalidation_t :: "SummaryInvalidationRecord list"
  knowledge_t :: "KnowledgeItemRecord list"

definition empty_database :: Database where
  "empty_database =
     \<lparr>user_version = 11, schema_migration_t = [1, 2, 3, 4, 5, 6, 7, 8, 9, 10, 11],
      project_t = [], document_t = [], block_t = [], block_fts_t = [], commit_node_t = [],
      commit_parent_t = [], branch_t = [], edit_journal_t = [], change_set_t = [],
      snapshot_t = [], packet_t = [], run_t = [], lifecycle_t = [], artifact_t = [],
      review_head_t = [], review_event_t = [], attempt_t = [], candidate_t = [],
      style_t = [], summary_t = [], invalidation_t = [], knowledge_t = []\<rparr>"

section \<open>Constraints and transactions\<close>

text \<open>
  \<open>constrain\<close> runs the checks of a statement in order: the first violated one is the
  statement's error, else the statement takes effect.
\<close>

definition constrain :: "(bool \<times> SqliteError) list \<Rightarrow> 'd \<Rightarrow> 'd StoreResult" where
  "constrain checks d =
     (case List.find (\<lambda>(ok, _). \<not> ok) checks of
        None \<Rightarrow> Inr d
      | Some (_, e) \<Rightarrow> Inl (Sqlite e))"

lemma constrain_Nil: "constrain [] d = Inr d"
  and constrain_Cons:
    "constrain ((b, e) # cs) d = (if b then constrain cs d else Inl (Sqlite e))"
  by (simp_all add: constrain_def)

lemma constrain_Inr_iff [result_simps]: "constrain cs d = Inr d' \<longleftrightarrow> list_all fst cs \<and> d' = d"
  by (induction cs) (auto simp: constrain_def)

text \<open>
  \<open>transaction_with_behavior(Immediate)\<close> with its \<open>commit\<close> or, on an early return, the
  rollback when it is dropped.
\<close>

definition run_transaction ::
  "(Database \<Rightarrow> ('a \<times> Database) StoreResult) \<Rightarrow> Database \<Rightarrow> 'a StoreResult \<times> Database" where
  "run_transaction body db =
     (case body db of Inl e \<Rightarrow> (Inl e, db) | Inr (x, db') \<Rightarrow> (Inr x, db'))"

lemma run_transaction_Inr_iff [result_simps]:
  "run_transaction body db = (Inr x, db') \<longleftrightarrow> body db = Inr (x, db')"
  by (auto simp: run_transaction_def split: sum.splits)

lemma run_transaction_rollback: "run_transaction body db = (Inl e, db') \<Longrightarrow> db' = db"
  by (auto simp: run_transaction_def split: sum.splits)

text \<open>A statement over all rows of a loop keeps what each of its steps keeps.\<close>

definition exists_row :: "('r \<Rightarrow> bool) \<Rightarrow> 'r list \<Rightarrow> bool" where
  "exists_row p rows \<longleftrightarrow> list_ex p rows"

lemma exists_row_iff [simp]: "exists_row p rows \<longleftrightarrow> (\<exists>r \<in> set rows. p r)"
  by (simp add: exists_row_def list_ex_iff)

section \<open>Interfaces of tables\<close>

text \<open>
  What the code relies on when it inserts into a table with a key: the row is there
  afterwards, after all the rows that were there, and its key was new.
\<close>

locale keyed_table =
  fixes rows :: "Database \<Rightarrow> 'r list"
    and key :: "'r \<Rightarrow> 'k"
    and ins :: "'r \<Rightarrow> Database \<Rightarrow> Database StoreResult"
  assumes ins_rows: "ins r db = Inr db' \<Longrightarrow> rows db' = rows db @ [r]"
    and ins_fresh: "ins r db = Inr db' \<Longrightarrow> key r \<notin> key ` set (rows db)"
begin

lemma lookup_inserted: "ins r db = Inr db' \<Longrightarrow> find_by key (key r) (rows db') = Some r"
  using ins_rows [of r db db'] ins_fresh [of r db db'] find_by_None_iff [of key "key r" "rows db"]
  by simp

lemma lookup_other:
  "ins r db = Inr db' \<Longrightarrow> k \<noteq> key r \<Longrightarrow> find_by key k (rows db') = find_by key k (rows db)"
  using ins_rows by (auto split: option.split)

lemma distinct_keys:
  "ins r db = Inr db' \<Longrightarrow> distinct (map key (rows db)) \<Longrightarrow> distinct (map key (rows db'))"
  using ins_rows ins_fresh by auto

lemma duplicate_rejected:
  assumes "ins r db = Inr db'" and "key r' = key r"
  shows "\<exists>e. ins r' db' = Inl e"
proof (cases "ins r' db'")
  case (Inr db'')
  with assms show ?thesis using ins_rows [OF assms(1)] ins_fresh [OF Inr] by auto
qed simp

end

text \<open>
  A log numbers the entries of an owner: the code inserts with the next number and the
  log stays gap-free.
\<close>

locale sequenced_log = keyed_table rows "\<lambda>r. (owner r, seqno r)" ins
  for rows :: "Database \<Rightarrow> 'r list"
    and owner :: "'r \<Rightarrow> 'k"
    and seqno :: "'r \<Rightarrow> int"
    and ins :: "'r \<Rightarrow> Database \<Rightarrow> Database StoreResult"
begin

lemma append_gap_free:
  assumes "ins r db = Inr db'" and "gap_free owner seqno (rows db)"
    and "seqno r = next_seq owner seqno (owner r) (rows db)"
  shows "gap_free owner seqno (rows db')"
  using ins_rows [OF assms(1)] gap_free_snoc [OF assms(2,3)] by simp

lemma next_seq_fresh:
  assumes "gap_free owner seqno (rows db)"
  shows "(k, next_seq owner seqno k (rows db)) \<notin> (\<lambda>r. (owner r, seqno r)) ` set (rows db)"
  using gap_free_bounds [OF assms] by fastforce

end

end
