(* ===== verification/OperationTables.thy ===== *)
theory OperationTables
  imports Schema
begin

text \<open>
  The tables of operation runs and reviews: their constraints and triggers in
  \<open>migration.rs\<close> (migrations 2, 7, 8 and 9) as the INSERT and UPDATE statements that
  \<open>operation.rs\<close> executes.
\<close>

section \<open>CHECK constraints\<close>

definition provider_ids :: "string list" where
  "provider_ids = [''deepseek'', ''qwen'', ''kimi'', ''minimax'', ''ollama'', ''openai_compatible'']"

definition operation_state_names :: "string list" where
  "operation_state_names =
     [''draft'', ''compiling'', ''preflight'', ''queued'', ''streaming'', ''validating'',
      ''review'', ''accepted'', ''rejected'', ''conflicted'', ''failed'', ''cancelled'']"

definition review_status_names :: "string list" where
  "review_status_names = [''review'', ''ready'', ''applied'', ''rejected'', ''conflicted'']"

definition review_kind_names :: "string list" where
  "review_kind_names = [''decision'', ''apply'', ''conflict'', ''rebase'', ''reject'']"

definition failure_kinds :: "string list" where
  "failure_kinds =
     [''authentication'', ''permission'', ''rate_limit'', ''quota'', ''invalid_request'',
      ''content_filter'', ''server'', ''network'', ''timeout'', ''cancelled'', ''protocol'',
      ''configuration'']"

definition hex_lower :: "char \<Rightarrow> bool" where
  "hex_lower c \<longleftrightarrow> c \<in> set ''0123456789abcdef''"

definition nonneg :: "int option \<Rightarrow> bool" where
  "nonneg x \<longleftrightarrow> opt_all (\<lambda>v. 0 \<le> v) x"

definition endpoint_check :: "RawOperationRun \<Rightarrow> bool" where
  "endpoint_check r \<longleftrightarrow>
     (case (ror_provider_configuration_id r, ror_provider_endpoint_id r) of
        (Some cfg, Some ep) \<Rightarrow>
          ror_provider_id r = ''openai_compatible''
          \<and> cfg = ''provider-openai-compatible-'' @ ep
          \<and> sql_length ep = 41
          \<and> take 9 (c_text ep) = ''endpoint-''
          \<and> list_all hex_lower (drop 9 (c_text ep))
      | _ \<Rightarrow> False)
     \<or> (ror_provider_id r \<noteq> ''openai_compatible'' \<and> ror_provider_endpoint_id r = None)"

definition usage_check :: "RawOperationRun \<Rightarrow> bool" where
  "usage_check r \<longleftrightarrow>
     (case (ror_input_tokens r, ror_output_tokens r, ror_total_tokens r) of
        (None, None, None) \<Rightarrow> True
      | (Some i, Some out, Some t) \<Rightarrow> i + out \<le> t
      | _ \<Rightarrow> False)"

definition failure_check :: "RawOperationRun \<Rightarrow> bool" where
  "failure_check r \<longleftrightarrow>
     (ror_failure_code r = None \<and> ror_failure_message r = None \<and> ror_failure_retriable r = None)
     \<or> (ror_failure_code r \<noteq> None \<and> ror_failure_message r \<noteq> None
          \<and> ror_failure_retriable r \<noteq> None)"

definition run_checks :: "RawOperationRun \<Rightarrow> bool" where
  "run_checks r \<longleftrightarrow>
     ror_provider_id r \<in> set provider_ids
     \<and> ror_state r \<in> set operation_state_names
     \<and> nonneg (ror_input_tokens r) \<and> nonneg (ror_output_tokens r) \<and> nonneg (ror_total_tokens r)
     \<and> nonneg (ror_cached_input_tokens r) \<and> nonneg (ror_reasoning_tokens r)
     \<and> opt_all (\<lambda>v. v = 0 \<or> v = 1) (ror_failure_retriable r)
     \<and> endpoint_check r \<and> usage_check r \<and> failure_check r"

definition attempt_checks :: "OperationAttemptRecord \<Rightarrow> bool" where
  "attempt_checks a \<longleftrightarrow>
     1 \<le> oa_sequence a \<and> oa_sequence a \<le> 3
     \<and> oa_outcome a \<in> set [''succeeded'', ''failed'']
     \<and> opt_all (\<lambda>s. 1 \<le> sql_length s \<and> sql_length s \<le> 512) (oa_response_id a)
     \<and> opt_all (\<lambda>s. 1 \<le> sql_length s \<and> sql_length s \<le> 200) (oa_failure_code a)
     \<and> opt_all (\<lambda>s. s \<in> set failure_kinds) (oa_failure_kind a)
     \<and> opt_all (\<lambda>v. 100 \<le> v \<and> v \<le> 599) (oa_http_status a)
     \<and> opt_all (\<lambda>s. 1 \<le> sql_length s \<and> sql_length s \<le> 512) (oa_remote_request_id a)
     \<and> opt_all (\<lambda>v. 0 \<le> v \<and> v \<le> 86400000) (oa_retry_after_ms a)
     \<and> opt_all (\<lambda>v. 0 \<le> v \<and> v \<le> 10000) (oa_retry_delay_ms a)
     \<and> ((oa_response_started a \<and> oa_response_id a \<noteq> None)
        \<or> (\<not> oa_response_started a \<and> oa_response_id a = None))
     \<and> ((oa_outcome a = ''succeeded'' \<and> oa_response_started a \<and> oa_response_id a \<noteq> None
          \<and> oa_failure_code a = None \<and> oa_failure_kind a = None \<and> oa_http_status a = None
          \<and> oa_remote_request_id a = None \<and> oa_retry_after_ms a = None
          \<and> oa_retriable a = None \<and> oa_retry_delay_ms a = None)
        \<or> (oa_outcome a = ''failed'' \<and> oa_failure_code a \<noteq> None \<and> oa_retriable a \<noteq> None))
     \<and> (oa_retry_delay_ms a = None
        \<or> (oa_outcome a = ''failed'' \<and> oa_retriable a = Some True \<and> \<not> oa_response_started a))"

section \<open>INSERT statements\<close>

definition insert_packet :: "Env \<Rightarrow> ContextPacketRecord \<Rightarrow> Database \<Rightarrow> Database StoreResult" where
  "insert_packet env p db =
     constrain
       [(json_is_object env (cp_payload_json p), ConstraintCheck ''context_packet_record''),
        (cp_id p \<notin> cp_id ` set (packet_t db), ConstraintPrimaryKey ''context_packet_record.id''),
        (cp_project_id p \<in> pr_id ` set (project_t db), ConstraintForeignKey ''project''),
        (cp_base_commit_id p \<in> cn_id ` set (commit_node_t db), ConstraintForeignKey ''commit_node'')]
       (db\<lparr>packet_t := packet_t db @ [p]\<rparr>)"

definition insert_run :: "RawOperationRun \<Rightarrow> Database \<Rightarrow> Database StoreResult" where
  "insert_run r db =
     constrain
       [(run_checks r, ConstraintCheck ''operation_run''),
        (ror_id r \<notin> ror_id ` set (run_t db), ConstraintPrimaryKey ''operation_run.id''),
        (ror_context_packet_id r = None
           \<or> ror_context_packet_id r \<notin> ror_context_packet_id ` set (run_t db),
         ConstraintUnique ''operation_run.context_packet_id''),
        (ror_project_id r \<in> pr_id ` set (project_t db), ConstraintForeignKey ''project''),
        (ror_base_commit_id r \<in> cn_id ` set (commit_node_t db), ConstraintForeignKey ''commit_node''),
        (opt_all (\<lambda>p. p \<in> cp_id ` set (packet_t db)) (ror_context_packet_id r),
         ConstraintForeignKey ''context_packet_record'')]
       (db\<lparr>run_t := run_t db @ [r]\<rparr>)"

definition insert_lifecycle :: "LifecycleRow \<Rightarrow> Database \<Rightarrow> Database StoreResult" where
  "insert_lifecycle e db =
     constrain
       [(1 \<le> lr_sequence e, ConstraintCheck ''operation_lifecycle_event''),
        (lr_from_state e \<in> set operation_state_names, ConstraintCheck ''operation_lifecycle_event''),
        (lr_to_state e \<in> set operation_state_names, ConstraintCheck ''operation_lifecycle_event''),
        ((lr_run_id e, lr_sequence e) \<notin> (\<lambda>x. (lr_run_id x, lr_sequence x)) ` set (lifecycle_t db),
         ConstraintPrimaryKey ''operation_lifecycle_event''),
        (lr_run_id e \<in> ror_id ` set (run_t db), ConstraintForeignKey ''operation_run'')]
       (db\<lparr>lifecycle_t := lifecycle_t db @ [e]\<rparr>)"

definition insert_attempt :: "OperationAttemptRecord \<Rightarrow> Database \<Rightarrow> Database StoreResult" where
  "insert_attempt a db =
     constrain
       [(attempt_checks a, ConstraintCheck ''operation_attempt''),
        ((oa_run_id a, oa_sequence a) \<notin> (\<lambda>x. (oa_run_id x, oa_sequence x)) ` set (attempt_t db),
         ConstraintPrimaryKey ''operation_attempt''),
        (oa_run_id a \<in> ror_id ` set (run_t db), ConstraintForeignKey ''operation_run'')]
       (db\<lparr>attempt_t := attempt_t db @ [a]\<rparr>)"

definition insert_artifact :: "Env \<Rightarrow> ArtifactRow \<Rightarrow> Database \<Rightarrow> Database StoreResult" where
  "insert_artifact env a db =
     constrain
       [(ar_kind a \<in> set [''patch_proposal'', ''findings''], ConstraintCheck ''operation_artifact''),
        (json_is_object env (ar_payload_json a), ConstraintCheck ''operation_artifact''),
        (ar_id a \<notin> ar_id ` set (artifact_t db), ConstraintPrimaryKey ''operation_artifact.id''),
        (ar_run_id a \<notin> ar_run_id ` set (artifact_t db), ConstraintUnique ''operation_artifact.run_id''),
        (ar_run_id a \<in> ror_id ` set (run_t db), ConstraintForeignKey ''operation_run'')]
       (db\<lparr>artifact_t := artifact_t db @ [a]\<rparr>)"

definition insert_review_head :: "ReviewHeadRow \<Rightarrow> Database \<Rightarrow> Database StoreResult" where
  "insert_review_head h db =
     constrain
       [(0 \<le> rh_revision h, ConstraintCheck ''patch_review_head''),
        (rh_status h \<in> set review_status_names, ConstraintCheck ''patch_review_head''),
        (rh_proposal_id h \<notin> rh_proposal_id ` set (review_head_t db),
         ConstraintPrimaryKey ''patch_review_head.proposal_id''),
        (rh_run_id h \<notin> rh_run_id ` set (review_head_t db), ConstraintUnique ''patch_review_head.run_id''),
        (rh_proposal_id h \<in> ar_id ` set (artifact_t db), ConstraintForeignKey ''operation_artifact''),
        (rh_run_id h \<in> ror_id ` set (run_t db), ConstraintForeignKey ''operation_run'')]
       (db\<lparr>review_head_t := review_head_t db @ [h]\<rparr>)"

definition insert_review_event :: "Env \<Rightarrow> ReviewEventRow \<Rightarrow> Database \<Rightarrow> Database StoreResult" where
  "insert_review_event env e db =
     constrain
       [(1 \<le> re_sequence e, ConstraintCheck ''patch_review_event''),
        (0 \<le> re_base_revision e, ConstraintCheck ''patch_review_event''),
        (re_new_revision e = re_base_revision e + 1, ConstraintCheck ''patch_review_event''),
        (re_kind e \<in> set review_kind_names, ConstraintCheck ''patch_review_event''),
        (re_previous_status e \<in> set review_status_names, ConstraintCheck ''patch_review_event''),
        (re_next_status e \<in> set review_status_names, ConstraintCheck ''patch_review_event''),
        (opt_all (\<lambda>d. d \<in> set [''accepted'', ''rejected'']) (re_decision e),
         ConstraintCheck ''patch_review_event''),
        (opt_all (json_valid env) (re_payload_json e), ConstraintCheck ''patch_review_event''),
        (re_id e \<notin> re_id ` set (review_event_t db), ConstraintPrimaryKey ''patch_review_event.id''),
        ((re_proposal_id e, re_sequence e)
           \<notin> (\<lambda>x. (re_proposal_id x, re_sequence x)) ` set (review_event_t db),
         ConstraintUnique ''patch_review_event.sequence''),
        ((re_proposal_id e, re_new_revision e)
           \<notin> (\<lambda>x. (re_proposal_id x, re_new_revision x)) ` set (review_event_t db),
         ConstraintUnique ''patch_review_event.new_revision''),
        (re_proposal_id e \<in> rh_proposal_id ` set (review_head_t db),
         ConstraintForeignKey ''patch_review_head'')]
       (db\<lparr>review_event_t := review_event_t db @ [e]\<rparr>)"

section \<open>UPDATE statements and their triggers\<close>

text \<open>The guards abort the statement where they hold.\<close>

definition review_head_guard :: "ReviewHeadRow \<Rightarrow> ReviewHeadRow \<Rightarrow> bool" where
  "review_head_guard old new \<longleftrightarrow>
     rh_proposal_id new \<noteq> rh_proposal_id old
     \<or> rh_run_id new \<noteq> rh_run_id old
     \<or> rh_revision new \<noteq> rh_revision old + 1
     \<or> \<not> ((rh_status old = ''review''
             \<and> rh_status new \<in> set [''review'', ''ready'', ''rejected'', ''conflicted''])
         \<or> (rh_status old = ''ready''
             \<and> rh_status new \<in> set [''review'', ''ready'', ''applied'', ''rejected'', ''conflicted''])
         \<or> (rh_status old = ''conflicted'' \<and> rh_status new \<in> set [''review'', ''rejected'']))"

definition operation_run_guard :: "RawOperationRun \<Rightarrow> RawOperationRun \<Rightarrow> bool" where
  "operation_run_guard old new \<longleftrightarrow>
     ror_id new \<noteq> ror_id old
     \<or> ror_operation_intent_id new \<noteq> ror_operation_intent_id old
     \<or> ror_project_id new \<noteq> ror_project_id old
     \<or> ror_base_commit_id new \<noteq> ror_base_commit_id old
     \<or> ror_provider_id new \<noteq> ror_provider_id old
     \<or> ror_provider_configuration_id new \<noteq> ror_provider_configuration_id old
     \<or> ror_provider_endpoint_id new \<noteq> ror_provider_endpoint_id old
     \<or> ror_model new \<noteq> ror_model old
     \<or> ror_context_packet_id new \<noteq> ror_context_packet_id old
     \<or> ror_response_id new \<noteq> ror_response_id old
     \<or> ror_finish_reason new \<noteq> ror_finish_reason old
     \<or> ror_input_tokens new \<noteq> ror_input_tokens old
     \<or> ror_output_tokens new \<noteq> ror_output_tokens old
     \<or> ror_total_tokens new \<noteq> ror_total_tokens old
     \<or> ror_cached_input_tokens new \<noteq> ror_cached_input_tokens old
     \<or> ror_reasoning_tokens new \<noteq> ror_reasoning_tokens old
     \<or> ror_failure_code new \<noteq> ror_failure_code old
     \<or> ror_failure_message new \<noteq> ror_failure_message old
     \<or> ror_failure_retriable new \<noteq> ror_failure_retriable old
     \<or> ror_started_at new \<noteq> ror_started_at old
     \<or> \<not> ((ror_state old = ''review''
             \<and> ror_state new \<in> set [''accepted'', ''rejected'', ''conflicted''])
         \<or> (ror_state old = ''conflicted'' \<and> ror_state new \<in> set [''review'', ''rejected'']))"

text \<open>
  The result of an UPDATE is the number of rows it touched. Its WHERE fixes the primary
  key, so it touches at most one row of a table with distinct keys.
\<close>

definition update_review_head ::
  "int \<Rightarrow> string \<Rightarrow> string \<Rightarrow> string \<Rightarrow> int \<Rightarrow> string \<Rightarrow> Database \<Rightarrow> (nat \<times> Database) StoreResult" where
  "update_review_head new_revision new_status updated_at proposal_id revision status db =
     (let hit = (\<lambda>h. rh_proposal_id h = proposal_id \<and> rh_revision h = revision \<and> rh_status h = status);
          upd = (\<lambda>h. h\<lparr>rh_revision := new_revision, rh_status := new_status,
                          rh_updated_at := updated_at\<rparr>)
      in constrain
           [(\<not> exists_row (\<lambda>h. hit h \<and> review_head_guard h (upd h)) (review_head_t db),
             TriggerAbort ''invalid:patch_review_head_transition''),
            (\<not> exists_row hit (review_head_t db) \<or> 0 \<le> new_revision, ConstraintCheck ''patch_review_head''),
            (\<not> exists_row hit (review_head_t db) \<or> new_status \<in> set review_status_names,
             ConstraintCheck ''patch_review_head'')]
           (rows_where hit (review_head_t db),
            db\<lparr>review_head_t := update_where hit upd (review_head_t db)\<rparr>))"

definition update_run_state ::
  "string \<Rightarrow> string \<Rightarrow> string \<Rightarrow> string \<Rightarrow> Database \<Rightarrow> (nat \<times> Database) StoreResult" where
  "update_run_state new_state updated_at run_id state db =
     (let hit = (\<lambda>r. ror_id r = run_id \<and> ror_state r = state);
          upd = (\<lambda>r. r\<lparr>ror_state := new_state, ror_updated_at := updated_at\<rparr>)
      in constrain
           [(\<not> exists_row (\<lambda>r. hit r \<and> operation_run_guard r (upd r)) (run_t db),
             TriggerAbort ''invalid:operation_run_transition''),
            (\<not> exists_row hit (run_t db) \<or> new_state \<in> set operation_state_names,
             ConstraintCheck ''operation_run'')]
           (rows_where hit (run_t db), db\<lparr>run_t := update_where hit upd (run_t db)\<rparr>))"

lemmas statement_defs =
  insert_packet_def insert_run_def insert_lifecycle_def insert_attempt_def insert_artifact_def
  insert_review_head_def insert_review_event_def update_review_head_def update_run_state_def

section \<open>The statements provide the interfaces\<close>

interpretation packets: keyed_table packet_t cp_id "insert_packet env" for env
  by unfold_locales (auto simp: insert_packet_def result_simps)

interpretation runs: keyed_table run_t ror_id insert_run
  by unfold_locales (auto simp: insert_run_def result_simps)

interpretation artifacts: keyed_table artifact_t ar_id "insert_artifact env" for env
  by unfold_locales (auto simp: insert_artifact_def result_simps)

interpretation artifact_runs: keyed_table artifact_t ar_run_id "insert_artifact env" for env
  by unfold_locales (auto simp: insert_artifact_def result_simps)

interpretation review_heads: keyed_table review_head_t rh_proposal_id insert_review_head
  by unfold_locales (auto simp: insert_review_head_def result_simps)

interpretation review_events: keyed_table review_event_t re_id "insert_review_event env" for env
  by unfold_locales (auto simp: insert_review_event_def result_simps)

interpretation lifecycle_log: sequenced_log lifecycle_t lr_run_id lr_sequence insert_lifecycle
  by unfold_locales (auto simp: insert_lifecycle_def result_simps)

interpretation attempt_log: sequenced_log attempt_t oa_run_id oa_sequence insert_attempt
  by unfold_locales (auto simp: insert_attempt_def result_simps)

interpretation review_log:
  sequenced_log review_event_t re_proposal_id re_sequence "insert_review_event env" for env
  by unfold_locales (auto simp: insert_review_event_def result_simps)

text \<open>The literals of the CHECK constraints are the strings of the enumerations.\<close>

lemma operation_state_names_iff: "s \<in> set operation_state_names \<longleftrightarrow> (\<exists>x. s = operation_state_as_str x)"
proof
  show "s \<in> set operation_state_names \<Longrightarrow> \<exists>x. s = operation_state_as_str x"
    unfolding operation_state_names_def
    by (auto intro: operation_state_as_str.simps [symmetric])
next
  show "\<exists>x. s = operation_state_as_str x \<Longrightarrow> s \<in> set operation_state_names"
    by (auto simp: operation_state_names_def) (case_tac x; simp)
qed

lemma review_status_namesD: "s \<in> set review_status_names \<Longrightarrow> \<exists>x. s = review_session_status_as_str x"
  unfolding review_status_names_def
  by (auto intro: review_session_status_as_str.simps [symmetric])

lemma operation_state_as_str_name [simp]: "operation_state_as_str x \<in> set operation_state_names"
  using operation_state_names_iff by blast

lemma review_status_as_str_name [simp]: "review_session_status_as_str x \<in> set review_status_names"
  by (cases x) (simp_all add: review_status_names_def)

lemma review_kind_as_str_name [simp]: "review_event_kind_as_str x \<in> set review_kind_names"
  by (cases x) (simp_all add: review_kind_names_def)

end
