(* ===== verification/Validation.thy ===== *)
theory Validation
  imports OperationTables
begin

text \<open>
  The pure validation code of \<open>crates/optimizer-store/src/operation.rs\<close>: the transition
  relation of operation runs, the checks of a bundle before it is persisted, and the
  transition rules of review events. Checks run in the order of the source, so the error
  is the one the source returns.
\<close>

section \<open>Primitive checks\<close>

definition validation :: "string \<Rightarrow> 'a StoreResult" where
  "validation message = Inl (Validation message)"

definition non_empty :: "string \<Rightarrow> string \<Rightarrow> unit StoreResult" where
  "non_empty field v =
     (if blank v then validation (field @ '' must not be empty'')
      else if length v > 4000 then validation (field @ '' exceeds 4,000 UTF-8 bytes'')
      else Inr ())"

definition validate_json :: "Env \<Rightarrow> string \<Rightarrow> string \<Rightarrow> nat \<Rightarrow> unit StoreResult" where
  "validate_json env field v limit =
     (if length v > limit
      then validation (field @ '' exceeds '' @ show_nat limit @ '' UTF-8 bytes'')
      else case serde_from_str env v of
             Inl e \<Rightarrow> validation (field @ '' is invalid JSON: '' @ e)
           | Inr _ \<Rightarrow> Inr ())"

definition validate_json_object :: "Env \<Rightarrow> string \<Rightarrow> string \<Rightarrow> nat \<Rightarrow> unit StoreResult" where
  "validate_json_object env field v limit =
     rbind (validate_json env field v limit) (\<lambda>_.
       if \<not> (case serde_from_str env v of Inr j \<Rightarrow> is_object j | Inl _ \<Rightarrow> False)
       then validation (field @ '' must be a JSON object'') else Inr ())"

definition parse_operation_state :: "string \<Rightarrow> OperationState StoreResult" where
  "parse_operation_state v =
     ok_or (operation_state_parse v) (InvariantViolation (''unknown operation state '' @ v))"

definition parse_review_status :: "string \<Rightarrow> ReviewSessionStatus StoreResult" where
  "parse_review_status v =
     ok_or (review_session_status_parse v) (InvariantViolation (''unknown review status '' @ v))"

definition parse_review_decision :: "string \<Rightarrow> ReviewDecision StoreResult" where
  "parse_review_decision v =
     ok_or (review_decision_parse v) (InvariantViolation (''unknown review decision '' @ v))"

section \<open>The life cycle of an operation run\<close>

definition valid_operation_transition :: "OperationState \<Rightarrow> OperationState \<Rightarrow> bool" where
  "valid_operation_transition from to =
     (case from of
        OperationState.Draft \<Rightarrow> to = OperationState.Compiling \<or> to = OperationState.Cancelled
      | OperationState.Compiling \<Rightarrow>
          to \<in> set [OperationState.Preflight, OperationState.Failed, OperationState.Cancelled]
      | OperationState.Preflight \<Rightarrow>
          to \<in> set [OperationState.Queued, OperationState.Failed, OperationState.Cancelled]
      | OperationState.Queued \<Rightarrow>
          to \<in> set [OperationState.Streaming, OperationState.Failed, OperationState.Cancelled]
      | OperationState.Streaming \<Rightarrow>
          to \<in> set [OperationState.Validating, OperationState.Failed, OperationState.Cancelled]
      | OperationState.Validating \<Rightarrow> to \<in> set [OperationState.Review, OperationState.Failed]
      | OperationState.Review \<Rightarrow>
          to \<in> set [OperationState.Accepted, OperationState.Rejected, OperationState.Conflicted]
      | OperationState.Conflicted \<Rightarrow> to \<in> set [OperationState.Review, OperationState.Rejected]
      | _ \<Rightarrow> False)"

definition lifecycle_step ::
  "NewOperationLifecycleEvent list \<Rightarrow> nat \<times> NewOperationLifecycleEvent \<Rightarrow> unit StoreResult" where
  "lifecycle_step events = (\<lambda>(index, event). all_ok
     [non_empty ''lifecycle.occurred_at'' (nle_occurred_at event),
      (case nle_reason event of Some reason \<Rightarrow> non_empty ''lifecycle.reason'' reason | None \<Rightarrow> Inr ()),
      require (valid_operation_transition (nle_from_state event) (nle_to_state event))
        (Validation ''lifecycle contains an invalid state transition''),
      require (\<not> (index > 0 \<and> nle_to_state (events ! (index - 1)) \<noteq> nle_from_state event))
        (Validation ''lifecycle transitions are not contiguous'')])"

definition validate_lifecycle ::
  "NewOperationLifecycleEvent list \<Rightarrow> OperationState \<Rightarrow> unit StoreResult" where
  "validate_lifecycle events final_state =
     (if events = [] \<or> length events > 64
      then validation ''lifecycle_events must contain 1..=64 transitions''
      else if nle_from_state (events ! 0) \<noteq> OperationState.Draft
      then validation ''lifecycle must start from draft''
      else rbind (all_ok (map (lifecycle_step events) (enumerate 0 events))) (\<lambda>_.
        if nle_to_state (last events) \<noteq> final_state
        then validation ''lifecycle final state does not match operation run''
        else Inr ()))"

section \<open>Usage and attempts\<close>

text \<open>The sum is an \<open>i64\<close> addition: it wraps in a release build.\<close>

definition validate_usage :: "ModelUsageRecord option \<Rightarrow> unit StoreResult" where
  "validate_usage usage =
     (case usage of
        None \<Rightarrow> Inr ()
      | Some u \<Rightarrow>
          if mu_input_tokens u < 0 \<or> mu_output_tokens u < 0
             \<or> mu_total_tokens u < i64_wrap (mu_input_tokens u + mu_output_tokens u)
             \<or> \<not> nonneg (mu_cached_input_tokens u) \<or> \<not> nonneg (mu_reasoning_tokens u)
          then validation ''model usage token counts are invalid'' else Inr ())"

definition is_none_or_empty :: "string option \<Rightarrow> bool" where
  "is_none_or_empty x \<longleftrightarrow> opt_all (\<lambda>s. s = []) x"

definition attempt_out_of_bounds :: "NewOperationAttempt \<Rightarrow> bool" where
  "attempt_out_of_bounds a \<longleftrightarrow>
     \<not> opt_all (\<lambda>s. chars_count s \<le> 512) (noa_response_id a)
     \<or> \<not> opt_all (\<lambda>s. chars_count s \<le> 512) (noa_remote_request_id a)
     \<or> \<not> opt_all (\<lambda>s. s \<noteq> [] \<and> chars_count s \<le> 200) (noa_failure_code a)
     \<or> \<not> opt_all (\<lambda>v. 100 \<le> v \<and> v \<le> 599) (noa_http_status a)
     \<or> \<not> opt_all (\<lambda>v. 0 \<le> v \<and> v \<le> 86400000) (noa_retry_after_ms a)
     \<or> \<not> opt_all (\<lambda>v. 0 \<le> v \<and> v \<le> 10000) (noa_retry_delay_ms a)"

definition attempt_step :: "nat \<Rightarrow> nat \<times> NewOperationAttempt \<Rightarrow> unit StoreResult" where
  "attempt_step len = (\<lambda>(index, a). all_ok
     [require (noa_sequence a = int index + 1)
        (Validation ''operation attempt sequences must be contiguous from 1''),
      non_empty ''attempt.started_at'' (noa_started_at a),
      non_empty ''attempt.finished_at'' (noa_finished_at a),
      require (\<not> attempt_out_of_bounds a) (Validation ''operation attempt metadata is out of bounds''),
      require (opt_all (\<lambda>k. k \<in> set failure_kinds) (noa_failure_kind a))
        (Validation ''operation attempt failure kind is unsupported''),
      if noa_outcome a = ''succeeded'' then all_ok
        [require (\<not> (\<not> noa_response_started a
                    \<or> is_none_or_empty (noa_response_id a)
                    \<or> noa_failure_code a \<noteq> None \<or> noa_failure_kind a \<noteq> None
                    \<or> noa_http_status a \<noteq> None \<or> noa_remote_request_id a \<noteq> None
                    \<or> noa_retry_after_ms a \<noteq> None \<or> noa_retriable a \<noteq> None
                    \<or> noa_retry_delay_ms a \<noteq> None))
           (Validation ''successful operation attempt metadata is inconsistent''),
         require (index + 1 = len) (Validation ''successful operation attempt must be final'')]
      else if noa_outcome a = ''failed'' then
        require (\<not> (is_none_or_empty (noa_failure_code a)
                   \<or> noa_retriable a = None
                   \<or> (\<not> noa_response_started a \<and> noa_response_id a \<noteq> None)
                   \<or> (noa_response_started a \<and> is_none_or_empty (noa_response_id a))
                   \<or> (noa_retry_delay_ms a \<noteq> None
                        \<and> (noa_retriable a \<noteq> Some True \<or> noa_response_started a))
                   \<or> (index + 1 < len \<and> noa_retry_delay_ms a = None)))
          (Validation ''failed operation attempt metadata is inconsistent'')
      else validation ''operation attempt outcome is unsupported''])"

definition validate_attempts :: "NewOperationAttempt list \<Rightarrow> unit StoreResult" where
  "validate_attempts attempts =
     (if length attempts > 3 then validation ''operation attempts cannot exceed 3''
      else all_ok (map (attempt_step (length attempts)) (enumerate 0 attempts)))"

section \<open>The bundle of a finished run\<close>

definition check_endpoint :: "NewOperationRun \<Rightarrow> unit StoreResult" where
  "check_endpoint run =
     (if nor_provider_id run = ''openai_compatible'' then
        rbind (ok_or (nor_provider_configuration_id run)
                 (Validation ''openai_compatible run requires provider_configuration_id'')) (\<lambda>cfg.
        rbind (ok_or (nor_provider_endpoint_id run)
                 (Validation ''openai_compatible run requires provider_endpoint_id'')) (\<lambda>ep.
        all_ok
          [non_empty ''run.provider_configuration_id'' cfg,
           require (take 9 ep = ''endpoint-'' \<and> length ep = 9 + 32 \<and> list_all hex_lower (drop 9 ep))
             (Validation ''run.provider_endpoint_id is invalid''),
           require (cfg = ''provider-openai-compatible-'' @ ep)
             (Validation ''run.provider_configuration_id does not match provider_endpoint_id'')]))
      else require (nor_provider_endpoint_id run = None)
             (Validation ''run.provider_endpoint_id is only valid for openai_compatible''))"

definition check_outcome :: "PersistOperationBundle \<Rightarrow> unit StoreResult" where
  "check_outcome bundle =
     (let run = pob_run bundle in
      case nor_state run of
        OperationState.Review \<Rightarrow>
          require (\<not> (pob_context_packet bundle = None \<or> pob_artifact bundle = None
                     \<or> is_none_or_empty (nor_response_id run)
                     \<or> is_none_or_empty (nor_finish_reason run)
                     \<or> nor_failure run \<noteq> None))
            (Validation ''review runs require context, artifact, response and finish reason without failure'')
      | _ \<Rightarrow>
          require (\<not> (pob_artifact bundle \<noteq> None \<or> nor_failure run = None))
            (Validation ''failed/cancelled runs require a failure and cannot contain an artifact''))"

definition check_failure :: "OperationFailureRecord option \<Rightarrow> unit StoreResult" where
  "check_failure failure =
     (case failure of
        None \<Rightarrow> Inr ()
      | Some f \<Rightarrow> all_ok
          [non_empty ''failure.code'' (of_code f), non_empty ''failure.message'' (of_message f),
           require (length (of_message f) \<le> 4000)
             (Validation ''failure.message exceeds 4,000 UTF-8 bytes'')])"

definition check_packet ::
  "Env \<Rightarrow> NewOperationRun \<Rightarrow> NewContextPacket option \<Rightarrow> unit StoreResult" where
  "check_packet env run packet =
     (case packet of
        None \<Rightarrow> Inr ()
      | Some p \<Rightarrow> all_ok
          [non_empty ''context.id'' (ncp_id p),
           non_empty ''context.operation_intent_id'' (ncp_operation_intent_id p),
           non_empty ''context.project_id'' (ncp_project_id p),
           non_empty ''context.base_commit_id'' (ncp_base_commit_id p),
           non_empty ''context.packet_hash'' (ncp_packet_hash p),
           non_empty ''context.created_at'' (ncp_created_at p),
           require (\<not> (ncp_operation_intent_id p \<noteq> nor_operation_intent_id run
                      \<or> ncp_project_id p \<noteq> nor_project_id run
                      \<or> ncp_base_commit_id p \<noteq> nor_base_commit_id run))
             (Validation ''context packet binding does not match operation run''),
           validate_json_object env ''context.payload_json'' (ncp_payload_json p) (32 * 1024 * 1024)])"

definition check_artifact :: "Env \<Rightarrow> NewOperationArtifact option \<Rightarrow> unit StoreResult" where
  "check_artifact env artifact =
     (case artifact of
        None \<Rightarrow> Inr ()
      | Some a \<Rightarrow> all_ok
          [non_empty ''artifact.id'' (nar_id a),
           non_empty ''artifact.binding_hash'' (nar_binding_hash a),
           non_empty ''artifact.created_at'' (nar_created_at a),
           validate_json_object env ''artifact.payload_json'' (nar_payload_json a) (16 * 1024 * 1024)])"

definition validate_bundle :: "Env \<Rightarrow> PersistOperationBundle \<Rightarrow> unit StoreResult" where
  "validate_bundle env bundle =
     (let run = pob_run bundle in all_ok
        [non_empty ''run.id'' (nor_id run),
         non_empty ''run.operation_intent_id'' (nor_operation_intent_id run),
         non_empty ''run.project_id'' (nor_project_id run),
         non_empty ''run.base_commit_id'' (nor_base_commit_id run),
         non_empty ''run.provider_id'' (nor_provider_id run),
         non_empty ''run.model'' (nor_model run),
         non_empty ''run.started_at'' (nor_started_at run),
         non_empty ''run.updated_at'' (nor_updated_at run),
         require (nor_provider_id run \<in> set provider_ids) (Validation ''run.provider_id is unsupported''),
         check_endpoint run,
         (case nor_provider_configuration_id run of
            None \<Rightarrow> Inr ()
          | Some cfg \<Rightarrow> all_ok
              [non_empty ''run.provider_configuration_id'' cfg,
               require (length cfg \<le> 256)
                 (Validation ''run.provider_configuration_id exceeds 256 bytes'')]),
         require (nor_state run \<in> set [OperationState.Review, OperationState.Failed, OperationState.Cancelled])
           (Validation ''persisted execution state must be review, failed or cancelled''),
         validate_usage (nor_usage run),
         check_outcome bundle,
         check_failure (nor_failure run),
         check_packet env run (pob_context_packet bundle),
         check_artifact env (pob_artifact bundle),
         validate_lifecycle (pob_lifecycle_events bundle) (nor_state run),
         validate_attempts (pob_attempts bundle)])"

section \<open>Review events\<close>

definition validate_review_event :: "Env \<Rightarrow> AppendReviewEvent \<Rightarrow> unit StoreResult" where
  "validate_review_event env command = all_ok
     [non_empty ''review.id'' (are_id command),
      non_empty ''review.proposal_id'' (are_proposal_id command),
      non_empty ''review.occurred_at'' (are_occurred_at command),
      require (0 \<le> are_expected_revision command)
        (Validation ''review.expected_revision must be non-negative''),
      (case are_hunk_id command of Some h \<Rightarrow> non_empty ''review.hunk_id'' h | None \<Rightarrow> Inr ()),
      (case are_payload_json command of
         Some p \<Rightarrow> validate_json env ''review.payload_json'' p (1024 * 1024) | None \<Rightarrow> Inr ())]"

definition review_transition_valid :: "AppendReviewEvent \<Rightarrow> bool" where
  "review_transition_valid c =
     (case are_kind c of
        ReviewEventKind.Decision \<Rightarrow>
          (case are_hunk_id c of Some h \<Rightarrow> \<not> blank h | None \<Rightarrow> False)
          \<and> are_decision c \<noteq> None
          \<and> are_expected_status c \<in> set [ReviewSessionStatus.Review, ReviewSessionStatus.Ready]
          \<and> are_next_status c
               \<in> set [ReviewSessionStatus.Review, ReviewSessionStatus.Ready, ReviewSessionStatus.Rejected]
          \<and> (are_next_status c \<noteq> ReviewSessionStatus.Rejected
             \<or> are_decision c = Some ReviewDecision.Rejected)
      | ReviewEventKind.Apply \<Rightarrow>
          are_expected_status c = ReviewSessionStatus.Ready
          \<and> are_next_status c = ReviewSessionStatus.Applied
          \<and> are_hunk_id c = None \<and> are_decision c = None
      | ReviewEventKind.Conflict \<Rightarrow>
          are_expected_status c \<in> set [ReviewSessionStatus.Review, ReviewSessionStatus.Ready]
          \<and> are_next_status c = ReviewSessionStatus.Conflicted
          \<and> are_hunk_id c = None \<and> are_decision c = None
      | ReviewEventKind.Rebase \<Rightarrow>
          are_expected_status c = ReviewSessionStatus.Conflicted
          \<and> are_next_status c = ReviewSessionStatus.Review
          \<and> are_hunk_id c = None \<and> are_decision c = None
      | ReviewEventKind.Reject \<Rightarrow>
          are_expected_status c
            \<in> set [ReviewSessionStatus.Review, ReviewSessionStatus.Ready, ReviewSessionStatus.Conflicted]
          \<and> are_next_status c = ReviewSessionStatus.Rejected
          \<and> are_hunk_id c = None \<and> are_decision c = None)"

definition assert_review_transition :: "AppendReviewEvent \<Rightarrow> unit StoreResult" where
  "assert_review_transition command =
     require (review_transition_valid command)
       (Validation ''review event fields or state transition are invalid'')"

end
