(* ===== verification/Operations.thy ===== *)
theory Operations
  imports Validation
begin

text \<open>
  The operations of \<open>crates/optimizer-store/src/operation.rs\<close> on the operation and review
  tables: persisting the bundle of a finished run, appending review events with optimistic
  concurrency, the reads, and the audit \<open>verify_operation_invariants\<close>. A function that
  writes maps a database to an error or to its result and the new database; the public
  operations run it in a transaction.
\<close>

section \<open>Reading a run\<close>

definition read_usage :: "RawOperationRun \<Rightarrow> ModelUsageRecord option StoreResult" where
  "read_usage r =
     (case (ror_input_tokens r, ror_output_tokens r, ror_total_tokens r) of
        (Some i, Some out, Some t) \<Rightarrow> Inr (Some
          \<lparr>mu_input_tokens = i, mu_output_tokens = out, mu_total_tokens = t,
           mu_cached_input_tokens = ror_cached_input_tokens r,
           mu_reasoning_tokens = ror_reasoning_tokens r\<rparr>)
      | (None, None, None) \<Rightarrow> Inr None
      | _ \<Rightarrow> Inl (InvariantViolation ''operation usage columns are partially populated''))"

definition read_failure :: "RawOperationRun \<Rightarrow> OperationFailureRecord option StoreResult" where
  "read_failure r =
     (case (ror_failure_code r, ror_failure_message r, ror_failure_retriable r) of
        (Some c, Some m, Some b) \<Rightarrow>
          Inr (Some \<lparr>of_code = c, of_message = m, of_retriable = (b = 1)\<rparr>)
      | (None, None, None) \<Rightarrow> Inr None
      | _ \<Rightarrow> Inl (InvariantViolation ''operation failure columns are partially populated''))"

definition try_into_record :: "RawOperationRun \<Rightarrow> OperationRunRecord StoreResult" where
  "try_into_record r =
     rbind (read_usage r) (\<lambda>usage.
     rbind (read_failure r) (\<lambda>failure.
     rbind (parse_operation_state (ror_state r)) (\<lambda>st. Inr
       \<lparr>orr_id = ror_id r, orr_operation_intent_id = ror_operation_intent_id r,
        orr_project_id = ror_project_id r, orr_base_commit_id = ror_base_commit_id r,
        orr_provider_id = ror_provider_id r,
        orr_provider_configuration_id = ror_provider_configuration_id r,
        orr_provider_endpoint_id = ror_provider_endpoint_id r, orr_model = ror_model r,
        orr_state = st, orr_context_packet_id = ror_context_packet_id r,
        orr_response_id = ror_response_id r, orr_finish_reason = ror_finish_reason r,
        orr_usage = usage, orr_failure = failure,
        orr_started_at = ror_started_at r, orr_updated_at = ror_updated_at r\<rparr>)))"

definition get_operation_run :: "string \<Rightarrow> Database \<Rightarrow> OperationRunRecord StoreResult" where
  "get_operation_run run_id db =
     rbind (ok_or (find_by ror_id run_id (run_t db)) (NotFound ''operation_run'' run_id))
       try_into_record"

section \<open>Persisting a bundle\<close>

definition assert_commit_belongs_to_project :: "string \<Rightarrow> string \<Rightarrow> Database \<Rightarrow> unit StoreResult" where
  "assert_commit_belongs_to_project commit_id project_id db =
     require (exists_row (\<lambda>c. cn_id c = commit_id \<and> cn_project_id c = project_id) (commit_node_t db))
       (NotFound ''project_commit'' (project_id @ ''/'' @ commit_id))"

definition packet_row :: "NewContextPacket \<Rightarrow> ContextPacketRecord" where
  "packet_row p =
     \<lparr>cp_id = ncp_id p, cp_operation_intent_id = ncp_operation_intent_id p,
      cp_project_id = ncp_project_id p, cp_base_commit_id = ncp_base_commit_id p,
      cp_packet_hash = ncp_packet_hash p, cp_payload_json = ncp_payload_json p,
      cp_created_at = ncp_created_at p\<rparr>"

definition run_row :: "NewOperationRun \<Rightarrow> string option \<Rightarrow> RawOperationRun" where
  "run_row run packet_id =
     (let usage = nor_usage run; failure = nor_failure run in
      \<lparr>ror_id = nor_id run, ror_operation_intent_id = nor_operation_intent_id run,
       ror_project_id = nor_project_id run, ror_base_commit_id = nor_base_commit_id run,
       ror_provider_id = nor_provider_id run,
       ror_provider_configuration_id = nor_provider_configuration_id run,
       ror_provider_endpoint_id = nor_provider_endpoint_id run, ror_model = nor_model run,
       ror_state = operation_state_as_str (nor_state run),
       ror_context_packet_id = packet_id, ror_response_id = nor_response_id run,
       ror_finish_reason = nor_finish_reason run,
       ror_input_tokens = map_option mu_input_tokens usage,
       ror_output_tokens = map_option mu_output_tokens usage,
       ror_total_tokens = map_option mu_total_tokens usage,
       ror_cached_input_tokens = Option.bind usage mu_cached_input_tokens,
       ror_reasoning_tokens = Option.bind usage mu_reasoning_tokens,
       ror_failure_code = map_option of_code failure,
       ror_failure_message = map_option of_message failure,
       ror_failure_retriable = map_option (\<lambda>f. of_bool (of_retriable f)) failure,
       ror_started_at = nor_started_at run, ror_updated_at = nor_updated_at run\<rparr>)"

definition lifecycle_row :: "string \<Rightarrow> nat \<times> NewOperationLifecycleEvent \<Rightarrow> LifecycleRow" where
  "lifecycle_row run_id = (\<lambda>(position, e).
     \<lparr>lr_run_id = run_id, lr_sequence = int position + 1,
      lr_from_state = operation_state_as_str (nle_from_state e),
      lr_to_state = operation_state_as_str (nle_to_state e),
      lr_occurred_at = nle_occurred_at e, lr_reason = nle_reason e\<rparr>)"

definition attempt_row :: "string \<Rightarrow> NewOperationAttempt \<Rightarrow> OperationAttemptRecord" where
  "attempt_row run_id a =
     \<lparr>oa_run_id = run_id, oa_sequence = noa_sequence a, oa_started_at = noa_started_at a,
      oa_finished_at = noa_finished_at a, oa_outcome = noa_outcome a,
      oa_response_started = noa_response_started a, oa_response_id = noa_response_id a,
      oa_failure_code = noa_failure_code a, oa_failure_kind = noa_failure_kind a,
      oa_http_status = noa_http_status a, oa_remote_request_id = noa_remote_request_id a,
      oa_retry_after_ms = noa_retry_after_ms a, oa_retriable = noa_retriable a,
      oa_retry_delay_ms = noa_retry_delay_ms a\<rparr>"

definition artifact_row :: "string \<Rightarrow> NewOperationArtifact \<Rightarrow> ArtifactRow" where
  "artifact_row run_id a =
     \<lparr>ar_id = nar_id a, ar_run_id = run_id,
      ar_kind = operation_artifact_kind_as_str (nar_kind a),
      ar_binding_hash = nar_binding_hash a, ar_payload_json = nar_payload_json a,
      ar_created_at = nar_created_at a\<rparr>"

definition persist_artifact ::
  "Env \<Rightarrow> string \<Rightarrow> NewOperationArtifact option \<Rightarrow> Database \<Rightarrow> Database StoreResult" where
  "persist_artifact env run_id artifact db =
     (case artifact of
        None \<Rightarrow> Inr db
      | Some a \<Rightarrow>
          rbind (insert_artifact env (artifact_row run_id a) db) (\<lambda>db.
            if nar_kind a = OperationArtifactKind.PatchProposal
            then insert_review_head
                   \<lparr>rh_proposal_id = nar_id a, rh_run_id = run_id, rh_revision = 0,
                    rh_status = ''review'', rh_updated_at = nar_created_at a\<rparr> db
            else Inr db))"

definition persist_rows :: "Env \<Rightarrow> PersistOperationBundle \<Rightarrow> Database \<Rightarrow> Database StoreResult" where
  "persist_rows env bundle db =
     (let run = pob_run bundle in
      rbind (assert_commit_belongs_to_project (nor_base_commit_id run) (nor_project_id run) db) (\<lambda>_.
      rbind (case pob_context_packet bundle of
               Some p \<Rightarrow> insert_packet env (packet_row p) db | None \<Rightarrow> Inr db) (\<lambda>db.
      rbind (insert_run (run_row run (map_option ncp_id (pob_context_packet bundle))) db) (\<lambda>db.
      rbind (foldM insert_lifecycle
               (map (lifecycle_row (nor_id run)) (enumerate 0 (pob_lifecycle_events bundle))) db) (\<lambda>db.
      rbind (foldM insert_attempt (map (attempt_row (nor_id run)) (pob_attempts bundle)) db) (\<lambda>db.
      persist_artifact env (nor_id run) (pob_artifact bundle) db))))))"

text \<open>The result is read back after the commit.\<close>

definition persist_operation_bundle ::
  "Env \<Rightarrow> PersistOperationBundle \<Rightarrow> Database \<Rightarrow> OperationRunRecord StoreResult \<times> Database" where
  "persist_operation_bundle env bundle db =
     (case validate_bundle env bundle of
        Inl e \<Rightarrow> (Inl e, db)
      | Inr _ \<Rightarrow>
          (case run_transaction (\<lambda>db. map_sum id (Pair ()) (persist_rows env bundle db)) db of
             (Inl e, db') \<Rightarrow> (Inl e, db')
           | (Inr _, db') \<Rightarrow> (get_operation_run (nor_id (pob_run bundle)) db', db')))"

section \<open>Review events\<close>

definition desired_operation_state :: "ReviewSessionStatus \<Rightarrow> OperationState" where
  "desired_operation_state status =
     (case status of
        ReviewSessionStatus.Review \<Rightarrow> OperationState.Review
      | ReviewSessionStatus.Ready \<Rightarrow> OperationState.Review
      | ReviewSessionStatus.Applied \<Rightarrow> OperationState.Accepted
      | ReviewSessionStatus.Rejected \<Rightarrow> OperationState.Rejected
      | ReviewSessionStatus.Conflicted \<Rightarrow> OperationState.Conflicted)"

definition update_operation_state_for_review ::
  "string \<Rightarrow> ReviewSessionStatus \<Rightarrow> string \<Rightarrow> string \<Rightarrow> Database \<Rightarrow> Database StoreResult" where
  "update_operation_state_for_review run_id review_status occurred_at reason db =
     (let desired = desired_operation_state review_status in
      rbind (ok_or (find_by ror_id run_id (run_t db)) (Sqlite QueryReturnedNoRows)) (\<lambda>run.
      rbind (parse_operation_state (ror_state run)) (\<lambda>current.
      if current = desired then Inr db
      else if \<not> valid_operation_transition current desired
      then Inl (InvariantViolation (''review would move operation from ''
             @ operation_state_as_str current @ '' to '' @ operation_state_as_str desired))
      else
        rbind (insert_lifecycle
                 \<lparr>lr_run_id = run_id,
                  lr_sequence = next_seq lr_run_id lr_sequence run_id (lifecycle_t db),
                  lr_from_state = operation_state_as_str current,
                  lr_to_state = operation_state_as_str desired,
                  lr_occurred_at = occurred_at, lr_reason = Some reason\<rparr> db) (\<lambda>db.
        rbind (update_run_state (operation_state_as_str desired) occurred_at run_id
                 (operation_state_as_str current) db) (\<lambda>(updated, db).
        if updated \<noteq> 1
        then Inl (InvariantViolation ''operation state update changed an unexpected row count'')
        else Inr db)))))"

definition review_event_row ::
  "AppendReviewEvent \<Rightarrow> int \<Rightarrow> int \<Rightarrow> ReviewSessionStatus \<Rightarrow> ReviewEventRow" where
  "review_event_row c seqno actual_revision actual_status =
     \<lparr>re_id = are_id c, re_proposal_id = are_proposal_id c, re_sequence = seqno,
      re_base_revision = actual_revision, re_new_revision = actual_revision + 1,
      re_kind = review_event_kind_as_str (are_kind c),
      re_previous_status = review_session_status_as_str actual_status,
      re_next_status = review_session_status_as_str (are_next_status c),
      re_hunk_id = are_hunk_id c,
      re_decision = map_option review_decision_as_str (are_decision c),
      re_payload_json = are_payload_json c, re_occurred_at = are_occurred_at c\<rparr>"

definition append_review_event_in_transaction ::
  "Env \<Rightarrow> AppendReviewEvent \<Rightarrow> Database \<Rightarrow> (ReviewSessionRecord \<times> Database) StoreResult" where
  "append_review_event_in_transaction env command db =
     rbind (validate_review_event env command) (\<lambda>_.
     rbind (ok_or (find_by rh_proposal_id (are_proposal_id command) (review_head_t db))
              (NotFound ''patch_review'' (are_proposal_id command))) (\<lambda>head.
     rbind (parse_review_status (rh_status head)) (\<lambda>actual_status.
     let actual_revision = rh_revision head in
     if actual_revision \<noteq> are_expected_revision command
        \<or> actual_status \<noteq> are_expected_status command
     then Inl (StateConflict ''patch_review'' (are_proposal_id command)
                 (are_expected_revision command) actual_revision
                 (review_session_status_as_str (are_expected_status command))
                 (review_session_status_as_str actual_status))
     else
       rbind (assert_review_transition command) (\<lambda>_.
       let new_revision = actual_revision + 1;
           seqno = next_seq re_proposal_id re_sequence (are_proposal_id command) (review_event_t db)
       in
       rbind (insert_review_event env
                (review_event_row command seqno actual_revision actual_status) db) (\<lambda>db.
       rbind (update_review_head new_revision
                (review_session_status_as_str (are_next_status command)) (are_occurred_at command)
                (are_proposal_id command) actual_revision
                (review_session_status_as_str actual_status) db) (\<lambda>(updated, db).
       if updated \<noteq> 1
       then Inl (InvariantViolation ''review head update changed an unexpected row count'')
       else
         rbind (update_operation_state_for_review (rh_run_id head) (are_next_status command)
                  (are_occurred_at command) (review_event_kind_as_str (are_kind command)) db) (\<lambda>db.
         Inr (\<lparr>rsr_proposal_id = are_proposal_id command, rsr_run_id = rh_run_id head,
               rsr_revision = new_revision, rsr_status = are_next_status command,
               rsr_updated_at = are_occurred_at command\<rparr>, db))))))))"

definition append_review_event ::
  "Env \<Rightarrow> AppendReviewEvent \<Rightarrow> Database \<Rightarrow> ReviewSessionRecord StoreResult \<times> Database" where
  "append_review_event env command db =
     run_transaction (append_review_event_in_transaction env command) db"

definition get_review_session :: "string \<Rightarrow> Database \<Rightarrow> ReviewSessionRecord StoreResult" where
  "get_review_session proposal_id db =
     rbind (ok_or (find_by rh_proposal_id proposal_id (review_head_t db))
              (NotFound ''patch_review'' proposal_id)) (\<lambda>h.
     rbind (parse_review_status (rh_status h)) (\<lambda>status. Inr
       \<lparr>rsr_proposal_id = rh_proposal_id h, rsr_run_id = rh_run_id h,
        rsr_revision = rh_revision h, rsr_status = status, rsr_updated_at = rh_updated_at h\<rparr>))"

section \<open>Reads\<close>

definition list_operation_runs ::
  "string \<Rightarrow> int \<Rightarrow> int \<Rightarrow> Database \<Rightarrow> OperationRunRecord list StoreResult" where
  "list_operation_runs project_id limit offset db =
     (if blank project_id \<or> limit \<le> 0 \<or> limit > 200 \<or> offset < 0
      then validation ''project id, limit (1..=200) and offset (>= 0) are required''
      else mapM try_into_record
             (take (nat limit) (drop (nat offset)
               (sort_key (\<lambda>r. (Desc (ror_started_at r), Desc (ror_id r)))
                 (filter (\<lambda>r. ror_project_id r = project_id) (run_t db))))))"

definition get_context_packet :: "string \<Rightarrow> Database \<Rightarrow> ContextPacketRecord StoreResult" where
  "get_context_packet packet_id db =
     ok_or (find_by cp_id packet_id (packet_t db)) (NotFound ''context_packet'' packet_id)"

definition artifact_record :: "ArtifactRow \<Rightarrow> OperationArtifactRecord StoreResult" where
  "artifact_record a =
     rbind (ok_or (operation_artifact_kind_parse (ar_kind a))
              (InvariantViolation (''unknown operation artifact kind '' @ ar_kind a))) (\<lambda>kind. Inr
       \<lparr>art_id = ar_id a, art_run_id = ar_run_id a, art_kind = kind,
        art_binding_hash = ar_binding_hash a, art_payload_json = ar_payload_json a,
        art_created_at = ar_created_at a\<rparr>)"

definition get_operation_artifact :: "string \<Rightarrow> Database \<Rightarrow> OperationArtifactRecord StoreResult" where
  "get_operation_artifact run_id db =
     rbind (ok_or (find_by ar_run_id run_id (artifact_t db)) (NotFound ''operation_artifact'' run_id))
       artifact_record"

definition get_operation_artifact_by_id ::
  "string \<Rightarrow> Database \<Rightarrow> OperationArtifactRecord StoreResult" where
  "get_operation_artifact_by_id artifact_id db =
     rbind (ok_or (find_by ar_id artifact_id (artifact_t db)) (NotFound ''operation_artifact'' artifact_id))
       artifact_record"

definition list_operation_lifecycle_events ::
  "string \<Rightarrow> Database \<Rightarrow> OperationLifecycleEventRecord list StoreResult" where
  "list_operation_lifecycle_events run_id db =
     mapM (\<lambda>e. rbind (parse_operation_state (lr_from_state e)) (\<lambda>from.
                rbind (parse_operation_state (lr_to_state e)) (\<lambda>to. Inr
                  \<lparr>le_run_id = lr_run_id e, le_sequence = lr_sequence e, le_from_state = from,
                   le_to_state = to, le_occurred_at = lr_occurred_at e, le_reason = lr_reason e\<rparr>)))
       (sort_key lr_sequence (filter (\<lambda>e. lr_run_id e = run_id) (lifecycle_t db)))"

definition list_operation_attempts :: "string \<Rightarrow> Database \<Rightarrow> OperationAttemptRecord list StoreResult" where
  "list_operation_attempts run_id db =
     Inr (sort_key oa_sequence (filter (\<lambda>a. oa_run_id a = run_id) (attempt_t db)))"

definition review_event_record :: "ReviewEventRow \<Rightarrow> ReviewEventRecord StoreResult" where
  "review_event_record e =
     rbind (ok_or (review_event_kind_parse (re_kind e))
              (InvariantViolation (''unknown review event kind '' @ re_kind e))) (\<lambda>kind.
     rbind (parse_review_status (re_previous_status e)) (\<lambda>previous.
     rbind (parse_review_status (re_next_status e)) (\<lambda>nxt.
     rbind (case re_decision e of None \<Rightarrow> Inr None
            | Some d \<Rightarrow> map_sum id Some (parse_review_decision d)) (\<lambda>decision. Inr
       \<lparr>rev_id = re_id e, rev_proposal_id = re_proposal_id e, rev_sequence = re_sequence e,
        rev_base_revision = re_base_revision e, rev_new_revision = re_new_revision e,
        rev_kind = kind, rev_previous_status = previous, rev_next_status = nxt,
        rev_hunk_id = re_hunk_id e, rev_decision = decision,
        rev_payload_json = re_payload_json e, rev_occurred_at = re_occurred_at e\<rparr>))))"

definition list_review_events :: "string \<Rightarrow> Database \<Rightarrow> ReviewEventRecord list StoreResult" where
  "list_review_events proposal_id db =
     mapM review_event_record
       (sort_key re_sequence (filter (\<lambda>e. re_proposal_id e = proposal_id) (review_event_t db)))"

section \<open>The audit\<close>

text \<open>
  \<open>verify_operation_invariants\<close> counts the violations of each invariant with one query and
  fails on the first count that is not 0. \<open>last_by\<close> is \<open>ORDER BY ... DESC LIMIT 1\<close>.
\<close>

definition last_by :: "('r \<Rightarrow> int) \<Rightarrow> 'r list \<Rightarrow> 'r option" where
  "last_by seqno rows =
     (case sort_key (\<lambda>r. Desc (seqno r)) rows of [] \<Rightarrow> None | r # _ \<Rightarrow> Some r)"

definition sequence_gaps :: "('r \<Rightarrow> string) \<Rightarrow> ('r \<Rightarrow> int) \<Rightarrow> 'r list \<Rightarrow> nat" where
  "sequence_gaps owner seqno rows =
     length (filter (\<lambda>k. let own = filter (\<lambda>r. owner r = k) rows in
                          Some (int (length own)) \<noteq> sql_max (map seqno own))
       (remdups (map owner rows)))"

definition status_run_state :: "string \<Rightarrow> string" where
  "status_run_state status =
     (if status = ''applied'' then ''accepted''
      else if status = ''rejected'' then ''rejected''
      else if status = ''conflicted'' then ''conflicted''
      else ''review'')"

definition operation_queries :: "Database \<Rightarrow> (string \<times> nat) list" where
  "operation_queries db =
     [(''operation lifecycle sequences have gaps'',
       sequence_gaps lr_run_id lr_sequence (lifecycle_t db)),
      (''operation attempt sequences have gaps'',
       sequence_gaps oa_run_id oa_sequence (attempt_t db)),
      (''successful operation attempt is not final'',
       rows_where (\<lambda>a. oa_outcome a = ''succeeded''
           \<and> exists_row (\<lambda>l. oa_run_id l = oa_run_id a \<and> oa_sequence l > oa_sequence a) (attempt_t db))
         (attempt_t db)),
      (''operation current state differs from latest lifecycle event'',
       rows_where (\<lambda>r. ror_state r \<noteq>
           coalesce (map_option lr_to_state
             (last_by lr_sequence (filter (\<lambda>e. lr_run_id e = ror_id r) (lifecycle_t db)))) [])
         (run_t db)),
      (''review head revision differs from immutable review log'',
       rows_where (\<lambda>h. rh_revision h \<noteq>
           coalesce (sql_max (map re_new_revision
             (filter (\<lambda>e. re_proposal_id e = rh_proposal_id h) (review_event_t db)))) 0)
         (review_head_t db)),
      (''review head status differs from immutable review log'',
       rows_where (\<lambda>h. rh_status h \<noteq>
           coalesce (map_option re_next_status
             (last_by re_sequence (filter (\<lambda>e. re_proposal_id e = rh_proposal_id h) (review_event_t db))))
             ''review'')
         (review_head_t db)),
      (''patch proposal/review head cardinality is invalid'',
       rows_where (\<lambda>a. let h = find_by rh_proposal_id (ar_id a) (review_head_t db) in
           (ar_kind a = ''patch_proposal'' \<and> h = None) \<or> (ar_kind a = ''findings'' \<and> h \<noteq> None))
         (artifact_t db)),
      (''review status and operation state disagree'',
       length [(h, r). h \<leftarrow> review_head_t db, r \<leftarrow> run_t db,
               ror_id r = rh_run_id h, ror_state r \<noteq> status_run_state (rh_status h)]),
      (''context packet binding differs from operation run'',
       length [(r, c). r \<leftarrow> run_t db, c \<leftarrow> packet_t db, Some (cp_id c) = ror_context_packet_id r,
               cp_project_id c \<noteq> ror_project_id r \<or> cp_base_commit_id c \<noteq> ror_base_commit_id r
               \<or> cp_operation_intent_id c \<noteq> ror_operation_intent_id r]),
      (''operation base commit belongs to another project'',
       length [(r, c). r \<leftarrow> run_t db, c \<leftarrow> commit_node_t db, cn_id c = ror_base_commit_id r,
               cn_project_id c \<noteq> ror_project_id r]),
      (''context packet base commit belongs to another project'',
       length [(p, c). p \<leftarrow> packet_t db, c \<leftarrow> commit_node_t db, cn_id c = cp_base_commit_id p,
               cn_project_id c \<noteq> cp_project_id p]),
      (''operation artifact cardinality is invalid for the run state'',
       rows_where (\<lambda>r. let a = find_by ar_run_id (ror_id r) (artifact_t db) in
           (ror_state r \<in> set [''review'', ''accepted'', ''rejected'', ''conflicted''] \<and> a = None)
           \<or> (ror_state r \<in> set [''failed'', ''cancelled''] \<and> a \<noteq> None))
         (run_t db)),
      (''operation failure columns disagree with the run state'',
       rows_where (\<lambda>r. (ror_state r \<in> set [''failed'', ''cancelled''] \<and> ror_failure_code r = None)
           \<or> (ror_state r \<notin> set [''failed'', ''cancelled''] \<and> ror_failure_code r \<noteq> None))
         (run_t db))]"

definition verify_operation_invariants :: "Database \<Rightarrow> unit StoreResult" where
  "verify_operation_invariants db =
     foldM (\<lambda>(label, n) _. require (n = 0) (InvariantViolation (label @ '': '' @ show_nat n)))
       (operation_queries db) ()"

end
