(* ===== verification/OperationInvariants.thy ===== *)
theory OperationInvariants
  imports Operations "HOL-Library.Multiset"
begin

text \<open>
  What every database reached by the store's operations satisfies in the operation and
  review tables, that the audit of the code accepts such a database, and that persisting a
  bundle keeps it. \<open>op_ok\<close> is the abstract invariant: keys are unique, references resolve,
  the logs are gap-free, and each run, packet, artifact and review head agrees with the
  rows that explain it.
\<close>

section \<open>The invariant\<close>

definition events_of :: "Database \<Rightarrow> string \<Rightarrow> LifecycleRow list" where
  "events_of db k = filter (\<lambda>e. lr_run_id e = k) (lifecycle_t db)"

definition reviews_of :: "Database \<Rightarrow> string \<Rightarrow> ReviewEventRow list" where
  "reviews_of db k = filter (\<lambda>e. re_proposal_id e = k) (review_event_t db)"

definition op_keys :: "Database \<Rightarrow> bool" where
  "op_keys db \<longleftrightarrow>
     distinct (map ror_id (run_t db)) \<and> distinct (map cp_id (packet_t db))
     \<and> distinct (map ar_id (artifact_t db)) \<and> distinct (map ar_run_id (artifact_t db))
     \<and> distinct (map rh_proposal_id (review_head_t db)) \<and> distinct (map rh_run_id (review_head_t db))
     \<and> distinct (map re_id (review_event_t db)) \<and> distinct (map cn_id (commit_node_t db))"

definition op_refs :: "Database \<Rightarrow> bool" where
  "op_refs db \<longleftrightarrow>
     lr_run_id ` set (lifecycle_t db) \<subseteq> ror_id ` set (run_t db)
     \<and> oa_run_id ` set (attempt_t db) \<subseteq> ror_id ` set (run_t db)
     \<and> ar_run_id ` set (artifact_t db) \<subseteq> ror_id ` set (run_t db)
     \<and> rh_run_id ` set (review_head_t db) \<subseteq> ror_id ` set (run_t db)
     \<and> rh_proposal_id ` set (review_head_t db) \<subseteq> ar_id ` set (artifact_t db)
     \<and> re_proposal_id ` set (review_event_t db) \<subseteq> rh_proposal_id ` set (review_head_t db)"

definition attempts_final :: "OperationAttemptRecord list \<Rightarrow> bool" where
  "attempts_final as \<longleftrightarrow>
     (\<forall>a \<in> set as. oa_outcome a = ''succeeded'' \<longrightarrow>
        (\<forall>b \<in> set as. oa_run_id b = oa_run_id a \<longrightarrow> oa_sequence b \<le> oa_sequence a))"

definition op_logs :: "Database \<Rightarrow> bool" where
  "op_logs db \<longleftrightarrow>
     gap_free lr_run_id lr_sequence (lifecycle_t db)
     \<and> gap_free oa_run_id oa_sequence (attempt_t db)
     \<and> gap_free re_proposal_id re_sequence (review_event_t db)
     \<and> attempts_final (attempt_t db)
     \<and> (\<forall>e \<in> set (review_event_t db). re_new_revision e = re_sequence e)"

definition stored_states :: "string list" where
  "stored_states =
     [''review'', ''accepted'', ''rejected'', ''conflicted'', ''failed'', ''cancelled'']"

definition commit_ok :: "Database \<Rightarrow> string \<Rightarrow> string \<Rightarrow> bool" where
  "commit_ok db commit_id project_id \<longleftrightarrow>
     (\<exists>c \<in> set (commit_node_t db). cn_id c = commit_id \<and> cn_project_id c = project_id)"

definition packet_bound :: "Database \<Rightarrow> RawOperationRun \<Rightarrow> bool" where
  "packet_bound db r \<longleftrightarrow>
     (case ror_context_packet_id r of
        None \<Rightarrow> True
      | Some p \<Rightarrow> (\<exists>c \<in> set (packet_t db). cp_id c = p
                     \<and> cp_project_id c = ror_project_id r
                     \<and> cp_base_commit_id c = ror_base_commit_id r
                     \<and> cp_operation_intent_id c = ror_operation_intent_id r))"

definition run_ok :: "Database \<Rightarrow> RawOperationRun \<Rightarrow> bool" where
  "run_ok db r \<longleftrightarrow>
     ror_state r \<in> set stored_states
     \<and> events_of db (ror_id r) \<noteq> []
     \<and> lr_to_state (last (events_of db (ror_id r))) = ror_state r
     \<and> (ror_state r \<in> set [''failed'', ''cancelled''] \<longleftrightarrow> ror_id r \<notin> ar_run_id ` set (artifact_t db))
     \<and> (ror_state r \<in> set [''failed'', ''cancelled''] \<longleftrightarrow> ror_failure_code r \<noteq> None)
     \<and> packet_bound db r
     \<and> commit_ok db (ror_base_commit_id r) (ror_project_id r)"

definition head_ok :: "Database \<Rightarrow> ReviewHeadRow \<Rightarrow> bool" where
  "head_ok db h \<longleftrightarrow>
     rh_revision h = int (length (reviews_of db (rh_proposal_id h)))
     \<and> rh_status h = (if reviews_of db (rh_proposal_id h) = [] then ''review''
                      else re_next_status (last (reviews_of db (rh_proposal_id h))))
     \<and> rh_status h \<in> set review_status_names
     \<and> (\<forall>r \<in> set (run_t db). ror_id r = rh_run_id h \<longrightarrow> ror_state r = status_run_state (rh_status h))"

definition artifact_ok :: "Database \<Rightarrow> ArtifactRow \<Rightarrow> bool" where
  "artifact_ok db a \<longleftrightarrow>
     ar_kind a \<in> set [''patch_proposal'', ''findings'']
     \<and> (ar_kind a = ''patch_proposal'' \<longleftrightarrow> ar_id a \<in> rh_proposal_id ` set (review_head_t db))"

definition op_ok :: "Database \<Rightarrow> bool" where
  "op_ok db \<longleftrightarrow>
     op_keys db \<and> op_refs db \<and> op_logs db
     \<and> (\<forall>r \<in> set (run_t db). run_ok db r)
     \<and> (\<forall>h \<in> set (review_head_t db). head_ok db h)
     \<and> (\<forall>a \<in> set (artifact_t db). artifact_ok db a)
     \<and> (\<forall>p \<in> set (packet_t db). commit_ok db (cp_base_commit_id p) (cp_project_id p))"

lemma op_ok_empty: "op_ok empty_database"
  by (simp add: op_ok_def op_keys_def op_refs_def op_logs_def attempts_final_def empty_database_def)

text \<open>The invariant reads only the operation tables and the commits.\<close>

definition same_op_tables :: "Database \<Rightarrow> Database \<Rightarrow> bool" where
  "same_op_tables db db' \<longleftrightarrow>
     packet_t db' = packet_t db \<and> run_t db' = run_t db \<and> lifecycle_t db' = lifecycle_t db
     \<and> artifact_t db' = artifact_t db \<and> review_head_t db' = review_head_t db
     \<and> review_event_t db' = review_event_t db \<and> attempt_t db' = attempt_t db"

lemma op_ok_frame:
  assumes "op_ok db" and "same_op_tables db db'"
    and "set (commit_node_t db) \<subseteq> set (commit_node_t db')"
    and "distinct (map cn_id (commit_node_t db'))"
  shows "op_ok db'"
proof -
  have tables: "packet_t db' = packet_t db" "run_t db' = run_t db" "lifecycle_t db' = lifecycle_t db"
    "artifact_t db' = artifact_t db" "review_head_t db' = review_head_t db"
    "review_event_t db' = review_event_t db" "attempt_t db' = attempt_t db"
    using assms(2) by (auto simp: same_op_tables_def)
  have commit: "commit_ok db c p \<Longrightarrow> commit_ok db' c p" for c p
    using assms(3) by (auto simp: commit_ok_def)
  have "run_ok db r \<Longrightarrow> run_ok db' r" for r
    using commit unfolding run_ok_def events_of_def packet_bound_def tables by blast
  moreover have "head_ok db h \<Longrightarrow> head_ok db' h" for h
    unfolding head_ok_def reviews_of_def tables by assumption
  moreover have "artifact_ok db a \<Longrightarrow> artifact_ok db' a" for a
    unfolding artifact_ok_def tables by assumption
  moreover have "op_keys db'" "op_refs db'" "op_logs db'"
    using assms(1,4) by (simp_all add: op_ok_def op_keys_def op_refs_def op_logs_def tables)
  ultimately show ?thesis
    using assms(1) commit by (simp add: op_ok_def tables)
qed

section \<open>The audit accepts the invariant\<close>

lemma last_by_sorted:
  assumes "sorted_wrt (<) (map seqno rows)"
  shows "last_by seqno rows = (if rows = [] then None else Some (last rows))"
proof -
  have "sort_key (\<lambda>r. Desc (seqno r)) rows = rev rows"
  proof (rule sort_key_inj_key_eq)
    show "inj_on (\<lambda>r. Desc (seqno r)) (set rows)"
      using assms by (auto simp: strict_sorted_iff distinct_map inj_on_def)
    show "sorted (map (\<lambda>r. Desc (seqno r)) (rev rows))"
      using assms
      by (auto simp: rev_map [symmetric] sorted_wrt_rev sorted_wrt_map elim!: sorted_wrt_mono_rel [rotated])
  qed simp
  then show ?thesis by (cases rows rule: rev_cases) (auto simp: last_by_def)
qed

lemma last_by_own:
  assumes "gap_free owner seqno rows"
  shows "last_by seqno (filter (\<lambda>r. owner r = k) rows)
         = (let own = filter (\<lambda>r. owner r = k) rows in if own = [] then None else Some (last own))"
  using last_by_sorted [OF gap_free_sorted [OF assms]] by (simp add: Let_def)

lemma sequence_gaps_0:
  assumes "gap_free owner seqno rows"
  shows "sequence_gaps owner seqno rows = 0"
proof -
  have "Some (int (length (filter (\<lambda>r. owner r = k) rows)))
        = sql_max (map seqno (filter (\<lambda>r. owner r = k) rows))" if "k \<in> set (map owner rows)" for k
  proof -
    have "filter (\<lambda>r. owner r = k) rows \<noteq> []"
      using that by (auto simp: filter_empty_conv)
    then show ?thesis
      using assms by (simp only: gap_free_def sql_max_upto) simp
  qed
  then show ?thesis by (auto simp: sequence_gaps_def filter_empty_conv Let_def)
qed

lemma all_counts_zero:
  "list_all (\<lambda>(l, n). n = 0) qs \<Longrightarrow>
   foldM (\<lambda>(label, n) _. require (n = 0) (InvariantViolation (label @ '': '' @ show_nat n))) qs ()
     = Inr ()"
  by (induction qs) auto

lemma head_revision_max:
  assumes "op_logs db"
  shows "coalesce (sql_max (map re_new_revision (reviews_of db k))) 0
         = int (length (reviews_of db k))"
proof -
  have "map re_new_revision (reviews_of db k) = map re_sequence (reviews_of db k)"
    using assms by (auto simp: op_logs_def reviews_of_def)
  also have "\<dots> = map int [1..<Suc (length (reviews_of db k))]"
    using assms unfolding op_logs_def gap_free_def reviews_of_def by blast
  finally have "map re_new_revision (reviews_of db k) = map int [1..<Suc (length (reviews_of db k))]" .
  then show ?thesis by (simp only: sql_max_upto) simp
qed

lemma audit_counts_zero:
  assumes ok: "op_ok db"
  shows "list_all (\<lambda>(l, n). n = 0) (operation_queries db)"
proof -
  note ops = ok [unfolded op_ok_def]
  have logs: "op_logs db" and keys: "op_keys db" and refs: "op_refs db" using ops by auto
  have gaps: "sequence_gaps lr_run_id lr_sequence (lifecycle_t db) = 0"
    "sequence_gaps oa_run_id oa_sequence (attempt_t db) = 0"
    using logs by (simp_all add: op_logs_def sequence_gaps_0)
  have final: "\<forall>a \<in> set (attempt_t db). \<not> (oa_outcome a = ''succeeded''
      \<and> (\<exists>l \<in> set (attempt_t db). oa_run_id l = oa_run_id a \<and> oa_sequence l > oa_sequence a))"
    using logs by (auto simp: op_logs_def attempts_final_def) (metis not_le)
  have state: "\<forall>r \<in> set (run_t db). ror_state r =
      coalesce (map_option lr_to_state
        (last_by lr_sequence (filter (\<lambda>e. lr_run_id e = ror_id r) (lifecycle_t db)))) []"
    using ops logs by (auto simp: op_logs_def last_by_own run_ok_def events_of_def Let_def)
  have rev: "\<forall>h \<in> set (review_head_t db). rh_revision h =
      coalesce (sql_max (map re_new_revision
        (filter (\<lambda>e. re_proposal_id e = rh_proposal_id h) (review_event_t db)))) 0"
    using ops head_revision_max [OF logs] by (auto simp: head_ok_def reviews_of_def)
  have status: "\<forall>h \<in> set (review_head_t db). rh_status h =
      coalesce (map_option re_next_status
        (last_by re_sequence (filter (\<lambda>e. re_proposal_id e = rh_proposal_id h) (review_event_t db))))
        ''review''"
  proof
    fix h assume "h \<in> set (review_head_t db)"
    then have "rh_status h = (if reviews_of db (rh_proposal_id h) = [] then ''review''
                      else re_next_status (last (reviews_of db (rh_proposal_id h))))"
      using ops unfolding head_ok_def by blast
    moreover have "gap_free re_proposal_id re_sequence (review_event_t db)"
      using logs by (simp add: op_logs_def)
    ultimately show "rh_status h =
      coalesce (map_option re_next_status
        (last_by re_sequence (filter (\<lambda>e. re_proposal_id e = rh_proposal_id h) (review_event_t db))))
        ''review''"
      by (simp add: last_by_own reviews_of_def Let_def)
  qed
  have arts: "\<forall>a \<in> set (artifact_t db). \<not> (let h = find_by rh_proposal_id (ar_id a) (review_head_t db) in
           (ar_kind a = ''patch_proposal'' \<and> h = None) \<or> (ar_kind a = ''findings'' \<and> h \<noteq> None))"
    using ops by (auto simp: Let_def find_by_None_iff artifact_ok_def)
  have agree: "[(h, r). h \<leftarrow> review_head_t db, r \<leftarrow> run_t db,
               ror_id r = rh_run_id h, ror_state r \<noteq> status_run_state (rh_status h)] = []"
    using ops by (auto simp: head_ok_def)
  have bound: "[(r, c). r \<leftarrow> run_t db, c \<leftarrow> packet_t db, Some (cp_id c) = ror_context_packet_id r,
               cp_project_id c \<noteq> ror_project_id r \<or> cp_base_commit_id c \<noteq> ror_base_commit_id r
               \<or> cp_operation_intent_id c \<noteq> ror_operation_intent_id r] = []"
  proof -
    have "cp_project_id c = ror_project_id r \<and> cp_base_commit_id c = ror_base_commit_id r
          \<and> cp_operation_intent_id c = ror_operation_intent_id r"
      if "r \<in> set (run_t db)" "c \<in> set (packet_t db)" "Some (cp_id c) = ror_context_packet_id r" for r c
    proof -
      from that(1) ops have "packet_bound db r" by (auto simp: run_ok_def)
      with that(3) obtain c' where c': "c' \<in> set (packet_t db)" "cp_id c' = cp_id c"
        "cp_project_id c' = ror_project_id r" "cp_base_commit_id c' = ror_base_commit_id r"
        "cp_operation_intent_id c' = ror_operation_intent_id r"
        by (auto simp: packet_bound_def split: option.splits)
      have "c' = c" using keys c'(1,2) that(2) by (auto simp: op_keys_def distinct_map inj_on_def)
      with c' show ?thesis by simp
    qed
    then show ?thesis by auto
  qed
  have same_commit: "c = c'" if "c \<in> set (commit_node_t db)" "c' \<in> set (commit_node_t db)" "cn_id c = cn_id c'"
    for c c' using keys that by (auto simp: op_keys_def distinct_map inj_on_def)
  have base: "[(r, c). r \<leftarrow> run_t db, c \<leftarrow> commit_node_t db, cn_id c = ror_base_commit_id r,
               cn_project_id c \<noteq> ror_project_id r] = []"
    using ops same_commit by (auto simp: run_ok_def commit_ok_def) metis
  have pbase: "[(p, c). p \<leftarrow> packet_t db, c \<leftarrow> commit_node_t db, cn_id c = cp_base_commit_id p,
               cn_project_id c \<noteq> cp_project_id p] = []"
    using ops same_commit by (auto simp: commit_ok_def) metis
  have card: "\<forall>r \<in> set (run_t db). \<not> (let a = find_by ar_run_id (ror_id r) (artifact_t db) in
           (ror_state r \<in> set [''review'', ''accepted'', ''rejected'', ''conflicted''] \<and> a = None)
           \<or> (ror_state r \<in> set [''failed'', ''cancelled''] \<and> a \<noteq> None))"
    using ops by (auto simp: Let_def find_by_None_iff run_ok_def)
  have fail: "\<forall>r \<in> set (run_t db). \<not> ((ror_state r \<in> set [''failed'', ''cancelled''] \<and> ror_failure_code r = None)
           \<or> (ror_state r \<notin> set [''failed'', ''cancelled''] \<and> ror_failure_code r \<noteq> None))"
    using ops unfolding run_ok_def by blast
  show ?thesis
    unfolding operation_queries_def list.pred_inject case_prod_conv rows_where_0_iff length_0_conv
      exists_row_iff not_not
    by (intro conjI list.pred_inject(1) gaps final state rev status arts agree bound base pbase card fail)
qed

lemma audit_accepts: "op_ok db \<Longrightarrow> verify_operation_invariants db = Inr ()"
  unfolding verify_operation_invariants_def by (rule all_counts_zero, rule audit_counts_zero)

section \<open>Persisting a bundle keeps the invariant\<close>

lemma foldM_insert_lifecycle:
  "foldM insert_lifecycle es db = Inr db' \<Longrightarrow> db' = db\<lparr>lifecycle_t := lifecycle_t db @ es\<rparr>"
proof (induction es arbitrary: db)
  case (Cons x xs)
  then obtain d where d: "insert_lifecycle x db = Inr d" "foldM insert_lifecycle xs d = Inr db'"
    by (auto simp: rbind_Inr_iff)
  then have "d = db\<lparr>lifecycle_t := lifecycle_t db @ [x]\<rparr>"
    by (simp add: insert_lifecycle_def constrain_Inr_iff)
  with Cons.IH [OF d(2)] show ?case by simp
qed simp

lemma foldM_insert_attempt:
  "foldM insert_attempt as db = Inr db' \<Longrightarrow> db' = db\<lparr>attempt_t := attempt_t db @ as\<rparr>"
proof (induction as arbitrary: db)
  case (Cons x xs)
  then obtain d where d: "insert_attempt x db = Inr d" "foldM insert_attempt xs d = Inr db'"
    by (auto simp: rbind_Inr_iff)
  then have "d = db\<lparr>attempt_t := attempt_t db @ [x]\<rparr>"
    by (simp add: insert_attempt_def constrain_Inr_iff)
  with Cons.IH [OF d(2)] show ?case by simp
qed simp

text \<open>The rows a successful transaction appends, and what it has checked.\<close>

definition new_head :: "string \<Rightarrow> NewOperationArtifact \<Rightarrow> ReviewHeadRow" where
  "new_head run_id a =
     \<lparr>rh_proposal_id = nar_id a, rh_run_id = run_id, rh_revision = 0, rh_status = ''review'',
      rh_updated_at = nar_created_at a\<rparr>"

definition new_heads :: "string \<Rightarrow> NewOperationArtifact option \<Rightarrow> ReviewHeadRow list" where
  "new_heads run_id artifact =
     (case artifact of
        None \<Rightarrow> []
      | Some a \<Rightarrow> if nar_kind a = OperationArtifactKind.PatchProposal then [new_head run_id a] else [])"

definition opt_list :: "'a option \<Rightarrow> 'a list" where
  "opt_list x = (case x of None \<Rightarrow> [] | Some y \<Rightarrow> [y])"

lemma opt_list_simps [simp]: "opt_list None = []" "opt_list (Some y) = [y]"
  by (simp_all add: opt_list_def)

definition bundle_rows :: "PersistOperationBundle \<Rightarrow> Database \<Rightarrow> Database" where
  "bundle_rows bundle db =
     (let run = pob_run bundle in
      db\<lparr>packet_t := packet_t db @ map packet_row (opt_list (pob_context_packet bundle)),
         run_t := run_t db @ [run_row run (map_option ncp_id (pob_context_packet bundle))],
         lifecycle_t := lifecycle_t db
           @ map (lifecycle_row (nor_id run)) (enumerate 0 (pob_lifecycle_events bundle)),
         attempt_t := attempt_t db @ map (attempt_row (nor_id run)) (pob_attempts bundle),
         artifact_t := artifact_t db @ map (artifact_row (nor_id run)) (opt_list (pob_artifact bundle)),
         review_head_t := review_head_t db @ new_heads (nor_id run) (pob_artifact bundle)\<rparr>)"

lemma packet_rows_effect:
  assumes "(case packet of Some p \<Rightarrow> insert_packet env (packet_row p) db | None \<Rightarrow> Inr db) = Inr db'"
  shows "db' = db\<lparr>packet_t := packet_t db @ map packet_row (opt_list packet)\<rparr>
    \<and> (\<forall>p \<in> set (opt_list packet). ncp_id p \<notin> cp_id ` set (packet_t db))"
  using assms
  by (cases packet) (auto simp: insert_packet_def result_simps packet_row_def)

lemma artifact_rows_effect:
  assumes "persist_artifact env run_id artifact db = Inr db'"
  shows "db' = db\<lparr>artifact_t := artifact_t db @ map (artifact_row run_id) (opt_list artifact),
                  review_head_t := review_head_t db @ new_heads run_id artifact\<rparr>
    \<and> (\<forall>a \<in> set (opt_list artifact). nar_id a \<notin> ar_id ` set (artifact_t db)
          \<and> run_id \<notin> ar_run_id ` set (artifact_t db))
    \<and> (\<forall>h \<in> set (new_heads run_id artifact). rh_proposal_id h \<notin> rh_proposal_id ` set (review_head_t db)
          \<and> run_id \<notin> rh_run_id ` set (review_head_t db))"
  using assms
  by (cases artifact)
    (auto simp: persist_artifact_def insert_artifact_def insert_review_head_def result_simps
      artifact_row_def new_heads_def new_head_def split: if_splits)

lemma persist_rows_effect:
  assumes "persist_rows env bundle db = Inr db'"
  defines "run \<equiv> pob_run bundle"
  shows "db' = bundle_rows bundle db"
    and "commit_ok db (nor_base_commit_id run) (nor_project_id run)"
    and "nor_id run \<notin> ror_id ` set (run_t db)"
    and "p \<in> set (opt_list (pob_context_packet bundle)) \<Longrightarrow> ncp_id p \<notin> cp_id ` set (packet_t db)"
    and "a \<in> set (opt_list (pob_artifact bundle)) \<Longrightarrow> nar_id a \<notin> ar_id ` set (artifact_t db)"
    and "run_checks (run_row run (map_option ncp_id (pob_context_packet bundle)))"
proof -
  from assms(1) obtain d1 d2 d3 d4 where
    c: "assert_commit_belongs_to_project (nor_base_commit_id run) (nor_project_id run) db = Inr ()"
    and 1: "(case pob_context_packet bundle of
               Some p \<Rightarrow> insert_packet env (packet_row p) db | None \<Rightarrow> Inr db) = Inr d1"
    and 2: "insert_run (run_row run (map_option ncp_id (pob_context_packet bundle))) d1 = Inr d2"
    and 3: "foldM insert_lifecycle
              (map (lifecycle_row (nor_id run)) (enumerate 0 (pob_lifecycle_events bundle))) d2 = Inr d3"
    and 4: "foldM insert_attempt (map (attempt_row (nor_id run)) (pob_attempts bundle)) d3 = Inr d4"
    and 5: "persist_artifact env (nor_id run) (pob_artifact bundle) d4 = Inr db'"
    unfolding persist_rows_def run_def Let_def by (auto simp: rbind_Inr_iff)
  note 1 = packet_rows_effect [OF 1]
  note 3 = foldM_insert_lifecycle [OF 3]
  note 4 = foldM_insert_attempt [OF 4]
  note 5 = artifact_rows_effect [OF 5]
  have r: "d2 = d1\<lparr>run_t := run_t d1 @ [run_row run (map_option ncp_id (pob_context_packet bundle))]\<rparr>"
    "nor_id run \<notin> ror_id ` set (run_t d1)"
    "run_checks (run_row run (map_option ncp_id (pob_context_packet bundle)))"
    using 2 by (auto simp: insert_run_def result_simps run_row_def Let_def)
  show "db' = bundle_rows bundle db"
    using 1 r(1) 3 4 5 by (simp add: bundle_rows_def run_def Let_def)
  show "commit_ok db (nor_base_commit_id run) (nor_project_id run)"
    using c by (auto simp: assert_commit_belongs_to_project_def result_simps commit_ok_def)
  show "nor_id run \<notin> ror_id ` set (run_t db)" using r(2) 1 by simp
  show "p \<in> set (opt_list (pob_context_packet bundle)) \<Longrightarrow> ncp_id p \<notin> cp_id ` set (packet_t db)"
    using 1 by auto
  show "a \<in> set (opt_list (pob_artifact bundle)) \<Longrightarrow> nar_id a \<notin> ar_id ` set (artifact_t db)"
    using 5 1 r(1) 3 4 by auto
  show "run_checks (run_row run (map_option ncp_id (pob_context_packet bundle)))" by (rule r(3))
qed

text \<open>What the validation of a bundle guarantees.\<close>

lemma all_ok_enumerate:
  "all_ok (map f (enumerate 0 xs)) = Inr u \<longleftrightarrow> (\<forall>i < length xs. f (i, xs ! i) = Inr ())"
  by (auto simp: all_ok_Inr_iff list_all_iff in_set_enumerate_eq)

lemma validate_lifecycle_Inr_iff:
  "validate_lifecycle events final = Inr u \<longleftrightarrow>
     events \<noteq> [] \<and> length events \<le> 64 \<and> nle_from_state (events ! 0) = OperationState.Draft
     \<and> nle_to_state (last events) = final
     \<and> (\<forall>i < length events. lifecycle_step events (i, events ! i) = Inr ())"
  by (auto simp: validate_lifecycle_def validation_def rbind_Inr_iff all_ok_enumerate)

lemma lifecycle_step_Inr_iff:
  "lifecycle_step events (i, e) = Inr u \<longleftrightarrow>
     non_empty ''lifecycle.occurred_at'' (nle_occurred_at e) = Inr ()
     \<and> (case nle_reason e of Some r \<Rightarrow> non_empty ''lifecycle.reason'' r | None \<Rightarrow> Inr ()) = Inr ()
     \<and> valid_operation_transition (nle_from_state e) (nle_to_state e)
     \<and> (0 < i \<longrightarrow> nle_to_state (events ! (i - 1)) = nle_from_state e)"
  by (auto simp: lifecycle_step_def all_ok_Inr_iff require_Inr_iff simp del: all_ok.simps)

lemma validate_attempts_Inr_iff:
  "validate_attempts as = Inr u \<longleftrightarrow>
     length as \<le> 3 \<and> (\<forall>i < length as. attempt_step (length as) (i, as ! i) = Inr ())"
  by (auto simp: validate_attempts_def validation_def all_ok_enumerate)

lemma attempt_step_facts:
  assumes "attempt_step n (i, a) = Inr u"
  shows "noa_sequence a = int i + 1"
    and "noa_outcome a = ''succeeded'' \<Longrightarrow> i + 1 = n"
  using assms
  by (auto simp: attempt_step_def all_ok_Inr_iff require_Inr_iff simp del: all_ok.simps split: if_splits)

lemma validate_bundle_facts:
  assumes "validate_bundle env b = Inr u"
  defines "run \<equiv> pob_run b"
  shows "nor_state run \<in> {OperationState.Review, OperationState.Failed, OperationState.Cancelled}"
    and "nor_state run = OperationState.Review \<Longrightarrow>
      pob_context_packet b \<noteq> None \<and> pob_artifact b \<noteq> None \<and> nor_failure run = None"
    and "nor_state run \<noteq> OperationState.Review \<Longrightarrow> pob_artifact b = None \<and> nor_failure run \<noteq> None"
    and "pob_context_packet b = Some p \<Longrightarrow>
      ncp_operation_intent_id p = nor_operation_intent_id run
      \<and> ncp_project_id p = nor_project_id run \<and> ncp_base_commit_id p = nor_base_commit_id run"
    and "validate_lifecycle (pob_lifecycle_events b) (nor_state run) = Inr ()"
    and "validate_attempts (pob_attempts b) = Inr ()"
    and "validate_usage (nor_usage run) = Inr ()"
proof -
  from assms have all:
    "nor_state run \<in> set [OperationState.Review, OperationState.Failed, OperationState.Cancelled]"
    "check_outcome b = Inr ()" "check_packet env run (pob_context_packet b) = Inr ()"
    "validate_lifecycle (pob_lifecycle_events b) (nor_state run) = Inr ()"
    "validate_attempts (pob_attempts b) = Inr ()" "validate_usage (nor_usage run) = Inr ()"
    unfolding validate_bundle_def Let_def all_ok_Inr_iff list.pred_inject require_Inr_iff run_def
    by blast+
  from all(1) show st: "nor_state run \<in> {OperationState.Review, OperationState.Failed, OperationState.Cancelled}"
    by simp
  from all(2) show "nor_state run = OperationState.Review \<Longrightarrow>
      pob_context_packet b \<noteq> None \<and> pob_artifact b \<noteq> None \<and> nor_failure run = None"
    by (auto simp: check_outcome_def require_Inr_iff run_def Let_def)
  from all(2) st show "nor_state run \<noteq> OperationState.Review \<Longrightarrow> pob_artifact b = None \<and> nor_failure run \<noteq> None"
    by (auto simp: check_outcome_def require_Inr_iff run_def Let_def)
  from all(3) show "pob_context_packet b = Some p \<Longrightarrow>
      ncp_operation_intent_id p = nor_operation_intent_id run
      \<and> ncp_project_id p = nor_project_id run \<and> ncp_base_commit_id p = nor_base_commit_id run"
    by (auto simp: check_packet_def all_ok_Inr_iff require_Inr_iff simp del: all_ok.simps)
qed (use assms in \<open>simp_all add: validate_bundle_def Let_def all_ok_Inr_iff run_def del: all_ok.simps\<close>)

lemma lifecycle_rows_numbered:
  "map lr_sequence (map (lifecycle_row k) (enumerate 0 es)) = map int [1..<Suc (length es)]"
  by (rule nth_equalityI) (auto simp: lifecycle_row_def nth_enumerate_eq simp del: upt_Suc)

lemma attempt_rows_numbered:
  assumes "validate_attempts as = Inr ()"
  shows "map oa_sequence (map (attempt_row k) as) = map int [1..<Suc (length as)]"
  using assms
  by (intro nth_equalityI)
    (auto simp: validate_attempts_Inr_iff attempt_row_def attempt_step_facts(1) simp del: upt_Suc)

lemma attempt_rows_final:
  assumes "validate_attempts as = Inr ()"
  shows "attempts_final (map (attempt_row k) as)"
  unfolding attempts_final_def
proof (intro ballI impI)
  fix a b assume "a \<in> set (map (attempt_row k) as)" "oa_outcome a = ''succeeded''"
    "b \<in> set (map (attempt_row k) as)"
  then obtain i j where ij: "i < length as" "a = attempt_row k (as ! i)"
    "noa_outcome (as ! i) = ''succeeded''" "j < length as" "b = attempt_row k (as ! j)"
    by (auto simp: in_set_conv_nth attempt_row_def)
  with assms have "attempt_step (length as) (i, as ! i) = Inr ()"
    "attempt_step (length as) (j, as ! j) = Inr ()"
    by (auto simp: validate_attempts_Inr_iff)
  with ij attempt_step_facts [OF this(1)] attempt_step_facts(1) [OF this(2)]
  show "oa_sequence b \<le> oa_sequence a" by (simp add: attempt_row_def)
qed

lemma attempts_final_append:
  assumes "attempts_final as" and "attempts_final bs"
    and "\<And>a b. a \<in> set as \<Longrightarrow> b \<in> set bs \<Longrightarrow> oa_run_id a \<noteq> oa_run_id b"
  shows "attempts_final (as @ bs)"
  using assms unfolding attempts_final_def by (metis Un_iff set_append)

lemma bundle_rows_simps:
  "packet_t (bundle_rows b db) = packet_t db @ map packet_row (opt_list (pob_context_packet b))"
  "run_t (bundle_rows b db)
     = run_t db @ [run_row (pob_run b) (map_option ncp_id (pob_context_packet b))]"
  "lifecycle_t (bundle_rows b db) = lifecycle_t db
     @ map (lifecycle_row (nor_id (pob_run b))) (enumerate 0 (pob_lifecycle_events b))"
  "attempt_t (bundle_rows b db) = attempt_t db @ map (attempt_row (nor_id (pob_run b))) (pob_attempts b)"
  "artifact_t (bundle_rows b db)
     = artifact_t db @ map (artifact_row (nor_id (pob_run b))) (opt_list (pob_artifact b))"
  "review_head_t (bundle_rows b db) = review_head_t db @ new_heads (nor_id (pob_run b)) (pob_artifact b)"
  "review_event_t (bundle_rows b db) = review_event_t db"
  "commit_node_t (bundle_rows b db) = commit_node_t db"
  by (simp_all add: bundle_rows_def Let_def)

lemma row_keys [simp]:
  "cp_id (packet_row p) = ncp_id p"
  "ror_id (run_row r x) = nor_id r"
  "lr_run_id (lifecycle_row k e) = k"
  "oa_run_id (attempt_row k a) = k"
  "ar_id (artifact_row k f) = nar_id f"
  "ar_run_id (artifact_row k f) = k"
  by (simp_all add: packet_row_def run_row_def lifecycle_row_def attempt_row_def artifact_row_def
      Let_def split: prod.split)

lemma new_heads_keys:
  "h \<in> set (new_heads k artifact) \<Longrightarrow>
     rh_run_id h = k \<and> rh_revision h = 0 \<and> rh_status h = ''review''
     \<and> (\<exists>a. artifact = Some a \<and> nar_kind a = OperationArtifactKind.PatchProposal
            \<and> rh_proposal_id h = nar_id a)"
  by (auto simp: new_heads_def new_head_def split: option.splits if_splits)

lemma new_heads_length: "new_heads k artifact = [] \<or> (\<exists>h. new_heads k artifact = [h])"
  by (auto simp: new_heads_def split: option.splits)

lemma bundle_keys:
  assumes ok: "op_ok db" and rows: "persist_rows env b db = Inr db'"
  shows "op_keys (bundle_rows b db)" and "op_refs (bundle_rows b db)"
proof -
  note eff = persist_rows_effect [OF rows]
  have keys: "op_keys db" and refs: "op_refs db" using ok by (auto simp: op_ok_def)
  let ?k = "nor_id (pob_run b)"
  have heads: "rh_run_id h \<noteq> ?k \<and> (\<forall>a \<in> set (opt_list (pob_artifact b)). rh_proposal_id h \<noteq> nar_id a)"
    if "h \<in> set (review_head_t db)" for h
  proof -
    have "rh_run_id h \<in> ror_id ` set (run_t db)" "rh_proposal_id h \<in> ar_id ` set (artifact_t db)"
      using that refs by (auto simp: op_refs_def)
    with eff(3,5) show ?thesis by metis
  qed
  have "distinct (map rh_proposal_id (review_head_t db @ new_heads ?k (pob_artifact b)))
      \<and> distinct (map rh_run_id (review_head_t db @ new_heads ?k (pob_artifact b)))"
    using keys heads new_heads_length [of ?k "pob_artifact b"] new_heads_keys [of _ ?k "pob_artifact b"]
    by (fastforce simp: op_keys_def)
  moreover have "distinct (map cp_id (packet_t db @ map packet_row (opt_list (pob_context_packet b))))"
    using keys eff(4) by (cases "pob_context_packet b") (auto simp: op_keys_def)
  moreover have "distinct (map ar_id (artifact_t db @ map (artifact_row ?k) (opt_list (pob_artifact b))))"
    using keys eff(5) by (cases "pob_artifact b") (auto simp: op_keys_def)
  moreover have "distinct (map ar_run_id (artifact_t db @ map (artifact_row ?k) (opt_list (pob_artifact b))))"
    using keys refs eff(3) by (cases "pob_artifact b") (auto simp: op_keys_def op_refs_def)
  ultimately show "op_keys (bundle_rows b db)"
    using keys eff(3) by (simp add: op_keys_def bundle_rows_simps)
  have "rh_run_id ` set (new_heads ?k (pob_artifact b)) \<subseteq> {?k}"
    "rh_proposal_id ` set (new_heads ?k (pob_artifact b)) \<subseteq> nar_id ` set (opt_list (pob_artifact b))"
    by (cases "pob_artifact b"; auto simp: new_heads_def new_head_def)+
  note heads_in = this
  have ids: "ror_id ` set (run_t (bundle_rows b db)) = insert ?k (ror_id ` set (run_t db))"
    "ar_id ` set (artifact_t (bundle_rows b db))
       = ar_id ` set (artifact_t db) \<union> nar_id ` set (opt_list (pob_artifact b))"
    "rh_proposal_id ` set (review_head_t db) \<subseteq> rh_proposal_id ` set (review_head_t (bundle_rows b db))"
    by (auto simp: bundle_rows_simps image_Un image_image)
  have new: "lr_run_id ` set (lifecycle_t (bundle_rows b db)) \<subseteq> insert ?k (lr_run_id ` set (lifecycle_t db))"
    "oa_run_id ` set (attempt_t (bundle_rows b db)) \<subseteq> insert ?k (oa_run_id ` set (attempt_t db))"
    "ar_run_id ` set (artifact_t (bundle_rows b db)) \<subseteq> insert ?k (ar_run_id ` set (artifact_t db))"
    "rh_run_id ` set (review_head_t (bundle_rows b db)) \<subseteq> insert ?k (rh_run_id ` set (review_head_t db))"
    "rh_proposal_id ` set (review_head_t (bundle_rows b db))
       \<subseteq> rh_proposal_id ` set (review_head_t db) \<union> nar_id ` set (opt_list (pob_artifact b))"
    using heads_in by (auto simp: bundle_rows_simps image_Un)
  note R = refs [unfolded op_refs_def, THEN conjunct1]
    refs [unfolded op_refs_def, THEN conjunct2, THEN conjunct1]
    refs [unfolded op_refs_def, THEN conjunct2, THEN conjunct2, THEN conjunct1]
    refs [unfolded op_refs_def, THEN conjunct2, THEN conjunct2, THEN conjunct2, THEN conjunct1]
    refs [unfolded op_refs_def, THEN conjunct2, THEN conjunct2, THEN conjunct2, THEN conjunct2]
  show "op_refs (bundle_rows b db)"
    unfolding op_refs_def ids(1,2) bundle_rows_simps(7)
    using subset_trans [OF new(1) insert_mono [OF R(1)]] subset_trans [OF new(2) insert_mono [OF R(2)]]
      subset_trans [OF new(3) insert_mono [OF R(3)]] subset_trans [OF new(4) insert_mono [OF R(4)]]
      subset_trans [OF new(5) Un_mono [OF R(5) [THEN conjunct1] subset_refl]]
      subset_trans [OF R(5) [THEN conjunct2] ids(3)]
    by (intro conjI)
qed

lemma bundle_logs:
  assumes ok: "op_ok db" and valid: "validate_bundle env b = Inr u"
    and rows: "persist_rows env b db = Inr db'"
  shows "op_logs (bundle_rows b db)"
proof -
  let ?k = "nor_id (pob_run b)"
  have fresh: "?k \<notin> ror_id ` set (run_t db)" by (rule persist_rows_effect(3) [OF rows])
  have refs: "op_refs db" and logs: "op_logs db" using ok by (auto simp: op_ok_def)
  have att: "validate_attempts (pob_attempts b) = Inr ()"
    by (rule validate_bundle_facts(6) [OF valid])
  have no_events: "?k \<notin> lr_run_id ` set (lifecycle_t db)"
    and no_attempts: "?k \<notin> oa_run_id ` set (attempt_t db)"
    using fresh refs by (auto simp: op_refs_def)
  have "gap_free lr_run_id lr_sequence (lifecycle_t (bundle_rows b db))"
    unfolding bundle_rows_simps
    by (rule gap_free_append_owner [of _ _ _ ?k])
      (use logs no_events in \<open>auto simp: op_logs_def lifecycle_rows_numbered simp del: upt_Suc map_map\<close>)
  moreover have "gap_free oa_run_id oa_sequence (attempt_t (bundle_rows b db))"
    unfolding bundle_rows_simps
    by (rule gap_free_append_owner [of _ _ _ ?k])
      (use logs no_attempts attempt_rows_numbered [OF att] in
        \<open>auto simp: op_logs_def simp del: upt_Suc map_map\<close>)
  moreover have other: "oa_run_id a \<noteq> ?k" if "a \<in> set (attempt_t db)" for a
    using no_attempts that by (metis imageI)
  have "attempts_final (attempt_t (bundle_rows b db))"
    unfolding bundle_rows_simps
    by (rule attempts_final_append)
      (use logs attempt_rows_final [OF att] other in \<open>auto simp: op_logs_def\<close>)
  ultimately show ?thesis using logs by (simp add: op_logs_def bundle_rows_simps)
qed

lemma bundle_run_ok_old:
  assumes ok: "op_ok db" and rows: "persist_rows env b db = Inr db'" and r: "r \<in> set (run_t db)"
  shows "run_ok (bundle_rows b db) r"
proof -
  let ?k = "nor_id (pob_run b)"
  have neq: "ror_id r \<noteq> ?k" using persist_rows_effect(3) [OF rows] r by (metis imageI)
  have old: "run_ok db r" using ok r by (simp add: op_ok_def)
  have e1: "events_of (bundle_rows b db) (ror_id r) = events_of db (ror_id r)"
    using neq by (auto simp: events_of_def bundle_rows_simps filter_empty_conv)
  have e2: "ror_id r \<in> ar_run_id ` set (artifact_t (bundle_rows b db))
      \<longleftrightarrow> ror_id r \<in> ar_run_id ` set (artifact_t db)"
    using neq by (auto simp: bundle_rows_simps)
  have "packet_bound db r \<Longrightarrow> packet_bound (bundle_rows b db) r"
    by (auto simp: packet_bound_def bundle_rows_simps split: option.splits)
  then show ?thesis
    using old unfolding run_ok_def commit_ok_def bundle_rows_simps(8) e1 e2 by blast
qed

lemma bundle_run_ok_new:
  assumes ok: "op_ok db" and valid: "validate_bundle env b = Inr u"
    and rows: "persist_rows env b db = Inr db'"
  shows "run_ok (bundle_rows b db) (run_row (pob_run b) (map_option ncp_id (pob_context_packet b)))"
proof -
  let ?k = "nor_id (pob_run b)" and ?st = "nor_state (pob_run b)"
  note eff = persist_rows_effect [OF rows] and facts = validate_bundle_facts [OF valid]
  have fresh: "?k \<notin> ror_id ` set (run_t db)" by (rule eff(3))
  have refs: "op_refs db" using ok by (auto simp: op_ok_def)
  have "?k \<notin> lr_run_id ` set (lifecycle_t db)" using fresh refs by (auto simp: op_refs_def)
  then have "filter (\<lambda>e. lr_run_id e = ?k) (lifecycle_t db) = []"
    by (rule filter_owner_Nil)
  then have own: "events_of (bundle_rows b db) ?k
      = map (lifecycle_row ?k) (enumerate 0 (pob_lifecycle_events b))"
    by (simp add: events_of_def bundle_rows_simps filter_True)
  have events: "pob_lifecycle_events b \<noteq> []" "nle_to_state (last (pob_lifecycle_events b)) = ?st"
    using facts(5) by (auto simp: validate_lifecycle_Inr_iff)
  have last: "lr_to_state (last (events_of (bundle_rows b db) ?k)) = operation_state_as_str ?st"
  proof -
    have "last (enumerate 0 (pob_lifecycle_events b))
        = (length (pob_lifecycle_events b) - 1, last (pob_lifecycle_events b))"
      using events(1) by (simp add: last_conv_nth enumerate_eq_zip nth_enumerate_eq)
    then show ?thesis
      using events by (simp add: own last_map enumerate_eq_zip lifecycle_row_def)
  qed
  have arts: "?k \<in> ar_run_id ` set (artifact_t (bundle_rows b db)) \<longleftrightarrow> pob_artifact b \<noteq> None"
    using fresh refs by (cases "pob_artifact b") (auto simp: bundle_rows_simps op_refs_def)
  have "packet_bound (bundle_rows b db) (run_row (pob_run b) (map_option ncp_id (pob_context_packet b)))"
    using facts(4)
    by (cases "pob_context_packet b") (auto simp: packet_bound_def run_row_def packet_row_def bundle_rows_simps Let_def)
  moreover have "commit_ok (bundle_rows b db) (nor_base_commit_id (pob_run b)) (nor_project_id (pob_run b))"
    using eff(2) by (simp add: commit_ok_def bundle_rows_simps)
  ultimately show ?thesis
    using facts(1,2,3) events(1) last arts own
    by (auto simp: run_ok_def run_row_def Let_def stored_states_def enumerate_eq_zip)
qed

lemma bundle_heads_ok:
  assumes ok: "op_ok db" and valid: "validate_bundle env b = Inr u"
    and rows: "persist_rows env b db = Inr db'" and h: "h \<in> set (review_head_t (bundle_rows b db))"
  shows "head_ok (bundle_rows b db) h"
proof -
  let ?k = "nor_id (pob_run b)"
  note eff = persist_rows_effect [OF rows] and facts = validate_bundle_facts [OF valid]
  have refs: "op_refs db" using ok by (auto simp: op_ok_def)
  have reviews: "reviews_of (bundle_rows b db) p = reviews_of db p" for p
    by (simp add: reviews_of_def bundle_rows_simps)
  show ?thesis
  proof (cases "h \<in> set (review_head_t db)")
    case True
    then have "head_ok db h" and "rh_run_id h \<in> ror_id ` set (run_t db)"
      using ok refs by (auto simp: op_ok_def op_refs_def)
    then show ?thesis
      using eff(3) by (auto simp: head_ok_def reviews bundle_rows_simps)
  next
    case False
    then have "h \<in> set (new_heads ?k (pob_artifact b))" using h by (simp add: bundle_rows_simps)
    from new_heads_keys [OF this] obtain a where a: "rh_run_id h = ?k" "rh_revision h = 0"
      "rh_status h = ''review''" "pob_artifact b = Some a" "rh_proposal_id h = nar_id a" by auto
    have "re_proposal_id ` set (review_event_t db) \<subseteq> ar_id ` set (artifact_t db)"
      using refs unfolding op_refs_def by (metis subset_trans)
    then have "nar_id a \<notin> re_proposal_id ` set (review_event_t db)"
      using eff(5) [of a] a(4) by auto
    then have "reviews_of db (nar_id a) = []"
      by (simp add: reviews_of_def filter_owner_Nil)
    moreover have "ror_state r = ''review''" if "r \<in> set (run_t (bundle_rows b db))" "ror_id r = ?k" for r
    proof -
      have "nor_state (pob_run b) = OperationState.Review" using facts(3) a(4) by auto
      moreover have "r \<notin> set (run_t db)" using that(2) eff(3) by (metis imageI)
      ultimately show ?thesis using that(1) by (auto simp: bundle_rows_simps run_row_def Let_def)
    qed
    ultimately show ?thesis
      using a by (auto simp: head_ok_def reviews status_run_state_def review_status_names_def)
  qed
qed

lemma bundle_artifacts_ok:
  assumes ok: "op_ok db" and rows: "persist_rows env b db = Inr db'"
    and a: "a \<in> set (artifact_t (bundle_rows b db))"
  shows "artifact_ok (bundle_rows b db) a"
proof -
  let ?k = "nor_id (pob_run b)"
  note eff = persist_rows_effect [OF rows]
  have refs: "op_refs db" using ok by (auto simp: op_ok_def)
  show ?thesis
  proof (cases "a \<in> set (artifact_t db)")
    case True
    have "ar_id a \<notin> rh_proposal_id ` set (new_heads ?k (pob_artifact b))"
    proof
      assume "ar_id a \<in> rh_proposal_id ` set (new_heads ?k (pob_artifact b))"
      then obtain f where "pob_artifact b = Some f" "ar_id a = nar_id f"
        using new_heads_keys by fastforce
      with eff(5) [of f] True show False by (metis imageI opt_list_simps(2) list.set_intros(1))
    qed
    with True ok show ?thesis
      by (auto simp: op_ok_def artifact_ok_def bundle_rows_simps image_Un)
  next
    case False
    then obtain f where f: "pob_artifact b = Some f" "a = artifact_row ?k f"
      using a by (cases "pob_artifact b") (auto simp: bundle_rows_simps)
    have "nar_id f \<notin> rh_proposal_id ` set (review_head_t db)"
      using eff(5) [of f] f(1) refs by (auto simp: op_refs_def)
    with f show ?thesis
      by (cases "nar_kind f")
        (auto simp: artifact_ok_def bundle_rows_simps artifact_row_def new_heads_def new_head_def image_Un)
  qed
qed

lemma persist_rows_op_ok:
  assumes ok: "op_ok db" and valid: "validate_bundle env b = Inr u"
    and rows: "persist_rows env b db = Inr db'"
  shows "op_ok db'"
proof -
  have "commit_ok (bundle_rows b db) (cp_base_commit_id p) (cp_project_id p)"
    if "p \<in> set (packet_t (bundle_rows b db))" for p
    using that ok persist_rows_effect(2) [OF rows] validate_bundle_facts(4) [OF valid]
    by (cases "pob_context_packet b")
      (auto simp: op_ok_def commit_ok_def bundle_rows_simps packet_row_def)
  then have "op_ok (bundle_rows b db)"
    using bundle_keys [OF ok rows] bundle_logs [OF ok valid rows] bundle_run_ok_old [OF ok rows]
      bundle_run_ok_new [OF ok valid rows] bundle_heads_ok [OF ok valid rows]
      bundle_artifacts_ok [OF ok rows]
    by (auto simp: op_ok_def bundle_rows_simps(2))
  with persist_rows_effect(1) [OF rows] show ?thesis by simp
qed

lemma persist_operation_bundle_cases:
  assumes "persist_operation_bundle env b db = (r, db')"
  shows "(db' = db \<and> (\<exists>e. r = Inl e))
    \<or> (validate_bundle env b = Inr () \<and> persist_rows env b db = Inr db'
        \<and> r = get_operation_run (nor_id (pob_run b)) db')"
  using assms
  by (cases "validate_bundle env b"; cases "persist_rows env b db")
    (auto simp: persist_operation_bundle_def run_transaction_def)

lemma persist_keeps_op_ok:
  "op_ok db \<Longrightarrow> persist_operation_bundle env b db = (r, db') \<Longrightarrow> op_ok db'"
  using persist_operation_bundle_cases persist_rows_op_ok by blast

end
