(* ===== verification/ReviewLog.thy ===== *)
theory ReviewLog
  imports OperationInvariants
begin

text \<open>
  What appending a review event does to a database that satisfies the invariant: exactly
  when it succeeds, the database it leaves, that no trigger of the schema ever rejects a
  transition the code accepts, and that the invariant is kept.
\<close>

section \<open>Statuses and states\<close>

lemma status_run_state_as_str:
  "status_run_state (review_session_status_as_str s) = operation_state_as_str (desired_operation_state s)"
  by (cases s) (simp_all add: status_run_state_def desired_operation_state_def)

lemma valid_event_transition:
  assumes "review_transition_valid c"
  defines "cur \<equiv> desired_operation_state (are_expected_status c)"
    and "nxt \<equiv> desired_operation_state (are_next_status c)"
  shows "cur = nxt \<or> (valid_operation_transition cur nxt
    \<and> ((cur = OperationState.Review
          \<and> nxt \<in> {OperationState.Accepted, OperationState.Rejected, OperationState.Conflicted})
       \<or> (cur = OperationState.Conflicted \<and> nxt \<in> {OperationState.Review, OperationState.Rejected})))"
  using assms
  by (cases "are_kind c"; cases "are_expected_status c"; cases "are_next_status c")
    (simp_all add: review_transition_valid_def desired_operation_state_def
      valid_operation_transition_def)

lemma valid_event_passes_head_guard:
  assumes "review_transition_valid c" and "rh_status h = review_session_status_as_str (are_expected_status c)"
    and "rh_proposal_id h' = rh_proposal_id h" and "rh_run_id h' = rh_run_id h"
    and "rh_revision h' = rh_revision h + 1"
    and "rh_status h' = review_session_status_as_str (are_next_status c)"
  shows "\<not> review_head_guard h h'"
  using assms
  by (cases "are_kind c"; cases "are_expected_status c"; cases "are_next_status c")
    (simp_all add: review_transition_valid_def review_head_guard_def)

section \<open>The database after an event\<close>

definition review_row :: "AppendReviewEvent \<Rightarrow> ReviewHeadRow \<Rightarrow> ReviewEventRow" where
  "review_row c h = review_event_row c (rh_revision h + 1) (rh_revision h) (are_expected_status c)"

definition next_head :: "AppendReviewEvent \<Rightarrow> ReviewHeadRow \<Rightarrow> ReviewHeadRow" where
  "next_head c h = h\<lparr>rh_revision := rh_revision h + 1,
     rh_status := review_session_status_as_str (are_next_status c),
     rh_updated_at := are_occurred_at c\<rparr>"

definition event_rows :: "AppendReviewEvent \<Rightarrow> ReviewHeadRow \<Rightarrow> Database \<Rightarrow> Database" where
  "event_rows c h db =
     db\<lparr>review_event_t := review_event_t db @ [review_row c h],
        review_head_t := update_where (\<lambda>x. rh_proposal_id x = rh_proposal_id h) (next_head c)
                           (review_head_t db)\<rparr>"

definition moved_run :: "AppendReviewEvent \<Rightarrow> RawOperationRun \<Rightarrow> RawOperationRun" where
  "moved_run c r = r\<lparr>ror_state := operation_state_as_str (desired_operation_state (are_next_status c)),
     ror_updated_at := are_occurred_at c\<rparr>"

definition move_event :: "AppendReviewEvent \<Rightarrow> string \<Rightarrow> Database \<Rightarrow> LifecycleRow" where
  "move_event c k db =
     \<lparr>lr_run_id = k, lr_sequence = next_seq lr_run_id lr_sequence k (lifecycle_t db),
      lr_from_state = operation_state_as_str (desired_operation_state (are_expected_status c)),
      lr_to_state = operation_state_as_str (desired_operation_state (are_next_status c)),
      lr_occurred_at = are_occurred_at c,
      lr_reason = Some (review_event_kind_as_str (are_kind c))\<rparr>"

definition run_rows :: "AppendReviewEvent \<Rightarrow> string \<Rightarrow> Database \<Rightarrow> Database" where
  "run_rows c k db =
     (if desired_operation_state (are_expected_status c) = desired_operation_state (are_next_status c)
      then db
      else db\<lparr>lifecycle_t := lifecycle_t db @ [move_event c k db],
              run_t := update_where (\<lambda>r. ror_id r = k) (moved_run c) (run_t db)\<rparr>)"

definition review_session :: "AppendReviewEvent \<Rightarrow> ReviewHeadRow \<Rightarrow> ReviewSessionRecord" where
  "review_session c h =
     \<lparr>rsr_proposal_id = are_proposal_id c, rsr_run_id = rh_run_id h, rsr_revision = rh_revision h + 1,
      rsr_status = are_next_status c, rsr_updated_at = are_occurred_at c\<rparr>"

text \<open>When an event is accepted: the precondition the caller can establish.\<close>

definition event_accepted :: "Env \<Rightarrow> AppendReviewEvent \<Rightarrow> ReviewHeadRow \<Rightarrow> Database \<Rightarrow> bool" where
  "event_accepted env c h db \<longleftrightarrow>
     validate_review_event env c = Inr ()
     \<and> find_by rh_proposal_id (are_proposal_id c) (review_head_t db) = Some h
     \<and> rh_revision h = are_expected_revision c
     \<and> rh_status h = review_session_status_as_str (are_expected_status c)
     \<and> review_transition_valid c
     \<and> are_id c \<notin> re_id ` set (review_event_t db)
     \<and> opt_all (json_valid env) (are_payload_json c)"

lemma reviews_numbered:
  assumes "op_ok db" and "h \<in> set (review_head_t db)"
  shows "next_seq re_proposal_id re_sequence (rh_proposal_id h) (review_event_t db) = rh_revision h + 1"
proof -
  have "gap_free re_proposal_id re_sequence (review_event_t db)" and "head_ok db h"
    using assms by (auto simp: op_ok_def op_logs_def)
  then show ?thesis by (simp add: gap_free_next_seq head_ok_def reviews_of_def)
qed

lemma next_revision_fresh:
  assumes "op_ok db" and "h \<in> set (review_head_t db)"
  shows "(rh_proposal_id h, rh_revision h + 1) \<notin> (\<lambda>x. (re_proposal_id x, re_sequence x)) ` set (review_event_t db)"
    and "(rh_proposal_id h, rh_revision h + 1) \<notin> (\<lambda>x. (re_proposal_id x, re_new_revision x)) ` set (review_event_t db)"
proof -
  have gf: "gap_free re_proposal_id re_sequence (review_event_t db)"
    and same: "\<forall>e \<in> set (review_event_t db). re_new_revision e = re_sequence e"
    using assms by (auto simp: op_ok_def op_logs_def)
  show one: "(rh_proposal_id h, rh_revision h + 1) \<notin> (\<lambda>x. (re_proposal_id x, re_sequence x)) ` set (review_event_t db)"
    using review_log.next_seq_fresh [OF gf, of "rh_proposal_id h"] reviews_numbered [OF assms] by simp
  have "(\<lambda>x. (re_proposal_id x, re_new_revision x)) ` set (review_event_t db)
      = (\<lambda>x. (re_proposal_id x, re_sequence x)) ` set (review_event_t db)"
    using same by (intro image_cong) auto
  with one show "(rh_proposal_id h, rh_revision h + 1) \<notin> (\<lambda>x. (re_proposal_id x, re_new_revision x)) ` set (review_event_t db)"
    by simp
qed

lemma insert_event_ok:
  assumes ok: "op_ok db" and acc: "event_accepted env c h db"
  shows "insert_review_event env (review_row c h) db
         = Inr (db\<lparr>review_event_t := review_event_t db @ [review_row c h]\<rparr>)"
proof -
  have h: "h \<in> set (review_head_t db)" "rh_proposal_id h = are_proposal_id c"
    using acc find_by_SomeD unfolding event_accepted_def by fast+
  have "0 \<le> rh_revision h" using ok h(1) by (auto simp: op_ok_def head_ok_def)
  moreover have "re_decision (review_row c h) = None \<or>
      (\<exists>d. re_decision (review_row c h) = Some (review_decision_as_str d))"
    by (auto simp: review_row_def review_event_row_def)
  then have "opt_all (\<lambda>d. d \<in> set [''accepted'', ''rejected'']) (re_decision (review_row c h))"
    by (auto simp del: review_decision_as_str.simps) (case_tac d; simp)
  moreover have "are_proposal_id c \<in> rh_proposal_id ` set (review_head_t db)"
    using h by force
  ultimately show ?thesis
    using acc next_revision_fresh [OF ok h(1)] h(2)
    by (simp add: insert_review_event_def constrain_Inr_iff review_row_def review_event_row_def
        event_accepted_def)
qed

lemma update_head_ok:
  assumes keys: "distinct (map rh_proposal_id (review_head_t db))"
    and acc: "find_by rh_proposal_id (are_proposal_id c) (review_head_t db) = Some h"
      "rh_status h = review_session_status_as_str (are_expected_status c)"
      "review_transition_valid c" "0 \<le> rh_revision h"
  shows "update_review_head (rh_revision h + 1) (review_session_status_as_str (are_next_status c))
           (are_occurred_at c) (are_proposal_id c) (rh_revision h)
           (review_session_status_as_str (are_expected_status c)) db
         = Inr (1, db\<lparr>review_head_t := update_where (\<lambda>x. rh_proposal_id x = rh_proposal_id h)
                                        (next_head c) (review_head_t db)\<rparr>)"
proof -
  have h: "h \<in> set (review_head_t db)" "rh_proposal_id h = are_proposal_id c"
    using acc(1) find_by_SomeD by fast+
  let ?P = "\<lambda>x. rh_revision x = rh_revision h \<and> rh_status x = review_session_status_as_str (are_expected_status c)"
  let ?upd = "\<lambda>x. x\<lparr>rh_revision := rh_revision h + 1,
      rh_status := review_session_status_as_str (are_next_status c), rh_updated_at := are_occurred_at c\<rparr>"
  have only: "x = h" if "x \<in> set (review_head_t db)" "rh_proposal_id x = rh_proposal_id h" for x
    using key_eqD [OF keys h(1)] that by blast
  have guard: "\<not> review_head_guard h (?upd h)"
    using acc by (intro valid_event_passes_head_guard) auto
  have rows: "rows_where (\<lambda>x. rh_proposal_id x = rh_proposal_id h \<and> ?P x) (review_head_t db) = 1"
    using acc by (intro rows_where_key [OF keys h(1)]) auto
  have upd: "update_where (\<lambda>x. rh_proposal_id x = rh_proposal_id h \<and> ?P x) ?upd (review_head_t db)
      = update_where (\<lambda>x. rh_proposal_id x = rh_proposal_id h) (next_head c) (review_head_t db)"
    using only acc unfolding update_where_def next_head_def by (intro map_cong) auto
  show ?thesis
    unfolding update_review_head_def Let_def constrain_Inr_iff h(2) [symmetric] rows upd
    using guard only acc(4) by auto
qed

text \<open>Moving the run: nothing to do, or the next life-cycle entry and the guarded update.\<close>

lemma move_run_ok:
  assumes keys: "distinct (map ror_id (run_t db))" and log: "gap_free lr_run_id lr_sequence (lifecycle_t db)"
    and r: "r \<in> set (run_t db)" "ror_id r = k"
    and st: "ror_state r = operation_state_as_str (desired_operation_state (are_expected_status c))"
    and valid: "review_transition_valid c"
  shows "update_operation_state_for_review k (are_next_status c) (are_occurred_at c)
           (review_event_kind_as_str (are_kind c)) db = Inr (run_rows c k db)"
proof -
  let ?cur = "desired_operation_state (are_expected_status c)"
    and ?nxt = "desired_operation_state (are_next_status c)"
  have found: "find_by ror_id k (run_t db) = Some r"
    using find_by_Some_iff [OF keys] r by blast
  have parsed: "parse_operation_state (ror_state r) = Inr ?cur"
    by (simp add: parse_operation_state_def st)
  show ?thesis
  proof (cases "?cur = ?nxt")
    case True
    then show ?thesis
      by (simp add: update_operation_state_for_review_def found parsed run_rows_def)
  next
    case False
    from valid_event_transition [OF valid] False
    have vt: "valid_operation_transition ?cur ?nxt"
      and tr: "(?cur = OperationState.Review
          \<and> ?nxt \<in> {OperationState.Accepted, OperationState.Rejected, OperationState.Conflicted})
       \<or> (?cur = OperationState.Conflicted \<and> ?nxt \<in> {OperationState.Review, OperationState.Rejected})"
      by auto
    let ?e = "move_event c k db"
    have ins: "insert_lifecycle ?e db = Inr (db\<lparr>lifecycle_t := lifecycle_t db @ [?e]\<rparr>)"
    proof -
      have "1 \<le> next_seq lr_run_id lr_sequence k (lifecycle_t db)"
        by (simp add: gap_free_next_seq [OF log])
      moreover have "k \<in> ror_id ` set (run_t db)" using r by (metis imageI)
      ultimately show ?thesis
        using lifecycle_log.next_seq_fresh [OF log, of k]
        by (simp add: insert_lifecycle_def constrain_Inr_iff move_event_def)
    qed
    have guard: "\<not> operation_run_guard r (moved_run c r)"
      using tr by (auto simp: operation_run_guard_def moved_run_def st)
    have rows: "rows_where (\<lambda>x. ror_id x = k \<and> ror_state x = operation_state_as_str ?cur) (run_t db) = 1"
      using rows_where_key [OF keys r(1), of "\<lambda>x. ror_state x = operation_state_as_str ?cur"] st r(2)
      by simp
    have upd: "update_where (\<lambda>x. ror_id x = k \<and> ror_state x = operation_state_as_str ?cur) (moved_run c) (run_t db)
        = update_where (\<lambda>x. ror_id x = k) (moved_run c) (run_t db)"
      using update_where_key [OF keys r(1), of "\<lambda>x. ror_state x = operation_state_as_str ?cur"] st r(2)
      by simp
    have only: "x = r" if "x \<in> set (run_t db)" "ror_id x = k" for x
      using key_eqD [OF keys r(1) that(1)] that(2) r(2) by simp
    have moved: "(\<lambda>x. x\<lparr>ror_state := operation_state_as_str ?nxt, ror_updated_at := are_occurred_at c\<rparr>)
        = moved_run c" by (simp add: moved_run_def fun_eq_iff)
    have update: "update_run_state (operation_state_as_str ?nxt) (are_occurred_at c) k
        (operation_state_as_str ?cur) (db\<lparr>lifecycle_t := lifecycle_t db @ [?e]\<rparr>)
        = Inr (1, run_rows c k db)"
      unfolding update_run_state_def Let_def constrain_Inr_iff moved
      using guard only False rows upd by (auto simp: run_rows_def)
    show ?thesis
      using ins update False vt
      by (simp add: update_operation_state_for_review_def found parsed Let_def move_event_def)
  qed
qed

lemma head_run:
  assumes "op_ok db" and "h \<in> set (review_head_t db)"
  obtains r where "r \<in> set (run_t db)" "ror_id r = rh_run_id h"
    "ror_state r = status_run_state (rh_status h)"
proof -
  have "rh_run_id h \<in> ror_id ` set (run_t db)" using assms by (auto simp: op_ok_def op_refs_def)
  then obtain r where "r \<in> set (run_t db)" "ror_id r = rh_run_id h" by (metis imageE)
  with assms that show ?thesis by (auto simp: op_ok_def head_ok_def)
qed

lemma append_succeeds:
  assumes ok: "op_ok db" and acc: "event_accepted env c h db"
  shows "append_review_event_in_transaction env c db
         = Inr (review_session c h, run_rows c (rh_run_id h) (event_rows c h db))"
proof -
  have h: "h \<in> set (review_head_t db)" "rh_proposal_id h = are_proposal_id c"
    using acc find_by_SomeD unfolding event_accepted_def by fast+
  have nonneg: "0 \<le> rh_revision h" using ok h(1) by (auto simp: op_ok_def head_ok_def)
  let ?db1 = "db\<lparr>review_event_t := review_event_t db @ [review_row c h]\<rparr>"
  have ins: "insert_review_event env (review_event_row c
      (next_seq re_proposal_id re_sequence (are_proposal_id c) (review_event_t db))
      (rh_revision h) (are_expected_status c)) db = Inr ?db1"
    using insert_event_ok [OF ok acc] reviews_numbered [OF ok h(1)] h(2) by (simp add: review_row_def)
  have "op_keys db" and "op_logs db" using ok by (auto simp: op_ok_def)
  then have keys: "distinct (map rh_proposal_id (review_head_t db))" "distinct (map ror_id (run_t db))"
    and log: "gap_free lr_run_id lr_sequence (lifecycle_t db)"
    by (auto simp: op_keys_def op_logs_def)
  have upd: "update_review_head (rh_revision h + 1) (review_session_status_as_str (are_next_status c))
           (are_occurred_at c) (are_proposal_id c) (rh_revision h)
           (review_session_status_as_str (are_expected_status c)) ?db1 = Inr (1, event_rows c h db)"
    using update_head_ok [of ?db1 c h] keys acc nonneg by (simp add: event_accepted_def event_rows_def)
  obtain r where "r \<in> set (run_t db)" "ror_id r = rh_run_id h"
    "ror_state r = status_run_state (rh_status h)" using head_run [OF ok h(1)] .
  then have move: "update_operation_state_for_review (rh_run_id h) (are_next_status c) (are_occurred_at c)
           (review_event_kind_as_str (are_kind c)) (event_rows c h db)
         = Inr (run_rows c (rh_run_id h) (event_rows c h db))"
    using acc keys log
    by (intro move_run_ok [of _ r]) (auto simp: event_rows_def event_accepted_def status_run_state_as_str)
  have "rh_status h = review_session_status_as_str (are_expected_status c)"
    and rest: "validate_review_event env c = Inr ()" "assert_review_transition c = Inr ()"
      "find_by rh_proposal_id (are_proposal_id c) (review_head_t db) = Some h"
      "are_expected_revision c = rh_revision h"
    using acc by (auto simp: event_accepted_def assert_review_transition_def)
  then have "parse_review_status (rh_status h) = Inr (are_expected_status c)"
    by (simp add: parse_review_status_def)
  with rest show ?thesis
    by (simp add: append_review_event_in_transaction_def Let_def ins upd move review_session_def)
qed

text \<open>Conversely, a success means the event was accepted.\<close>

lemma append_accepted:
  assumes "append_review_event_in_transaction env c db = Inr (s, db')"
  shows "\<exists>h. event_accepted env c h db"
proof -
  from assms obtain h st where
    "validate_review_event env c = Inr ()"
    "find_by rh_proposal_id (are_proposal_id c) (review_head_t db) = Some h"
    and st: "parse_review_status (rh_status h) = Inr st"
    "rh_revision h = are_expected_revision c" "st = are_expected_status c"
    "assert_review_transition c = Inr ()"
    and "\<exists>d. insert_review_event env (review_event_row c
      (next_seq re_proposal_id re_sequence (are_proposal_id c) (review_event_t db))
      (rh_revision h) st) db = Inr d"
    by (auto simp: append_review_event_in_transaction_def rbind_Inr_iff ok_or_Inr_iff Let_def
        split: if_splits)
  moreover from st have "rh_status h = review_session_status_as_str (are_expected_status c)"
    by (simp add: parse_review_status_def ok_or_Inr_iff parse_eq_Some_iff)
  ultimately show ?thesis
    by (auto simp: event_accepted_def assert_review_transition_def require_Inr_iff
        insert_review_event_def constrain_Inr_iff review_event_row_def)
qed

section \<open>The invariant is kept\<close>

definition after_event :: "AppendReviewEvent \<Rightarrow> ReviewHeadRow \<Rightarrow> Database \<Rightarrow> Database" where
  "after_event c h db = run_rows c (rh_run_id h) (event_rows c h db)"

lemma after_event_simps [simp]:
  "review_event_t (after_event c h db) = review_event_t db @ [review_row c h]"
  "review_head_t (after_event c h db)
     = update_where (\<lambda>x. rh_proposal_id x = rh_proposal_id h) (next_head c) (review_head_t db)"
  "packet_t (after_event c h db) = packet_t db"
  "artifact_t (after_event c h db) = artifact_t db"
  "attempt_t (after_event c h db) = attempt_t db"
  "commit_node_t (after_event c h db) = commit_node_t db"
  by (simp_all add: after_event_def run_rows_def event_rows_def)

definition state_moves :: "AppendReviewEvent \<Rightarrow> bool" where
  "state_moves c \<longleftrightarrow>
     desired_operation_state (are_expected_status c) \<noteq> desired_operation_state (are_next_status c)"

lemma after_event_runs:
  "lifecycle_t (after_event c h db) =
     (if state_moves c then lifecycle_t db @ [move_event c (rh_run_id h) db] else lifecycle_t db)"
  "run_t (after_event c h db) =
     (if state_moves c then update_where (\<lambda>r. ror_id r = rh_run_id h) (moved_run c) (run_t db)
      else run_t db)"
  by (simp_all add: after_event_def run_rows_def event_rows_def state_moves_def move_event_def)

lemma moved_keys [simp]:
  "ror_id (moved_run c r) = ror_id r"
  "rh_proposal_id (next_head c h) = rh_proposal_id h"
  "rh_run_id (next_head c h) = rh_run_id h"
  "lr_run_id (move_event c k db) = k"
  "lr_sequence (move_event c k db) = next_seq lr_run_id lr_sequence k (lifecycle_t db)"
  "re_sequence (review_row c h) = rh_revision h + 1"
  "re_new_revision (review_row c h) = rh_revision h + 1"
  "re_id (review_row c h) = are_id c"
  "re_proposal_id (review_row c h) = are_proposal_id c"
  by (simp_all add: moved_run_def next_head_def move_event_def review_row_def review_event_row_def)

lemma after_event_run_ids: "map ror_id (run_t (after_event c h db)) = map ror_id (run_t db)"
  by (simp add: after_event_runs)

lemma update_where_image_key:
  "(\<And>r. p r \<Longrightarrow> key (f r) = key r) \<Longrightarrow> key ` set (update_where p f rows) = key ` set rows"
  by (metis list.set_map map_update_where)

lemma acceptedD:
  assumes "event_accepted env c h db"
  shows "h \<in> set (review_head_t db)" "rh_proposal_id h = are_proposal_id c"
    "rh_status h = review_session_status_as_str (are_expected_status c)"
    "review_transition_valid c" "are_id c \<notin> re_id ` set (review_event_t db)"
  using assms find_by_SomeD unfolding event_accepted_def by fast+

lemma after_event_keys:
  assumes ok: "op_ok db" and acc: "event_accepted env c h db"
  shows "op_keys (after_event c h db)" and "op_refs (after_event c h db)"
proof -
  note accD = acceptedD [OF acc]
  have keys: "op_keys db" and refs: "op_refs db" using ok by (auto simp: op_ok_def)
  show "op_keys (after_event c h db)"
    using keys accD(5) by (simp add: op_keys_def after_event_run_ids)
  have runs: "ror_id ` set (run_t (after_event c h db)) = ror_id ` set (run_t db)"
    by (metis after_event_run_ids list.set_map)
  have heads: "rh_run_id ` set (review_head_t (after_event c h db)) = rh_run_id ` set (review_head_t db)"
    "rh_proposal_id ` set (review_head_t (after_event c h db)) = rh_proposal_id ` set (review_head_t db)"
    by (simp_all add: update_where_image_key)
  have "rh_run_id h \<in> rh_run_id ` set (review_head_t db)" using accD(1) by (rule imageI)
  then have run: "rh_run_id h \<in> ror_id ` set (run_t db)" using refs by (auto simp: op_refs_def)
  have pid: "are_proposal_id c \<in> rh_proposal_id ` set (review_head_t db)"
    using accD(1,2) by (metis imageI)
  show "op_refs (after_event c h db)"
    using refs run pid unfolding op_refs_def runs heads by (simp add: after_event_runs)
qed

lemma after_event_logs:
  assumes ok: "op_ok db" and acc: "event_accepted env c h db"
  shows "op_logs (after_event c h db)"
proof -
  note accD = acceptedD [OF acc]
  have logs: "op_logs db" using ok by (auto simp: op_ok_def)
  have "gap_free re_proposal_id re_sequence (review_event_t db @ [review_row c h])"
    using logs reviews_numbered [OF ok accD(1)] accD(2)
    by (intro gap_free_snoc) (auto simp: op_logs_def)
  moreover have "gap_free lr_run_id lr_sequence (lifecycle_t (after_event c h db))"
    using logs by (auto simp: op_logs_def after_event_runs intro!: gap_free_snoc)
  ultimately show ?thesis using logs by (simp add: op_logs_def)
qed

lemma after_event_heads:
  assumes ok: "op_ok db" and acc: "event_accepted env c h db"
    and x: "x \<in> set (review_head_t (after_event c h db))"
  shows "head_ok (after_event c h db) x"
proof -
  note accD = acceptedD [OF acc]
  have keys: "op_keys db" using ok by (auto simp: op_ok_def)
  have reviews: "reviews_of (after_event c h db) p
      = reviews_of db p @ (if p = rh_proposal_id h then [review_row c h] else [])" for p
    using accD(2) by (auto simp: reviews_of_def)
  from x obtain y where y: "y \<in> set (review_head_t db)"
    "x = (if rh_proposal_id y = rh_proposal_id h then next_head c y else y)"
    by (auto simp: set_update_where)
  have old: "head_ok db y" using ok y(1) by (auto simp: op_ok_def)
  show ?thesis
  proof (cases "rh_proposal_id y = rh_proposal_id h")
    case True
    then have [simp]: "y = h" using keys y(1) accD(1) key_eqD by (metis op_keys_def)
    have "ror_state r = status_run_state (review_session_status_as_str (are_next_status c))"
      if r: "r \<in> set (run_t (after_event c h db))" "ror_id r = rh_run_id h" for r
    proof (cases "state_moves c")
      case True
      with r show ?thesis
        by (auto simp: after_event_runs set_update_where moved_run_def status_run_state_as_str
            split: if_splits)
    next
      case False
      with r old accD(3) show ?thesis
        by (auto simp: after_event_runs head_ok_def status_run_state_as_str state_moves_def)
    qed
    with y(2) old show ?thesis
      by (auto simp: head_ok_def reviews next_head_def review_row_def review_event_row_def)
  next
    case False
    then have xy: "x = y" using y(2) by simp
    have "rh_run_id y \<noteq> rh_run_id h"
      using False keys y(1) accD(1) key_eqD by (metis op_keys_def)
    then have "ror_state r = status_run_state (rh_status y)"
      if "r \<in> set (run_t (after_event c h db))" "ror_id r = rh_run_id y" for r
      using that old by (auto simp: after_event_runs set_update_where head_ok_def split: if_splits)
    moreover have rv: "reviews_of (after_event c h db) (rh_proposal_id y) = reviews_of db (rh_proposal_id y)"
      using False by (simp add: reviews)
    ultimately show ?thesis using old unfolding head_ok_def xy rv by blast
  qed
qed

lemma after_event_runs_ok:
  assumes ok: "op_ok db" and acc: "event_accepted env c h db"
    and x: "x \<in> set (run_t (after_event c h db))"
  shows "run_ok (after_event c h db) x"
proof -
  note accD = acceptedD [OF acc]
  let ?k = "rh_run_id h" and ?nxt = "desired_operation_state (are_next_status c)"
  have same: "packet_bound (after_event c h db) r = packet_bound db r"
    "commit_ok (after_event c h db) = commit_ok db" for r
    unfolding packet_bound_def commit_ok_def after_event_simps by (rule refl)+
  have events: "events_of (after_event c h db) p
      = events_of db p @ (if state_moves c \<and> p = ?k then [move_event c ?k db] else [])" for p
    by (auto simp: events_of_def after_event_runs)
  from x obtain r where r: "r \<in> set (run_t db)"
    "x = (if state_moves c \<and> ror_id r = ?k then moved_run c r else r)"
    by (auto simp: after_event_runs set_update_where split: if_splits)
  have old: "run_ok db r" using ok r(1) by (auto simp: op_ok_def)
  show ?thesis
  proof (cases "state_moves c \<and> ror_id r = ?k")
    case False
    then have xr: "x = r" and ev: "events_of (after_event c h db) (ror_id r) = events_of db (ror_id r)"
      using r(2) by (auto simp: events)
    show ?thesis using old unfolding run_ok_def same after_event_simps xr ev by blast
  next
    case True
    then have x: "x = moved_run c r" using r(2) by simp
    have "head_ok db h" using ok accD(1) by (auto simp: op_ok_def)
    then have "ror_state r = operation_state_as_str (desired_operation_state (are_expected_status c))"
      using r(1) True accD(3) by (simp add: head_ok_def status_run_state_as_str)
    then have "ror_state r \<notin> set [''failed'', ''cancelled'']"
      by (cases "are_expected_status c") (simp_all add: desired_operation_state_def)
    moreover have "operation_state_as_str ?nxt \<in> set stored_states
        \<and> operation_state_as_str ?nxt \<notin> set [''failed'', ''cancelled'']"
      by (cases "are_next_status c") (simp_all add: desired_operation_state_def stored_states_def)
    moreover have "packet_bound db (moved_run c r) = packet_bound db r"
      by (cases "ror_context_packet_id r") (simp_all add: packet_bound_def moved_run_def)
    ultimately show ?thesis
      using old True unfolding run_ok_def same after_event_simps x events
      by (simp add: moved_run_def) (simp add: move_event_def)
  qed
qed

lemma after_event_ok:
  assumes ok: "op_ok db" and acc: "event_accepted env c h db"
  shows "op_ok (after_event c h db)"
proof -
  have "artifact_ok (after_event c h db) a" if "artifact_ok db a" for a
  proof -
    have "rh_proposal_id ` set (review_head_t (after_event c h db)) = rh_proposal_id ` set (review_head_t db)"
      by (simp add: update_where_image_key)
    with that show ?thesis unfolding artifact_ok_def by blast
  qed
  moreover have "commit_ok (after_event c h db) = commit_ok db"
    by (simp add: commit_ok_def fun_eq_iff)
  ultimately show ?thesis
    using ok after_event_keys [OF ok acc] after_event_logs [OF ok acc]
      after_event_heads [OF ok acc] after_event_runs_ok [OF ok acc]
    by (simp add: op_ok_def)
qed

lemma append_iff:
  assumes "op_ok db"
  shows "append_review_event_in_transaction env c db = Inr (s, db') \<longleftrightarrow>
    (\<exists>h. event_accepted env c h db \<and> s = review_session c h \<and> db' = after_event c h db)"
  using append_succeeds [OF assms] append_accepted by (fastforce simp: after_event_def)

lemma append_keeps_op_ok:
  "op_ok db \<Longrightarrow> append_review_event env c db = (r, db') \<Longrightarrow> op_ok db'"
  by (auto simp: append_review_event_def run_transaction_def append_iff after_event_ok split: sum.splits)

end
