(* ===== verification/OperationProperties.thy ===== *)
theory OperationProperties
  imports ReviewLog
begin

text \<open>
  The properties of the operation and review component, over the invariant of
  \<open>OperationInvariants\<close> and the characterisation of \<open>ReviewLog\<close>, and the concrete
  database their witnesses run on.
\<close>

section \<open>A concrete database\<close>

definition sample_env :: Env where
  "sample_env = \<lparr>serde_from_str = (\<lambda>_. Inr (JObject [])), sqlite_json = (\<lambda>_. Some (JObject [])), sqlite_json_extract = (\<lambda>_ _. SqlNull),
     sqlite_json_array_length = (\<lambda>_. Inr SqlNull)\<rparr>"

definition sample_seeded :: Database where
  "sample_seeded = empty_database
     \<lparr>project_t := [\<lparr>pr_id = ''p'', pr_title = ''t'', pr_language = ''en'', pr_schema_version = 11,
        pr_head_commit_id = Some ''c0'', pr_revision = 0, pr_created_at = ''d'', pr_updated_at = ''d''\<rparr>],
      commit_node_t := [\<lparr>cn_id = ''c0'', cn_project_id = ''p'', cn_root_hash = ''h'',
        cn_reason = ''initial'', cn_actor_type = ''system'', cn_actor_id = None, cn_created_at = ''d''\<rparr>]\<rparr>"

definition sample_event :: "OperationState \<Rightarrow> OperationState \<Rightarrow> NewOperationLifecycleEvent" where
  "sample_event a b = \<lparr>nle_from_state = a, nle_to_state = b, nle_occurred_at = ''d'', nle_reason = None\<rparr>"

definition sample_lifecycle :: "NewOperationLifecycleEvent list" where
  "sample_lifecycle =
     [sample_event OperationState.Draft OperationState.Compiling,
      sample_event OperationState.Compiling OperationState.Preflight,
      sample_event OperationState.Preflight OperationState.Queued,
      sample_event OperationState.Queued OperationState.Streaming,
      sample_event OperationState.Streaming OperationState.Validating,
      sample_event OperationState.Validating OperationState.Review]"

definition sample_attempt :: NewOperationAttempt where
  "sample_attempt =
     \<lparr>noa_sequence = 1, noa_started_at = ''d'', noa_finished_at = ''d'', noa_outcome = ''succeeded'',
      noa_response_started = True, noa_response_id = Some ''r'', noa_failure_code = None,
      noa_failure_kind = None, noa_http_status = None, noa_remote_request_id = None,
      noa_retry_after_ms = None, noa_retriable = None, noa_retry_delay_ms = None\<rparr>"

definition sample_bundle :: PersistOperationBundle where
  "sample_bundle =
     \<lparr>pob_run =
        \<lparr>nor_id = ''run'', nor_operation_intent_id = ''i'', nor_project_id = ''p'',
         nor_base_commit_id = ''c0'', nor_provider_id = ''qwen'', nor_provider_configuration_id = None,
         nor_provider_endpoint_id = None, nor_model = ''m'', nor_state = OperationState.Review,
         nor_response_id = Some ''r'', nor_finish_reason = Some ''stop'',
         nor_usage = Some \<lparr>mu_input_tokens = 2, mu_output_tokens = 3, mu_total_tokens = 5,
                           mu_cached_input_tokens = None, mu_reasoning_tokens = Some 1\<rparr>,
         nor_failure = None, nor_started_at = ''d'', nor_updated_at = ''d''\<rparr>,
      pob_context_packet = Some
        \<lparr>ncp_id = ''k'', ncp_operation_intent_id = ''i'', ncp_project_id = ''p'',
         ncp_base_commit_id = ''c0'', ncp_packet_hash = ''h'', ncp_payload_json = [], ncp_created_at = ''d''\<rparr>,
      pob_lifecycle_events = sample_lifecycle,
      pob_attempts = [sample_attempt],
      pob_artifact = Some
        \<lparr>nar_id = ''a'', nar_kind = OperationArtifactKind.PatchProposal, nar_binding_hash = ''h'',
         nar_payload_json = [], nar_created_at = ''d''\<rparr>\<rparr>"

definition sample_db :: Database where
  "sample_db = bundle_rows sample_bundle sample_seeded"

definition sample_reject :: AppendReviewEvent where
  "sample_reject =
     \<lparr>are_id = ''e1'', are_proposal_id = ''a'', are_expected_revision = 0,
      are_expected_status = ReviewSessionStatus.Review, are_kind = ReviewEventKind.Reject,
      are_next_status = ReviewSessionStatus.Rejected, are_hunk_id = None, are_decision = None,
      are_payload_json = None, are_occurred_at = ''d''\<rparr>"

definition sample_head :: ReviewHeadRow where
  "sample_head = \<lparr>rh_proposal_id = ''a'', rh_run_id = ''run'', rh_revision = 0,
     rh_status = ''review'', rh_updated_at = ''d''\<rparr>"

lemmas sample_defs = sample_seeded_def sample_env_def sample_bundle_def empty_database_def

lemma sample_names [simp]:
  "non_empty f ''d'' = Inr ()" "non_empty f ''h'' = Inr ()" "non_empty f ''i'' = Inr ()"
  "non_empty f ''p'' = Inr ()" "non_empty f ''c0'' = Inr ()" "non_empty f ''k'' = Inr ()"
  "non_empty f ''a'' = Inr ()" "non_empty f ''run'' = Inr ()" "non_empty f ''qwen'' = Inr ()"
  "non_empty f ''m'' = Inr ()" "non_empty f ''e1'' = Inr ()"
  by (simp_all add: non_empty_def blank_iff white_space_def cont_byte_def)

lemma sample_checked:
  "validate_lifecycle sample_lifecycle OperationState.Review = Inr ()"
  "validate_attempts [sample_attempt] = Inr ()"
  "run_checks (run_row (pob_run sample_bundle) (Some ''k''))"
  "attempt_checks (attempt_row ''run'' sample_attempt)"
  by code_simp+

lemma sample_valid: "validate_bundle sample_env sample_bundle = Inr ()"
  using sample_checked(1,2)
  by (simp add: validate_bundle_def sample_bundle_def check_endpoint_def validate_usage_def
      nonneg_def i64_wrap_def check_outcome_def is_none_or_empty_def check_failure_def
      check_packet_def check_artifact_def validate_json_object_def validate_json_def
      sample_env_def provider_ids_def)

lemma sample_rows: "persist_rows sample_env sample_bundle sample_seeded = Inr sample_db"
  using sample_checked(3,4)
  by (simp add: persist_rows_def rbind_Inr_iff assert_commit_belongs_to_project_def require_Inr_iff
      insert_packet_def insert_run_def insert_lifecycle_def insert_attempt_def persist_artifact_def
      insert_artifact_def insert_review_head_def constrain_Inr_iff sample_defs json_is_object_def
      sample_lifecycle_def sample_event_def packet_row_def run_row_def lifecycle_row_def
      attempt_row_def artifact_row_def bundle_rows_def new_heads_def new_head_def sample_db_def
      operation_state_names_def review_status_names_def)

lemma sample_seeded_ok: "op_ok sample_seeded"
  by (simp add: op_ok_def op_keys_def op_refs_def op_logs_def attempts_final_def
      sample_seeded_def empty_database_def)

lemma sample_db_ok: "op_ok sample_db"
  by (rule persist_rows_op_ok [OF sample_seeded_ok sample_valid sample_rows])

lemma sample_heads: "review_head_t sample_db = [sample_head]" "review_event_t sample_db = []"
  by (simp_all add: sample_db_def bundle_rows_def sample_defs new_heads_def new_head_def sample_head_def)

lemma sample_accepted: "event_accepted sample_env sample_reject sample_head sample_db"
  by (simp add: event_accepted_def validate_review_event_def sample_reject_def sample_heads
      sample_head_def find_by_def review_transition_valid_def)

section \<open>The walk of a run through its states\<close>

text \<open>
  The specification of a persisted life cycle: a walk in the transition relation, each step
  starting where the previous one ended.
\<close>

fun lifecycle_walk ::
  "OperationState \<Rightarrow> NewOperationLifecycleEvent list \<Rightarrow> OperationState \<Rightarrow> bool" where
  "lifecycle_walk from [] to \<longleftrightarrow> from = to"
| "lifecycle_walk from (e # es) to \<longleftrightarrow>
     nle_from_state e = from \<and> valid_operation_transition from (nle_to_state e)
     \<and> lifecycle_walk (nle_to_state e) es to"

definition event_texts_ok :: "NewOperationLifecycleEvent \<Rightarrow> bool" where
  "event_texts_ok e \<longleftrightarrow>
     non_empty ''lifecycle.occurred_at'' (nle_occurred_at e) = Inr ()
     \<and> (case nle_reason e of Some r \<Rightarrow> non_empty ''lifecycle.reason'' r = Inr () | None \<Rightarrow> True)"

lemma lifecycle_walk_iff:
  "es \<noteq> [] \<Longrightarrow> lifecycle_walk start es final \<longleftrightarrow>
     nle_from_state (es ! 0) = start \<and> nle_to_state (last es) = final
     \<and> (\<forall>i < length es. valid_operation_transition (nle_from_state (es ! i)) (nle_to_state (es ! i))
          \<and> (0 < i \<longrightarrow> nle_to_state (es ! (i - 1)) = nle_from_state (es ! i)))"
proof (induction es arbitrary: start)
  case (Cons e es)
  show ?case
  proof (cases "es = []")
    case False
    have link: "(\<forall>i < length es. nle_to_state ((e # es) ! i) = nle_from_state (es ! i)) \<longleftrightarrow>
      nle_to_state e = nle_from_state (es ! 0)
      \<and> (\<forall>i < length es. 0 < i \<longrightarrow> nle_to_state (es ! (i - 1)) = nle_from_state (es ! i))"
      using False by (auto simp: nth_Cons')
    have "lifecycle_walk start (e # es) final \<longleftrightarrow>
        nle_from_state e = start \<and> valid_operation_transition start (nle_to_state e)
        \<and> nle_from_state (es ! 0) = nle_to_state e \<and> nle_to_state (last es) = final
        \<and> (\<forall>i < length es. valid_operation_transition (nle_from_state (es ! i)) (nle_to_state (es ! i)))
        \<and> (\<forall>i < length es. 0 < i \<longrightarrow> nle_to_state (es ! (i - 1)) = nle_from_state (es ! i))"
      using Cons.IH [OF False, of "nle_to_state e"] by auto
    also have "\<dots> \<longleftrightarrow>
        nle_from_state e = start \<and> valid_operation_transition start (nle_to_state e)
        \<and> nle_to_state (last es) = final
        \<and> (\<forall>i < length es. valid_operation_transition (nle_from_state (es ! i)) (nle_to_state (es ! i)))
        \<and> (\<forall>i < length es. nle_to_state ((e # es) ! i) = nle_from_state (es ! i))"
      unfolding link by auto
    also have "\<dots> \<longleftrightarrow> nle_from_state ((e # es) ! 0) = start \<and> nle_to_state (last (e # es)) = final
     \<and> (\<forall>i < length (e # es). valid_operation_transition (nle_from_state ((e # es) ! i)) (nle_to_state ((e # es) ! i))
          \<and> (0 < i \<longrightarrow> nle_to_state ((e # es) ! (i - 1)) = nle_from_state ((e # es) ! i)))"
      using False by (auto simp: All_less_Suc2)
    finally show ?thesis .
  qed auto
qed simp

lemma validate_lifecycle_walk:
  "validate_lifecycle es final = Inr () \<longleftrightarrow>
     es \<noteq> [] \<and> length es \<le> 64 \<and> lifecycle_walk OperationState.Draft es final
     \<and> (\<forall>e \<in> set es. event_texts_ok e)"
proof -
  have "(\<forall>i < length es. lifecycle_step es (i, es ! i) = Inr ()) \<longleftrightarrow>
     (\<forall>i < length es. valid_operation_transition (nle_from_state (es ! i)) (nle_to_state (es ! i))
          \<and> (0 < i \<longrightarrow> nle_to_state (es ! (i - 1)) = nle_from_state (es ! i)))
     \<and> (\<forall>e \<in> set es. event_texts_ok e)"
    unfolding lifecycle_step_Inr_iff event_texts_ok_def all_set_conv_all_nth
    by (auto split: option.splits)
  then show ?thesis
    by (cases "es = []") (auto simp: validate_lifecycle_Inr_iff lifecycle_walk_iff)
qed

text \<open>The states a run passes before it can be reviewed.\<close>

definition pipeline :: "OperationState list" where
  "pipeline = [OperationState.Compiling, OperationState.Preflight, OperationState.Queued,
     OperationState.Streaming, OperationState.Validating, OperationState.Review]"

lemma walk_stuck:
  "lifecycle_walk OperationState.Cancelled es final \<longleftrightarrow> es = [] \<and> final = OperationState.Cancelled"
  "lifecycle_walk OperationState.Failed es final \<longleftrightarrow> es = [] \<and> final = OperationState.Failed"
  by (cases es; auto simp: valid_operation_transition_def)+

lemma walk_step:
  "s \<noteq> OperationState.Review \<Longrightarrow> lifecycle_walk s es OperationState.Review \<Longrightarrow>
   \<exists>e es'. es = e # es' \<and> valid_operation_transition s (nle_to_state e)
     \<and> lifecycle_walk (nle_to_state e) es' OperationState.Review"
  by (cases es) auto

lemma pipeline_walk:
  assumes "lifecycle_walk OperationState.Draft es OperationState.Review"
  shows "take 6 (map nle_to_state es) = pipeline"
proof -
  from walk_step [OF _ assms] obtain e1 es1 where 1: "es = e1 # es1" "nle_to_state e1 = OperationState.Compiling"
    "lifecycle_walk OperationState.Compiling es1 OperationState.Review"
    by (auto simp: valid_operation_transition_def walk_stuck)
  from walk_step [OF _ 1(3)] obtain e2 es2 where 2: "es1 = e2 # es2" "nle_to_state e2 = OperationState.Preflight"
    "lifecycle_walk OperationState.Preflight es2 OperationState.Review"
    by (auto simp: valid_operation_transition_def walk_stuck)
  from walk_step [OF _ 2(3)] obtain e3 es3 where 3: "es2 = e3 # es3" "nle_to_state e3 = OperationState.Queued"
    "lifecycle_walk OperationState.Queued es3 OperationState.Review"
    by (auto simp: valid_operation_transition_def walk_stuck)
  from walk_step [OF _ 3(3)] obtain e4 es4 where 4: "es3 = e4 # es4" "nle_to_state e4 = OperationState.Streaming"
    "lifecycle_walk OperationState.Streaming es4 OperationState.Review"
    by (auto simp: valid_operation_transition_def walk_stuck)
  from walk_step [OF _ 4(3)] obtain e5 es5 where 5: "es4 = e5 # es5" "nle_to_state e5 = OperationState.Validating"
    "lifecycle_walk OperationState.Validating es5 OperationState.Review"
    by (auto simp: valid_operation_transition_def walk_stuck)
  from walk_step [OF _ 5(3)] obtain e6 es6 where 6: "es5 = e6 # es6" "nle_to_state e6 = OperationState.Review"
    by (auto simp: valid_operation_transition_def walk_stuck)
  show ?thesis by (simp add: pipeline_def 1(1,2) 2(1,2) 3(1,2) 4(1,2) 5(1,2) 6)
qed

text \<open>
  C23. A life cycle is accepted exactly when it is a non-empty walk of at most 64 steps from
  draft to the run's state whose entries carry a time and no empty reason.
\<close>

theorem validate_lifecycle_iff:
  "validate_lifecycle es final = Inr () \<longleftrightarrow>
     es \<noteq> [] \<and> length es \<le> 64 \<and> lifecycle_walk OperationState.Draft es final
     \<and> list_all event_texts_ok es"
  using validate_lifecycle_walk by (simp add: list_all_iff)

text \<open>
  C24. A run that is persisted for review has gone through the whole pipeline: the first six
  states its accepted life cycle enters are compiling, preflight, queued, streaming,
  validating and review, in this order.
\<close>

theorem reviewed_run_passed_pipeline:
  assumes "validate_lifecycle es OperationState.Review = Inr ()"
  shows "take 6 (map nle_to_state es) = pipeline"
  using assms pipeline_walk validate_lifecycle_walk by blast

theorem reviewed_run_passed_pipeline_witness:
  "take 6 (map nle_to_state sample_lifecycle) = pipeline"
  by (rule reviewed_run_passed_pipeline [OF sample_checked(1)])

section \<open>Persisting\<close>

text \<open>The record that reading a persisted bundle must give.\<close>

definition bundle_record :: "PersistOperationBundle \<Rightarrow> OperationRunRecord" where
  "bundle_record b =
     (let run = pob_run b in
      \<lparr>orr_id = nor_id run, orr_operation_intent_id = nor_operation_intent_id run,
       orr_project_id = nor_project_id run, orr_base_commit_id = nor_base_commit_id run,
       orr_provider_id = nor_provider_id run,
       orr_provider_configuration_id = nor_provider_configuration_id run,
       orr_provider_endpoint_id = nor_provider_endpoint_id run, orr_model = nor_model run,
       orr_state = nor_state run, orr_context_packet_id = map_option ncp_id (pob_context_packet b),
       orr_response_id = nor_response_id run, orr_finish_reason = nor_finish_reason run,
       orr_usage = nor_usage run, orr_failure = nor_failure run,
       orr_started_at = nor_started_at run, orr_updated_at = nor_updated_at run\<rparr>)"

lemma read_usage_row: "read_usage (run_row run x) = Inr (nor_usage run)"
  by (cases "nor_usage run") (simp_all add: read_usage_def run_row_def Let_def)

lemma read_failure_row: "read_failure (run_row run x) = Inr (nor_failure run)"
  by (cases "nor_failure run") (simp_all add: read_failure_def run_row_def Let_def)

lemma read_row:
  "try_into_record (run_row (pob_run b) (map_option ncp_id (pob_context_packet b))) = Inr (bundle_record b)"
  unfolding try_into_record_def read_usage_row read_failure_row
  by (simp add: run_row_def Let_def parse_operation_state_def bundle_record_def)

lemma persist_reads_record:
  assumes "persist_rows env b db = Inr db'"
  shows "get_operation_run (nor_id (pob_run b)) db' = Inr (bundle_record b)"
proof -
  have "find_by ror_id (nor_id (pob_run b)) (run_t db) = None"
    using persist_rows_effect(3) [OF assms] by (simp add: find_by_None_iff)
  then have "find_by ror_id (nor_id (pob_run b)) (run_t db')
      = Some (run_row (pob_run b) (map_option ncp_id (pob_context_packet b)))"
    unfolding persist_rows_effect(1) [OF assms] bundle_rows_simps by simp
  then show ?thesis by (simp add: get_operation_run_def read_row)
qed

text \<open>
  C8. Persisting a bundle is atomic and faithful: either it fails and the database is
  unchanged, or the record read back is the one handed in (state, usage, failure and packet
  included), and the database holds exactly the bundle's rows on top of what it held.
\<close>

theorem persist_operation_bundle_outcome:
  "case persist_operation_bundle env b db of
     (Inl e, db') \<Rightarrow> db' = db
   | (Inr rec, db') \<Rightarrow> rec = bundle_record b \<and> db' = bundle_rows b db"
proof (cases "persist_operation_bundle env b db")
  case (Pair r db')
  from persist_operation_bundle_cases [OF this] show ?thesis
    by (elim disjE) (auto simp: Pair persist_reads_record persist_rows_effect(1) split: sum.splits)
qed

section \<open>Reachable databases pass the audit\<close>

text \<open>
  The steps of the store, seen from the operation tables: persisting, reviewing, and any
  operation that leaves these tables alone and only adds commits with new identifiers.
\<close>

inductive op_step :: "Env \<Rightarrow> Database \<Rightarrow> Database \<Rightarrow> bool" for env where
  persist: "persist_operation_bundle env b db = (r, db') \<Longrightarrow> op_step env db db'"
| review: "append_review_event env c db = (r, db') \<Longrightarrow> op_step env db db'"
| elsewhere: "same_op_tables db db' \<Longrightarrow> commit_node_t db' = commit_node_t db @ cs \<Longrightarrow>
    distinct (map cn_id (commit_node_t db')) \<Longrightarrow> op_step env db db'"

inductive op_reachable :: "Env \<Rightarrow> Database \<Rightarrow> bool" for env where
  start: "op_reachable env empty_database"
| step: "op_reachable env db \<Longrightarrow> op_step env db db' \<Longrightarrow> op_reachable env db'"

lemma op_step_ok: "op_step env db db' \<Longrightarrow> op_ok db \<Longrightarrow> op_ok db'"
  by (induction rule: op_step.induct)
    (auto intro: persist_keeps_op_ok append_keeps_op_ok op_ok_frame)

lemma op_reachable_ok: "op_reachable env db \<Longrightarrow> op_ok db"
  by (induction rule: op_reachable.induct) (auto intro: op_ok_empty op_step_ok)

text \<open>
  C20. Every database reached from the empty one, by persisting bundles, appending review
  events and whatever the rest of the store does around them, passes the code's audit
  \<open>verify_operation_invariants\<close>: gap-free logs, states and statuses equal to their latest
  log entries, heads that agree with runs, and artifacts where the state demands them.
\<close>

theorem reachable_passes_audit:
  assumes "op_reachable env db"
  shows "verify_operation_invariants db = Inr ()"
  using audit_accepts [OF op_reachable_ok [OF assms]] .

lemma sample_reachable: "op_reachable sample_env sample_db"
proof (rule op_reachable.step)
  show "op_reachable sample_env sample_seeded"
  proof (rule op_reachable.step [OF op_reachable.start], rule op_step.elsewhere)
    show "same_op_tables empty_database sample_seeded"
      by (simp add: same_op_tables_def sample_seeded_def)
    show "commit_node_t sample_seeded = commit_node_t empty_database @ commit_node_t sample_seeded"
      by (simp add: empty_database_def)
    show "distinct (map cn_id (commit_node_t sample_seeded))"
      by (simp add: sample_seeded_def)
  qed
  show "op_step sample_env sample_seeded sample_db"
    by (rule op_step.persist [where b = sample_bundle and r = "Inr (bundle_record sample_bundle)"])
      (simp add: persist_operation_bundle_def sample_valid run_transaction_def sample_rows
        persist_reads_record [OF sample_rows])
qed

theorem reachable_passes_audit_witness: "verify_operation_invariants sample_db = Inr ()"
  by (rule reachable_passes_audit [OF sample_reachable])

section \<open>Appending review events\<close>

lemma constrain_Inl: "constrain cs d = Inl e \<Longrightarrow> \<exists>c \<in> set cs. \<not> fst c \<and> e = Sqlite (snd c)"
  by (induction cs) (auto simp: constrain_def split: if_splits)

text \<open>A refused event: nothing is accepted, and the error is one the caller can cause.\<close>

definition caller_error :: "StoreError \<Rightarrow> bool" where
  "caller_error e \<longleftrightarrow>
     (case e of
        Validation _ \<Rightarrow> True
      | NotFound _ _ \<Rightarrow> True
      | StateConflict _ _ _ _ _ _ \<Rightarrow> True
      | Sqlite (ConstraintCheck t) \<Rightarrow> t = ''patch_review_event''
      | Sqlite (ConstraintPrimaryKey k) \<Rightarrow> k = ''patch_review_event.id''
      | _ \<Rightarrow> False)"

lemma caller_error_Validation [simp]: "caller_error (Validation m)"
  by (simp add: caller_error_def)

lemma non_empty_error: "non_empty f v = Inl e \<Longrightarrow> caller_error e"
  by (auto simp: non_empty_def validation_def split: if_splits)

lemma all_ok_error: "all_ok rs = Inl e \<Longrightarrow> Inl e \<in> set rs"
  by (induction rs) (auto simp: rbind_Inl_iff)

lemma validate_review_event_error: "validate_review_event env c = Inl e \<Longrightarrow> caller_error e"
  unfolding validate_review_event_def
  by (drule all_ok_error)
    (auto simp: require_Inl_iff validate_json_def validation_def
      dest!: sym [of "Inl e"] non_empty_error split: option.splits if_splits sum.splits)

lemma refused_event_error:
  assumes ok: "op_ok db" and err: "append_review_event_in_transaction env c db = Inl e"
  shows "caller_error e"
proof (cases "validate_review_event env c")
  case (Inl e')
  with err have "e = e'" by (simp add: append_review_event_in_transaction_def)
  with Inl validate_review_event_error show ?thesis by blast
next
  case (Inr u)
  then have valid: "validate_review_event env c = Inr ()" by simp
  show ?thesis
  proof (cases "find_by rh_proposal_id (are_proposal_id c) (review_head_t db)")
    case None
    with valid err show ?thesis
      by (auto simp: append_review_event_in_transaction_def caller_error_def)
  next
    case (Some h)
    then have h: "h \<in> set (review_head_t db)" "rh_proposal_id h = are_proposal_id c"
      using find_by_SomeD by fast+
    then have "rh_status h \<in> set review_status_names" using ok by (auto simp: op_ok_def head_ok_def)
    then obtain st where st: "rh_status h = review_session_status_as_str st"
      "parse_review_status (rh_status h) = Inr st"
      using review_status_namesD [of "rh_status h"] by (auto simp: parse_review_status_def)
    show ?thesis
    proof (cases "rh_revision h = are_expected_revision c \<and> st = are_expected_status c
        \<and> review_transition_valid c")
      case False
      with valid Some st err show ?thesis
        by (auto simp: append_review_event_in_transaction_def caller_error_def Let_def
            assert_review_transition_def require_def split: if_splits)
    next
      case True
      with valid Some st(1) have "event_accepted env c h db \<longleftrightarrow>
          are_id c \<notin> re_id ` set (review_event_t db) \<and> opt_all (json_valid env) (are_payload_json c)"
        by (auto simp: event_accepted_def)
      with append_succeeds [OF ok, of env c h] err
      have bad: "are_id c \<in> re_id ` set (review_event_t db) \<or> \<not> opt_all (json_valid env) (are_payload_json c)"
        by auto
      let ?row = "review_event_row c (next_seq re_proposal_id re_sequence (are_proposal_id c) (review_event_t db))
          (rh_revision h) st"
      have "\<nexists>d. insert_review_event env ?row db = Inr d"
        using bad by (auto simp: insert_review_event_def constrain_Inr_iff review_event_row_def)
      then obtain e' where e': "insert_review_event env ?row db = Inl e'"
        by (cases "insert_review_event env ?row db") auto
      then have "e = e'"
        using valid Some st(2) True err
        by (simp add: append_review_event_in_transaction_def assert_review_transition_def Let_def)
      moreover have "(are_proposal_id c, rh_revision h + 1) \<notin> (\<lambda>x. (re_proposal_id x, re_sequence x)) ` set (review_event_t db)"
        "(are_proposal_id c, rh_revision h + 1) \<notin> (\<lambda>x. (re_proposal_id x, re_new_revision x)) ` set (review_event_t db)"
        "next_seq re_proposal_id re_sequence (are_proposal_id c) (review_event_t db) = rh_revision h + 1"
        using next_revision_fresh [OF ok h(1)] reviews_numbered [OF ok h(1)] h(2) by simp_all
      moreover have "are_proposal_id c \<in> rh_proposal_id ` set (review_head_t db)"
        using h by (metis imageI)
      ultimately show ?thesis
        using constrain_Inl [OF e' [unfolded insert_review_event_def]]
        by (auto simp: caller_error_def review_event_row_def)
    qed
  qed
qed

text \<open>
  C5. Appending a review event on a consistent database is decided by its precondition: it
  succeeds exactly for an accepted event (known proposal, expected revision and status
  current, legal transition, fresh identifier, payload SQLite can parse) and then moves the
  log, the head and the run together; a refusal changes nothing and is never an invariant
  violation, a trigger abort, or a uniqueness failure of the log's own numbering.
\<close>

theorem append_review_event_outcome:
  assumes "op_ok db"
  shows "case append_review_event env c db of
      (Inr s, db') \<Rightarrow> \<exists>h. event_accepted env c h db \<and> s = review_session c h \<and> db' = after_event c h db
    | (Inl e, db') \<Rightarrow> db' = db \<and> caller_error e \<and> (\<nexists>h. event_accepted env c h db)"
proof (cases "append_review_event_in_transaction env c db")
  case (Inl e)
  then show ?thesis
    using append_succeeds [OF assms] refused_event_error [OF assms Inl]
    by (auto simp: append_review_event_def run_transaction_def)
next
  case (Inr p)
  then obtain s d where p: "append_review_event_in_transaction env c db = Inr (s, d)"
    by (cases p) auto
  with append_iff [OF assms] obtain h where "event_accepted env c h db" "s = review_session c h"
    "d = after_event c h db" by blast
  with p show ?thesis by (auto simp: append_review_event_def run_transaction_def)
qed

theorem append_review_event_outcome_witness:
  "append_review_event sample_env sample_reject sample_db
     = (Inr (review_session sample_reject sample_head), after_event sample_reject sample_head sample_db)"
proof -
  have only: "h = sample_head" if "event_accepted sample_env sample_reject h sample_db" for h
    using that by (simp add: event_accepted_def sample_heads find_by_def split: if_splits)
  show ?thesis
    using append_review_event_outcome [OF sample_db_ok, of sample_env sample_reject] sample_accepted only
    by (auto split: prod.splits sum.splits)
qed

lemma sorted_own: "gap_free owner seqno rows \<Longrightarrow>
    sort_key seqno (filter (\<lambda>r. owner r = k) rows) = filter (\<lambda>r. owner r = k) rows"
  using gap_free_sorted [of owner seqno rows k]
  by (intro sort_key_id_if_sorted) (auto simp: strict_sorted_iff)

lemma mapM_snoc: "mapM f (xs @ [x]) = rbind (mapM f xs) (\<lambda>ys. rbind (f x) (\<lambda>y. Inr (ys @ [y])))"
proof (induction xs)
  case (Cons a xs)
  then show ?case by (cases "f a"; cases "mapM f xs"; cases "f x") auto
qed (cases "f x"; simp)

definition event_record :: "AppendReviewEvent \<Rightarrow> ReviewEventRecord" where
  "event_record c =
     \<lparr>rev_id = are_id c, rev_proposal_id = are_proposal_id c,
      rev_sequence = are_expected_revision c + 1, rev_base_revision = are_expected_revision c,
      rev_new_revision = are_expected_revision c + 1, rev_kind = are_kind c,
      rev_previous_status = are_expected_status c, rev_next_status = are_next_status c,
      rev_hunk_id = are_hunk_id c, rev_decision = are_decision c,
      rev_payload_json = are_payload_json c, rev_occurred_at = are_occurred_at c\<rparr>"

lemma read_review_row:
  assumes "rh_revision h = are_expected_revision c"
  shows "review_event_record (review_row c h) = Inr (event_record c)"
  using assms
  by (cases "are_decision c")
    (simp_all add: review_event_record_def review_row_def review_event_row_def parse_review_status_def
      parse_review_decision_def event_record_def)

lemma read_after_event:
  assumes ok: "op_ok db" and acc: "event_accepted env c h db"
  shows "get_review_session (are_proposal_id c) (after_event c h db) = Inr (review_session c h)"
    and "list_review_events (are_proposal_id c) (after_event c h db)
         = rbind (list_review_events (are_proposal_id c) db) (\<lambda>es. Inr (es @ [event_record c]))"
proof -
  note accD = acceptedD [OF acc]
  have found: "find_by rh_proposal_id (are_proposal_id c) (review_head_t db) = Some h"
    and rev: "rh_revision h = are_expected_revision c"
    using acc by (auto simp: event_accepted_def)
  have "find_by rh_proposal_id (are_proposal_id c) (review_head_t (after_event c h db))
      = Some (next_head c h)"
    using found accD(2) by (simp add: find_by_update_where)
  then show "get_review_session (are_proposal_id c) (after_event c h db) = Inr (review_session c h)"
    using accD(2)
    by (simp add: get_review_session_def next_head_def parse_review_status_def review_session_def)
  have logs: "gap_free re_proposal_id re_sequence (review_event_t db)"
    "gap_free re_proposal_id re_sequence (review_event_t (after_event c h db))"
    using ok after_event_logs [OF ok acc] by (simp_all add: op_ok_def op_logs_def)
  show "list_review_events (are_proposal_id c) (after_event c h db)
         = rbind (list_review_events (are_proposal_id c) db) (\<lambda>es. Inr (es @ [event_record c]))"
    unfolding list_review_events_def logs [THEN sorted_own]
    using read_review_row [of h c] rev by (simp add: mapM_snoc)
qed

text \<open>
  A successful review event is what the next reads return: the session has the next
  revision and the requested status, and the event list has grown by exactly this event,
  numbered with that revision.
\<close>

theorem append_review_event_reads_back:
  assumes "op_ok db" and "append_review_event env c db = (Inr s, db')"
  shows "get_review_session (are_proposal_id c) db' = Inr s
    \<and> rsr_revision s = are_expected_revision c + 1 \<and> rsr_status s = are_next_status c
    \<and> list_review_events (are_proposal_id c) db'
        = rbind (list_review_events (are_proposal_id c) db) (\<lambda>es. Inr (es @ [event_record c]))"
proof -
  from assms obtain h where acc: "event_accepted env c h db" and s: "s = review_session c h"
    and db': "db' = after_event c h db"
    by (auto simp: append_review_event_def run_transaction_Inr_iff append_iff)
  have "rh_revision h = are_expected_revision c" using acc by (auto simp: event_accepted_def)
  with read_after_event [OF assms(1) acc] show ?thesis
    by (simp add: s db' review_session_def)
qed

lemma sample_append:
  "append_review_event sample_env sample_reject sample_db
     = (Inr (review_session sample_reject sample_head), after_event sample_reject sample_head sample_db)"
  using append_succeeds [OF sample_db_ok sample_accepted]
  by (simp add: append_review_event_def run_transaction_def after_event_def)

theorem append_review_event_reads_back_witness:
  "list_review_events ''a'' (after_event sample_reject sample_head sample_db) = Inr [event_record sample_reject]"
  using append_review_event_reads_back [OF sample_db_ok sample_append]
  by (simp add: sample_reject_def list_review_events_def sample_heads)

text \<open>
  Optimistic concurrency: of two commands for one proposal that expect the same revision
  only one can succeed. After the first, a second well-formed one gets a state conflict that
  reports the revision it missed, and changes nothing.
\<close>

theorem second_review_event_conflicts:
  assumes "op_ok db" and "append_review_event env c db = (Inr s, db')"
    and "are_proposal_id c' = are_proposal_id c"
    and "are_expected_revision c' = are_expected_revision c"
    and "validate_review_event env c' = Inr ()"
  shows "append_review_event env c' db' =
    (Inl (StateConflict ''patch_review'' (are_proposal_id c) (are_expected_revision c)
            (are_expected_revision c + 1) (review_session_status_as_str (are_expected_status c'))
            (review_session_status_as_str (are_next_status c))), db')"
proof -
  from assms(1,2) obtain h where acc: "event_accepted env c h db" and db': "db' = after_event c h db"
    by (auto simp: append_review_event_def run_transaction_Inr_iff append_iff)
  have h: "rh_proposal_id h = are_proposal_id c" "rh_revision h = are_expected_revision c"
    "find_by rh_proposal_id (are_proposal_id c) (review_head_t db) = Some h"
    using acc acceptedD(2) [OF acc] by (auto simp: event_accepted_def)
  have "find_by rh_proposal_id (are_proposal_id c) (review_head_t db') = Some (next_head c h)"
    using h by (simp add: db' find_by_update_where)
  then have "append_review_event_in_transaction env c' db' =
    Inl (StateConflict ''patch_review'' (are_proposal_id c) (are_expected_revision c)
            (are_expected_revision c + 1) (review_session_status_as_str (are_expected_status c'))
            (review_session_status_as_str (are_next_status c)))"
    using assms(3,4,5) h(2)
    by (simp add: append_review_event_in_transaction_def next_head_def parse_review_status_def Let_def)
  then show ?thesis by (simp add: append_review_event_def run_transaction_def)
qed

theorem second_review_event_conflicts_witness:
  "append_review_event sample_env (sample_reject\<lparr>are_id := ''e2''\<rparr>)
     (after_event sample_reject sample_head sample_db)
   = (Inl (StateConflict ''patch_review'' ''a'' 0 1 ''review'' ''rejected''),
      after_event sample_reject sample_head sample_db)"
proof -
  have "validate_review_event sample_env (sample_reject\<lparr>are_id := ''e2''\<rparr>) = Inr ()"
    by (simp add: validate_review_event_def sample_reject_def non_empty_def blank_iff white_space_def
        cont_byte_def)
  from second_review_event_conflicts [OF sample_db_ok sample_append _ _ this]
  show ?thesis by (simp add: sample_reject_def)
qed

text \<open>
  Applied and rejected are final: no review event on such a proposal succeeds, whatever it
  asks for, and the database stays as it is.
\<close>

theorem finished_review_is_final:
  assumes "op_ok db" and "get_review_session p db = Inr s"
    and "rsr_status s = ReviewSessionStatus.Applied \<or> rsr_status s = ReviewSessionStatus.Rejected"
    and "are_proposal_id c = p"
  shows "\<exists>e. append_review_event env c db = (Inl e, db)"
proof -
  have "\<nexists>h. event_accepted env c h db"
  proof
    assume "\<exists>h. event_accepted env c h db"
    then obtain h where acc: "event_accepted env c h db" ..
    then have "find_by rh_proposal_id p (review_head_t db) = Some h"
      using assms(4) by (simp add: event_accepted_def)
    with assms(2) have "rh_status h = review_session_status_as_str (rsr_status s)"
      by (auto simp: get_review_session_def rbind_Inr_iff parse_review_status_def ok_or_Inr_iff
          parse_eq_Some_iff)
    then have "are_expected_status c = rsr_status s"
      using acceptedD(3) [OF acc] by simp
    with acceptedD(4) [OF acc] assms(3) show False
      by (cases "are_kind c") (auto simp: review_transition_valid_def)
  qed
  with append_iff [OF assms(1), of env c] show ?thesis
    by (cases "append_review_event_in_transaction env c db")
      (auto simp: append_review_event_def run_transaction_def)
qed

theorem finished_review_is_final_witness:
  "\<exists>e. append_review_event sample_env sample_reject (after_event sample_reject sample_head sample_db)
     = (Inl e, after_event sample_reject sample_head sample_db)"
proof (rule finished_review_is_final)
  show "op_ok (after_event sample_reject sample_head sample_db)"
    by (rule after_event_ok [OF sample_db_ok sample_accepted])
  show "get_review_session (are_proposal_id sample_reject) (after_event sample_reject sample_head sample_db)
      = Inr (review_session sample_reject sample_head)"
    by (rule read_after_event(1) [OF sample_db_ok sample_accepted])
  show "rsr_status (review_session sample_reject sample_head) = ReviewSessionStatus.Applied
      \<or> rsr_status (review_session sample_reject sample_head) = ReviewSessionStatus.Rejected"
    by (simp add: review_session_def sample_reject_def)
qed simp

section \<open>Code and schema agree\<close>

definition event_template ::
  "ReviewEventKind \<Rightarrow> ReviewSessionStatus \<Rightarrow> ReviewSessionStatus \<Rightarrow> AppendReviewEvent" where
  "event_template k s t =
     \<lparr>are_id = ''e'', are_proposal_id = ''a'', are_expected_revision = 0, are_expected_status = s,
      are_kind = k, are_next_status = t,
      are_hunk_id = (if k = ReviewEventKind.Decision then Some ''h'' else None),
      are_decision = (if k = ReviewEventKind.Decision then Some ReviewDecision.Rejected else None),
      are_payload_json = None, are_occurred_at = ''d''\<rparr>"

definition status_move :: "ReviewSessionStatus \<Rightarrow> ReviewSessionStatus \<Rightarrow> bool" where
  "status_move s t \<longleftrightarrow>
     (case s of
        ReviewSessionStatus.Review \<Rightarrow> t \<noteq> ReviewSessionStatus.Applied
      | ReviewSessionStatus.Ready \<Rightarrow> True
      | ReviewSessionStatus.Conflicted \<Rightarrow> t \<in> set [ReviewSessionStatus.Review, ReviewSessionStatus.Rejected]
      | _ \<Rightarrow> False)"

lemma template_valid:
  assumes "status_move s t"
  shows "\<exists>k. review_transition_valid (event_template k s t)"
proof -
  have blank: "\<not> blank ''h''" by (simp add: blank_iff white_space_def cont_byte_def)
  let ?k = "if t = ReviewSessionStatus.Applied then ReviewEventKind.Apply
     else if t = ReviewSessionStatus.Conflicted then ReviewEventKind.Conflict
     else if s = ReviewSessionStatus.Conflicted \<and> t = ReviewSessionStatus.Review then ReviewEventKind.Rebase
     else if t = ReviewSessionStatus.Rejected then ReviewEventKind.Reject
     else ReviewEventKind.Decision"
  have "review_transition_valid (event_template ?k s t)"
    using assms blank
    by (cases s; cases t) (simp_all add: status_move_def review_transition_valid_def event_template_def)
  then show ?thesis by blast
qed

lemma valid_move: "review_transition_valid c \<Longrightarrow> status_move (are_expected_status c) (are_next_status c)"
  by (cases "are_kind c"; cases "are_expected_status c"; cases "are_next_status c")
    (simp_all add: review_transition_valid_def status_move_def)

lemma head_guard_move:
  "\<not> review_head_guard (h\<lparr>rh_status := review_session_status_as_str s\<rparr>)
       (h\<lparr>rh_status := review_session_status_as_str t, rh_revision := rh_revision h + 1\<rparr>)
   \<longleftrightarrow> status_move s t"
  by (cases s; cases t) (simp_all add: review_head_guard_def status_move_def)

text \<open>
  C25. The trigger that guards review heads allows exactly the status changes for which the
  code has a legal review event: neither layer is stricter than the other.
\<close>

theorem review_guard_iff_code:
  "\<not> review_head_guard (h\<lparr>rh_status := review_session_status_as_str s\<rparr>)
       (h\<lparr>rh_status := review_session_status_as_str t, rh_revision := rh_revision h + 1\<rparr>)
   \<longleftrightarrow> (\<exists>c. review_transition_valid c \<and> are_expected_status c = s \<and> are_next_status c = t)"
  unfolding head_guard_move
proof
  assume "status_move s t"
  then obtain k where "review_transition_valid (event_template k s t)" using template_valid by blast
  then show "\<exists>c. review_transition_valid c \<and> are_expected_status c = s \<and> are_next_status c = t"
    by (intro exI [of _ "event_template k s t"]) (simp add: event_template_def)
qed (use valid_move in blast)

text \<open>
  The trigger that guards operation runs allows exactly the transitions of the code's
  relation that leave review or conflicted, the only states a stored run can leave.
\<close>

theorem run_guard_iff_code:
  "\<not> operation_run_guard (r\<lparr>ror_state := operation_state_as_str a\<rparr>)
       (r\<lparr>ror_state := operation_state_as_str b, ror_updated_at := occurred\<rparr>)
   \<longleftrightarrow> valid_operation_transition a b \<and> a \<in> set [OperationState.Review, OperationState.Conflicted]"
  by (cases a; cases b) (simp_all add: operation_run_guard_def valid_operation_transition_def)

lemma chars_count_Cons: "chars_count (c # cs) = Suc (length (filter (\<lambda>x. \<not> cont_byte x) cs))"
proof (induction "length cs" arbitrary: c cs rule: less_induct)
  case less
  have split: "filter (\<lambda>x. \<not> cont_byte x) cs = filter (\<lambda>x. \<not> cont_byte x) (dropWhile cont_byte cs)"
    by (induction cs) auto
  show ?case
  proof (cases "dropWhile cont_byte cs")
    case Nil
    then show ?thesis by (simp add: chars_count_def split Nil del: dropWhile_eq_Nil_conv)
  next
    case (Cons d ds)
    have "\<not> cont_byte d" using Cons by (metis hd_dropWhile list.sel(1) list.distinct(1))
    moreover have "length ds < length cs"
      using Cons length_dropWhile_le [of cont_byte cs] by simp
    ultimately show ?thesis
      using less [of ds d] Cons by (simp add: chars_count_def split)
  qed
qed

lemma sql_length_le: "sql_length s \<le> chars_count s"
proof (cases s)
  case (Cons c cs)
  have "length (filter P (takeWhile Q cs)) \<le> length (filter P cs)" for P Q :: "char \<Rightarrow> bool"
    by (induction cs) auto
  then show ?thesis
    unfolding Cons sql_length_def c_text_def
    by (cases "c = CHR 0x00") (simp_all add: chars_count_Cons, simp add: chars_count_def)
qed (simp add: sql_length_def c_text_def)

lemma sql_length_pos: "1 \<le> sql_length s \<longleftrightarrow> c_text s \<noteq> []"
  by (cases "c_text s") (simp_all add: sql_length_def chars_count_Cons, simp add: chars_count_def)

definition stored_text :: "string option \<Rightarrow> bool" where
  "stored_text x \<longleftrightarrow> opt_all (\<lambda>s. c_text s \<noteq> []) x"

lemma is_none_or_empty_iff: "is_none_or_empty x \<longleftrightarrow> x = None \<or> x = Some []"
  by (cases x) (auto simp: is_none_or_empty_def)

lemma attempt_step_checks:
  assumes "attempt_step n (i, a) = Inr u" and "i < 3"
  shows "attempt_checks (attempt_row k a) \<longleftrightarrow>
    stored_text (noa_response_id a) \<and> stored_text (noa_failure_code a) \<and> stored_text (noa_remote_request_id a)"
proof -
  note f = assms(1) [unfolded attempt_step_def prod.case all_ok_Inr_iff list.pred_inject require_Inr_iff
      attempt_out_of_bounds_def]
  have bounds: "opt_all (\<lambda>s. chars_count s \<le> 512) (noa_response_id a)"
    "opt_all (\<lambda>s. chars_count s \<le> 512) (noa_remote_request_id a)"
    "opt_all (\<lambda>s. s \<noteq> [] \<and> chars_count s \<le> 200) (noa_failure_code a)"
    and seqno: "noa_sequence a = int i + 1"
    using f by blast+
  have le: "opt_all (\<lambda>s. chars_count s \<le> m) x \<Longrightarrow>
      opt_all (\<lambda>s. 1 \<le> sql_length s \<and> sql_length s \<le> m) x \<longleftrightarrow> stored_text x" for m x
    using sql_length_le order_trans by (cases x) (auto simp: stored_text_def sql_length_pos simp del: One_nat_def)
  have code: "opt_all (\<lambda>s. chars_count s \<le> 200) (noa_failure_code a)"
    using bounds(3) by (cases "noa_failure_code a") auto
  have fields: "opt_all (\<lambda>v. 100 \<le> v \<and> v \<le> 599) (noa_http_status a)"
    "opt_all (\<lambda>v. 0 \<le> v \<and> v \<le> 86400000) (noa_retry_after_ms a)"
    "opt_all (\<lambda>v. 0 \<le> v \<and> v \<le> 10000) (noa_retry_delay_ms a)"
    "opt_all (\<lambda>k. k \<in> set failure_kinds) (noa_failure_kind a)"
    using f by blast+
  note checks = attempt_checks_def attempt_row_def OperationAttemptRecord.simps
    le [OF bounds(1)] le [OF bounds(2)] le [OF code]
  consider (succeeded) "noa_outcome a = ''succeeded''" | (failed) "noa_outcome a = ''failed''"
    using f by (auto simp: validation_def split: if_splits)
  then show ?thesis
  proof cases
    case succeeded
    with f have "noa_response_started a" "noa_response_id a \<noteq> None"
      "noa_failure_code a = None \<and> noa_failure_kind a = None \<and> noa_http_status a = None
        \<and> noa_remote_request_id a = None \<and> noa_retry_after_ms a = None \<and> noa_retriable a = None
        \<and> noa_retry_delay_ms a = None"
      by (auto simp: all_ok_Inr_iff require_Inr_iff is_none_or_empty_iff simp del: all_ok.simps)
    then show ?thesis
      unfolding checks using seqno assms(2) succeeded by (auto simp: stored_text_def)
  next
    case failed
    with f have "noa_failure_code a \<noteq> None \<and> noa_retriable a \<noteq> None
      \<and> (\<not> noa_response_started a \<longrightarrow> noa_response_id a = None)
      \<and> (noa_response_started a \<longrightarrow> noa_response_id a \<noteq> None)
      \<and> (noa_retry_delay_ms a \<noteq> None \<longrightarrow> noa_retriable a = Some True \<and> \<not> noa_response_started a)"
      by (auto simp: require_Inr_iff is_none_or_empty_iff)
    then show ?thesis
      unfolding checks using seqno assms(2) failed fields by auto
  qed
qed

text \<open>
  The attempts the code accepts are the attempts the table accepts, up to one gap: an
  accepted attempt violates the CHECK constraints exactly when its response identifier,
  failure code or remote request identifier is a text SQLite reads as empty. The code never
  looks for an empty remote request identifier.
\<close>

theorem accepted_attempt_checks:
  assumes "validate_attempts as = Inr ()" and "a \<in> set as"
  shows "attempt_checks (attempt_row k a) \<longleftrightarrow>
    stored_text (noa_response_id a) \<and> stored_text (noa_failure_code a)
    \<and> stored_text (noa_remote_request_id a)"
proof -
  from assms obtain i where "i < length as" "a = as ! i" "length as \<le> 3"
    "attempt_step (length as) (i, a) = Inr ()"
    by (auto simp: in_set_conv_nth validate_attempts_Inr_iff)
  then show ?thesis by (intro attempt_step_checks [of "length as" i]) auto
qed

definition sample_refused_attempt :: NewOperationAttempt where
  "sample_refused_attempt =
     \<lparr>noa_sequence = 1, noa_started_at = ''d'', noa_finished_at = ''d'', noa_outcome = ''failed'',
      noa_response_started = False, noa_response_id = None, noa_failure_code = Some ''http'',
      noa_failure_kind = Some ''server'', noa_http_status = Some 500, noa_remote_request_id = Some [],
      noa_retry_after_ms = None, noa_retriable = Some False, noa_retry_delay_ms = None\<rparr>"

theorem accepted_attempt_checks_witness:
  "validate_attempts [sample_refused_attempt] = Inr ()
   \<and> \<not> attempt_checks (attempt_row ''run'' sample_refused_attempt)"
proof -
  have "validate_attempts [sample_refused_attempt] = Inr ()" by code_simp
  with accepted_attempt_checks [OF this, of sample_refused_attempt "''run''"] show ?thesis
    by (simp add: sample_refused_attempt_def stored_text_def c_text_def)
qed

text \<open>
  The token check of the code is the CHECK constraint of the table wherever the sum of
  input and output tokens fits an \<open>i64\<close>.
\<close>

theorem validate_usage_iff_check:
  assumes "i64_range (mu_input_tokens u + mu_output_tokens u)"
  shows "validate_usage (Some u) = Inr () \<longleftrightarrow>
    nonneg (Some (mu_input_tokens u)) \<and> nonneg (Some (mu_output_tokens u))
    \<and> nonneg (mu_cached_input_tokens u) \<and> nonneg (mu_reasoning_tokens u)
    \<and> usage_check (run_row (run\<lparr>nor_usage := Some u\<rparr>) packet_id)"
  using assms
  by (auto simp: validate_usage_def validation_def usage_check_def run_row_def Let_def i64_wrap_id nonneg_def)

theorem validate_usage_iff_check_witness:
  "validate_usage (Some \<lparr>mu_input_tokens = 2, mu_output_tokens = 3, mu_total_tokens = 4,
      mu_cached_input_tokens = None, mu_reasoning_tokens = None\<rparr>) \<noteq> Inr ()"
  using validate_usage_iff_check [of "\<lparr>mu_input_tokens = 2, mu_output_tokens = 3, mu_total_tokens = 4,
      mu_cached_input_tokens = None, mu_reasoning_tokens = None\<rparr>" "pob_run sample_bundle" None]
  by (simp add: i64_range_def usage_check_def run_row_def Let_def nonneg_def)

text \<open>
  Beyond that range the addition wraps: there are usage records of \<open>i64\<close> values that the
  release build accepts and the table refuses.
\<close>

theorem validate_usage_overflow:
  "\<exists>u. i64_range (mu_input_tokens u) \<and> i64_range (mu_output_tokens u) \<and> i64_range (mu_total_tokens u)
     \<and> validate_usage (Some u) = Inr ()
     \<and> \<not> usage_check (run_row (run\<lparr>nor_usage := Some u\<rparr>) packet_id)"
  by (rule exI [of _ "\<lparr>mu_input_tokens = 2 ^ 62, mu_output_tokens = 2 ^ 62, mu_total_tokens = 0,
      mu_cached_input_tokens = None, mu_reasoning_tokens = None\<rparr>"])
    (simp add: i64_range_def validate_usage_def i64_wrap_def usage_check_def run_row_def Let_def nonneg_def)

end
