(* ===== verification/Metrics.thy ===== *)
theory Metrics
  imports OperationProperties
begin

text \<open>
  The aggregates of \<open>operation.rs\<close> over runs and review events: token totals, how often an
  accepted proposal had been rejected before, and how often the payload of a proposal
  changed. A \<open>BTreeMap\<close> is the association list of its entries in key order; a rate is the
  exact quotient.
\<close>

section \<open>Ordered maps\<close>

text \<open>\<open>map.entry(k)\<close> followed by an update of the value, absent or present.\<close>

fun bt_update :: "'k :: linorder \<Rightarrow> ('v option \<Rightarrow> 'v) \<Rightarrow> ('k \<times> 'v) list \<Rightarrow> ('k \<times> 'v) list" where
  "bt_update k f [] = [(k, f None)]"
| "bt_update k f ((j, v) # m) =
     (if k < j then (k, f None) # (j, v) # m
      else if k = j then (k, f (Some v)) # m
      else (j, v) # bt_update k f m)"

definition bt_ordered :: "('k :: linorder \<times> 'v) list \<Rightarrow> bool" where
  "bt_ordered m \<longleftrightarrow> sorted_wrt (<) (map fst m)"

lemma bt_update_keys: "fst ` set (bt_update k f m) = insert k (fst ` set m)"
  by (induction m rule: bt_update.induct [of _ k f]) auto

lemma bt_update_ordered: "bt_ordered m \<Longrightarrow> bt_ordered (bt_update k f m)"
proof (induction k f m rule: bt_update.induct)
  case (2 k f j v m)
  then show ?case
    using bt_update_keys [of k f m]
    by (auto simp: bt_ordered_def image_iff)
qed (simp add: bt_ordered_def)

lemma map_of_bt_update: "bt_ordered m \<Longrightarrow> map_of (bt_update k f m) = (map_of m)(k \<mapsto> f (map_of m k))"
proof (induction k f m rule: bt_update.induct)
  case (2 k f j v m)
  have "map_of m k = None" if "k < j"
    using 2(2) that by (auto simp: bt_ordered_def map_of_eq_None_iff)
  then show ?case using 2 by (auto simp: bt_ordered_def fun_eq_iff)
qed simp

section \<open>Token totals\<close>

definition sum_opt :: "int option list \<Rightarrow> int" where
  "sum_opt xs = sum_list (map (\<lambda>x. coalesce x 0) xs)"

definition count_state :: "string \<Rightarrow> RawOperationRun list \<Rightarrow> int" where
  "count_state st runs = int (length (filter (\<lambda>r. ror_state r = st) runs))"

definition get_operation_insights :: "string \<Rightarrow> Database \<Rightarrow> OperationInsightsRecord StoreResult" where
  "get_operation_insights project_id db =
     (if blank project_id then validation ''project id must not be empty''
      else let runs = filter (\<lambda>r. ror_project_id r = project_id) (run_t db) in Inr
        \<lparr>oir_total_input_tokens = sum_opt (map ror_input_tokens runs),
         oir_total_output_tokens = sum_opt (map ror_output_tokens runs),
         oir_total_tokens = sum_opt (map ror_total_tokens runs),
         oir_accepted_count = count_state ''accepted'' runs,
         oir_rejected_count = count_state ''rejected'' runs,
         oir_conflicted_count = count_state ''conflicted'' runs,
         oir_total_runs = int (length runs)\<rparr>)"

section \<open>Rejections before acceptance\<close>

text \<open>The proposals of a project: \<open>patch_review_head JOIN operation_run\<close>.\<close>

definition project_proposals :: "string \<Rightarrow> Database \<Rightarrow> string list" where
  "project_proposals project_id db =
     [rh_proposal_id h. h \<leftarrow> review_head_t db, r \<leftarrow> run_t db,
        ror_id r = rh_run_id h, ror_project_id r = project_id]"

definition apply_reject_rows :: "string \<Rightarrow> Database \<Rightarrow> (string \<times> string \<times> int) list" where
  "apply_reject_rows project_id db =
     map (\<lambda>e. (re_proposal_id e, re_kind e, re_sequence e))
       (filter (\<lambda>e. re_proposal_id e \<in> set (project_proposals project_id db)
                    \<and> re_kind e \<in> set [''apply'', ''reject'']) (review_event_t db))"

definition group_kinds :: "(string \<times> string \<times> int) list \<Rightarrow> (string \<times> string list) list" where
  "group_kinds rows =
     fold (\<lambda>(proposal_id, kind, _). bt_update proposal_id (\<lambda>v. coalesce v [] @ [kind]))
       (sort_key (\<lambda>(p, _, s). (p, s)) rows) []"

text \<open>The scan for an apply after a reject; several rejects before it count once.\<close>

fun rejected_then_applied :: "bool \<Rightarrow> string list \<Rightarrow> bool" where
  "rejected_then_applied saw_reject [] = False"
| "rejected_then_applied saw_reject (kind # kinds) =
     (if kind = ''reject'' then rejected_then_applied True kinds
      else if kind = ''apply'' \<and> saw_reject then True
      else rejected_then_applied saw_reject kinds)"

definition count_groups :: "('v \<Rightarrow> bool) \<Rightarrow> (string \<times> 'v) list \<Rightarrow> int" where
  "count_groups p m = int (length (filter p (map snd m)))"

definition rate :: "int \<Rightarrow> int \<Rightarrow> rat" where
  "rate part whole = (if whole = 0 then 0 else of_int part / of_int whole)"

definition get_revision_metrics :: "string \<Rightarrow> Database \<Rightarrow> RevisionMetrics StoreResult" where
  "get_revision_metrics project_id db =
     (if blank project_id then validation ''project id must not be empty''
      else
        let proposals = group_kinds (apply_reject_rows project_id db);
            accepted = count_groups (\<lambda>kinds. list_ex (\<lambda>k. k = ''apply'') kinds) proposals;
            after = count_groups (rejected_then_applied False) proposals
        in Inr
          \<lparr>rm_total_proposals_accepted = accepted,
           rm_proposals_with_rejection = count_groups (\<lambda>kinds. list_ex (\<lambda>k. k = ''reject'') kinds) proposals,
           rm_accepted_after_rejection = after,
           rm_accepted_after_rejection_rate = rate after accepted\<rparr>)"

section \<open>Changing payloads\<close>

definition payload_hash_of :: "Env \<Rightarrow> string option \<Rightarrow> string option" where
  "payload_hash_of env payload_json =
     (case payload_json of
        None \<Rightarrow> None
      | Some s \<Rightarrow>
          (case serde_from_str env s of
             Inl _ \<Rightarrow> None
           | Inr v \<Rightarrow> Option.bind (json_get v ''payload_hash'') json_as_str))"

definition collect_hashes ::
  "Env \<Rightarrow> (string \<times> string option) list \<Rightarrow> (string \<times> string list) list" where
  "collect_hashes env rows =
     fold (\<lambda>(proposal_id, payload_json) m.
             case payload_hash_of env payload_json of
               None \<Rightarrow> m
             | Some h \<Rightarrow> bt_update proposal_id (\<lambda>v. List.insert h (coalesce v [])) m) rows []"

definition get_payload_hash_variations ::
  "Env \<Rightarrow> string \<Rightarrow> Database \<Rightarrow> PayloadHashVariations StoreResult" where
  "get_payload_hash_variations env project_id db =
     (if blank project_id then validation ''project id must not be empty''
      else
        let rows = map (\<lambda>e. (re_proposal_id e, re_payload_json e))
              (filter (\<lambda>e. re_proposal_id e \<in> set (project_proposals project_id db)) (review_event_t db));
            proposals = int (length (remdups (map fst rows)));
            hashes = collect_hashes env rows;
            varied = count_groups (\<lambda>hs. length hs \<ge> 2) hashes
        in Inr
          \<lparr>phv_total_proposals = proposals,
           phv_proposals_with_variation = varied,
           phv_variations = sum_list (map (\<lambda>(_, hs). int (length hs) - 1) hashes),
           phv_variation_rate = rate varied proposals\<rparr>)"

section \<open>Bounds of the aggregates\<close>

lemma fold_bt_ordered:
  "(\<And>x m. bt_ordered m \<Longrightarrow> bt_ordered (f x m)) \<Longrightarrow> bt_ordered m \<Longrightarrow> bt_ordered (fold f xs m)"
  by (induction xs arbitrary: m) auto

lemma rejected_then_appliedD:
  "rejected_then_applied b ks \<Longrightarrow> \<exists>xs ys. ks = xs @ ''apply'' # ys \<and> (b \<or> ''reject'' \<in> set xs)"
proof (induction b ks rule: rejected_then_applied.induct)
  case (2 b k ks)
  show ?case
  proof (cases "k = ''apply'' \<and> b")
    case True
    then have "k # ks = [] @ ''apply'' # ks" by simp
    with True show ?thesis by blast
  next
    case False
    then obtain xs ys where "ks = xs @ ''apply'' # ys" "b \<or> k = ''reject'' \<or> ''reject'' \<in> set xs"
      using 2 by (auto split: if_splits)
    then have "k # ks = (k # xs) @ ''apply'' # ys" "b \<or> ''reject'' \<in> set (k # xs)" by auto
    then show ?thesis by blast
  qed
qed simp

lemma rejected_then_applied_both:
  "rejected_then_applied False ks \<Longrightarrow> list_ex (\<lambda>k. k = ''apply'') ks \<and> list_ex (\<lambda>k. k = ''reject'') ks"
  by (drule rejected_then_appliedD) (auto simp: list_ex_iff)

lemma count_groups_mono:
  "(\<And>v. v \<in> snd ` set m \<Longrightarrow> p v \<Longrightarrow> q v) \<Longrightarrow> count_groups p m \<le> count_groups q m"
  by (induction m) (auto simp: count_groups_def)

lemma count_groups_nonneg: "0 \<le> count_groups p m"
  by (simp add: count_groups_def)

lemma rate_bounds: "0 \<le> part \<Longrightarrow> part \<le> whole \<Longrightarrow> 0 \<le> rate part whole \<and> rate part whole \<le> 1"
  by (auto simp: rate_def divide_le_eq)

text \<open>
  The revision metrics are consistent: proposals accepted after a rejection are among
  the accepted ones and among those with a rejection, and the rate is between 0 and 1, also
  for a project without accepted proposals.
\<close>

theorem revision_metrics_bounds:
  assumes "get_revision_metrics project_id db = Inr m"
  shows "0 \<le> rm_accepted_after_rejection m
    \<and> rm_accepted_after_rejection m \<le> rm_total_proposals_accepted m
    \<and> rm_accepted_after_rejection m \<le> rm_proposals_with_rejection m
    \<and> 0 \<le> rm_accepted_after_rejection_rate m \<and> rm_accepted_after_rejection_rate m \<le> 1"
proof -
  let ?g = "group_kinds (apply_reject_rows project_id db)"
  have "0 \<le> count_groups (rejected_then_applied False) ?g"
    "count_groups (rejected_then_applied False) ?g \<le> count_groups (\<lambda>ks. list_ex (\<lambda>k. k = ''apply'') ks) ?g"
    "count_groups (rejected_then_applied False) ?g \<le> count_groups (\<lambda>ks. list_ex (\<lambda>k. k = ''reject'') ks) ?g"
    using rejected_then_applied_both by (auto intro: count_groups_nonneg count_groups_mono)
  with assms show ?thesis
    by (auto simp: get_revision_metrics_def validation_def Let_def rate_bounds split: if_splits)
qed

text \<open>Grouping keeps, for every proposal, its kinds in the order of the sequence numbers.\<close>

definition kinds_of :: "string \<Rightarrow> (string \<times> string \<times> int) list \<Rightarrow> string list" where
  "kinds_of p rows = map (fst \<circ> snd) (filter (\<lambda>r. fst r = p) rows)"

lemma fold_group:
  assumes "bt_ordered m"
  defines "push \<equiv> \<lambda>(proposal_id, kind, _ :: int). bt_update proposal_id (\<lambda>v. coalesce v [] @ [kind])"
  shows "bt_ordered (fold push rows m)
    \<and> map_of (fold push rows m) p = (if p \<in> fst ` set rows \<or> p \<in> fst ` set m
        then Some (coalesce (map_of m p) [] @ kinds_of p rows) else None)"
  using assms(1)
proof (induction rows arbitrary: m)
  case Nil
  then show ?case
    using map_of_eq_None_iff [of m p] by (auto simp: kinds_of_def)
next
  case (Cons r rows)
  obtain q k s where r: "r = (q, k, s)" by (cases r)
  let ?m = "bt_update q (\<lambda>v. coalesce v [] @ [k]) m"
  have "bt_ordered ?m" using Cons.prems by (rule bt_update_ordered)
  from Cons.IH [OF this] show ?case
    using Cons.prems
    by (auto simp: r push_def kinds_of_def map_of_bt_update bt_update_keys)
qed

lemma group_member:
  assumes "(p, ks) \<in> set (group_kinds rows)"
  shows "ks = kinds_of p (sort_key (\<lambda>(p, _, s). (p, s)) rows)"
proof -
  have o: "bt_ordered (group_kinds rows)"
    and m: "map_of (group_kinds rows) p = (if p \<in> fst ` set rows
      then Some (kinds_of p (sort_key (\<lambda>(p, _, s). (p, s)) rows)) else None)"
    using fold_group [of "[]" "sort_key (\<lambda>(p, _, s). (p, s)) rows" p]
    by (auto simp: group_kinds_def bt_ordered_def)
  have "distinct (map fst (group_kinds rows))"
    using o by (simp add: bt_ordered_def strict_sorted_iff)
  with assms have "map_of (group_kinds rows) p = Some ks" by simp
  with m show ?thesis by (simp split: if_splits)
qed

section \<open>A rejected proposal is never applied\<close>

definition rejections_final :: "Database \<Rightarrow> bool" where
  "rejections_final db \<longleftrightarrow>
     (\<forall>e \<in> set (review_event_t db). re_kind e = ''reject'' \<longrightarrow>
        re_next_status e = ''rejected''
        \<and> (\<forall>e' \<in> set (review_event_t db). re_proposal_id e' = re_proposal_id e \<longrightarrow>
             re_sequence e' \<le> re_sequence e))"

lemma rejection_is_last:
  assumes ok: "op_ok db" and fin: "rejections_final db" and h: "h \<in> set (review_head_t db)"
    and e: "e \<in> set (review_event_t db)" "re_kind e = ''reject''" "re_proposal_id e = rh_proposal_id h"
  shows "rh_status h = ''rejected''"
proof -
  let ?own = "reviews_of db (rh_proposal_id h)"
  have own: "e \<in> set ?own" using e by (simp add: reviews_of_def)
  then have ne: "?own \<noteq> []" by auto
  have gf: "gap_free re_proposal_id re_sequence (review_event_t db)"
    using ok by (auto simp: op_ok_def op_logs_def)
  from own obtain i where i: "i < length ?own" "?own ! i = e" by (auto simp: in_set_conv_nth)
  have "last ?own \<in> set (review_event_t db)" "re_proposal_id (last ?own) = re_proposal_id e"
    using last_in_set [OF ne] e(3) by (auto simp: reviews_of_def)
  then have "re_sequence (last ?own) \<le> re_sequence e"
    using fin e by (auto simp: rejections_final_def)
  moreover have "re_sequence (?own ! j) = int j + 1" if "j < length ?own" for j
  proof -
    have "map re_sequence ?own = map int [1..<Suc (length ?own)]"
      using gf unfolding gap_free_def reviews_of_def by blast
    then have "map re_sequence ?own ! j = map int [1..<Suc (length ?own)] ! j" by simp
    with that show ?thesis by (simp del: upt_Suc)
  qed
  moreover have "last ?own = ?own ! (length ?own - 1)" using ne by (rule last_conv_nth)
  ultimately have "int (length ?own - 1) + 1 \<le> int i + 1"
    using i ne by (metis diff_less length_greater_0_conv zero_less_one)
  with i have "i = length ?own - 1" by linarith
  then have "last ?own = e" using i ne by (simp add: last_conv_nth)
  moreover have "head_ok db h" using ok h by (auto simp: op_ok_def)
  ultimately show ?thesis
    using ne fin e by (auto simp: head_ok_def rejections_final_def)
qed

lemma rejections_final_step:
  assumes ok: "op_ok db" and fin: "rejections_final db" and acc: "event_accepted env c h db"
  shows "rejections_final (after_event c h db)"
proof -
  note accD = acceptedD [OF acc]
  have "rh_status h \<noteq> ''rejected''"
    using accD(3,4) by (cases "are_kind c"; cases "are_expected_status c") (auto simp: review_transition_valid_def)
  then have none: "re_kind e \<noteq> ''reject''"
    if "e \<in> set (review_event_t db)" "re_proposal_id e = rh_proposal_id h" for e
    using rejection_is_last [OF ok fin accD(1) that(1) _ that(2)] by blast
  have gf: "gap_free re_proposal_id re_sequence (review_event_t db)"
    using ok by (auto simp: op_ok_def op_logs_def)
  have before: "re_sequence e \<le> rh_revision h + 1"
    if "e \<in> set (review_event_t db)" "re_proposal_id e = rh_proposal_id h" for e
    using gap_free_bounds [OF gf that(1)] reviews_numbered [OF ok accD(1)] that(2) by simp
  have "re_next_status (review_row c h) = ''rejected''" if "re_kind (review_row c h) = ''reject''"
    using that accD(4)
    by (cases "are_kind c") (auto simp: review_row_def review_event_row_def review_transition_valid_def)
  with fin none before accD(2) show ?thesis
    by (auto simp: rejections_final_def)
qed

lemma op_step_rejections:
  "op_step env db db' \<Longrightarrow> op_ok db \<Longrightarrow> rejections_final db \<Longrightarrow> rejections_final db'"
proof (induction rule: op_step.induct)
  case (persist b db r db')
  then have "review_event_t db' = review_event_t db"
    using persist_operation_bundle_cases [OF persist(1)] persist_rows_effect(1) bundle_rows_simps(7)
    by metis
  with persist show ?case by (simp add: rejections_final_def)
next
  case (review c db r db')
  then show ?case
    using rejections_final_step
    by (auto simp: append_review_event_def run_transaction_def append_iff split: sum.splits)
next
  case (elsewhere db db' cs)
  then show ?case by (simp add: rejections_final_def same_op_tables_def)
qed

lemma op_reachable_rejections: "op_reachable env db \<Longrightarrow> op_ok db \<and> rejections_final db"
proof (induction rule: op_reachable.induct)
  case start
  have "rejections_final empty_database" by (simp add: rejections_final_def empty_database_def)
  with op_ok_empty show ?case by blast
qed (blast intro: op_step_ok op_step_rejections)

lemma no_apply_after_reject:
  assumes ok: "op_ok db" and fin: "rejections_final db"
    and g: "(p, ks) \<in> set (group_kinds (apply_reject_rows project_id db))"
  shows "\<not> rejected_then_applied False ks"
proof
  let ?key = "\<lambda>(p, _, s). (p :: string, s :: int)"
  let ?rows = "filter (\<lambda>r. fst r = p) (sort_key ?key (apply_reject_rows project_id db))"
  assume "rejected_then_applied False ks"
  from rejected_then_appliedD [OF this] obtain xs ys where
    ks: "ks = xs @ ''apply'' # ys" "''reject'' \<in> set xs" by auto
  have "map (fst \<circ> snd) ?rows = xs @ ''apply'' # ys"
    using group_member [OF g] ks(1) by (simp add: kinds_of_def)
  then obtain L1 a L2 where L: "?rows = L1 @ a # L2" "map (fst \<circ> snd) L1 = xs" "fst (snd a) = ''apply''"
    by (auto simp: map_eq_append_conv map_eq_Cons_conv)
  from ks(2) L(2) obtain r where r: "r \<in> set L1" "fst (snd r) = ''reject''" by auto
  have "sorted (map ?key ?rows)" by (rule sorted_filter) simp
  then have "?key r \<le> ?key a" using r(1) unfolding L(1) by (auto simp: sorted_append)
  moreover have mem: "r \<in> set ?rows" "a \<in> set ?rows" using r(1) unfolding L(1) by auto
  then have "fst r = p" "fst a = p" by auto
  ultimately have le: "snd (snd r) \<le> snd (snd a)"
    by (cases r; cases a) (auto simp: less_eq_prod_def)
  from mem obtain er ea where e: "er \<in> set (review_event_t db)" "ea \<in> set (review_event_t db)"
    "r = (re_proposal_id er, re_kind er, re_sequence er)" "a = (re_proposal_id ea, re_kind ea, re_sequence ea)"
    by (auto simp: apply_reject_rows_def)
  have same: "re_proposal_id ea = re_proposal_id er" using e \<open>fst r = p\<close> \<open>fst a = p\<close> by simp
  have "re_sequence ea \<le> re_sequence er"
    using fin e(1,2,3) r(2) same by (auto simp: rejections_final_def)
  with le e have seqs: "re_sequence ea = re_sequence er" by simp
  have "gap_free re_proposal_id re_sequence (review_event_t db)"
    using ok by (auto simp: op_ok_def op_logs_def)
  then have "sorted_wrt (<) (map re_sequence (reviews_of db (re_proposal_id er)))"
    unfolding reviews_of_def by (rule gap_free_sorted)
  then have "inj_on re_sequence (set (reviews_of db (re_proposal_id er)))"
    by (simp add: strict_sorted_iff distinct_map)
  moreover have "er \<in> set (reviews_of db (re_proposal_id er))" "ea \<in> set (reviews_of db (re_proposal_id er))"
    using e same by (auto simp: reviews_of_def)
  ultimately have "er = ea" using seqs by (auto dest: inj_onD)
  with r(2) L(3) e(3,4) show False by simp
qed

text \<open>
  C26. On every reachable database the metric of proposals accepted after a rejection is 0,
  and so is its rate: a reject event makes the proposal's status final, so no apply event of
  the same proposal can follow it. The state machine and the metric contradict each other.
\<close>

theorem accepted_after_rejection_is_zero:
  assumes "op_reachable env db" and "get_revision_metrics project_id db = Inr m"
  shows "rm_accepted_after_rejection m = 0 \<and> rm_accepted_after_rejection_rate m = 0"
proof -
  from op_reachable_rejections [OF assms(1)] have ok: "op_ok db" and fin: "rejections_final db" by auto
  let ?g = "group_kinds (apply_reject_rows project_id db)"
  have "count_groups (rejected_then_applied False) ?g = 0"
    using no_apply_after_reject [OF ok fin] by (fastforce simp: count_groups_def filter_empty_conv)
  with assms(2) show ?thesis
    by (auto simp: get_revision_metrics_def validation_def Let_def rate_def split: if_splits)
qed

lemma sample_runs:
  "run_t sample_db = [run_row (pob_run sample_bundle) (Some ''k'')]"
  "nor_id (pob_run sample_bundle) = ''run''" "nor_project_id (pob_run sample_bundle) = ''p''"
  by (simp_all add: sample_db_def bundle_rows_simps sample_defs)

lemma sample_metrics:
  "get_revision_metrics ''p'' (after_event sample_reject sample_head sample_db) = Inr
     \<lparr>rm_total_proposals_accepted = 0, rm_proposals_with_rejection = 1,
      rm_accepted_after_rejection = 0, rm_accepted_after_rejection_rate = 0\<rparr>"
proof -
  have "\<not> blank ''p''" by (simp add: blank_iff white_space_def cont_byte_def)
  moreover have "apply_reject_rows ''p'' (after_event sample_reject sample_head sample_db) = [(''a'', ''reject'', 1)]"
    by (simp add: apply_reject_rows_def project_proposals_def sample_heads after_event_runs
        update_where_def sample_runs run_row_def Let_def state_moves_def
        sample_reject_def desired_operation_state_def moved_run_def next_head_def
        review_row_def review_event_row_def sample_head_def)
  ultimately show ?thesis
    by (simp add: get_revision_metrics_def group_kinds_def count_groups_def rate_def)
qed

theorem revision_metrics_bounds_witness:
  "rm_accepted_after_rejection \<lparr>rm_total_proposals_accepted = 0, rm_proposals_with_rejection = 1,
      rm_accepted_after_rejection = 0, rm_accepted_after_rejection_rate = 0\<rparr> \<le> 1"
  using revision_metrics_bounds [OF sample_metrics] by simp

theorem accepted_after_rejection_is_zero_witness:
  "\<exists>m. get_revision_metrics ''p'' (after_event sample_reject sample_head sample_db) = Inr m
     \<and> rm_proposals_with_rejection m = 1 \<and> rm_accepted_after_rejection m = 0"
proof -
  have "op_reachable sample_env (after_event sample_reject sample_head sample_db)"
    by (rule op_reachable.step [OF sample_reachable], rule op_step.review, rule sample_append)
  from accepted_after_rejection_is_zero [OF this sample_metrics] sample_metrics show ?thesis by auto
qed

section \<open>Payload variations\<close>

lemma collect_hashes_facts:
  fixes env :: Env
  defines "push \<equiv> \<lambda>(proposal_id, payload_json) m.
             case payload_hash_of env payload_json of
               None \<Rightarrow> m
             | Some h \<Rightarrow> bt_update proposal_id (\<lambda>v. List.insert h (coalesce v [])) m"
  assumes "bt_ordered m" and "\<forall>(p, hs) \<in> set m. hs \<noteq> [] \<and> distinct hs"
  shows "bt_ordered (fold push rows m)
    \<and> (\<forall>(p, hs) \<in> set (fold push rows m). hs \<noteq> [] \<and> distinct hs)
    \<and> fst ` set (fold push rows m) \<subseteq> fst ` set m \<union> fst ` set rows"
  using assms(2,3)
proof (induction rows arbitrary: m)
  case (Cons r rows)
  obtain q j where r: "r = (q, j)" by (cases r)
  show ?case
  proof (cases "payload_hash_of env j")
    case None
    with Cons.IH [OF Cons.prems] show ?thesis by (auto simp: r push_def)
  next
    case (Some h)
    let ?m = "bt_update q (\<lambda>v. List.insert h (coalesce v [])) m"
    have o: "bt_ordered ?m" using Cons.prems(1) by (rule bt_update_ordered)
    have "\<forall>(p, hs) \<in> set ?m. hs \<noteq> [] \<and> distinct hs"
    proof (clarify)
      fix p hs assume mem: "(p, hs) \<in> set ?m"
      have "distinct (map fst ?m)" using o by (simp add: bt_ordered_def strict_sorted_iff)
      with mem have "map_of ?m p = Some hs" by simp
      then have "((map_of m)(q \<mapsto> List.insert h (coalesce (map_of m q) []))) p = Some hs"
        using Cons.prems(1) by (simp add: map_of_bt_update)
      then show "hs \<noteq> [] \<and> distinct hs"
        using Cons.prems(2)
          by (cases "p = q"; cases "map_of m q") (auto dest!: map_of_SomeD simp: List.insert_def split: if_splits)
    qed
    from Cons.IH [OF o this] show ?thesis
      by (auto simp: r push_def Some bt_update_keys)
  qed
qed simp

lemma collect_hashes_groups:
  "distinct (map fst (collect_hashes env rows))"
  "(p, hs) \<in> set (collect_hashes env rows) \<Longrightarrow> hs \<noteq> [] \<and> distinct hs"
  "fst ` set (collect_hashes env rows) \<subseteq> fst ` set rows"
  using collect_hashes_facts [of "[]" env rows]
  by (auto simp: collect_hashes_def bt_ordered_def strict_sorted_iff)

lemma groups_le_proposals: "length (collect_hashes env rows) \<le> length (remdups (map fst rows))"
proof -
  have "length (collect_hashes env rows) = card (fst ` set (collect_hashes env rows))"
    using collect_hashes_groups(1) [of env rows] by (metis distinct_card length_map set_map)
  also have "\<dots> \<le> card (fst ` set rows)"
    using collect_hashes_groups(3) by (intro card_mono) auto
  also have "\<dots> = length (remdups (map fst rows))"
    by (simp add: length_remdups_card_conv)
  finally show ?thesis .
qed

lemma varied_le_variations:
  "(\<And>p hs. (p, hs) \<in> set m \<Longrightarrow> hs \<noteq> []) \<Longrightarrow>
   count_groups (\<lambda>hs. length hs \<ge> 2) m \<le> sum_list (map (\<lambda>(_, hs). int (length hs) - 1) m)"
proof (induction m)
  case (Cons x m)
  obtain p hs where x: "x = (p, hs)" by (cases x)
  then have "hs \<noteq> []" using Cons.prems by auto
  then have "1 \<le> int (length hs)" by (cases hs) auto
  moreover have "count_groups (\<lambda>hs. length hs \<ge> 2) m \<le> sum_list (map (\<lambda>(_, hs). int (length hs) - 1) m)"
    using Cons.prems by (intro Cons.IH) auto
  moreover have "count_groups (\<lambda>hs. length hs \<ge> 2) ((p, hs) # m)
      = (if length hs \<ge> 2 then 1 else 0) + count_groups (\<lambda>hs. length hs \<ge> 2) m"
    by (simp add: count_groups_def)
  moreover have "(if length hs \<ge> 2 then 1 else 0) \<le> int (length hs) - 1"
    using \<open>hs \<noteq> []\<close> by (cases hs) auto
  ultimately show ?case
    unfolding x list.map sum_list.Cons prod.case by linarith
qed (simp add: count_groups_def)

text \<open>
  The payload metrics are consistent: proposals with a changed payload are at most the
  proposals with events and at most the counted variations, and the rate is between 0 and 1.
\<close>

theorem payload_variations_bounds:
  assumes "get_payload_hash_variations env project_id db = Inr v"
  shows "0 \<le> phv_proposals_with_variation v
    \<and> phv_proposals_with_variation v \<le> phv_total_proposals v
    \<and> phv_proposals_with_variation v \<le> phv_variations v
    \<and> 0 \<le> phv_variation_rate v \<and> phv_variation_rate v \<le> 1"
proof -
  let ?rows = "map (\<lambda>e. (re_proposal_id e, re_payload_json e))
      (filter (\<lambda>e. re_proposal_id e \<in> set (project_proposals project_id db)) (review_event_t db))"
  let ?h = "collect_hashes env ?rows"
  let ?varied = "count_groups (\<lambda>hs. length hs \<ge> 2) ?h"
  have "?varied \<le> int (length ?h)"
    by (simp add: count_groups_def)
  then have le: "?varied \<le> int (length (remdups (map fst ?rows)))"
    using groups_le_proposals [of env ?rows] by linarith
  have "?varied \<le> sum_list (map (\<lambda>(_, hs). int (length hs) - 1) ?h)"
    using collect_hashes_groups(2) by (intro varied_le_variations) blast
  with assms le count_groups_nonneg rate_bounds [OF count_groups_nonneg le] show ?thesis
    by (auto simp: get_payload_hash_variations_def validation_def Let_def split: if_splits)
qed

theorem payload_variations_bounds_witness:
  "\<exists>v. get_payload_hash_variations sample_env ''p'' (after_event sample_reject sample_head sample_db) = Inr v
     \<and> phv_proposals_with_variation v \<le> phv_total_proposals v"
proof -
  have "\<not> blank ''p''" by (simp add: blank_iff white_space_def cont_byte_def)
  then obtain v where v: "get_payload_hash_variations sample_env ''p''
      (after_event sample_reject sample_head sample_db) = Inr v"
    by (auto simp: get_payload_hash_variations_def Let_def)
  from payload_variations_bounds [OF v] v show ?thesis by blast
qed

end
