(* ===== verification/CommandChecks.thy ===== *)
theory CommandChecks
  imports Validation
begin

text \<open>
  The pure checks of \<open>store.rs\<close> that every command passes before its transaction: required
  fields, closed vocabularies, bounds. They run in the order of the source, and the first
  one that fails is the error.
\<close>

section \<open>Required fields\<close>

text \<open>
  \<open>for (field, value) in [...] { if value.trim().is_empty() { return Err(...) } }\<close>; the
  message starts with a prefix in two of the validators.
\<close>

definition fields_present :: "string \<Rightarrow> (string \<times> string) list \<Rightarrow> unit StoreResult" where
  "fields_present prefix fs =
     (case List.find (\<lambda>(_, v). blank v) fs of
        None \<Rightarrow> Inr ()
      | Some (field, _) \<Rightarrow> validation (prefix @ field @ '' must not be empty''))"

lemma fields_present_Inr_iff [result_simps]:
  "fields_present prefix fs = Inr u \<longleftrightarrow> list_all (\<lambda>(_, v). \<not> blank v) fs"
  by (induction fs) (auto simp: fields_present_def validation_def)

text \<open>A command is checked before its transaction starts.\<close>

definition checked_transaction ::
  "unit StoreResult \<Rightarrow> (Database \<Rightarrow> ('a \<times> Database) StoreResult) \<Rightarrow> Database
     \<Rightarrow> 'a StoreResult \<times> Database" where
  "checked_transaction check body db =
     (case check of Inl e \<Rightarrow> (Inl e, db) | Inr _ \<Rightarrow> run_transaction body db)"

lemma checked_transaction_Inr_iff [result_simps]:
  "checked_transaction check body db = (Inr x, db') \<longleftrightarrow> check = Inr () \<and> body db = Inr (x, db')"
  by (auto simp: checked_transaction_def result_simps split: sum.splits)

lemma checked_transaction_Inl_iff:
  "checked_transaction check body db = (Inl e, db') \<longleftrightarrow>
     db' = db \<and> (check = Inl e \<or> check = Inr () \<and> body db = Inl e)"
  by (auto simp: checked_transaction_def run_transaction_def split: sum.splits)

lemma checked_transaction_unchanged:
  "(\<And>x. r \<noteq> Inr x) \<Longrightarrow> checked_transaction check body db = (r, db') \<Longrightarrow> db' = db"
  by (cases r) (auto simp: checked_transaction_Inl_iff)

lemma validation_not_Inr [simp]: "validation m \<noteq> Inr x"
  by (simp add: validation_def)

section \<open>Projects and edits\<close>

definition validate_seed :: "ProjectSeed \<Rightarrow> unit StoreResult" where
  "validate_seed s = fields_present ''''
     [(''project_id'', seed_project_id s), (''title'', seed_title s),
      (''language'', seed_language s), (''initial_commit_id'', seed_initial_commit_id s),
      (''initial_root_hash'', seed_initial_root_hash s),
      (''main_branch_id'', seed_main_branch_id s), (''created_at'', seed_created_at s)]"

definition validate_edit :: "ApplyBlockEdit \<Rightarrow> unit StoreResult" where
  "validate_edit c = all_ok
     [require (0 \<le> abe_expected_revision c) (Validation ''expected_revision must be non-negative''),
      fields_present ''''
        [(''edit_id'', abe_edit_id c), (''commit_id'', abe_commit_id c),
         (''branch_id'', abe_branch_id c),
         (''expected_head_commit_id'', abe_expected_head_commit_id c),
         (''block_id'', abe_block_id c), (''expected_hash'', abe_expected_hash c),
         (''new_content_hash'', abe_new_content_hash c), (''new_root_hash'', abe_new_root_hash c),
         (''reason'', abe_reason c), (''actor_type'', abe_actor_type c),
         (''occurred_at'', abe_occurred_at c)],
      require (0 \<le> abe_expected_project_revision c)
        (Validation ''expected_project_revision must be non-negative'')]"

definition validate_restore :: "RestoreSnapshot \<Rightarrow> unit StoreResult" where
  "validate_restore c = fields_present ''''
     [(''snapshot_id'', rs_snapshot_id c), (''branch_id'', rs_branch_id c),
      (''new_commit_id'', rs_new_commit_id c), (''edit_id_prefix'', rs_edit_id_prefix c),
      (''actor_type'', rs_actor_type c), (''occurred_at'', rs_occurred_at c)]"

definition validate_review_candidate_branch ::
  "Env \<Rightarrow> CreateReviewCandidateBranch \<Rightarrow> unit StoreResult" where
  "validate_review_candidate_branch env c = all_ok
     [require (\<not> (crb_expected_review_revision c < 0 \<or> crb_expected_block_revision c < 0))
        (Validation ''candidate review and block revisions must be non-negative''),
      fields_present ''''
        [(''proposal_id'', crb_proposal_id c), (''project_id'', crb_project_id c),
         (''expected_project_head_commit_id'', crb_expected_project_head_commit_id c),
         (''branch_id'', crb_branch_id c), (''branch_name'', crb_branch_name c),
         (''commit_id'', crb_commit_id c), (''snapshot_id'', crb_snapshot_id c),
         (''target_document_id'', crb_target_document_id c),
         (''target_block_id'', crb_target_block_id c),
         (''expected_block_hash'', crb_expected_block_hash c),
         (''new_content_hash'', crb_new_content_hash c), (''new_root_hash'', crb_new_root_hash c),
         (''occurred_at'', crb_occurred_at c)],
      require (\<not> (trim (crb_branch_name c) \<noteq> crb_branch_name c
                  \<or> chars_count (crb_branch_name c) > 120))
        (Validation ''candidate branch name must be trimmed and at most 120 characters''),
      require (\<not> (crb_expected_block_hash c = crb_new_content_hash c
                  \<or> length (crb_new_plain_text c) > 8 * 1024 * 1024
                  \<or> length (crb_new_content_json c) > 16 * 1024 * 1024))
        (Validation ''candidate branch content is unchanged or exceeds the storage bound''),
      (case serde_from_str env (crb_new_content_json c) of
         Inl e \<Rightarrow> validation (''candidate content JSON is invalid: '' @ e)
       | Inr content \<Rightarrow>
           require (is_object content) (Validation ''candidate content JSON must be an object''))]"

section \<open>Style samples and knowledge items\<close>

definition validate_create_style_sample :: "CreateStyleSample \<Rightarrow> unit StoreResult" where
  "validate_create_style_sample c = all_ok
     [fields_present ''''
        [(''id'', css_id c), (''project_id'', css_project_id c), (''title'', css_title c),
         (''content'', css_content c), (''content_hash'', css_content_hash c),
         (''sensitivity'', css_sensitivity c), (''created_at'', css_created_at c)],
      require (css_sensitivity c \<in> set [''local_sensitive'', ''never_send''])
        (Validation ''style sample sensitivity is unsupported'')]"

definition validate_set_style_sample_status :: "SetStyleSampleStatus \<Rightarrow> unit StoreResult" where
  "validate_set_style_sample_status c = all_ok
     [require (0 \<le> sss_expected_revision c) (Validation ''expected_revision must be non-negative''),
      fields_present ''''
        [(''project_id'', sss_project_id c), (''id'', sss_id c), (''status'', sss_status c),
         (''updated_at'', sss_updated_at c)],
      require (sss_status c \<in> set [''canonical'', ''archived''])
        (Validation ''style sample status is unsupported'')]"

definition validate_create_knowledge_item :: "CreateKnowledgeItem \<Rightarrow> unit StoreResult" where
  "validate_create_knowledge_item c = all_ok
     [fields_present ''''
        [(''id'', cki_id c), (''project_id'', cki_project_id c), (''kind'', cki_kind c),
         (''title'', cki_title c), (''content'', cki_content c),
         (''content_hash'', cki_content_hash c), (''authority'', cki_authority c),
         (''sensitivity'', cki_sensitivity c), (''created_at'', cki_created_at c)],
      require (cki_kind c \<in> set [''fact'', ''constraint''])
        (Validation ''knowledge item kind is unsupported''),
      require (cki_authority c \<in> set [''user_confirmed'', ''source_derived'', ''model_inferred'',
                                       ''external_untrusted''])
        (Validation ''knowledge item authority is unsupported''),
      require (cki_sensitivity c \<in> set [''public'', ''local'', ''local_sensitive'', ''never_send''])
        (Validation ''knowledge item sensitivity is unsupported''),
      require (if cki_kind c = ''fact'' then cki_severity c = None
               else if cki_kind c = ''constraint''
               then cki_severity c \<in> set [Some ''hard'', Some ''soft'']
               else False)
        (Validation ''knowledge item severity does not match its kind'')]"

definition validate_set_knowledge_item_status :: "SetKnowledgeItemStatus \<Rightarrow> unit StoreResult" where
  "validate_set_knowledge_item_status c = all_ok
     [require (0 \<le> sks_expected_revision c) (Validation ''expected_revision must be non-negative''),
      fields_present ''''
        [(''project_id'', sks_project_id c), (''id'', sks_id c), (''status'', sks_status c),
         (''updated_at'', sks_updated_at c)],
      require (sks_status c \<in> set [''canonical'', ''archived'', ''rejected''])
        (Validation ''knowledge item status is unsupported'')]"

section \<open>Summaries\<close>

definition summary_scope_types :: "string list" where
  "summary_scope_types = [''block'', ''document'', ''project'']"

definition validate_put_summary_record :: "PutSummaryRecord \<Rightarrow> unit StoreResult" where
  "validate_put_summary_record c = all_ok
     [fields_present ''summary ''
        [(''project_id'', put_project_id c), (''scope_type'', put_scope_type c),
         (''scope_id'', put_scope_id c),
         (''expected_source_commit_id'', put_expected_source_commit_id c),
         (''source_hash'', put_source_hash c), (''summary'', put_summary c),
         (''summary_hash'', put_summary_hash c), (''provider_id'', put_provider_id c),
         (''model'', put_model c), (''generated_at'', put_generated_at c)],
      require (put_scope_type c \<in> set summary_scope_types)
        (Validation ''summary scope type is unsupported''),
      require (\<not> length (put_summary c) > 2 * 1024 * 1024) (Validation ''summary text exceeds 2 MiB'')]"

definition validate_summary_scope_reference :: "string \<Rightarrow> string \<Rightarrow> string \<Rightarrow> unit StoreResult" where
  "validate_summary_scope_reference project_id scope_type scope_id = all_ok
     [require (\<not> (blank project_id \<or> blank scope_id))
        (Validation ''project id and summary scope id are required''),
      require (scope_type \<in> set summary_scope_types) (Validation ''summary scope type is unsupported''),
      require (\<not> (scope_type = ''project'' \<and> project_id \<noteq> scope_id))
        (Validation ''project summary scope must use the project id'')]"

section \<open>Documents\<close>

definition validate_create_document :: "CreateDocumentWithBlock \<Rightarrow> unit StoreResult" where
  "validate_create_document c = all_ok
     [fields_present ''''
        [(''document_id'', cdb_document_id c), (''document_kind'', cdb_document_kind c),
         (''document_title'', cdb_document_title c),
         (''document_order_key'', cdb_document_order_key c), (''block_id'', cdb_block_id c),
         (''block_kind'', cdb_block_kind c), (''block_order_key'', cdb_block_order_key c),
         (''block_content_json'', cdb_block_content_json c),
         (''block_content_hash'', cdb_block_content_hash c), (''commit_id'', cdb_commit_id c),
         (''branch_id'', cdb_branch_id c),
         (''expected_head_commit_id'', cdb_expected_head_commit_id c),
         (''new_root_hash'', cdb_new_root_hash c), (''actor_type'', cdb_actor_type c),
         (''occurred_at'', cdb_occurred_at c)],
      require (0 \<le> cdb_expected_project_revision c)
        (Validation ''expected_project_revision must be non-negative'')]"

definition document_batch_reasons :: "string list" where
  "document_batch_reasons =
     [''document_rename'', ''document_reorder'', ''document_reparent'', ''document_archive'',
      ''document_restore'']"

definition document_operations :: "string list" where
  "document_operations = [''rename'', ''reorder'', ''reparent'', ''archive'', ''restore'']"

text \<open>The loop over the mutations threads the set of identifiers seen so far.\<close>

definition validate_mutation :: "DocumentMutation \<Rightarrow> string list \<Rightarrow> string list StoreResult" where
  "validate_mutation m ids =
     rbind (all_ok
       [require (0 \<le> mut_expected_revision m)
          (Validation ''document expected_revision must be non-negative''),
        fields_present ''document mutation ''
          [(''document_id'', mut_document_id m), (''kind'', mut_kind m), (''title'', mut_title m),
           (''order_key'', mut_order_key m), (''before_hash'', mut_before_hash m),
           (''after_hash'', mut_after_hash m), (''operation'', mut_operation m)],
        require (mut_document_id m \<notin> set ids) (Validation ''document mutation IDs must be unique''),
        require (mut_operation m \<in> set document_operations)
          (Validation ''document mutation operation is unsupported''),
        require (mut_before_hash m \<noteq> mut_after_hash m)
          (Validation ''document mutation must change its state hash'')])
     (\<lambda>_. Inr (mut_document_id m # ids))"

definition validate_document_batch :: "ApplyDocumentBatch \<Rightarrow> unit StoreResult" where
  "validate_document_batch c = all_ok
     [require (\<not> (adb_mutations c = [] \<or> length (adb_mutations c) > 1000))
        (Validation ''document mutations must contain 1 to 1000 items''),
      require (0 \<le> adb_expected_project_revision c)
        (Validation ''expected_project_revision must be non-negative''),
      fields_present ''''
        [(''commit_id'', adb_commit_id c), (''branch_id'', adb_branch_id c),
         (''expected_head_commit_id'', adb_expected_head_commit_id c),
         (''new_root_hash'', adb_new_root_hash c), (''reason'', adb_reason c),
         (''actor_type'', adb_actor_type c), (''occurred_at'', adb_occurred_at c)],
      require (adb_reason c \<in> set document_batch_reasons)
        (Validation ''document mutation reason is unsupported''),
      rbind (foldM validate_mutation (adb_mutations c) []) (\<lambda>_. Inr ())]"

lemma validate_mutation_ids:
  "validate_mutation m ids = Inr ids' \<Longrightarrow> mut_document_id m \<notin> set ids \<and> ids' = mut_document_id m # ids"
  by (auto simp: validate_mutation_def result_simps)

lemma validate_mutations_ids:
  "foldM validate_mutation ms ids = Inr ids' \<Longrightarrow>
   distinct ids \<Longrightarrow> distinct (rev (map mut_document_id ms) @ ids) \<and> ids' = rev (map mut_document_id ms) @ ids"
proof (induction ms arbitrary: ids)
  case (Cons m ms)
  then obtain ids1 where "validate_mutation m ids = Inr ids1"
    and "foldM validate_mutation ms ids1 = Inr ids'"
    by (auto simp: result_simps)
  then have fresh: "mut_document_id m \<notin> set ids"
    and rest: "foldM validate_mutation ms (mut_document_id m # ids) = Inr ids'"
    using validate_mutation_ids by auto
  from Cons.IH [OF rest] fresh Cons.prems(2) show ?case by simp
qed simp

lemma validate_document_batch_distinct:
  "validate_document_batch c = Inr u \<Longrightarrow> distinct (map mut_document_id (adb_mutations c))"
  using validate_mutations_ids [of "adb_mutations c" "[]"]
  by (auto simp: validate_document_batch_def result_simps)

end
