(* ===== verification/SnapshotCodec.thy ===== *)
theory SnapshotCodec
  imports CommandChecks
begin

text \<open>
  Project snapshots, \<open>snapshot.rs\<close>: the structures, the checked encoding to compressed JSON
  with a checksum, its decoding, and the conversion to the export format. The JSON writer
  and reader of the derived types, zstd and SHA-256 are library code: parameters.
\<close>

section \<open>Structures\<close>

record SnapshotProject =
  sp_id :: string
  sp_title :: string
  sp_language :: string

record SnapshotCommit =
  sc_id :: string
  sc_root_hash :: string

record SnapshotBranch =
  sbr_id :: string
  sbr_name :: string
  sbr_head_commit_id :: string

record SnapshotDocument =
  sdoc_id :: string
  sdoc_parent_id :: "string option"
  sdoc_kind :: string
  sdoc_title :: string
  sdoc_order_key :: string
  sdoc_revision :: int

record SnapshotBlock =
  sblk_id :: string
  sblk_document_id :: string
  sblk_kind :: string
  sblk_order_key :: string
  sblk_content_json :: string
  sblk_plain_text :: string
  sblk_content_hash :: string
  sblk_revision :: int
  sblk_locked :: bool

record ProjectSnapshotV1 =
  ps_schema_version :: nat
  ps_project :: SnapshotProject
  ps_commit :: SnapshotCommit
  ps_branches :: "SnapshotBranch list"
  ps_documents :: "SnapshotDocument list"
  ps_blocks :: "SnapshotBlock list"

record ExportSnapshotBlock =
  esb_id :: string
  esb_document_id :: string
  esb_kind :: string
  esb_order_key :: string
  esb_content_json :: json
  esb_plain_text :: string
  esb_content_hash :: string
  esb_revision :: int
  esb_locked :: bool

record ExportProjectSnapshot =
  eps_schema_version :: nat
  eps_project :: SnapshotProject
  eps_commit :: SnapshotCommit
  eps_branches :: "SnapshotBranch list"
  eps_documents :: "SnapshotDocument list"
  eps_blocks :: "ExportSnapshotBlock list"

record EncodedSnapshot =
  es_payload :: bytes
  es_checksum :: string

datatype SnapshotCodecError =
  InvalidDescriptor string
| PayloadTooLarge nat nat
| ChecksumMismatch
| Compression string
| Json string

fun snapshot_error_display :: "SnapshotCodecError \<Rightarrow> string" where
  "snapshot_error_display (InvalidDescriptor m) = ''invalid descriptor: '' @ m"
| "snapshot_error_display (PayloadTooLarge a m) =
     ''snapshot payload is '' @ show_nat a @ '' bytes; maximum is '' @ show_nat m"
| "snapshot_error_display ChecksumMismatch = ''snapshot checksum does not match payload''"
| "snapshot_error_display (Compression e) = ''zstd error: '' @ e"
| "snapshot_error_display (Json e) = ''JSON error: '' @ e"

section \<open>The libraries behind the codec\<close>

text \<open>
  \<open>json_to_vec\<close> and \<open>json_from_slice\<close> are \<open>serde_json\<close> on \<open>ProjectSnapshotV1\<close>,
  \<open>json_to_string\<close> is \<open>serde_json\<close> on a JSON value, \<open>zstd_encode\<close> is \<open>encode_all\<close>,
  \<open>zstd_read n\<close> creates a decoder and reads at most \<open>n\<close> bytes from it, and \<open>sha256_hex\<close>
  is the hexadecimal digest.
\<close>

record Codec =
  json_to_vec :: "ProjectSnapshotV1 \<Rightarrow> string + bytes"
  json_from_slice :: "bytes \<Rightarrow> string + ProjectSnapshotV1"
  json_to_string :: "json \<Rightarrow> string + string"
  zstd_encode :: "bytes \<Rightarrow> string + bytes"
  zstd_read :: "nat \<Rightarrow> bytes \<Rightarrow> string + bytes"
  sha256_hex :: "bytes \<Rightarrow> string"

text \<open>What they promise: reading back what was written.\<close>

definition codec_laws :: "Codec \<Rightarrow> bool" where
  "codec_laws cdc \<longleftrightarrow>
     (\<forall>s j. json_to_vec cdc s = Inr j \<longrightarrow> json_from_slice cdc j = Inr s)
     \<and> (\<forall>j p n. zstd_encode cdc j = Inr p \<longrightarrow> zstd_read cdc n p = Inr (take n j))"

section \<open>The codec\<close>

definition SNAPSHOT_CODEC :: string where
  "SNAPSHOT_CODEC = ''optimizer-json+zstd''"

definition SNAPSHOT_CODEC_VERSION :: int where
  "SNAPSHOT_CODEC_VERSION = 1"

definition SNAPSHOT_SCHEMA_VERSION :: nat where
  "SNAPSHOT_SCHEMA_VERSION = 1"

definition MAX_COMPRESSED_BYTES :: nat where
  "MAX_COMPRESSED_BYTES = 64 * 1024 * 1024"

definition MAX_DECOMPRESSED_BYTES :: nat where
  "MAX_DECOMPRESSED_BYTES = 256 * 1024 * 1024"

text \<open>\<open>windows(2).any(|pair| pair[0].id >= pair[1].id)\<close>.\<close>

fun any_descent :: "string list \<Rightarrow> bool" where
  "any_descent (x # y # zs) = (x \<ge> y \<or> any_descent (y # zs))"
| "any_descent _ = False"

definition descriptor_fields :: "(string \<times> string) list \<Rightarrow> SnapshotCodecError + unit" where
  "descriptor_fields fs =
     (case List.find (\<lambda>(_, v). blank v) fs of
        None \<Rightarrow> Inr ()
      | Some (field, _) \<Rightarrow> Inl (InvalidDescriptor (field @ '' must not be empty'')))"

definition validate_snapshot :: "ProjectSnapshotV1 \<Rightarrow> SnapshotCodecError + unit" where
  "validate_snapshot s = all_ok
     [require (ps_schema_version s = SNAPSHOT_SCHEMA_VERSION)
        (InvalidDescriptor (''schema version '' @ show_nat (ps_schema_version s) @ '' is unsupported'')),
      descriptor_fields
              [(''project.id'', sp_id (ps_project s)), (''project.title'', sp_title (ps_project s)),
               (''project.language'', sp_language (ps_project s)), (''commit.id'', sc_id (ps_commit s)),
               (''commit.rootHash'', sc_root_hash (ps_commit s))],
      require (\<not> any_descent (map sdoc_id (ps_documents s)))
        (InvalidDescriptor ''documents must be strictly ordered by id''),
      require (\<not> any_descent (map sblk_id (ps_blocks s)))
        (InvalidDescriptor ''blocks must be strictly ordered by id'')]"

definition checksum :: "Codec \<Rightarrow> bytes \<Rightarrow> string" where
  "checksum cdc payload = ''sha256:'' @ sha256_hex cdc payload"

definition encode_snapshot :: "Codec \<Rightarrow> ProjectSnapshotV1 \<Rightarrow> SnapshotCodecError + EncodedSnapshot" where
  "encode_snapshot cdc s =
     rbind (validate_snapshot s) (\<lambda>_.
     rbind (map_sum Json id (json_to_vec cdc s)) (\<lambda>json.
     rbind (map_sum Compression id (zstd_encode cdc json)) (\<lambda>payload.
     if length payload > MAX_COMPRESSED_BYTES
     then Inl (PayloadTooLarge (length payload) MAX_COMPRESSED_BYTES)
     else Inr \<lparr>es_payload = payload, es_checksum = checksum cdc payload\<rparr>)))"

definition decode_snapshot :: "Codec \<Rightarrow> bytes \<Rightarrow> string \<Rightarrow> SnapshotCodecError + ProjectSnapshotV1" where
  "decode_snapshot cdc payload expected_checksum =
     (if length payload > MAX_COMPRESSED_BYTES
      then Inl (PayloadTooLarge (length payload) MAX_COMPRESSED_BYTES)
      else if checksum cdc payload \<noteq> expected_checksum then Inl ChecksumMismatch
      else
        rbind (map_sum Compression id (zstd_read cdc (MAX_DECOMPRESSED_BYTES + 1) payload)) (\<lambda>json.
        if length json > MAX_DECOMPRESSED_BYTES
        then Inl (PayloadTooLarge (length json) MAX_DECOMPRESSED_BYTES)
        else
          rbind (map_sum Json id (json_from_slice cdc json)) (\<lambda>s.
          rbind (validate_snapshot s) (\<lambda>_. Inr s))))"

section \<open>The export format\<close>

definition export_block :: "Env \<Rightarrow> SnapshotBlock \<Rightarrow> ExportSnapshotBlock" where
  "export_block env b =
     \<lparr>esb_id = sblk_id b, esb_document_id = sblk_document_id b, esb_kind = sblk_kind b,
      esb_order_key = sblk_order_key b,
      esb_content_json = (case serde_from_str env (sblk_content_json b) of
                            Inr v \<Rightarrow> v | Inl _ \<Rightarrow> JString (sblk_content_json b)),
      esb_plain_text = sblk_plain_text b, esb_content_hash = sblk_content_hash b,
      esb_revision = sblk_revision b, esb_locked = sblk_locked b\<rparr>"

definition to_export :: "Env \<Rightarrow> ProjectSnapshotV1 \<Rightarrow> ExportProjectSnapshot" where
  "to_export env s =
     \<lparr>eps_schema_version = ps_schema_version s, eps_project = ps_project s,
      eps_commit = ps_commit s, eps_branches = ps_branches s, eps_documents = ps_documents s,
      eps_blocks = map (export_block env) (ps_blocks s)\<rparr>"

definition import_block :: "Codec \<Rightarrow> ExportSnapshotBlock \<Rightarrow> SnapshotBlock" where
  "import_block cdc b =
     \<lparr>sblk_id = esb_id b, sblk_document_id = esb_document_id b, sblk_kind = esb_kind b,
      sblk_order_key = esb_order_key b,
      sblk_content_json = (case json_as_str (esb_content_json b) of
                             Some s \<Rightarrow> s
                           | None \<Rightarrow> (case json_to_string cdc (esb_content_json b) of
                                        Inr s \<Rightarrow> s | Inl _ \<Rightarrow> [])),
      sblk_plain_text = esb_plain_text b, sblk_content_hash = esb_content_hash b,
      sblk_revision = esb_revision b, sblk_locked = esb_locked b\<rparr>"

definition to_snapshot :: "Codec \<Rightarrow> ExportProjectSnapshot \<Rightarrow> ProjectSnapshotV1" where
  "to_snapshot cdc e =
     \<lparr>ps_schema_version = eps_schema_version e, ps_project = eps_project e,
      ps_commit = eps_commit e, ps_branches = eps_branches e, ps_documents = eps_documents e,
      ps_blocks = map (import_block cdc) (eps_blocks e)\<rparr>"

section \<open>Lemmas\<close>

lemma any_descent_iff: "\<not> any_descent xs \<longleftrightarrow> sorted_wrt (<) xs"
  by (induction xs rule: any_descent.induct) (fastforce simp: not_le intro: less_trans)+

lemma map_sum_id_Inr_iff [result_simps]: "map_sum f id r = Inr x \<longleftrightarrow> r = Inr x"
  by (cases r) auto

lemma descriptor_fields_Inr_iff [result_simps]:
  "descriptor_fields fs = Inr u \<longleftrightarrow> list_all (\<lambda>(_, v). \<not> blank v) fs"
  by (induction fs) (auto simp: descriptor_fields_def)

lemma map_same_iff: "map f xs = xs \<longleftrightarrow> (\<forall>x \<in> set xs. f x = x)"
  by (induction xs) auto

lemma validate_snapshot_iff:
  "validate_snapshot s = Inr () \<longleftrightarrow>
     ps_schema_version s = SNAPSHOT_SCHEMA_VERSION
     \<and> \<not> blank (sp_id (ps_project s)) \<and> \<not> blank (sp_title (ps_project s))
     \<and> \<not> blank (sp_language (ps_project s)) \<and> \<not> blank (sc_id (ps_commit s))
     \<and> \<not> blank (sc_root_hash (ps_commit s))
     \<and> sorted_wrt (<) (map sdoc_id (ps_documents s))
     \<and> sorted_wrt (<) (map sblk_id (ps_blocks s))"
  by (simp add: validate_snapshot_def result_simps any_descent_iff)

section \<open>Properties\<close>

text \<open>
  C17. A snapshot that was encoded is decoded to itself, checksum included, as long as its JSON
  has at most 256 MiB. Above that bound the encoder still succeeds and what it wrote can
  never be read again.
\<close>

theorem snapshot_round_trip:
  assumes "codec_laws cdc" and "encode_snapshot cdc s = Inr e" and "json_to_vec cdc s = Inr json"
  shows "decode_snapshot cdc (es_payload e) (es_checksum e) =
    (if length json \<le> 256 * 1024 * 1024 then Inr s
     else Inl (PayloadTooLarge (256 * 1024 * 1024 + 1) (256 * 1024 * 1024)))"
proof -
  from assms(2,3) obtain payload where valid: "validate_snapshot s = Inr ()"
    and enc: "zstd_encode cdc json = Inr payload" "length payload \<le> MAX_COMPRESSED_BYTES"
      "e = \<lparr>es_payload = payload, es_checksum = checksum cdc payload\<rparr>"
    by (auto simp: encode_snapshot_def result_simps split: if_splits)
  have reads: "zstd_read cdc n payload = Inr (take n json)" for n
    using assms(1) enc(1) by (simp add: codec_laws_def)
  have parse: "json_from_slice cdc json = Inr s"
    using assms(1,3) by (simp add: codec_laws_def)
  show ?thesis
    using enc(2,3) valid reads parse
    by (auto simp: decode_snapshot_def MAX_DECOMPRESSED_BYTES_def)
qed


text \<open>
  C30. Exporting a snapshot and importing it again gives the same snapshot exactly when the
  content of every block survives: content that is no JSON does, content that is the
  printed form of a JSON value other than a string does, and a JSON string does only if it
  denotes its own text. In particular a block whose content is a quoted JSON string loses
  its quotes.
\<close>

theorem export_import_iff:
  "to_snapshot cdc (to_export env s) = s \<longleftrightarrow>
    (\<forall>b \<in> set (ps_blocks s). case serde_from_str env (sblk_content_json b) of
       Inl _ \<Rightarrow> True
     | Inr (JString t) \<Rightarrow> t = sblk_content_json b
     | Inr v \<Rightarrow> (case json_to_string cdc v of Inr t \<Rightarrow> t | Inl _ \<Rightarrow> []) = sblk_content_json b)"
proof -
  have block: "import_block cdc (export_block env b) = b \<longleftrightarrow>
      (case serde_from_str env (sblk_content_json b) of
       Inl _ \<Rightarrow> True
     | Inr (JString t) \<Rightarrow> t = sblk_content_json b
     | Inr v \<Rightarrow> (case json_to_string cdc v of Inr t \<Rightarrow> t | Inl _ \<Rightarrow> []) = sblk_content_json b)" for b
    by (cases b) (auto simp: import_block_def export_block_def split: sum.splits json.splits)
  have "to_snapshot cdc (to_export env s) = s \<longleftrightarrow>
      map (import_block cdc \<circ> export_block env) (ps_blocks s) = ps_blocks s"
    by (cases s) (simp add: to_snapshot_def to_export_def)
  also have "\<dots> \<longleftrightarrow> (\<forall>b \<in> set (ps_blocks s). import_block cdc (export_block env b) = b)"
    by (simp add: map_same_iff)
  finally show ?thesis by (simp add: block)
qed

section \<open>Samples\<close>

definition sample_snapshot :: ProjectSnapshotV1 where
  "sample_snapshot =
     \<lparr>ps_schema_version = 1, ps_project = \<lparr>sp_id = ''p'', sp_title = ''t'', sp_language = ''l''\<rparr>,
      ps_commit = \<lparr>sc_id = ''c'', sc_root_hash = ''h''\<rparr>, ps_branches = [], ps_documents = [],
      ps_blocks = []\<rparr>"

definition sample_codec :: Codec where
  "sample_codec =
     \<lparr>json_to_vec = (\<lambda>s. if s = sample_snapshot then Inr ''j'' else Inl ''e''),
      json_from_slice = (\<lambda>j. if j = ''j'' then Inr sample_snapshot else Inl ''e''),
      json_to_string = (\<lambda>_. Inl ''e''), zstd_encode = Inr, zstd_read = (\<lambda>n p. Inr (take n p)),
      sha256_hex = (\<lambda>_. ''0'')\<rparr>"

lemma sample_codec_laws: "codec_laws sample_codec"
  by (simp add: codec_laws_def sample_codec_def)

lemma sample_snapshot_valid: "validate_snapshot sample_snapshot = Inr ()"
  by (simp add: validate_snapshot_iff sample_snapshot_def SNAPSHOT_SCHEMA_VERSION_def
      blank_iff white_space_def cont_byte_def)

lemma sample_encoded:
  "encode_snapshot sample_codec sample_snapshot = Inr \<lparr>es_payload = ''j'', es_checksum = ''sha256:0''\<rparr>"
  using sample_snapshot_valid
  by (simp add: encode_snapshot_def sample_codec_def checksum_def MAX_COMPRESSED_BYTES_def)

theorem snapshot_round_trip_witness:
  "decode_snapshot sample_codec ''j'' ''sha256:0'' = Inr sample_snapshot"
  using snapshot_round_trip [OF sample_codec_laws sample_encoded, of "''j''"]
  by (simp add: sample_codec_def)


text \<open>A block whose content is the quoted string \<open>a\<close> comes back without its quotes.\<close>

definition sample_block :: SnapshotBlock where
  "sample_block =
     \<lparr>sblk_id = ''b'', sblk_document_id = ''d'', sblk_kind = ''k'', sblk_order_key = ''o'',
      sblk_content_json = [CHR 34, CHR ''a'', CHR 34], sblk_plain_text = ''a'',
      sblk_content_hash = ''h'', sblk_revision = 0, sblk_locked = False\<rparr>"

definition quoting_env :: Env where
  "quoting_env = \<lparr>serde_from_str = (\<lambda>_. Inr (JString ''a'')), sqlite_json = (\<lambda>_. Some (JString ''a'')), sqlite_json_extract = (\<lambda>_ _. SqlNull),
     sqlite_json_array_length = (\<lambda>_. Inr SqlNull)\<rparr>"

theorem export_import_iff_witness:
  "to_snapshot sample_codec (to_export quoting_env (sample_snapshot\<lparr>ps_blocks := [sample_block]\<rparr>))
     \<noteq> sample_snapshot\<lparr>ps_blocks := [sample_block]\<rparr>"
  by (subst export_import_iff) (simp add: sample_block_def quoting_env_def)

end
