(* ===== verification/TextDiff.thy ===== *)
theory TextDiff
  imports Prelude
begin

text \<open>
  The character-level diff of \<open>crates/optimizer-store/src/snapshot.rs\<close>: the Myers
  O(ND) search over a flat array of furthest-reaching points, the backtracking over the
  recorded trace, the coalescing of single-character operations, and the guard that
  replaces oversized texts as a whole.

  Texts are lists of characters. Array reads and writes out of range are panics, so every
  function that indexes returns an \<open>option\<close> with \<open>None\<close> for the panic, and the theorems
  show that it never happens.
\<close>

section \<open>The code\<close>

datatype TextDiffOp = Equal string | Delete string | Insert string

text \<open>
  Rust indexes with \<open>usize\<close>. A negative \<open>i64\<close> cast to \<open>usize\<close> is larger than any
  length, so an index is in range exactly when it is in range as an integer.
\<close>

definition vget :: "'a list \<Rightarrow> int \<Rightarrow> 'a option" where
  "vget v i = (if 0 \<le> i \<and> i < int (length v) then Some (v ! nat i) else None)"

definition vset :: "'a list \<Rightarrow> int \<Rightarrow> 'a \<Rightarrow> 'a list option" where
  "vset v i x = (if 0 \<le> i \<and> i < int (length v) then Some (v[nat i := x]) else None)"

definition usize_lt :: "int \<Rightarrow> nat \<Rightarrow> bool" where
  "usize_lt x n \<longleftrightarrow> 0 \<le> x \<and> x < int n"

text \<open>The inner \<open>while\<close> of the search: follow the diagonal while characters agree.\<close>

function snake :: "'c list \<Rightarrow> 'c list \<Rightarrow> int \<Rightarrow> int \<Rightarrow> int \<times> int" where
  "snake a b x y =
     (if usize_lt x (length a) \<and> usize_lt y (length b) \<and> a ! nat x = b ! nat y
      then snake a b (x + 1) (y + 1) else (x, y))"
  by pat_completeness auto
termination
  by (relation "measure (\<lambda>(a, b, x, y). nat (int (length a) - x))") (auto simp: usize_lt_def)

declare snake.simps [simp del]

text \<open>Where the point on diagonal \<open>k\<close> comes from in round \<open>d\<close>.\<close>

definition forward_x :: "int list \<Rightarrow> int \<Rightarrow> int \<Rightarrow> int \<Rightarrow> int option" where
  "forward_x v offset d k =
     (if k = - d then vget v (k + 1 + offset)
      else if k = d then map_option (\<lambda>x. x + 1) (vget v (k - 1 + offset))
      else Option.bind (vget v (k - 1 + offset)) (\<lambda>l.
           Option.bind (vget v (k + 1 + offset)) (\<lambda>r.
             if l < r then Some r else Some (l + 1))))"

text \<open>\<open>(-d..=d).step_by(2)\<close>.\<close>

definition diagonals :: "int \<Rightarrow> int list" where
  "diagonals d = map (\<lambda>i. - d + 2 * int i) [0..<nat d + 1]"

fun k_loop :: "'c list \<Rightarrow> 'c list \<Rightarrow> int \<Rightarrow> int \<Rightarrow> int list \<Rightarrow> int list \<Rightarrow> (bool \<times> int list) option"
  where
  "k_loop a b offset d [] v = Some (False, v)"
| "k_loop a b offset d (k # ks) v =
     Option.bind (forward_x v offset d k) (\<lambda>x0.
       let (x, y) = snake a b x0 (x0 - k) in
       Option.bind (vset v (k + offset) x) (\<lambda>v'.
         if \<not> usize_lt x (length a) \<and> \<not> usize_lt y (length b) then Some (True, v')
         else k_loop a b offset d ks v'))"

fun d_loop :: "'c list \<Rightarrow> 'c list \<Rightarrow> int \<Rightarrow> nat list \<Rightarrow> int list \<Rightarrow> int list list \<Rightarrow>
    (nat option \<times> int list list) option" where
  "d_loop a b offset [] v trace = Some (None, trace)"
| "d_loop a b offset (d # ds) v trace =
     (let trace' = trace @ [v] in
      Option.bind (k_loop a b offset (int d) (diagonals (int d)) v) (\<lambda>(reached, v').
        if reached then Some (Some d, trace') else d_loop a b offset ds v' trace'))"

text \<open>The choice of the predecessor diagonal while backtracking through round \<open>d\<close>.\<close>

definition back_k :: "int list \<Rightarrow> int \<Rightarrow> int \<Rightarrow> int \<Rightarrow> int option" where
  "back_k v offset d k =
     (if k = - d then Some (k + 1)
      else if k = d then Some (k - 1)
      else Option.bind (vget v (k - 1 + offset)) (\<lambda>l.
           Option.bind (vget v (k + 1 + offset)) (\<lambda>r.
             if l < r then Some (k + 1) else Some (k - 1))))"

function back_diag :: "string list \<Rightarrow> int \<Rightarrow> int \<Rightarrow> int \<Rightarrow> int \<Rightarrow> TextDiffOp list \<Rightarrow>
    (int \<times> int \<times> TextDiffOp list) option" where
  "back_diag a px py x y ops =
     (if x > px \<and> y > py
      then Option.bind (vget a (x - 1)) (\<lambda>c. back_diag a px py (x - 1) (y - 1) (ops @ [Equal c]))
      else Some (x, y, ops))"
  by pat_completeness auto
termination
  by (relation "measure (\<lambda>(a, px, py, x, y, ops). nat (x - px))") auto

declare back_diag.simps [simp del]

definition back_step :: "string list \<Rightarrow> string list \<Rightarrow> int \<Rightarrow> int list list \<Rightarrow> nat \<Rightarrow>
    int \<times> int \<times> TextDiffOp list \<Rightarrow> (int \<times> int \<times> TextDiffOp list) option" where
  "back_step a b offset trace d st =
     (let (x, y, ops) = st in
      Option.bind (vget trace (int d)) (\<lambda>prev_v.
      let k = x - y in
      Option.bind (back_k prev_v offset (int d) k) (\<lambda>prev_k.
      Option.bind (vget prev_v (prev_k + offset)) (\<lambda>prev_x.
      let prev_y = prev_x - prev_k in
      Option.bind (back_diag a prev_x prev_y x y ops) (\<lambda>(x, y, ops).
        if x > prev_x
        then Option.bind (vget a (x - 1)) (\<lambda>c. Some (x - 1, y, ops @ [Delete c]))
        else if y > prev_y
        then Option.bind (vget b (y - 1)) (\<lambda>c. Some (x, y - 1, ops @ [Insert c]))
        else Some (x, y, ops))))))"

text \<open>\<open>for d in (1..=d_final).rev()\<close>.\<close>

fun backtrack :: "string list \<Rightarrow> string list \<Rightarrow> int \<Rightarrow> int list list \<Rightarrow> nat \<Rightarrow>
    int \<times> int \<times> TextDiffOp list \<Rightarrow> (int \<times> int \<times> TextDiffOp list) option" where
  "backtrack a b offset trace 0 st = Some st"
| "backtrack a b offset trace (Suc d) st =
     Option.bind (back_step a b offset trace (Suc d) st) (backtrack a b offset trace d)"

text \<open>\<open>coalesce_text_ops\<close>: append to the last operation when it is of the same kind.\<close>

fun coalesce_step :: "TextDiffOp list \<Rightarrow> TextDiffOp \<Rightarrow> TextDiffOp list" where
  "coalesce_step acc op =
     (if acc = [] then [op]
      else (case (op, last acc) of
              (Equal s, Equal t) \<Rightarrow> butlast acc @ [Equal (t @ s)]
            | (Delete s, Delete t) \<Rightarrow> butlast acc @ [Delete (t @ s)]
            | (Insert s, Insert t) \<Rightarrow> butlast acc @ [Insert (t @ s)]
            | _ \<Rightarrow> acc @ [op]))"

definition coalesce_text_ops :: "TextDiffOp list \<Rightarrow> TextDiffOp list" where
  "coalesce_text_ops ops = foldl coalesce_step [] ops"

text \<open>
  \<open>myers_diff\<close> on the character lists. The outer option is the panic, the sum is the
  \<open>Result\<close> of the source (its error is the failed search).
\<close>

definition myers_ops :: "string list \<Rightarrow> string list \<Rightarrow> (string + TextDiffOp list) option" where
  "myers_ops a b =
     (let mx = length a + length b; offset = int mx; v = replicate (2 * mx + 1) (0 :: int) in
      Option.bind (d_loop a b offset [0..<mx + 1] v []) (\<lambda>(found_d, trace).
        case found_d of
          None \<Rightarrow> Some (Inl ''Myers diff failed to find a path'')
        | Some d_final \<Rightarrow>
            Option.bind (backtrack a b offset trace d_final (int (length a), int (length b), []))
              (\<lambda>(x, y, ops). Option.bind (back_diag a 0 0 x y ops)
                (\<lambda>(x, y, ops). Some (Inr (rev ops))))))"

definition myers_diff :: "string \<Rightarrow> string \<Rightarrow> (string + TextDiffOp list) option" where
  "myers_diff s t =
     (let a = utf8_chars s; b = utf8_chars t in
      if a = [] \<and> b = [] then Some (Inr [])
      else if a = [] then Some (Inr [Insert (concat b)])
      else if b = [] then Some (Inr [Delete (concat a)])
      else map_option (map_sum id coalesce_text_ops) (myers_ops a b))"

definition replace_block_texts :: "string \<Rightarrow> string \<Rightarrow> TextDiffOp list" where
  "replace_block_texts a b =
     (if a \<noteq> [] then [Delete a] else []) @ (if b \<noteq> [] then [Insert b] else [])"

definition diff_block_texts :: "string \<Rightarrow> string \<Rightarrow> TextDiffOp list option" where
  "diff_block_texts a b =
     (if chars_count a > 1048576 \<or> chars_count b > 1048576
      then Some (replace_block_texts a b)
      else map_option (\<lambda>r. case r of Inr ops \<Rightarrow> ops | Inl _ \<Rightarrow> replace_block_texts a b)
             (myers_diff a b))"

section \<open>The furthest-reaching points\<close>

text \<open>
  The specification of the search: \<open>furthest a b d k\<close> is the abscissa reached on diagonal
  \<open>k\<close> in round \<open>d\<close>, as a recursion over the rounds and without an array. \<open>pick\<close> is the
  choice between inserting (from diagonal \<open>k + 1\<close>) and deleting (from \<open>k - 1\<close>).
\<close>

definition pick :: "(int \<Rightarrow> int) \<Rightarrow> nat \<Rightarrow> int \<Rightarrow> int" where
  "pick f d k =
     (if k = - int d then f (k + 1)
      else if k = int d then f (k - 1) + 1
      else if f (k - 1) < f (k + 1) then f (k + 1) else f (k - 1) + 1)"

primrec furthest :: "'c list \<Rightarrow> 'c list \<Rightarrow> nat \<Rightarrow> int \<Rightarrow> int" where
  "furthest a b 0 = (\<lambda>k. fst (snake a b 0 (- k)))"
| "furthest a b (Suc d) =
     (\<lambda>k. let x0 = pick (furthest a b d) (Suc d) k in fst (snake a b x0 (x0 - k)))"

definition start_x :: "'c list \<Rightarrow> 'c list \<Rightarrow> nat \<Rightarrow> int \<Rightarrow> int" where
  "start_x a b d k = (case d of 0 \<Rightarrow> 0 | Suc e \<Rightarrow> pick (furthest a b e) d k)"

definition on_diag :: "nat \<Rightarrow> int \<Rightarrow> bool" where
  "on_diag d k \<longleftrightarrow> \<bar>k\<bar> \<le> int d \<and> even (int d + k)"

definition hit :: "'c list \<Rightarrow> 'c list \<Rightarrow> nat \<Rightarrow> int \<Rightarrow> bool" where
  "hit a b d k \<longleftrightarrow> on_diag d k \<and> int (length a) \<le> furthest a b d k
     \<and> int (length b) \<le> furthest a b d k - k"

lemma furthest_start:
  "furthest a b d k = fst (snake a b (start_x a b d k) (start_x a b d k - k))"
  by (cases d) (simp_all add: start_x_def Let_def)

subsection \<open>Diagonals and the snake\<close>

abbreviation agree :: "'c list \<Rightarrow> 'c list \<Rightarrow> int \<Rightarrow> int \<Rightarrow> bool" where
  "agree a b x y \<equiv> usize_lt x (length a) \<and> usize_lt y (length b) \<and> a ! nat x = b ! nat y"

lemma snake_step: "agree a b x y \<Longrightarrow> snake a b x y = snake a b (x + 1) (y + 1)"
  by (subst snake.simps) simp

lemma snake_done: "\<not> agree a b x y \<Longrightarrow> snake a b x y = (x, y)"
  by (subst snake.simps) (rule if_not_P)

lemma snake_diag: "snd (snake a b x y) = fst (snake a b x y) - (x - y)"
proof (induction a b x y rule: snake.induct)
  case (1 a b x y)
  then show ?case
    by (cases "agree a b x y") (simp_all add: snake_step snake_done)
qed

lemma snake_ge: "x \<le> fst (snake a b x y)"
proof (induction a b x y rule: snake.induct)
  case (1 a b x y)
  then show ?case
    by (cases "agree a b x y") (simp_all add: snake_step snake_done)
qed

lemma snake_in_range:
  "fst (snake a b x y) = x \<or> fst (snake a b x y) \<le> int (length a) \<and> snd (snake a b x y) \<le> int (length b)"
proof (induction a b x y rule: snake.induct)
  case (1 a b x y)
  show ?case
  proof (cases "agree a b x y")
    case True
    with 1 [OF True] snake_diag [of a b "x + 1" "y + 1"] show ?thesis
      by (auto simp: snake_step usize_lt_def)
  qed (simp add: snake_done)
qed

lemma snake_match:
  "x \<le> i \<Longrightarrow> i < fst (snake a b x y) \<Longrightarrow> agree a b i (i - (x - y))"
proof (induction a b x y rule: snake.induct)
  case (1 a b x y)
  show ?case
  proof (cases "agree a b x y")
    case True
    with 1 show ?thesis by (cases "i = x") (auto simp: snake_step)
  next
    case False
    with 1 show ?thesis by (simp add: snake_done)
  qed
qed

text \<open>The snake stops only where it has to.\<close>

lemma snake_stop:
  "snake a b x y = (x', y') \<Longrightarrow>
   \<not> agree a b x' y'"
proof (induction a b x y rule: snake.induct)
  case (1 a b x y)
  then show ?case
    by (cases "agree a b x y") (auto simp: snake_step snake_done)
qed

lemma on_diag_0 [simp]: "on_diag 0 k \<longleftrightarrow> k = 0"
  by (auto simp: on_diag_def)

lemma on_diag_succ:
  assumes "on_diag d k" shows "on_diag (Suc d) (k + 1)" "on_diag (Suc d) (k - 1)"
  using assms by (auto simp: on_diag_def)

lemma on_diag_pred:
  assumes "on_diag (Suc d) k"
  shows "k \<noteq> - int (Suc d) \<Longrightarrow> on_diag d (k - 1)" "k \<noteq> int (Suc d) \<Longrightarrow> on_diag d (k + 1)"
proof -
  have ev: "even (int (Suc d) + k)" using assms by (simp add: on_diag_def)
  have b: "\<bar>k\<bar> \<le> int (Suc d)" using assms by (simp add: on_diag_def)
  show "on_diag d (k - 1)" if "k \<noteq> - int (Suc d)"
  proof -
    from that ev have "k \<noteq> - int (Suc d) + 1" by (auto simp: even_iff_mod_2_eq_zero)
    with that b ev show ?thesis by (auto simp: on_diag_def)
  qed
  show "on_diag d (k + 1)" if "k \<noteq> int (Suc d)"
  proof -
    from that ev have "k \<noteq> int (Suc d) - 1" by auto
    with that b ev show ?thesis by (auto simp: on_diag_def)
  qed
qed

subsection \<open>Furthest points along the rounds\<close>

lemma pick_cases:
  assumes "on_diag (Suc d) k"
  obtains (ins) "on_diag d (k + 1)" "pick f (Suc d) k = f (k + 1)"
    | (del) "on_diag d (k - 1)" "pick f (Suc d) k = f (k - 1) + 1"
proof (cases "k = - int (Suc d) \<or> k \<noteq> int (Suc d) \<and> f (k - 1) < f (k + 1)")
  case True
  then have "k \<noteq> int (Suc d)" by auto
  with True show ?thesis by (intro ins on_diag_pred(2) [OF assms]) (auto simp: pick_def)
next
  case False
  then show ?thesis by (intro del on_diag_pred(1) [OF assms]) (auto simp: pick_def)
qed

lemma pick_ge:
  assumes "on_diag d k"
  shows "f k + 1 \<le> pick f (Suc d) (k + 1)" "f k \<le> pick f (Suc d) (k - 1)"
  using assms by (auto simp: pick_def on_diag_def)

lemma furthest_ge_start: "start_x a b d k \<le> furthest a b d k"
  by (simp add: furthest_start snake_ge)

lemma furthest_mono:
  assumes "on_diag d k"
  shows "furthest a b d k + 1 \<le> furthest a b (Suc d) (k + 1)"
    and "furthest a b d k \<le> furthest a b (Suc d) (k - 1)"
  using pick_ge [OF assms, of "furthest a b d"] furthest_ge_start [of a b "Suc d"]
  by (auto simp: start_x_def intro: order_trans)

lemma furthest_nonneg: "on_diag d k \<Longrightarrow> 0 \<le> furthest a b d k \<and> k \<le> furthest a b d k"
proof (induction d arbitrary: k)
  case 0
  then show ?case using furthest_ge_start [of a b 0 k] by (simp add: start_x_def)
next
  case (Suc d)
  have "0 \<le> start_x a b (Suc d) k \<and> k \<le> start_x a b (Suc d) k"
    using Suc.prems
    by (cases rule: pick_cases [where f = "furthest a b d"])
       (use Suc.IH in \<open>auto simp: start_x_def dest: Suc.IH\<close>)
  with furthest_ge_start [of a b "Suc d" k] show ?case by linarith
qed

text \<open>Each round adds at least one to \<open>x + y\<close>, so round \<open>n + m\<close> reaches the end.\<close>

lemma furthest_progress: "on_diag d k \<Longrightarrow> int d \<le> 2 * furthest a b d k - k"
proof (induction d arbitrary: k)
  case 0
  then show ?case using furthest_nonneg [of 0 k a b] by simp
next
  case (Suc d)
  have "int (Suc d) \<le> 2 * start_x a b (Suc d) k - k"
    using Suc.prems
    by (cases rule: pick_cases [where f = "furthest a b d"])
       (fastforce simp: start_x_def dest: Suc.IH)+
  with furthest_ge_start [of a b "Suc d" k] show ?case by linarith
qed

lemma hit_last_round: "hit a b (length a + length b) (int (length a) - int (length b))"
proof -
  let ?d = "length a + length b" and ?k = "int (length a) - int (length b)"
  have "on_diag ?d ?k" by (auto simp: on_diag_def)
  with furthest_progress [OF this, of a b] show ?thesis by (simp add: hit_def)
qed

text \<open>Points beyond an edge of the grid were overtaken in the round before.\<close>

lemma furthest_range:
  "furthest a b d k = start_x a b d k \<or>
   furthest a b d k \<le> int (length a) \<and> furthest a b d k - k \<le> int (length b)"
  using snake_in_range [of a b "start_x a b d k" "start_x a b d k - k"]
    snake_diag [of a b "start_x a b d k" "start_x a b d k - k"]
  by (auto simp: furthest_start)

lemma overshoot_x:
  "on_diag d k \<Longrightarrow> int (length a) < furthest a b d k \<Longrightarrow>
   \<exists>e. d = Suc e \<and> on_diag e (k - 1) \<and> furthest a b d k \<le> furthest a b e (k - 1) + 1"
proof (induction d arbitrary: k)
  case 0
  then show ?case using furthest_range [of a b 0 k] by (auto simp: start_x_def)
next
  case (Suc d)
  have x: "furthest a b (Suc d) k = pick (furthest a b d) (Suc d) k"
    using Suc.prems(2) furthest_range [of a b "Suc d" k] by (auto simp: start_x_def)
  show ?case
    using Suc.prems(1)
  proof (cases rule: pick_cases [where f = "furthest a b d"])
    case ins
    with Suc.IH [of "k + 1"] Suc.prems(2) x obtain e where
      e: "d = Suc e" "on_diag e k" "furthest a b d (k + 1) \<le> furthest a b e k + 1" by auto
    have "furthest a b e k \<le> furthest a b d (k - 1)"
      using furthest_mono(2) [OF e(2), of a b] e(1) by simp
    moreover have "on_diag d (k - 1)" using on_diag_succ(2) [OF e(2)] e(1) by simp
    ultimately show ?thesis using e(3) ins x by auto
  next
    case del
    with x show ?thesis by auto
  qed
qed

lemma overshoot_y:
  "on_diag d k \<Longrightarrow> int (length b) < furthest a b d k - k \<Longrightarrow>
   \<exists>e. d = Suc e \<and> on_diag e (k + 1) \<and> furthest a b d k \<le> furthest a b e (k + 1)"
proof (induction d arbitrary: k)
  case 0
  then show ?case using furthest_range [of a b 0 k] by (auto simp: start_x_def)
next
  case (Suc d)
  have x: "furthest a b (Suc d) k = pick (furthest a b d) (Suc d) k"
    using Suc.prems(2) furthest_range [of a b "Suc d" k] by (auto simp: start_x_def)
  show ?case
    using Suc.prems(1)
  proof (cases rule: pick_cases [where f = "furthest a b d"])
    case ins
    with x show ?thesis by auto
  next
    case del
    with Suc.IH [of "k - 1"] Suc.prems(2) x obtain e where
      e: "d = Suc e" "on_diag e k" "furthest a b d (k - 1) \<le> furthest a b e k" by auto
    have "furthest a b e k + 1 \<le> furthest a b d (k + 1)"
      using furthest_mono(1) [OF e(2), of a b] e(1) by simp
    moreover have "on_diag d (k + 1)" using on_diag_succ(1) [OF e(2)] e(1) by simp
    ultimately show ?thesis using e(3) del x by auto
  qed
qed

lemma first_hit_exact:
  assumes h: "hit a b d k" and first: "\<And>e j. e < d \<Longrightarrow> \<not> hit a b e j"
  shows "furthest a b d k = int (length a)" "k = int (length a) - int (length b)"
proof -
  from h have k: "on_diag d k" "int (length a) \<le> furthest a b d k"
    "int (length b) \<le> furthest a b d k - k" by (auto simp: hit_def)
  have x: "furthest a b d k = int (length a)"
  proof (rule ccontr)
    assume "furthest a b d k \<noteq> int (length a)"
    with overshoot_x [OF k(1), of a b] k(2) obtain e where e: "d = Suc e" "on_diag e (k - 1)"
      "furthest a b d k \<le> furthest a b e (k - 1) + 1" by auto
    then have "hit a b e (k - 1)"
      using k \<open>furthest a b d k \<noteq> int (length a)\<close> by (auto simp: hit_def)
    with first [of e] e(1) show False by simp
  qed
  have "furthest a b d k - k = int (length b)"
  proof (rule ccontr)
    assume "furthest a b d k - k \<noteq> int (length b)"
    with overshoot_y [OF k(1), of b a] k(3) obtain e where e: "d = Suc e" "on_diag e (k + 1)"
      "furthest a b d k \<le> furthest a b e (k + 1)" by auto
    then have "hit a b e (k + 1)"
      using k \<open>furthest a b d k - k \<noteq> int (length b)\<close> by (auto simp: hit_def)
    with first [of e] e(1) show False by simp
  qed
  with x show "furthest a b d k = int (length a)" "k = int (length a) - int (length b)" by auto
qed

section \<open>The array search computes the furthest points\<close>

text \<open>
  \<open>represents v mx a b d\<close>: the array holds the points of round \<open>d\<close> on the diagonals of
  its parity; before the first round it holds the initial zero that round 0 reads.
\<close>

definition represents :: "int list \<Rightarrow> nat \<Rightarrow> 'c list \<Rightarrow> 'c list \<Rightarrow> nat \<Rightarrow> bool" where
  "represents v mx a b d \<longleftrightarrow>
     length v = 2 * mx + 1 \<and> (\<forall>j. on_diag d j \<longrightarrow> vget v (j + int mx) = Some (furthest a b d j))"

definition before_round :: "int list \<Rightarrow> nat \<Rightarrow> 'c list \<Rightarrow> 'c list \<Rightarrow> nat \<Rightarrow> bool" where
  "before_round v mx a b d \<longleftrightarrow>
     (case d of 0 \<Rightarrow> length v = 2 * mx + 1 \<and> vget v (1 + int mx) = Some 0
      | Suc e \<Rightarrow> represents v mx a b e)"

lemma vset_Some: "0 \<le> i \<Longrightarrow> i < int (length v) \<Longrightarrow> vset v i x = Some (v[nat i := x])"
  by (simp add: vset_def)

lemma vget_update:
  "vset v i x = Some v' \<Longrightarrow> vget v' j = (if j = i then Some x else vget v j)"
  by (auto simp: vset_def vget_def nth_list_update split: if_splits)

lemma forward_x_correct:
  assumes v: "before_round v mx a b d" and k: "on_diag d k"
  shows "forward_x v (int mx) (int d) k = Some (start_x a b d k)"
proof (cases d)
  case 0
  with assms show ?thesis by (simp add: before_round_def forward_x_def start_x_def)
next
  case (Suc e)
  have v': "\<And>j. on_diag e j \<Longrightarrow> vget v (j + int mx) = Some (furthest a b e j)"
    using v Suc by (simp add: before_round_def represents_def)
  have k': "on_diag (Suc e) k" using k Suc by simp
  have l: "k \<noteq> - int d \<Longrightarrow> vget v (k - 1 + int mx) = Some (furthest a b e (k - 1))"
    using v' [OF on_diag_pred(1) [OF k']] Suc by simp
  have r: "k \<noteq> int d \<Longrightarrow> vget v (k + 1 + int mx) = Some (furthest a b e (k + 1))"
    using v' [OF on_diag_pred(2) [OF k']] Suc by simp
  have start: "start_x a b d k = pick (furthest a b e) d k" using Suc by (simp add: start_x_def)
  consider "k = - int d" "k \<noteq> int d" | "k = int d" "k \<noteq> - int d" | "k \<noteq> - int d" "k \<noteq> int d"
    using Suc by linarith
  then show ?thesis
    unfolding start using l r by cases (simp_all only: forward_x_def pick_def, simp_all)
qed

text \<open>The diagonals of a round from the \<open>i\<close>-th on, as the loop meets them.\<close>

definition diags_from :: "nat \<Rightarrow> nat \<Rightarrow> int list" where
  "diags_from d i = map (\<lambda>i. 2 * int i - int d) [i..<Suc d]"

lemma diagonals_from: "diagonals (int d) = diags_from d 0"
  by (simp add: diagonals_def diags_from_def)

lemma diags_from_step: "i \<le> d \<Longrightarrow> diags_from d i = (2 * int i - int d) # diags_from d (Suc i)"
  unfolding diags_from_def by (subst upt_conv_Cons) auto

lemma on_diag_nth: "i \<le> d \<Longrightarrow> on_diag d (2 * int i - int d)"
  by (auto simp: on_diag_def)

lemma on_diag_index: "on_diag d j \<Longrightarrow> \<exists>i \<le> d. j = 2 * int i - int d"
proof -
  assume j: "on_diag d j"
  then have "even (int d + j)" by (simp add: on_diag_def)
  then obtain q where q: "int d + j = 2 * q" by (elim evenE)
  with j have "0 \<le> q" "q \<le> int d" by (auto simp: on_diag_def)
  with q show ?thesis by (intro exI [of _ "nat q"]) auto
qed

lemma hit_iff_stop:
  "on_diag d k \<Longrightarrow> hit a b d k \<longleftrightarrow>
   \<not> usize_lt (furthest a b d k) (length a) \<and> \<not> usize_lt (furthest a b d k - k) (length b)"
  using furthest_nonneg [of d k a b] by (auto simp: hit_def usize_lt_def)

text \<open>
  The state of the \<open>k\<close> loop before its \<open>i\<close>-th diagonal: the entries of the previous
  round are intact (their parity differs) and the finished diagonals hold the new points.
\<close>

definition k_inv :: "int list \<Rightarrow> nat \<Rightarrow> 'c list \<Rightarrow> 'c list \<Rightarrow> nat \<Rightarrow> nat \<Rightarrow> bool" where
  "k_inv v mx a b d i \<longleftrightarrow> before_round v mx a b d \<and> length v = 2 * mx + 1 \<and>
     (\<forall>l < i. vget v (2 * int l - int d + int mx) = Some (furthest a b d (2 * int l - int d)))"

lemma k_inv_step:
  assumes inv: "k_inv v mx a b d i" and i: "i \<le> d"
    and k: "k = 2 * int i - int d" and v': "vset v (k + int mx) (furthest a b d k) = Some v'"
  shows "k_inv v' mx a b d (Suc i)"
proof -
  note upd = vget_update [OF v']
  have len: "length v' = length v" using v' by (auto simp: vset_def split: if_splits)
  have "before_round v' mx a b d"
  proof (cases d)
    case 0
    with inv k i show ?thesis by (simp add: k_inv_def before_round_def upd len)
  next
    case (Suc e)
    have other: "j \<noteq> k" if "on_diag e j" for j
      using that k Suc by (auto simp: on_diag_def)
    with inv Suc show ?thesis
      by (simp add: k_inv_def before_round_def represents_def upd len)
  qed
  moreover have "vget v' (2 * int l - int d + int mx) = Some (furthest a b d (2 * int l - int d))"
    if "l < Suc i" for l
    using that inv k by (cases "l = i") (auto simp: k_inv_def upd)
  ultimately show ?thesis using inv len by (simp add: k_inv_def)
qed

lemma k_loop_correct:
  assumes "k_inv v mx a b d i" and "d \<le> mx" and "i \<le> Suc d"
  shows "\<exists>r v'. k_loop a b (int mx) (int d) (diags_from d i) v = Some (r, v')
    \<and> (r \<longleftrightarrow> (\<exists>l. i \<le> l \<and> l \<le> d \<and> hit a b d (2 * int l - int d)))
    \<and> (\<not> r \<longrightarrow> represents v' mx a b d)"
  using assms
proof (induction "Suc d - i" arbitrary: i v)
  case 0
  then have i: "i = Suc d" by simp
  have "represents v mx a b d"
    using 0(2) i on_diag_index [of d] by (auto simp: k_inv_def represents_def less_Suc_eq_le)
  with i show ?case by (simp add: diags_from_def)
next
  case (Suc n)
  then have i: "i \<le> d" by simp
  let ?k = "2 * int i - int d"
  have k: "on_diag d ?k" using i by (rule on_diag_nth)
  have fx: "forward_x v (int mx) (int d) ?k = Some (start_x a b d ?k)"
    using Suc.prems(1) k by (intro forward_x_correct) (auto simp: k_inv_def)
  have sn: "snake a b (start_x a b d ?k) (start_x a b d ?k - ?k) = (furthest a b d ?k, furthest a b d ?k - ?k)"
    using snake_diag [of a b "start_x a b d ?k" "start_x a b d ?k - ?k"]
    by (simp add: furthest_start prod_eq_iff)
  obtain v' where v': "vset v (?k + int mx) (furthest a b d ?k) = Some v'"
    using Suc.prems i by (auto simp: k_inv_def vset_def)
  note loop = diags_from_step [OF i] fx sn v'
  show ?case
  proof (cases "hit a b d ?k")
    case True
    then show ?thesis using hit_iff_stop [OF k, of a b] i by (auto simp: loop)
  next
    case False
    have "k_inv v' mx a b d (Suc i)" using k_inv_step [OF Suc.prems(1) i refl v'] .
    then obtain r w where r: "k_loop a b (int mx) (int d) (diags_from d (Suc i)) v' = Some (r, w)"
      "r \<longleftrightarrow> (\<exists>l. Suc i \<le> l \<and> l \<le> d \<and> hit a b d (2 * int l - int d))"
      "\<not> r \<longrightarrow> represents w mx a b d"
      using Suc.hyps(1) [of "Suc i" v'] Suc.hyps(2) Suc.prems(2) i by (auto simp: Suc_diff_le)
    have "r \<longleftrightarrow> (\<exists>l. i \<le> l \<and> l \<le> d \<and> hit a b d (2 * int l - int d))"
      using r(2) False by (metis Suc_leD le_antisym not_less_eq_eq)
    with r False hit_iff_stop [OF k, of a b] show ?thesis by (auto simp: loop)
  qed
qed

definition round_hits :: "'c list \<Rightarrow> 'c list \<Rightarrow> nat \<Rightarrow> bool" where
  "round_hits a b d \<longleftrightarrow> (\<exists>k. hit a b d k)"

lemma round_correct:
  assumes "before_round v mx a b d" and "d \<le> mx"
  shows "\<exists>v'. k_loop a b (int mx) (int d) (diagonals (int d)) v = Some (round_hits a b d, v')
    \<and> (\<not> round_hits a b d \<longrightarrow> before_round v' mx a b (Suc d))"
proof -
  have "length v = 2 * mx + 1"
    using assms(1) by (auto simp: before_round_def represents_def split: nat.splits)
  with assms(1) have inv: "k_inv v mx a b d 0" by (simp add: k_inv_def)
  from k_loop_correct [OF inv assms(2)] obtain r v' where
    r: "k_loop a b (int mx) (int d) (diags_from d 0) v = Some (r, v')"
      "r \<longleftrightarrow> (\<exists>l \<le> d. hit a b d (2 * int l - int d))" "\<not> r \<longrightarrow> represents v' mx a b d"
    by auto
  have "r \<longleftrightarrow> round_hits a b d"
    unfolding round_hits_def r(2) using on_diag_index by (auto simp: hit_def) blast
  with r show ?thesis by (simp add: diagonals_from before_round_def)
qed

lemma d_loop_correct:
  assumes "before_round v mx a b d0" and "d0 \<le> D" "D \<le> mx" "round_hits a b D"
    and first: "\<And>e. e < D \<Longrightarrow> \<not> round_hits a b e"
    and "length trace = d0" "\<And>e. e < d0 \<Longrightarrow> before_round (trace ! e) mx a b e"
  shows "\<exists>trace'. d_loop a b (int mx) [d0..<mx + 1] v trace = Some (Some D, trace')
    \<and> length trace' = Suc D \<and> (\<forall>e \<le> D. before_round (trace' ! e) mx a b e)"
  using assms(1,2,6,7)
proof (induction "D - d0" arbitrary: d0 v trace)
  case 0
  then have D: "d0 = D" by simp
  from round_correct [OF 0(2)] D \<open>D \<le> mx\<close> \<open>round_hits a b D\<close> obtain v' where
    "k_loop a b (int mx) (int D) (diagonals (int D)) v = Some (True, v')" by auto
  moreover have "[D..<mx + 1] = D # [Suc D..<mx + 1]"
    using \<open>D \<le> mx\<close> by (simp add: upt_conv_Cons del: upt_Suc)
  ultimately show ?case using 0 D by (auto simp: nth_append less_Suc_eq_le le_less simp del: upt_Suc)
next
  case (Suc n)
  then have lt: "d0 < D" by simp
  with round_correct [OF Suc.prems(1)] first [OF lt] \<open>D \<le> mx\<close> obtain v' where
    v': "k_loop a b (int mx) (int d0) (diagonals (int d0)) v = Some (False, v')"
      "before_round v' mx a b (Suc d0)" by auto
  have upt: "[d0..<Suc mx] = d0 # [Suc d0..<Suc mx]"
    using lt \<open>D \<le> mx\<close> by (simp add: upt_conv_Cons del: upt_Suc)
  have "before_round ((trace @ [v]) ! e) mx a b e" if "e < Suc d0" for e
    using that Suc.prems by (auto simp: nth_append less_Suc_eq)
  with Suc.hyps(1) [of "Suc d0" v' "trace @ [v]"] Suc.hyps(2) v'(2) lt Suc.prems(3)
  have "\<exists>trace'. d_loop a b (int mx) [Suc d0..<mx + 1] v' (trace @ [v]) = Some (Some D, trace')
    \<and> length trace' = Suc D \<and> (\<forall>e \<le> D. before_round (trace' ! e) mx a b e)" by simp
  with v'(1) show ?case by (simp add: upt Let_def del: upt_Suc)
qed

section \<open>Backtracking rebuilds both texts\<close>

text \<open>
  What an edit script consumes and produces, and its number of edits. A script transforms
  \<open>a\<close> into \<open>b\<close> when \<open>olds\<close> is \<open>a\<close> and \<open>news\<close> is \<open>b\<close>.
\<close>

fun olds :: "TextDiffOp list \<Rightarrow> string list" where
  "olds [] = []"
| "olds (Equal s # ops) = s # olds ops"
| "olds (Delete s # ops) = s # olds ops"
| "olds (Insert s # ops) = olds ops"

fun news :: "TextDiffOp list \<Rightarrow> string list" where
  "news [] = []"
| "news (Equal s # ops) = s # news ops"
| "news (Delete s # ops) = news ops"
| "news (Insert s # ops) = s # news ops"

fun edits :: "TextDiffOp list \<Rightarrow> nat" where
  "edits [] = 0"
| "edits (Equal s # ops) = edits ops"
| "edits (Delete s # ops) = Suc (edits ops)"
| "edits (Insert s # ops) = Suc (edits ops)"

lemma script_append [simp]:
  "olds (xs @ ys) = olds xs @ olds ys" "news (xs @ ys) = news xs @ news ys"
  "edits (xs @ ys) = edits xs + edits ys"
  by (induction xs rule: olds.induct; simp)+

lemma edits_rev [simp]: "edits (rev ops) = edits ops"
  by (induction ops rule: edits.induct) auto

text \<open>
  The loop invariant of the backtracking: the operations pushed so far, reversed, turn
  the rest of \<open>a\<close> from \<open>x\<close> on into the rest of \<open>b\<close> from \<open>y\<close> on.
\<close>

definition tinv :: "string list \<Rightarrow> string list \<Rightarrow> int \<Rightarrow> int \<Rightarrow> TextDiffOp list \<Rightarrow> nat \<Rightarrow> bool" where
  "tinv a b x y ops c \<longleftrightarrow> 0 \<le> x \<and> x \<le> int (length a) \<and> 0 \<le> y \<and> y \<le> int (length b)
     \<and> olds (rev ops) = drop (nat x) a \<and> news (rev ops) = drop (nat y) b \<and> edits ops = c"

lemma drop_pred:
  "0 < x \<Longrightarrow> x \<le> int (length a) \<Longrightarrow> drop (nat (x - 1)) a = a ! nat (x - 1) # drop (nat x) a"
  by (subst Cons_nth_drop_Suc [symmetric]) (auto simp: nat_diff_distrib Suc_diff_le)

lemma tinv_equal:
  assumes "tinv a b x y ops c" "agree a b (x - 1) (y - 1)"
  shows "tinv a b (x - 1) (y - 1) (ops @ [Equal (a ! nat (x - 1))]) c"
  using assms by (auto simp: tinv_def usize_lt_def drop_pred)

lemma tinv_delete:
  assumes "tinv a b x y ops c" "0 < x"
  shows "tinv a b (x - 1) y (ops @ [Delete (a ! nat (x - 1))]) (Suc c)"
  using assms by (auto simp: tinv_def drop_pred)

lemma tinv_insert:
  assumes "tinv a b x y ops c" "0 < y"
  shows "tinv a b x (y - 1) (ops @ [Insert (b ! nat (y - 1))]) (Suc c)"
  using assms by (auto simp: tinv_def drop_pred)

lemma back_diag_correct:
  assumes "sx \<le> x" and "\<And>j. sx < j \<Longrightarrow> j \<le> x \<Longrightarrow> px < j \<and> py < j - k"
    and "\<not> (px < sx \<and> py < sx - k)"
    and "\<And>i. sx \<le> i \<Longrightarrow> i < x \<Longrightarrow> agree a b i (i - k)"
    and "tinv a b x (x - k) ops c"
  shows "\<exists>ops'. back_diag a px py x (x - k) ops = Some (sx, sx - k, ops')
    \<and> tinv a b sx (sx - k) ops' c"
  using assms
proof (induction "nat (x - sx)" arbitrary: x ops)
  case 0
  then show ?case by (subst back_diag.simps) auto
next
  case (Suc n)
  then have x: "sx < x" by simp
  let ?ops = "ops @ [Equal (a ! nat (x - 1))]"
  have ag: "agree a b (x - 1) (x - 1 - k)" using Suc.prems(4) [of "x - 1"] x by simp
  have "tinv a b (x - 1) (x - k - 1) ?ops c"
    using Suc.prems(5) ag by (intro tinv_equal) (simp_all add: algebra_simps)
  then have "tinv a b (x - 1) (x - 1 - k) ?ops c" by (simp add: algebra_simps)
  then obtain ops' where ops': "back_diag a px py (x - 1) (x - 1 - k) ?ops = Some (sx, sx - k, ops')"
    "tinv a b sx (sx - k) ops' c"
    using Suc.hyps(1) [of "x - 1" ?ops, OF _ _ Suc.prems(2) Suc.prems(3) Suc.prems(4)] Suc.hyps(2) x
    by force
  have "vget a (x - 1) = Some (a ! nat (x - 1))" using ag by (auto simp: vget_def usize_lt_def)
  with ops' Suc.prems(2) [of x] x show ?case
    by (subst back_diag.simps) (simp add: algebra_simps)
qed

lemma back_k_correct:
  assumes v: "represents v mx a b e" and k: "on_diag (Suc e) k"
  obtains (ins) "back_k v (int mx) (int (Suc e)) k = Some (k + 1)" "on_diag e (k + 1)"
      "start_x a b (Suc e) k = furthest a b e (k + 1)"
    | (del) "back_k v (int mx) (int (Suc e)) k = Some (k - 1)" "on_diag e (k - 1)"
      "start_x a b (Suc e) k = furthest a b e (k - 1) + 1"
proof -
  have v': "\<And>j. on_diag e j \<Longrightarrow> vget v (j + int mx) = Some (furthest a b e j)"
    using v by (simp add: represents_def)
  note l = v' [OF on_diag_pred(1) [OF k]] and r = v' [OF on_diag_pred(2) [OF k]]
  have start: "\<And>j. start_x a b (Suc e) j = pick (furthest a b e) (Suc e) j" by (simp add: start_x_def)
  consider (low) "k = - int (Suc e)" "k \<noteq> int (Suc e)" | (high) "k = int (Suc e)" "k \<noteq> - int (Suc e)"
    | (less) "k \<noteq> - int (Suc e)" "k \<noteq> int (Suc e)" "furthest a b e (k - 1) < furthest a b e (k + 1)"
    | (geq) "k \<noteq> - int (Suc e)" "k \<noteq> int (Suc e)" "\<not> furthest a b e (k - 1) < furthest a b e (k + 1)"
    by linarith
  then show thesis
  proof cases
    case low
    then show ?thesis
      by (intro ins on_diag_pred(2) [OF k]) (simp_all only: start pick_def back_k_def, simp_all)
  next
    case high
    then show ?thesis
      by (intro del on_diag_pred(1) [OF k]) (simp_all only: start pick_def back_k_def, simp_all)
  next
    case less
    then show ?thesis using l r
      by (intro ins on_diag_pred(2) [OF k]) (simp_all only: start pick_def back_k_def, simp_all)
  next
    case geq
    then show ?thesis using l r
      by (intro del on_diag_pred(1) [OF k]) (simp_all only: start pick_def back_k_def, simp_all)
  qed
qed

lemma furthest_agree:
  "start_x a b d k \<le> i \<Longrightarrow> i < furthest a b d k \<Longrightarrow> agree a b i (i - k)"
  using snake_match [of "start_x a b d k" i a b "start_x a b d k - k"]
  by (simp add: furthest_start)

lemma back_step_correct:
  assumes v: "vget trace (int (Suc e)) = Some v" "represents v mx a b e"
    and k: "on_diag (Suc e) k" and x: "x = furthest a b (Suc e) k"
    and inv: "tinv a b x (x - k) ops c"
  shows "\<exists>k' ops'. back_step a b (int mx) trace (Suc e) (x, x - k, ops)
        = Some (furthest a b e k', furthest a b e k' - k', ops')
      \<and> on_diag e k' \<and> tinv a b (furthest a b e k') (furthest a b e k' - k') ops' (Suc c)"
  using v(2) k
proof (cases rule: back_k_correct)
  case ins
  let ?px = "furthest a b e (k + 1)"
  let ?py = "?px - (k + 1)"
  have sx: "start_x a b (Suc e) k = ?px" by (fact ins(3))
  have get: "vget v (k + 1 + int mx) = Some ?px" using v(2) ins(2) by (simp add: represents_def)
  have "\<exists>ops'. back_diag a ?px ?py x (x - k) ops = Some (?px, ?px - k, ops')
      \<and> tinv a b ?px (?px - k) ops' c"
    using inv furthest_ge_start [of a b "Suc e" k] furthest_agree [of a b "Suc e" k]
    unfolding x sx by (intro back_diag_correct) auto
  then obtain ops' where ops': "back_diag a ?px ?py x (x - k) ops = Some (?px, ?px - k, ops')"
    "tinv a b ?px (?px - k) ops' c" by blast
  have nn: "0 < ?px - k" using furthest_nonneg [OF ins(2), of a b] by linarith
  then have "vget b (?px - k - 1) = Some (b ! nat (?px - k - 1))"
    using ops'(2) by (auto simp: vget_def tinv_def)
  moreover have "tinv a b ?px (?px - (k + 1)) (ops' @ [Insert (b ! nat (?px - k - 1))]) (Suc c)"
    using tinv_insert [OF ops'(2) nn] by (simp add: algebra_simps)
  ultimately show ?thesis
    using v(1) ins(1,2) get ops'(1)
    by (intro exI [of _ "k + 1"] exI [of _ "ops' @ [Insert (b ! nat (?px - k - 1))]"])
       (simp add: back_step_def Let_def algebra_simps)
next
  case del
  let ?px = "furthest a b e (k - 1)"
  let ?py = "?px - (k - 1)"
  have sx: "start_x a b (Suc e) k = ?px + 1" by (fact del(3))
  have get: "vget v (k - 1 + int mx) = Some ?px" using v(2) del(2) by (simp add: represents_def)
  have "\<exists>ops'. back_diag a ?px ?py x (x - k) ops = Some (?px + 1, ?px + 1 - k, ops')
      \<and> tinv a b (?px + 1) (?px + 1 - k) ops' c"
    using inv furthest_ge_start [of a b "Suc e" k] furthest_agree [of a b "Suc e" k]
    unfolding x sx by (intro back_diag_correct) auto
  then obtain ops' where ops': "back_diag a ?px ?py x (x - k) ops = Some (?px + 1, ?px + 1 - k, ops')"
    "tinv a b (?px + 1) (?px + 1 - k) ops' c" by blast
  have nn: "0 < ?px + 1" using furthest_nonneg [OF del(2), of a b] by linarith
  then have "vget a ?px = Some (a ! nat ?px)"
    using ops'(2) by (auto simp: vget_def tinv_def)
  moreover have "tinv a b ?px (?px - (k - 1)) (ops' @ [Delete (a ! nat ?px)]) (Suc c)"
    using tinv_delete [OF ops'(2) nn] by (simp add: algebra_simps)
  ultimately show ?thesis
    using v(1) del(1,2) get ops'(1)
    by (intro exI [of _ "k - 1"] exI [of _ "ops' @ [Delete (a ! nat ?px)]"])
       (simp add: back_step_def Let_def algebra_simps)
qed

lemma backtrack_correct:
  assumes "d < length trace" and "\<And>e. e \<le> d \<Longrightarrow> before_round (trace ! e) mx a b e"
    and "on_diag d k" and "tinv a b (furthest a b d k) (furthest a b d k - k) ops c"
  shows "\<exists>ops'. backtrack a b (int mx) trace d (furthest a b d k, furthest a b d k - k, ops)
        = Some (furthest a b 0 0, furthest a b 0 0, ops')
      \<and> tinv a b (furthest a b 0 0) (furthest a b 0 0) ops' (c + d)"
  using assms
proof (induction d arbitrary: k ops c)
  case 0
  then show ?case by simp
next
  case (Suc e)
  have v: "vget trace (int (Suc e)) = Some (trace ! Suc e)"
    using Suc.prems(1) by (simp add: vget_def del: of_nat_Suc)
  have rep: "represents (trace ! Suc e) mx a b e"
    using Suc.prems(2) [of "Suc e"] by (simp add: before_round_def)
  from back_step_correct [OF v rep Suc.prems(3) refl Suc.prems(4)] obtain k' ops' where
    st: "back_step a b (int mx) trace (Suc e) (furthest a b (Suc e) k, furthest a b (Suc e) k - k, ops)
        = Some (furthest a b e k', furthest a b e k' - k', ops')"
      "on_diag e k'" "tinv a b (furthest a b e k') (furthest a b e k' - k') ops' (Suc c)"
    by blast
  from Suc.IH [OF _ _ st(2,3)] Suc.prems(1,2) obtain ops'' where
    "backtrack a b (int mx) trace e (furthest a b e k', furthest a b e k' - k', ops')
        = Some (furthest a b 0 0, furthest a b 0 0, ops'')"
    "tinv a b (furthest a b 0 0) (furthest a b 0 0) ops'' (Suc c + e)"
    by auto
  with st(1) show ?case by (simp del: furthest.simps)
qed

section \<open>Total correctness and minimality\<close>

lemma furthest_zero_bounds: "furthest a b 0 0 \<le> int (length a)" "0 \<le> furthest a b 0 0"
  using furthest_range [of a b 0 0] furthest_nonneg [of 0 0 a b]
  by (auto simp: start_x_def simp del: furthest.simps)

lemma final_diag_correct:
  assumes "tinv a b (furthest a b 0 0) (furthest a b 0 0) ops c"
  shows "\<exists>ops'. back_diag a 0 0 (furthest a b 0 0) (furthest a b 0 0) ops = Some (0, 0, ops')
    \<and> tinv a b 0 0 ops' c"
  using back_diag_correct [of 0 "furthest a b 0 0" 0 0 0 a b ops c] assms
    furthest_agree [of a b 0 0] furthest_zero_bounds(2) [of a b]
  by (auto simp: start_x_def simp del: furthest.simps)

text \<open>\<open>myers_ops\<close> never panics, never fails, and its script has \<open>D\<close> edits, the first round that hits.\<close>

lemma first_round_exists: "\<exists>D \<le> length a + length b. round_hits a b D \<and> (\<forall>e < D. \<not> round_hits a b e)"
proof -
  let ?D = "LEAST d. round_hits a b d"
  have h: "round_hits a b (length a + length b)"
    using hit_last_round by (auto simp: round_hits_def)
  then have "round_hits a b ?D" by (rule LeastI)
  moreover have "?D \<le> length a + length b" using h by (rule Least_le)
  ultimately show ?thesis using not_less_Least by blast
qed

lemma myers_ops_correct:
  assumes "a \<noteq> []"
  shows "\<exists>ops D. myers_ops a b = Some (Inr ops) \<and> olds ops = a \<and> news ops = b \<and> edits ops = D
    \<and> round_hits a b D \<and> (\<forall>e < D. \<not> round_hits a b e)"
proof -
  let ?mx = "length a + length b"
  let ?v = "replicate (2 * ?mx + 1) (0 :: int)"
  obtain D where D: "D \<le> ?mx" "round_hits a b D" "\<And>e. e < D \<Longrightarrow> \<not> round_hits a b e"
    using first_round_exists by blast
  have "before_round ?v ?mx a b 0"
    using assms by (cases a) (auto simp: before_round_def vget_def nth_Cons')
  from d_loop_correct [OF this _ D, of "[]"] obtain trace where
    t: "d_loop a b (int ?mx) [0..<?mx + 1] ?v [] = Some (Some D, trace)" "length trace = Suc D"
      "\<And>e. e \<le> D \<Longrightarrow> before_round (trace ! e) ?mx a b e" by auto
  from D(2) obtain k where k: "hit a b D k" by (auto simp: round_hits_def)
  have "\<And>e j. e < D \<Longrightarrow> \<not> hit a b e j" using D(3) by (auto simp: round_hits_def)
  from first_hit_exact [OF k this] have x: "furthest a b D k = int (length a)"
    and k': "k = int (length a) - int (length b)" by auto
  have y: "int (length a) - k = int (length b)" using k' by simp
  have "tinv a b (furthest a b D k) (furthest a b D k - k) [] 0"
    unfolding x y by (simp add: tinv_def)
  from backtrack_correct [OF _ t(3) _ this] t(2) k obtain ops where
    ops: "backtrack a b (int ?mx) trace D (int (length a), int (length b), [])
        = Some (furthest a b 0 0, furthest a b 0 0, ops)"
      "tinv a b (furthest a b 0 0) (furthest a b 0 0) ops D"
    unfolding x y by (auto simp: hit_def)
  from final_diag_correct [OF ops(2)] obtain ops' where
    ops': "back_diag a 0 0 (furthest a b 0 0) (furthest a b 0 0) ops = Some (0, 0, ops')"
      "tinv a b 0 0 ops' D" by blast
  have "myers_ops a b = Some (Inr (rev ops'))"
    using t(1) ops(1) ops'(1) by (simp add: myers_ops_def Let_def del: upt_Suc replicate.simps furthest.simps)
  with ops'(2) D(2,3) show ?thesis by (auto simp: tinv_def)
qed

text \<open>No script has fewer edits: every script's prefix stays behind the furthest points.\<close>

lemma script_behind_furthest:
  "olds ops @ ra = a \<Longrightarrow> news ops @ rb = b \<Longrightarrow>
   on_diag (edits ops) (int (length (olds ops)) - int (length (news ops)))
   \<and> int (length (olds ops)) \<le> furthest a b (edits ops) (int (length (olds ops)) - int (length (news ops)))"
proof (induction ops arbitrary: ra rb rule: rev_induct)
  case Nil
  then show ?case using furthest_zero_bounds(2) [of a b] by (simp del: furthest.simps)
next
  case (snoc op ops)
  let ?i = "int (length (olds ops))" and ?j = "int (length (news ops))" and ?e = "edits ops"
  show ?case
  proof (cases op)
    case (Equal c)
    have ih: "on_diag ?e (?i - ?j)" "?i \<le> furthest a b ?e (?i - ?j)"
      using snoc.IH [of "c # ra" "c # rb"] snoc.prems Equal by simp_all
    have "agree a b ?i ?j"
      using snoc.prems Equal by (auto simp: usize_lt_def)
    moreover obtain x y where xy: "snake a b (start_x a b ?e (?i - ?j)) (start_x a b ?e (?i - ?j) - (?i - ?j)) = (x, y)"
      by fastforce
    then have "x = furthest a b ?e (?i - ?j)" "y = x - (?i - ?j)"
      using snake_diag [of a b "start_x a b ?e (?i - ?j)" "start_x a b ?e (?i - ?j) - (?i - ?j)"]
      by (simp_all add: furthest_start)
    ultimately have "furthest a b ?e (?i - ?j) \<noteq> ?i" using snake_stop [OF xy] by auto
    with ih Equal show ?thesis by simp
  next
    case (Delete c)
    have ih: "on_diag ?e (?i - ?j)" "?i \<le> furthest a b ?e (?i - ?j)"
      using snoc.IH [of "c # ra" rb] snoc.prems Delete by simp_all
    show ?thesis
      using on_diag_succ(1) [OF ih(1)] furthest_mono(1) [OF ih(1), of a b] ih(2) Delete
      by (simp add: algebra_simps del: furthest.simps)
  next
    case (Insert c)
    have ih: "on_diag ?e (?i - ?j)" "?i \<le> furthest a b ?e (?i - ?j)"
      using snoc.IH [of ra "c # rb"] snoc.prems Insert by simp_all
    show ?thesis
      using on_diag_succ(2) [OF ih(1)] furthest_mono(2) [OF ih(1), of a b] ih(2) Insert
      by (simp add: algebra_simps del: furthest.simps)
  qed
qed

lemma script_round_hits: "olds ops = a \<Longrightarrow> news ops = b \<Longrightarrow> round_hits a b (edits ops)"
  using script_behind_furthest [of ops "[]" a "[]" b] by (auto simp: round_hits_def hit_def)

section \<open>Coalescing keeps the texts\<close>

abbreviation old_text :: "TextDiffOp list \<Rightarrow> string" where
  "old_text ops \<equiv> concat (olds ops)"

abbreviation new_text :: "TextDiffOp list \<Rightarrow> string" where
  "new_text ops \<equiv> concat (news ops)"

fun same_kind :: "TextDiffOp \<Rightarrow> TextDiffOp \<Rightarrow> bool" where
  "same_kind (Equal s) (Equal t) = True"
| "same_kind (Delete s) (Delete t) = True"
| "same_kind (Insert s) (Insert t) = True"
| "same_kind _ _ = False"

fun no_adjacent :: "TextDiffOp list \<Rightarrow> bool" where
  "no_adjacent (x # y # ops) \<longleftrightarrow> \<not> same_kind x y \<and> no_adjacent (y # ops)"
| "no_adjacent _ \<longleftrightarrow> True"

lemma coalesce_step_snoc:
  "coalesce_step (acc @ [t]) op =
     (case (op, t) of
        (Equal s, Equal u) \<Rightarrow> acc @ [Equal (u @ s)]
      | (Delete s, Delete u) \<Rightarrow> acc @ [Delete (u @ s)]
      | (Insert s, Insert u) \<Rightarrow> acc @ [Insert (u @ s)]
      | _ \<Rightarrow> acc @ [t, op])"
  by (simp split: TextDiffOp.splits)

lemma coalesce_step_texts:
  "old_text (coalesce_step acc op) = old_text (acc @ [op])"
  "new_text (coalesce_step acc op) = new_text (acc @ [op])"
  by (cases acc rule: rev_cases; auto simp: coalesce_step_snoc simp del: coalesce_step.simps
        split: TextDiffOp.splits; simp)+

lemma no_adjacent_snoc:
  "no_adjacent (xs @ [x, y]) \<longleftrightarrow> no_adjacent (xs @ [x]) \<and> \<not> same_kind x y"
  by (induction xs rule: no_adjacent.induct) auto

lemma no_adjacent_replace:
  "no_adjacent (xs @ [x]) \<Longrightarrow> same_kind x y \<Longrightarrow> no_adjacent (xs @ [y])"
proof (cases xs rule: rev_cases)
  case (snoc ys z)
  assume "no_adjacent (xs @ [x])" "same_kind x y"
  moreover from \<open>same_kind x y\<close> have "same_kind z y \<Longrightarrow> same_kind z x"
    by (cases x; cases y; cases z) auto
  ultimately show ?thesis using snoc by (auto simp: no_adjacent_snoc)
qed simp

lemma coalesce_step_no_adjacent: "no_adjacent acc \<Longrightarrow> no_adjacent (coalesce_step acc op)"
proof (cases acc rule: rev_cases)
  case (snoc xs t)
  assume "no_adjacent acc"
  with snoc show ?thesis
    by (cases op; cases t)
       (auto simp: coalesce_step_snoc no_adjacent_snoc simp del: coalesce_step.simps
          intro: no_adjacent_replace)
qed simp

lemma coalesce_correct:
  "old_text (coalesce_text_ops ops) = old_text ops"
  "new_text (coalesce_text_ops ops) = new_text ops"
  "no_adjacent (coalesce_text_ops ops)"
proof -
  have "old_text (foldl coalesce_step acc ops) = old_text (acc @ ops)
      \<and> new_text (foldl coalesce_step acc ops) = new_text (acc @ ops)
      \<and> (no_adjacent acc \<longrightarrow> no_adjacent (foldl coalesce_step acc ops))" for acc
  proof (induction ops arbitrary: acc)
    case (Cons op ops)
    show ?case
      using Cons.IH [of "coalesce_step acc op"] script_append(1,2) [of "[op]" ops]
      by (simp add: coalesce_step_texts coalesce_step_no_adjacent del: coalesce_step.simps)
  qed simp
  from this [of "[]"] show "old_text (coalesce_text_ops ops) = old_text ops"
    "new_text (coalesce_text_ops ops) = new_text ops" "no_adjacent (coalesce_text_ops ops)"
    by (simp_all add: coalesce_text_ops_def)
qed

lemma myers_diff_total:
  "\<exists>ops. myers_diff s t = Some (Inr ops) \<and> old_text ops = s \<and> new_text ops = t \<and> no_adjacent ops"
proof (cases "s = [] \<or> t = []")
  case True
  then show ?thesis by (auto simp: myers_diff_def Let_def)
next
  case False
  then obtain ops where ops: "myers_ops (utf8_chars s) (utf8_chars t) = Some (Inr ops)"
    "olds ops = utf8_chars s" "news ops = utf8_chars t"
    using myers_ops_correct [of "utf8_chars s" "utf8_chars t"] by auto
  with False show ?thesis by (simp add: myers_diff_def Let_def coalesce_correct)
qed

section \<open>Properties\<close>

text \<open>
  C16. The Myers diff of two texts always returns: no array access is out of range and the
  search never fails. The kept and deleted pieces spell the old text, the kept and
  inserted pieces spell the new text, and no two neighbouring operations have the same kind.
\<close>

theorem myers_diff_rebuilds:
  "\<exists>ops. myers_diff s t = Some (Inr ops) \<and> old_text ops = s \<and> new_text ops = t \<and> no_adjacent ops"
  by (rule myers_diff_total)

text \<open>
  C21. The script found before coalescing is minimal: among all scripts of single-character
  operations that turn the one text into the other, none has fewer insertions and
  deletions than the one the search and the backtracking return.
\<close>

theorem myers_ops_minimal:
  "\<exists>ops. myers_ops (c # cs) b = Some (Inr ops)
     \<and> is_arg_min edits (\<lambda>ops'. olds ops' = c # cs \<and> news ops' = b) ops"
proof -
  obtain ops D where ops: "myers_ops (c # cs) b = Some (Inr ops)" "olds ops = c # cs" "news ops = b"
    "edits ops = D" "\<forall>e < D. \<not> round_hits (c # cs) b e"
    using myers_ops_correct [of "c # cs" b] by auto
  moreover have "\<not> edits ops' < edits ops" if "olds ops' = c # cs" "news ops' = b" for ops'
    using script_round_hits [OF that] ops(4,5) by auto
  ultimately show ?thesis by (auto simp: is_arg_min_def)
qed

lemma block_texts_diff:
  "\<exists>ops. diff_block_texts s t = Some ops \<and> old_text ops = s \<and> new_text ops = t \<and> no_adjacent ops"
proof (cases "chars_count s > 1048576 \<or> chars_count t > 1048576")
  case True
  then show ?thesis by (auto simp: diff_block_texts_def replace_block_texts_def)
next
  case False
  obtain ops where "myers_diff s t = Some (Inr ops)" "old_text ops = s" "new_text ops = t" "no_adjacent ops"
    using myers_diff_total [of s t] by blast
  with False show ?thesis by (simp add: diff_block_texts_def)
qed

text \<open>
  C22. The diff of a modified block never panics, whatever the size of the texts: above the
  size limit it deletes the old text and inserts the new one, and in every case its pieces
  spell both texts.
\<close>

theorem diff_block_texts_total:
  "\<exists>ops. diff_block_texts s t = Some ops \<and> old_text ops = s \<and> new_text ops = t \<and> no_adjacent ops"
  by (rule block_texts_diff)

end
