(* ===== verification/BlockDiff.thy ===== *)
theory BlockDiff
  imports SnapshotCodec TextDiff
begin

text \<open>
  The comparison of two snapshots of a document, \<open>compare_documents\<close> of \<open>snapshot.rs\<close>:
  blocks are aligned by a longest common subsequence on their order keys, found by patience
  sorting over the matching pairs or, for dense inputs, by the classic table; aligned blocks
  with different content get a character diff. Reads of the arrays are checked: \<open>None\<close> is a
  panic or a loop that does not end.
\<close>

section \<open>The longest common subsequence by patience sorting\<close>

type_synonym pairs = "(nat \<times> nat) list"

text \<open>The index of \<open>b\<close> by order key, and the pairs \<open>(i, j)\<close> with equal keys.\<close>

definition key_index :: "SnapshotBlock list \<Rightarrow> string \<Rightarrow> nat list" where
  "key_index b k = map fst (filter (\<lambda>(_, block). sblk_order_key block = k) (enumerate 0 b))"

definition match_pairs :: "SnapshotBlock list \<Rightarrow> SnapshotBlock list \<Rightarrow> pairs" where
  "match_pairs a b =
     concat (map (\<lambda>(i, block). map (Pair i) (key_index b (sblk_order_key block))) (enumerate 0 a))"

text \<open>
  One step of patience sorting: \<open>partition_point\<close> on the sorted tails is the length of the
  prefix below \<open>j\<close>.
\<close>

definition lis_step ::
  "nat \<times> nat \<times> nat \<Rightarrow> nat list \<times> nat list \<times> int list \<Rightarrow> nat list \<times> nat list \<times> int list" where
  "lis_step = (\<lambda>(idx, _, j) (tails, tails_idx, prev).
     let pos = length (takeWhile (\<lambda>t. t < j) tails);
         before = (if pos > 0 then int (tails_idx ! (pos - 1)) else - 1)
     in if pos = length tails
        then (tails @ [j], tails_idx @ [idx], prev[idx := before])
        else (tails[pos := j], tails_idx[pos := idx], prev[idx := before]))"

definition lis_tails :: "pairs \<Rightarrow> nat list \<times> nat list \<times> int list" where
  "lis_tails ps = fold lis_step (enumerate 0 ps) ([], [], replicate (length ps) (- 1))"

text \<open>The loop that follows the predecessors; pushing and reversing is consing.\<close>

partial_function (option) follow :: "pairs \<Rightarrow> int list \<Rightarrow> int \<Rightarrow> pairs \<Rightarrow> pairs option" where
  "follow ps prev cur acc =
     (if cur \<ge> 0
      then Option.bind (nth_opt ps (nat cur)) (\<lambda>p.
           Option.bind (nth_opt prev (nat cur)) (\<lambda>c. follow ps prev c (p # acc)))
      else Some acc)"

definition lis_of_pairs :: "pairs \<Rightarrow> pairs option" where
  "lis_of_pairs ps =
     (let (tails, tails_idx, prev) = lis_tails ps
      in follow ps prev (if tails = [] then - 1 else int (tails_idx ! (length tails - 1))) [])"

section \<open>The table\<close>

definition dp_get :: "nat list list \<Rightarrow> nat \<Rightarrow> nat \<Rightarrow> nat" where
  "dp_get dp i j = dp ! i ! j"

definition dp_cell ::
  "SnapshotBlock list \<Rightarrow> SnapshotBlock list \<Rightarrow> nat \<Rightarrow> nat \<Rightarrow> nat list list \<Rightarrow> nat list list" where
  "dp_cell a b i j dp =
     dp[i := (dp ! i)[j :=
       (if sblk_order_key (a ! (i - 1)) = sblk_order_key (b ! (j - 1))
        then dp_get dp (i - 1) (j - 1) + 1
        else max (dp_get dp (i - 1) j) (dp_get dp i (j - 1)))]]"

definition dp_table :: "SnapshotBlock list \<Rightarrow> SnapshotBlock list \<Rightarrow> nat list list" where
  "dp_table a b =
     fold (\<lambda>i. fold (dp_cell a b i) [1..<length b + 1]) [1..<length a + 1]
       (replicate (length a + 1) (replicate (length b + 1) 0))"

fun dp_walk ::
  "SnapshotBlock list \<Rightarrow> SnapshotBlock list \<Rightarrow> nat list list \<Rightarrow> nat \<Rightarrow> nat \<Rightarrow> pairs \<Rightarrow> pairs" where
  "dp_walk a b dp (Suc i) (Suc j) acc =
     (if sblk_order_key (a ! i) = sblk_order_key (b ! j) then dp_walk a b dp i j ((i, j) # acc)
      else if dp_get dp i (Suc j) \<ge> dp_get dp (Suc i) j then dp_walk a b dp i (Suc j) acc
      else dp_walk a b dp (Suc i) j acc)"
| "dp_walk a b dp _ _ acc = acc"

definition lcs_by_order_key_dp :: "SnapshotBlock list \<Rightarrow> SnapshotBlock list \<Rightarrow> pairs" where
  "lcs_by_order_key_dp a b = dp_walk a b (dp_table a b) (length a) (length b) []"

text \<open>\<open>saturating_mul\<close> on \<open>usize\<close>; sorting by \<open>i\<close> and, for equal \<open>i\<close>, by decreasing \<open>j\<close>.\<close>

definition lcs_by_order_key :: "SnapshotBlock list \<Rightarrow> SnapshotBlock list \<Rightarrow> pairs option" where
  "lcs_by_order_key a b =
     (if a = [] \<or> b = [] then Some []
      else
        let ps = match_pairs a b; nm = min (length a * length b) (2 ^ 64 - 1) in
        if ps = [] then Some []
        else if nm > 4096 \<and> length ps > nm div 4 then Some (lcs_by_order_key_dp a b)
        else lis_of_pairs (sort_key (\<lambda>(i, j). (i, Desc j)) ps))"

section \<open>Comparing documents\<close>

datatype BlockDiffKind = Unchanged | Added | Removed | Modified

record BlockDiffEntry =
  bde_block_id_a :: "string option"
  bde_block_id_b :: "string option"
  bde_kind :: BlockDiffKind
  bde_text_diff :: "(TextDiffOp list) option"

record DiffSummary =
  ds_added_count :: int
  ds_removed_count :: int
  ds_modified_count :: int
  ds_unchanged_count :: int

record DocumentDiffResult =
  ddr_document_id_a :: string
  ddr_document_id_b :: string
  ddr_blocks :: "BlockDiffEntry list"
  ddr_summary :: DiffSummary

definition document_blocks :: "ProjectSnapshotV1 \<Rightarrow> string \<Rightarrow> SnapshotBlock list" where
  "document_blocks s document_id =
     sort_key sblk_order_key (filter (\<lambda>b. sblk_document_id b = document_id) (ps_blocks s))"

definition removed_entry :: "SnapshotBlock \<Rightarrow> BlockDiffEntry" where
  "removed_entry b = \<lparr>bde_block_id_a = Some (sblk_id b), bde_block_id_b = None,
     bde_kind = Removed, bde_text_diff = None\<rparr>"

definition added_entry :: "SnapshotBlock \<Rightarrow> BlockDiffEntry" where
  "added_entry b = \<lparr>bde_block_id_a = None, bde_block_id_b = Some (sblk_id b),
     bde_kind = Added, bde_text_diff = None\<rparr>"

definition matched_entry :: "SnapshotBlock \<Rightarrow> SnapshotBlock \<Rightarrow> BlockDiffEntry option" where
  "matched_entry x y =
     (if sblk_content_hash x = sblk_content_hash y
      then Some \<lparr>bde_block_id_a = Some (sblk_id x), bde_block_id_b = Some (sblk_id y),
                 bde_kind = Unchanged, bde_text_diff = None\<rparr>
      else map_option (\<lambda>d. \<lparr>bde_block_id_a = Some (sblk_id x), bde_block_id_b = Some (sblk_id y),
                             bde_kind = Modified, bde_text_diff = Some d\<rparr>)
             (diff_block_texts (sblk_plain_text x) (sblk_plain_text y)))"

text \<open>\<open>while i < n { entries.push(f(blocks[i])); i += 1 }\<close>.\<close>

definition entries_upto ::
  "(SnapshotBlock \<Rightarrow> BlockDiffEntry) \<Rightarrow> SnapshotBlock list \<Rightarrow> nat \<Rightarrow> nat \<Rightarrow> BlockDiffEntry list option" where
  "entries_upto f blocks i n = map_opt (\<lambda>k. map_option f (nth_opt blocks k)) [i..<n]"

text \<open>The main loop, over the matches that are left.\<close>

fun compare_loop ::
  "SnapshotBlock list \<Rightarrow> SnapshotBlock list \<Rightarrow> pairs \<Rightarrow> nat \<Rightarrow> nat \<Rightarrow> BlockDiffEntry list \<Rightarrow>
     BlockDiffEntry list option" where
  "compare_loop a b [] i j entries =
     (if i < length a \<or> j < length b
      then Option.bind (entries_upto removed_entry a i (length a)) (\<lambda>removed.
           Option.bind (entries_upto added_entry b j (length b)) (\<lambda>added.
           Some (entries @ removed @ added)))
      else Some entries)"
| "compare_loop a b ((next_i, next_j) # ms) i j entries =
     (if i < length a \<or> j < length b
      then Option.bind (entries_upto removed_entry a i next_i) (\<lambda>removed.
           Option.bind (entries_upto added_entry b j next_j) (\<lambda>added.
           Option.bind (nth_opt a (max i next_i)) (\<lambda>block_a.
           Option.bind (nth_opt b (max j next_j)) (\<lambda>block_b.
           Option.bind (matched_entry block_a block_b) (\<lambda>entry.
           compare_loop a b ms (max i next_i + 1) (max j next_j + 1)
             (entries @ removed @ added @ [entry]))))))
      else Some entries)"

definition count_kind :: "BlockDiffKind \<Rightarrow> BlockDiffEntry list \<Rightarrow> int" where
  "count_kind k entries = int (length (filter (\<lambda>e. bde_kind e = k) entries))"

definition compare_documents ::
  "ProjectSnapshotV1 \<Rightarrow> ProjectSnapshotV1 \<Rightarrow> string \<Rightarrow> string \<Rightarrow> DocumentDiffResult option" where
  "compare_documents snapshot_a snapshot_b document_id_a document_id_b =
     (let a = document_blocks snapshot_a document_id_a; b = document_blocks snapshot_b document_id_b in
      Option.bind (lcs_by_order_key a b) (\<lambda>matches.
      Option.bind (compare_loop a b matches 0 0 []) (\<lambda>entries.
      Some \<lparr>ddr_document_id_a = document_id_a, ddr_document_id_b = document_id_b,
            ddr_blocks = entries,
            ddr_summary = \<lparr>ds_added_count = count_kind Added entries,
                           ds_removed_count = count_kind Removed entries,
                           ds_modified_count = count_kind Modified entries,
                           ds_unchanged_count = count_kind Unchanged entries\<rparr>\<rparr>)))"

end
