(* ===== verification/Patience.thy ===== *)
theory Patience
  imports BlockDiff
begin

text \<open>
  Patience sorting is correct: over a list \<open>J\<close> of numbers the tails and their indices stand
  for strictly increasing chains, the predecessor array links each chain, and no chain is
  longer than the list of tails.
\<close>

section \<open>Chains\<close>

definition chain :: "nat list \<Rightarrow> nat \<Rightarrow> nat list \<Rightarrow> bool" where
  "chain J n c \<longleftrightarrow> set c \<subseteq> {..<n} \<and> sorted_wrt (<) c \<and> sorted_wrt (<) (map ((!) J) c)"

definition linked :: "int list \<Rightarrow> nat list \<Rightarrow> bool" where
  "linked prev c \<longleftrightarrow> c \<noteq> [] \<and> prev ! hd c = - 1
     \<and> (\<forall>k. Suc k < length c \<longrightarrow> prev ! (c ! Suc k) = int (c ! k))"

lemma chain_mono: "chain J n c \<Longrightarrow> n \<le> m \<Longrightarrow> chain J m c"
  by (auto simp: chain_def)

lemma chain_single: "n < m \<Longrightarrow> chain J m [n]"
  by (simp add: chain_def)

lemma sorted_snoc_iff:
  fixes xs :: "'a :: linorder list"
  assumes "xs \<noteq> []"
  shows "sorted_wrt (<) (xs @ [x]) \<longleftrightarrow> sorted_wrt (<) xs \<and> last xs < x"
  using assms
proof (induction xs)
  case (Cons y ys)
  then show ?case by (cases ys) (auto intro: less_trans)
qed simp

lemma chain_snoc:
  assumes "c \<noteq> []"
  shows "chain J (Suc n) (c @ [n]) \<longleftrightarrow> chain J n c \<and> J ! last c < J ! n"
proof -
  have "sorted_wrt (<) (map ((!) J) c @ [J ! n])
      \<longleftrightarrow> sorted_wrt (<) (map ((!) J) c) \<and> J ! last c < J ! n"
    using assms by (subst sorted_snoc_iff) (simp_all add: last_map)
  moreover have "set (c @ [n]) \<subseteq> {..<Suc n} \<and> sorted_wrt (<) (c @ [n])
      \<longleftrightarrow> set c \<subseteq> {..<n} \<and> sorted_wrt (<) c"
    by (auto simp: sorted_wrt_append)
  ultimately show ?thesis by (auto simp: chain_def)
qed

text \<open>A chain below \<open>Suc n\<close> is one below \<open>n\<close> or ends in \<open>n\<close>.\<close>

lemma chain_Suc_cases:
  assumes "chain J (Suc n) c" and "c \<noteq> []"
  shows "chain J n c \<or> (\<exists>c'. c = c' @ [n])"
proof (cases "n \<in> set c")
  case True
  then obtain xs ys where c: "c = xs @ n # ys" by (metis split_list)
  have "ys = []"
  proof (rule ccontr)
    assume "ys \<noteq> []"
    then obtain y where "y \<in> set ys" by (cases ys) auto
    with assms(1) c have "n < y" "y < Suc n" by (auto simp: chain_def sorted_wrt_append)
    then show False by simp
  qed
  with c show ?thesis by blast
next
  case False
  with assms have "set c \<subseteq> {..<n}" by (auto simp: chain_def less_Suc_eq)
  with assms show ?thesis by (auto simp: chain_def)
qed

lemma linked_single: "prev ! n = - 1 \<Longrightarrow> linked prev [n]"
  by (simp add: linked_def)

lemma linked_snoc:
  "linked prev c \<Longrightarrow> prev ! n = int (last c) \<Longrightarrow> linked prev (c @ [n])"
  unfolding linked_def
proof (intro conjI allI impI)
  assume prev: "c \<noteq> [] \<and> prev ! hd c = - 1
      \<and> (\<forall>k. Suc k < length c \<longrightarrow> prev ! (c ! Suc k) = int (c ! k))" "prev ! n = int (last c)"
  then show "prev ! hd (c @ [n]) = - 1" by simp
  fix k
  assume k: "Suc k < length (c @ [n])"
  show "prev ! ((c @ [n]) ! Suc k) = int ((c @ [n]) ! k)"
  proof (cases "Suc k < length c")
    case True
    with prev show ?thesis by (simp add: nth_append)
  next
    case False
    with k have "k = length c - 1" "k < length c" "Suc k = length c" by auto
    with prev show ?thesis by (simp add: nth_append last_conv_nth)
  qed
qed simp

lemma linked_update:
  assumes "linked prev c" and "n \<notin> set c"
  shows "linked (prev[n := x]) c"
proof -
  have "hd c \<in> set c" using assms(1) by (simp add: linked_def)
  then have "n \<noteq> hd c" using assms(2) by auto
  moreover have "n \<noteq> c ! Suc k" if "Suc k < length c" for k
    using assms(2) that nth_mem by blast
  ultimately show ?thesis using assms(1) by (simp add: linked_def)
qed

section \<open>The invariant of the loop\<close>

definition tail_chain ::
  "nat list \<Rightarrow> nat \<Rightarrow> nat list \<Rightarrow> nat list \<Rightarrow> int list \<Rightarrow> nat \<Rightarrow> bool" where
  "tail_chain J n tails tails_idx prev k \<longleftrightarrow>
     (\<exists>c. chain J n c \<and> length c = Suc k \<and> last c = tails_idx ! k \<and> linked prev c
          \<and> tails ! k = J ! (tails_idx ! k))"

definition lis_inv :: "nat list \<Rightarrow> nat \<Rightarrow> nat list \<times> nat list \<times> int list \<Rightarrow> bool" where
  "lis_inv J n = (\<lambda>(tails, tails_idx, prev).
     length tails_idx = length tails \<and> length prev = length J \<and> sorted_wrt (<) tails
     \<and> (\<forall>k < length tails. tail_chain J n tails tails_idx prev k)
     \<and> (\<forall>c. chain J n c \<and> c \<noteq> [] \<longrightarrow>
          length c \<le> length tails \<and> tails ! (length c - 1) \<le> J ! last c))"

lemma lis_inv_start: "lis_inv J 0 ([], [], replicate (length J) (- 1))"
  by (auto simp: lis_inv_def chain_def)

lemma takeWhile_less_facts:
  fixes tails :: "nat list" and j :: nat
  defines "pos \<equiv> length (takeWhile (\<lambda>t. t < j) tails)"
  shows "pos \<le> length tails" and "k < pos \<Longrightarrow> tails ! k < j"
    and "pos < length tails \<Longrightarrow> j \<le> tails ! pos"
proof -
  show "pos \<le> length tails" unfolding pos_def by (rule length_takeWhile_le)
  show "k < pos \<Longrightarrow> tails ! k < j"
    unfolding pos_def by (metis nth_mem set_takeWhileD takeWhile_nth)
  show "pos < length tails \<Longrightarrow> j \<le> tails ! pos"
    using nth_length_takeWhile [of "\<lambda>t. t < j" tails] by (simp add: pos_def not_less)
qed

text \<open>The tails after a step: position \<open>pos\<close> holds \<open>j\<close>, the others are unchanged.\<close>

definition put_at :: "nat \<Rightarrow> 'a \<Rightarrow> 'a list \<Rightarrow> 'a list" where
  "put_at pos x xs = (if pos = length xs then xs @ [x] else xs[pos := x])"

lemma put_at_length: "pos \<le> length xs \<Longrightarrow> length (put_at pos x xs) = max (length xs) (Suc pos)"
  by (auto simp: put_at_def)

lemma put_at_nth:
  "pos \<le> length xs \<Longrightarrow> k < max (length xs) (Suc pos) \<Longrightarrow>
   put_at pos x xs ! k = (if k = pos then x else xs ! k)"
  by (auto simp: put_at_def nth_append)

lemma lis_step_put_at:
  "lis_step (idx, i, j) (tails, tails_idx, prev) =
    (let pos = length (takeWhile (\<lambda>t. t < j) tails) in
     (put_at pos j tails,
      if pos = length tails then tails_idx @ [idx] else tails_idx[pos := idx],
      prev[idx := (if pos > 0 then int (tails_idx ! (pos - 1)) else - 1)]))"
  by (simp add: lis_step_def put_at_def Let_def)

lemma sorted_put_at:
  fixes tails :: "nat list"
  assumes "sorted_wrt (<) tails"
  shows "sorted_wrt (<) (put_at (length (takeWhile (\<lambda>t. t < j) tails)) j tails)"
proof -
  let ?pos = "length (takeWhile (\<lambda>t. t < j) tails)"
  note facts = takeWhile_less_facts [where j = j and tails = tails]
  have old: "tails ! k < tails ! l" if "k < l" "l < length tails" for k l
    using assms that by (simp add: sorted_wrt_iff_nth_less)
  have "put_at ?pos j tails ! k < put_at ?pos j tails ! l"
    if "k < l" "l < max (length tails) (Suc ?pos)" for k l
  proof -
    have "tails ! k < j" if "l = ?pos" using facts(2) \<open>k < l\<close> that by simp
    moreover have "j < tails ! l" if "k = ?pos"
    proof -
      have "l < length tails" using that \<open>k < l\<close> \<open>l < max _ _\<close> by simp
      then show ?thesis using facts(3) old [of k l] \<open>k < l\<close> that by fastforce
    qed
    moreover have "tails ! k < tails ! l" if "k \<noteq> ?pos" "l \<noteq> ?pos"
      using old that \<open>k < l\<close> \<open>l < max _ _\<close> facts(1) by (simp add: max_def split: if_splits)
    ultimately show ?thesis using that facts(1) by (simp add: put_at_nth)
  qed
  then show ?thesis
    using facts(1) by (simp add: sorted_wrt_iff_nth_less put_at_length)
qed

lemma lis_inv_step:
  assumes inv: "lis_inv J n (tails, tails_idx, prev)" and n: "n < length J"
  shows "lis_inv J (Suc n) (lis_step (n, i, J ! n) (tails, tails_idx, prev))"
proof -
  let ?j = "J ! n"
  let ?pos = "length (takeWhile (\<lambda>t. t < ?j) tails)"
  let ?tails = "put_at ?pos ?j tails"
  let ?idx = "put_at ?pos n tails_idx"
  let ?prev = "prev[n := (if ?pos > 0 then int (tails_idx ! (?pos - 1)) else - 1)]"
  note facts = takeWhile_less_facts [where j = ?j and tails = tails]
  have len: "length tails_idx = length tails" "length prev = length J"
    and sorted: "sorted_wrt (<) tails"
    and chains: "\<And>k. k < length tails \<Longrightarrow> tail_chain J n tails tails_idx prev k"
    and best: "\<And>c. chain J n c \<Longrightarrow> c \<noteq> [] \<Longrightarrow>
      length c \<le> length tails \<and> tails ! (length c - 1) \<le> J ! last c"
    using inv by (auto simp: lis_inv_def)
  have step: "lis_step (n, i, ?j) (tails, tails_idx, prev) = (?tails, ?idx, ?prev)"
    using len(1) by (simp add: lis_step_put_at put_at_def Let_def)
  have len': "length ?idx = length ?tails" using len(1) facts(1) by (simp add: put_at_length)
  have below: "n \<notin> set c" if "chain J n c" for c using that by (auto simp: chain_def)
  have "tail_chain J (Suc n) ?tails ?idx ?prev k" if k: "k < length ?tails" for k
  proof (cases "k = ?pos")
    case True
    then have at_k: "?tails ! k = ?j" "?idx ! k = n"
      using facts(1) len(1) by (simp_all add: put_at_nth)
    show ?thesis
    proof (cases "?pos = 0")
      case zero: True
      have "chain J (Suc n) [n]" by (rule chain_single) simp
      moreover have "linked ?prev [n]" using zero n len(2) by (intro linked_single) simp
      ultimately show ?thesis
        unfolding tail_chain_def using True zero at_k by (intro exI [of _ "[n]"]) simp
    next
      case False
      then have "?pos - 1 < length tails" "tails ! (?pos - 1) < ?j"
        using facts(1) facts(2) [of "?pos - 1"] by linarith+
      then obtain c where c: "chain J n c" "length c = Suc (?pos - 1)"
        "last c = tails_idx ! (?pos - 1)" "linked prev c" "J ! last c < ?j"
        using chains [of "?pos - 1"] by (auto simp: tail_chain_def)
      then have "c \<noteq> []" by auto
      with c have "chain J (Suc n) (c @ [n])" by (simp add: chain_snoc)
      moreover have "linked ?prev (c @ [n])"
        using linked_update [OF c(4) below [OF c(1)]] c(3) False n len(2)
        by (intro linked_snoc) simp_all
      ultimately show ?thesis
        unfolding tail_chain_def using True False at_k c(2) by (intro exI [of _ "c @ [n]"]) simp
    qed
  next
    case False
    with k facts(1) have k': "k < length tails" by (simp add: put_at_length max_def split: if_splits)
    then obtain c where c: "chain J n c" "length c = Suc k" "last c = tails_idx ! k"
      "linked prev c" "tails ! k = J ! (tails_idx ! k)"
      using chains by (auto simp: tail_chain_def)
    moreover have "?tails ! k = tails ! k" "?idx ! k = tails_idx ! k"
      using False k' facts(1) len(1) by (simp_all add: put_at_nth)
    ultimately show ?thesis
      unfolding tail_chain_def
      using chain_mono [OF c(1)] linked_update [OF c(4) below [OF c(1)]]
      by (intro exI [of _ c]) simp
  qed
  moreover have "length c \<le> length ?tails \<and> ?tails ! (length c - 1) \<le> J ! last c"
    if c: "chain J (Suc n) c" "c \<noteq> []" for c
    using chain_Suc_cases [OF c]
  proof
    assume old: "chain J n c"
    then have "length c \<le> length tails" "tails ! (length c - 1) \<le> J ! last c" using best c(2) by auto
    moreover have "?tails ! (length c - 1) \<le> tails ! (length c - 1)"
    proof (cases "length c - 1 = ?pos")
      case True
      moreover from this have "?pos < length tails"
        using \<open>length c \<le> length tails\<close> c(2) by (cases c) auto
      ultimately show ?thesis using facts by (simp add: put_at_nth)
    next
      case False
      moreover have "length c - 1 < length tails"
        using \<open>length c \<le> length tails\<close> c(2) by (cases c) auto
      ultimately show ?thesis using facts(1) by (simp add: put_at_nth)
    qed
    ultimately show ?thesis using facts(1) by (simp add: put_at_length)
  next
    assume "\<exists>c'. c = c' @ [n]"
    then obtain c' where c': "c = c' @ [n]" by blast
    have "length c' \<le> ?pos"
    proof (cases "c' = []")
      case False
      with c c' have "chain J n c'" "J ! last c' < ?j" by (simp_all add: chain_snoc)
      with best False have "tails ! (length c' - 1) < ?j" "length c' \<le> length tails" by fastforce+
      show ?thesis
      proof (rule ccontr)
        assume "\<not> length c' \<le> ?pos"
        then have pos: "?pos \<le> length c' - 1" "length c' - 1 < length tails"
          using \<open>length c' \<le> length tails\<close> False by (cases c'; simp)+
        have "tails ! ?pos \<le> tails ! (length c' - 1)"
          using sorted_nth_mono [of tails ?pos "length c' - 1"] sorted pos
          by (simp add: strict_sorted_iff)
        moreover have "?j \<le> tails ! ?pos" using facts(3) pos by simp
        ultimately show False using \<open>tails ! (length c' - 1) < ?j\<close> by simp
      qed
    qed simp
    moreover from this have "?tails ! length c' \<le> ?j"
      using facts by (cases "length c' = ?pos") (auto simp: put_at_nth intro: less_imp_le)
    ultimately show ?thesis using c' facts(1) by (simp add: put_at_length)
  qed
  ultimately show ?thesis
    using len len' sorted_put_at [OF sorted] by (simp add: step lis_inv_def)
qed

section \<open>The whole loop and its reconstruction\<close>

lemma lis_inv_prefix:
  assumes "n \<le> length ps"
  shows "lis_inv (map snd ps) n
    (fold lis_step (take n (enumerate 0 ps)) ([], [], replicate (length ps) (- 1)))"
  using assms
proof (induction n)
  case 0
  then show ?case using lis_inv_start [of "map snd ps"] by simp
next
  case (Suc n)
  let ?st = "fold lis_step (take n (enumerate 0 ps)) ([], [], replicate (length ps) (- 1))"
  obtain tails tails_idx prev where st: "?st = (tails, tails_idx, prev)" by (cases ?st)
  obtain i j where p: "ps ! n = (i, j)" by (cases "ps ! n")
  have "take (Suc n) (enumerate 0 ps) = take n (enumerate 0 ps) @ [(n, ps ! n)]"
    using Suc.prems by (simp add: take_Suc_conv_app_nth nth_enumerate_eq)
  moreover have "lis_inv (map snd ps) (Suc n) (lis_step (n, i, map snd ps ! n) (tails, tails_idx, prev))"
    using Suc st by (intro lis_inv_step) auto
  ultimately show ?case using Suc.prems st p by simp
qed

lemma lis_inv_tails: "lis_inv (map snd ps) (length ps) (lis_tails ps)"
  using lis_inv_prefix [of "length ps" ps] by (simp add: lis_tails_def)

lemma follow_linked:
  assumes "linked prev c" and "set c \<subseteq> {..<length ps}" and "length prev = length ps"
  shows "follow ps prev (int (last c)) acc = Some (map ((!) ps) c @ acc)"
  using assms
proof (induction c arbitrary: acc rule: rev_induct)
  case Nil
  then show ?case by (simp add: linked_def)
next
  case (snoc x c)
  have x: "x < length ps" using snoc.prems(2) by simp
  show ?case
  proof (cases "c = []")
    case True
    with snoc.prems(1) have "prev ! x = - 1" by (simp add: linked_def)
    moreover have "follow ps prev (- 1) acc' = Some acc'" for acc' by (subst follow.simps) simp
    ultimately show ?thesis using x snoc.prems(3) True by (subst follow.simps) simp
  next
    case False
    have "linked prev c"
      using snoc.prems(1) False by (auto simp: linked_def nth_append split: if_splits)
    moreover have "prev ! x = int (last c)"
    proof -
      have "\<And>k. Suc k < length (c @ [x]) \<Longrightarrow> prev ! ((c @ [x]) ! Suc k) = int ((c @ [x]) ! k)"
        using snoc.prems(1) unfolding linked_def by blast
      from this [of "length c - 1"] have "prev ! ((c @ [x]) ! length c) = int ((c @ [x]) ! (length c - 1))"
        using False by simp
      then show ?thesis using False by (simp add: nth_append last_conv_nth)
    qed
    ultimately show ?thesis
      using snoc.IH [of "ps ! x # acc"] snoc.prems(2,3) x by (subst follow.simps) simp
  qed
qed

lemma lis_of_pairs_longest:
  "\<exists>c. lis_of_pairs ps = Some (map ((!) ps) c) \<and> chain (map snd ps) (length ps) c
     \<and> (\<forall>c'. chain (map snd ps) (length ps) c' \<longrightarrow> length c' \<le> length c)"
proof -
  obtain tails tails_idx prev where st: "lis_tails ps = (tails, tails_idx, prev)"
    by (cases "lis_tails ps")
  have inv: "lis_inv (map snd ps) (length ps) (tails, tails_idx, prev)"
    using lis_inv_tails [of ps] st by simp
  have best: "length c' \<le> length tails" if "chain (map snd ps) (length ps) c'" for c'
    using inv that by (cases "c' = []") (auto simp: lis_inv_def)
  show ?thesis
  proof (cases "tails = []")
    case True
    then have "lis_of_pairs ps = Some (map ((!) ps) [])"
      by (simp add: lis_of_pairs_def st follow.simps)
    with best True show ?thesis by (intro exI [of _ "[]"]) (auto simp: chain_def)
  next
    case False
    then have "length tails - 1 < length tails" by simp
    with inv obtain c where c: "chain (map snd ps) (length ps) c" "length c = Suc (length tails - 1)"
      "last c = tails_idx ! (length tails - 1)" "linked prev c"
      by (auto simp: lis_inv_def tail_chain_def)
    moreover have "length prev = length ps" using inv by (simp add: lis_inv_def)
    ultimately have "lis_of_pairs ps = Some (map ((!) ps) c)"
      using False follow_linked [of prev c ps "[]"] by (simp add: lis_of_pairs_def st chain_def)
    with c False best show ?thesis by (intro exI [of _ c]) auto
  qed
qed

section \<open>Alignments\<close>

text \<open>Pairs of positions with equal order keys that do not cross.\<close>

definition alignment :: "SnapshotBlock list \<Rightarrow> SnapshotBlock list \<Rightarrow> pairs \<Rightarrow> bool" where
  "alignment a b ms \<longleftrightarrow>
     (\<forall>(i, j) \<in> set ms. i < length a \<and> j < length b \<and> sblk_order_key (a ! i) = sblk_order_key (b ! j))
     \<and> sorted_wrt (<) (map fst ms) \<and> sorted_wrt (<) (map snd ms)"

definition longest_alignment :: "SnapshotBlock list \<Rightarrow> SnapshotBlock list \<Rightarrow> pairs \<Rightarrow> bool" where
  "longest_alignment a b ms \<longleftrightarrow>
     alignment a b ms \<and> (\<forall>ms'. alignment a b ms' \<longrightarrow> length ms' \<le> length ms)"

lemma key_index_iff: "j \<in> set (key_index b k) \<longleftrightarrow> j < length b \<and> sblk_order_key (b ! j) = k"
  by (auto simp: key_index_def in_set_enumerate_eq image_iff)

lemma distinct_key_index: "distinct (key_index b k)"
  unfolding key_index_def by (rule distinct_map_filter) simp

lemma match_pairs_iff:
  "(i, j) \<in> set (match_pairs a b) \<longleftrightarrow>
     i < length a \<and> j < length b \<and> sblk_order_key (a ! i) = sblk_order_key (b ! j)"
proof
  assume "(i, j) \<in> set (match_pairs a b)"
  then show "i < length a \<and> j < length b \<and> sblk_order_key (a ! i) = sblk_order_key (b ! j)"
    by (auto simp: match_pairs_def in_set_enumerate_eq key_index_iff)
next
  assume *: "i < length a \<and> j < length b \<and> sblk_order_key (a ! i) = sblk_order_key (b ! j)"
  then have "(i, a ! i) \<in> set (enumerate 0 a)" by (simp add: in_set_enumerate_eq)
  then have "map (Pair i) (key_index b (sblk_order_key (a ! i)))
      \<in> (\<lambda>(i, block). map (Pair i) (key_index b (sblk_order_key block))) ` set (enumerate 0 a)"
    by (rule image_eqI [rotated]) simp
  moreover from * have "(i, j) \<in> set (map (Pair i) (key_index b (sblk_order_key (a ! i))))"
    by (simp add: key_index_iff)
  moreover have "set (match_pairs a b) = \<Union> (set ` (\<lambda>(i, block).
      map (Pair i) (key_index b (sblk_order_key block))) ` set (enumerate 0 a))"
    by (simp only: match_pairs_def set_concat list.set_map)
  ultimately show "(i, j) \<in> set (match_pairs a b)" by (metis UnionI imageI)
qed

lemma distinct_match_pairs: "distinct (match_pairs a b)"
proof -
  have "distinct (concat (map (\<lambda>(i, x). map (Pair i) (f x)) (enumerate n xs)))"
    if "\<And>x. distinct (f x)" for f :: "SnapshotBlock \<Rightarrow> nat list" and n xs
    by (induction xs arbitrary: n)
      (auto simp: that distinct_map inj_on_def in_set_enumerate_eq)
  then show ?thesis by (simp add: match_pairs_def distinct_key_index)
qed

abbreviation pair_order :: "nat \<times> nat \<Rightarrow> nat \<times> nat desc" where
  "pair_order \<equiv> \<lambda>(i, j). (i, Desc j)"

lemma pair_order_less: "pair_order (i, j) < pair_order (i', j') \<longleftrightarrow> i < i' \<or> i = i' \<and> j' < j"
  by (auto simp: less_prod_def)

lemma sorted_pairs:
  fixes ps :: pairs
  assumes "distinct ps" and "k < l" and "l < length ps"
  shows "pair_order (sort_key pair_order ps ! k) < pair_order (sort_key pair_order ps ! l)"
proof -
  let ?qs = "sort_key pair_order ps"
  have "map pair_order ?qs ! k \<le> map pair_order ?qs ! l"
    using assms by (intro sorted_nth_mono) auto
  moreover have "?qs ! k \<noteq> ?qs ! l"
    using assms by (subst nth_eq_iff_index_eq) auto
  then have "pair_order (?qs ! k) \<noteq> pair_order (?qs ! l)"
    by (cases "?qs ! k"; cases "?qs ! l") auto
  ultimately show ?thesis using assms by simp
qed

lemma chain_alignment:
  assumes "chain (map snd qs) (length qs) c" and qs: "qs = sort_key pair_order (match_pairs a b)"
  shows "alignment a b (map ((!) qs) c)"
proof -
  have len: "length qs = length (match_pairs a b)" by (simp add: qs)
  have set_qs: "set qs = set (match_pairs a b)" by (simp add: qs)
  have c: "set c \<subseteq> {..<length qs}" "sorted_wrt (<) c" "sorted_wrt (<) (map ((!) (map snd qs)) c)"
    using assms(1) by (simp_all add: chain_def)
  have "snd (qs ! x) < snd (qs ! y)" "fst (qs ! x) < fst (qs ! y)"
    if "k < l" "l < length c" "x = c ! k" "y = c ! l" for k l x y
  proof -
    have xy: "x < y" "x < length qs" "y < length qs"
      using c that by (auto simp: sorted_wrt_iff_nth_less subset_iff)
    have "map snd qs ! x < map snd qs ! y"
      using c(3) that by (simp add: sorted_wrt_iff_nth_less)
    with xy show j: "snd (qs ! x) < snd (qs ! y)" by simp
    have "pair_order (qs ! x) < pair_order (qs ! y)"
      using sorted_pairs [OF distinct_match_pairs xy(1)] xy(3) len by (simp add: qs)
    with j show "fst (qs ! x) < fst (qs ! y)"
      by (cases "qs ! x"; cases "qs ! y") (auto simp: pair_order_less)
  qed
  then have "sorted_wrt (<) (map fst (map ((!) qs) c))" "sorted_wrt (<) (map snd (map ((!) qs) c))"
    by (auto simp: sorted_wrt_iff_nth_less)
  moreover have "set (map ((!) qs) c) \<subseteq> set (match_pairs a b)"
    using c(1) set_qs by (auto simp: subset_iff)
  then have "case p of (i, j) \<Rightarrow> i < length a \<and> j < length b
      \<and> sblk_order_key (a ! i) = sblk_order_key (b ! j)" if "p \<in> set (map ((!) qs) c)" for p
    using subsetD [OF _ that] match_pairs_iff [of "fst p" "snd p" a b] by (cases p) simp
  ultimately show ?thesis unfolding alignment_def by blast
qed

lemma alignment_chain:
  assumes "alignment a b ms" and qs: "qs = sort_key pair_order (match_pairs a b)"
  shows "\<exists>c. chain (map snd qs) (length qs) c \<and> length c = length ms"
proof -
  have len: "length qs = length (match_pairs a b)" by (simp add: qs)
  have "p \<in> set qs" if "p \<in> set ms" for p
    using assms(1) that match_pairs_iff [of "fst p" "snd p"]
    by (cases p) (auto simp: alignment_def qs)
  then have "set ms \<subseteq> set qs" by blast
  then have "\<exists>x < length qs. qs ! x = ms ! k" if "k < length ms" for k
    using nth_mem [OF that] by (metis in_set_conv_nth subsetD)
  then obtain pos where pos: "\<And>k. k < length ms \<Longrightarrow> pos k < length qs \<and> qs ! pos k = ms ! k" by metis
  have "pos k < pos l" if "k < l" "l < length ms" for k l
  proof (rule ccontr)
    assume "\<not> pos k < pos l"
    moreover have less: "fst (ms ! k) < fst (ms ! l)"
      using assms(1) that by (simp add: alignment_def sorted_wrt_iff_nth_less)
    then have "pos k \<noteq> pos l" using pos [of k] pos [of l] that by auto
    ultimately have "pos l < pos k" by simp
    then have "pair_order (qs ! pos l) < pair_order (qs ! pos k)"
      unfolding qs using pos [of k] that len by (intro sorted_pairs [OF distinct_match_pairs]) auto
    then have "pair_order (ms ! l) < pair_order (ms ! k)"
      using pos [of k] pos [of l] that by simp
    with less show False by (cases "ms ! k"; cases "ms ! l") (auto simp: pair_order_less)
  qed
  moreover have "map ((!) (map snd qs)) (map pos [0..<length ms]) = map snd ms"
    using pos by (intro nth_equalityI) auto
  moreover have "sorted_wrt (<) (map snd ms)" using assms(1) by (simp add: alignment_def)
  ultimately have "chain (map snd qs) (length qs) (map pos [0..<length ms])"
    using pos by (simp add: chain_def sorted_wrt_iff_nth_less image_subset_iff del: map_map)
  then show ?thesis by (intro exI [of _ "map pos [0..<length ms]"]) simp
qed

lemma lis_of_match_pairs:
  "\<exists>ms. lis_of_pairs (sort_key pair_order (match_pairs a b)) = Some ms \<and> longest_alignment a b ms"
proof -
  let ?qs = "sort_key pair_order (match_pairs a b)"
  obtain c where c: "lis_of_pairs ?qs = Some (map ((!) ?qs) c)" "chain (map snd ?qs) (length ?qs) c"
    "\<And>c'. chain (map snd ?qs) (length ?qs) c' \<Longrightarrow> length c' \<le> length c"
    using lis_of_pairs_longest [of ?qs] by blast
  have "length ms' \<le> length (map ((!) ?qs) c)" if "alignment a b ms'" for ms'
    using alignment_chain [OF that refl] c(3) by fastforce
  with c(1) chain_alignment [OF c(2) refl] show ?thesis by (auto simp: longest_alignment_def)
qed

end
