(* ===== verification/LcsTable.thy ===== *)
theory LcsTable
  imports Patience
begin

text \<open>
  The table fallback computes a longest alignment too, so \<open>lcs_by_order_key\<close> does on every
  input; and the comparison of two documents that is built on it: it ends without a panic,
  reports every block exactly once and in order, and counts what it reports.
\<close>

section \<open>The reference recursion\<close>

fun lcs_len :: "SnapshotBlock list \<Rightarrow> SnapshotBlock list \<Rightarrow> nat \<Rightarrow> nat \<Rightarrow> nat" where
  "lcs_len a b (Suc i) (Suc j) =
     (if sblk_order_key (a ! i) = sblk_order_key (b ! j) then lcs_len a b i j + 1
      else max (lcs_len a b i (Suc j)) (lcs_len a b (Suc i) j))"
| "lcs_len a b _ _ = 0"

lemma lcs_len_0 [simp]: "lcs_len a b 0 j = 0" "lcs_len a b i 0 = 0"
  by (cases i; simp)+

definition filled ::
  "SnapshotBlock list \<Rightarrow> SnapshotBlock list \<Rightarrow> nat list list \<Rightarrow> nat \<Rightarrow> nat \<Rightarrow> bool" where
  "filled a b dp i0 j0 \<longleftrightarrow>
     length dp = length a + 1 \<and> (\<forall>i \<le> length a. length (dp ! i) = length b + 1)
     \<and> (\<forall>i \<le> length a. \<forall>j \<le> length b.
          dp ! i ! j = (if i < i0 \<or> i = i0 \<and> j < j0 then lcs_len a b i j else 0))"

lemma dp_cell_filled:
  assumes "filled a b dp i j" and "1 \<le> i" "i \<le> length a" "1 \<le> j" "j \<le> length b"
  shows "filled a b (dp_cell a b i j dp) i (Suc j)"
proof -
  obtain i' j' where ij: "i = Suc i'" "j = Suc j'" using assms(2,4) by (metis Suc_le_D One_nat_def)
  have get: "dp ! x ! y = (if x < i \<or> x = i \<and> y < j then lcs_len a b x y else 0)"
    if "x \<le> length a" "y \<le> length b" for x y
    using assms(1) that by (simp add: filled_def)
  let ?v = "if sblk_order_key (a ! (i - 1)) = sblk_order_key (b ! (j - 1))
        then dp_get dp (i - 1) (j - 1) + 1 else max (dp_get dp (i - 1) j) (dp_get dp i (j - 1))"
  have v: "?v = lcs_len a b i j"
    using assms(3,5) ij by (simp add: dp_get_def get)
  have len: "length dp = length a + 1" "\<And>x. x \<le> length a \<Longrightarrow> length (dp ! x) = length b + 1"
    using assms(1) by (simp_all add: filled_def)
  have cell: "dp_cell a b i j dp ! x ! y = (if x = i \<and> y = j then ?v else dp ! x ! y)"
    if "x \<le> length a" "y \<le> length b" for x y
    using that assms(3,5) len by (simp add: dp_cell_def nth_list_update)
  have "length (dp_cell a b i j dp ! x) = length b + 1" if "x \<le> length a" for x
    using that len by (cases "x = i") (simp_all add: dp_cell_def)
  moreover have "length (dp_cell a b i j dp) = length a + 1" using len by (simp add: dp_cell_def)
  ultimately show ?thesis
    unfolding filled_def using cell get v by (auto simp: less_Suc_eq)
qed

lemma dp_row_filled:
  assumes "filled a b dp i 1" and "1 \<le> i" "i \<le> length a" and "n \<le> length b"
  shows "filled a b (fold (dp_cell a b i) [1..<n + 1] dp) i (n + 1)"
  using assms(4)
proof (induction n)
  case 0
  then show ?case using assms(1) by simp
next
  case (Suc n)
  then have "filled a b (dp_cell a b i (Suc n) (fold (dp_cell a b i) [1..<n + 1] dp)) i (Suc (Suc n))"
    using assms(2,3) by (intro dp_cell_filled) simp_all
  then show ?case by simp
qed

lemma next_row_filled: "filled a b dp i (length b + 1) \<Longrightarrow> filled a b dp (Suc i) 1"
  by (auto simp: filled_def less_Suc_eq)

lemma dp_rows_filled:
  "n \<le> length a \<Longrightarrow>
   filled a b (fold (\<lambda>i. fold (dp_cell a b i) [1..<length b + 1]) [1..<n + 1]
     (replicate (length a + 1) (replicate (length b + 1) 0))) (Suc n) 1"
proof (induction n)
  case 0
  show ?case by (auto simp: filled_def less_Suc_eq_le simp del: replicate_Suc)
next
  case (Suc n)
  let ?dp = "fold (\<lambda>i. fold (dp_cell a b i) [1..<length b + 1]) [1..<n + 1]
     (replicate (length a + 1) (replicate (length b + 1) 0))"
  have "filled a b (fold (dp_cell a b (Suc n)) [1..<length b + 1] ?dp) (Suc n) (length b + 1)"
    using Suc by (intro dp_row_filled) simp_all
  then show ?case using next_row_filled by simp
qed

lemma dp_table_get:
  "i \<le> length a \<Longrightarrow> j \<le> length b \<Longrightarrow> dp_get (dp_table a b) i j = lcs_len a b i j"
  using dp_rows_filled [of "length a" a b]
  by (simp add: dp_table_def dp_get_def filled_def)

section \<open>The walk through the table\<close>

definition prefix_alignment ::
  "SnapshotBlock list \<Rightarrow> SnapshotBlock list \<Rightarrow> nat \<Rightarrow> nat \<Rightarrow> pairs \<Rightarrow> bool" where
  "prefix_alignment a b i j ms \<longleftrightarrow> alignment a b ms \<and> (\<forall>(x, y) \<in> set ms. x < i \<and> y < j)"

lemma prefix_alignment_mono:
  "prefix_alignment a b i j ms \<Longrightarrow> i \<le> i' \<Longrightarrow> j \<le> j' \<Longrightarrow> prefix_alignment a b i' j' ms"
  by (fastforce simp: prefix_alignment_def)

lemma prefix_alignment_snoc:
  "prefix_alignment a b (Suc i) (Suc j) (ms @ [(x, y)]) \<longleftrightarrow>
     prefix_alignment a b x y ms \<and> x \<le> i \<and> y \<le> j \<and> x < length a \<and> y < length b
     \<and> sblk_order_key (a ! x) = sblk_order_key (b ! y)"
  by (fastforce simp: prefix_alignment_def alignment_def sorted_wrt_append)

lemma dp_walk_alignment:
  assumes "\<And>x y. x \<le> length a \<Longrightarrow> y \<le> length b \<Longrightarrow> dp_get dp x y = lcs_len a b x y"
    and "i \<le> length a" and "j \<le> length b"
  shows "\<exists>ms. dp_walk a b dp i j acc = ms @ acc \<and> prefix_alignment a b i j ms
     \<and> length ms = lcs_len a b i j"
  using assms
proof (induction a b dp i j acc rule: dp_walk.induct)
  case (1 a b dp i j acc)
  show ?case
  proof (cases "sblk_order_key (a ! i) = sblk_order_key (b ! j)")
    case True
    then obtain ms where ms: "dp_walk a b dp i j ((i, j) # acc) = ms @ (i, j) # acc"
      "prefix_alignment a b i j ms" "length ms = lcs_len a b i j"
      using 1 by force
    then have "prefix_alignment a b (Suc i) (Suc j) (ms @ [(i, j)])"
      using 1(5,6) True by (simp add: prefix_alignment_snoc)
    with ms True show ?thesis by (intro exI [of _ "ms @ [(i, j)]"]) simp
  next
    case False
    have get: "dp_get dp i (Suc j) = lcs_len a b i (Suc j)" "dp_get dp (Suc i) j = lcs_len a b (Suc i) j"
      using 1(4-6) by simp_all
    show ?thesis
    proof (cases "dp_get dp i (Suc j) \<ge> dp_get dp (Suc i) j")
      case True
      then obtain ms where ms: "dp_walk a b dp i (Suc j) acc = ms @ acc"
        "prefix_alignment a b i (Suc j) ms" "length ms = lcs_len a b i (Suc j)"
        using 1 False by force
      with True False get show ?thesis
        by (intro exI [of _ ms]) (auto intro: prefix_alignment_mono)
    next
      case less: False
      then obtain ms where ms: "dp_walk a b dp (Suc i) j acc = ms @ acc"
        "prefix_alignment a b (Suc i) j ms" "length ms = lcs_len a b (Suc i) j"
        using 1 False by force
      with less False get show ?thesis
        by (intro exI [of _ ms]) (auto intro: prefix_alignment_mono)
    qed
  qed
qed (auto simp: prefix_alignment_def alignment_def)

lemma lcs_len_bound: "prefix_alignment a b i j ms \<Longrightarrow> length ms \<le> lcs_len a b i j"
proof (induction a b i j arbitrary: ms rule: lcs_len.induct)
  case (1 a b i j)
  show ?case
  proof (cases ms rule: rev_cases)
    case (snoc ms' p)
    obtain x y where p: "p = (x, y)" by (cases p)
    note facts = "1.prems" [unfolded snoc p prefix_alignment_snoc]
    show ?thesis
    proof (cases "sblk_order_key (a ! i) = sblk_order_key (b ! j)")
      case True
      have "prefix_alignment a b i j ms'" using facts by (auto intro: prefix_alignment_mono)
      with 1 True snoc show ?thesis by simp
    next
      case False
      then have "x < i \<or> y < j" using facts by (auto simp: le_less)
      then show ?thesis
      proof
        assume "x < i"
        then have "prefix_alignment a b i (Suc j) ms"
          using "1.prems" facts snoc p by (fastforce simp: prefix_alignment_def)
        with 1(2) False show ?thesis by fastforce
      next
        assume "y < j"
        then have "prefix_alignment a b (Suc i) j ms"
          using "1.prems" facts snoc p by (fastforce simp: prefix_alignment_def)
        with 1(3) False show ?thesis by fastforce
      qed
    qed
  qed simp
qed (case_tac ms; auto simp: prefix_alignment_def)+

lemma alignment_prefix: "alignment a b ms \<longleftrightarrow> prefix_alignment a b (length a) (length b) ms"
  by (auto simp: prefix_alignment_def alignment_def)

lemma lcs_dp_longest: "longest_alignment a b (lcs_by_order_key_dp a b)"
proof -
  obtain ms where "lcs_by_order_key_dp a b = ms" "alignment a b ms"
    "length ms = lcs_len a b (length a) (length b)"
    using dp_walk_alignment [of a b "dp_table a b" "length a" "length b" "[]"] dp_table_get
    by (auto simp: lcs_by_order_key_dp_def alignment_prefix)
  then show ?thesis
    using lcs_len_bound by (auto simp: longest_alignment_def alignment_prefix)
qed

lemma no_pairs_longest: "match_pairs a b = [] \<Longrightarrow> longest_alignment a b []"
  using match_pairs_iff [where a = a and b = b]
  by (auto simp: longest_alignment_def alignment_def) (case_tac ms', auto)

lemma lis_or_table_longest:
  "\<exists>ms. lcs_by_order_key a b = Some ms \<and> longest_alignment a b ms"
proof -
  have "longest_alignment a b []" if "a = [] \<or> b = []"
    using that by (intro no_pairs_longest) (auto simp: match_pairs_def key_index_def)
  then show ?thesis
    using lis_of_match_pairs [of a b] lcs_dp_longest [of a b] no_pairs_longest [of a b]
    by (auto simp: lcs_by_order_key_def Let_def)
qed

text \<open>
  C18. \<open>lcs_by_order_key\<close> never panics and its loops end; on both of its paths, patience
  sorting over the matching pairs and the table for dense inputs, it returns pairs of
  positions with equal order keys that do not cross, and no such alignment is longer.
\<close>

theorem lcs_by_order_key_longest:
  "\<exists>ms. lcs_by_order_key a b = Some ms \<and> longest_alignment a b ms"
  by (rule lis_or_table_longest)

section \<open>The comparison reports every block once\<close>

definition ids_a :: "BlockDiffEntry list \<Rightarrow> string list" where
  "ids_a es = List.map_filter bde_block_id_a es"

definition ids_b :: "BlockDiffEntry list \<Rightarrow> string list" where
  "ids_b es = List.map_filter bde_block_id_b es"

definition is_match :: "BlockDiffEntry \<Rightarrow> bool" where
  "is_match e \<longleftrightarrow> bde_kind e = Unchanged \<or> bde_kind e = Modified"

text \<open>What an entry says about the blocks it names.\<close>

definition entry_ok :: "SnapshotBlock list \<Rightarrow> SnapshotBlock list \<Rightarrow> BlockDiffEntry \<Rightarrow> bool" where
  "entry_ok a b e \<longleftrightarrow>
     (case bde_kind e of
        Removed \<Rightarrow> \<exists>x \<in> set a. e = removed_entry x
      | Added \<Rightarrow> \<exists>y \<in> set b. e = added_entry y
      | Unchanged \<Rightarrow> \<exists>x \<in> set a. \<exists>y \<in> set b. bde_block_id_a e = Some (sblk_id x)
          \<and> bde_block_id_b e = Some (sblk_id y) \<and> sblk_order_key x = sblk_order_key y
          \<and> sblk_content_hash x = sblk_content_hash y \<and> bde_text_diff e = None
      | Modified \<Rightarrow> \<exists>x \<in> set a. \<exists>y \<in> set b. bde_block_id_a e = Some (sblk_id x)
          \<and> bde_block_id_b e = Some (sblk_id y) \<and> sblk_order_key x = sblk_order_key y
          \<and> sblk_content_hash x \<noteq> sblk_content_hash y
          \<and> (\<exists>ops. bde_text_diff e = Some ops \<and> old_text ops = sblk_plain_text x
                \<and> new_text ops = sblk_plain_text y))"

lemma ids_append [simp]: "ids_a (xs @ ys) = ids_a xs @ ids_a ys" "ids_b (xs @ ys) = ids_b xs @ ids_b ys"
  by (simp_all add: ids_a_def ids_b_def map_filter_def)

lemma ids_removed [simp]:
  "ids_a (map removed_entry xs) = map sblk_id xs" "ids_b (map removed_entry xs) = []"
  by (induction xs) (simp_all add: ids_a_def ids_b_def map_filter_def removed_entry_def)

lemma ids_added [simp]:
  "ids_a (map added_entry xs) = []" "ids_b (map added_entry xs) = map sblk_id xs"
  by (induction xs) (simp_all add: ids_a_def ids_b_def map_filter_def added_entry_def)

lemma kind_removed [simp]: "bde_kind (removed_entry x) = Removed"
  and kind_added [simp]: "bde_kind (added_entry x) = Added"
  by (simp_all add: removed_entry_def added_entry_def)

lemma entry_ok_removed: "x \<in> set a \<Longrightarrow> entry_ok a b (removed_entry x)"
  and entry_ok_added: "y \<in> set b \<Longrightarrow> entry_ok a b (added_entry y)"
  by (auto simp: entry_ok_def)

lemma entries_upto_Some:
  "n \<le> length xs \<Longrightarrow> entries_upto f xs i n = Some (map f (map ((!) xs) [i..<n]))"
  unfolding entries_upto_def by (subst map_opt_Some [where g = "\<lambda>k. f (xs ! k)"]) simp_all

lemma matched_entry_Some:
  assumes "x \<in> set a" and "y \<in> set b" and "sblk_order_key x = sblk_order_key y"
  shows "\<exists>e. matched_entry x y = Some e \<and> entry_ok a b e \<and> is_match e
    \<and> bde_block_id_a e = Some (sblk_id x) \<and> bde_block_id_b e = Some (sblk_id y)"
proof (cases "sblk_content_hash x = sblk_content_hash y")
  case True
  with assms show ?thesis by (auto simp: matched_entry_def entry_ok_def is_match_def)
next
  case False
  obtain ops where "diff_block_texts (sblk_plain_text x) (sblk_plain_text y) = Some ops"
    "old_text ops = sblk_plain_text x" "new_text ops = sblk_plain_text y"
    using block_texts_diff [of "sblk_plain_text x" "sblk_plain_text y"] by blast
  with assms False show ?thesis by (auto simp: matched_entry_def entry_ok_def is_match_def)
qed

lemma drop_split: "i \<le> n \<Longrightarrow> drop i xs = map ((!) xs) [i..<min n (length xs)] @ drop n xs"
  by (intro nth_equalityI) (auto simp: nth_append min_def add.commute)

lemma compare_loop_complete:
  assumes "alignment a b ms" and "\<forall>(x, y) \<in> set ms. i \<le> x \<and> j \<le> y"
  shows "\<exists>es. compare_loop a b ms i j acc = Some (acc @ es)
    \<and> ids_a es = map sblk_id (drop i a) \<and> ids_b es = map sblk_id (drop j b)
    \<and> (\<forall>e \<in> set es. entry_ok a b e) \<and> length (filter is_match es) = length ms"
  using assms
proof (induction ms arbitrary: i j acc)
  case Nil
  let ?es = "map removed_entry (drop i a) @ map added_entry (drop j b)"
  have rest: "map ((!) xs) [k..<length xs] = drop k xs" for k :: nat and xs :: "SnapshotBlock list"
    by (intro nth_equalityI) auto
  have "compare_loop a b [] i j acc = Some (acc @ ?es)"
    by (simp add: entries_upto_Some rest del: map_map)
  moreover have "\<forall>e \<in> set ?es. entry_ok a b e"
    by (auto intro: entry_ok_removed entry_ok_added dest: in_set_dropD)
  ultimately show ?case by (intro exI [of _ ?es]) (simp add: is_match_def)
next
  case (Cons m ms)
  obtain x y where m: "m = (x, y)" by (cases m)
  have xy: "x < length a" "y < length b" "sblk_order_key (a ! x) = sblk_order_key (b ! y)"
    "i \<le> x" "j \<le> y"
    using Cons.prems m by (auto simp: alignment_def)
  obtain e where e: "matched_entry (a ! x) (b ! y) = Some e" "entry_ok a b e" "is_match e"
    "bde_block_id_a e = Some (sblk_id (a ! x))" "bde_block_id_b e = Some (sblk_id (b ! y))"
    using matched_entry_Some [of "a ! x" a "b ! y" b] xy by auto
  let ?gap = "map removed_entry (map ((!) a) [i..<x]) @ map added_entry (map ((!) b) [j..<y])"
  have tail: "alignment a b ms" using Cons.prems(1) by (simp add: alignment_def)
  have "\<forall>(x', y') \<in> set ms. x + 1 \<le> x' \<and> y + 1 \<le> y'"
    using Cons.prems(1) m by (fastforce simp: alignment_def)
  from Cons.IH [OF tail this] obtain es where es:
    "compare_loop a b ms (x + 1) (y + 1) (acc @ ?gap @ [e]) = Some ((acc @ ?gap @ [e]) @ es)"
    "ids_a es = map sblk_id (drop (x + 1) a)" "ids_b es = map sblk_id (drop (y + 1) b)"
    "\<forall>e \<in> set es. entry_ok a b e" "length (filter is_match es) = length ms"
    by metis
  have "compare_loop a b (m # ms) i j acc = compare_loop a b ms (x + 1) (y + 1) (acc @ ?gap @ [e])"
    using xy e(1) by (simp add: m entries_upto_Some max_def del: map_map)
  moreover have "drop i a = map ((!) a) [i..<x] @ a ! x # drop (x + 1) a"
    using drop_split [of i x a] xy by (simp add: Cons_nth_drop_Suc)
  moreover have "drop j b = map ((!) b) [j..<y] @ b ! y # drop (y + 1) b"
    using drop_split [of j y b] xy by (simp add: Cons_nth_drop_Suc)
  moreover have "\<forall>e \<in> set ?gap. entry_ok a b e" "filter is_match ?gap = []"
    using xy by (auto simp: is_match_def intro!: entry_ok_removed entry_ok_added nth_mem)
  moreover have "ids_a (e # es) = sblk_id (a ! x) # ids_a es" "ids_b (e # es) = sblk_id (b ! y) # ids_b es"
    using e by (simp_all add: ids_a_def ids_b_def map_filter_def)
  ultimately show ?case
    using es e by (intro exI [of _ "?gap @ [e] @ es"]) (simp add: ball_Un del: map_map)
qed



end
