(* ===== verification/ProjectTables.thy ===== *)
theory ProjectTables
  imports OperationTables
begin

text \<open>
  The tables of projects, documents, blocks, commits, branches, snapshots, style samples,
  knowledge items and summaries: their constraints and triggers in \<open>migration.rs\<close>
  (migrations 1, 3, 5, 6 and 7) as the statements that the modules of \<open>store\<close> execute.
\<close>

section \<open>Projects, documents and blocks\<close>

definition insert_project :: "ProjectRow \<Rightarrow> Database \<Rightarrow> Database StoreResult" where
  "insert_project p db =
     constrain
       [(0 \<le> pr_revision p, ConstraintCheck ''project''),
        (pr_id p \<notin> pr_id ` set (project_t db), ConstraintPrimaryKey ''project.id'')]
       (db\<lparr>project_t := project_t db @ [p]\<rparr>)"

text \<open>\<open>UNIQUE(project_id, parent_id, order_key)\<close>: rows with a NULL parent never collide.\<close>

definition sibling_clash :: "DocumentRecord \<Rightarrow> DocumentRecord \<Rightarrow> bool" where
  "sibling_clash d x \<longleftrightarrow>
     doc_project_id x = doc_project_id d \<and> doc_parent_id d \<noteq> None
     \<and> doc_parent_id x = doc_parent_id d \<and> doc_order_key x = doc_order_key d"

definition insert_document :: "DocumentRecord \<Rightarrow> Database \<Rightarrow> Database StoreResult" where
  "insert_document d db =
     constrain
       [(0 \<le> doc_revision d, ConstraintCheck ''document''),
        (doc_id d \<notin> doc_id ` set (document_t db), ConstraintPrimaryKey ''document.id''),
        (\<not> exists_row (sibling_clash d) (document_t db), ConstraintUnique ''document.order_key''),
        (doc_project_id d \<in> pr_id ` set (project_t db), ConstraintForeignKey ''project''),
        (opt_all (\<lambda>p. p \<in> doc_id ` set (document_t db @ [d])) (doc_parent_id d),
         ConstraintForeignKey ''document'')]
       (db\<lparr>document_t := document_t db @ [d]\<rparr>)"

text \<open>
  \<open>UPDATE document SET ... WHERE id = ...\<close> touches at most one row; the row is checked
  against the others.
\<close>

definition update_document ::
  "(DocumentRecord \<Rightarrow> DocumentRecord) \<Rightarrow> (DocumentRecord \<Rightarrow> bool) \<Rightarrow> Database
     \<Rightarrow> (nat \<times> Database) StoreResult" where
  "update_document upd hit db =
     (let hits = filter hit (document_t db)
      in constrain
           [(list_all (\<lambda>d. 0 \<le> doc_revision (upd d)) hits, ConstraintCheck ''document''),
            (list_all (\<lambda>d. \<not> exists_row (\<lambda>x. doc_id x \<noteq> doc_id d \<and> sibling_clash (upd d) x)
               (document_t db)) hits, ConstraintUnique ''document.order_key''),
            (list_all (\<lambda>d. opt_all (\<lambda>p. p \<in> doc_id ` set (document_t db)) (doc_parent_id (upd d)))
               hits, ConstraintForeignKey ''document'')]
           (length hits, db\<lparr>document_t := update_where hit upd (document_t db)\<rparr>))"

text \<open>The trigger \<open>block_fts_after_insert\<close> indexes a block that is not deleted.\<close>

definition fts_row :: "BlockRow \<Rightarrow> FtsRow" where
  "fts_row b = \<lparr>fts_block_id = blk_id b, fts_document_id = blk_document_id b,
                fts_plain_text = blk_plain_text b\<rparr>"

definition fts_rows :: "BlockRow \<Rightarrow> FtsRow list" where
  "fts_rows b = (if blk_deleted_at b = None then [fts_row b] else [])"

definition insert_block :: "Env \<Rightarrow> BlockRow \<Rightarrow> Database \<Rightarrow> Database StoreResult" where
  "insert_block env b db =
     constrain
       [(json_valid env (blk_content_json b), ConstraintCheck ''block''),
        (0 \<le> blk_revision b, ConstraintCheck ''block''),
        (blk_id b \<notin> blk_id ` set (block_t db), ConstraintPrimaryKey ''block.id''),
        ((blk_document_id b, blk_order_key b)
           \<notin> (\<lambda>x. (blk_document_id x, blk_order_key x)) ` set (block_t db),
         ConstraintUnique ''block.order_key''),
        (blk_document_id b \<in> doc_id ` set (document_t db), ConstraintForeignKey ''document'')]
       (db\<lparr>block_t := block_t db @ [b], block_fts_t := block_fts_t db @ fts_rows b\<rparr>)"

text \<open>
  \<open>UPDATE block SET ... WHERE id = ...\<close> touches at most one row. Every update of the code
  sets \<open>plain_text\<close> or \<open>deleted_at\<close>, so the trigger \<open>block_fts_after_update\<close> rebuilds the
  index row of the block.
\<close>

definition update_block ::
  "Env \<Rightarrow> (BlockRow \<Rightarrow> BlockRow) \<Rightarrow> (BlockRow \<Rightarrow> bool) \<Rightarrow> Database \<Rightarrow> (nat \<times> Database) StoreResult" where
  "update_block env upd hit db =
     (let hits = filter hit (block_t db)
      in constrain
           [(list_all (\<lambda>b. json_valid env (blk_content_json (upd b))) hits, ConstraintCheck ''block''),
            (list_all (\<lambda>b. 0 \<le> blk_revision (upd b)) hits, ConstraintCheck ''block''),
            (list_all (\<lambda>b. \<not> exists_row (\<lambda>x. blk_id x \<noteq> blk_id b
                  \<and> blk_document_id x = blk_document_id (upd b)
                  \<and> blk_order_key x = blk_order_key (upd b)) (block_t db)) hits,
             ConstraintUnique ''block.order_key''),
            (list_all (\<lambda>b. blk_document_id (upd b) \<in> doc_id ` set (document_t db)) hits,
             ConstraintForeignKey ''document'')]
           (length hits,
            db\<lparr>block_t := update_where hit upd (block_t db),
               block_fts_t := filter (\<lambda>f. fts_block_id f \<notin> blk_id ` set hits) (block_fts_t db)
                 @ concat (map (fts_rows \<circ> upd) hits)\<rparr>))"

text \<open>
  \<open>execute\<close> returns the number of rows that the statement touched; the code turns an
  unexpected number into an error.
\<close>

definition one_row :: "string \<Rightarrow> nat \<times> Database \<Rightarrow> Database StoreResult" where
  "one_row message r = (if fst r \<noteq> 1 then Inl (InvariantViolation message) else Inr (snd r))"

lemma one_row_Inr_iff [result_simps]: "one_row m r = Inr db \<longleftrightarrow> r = (1, db)"
  by (cases r) (auto simp: one_row_def)

section \<open>Commits and branches\<close>

definition insert_commit :: "CommitRow \<Rightarrow> Database \<Rightarrow> Database StoreResult" where
  "insert_commit c db =
     constrain
       [(cn_id c \<notin> cn_id ` set (commit_node_t db), ConstraintPrimaryKey ''commit_node.id''),
        (cn_project_id c \<in> pr_id ` set (project_t db), ConstraintForeignKey ''project'')]
       (db\<lparr>commit_node_t := commit_node_t db @ [c]\<rparr>)"

definition insert_commit_parent :: "CommitParentRow \<Rightarrow> Database \<Rightarrow> Database StoreResult" where
  "insert_commit_parent p db =
     constrain
       [(0 \<le> par_position p, ConstraintCheck ''commit_parent''),
        (par_commit_id p \<noteq> par_parent_id p, ConstraintCheck ''commit_parent''),
        ((par_commit_id p, par_parent_id p)
           \<notin> (\<lambda>x. (par_commit_id x, par_parent_id x)) ` set (commit_parent_t db),
         ConstraintPrimaryKey ''commit_parent''),
        ((par_commit_id p, par_position p)
           \<notin> (\<lambda>x. (par_commit_id x, par_position x)) ` set (commit_parent_t db),
         ConstraintUnique ''commit_parent.position''),
        (par_commit_id p \<in> cn_id ` set (commit_node_t db), ConstraintForeignKey ''commit_node''),
        (par_parent_id p \<in> cn_id ` set (commit_node_t db), ConstraintForeignKey ''commit_node'')]
       (db\<lparr>commit_parent_t := commit_parent_t db @ [p]\<rparr>)"

definition insert_branch :: "BranchRecord \<Rightarrow> Database \<Rightarrow> Database StoreResult" where
  "insert_branch b db =
     constrain
       [(br_id b \<notin> br_id ` set (branch_t db), ConstraintPrimaryKey ''branch.id''),
        ((br_project_id b, br_name b) \<notin> (\<lambda>x. (br_project_id x, br_name x)) ` set (branch_t db),
         ConstraintUnique ''branch.name''),
        (br_project_id b \<in> pr_id ` set (project_t db), ConstraintForeignKey ''project''),
        (br_head_commit_id b \<in> cn_id ` set (commit_node_t db), ConstraintForeignKey ''commit_node'')]
       (db\<lparr>branch_t := branch_t db @ [b]\<rparr>)"

definition insert_edit_journal :: "Env \<Rightarrow> EditJournalRow \<Rightarrow> Database \<Rightarrow> Database StoreResult" where
  "insert_edit_journal env e db =
     constrain
       [(0 \<le> ej_base_revision e, ConstraintCheck ''edit_journal''),
        (ej_new_revision e = ej_base_revision e + 1, ConstraintCheck ''edit_journal''),
        (json_valid env (ej_before_content_json e), ConstraintCheck ''edit_journal''),
        (json_valid env (ej_after_content_json e), ConstraintCheck ''edit_journal''),
        (ej_id e \<notin> ej_id ` set (edit_journal_t db), ConstraintPrimaryKey ''edit_journal.id''),
        (ej_project_id e \<in> pr_id ` set (project_t db), ConstraintForeignKey ''project''),
        (ej_block_id e \<in> blk_id ` set (block_t db), ConstraintForeignKey ''block'')]
       (db\<lparr>edit_journal_t := edit_journal_t db @ [e]\<rparr>)"

definition insert_change_set :: "ChangeSetRow \<Rightarrow> Database \<Rightarrow> Database StoreResult" where
  "insert_change_set c db =
     constrain
       [(0 \<le> chg_position c, ConstraintCheck ''change_set''),
        ((chg_commit_id c, chg_position c)
           \<notin> (\<lambda>x. (chg_commit_id x, chg_position x)) ` set (change_set_t db),
         ConstraintPrimaryKey ''change_set''),
        (chg_commit_id c \<in> cn_id ` set (commit_node_t db), ConstraintForeignKey ''commit_node''),
        (opt_all (\<lambda>e. e \<in> ej_id ` set (edit_journal_t db)) (chg_edit_journal_id c),
         ConstraintForeignKey ''edit_journal'')]
       (db\<lparr>change_set_t := change_set_t db @ [c]\<rparr>)"

text \<open>The head pointers: an UPDATE of a branch checks the foreign key of its new head.\<close>

definition update_branch_head ::
  "string \<Rightarrow> string \<Rightarrow> (BranchRecord \<Rightarrow> bool) \<Rightarrow> Database \<Rightarrow> (nat \<times> Database) StoreResult" where
  "update_branch_head commit_id updated_at hit db =
     constrain
       [(\<not> exists_row hit (branch_t db) \<or> commit_id \<in> cn_id ` set (commit_node_t db),
         ConstraintForeignKey ''commit_node'')]
       (rows_where hit (branch_t db),
        db\<lparr>branch_t := update_where hit
              (\<lambda>b. b\<lparr>br_head_commit_id := commit_id, br_updated_at := updated_at\<rparr>) (branch_t db)\<rparr>)"

definition update_project_head ::
  "string \<Rightarrow> (int \<Rightarrow> int) \<Rightarrow> string \<Rightarrow> (ProjectRow \<Rightarrow> bool) \<Rightarrow> Database
     \<Rightarrow> (nat \<times> Database) StoreResult" where
  "update_project_head commit_id revision updated_at hit db =
     constrain
       [(\<not> exists_row (\<lambda>p. hit p \<and> revision (pr_revision p) < 0) (project_t db),
         ConstraintCheck ''project'')]
       (rows_where hit (project_t db),
        db\<lparr>project_t := update_where hit
              (\<lambda>p. p\<lparr>pr_head_commit_id := Some commit_id, pr_revision := revision (pr_revision p),
                     pr_updated_at := updated_at\<rparr>) (project_t db)\<rparr>)"

section \<open>Snapshots and candidate branches\<close>

definition insert_snapshot :: "SnapshotRecord \<Rightarrow> Database \<Rightarrow> Database StoreResult" where
  "insert_snapshot s db =
     constrain
       [(1 \<le> snr_codec_version s, ConstraintCheck ''materialized_snapshot''),
        (snr_id s \<notin> snr_id ` set (snapshot_t db), ConstraintPrimaryKey ''materialized_snapshot.id''),
        ((snr_project_id s, snr_commit_id s, snr_codec s, snr_codec_version s)
           \<notin> (\<lambda>x. (snr_project_id x, snr_commit_id x, snr_codec x, snr_codec_version x))
               ` set (snapshot_t db),
         ConstraintUnique ''materialized_snapshot.commit_id''),
        (snr_project_id s \<in> pr_id ` set (project_t db), ConstraintForeignKey ''project''),
        (snr_commit_id s \<in> cn_id ` set (commit_node_t db), ConstraintForeignKey ''commit_node'')]
       (db\<lparr>snapshot_t := snapshot_t db @ [s]\<rparr>)"

definition insert_candidate :: "CandidateRow \<Rightarrow> Database \<Rightarrow> Database StoreResult" where
  "insert_candidate c db =
     constrain
       [(cb_proposal_id c \<notin> cb_proposal_id ` set (candidate_t db),
         ConstraintPrimaryKey ''patch_candidate_branch.proposal_id''),
        (cb_branch_id c \<notin> cb_branch_id ` set (candidate_t db),
         ConstraintUnique ''patch_candidate_branch.branch_id''),
        (cb_commit_id c \<notin> cb_commit_id ` set (candidate_t db),
         ConstraintUnique ''patch_candidate_branch.commit_id''),
        (cb_snapshot_id c \<notin> cb_snapshot_id ` set (candidate_t db),
         ConstraintUnique ''patch_candidate_branch.snapshot_id''),
        (cb_proposal_id c \<in> rh_proposal_id ` set (review_head_t db),
         ConstraintForeignKey ''patch_review_head''),
        (cb_branch_id c \<in> br_id ` set (branch_t db), ConstraintForeignKey ''branch''),
        (cb_commit_id c \<in> cn_id ` set (commit_node_t db), ConstraintForeignKey ''commit_node''),
        (cb_snapshot_id c \<in> snr_id ` set (snapshot_t db),
         ConstraintForeignKey ''materialized_snapshot'')]
       (db\<lparr>candidate_t := candidate_t db @ [c]\<rparr>)"

section \<open>Style samples and knowledge items\<close>

definition style_checks :: "StyleSampleRecord \<Rightarrow> bool" where
  "style_checks s \<longleftrightarrow>
     sty_status s \<in> set [''canonical'', ''archived'']
     \<and> sty_sensitivity s \<in> set [''local_sensitive'', ''never_send'']
     \<and> 0 \<le> sty_revision s"

definition insert_style :: "StyleSampleRecord \<Rightarrow> Database \<Rightarrow> Database StoreResult" where
  "insert_style s db =
     constrain
       [(style_checks s, ConstraintCheck ''style_sample''),
        (sty_id s \<notin> sty_id ` set (style_t db), ConstraintPrimaryKey ''style_sample.id''),
        (sty_project_id s \<in> pr_id ` set (project_t db), ConstraintForeignKey ''project'')]
       (db\<lparr>style_t := style_t db @ [s]\<rparr>)"

text \<open>
  A CHECK that evaluates to NULL passes: \<open>severity IN ('hard', 'soft')\<close> is NULL where the
  severity is, so the table accepts a constraint without severity.
\<close>

definition knowledge_checks :: "KnowledgeItemRecord \<Rightarrow> bool" where
  "knowledge_checks k \<longleftrightarrow>
     kn_kind k \<in> set [''fact'', ''constraint'']
     \<and> kn_status k \<in> set [''canonical'', ''archived'', ''rejected'']
     \<and> kn_authority k \<in> set [''user_confirmed'', ''source_derived'', ''model_inferred'',
                             ''external_untrusted'']
     \<and> kn_sensitivity k \<in> set [''public'', ''local'', ''local_sensitive'', ''never_send'']
     \<and> (kn_kind k = ''fact'' \<and> kn_severity k = None
        \<or> kn_kind k = ''constraint'' \<and> opt_all (\<lambda>s. s \<in> set [''hard'', ''soft'']) (kn_severity k))
     \<and> 0 \<le> kn_revision k"

definition insert_knowledge :: "KnowledgeItemRecord \<Rightarrow> Database \<Rightarrow> Database StoreResult" where
  "insert_knowledge k db =
     constrain
       [(knowledge_checks k, ConstraintCheck ''knowledge_item''),
        (kn_id k \<notin> kn_id ` set (knowledge_t db), ConstraintPrimaryKey ''knowledge_item.id''),
        (kn_project_id k \<in> pr_id ` set (project_t db), ConstraintForeignKey ''project'')]
       (db\<lparr>knowledge_t := knowledge_t db @ [k]\<rparr>)"

definition update_style_status ::
  "string \<Rightarrow> string \<Rightarrow> string \<Rightarrow> string \<Rightarrow> int \<Rightarrow> Database \<Rightarrow> (nat \<times> Database) StoreResult" where
  "update_style_status status updated_at project_id item_id revision db =
     (let hit = (\<lambda>s. sty_project_id s = project_id \<and> sty_id s = item_id \<and> sty_revision s = revision);
          upd = (\<lambda>s. s\<lparr>sty_status := status, sty_revision := sty_revision s + 1,
                          sty_updated_at := updated_at\<rparr>)
      in constrain
           [(\<not> exists_row (\<lambda>s. hit s \<and> \<not> style_checks (upd s)) (style_t db),
             ConstraintCheck ''style_sample'')]
           (rows_where hit (style_t db), db\<lparr>style_t := update_where hit upd (style_t db)\<rparr>))"

definition update_knowledge_status ::
  "string \<Rightarrow> string \<Rightarrow> string \<Rightarrow> string \<Rightarrow> int \<Rightarrow> Database \<Rightarrow> (nat \<times> Database) StoreResult" where
  "update_knowledge_status status updated_at project_id item_id revision db =
     (let hit = (\<lambda>k. kn_project_id k = project_id \<and> kn_id k = item_id \<and> kn_revision k = revision);
          upd = (\<lambda>k. k\<lparr>kn_status := status, kn_revision := kn_revision k + 1,
                          kn_updated_at := updated_at\<rparr>)
      in constrain
           [(\<not> exists_row (\<lambda>k. hit k \<and> \<not> knowledge_checks (upd k)) (knowledge_t db),
             ConstraintCheck ''knowledge_item'')]
           (rows_where hit (knowledge_t db),
            db\<lparr>knowledge_t := update_where hit upd (knowledge_t db)\<rparr>))"

section \<open>Summaries and their invalidations\<close>

definition scope_types :: "string list" where
  "scope_types = [''block'', ''document'', ''project'']"

type_synonym scope = "string \<times> string \<times> string"

definition invalidation_scope :: "SummaryInvalidationRecord \<Rightarrow> scope" where
  "invalidation_scope i = (inv_project_id i, inv_scope_type i, inv_scope_id i)"

definition summary_scope :: "SummaryRecord \<Rightarrow> scope" where
  "summary_scope s = (sum_project_id s, sum_scope_type s, sum_scope_id s)"

text \<open>\<open>INSERT ... ON CONFLICT(project_id, scope_type, scope_id) DO UPDATE\<close>.\<close>

definition upsert_invalidation ::
  "SummaryInvalidationRecord \<Rightarrow> Database \<Rightarrow> Database StoreResult" where
  "upsert_invalidation i db =
     constrain
       [(inv_scope_type i \<in> set scope_types, ConstraintCheck ''summary_invalidation''),
        (1 \<le> inv_invalidation_count i, ConstraintCheck ''summary_invalidation''),
        (inv_project_id i \<in> pr_id ` set (project_t db), ConstraintForeignKey ''project''),
        (inv_source_commit_id i \<in> cn_id ` set (commit_node_t db),
         ConstraintForeignKey ''commit_node'')]
       (db\<lparr>invalidation_t := upsert_by invalidation_scope
             (\<lambda>x. x\<lparr>inv_source_commit_id := inv_source_commit_id i, inv_reason := inv_reason i,
                    inv_invalidation_count := inv_invalidation_count x + 1,
                    inv_created_at := inv_created_at i\<rparr>) i (invalidation_t db)\<rparr>)"

definition delete_invalidations ::
  "(SummaryInvalidationRecord \<Rightarrow> bool) \<Rightarrow> Database \<Rightarrow> nat \<times> Database" where
  "delete_invalidations hit db =
     (rows_where hit (invalidation_t db),
      db\<lparr>invalidation_t := filter (\<lambda>x. \<not> hit x) (invalidation_t db)\<rparr>)"

definition summary_record_guard :: "SummaryRecord \<Rightarrow> SummaryRecord \<Rightarrow> bool" where
  "summary_record_guard old new \<longleftrightarrow>
     sum_project_id new \<noteq> sum_project_id old
     \<or> sum_scope_type new \<noteq> sum_scope_type old
     \<or> sum_scope_id new \<noteq> sum_scope_id old
     \<or> sum_revision new \<noteq> sum_revision old + 1"

definition upsert_summary :: "SummaryRecord \<Rightarrow> Database \<Rightarrow> Database StoreResult" where
  "upsert_summary s db =
     (let upd = (\<lambda>x. s\<lparr>sum_project_id := sum_project_id x, sum_scope_type := sum_scope_type x,
                          sum_scope_id := sum_scope_id x, sum_revision := sum_revision x + 1\<rparr>)
      in constrain
           [(sum_scope_type s \<in> set scope_types, ConstraintCheck ''summary_record''),
            (0 \<le> sum_revision s, ConstraintCheck ''summary_record''),
            (\<not> exists_row (\<lambda>x. summary_scope x = summary_scope s
                  \<and> summary_record_guard x (upd x)) (summary_t db),
             TriggerAbort ''invalid:summary_record_update''),
            (\<not> exists_row (\<lambda>x. summary_scope x = summary_scope s \<and> sum_revision x + 1 < 0)
                (summary_t db),
             ConstraintCheck ''summary_record''),
            (sum_project_id s \<in> pr_id ` set (project_t db), ConstraintForeignKey ''project''),
            (sum_source_commit_id s \<in> cn_id ` set (commit_node_t db),
             ConstraintForeignKey ''commit_node'')]
           (db\<lparr>summary_t := upsert_by summary_scope upd s (summary_t db)\<rparr>))"

section \<open>The statements provide the interfaces\<close>

interpretation projects: keyed_table project_t pr_id insert_project
  by unfold_locales (auto simp: insert_project_def result_simps)

interpretation documents: keyed_table document_t doc_id insert_document
  by unfold_locales (auto simp: insert_document_def result_simps)

interpretation blocks: keyed_table block_t blk_id "insert_block env" for env
  by unfold_locales (auto simp: insert_block_def result_simps)

interpretation commits: keyed_table commit_node_t cn_id insert_commit
  by unfold_locales (auto simp: insert_commit_def result_simps)

interpretation branches: keyed_table branch_t br_id insert_branch
  by unfold_locales (auto simp: insert_branch_def result_simps)

interpretation edit_journal: keyed_table edit_journal_t ej_id "insert_edit_journal env" for env
  by unfold_locales (auto simp: insert_edit_journal_def result_simps)

interpretation snapshots: keyed_table snapshot_t snr_id insert_snapshot
  by unfold_locales (auto simp: insert_snapshot_def result_simps)

interpretation candidates: keyed_table candidate_t cb_proposal_id insert_candidate
  by unfold_locales (auto simp: insert_candidate_def result_simps)

interpretation styles: keyed_table style_t sty_id insert_style
  by unfold_locales (auto simp: insert_style_def result_simps)

interpretation knowledge: keyed_table knowledge_t kn_id insert_knowledge
  by unfold_locales (auto simp: insert_knowledge_def result_simps)

end
