(* ===== verification/Knowledge.thy ===== *)
theory Knowledge
  imports ProjectTables CommandChecks "HOL-Library.Multiset"
begin

text \<open>
  Knowledge items, style samples and summaries: \<open>store/knowledge.rs\<close>, the style part of
  \<open>store/projects.rs\<close> and the helpers of \<open>store.rs\<close> they call. Items and samples carry a
  revision that every status change increments and that the caller must know; a summary is
  ready while no invalidation of its scope is queued, and storing one consumes the
  invalidation it answers.
\<close>

section \<open>Knowledge items\<close>

definition list_knowledge_items :: "string \<Rightarrow> Database \<Rightarrow> KnowledgeItemRecord list StoreResult" where
  "list_knowledge_items project_id db =
     (if blank project_id then validation ''project id must not be empty''
      else Inr (sort_key (\<lambda>k. (kn_status k, kn_kind k, Desc (kn_updated_at k), kn_id k))
             (filter (\<lambda>k. kn_project_id k = project_id) (knowledge_t db))))"

definition knowledge_key :: "KnowledgeItemRecord \<Rightarrow> string \<times> string" where
  "knowledge_key k = (kn_project_id k, kn_id k)"

definition read_knowledge_item :: "string \<Rightarrow> string \<Rightarrow> Database \<Rightarrow> KnowledgeItemRecord StoreResult" where
  "read_knowledge_item project_id item_id db =
     ok_or (find_by knowledge_key (project_id, item_id) (knowledge_t db))
       (NotFound ''knowledge_item'' item_id)"

definition knowledge_row :: "CreateKnowledgeItem \<Rightarrow> KnowledgeItemRecord" where
  "knowledge_row c =
     \<lparr>kn_id = cki_id c, kn_project_id = cki_project_id c, kn_kind = cki_kind c,
      kn_title = cki_title c, kn_content = cki_content c, kn_content_hash = cki_content_hash c,
      kn_status = ''canonical'', kn_authority = cki_authority c,
      kn_sensitivity = cki_sensitivity c, kn_severity = cki_severity c, kn_revision = 0,
      kn_created_at = cki_created_at c, kn_updated_at = cki_created_at c\<rparr>"

definition create_knowledge_item ::
  "CreateKnowledgeItem \<Rightarrow> Database \<Rightarrow> KnowledgeItemRecord StoreResult \<times> Database" where
  "create_knowledge_item c =
     checked_transaction (validate_create_knowledge_item c) (\<lambda>db.
       rbind (require (exists_row (\<lambda>p. pr_id p = cki_project_id c) (project_t db))
                (NotFound ''project'' (cki_project_id c))) (\<lambda>_.
       rbind (insert_knowledge (knowledge_row c) db) (\<lambda>db.
       rbind (read_knowledge_item (cki_project_id c) (cki_id c) db) (\<lambda>result.
       Inr (result, db)))))"

definition set_knowledge_item_status ::
  "SetKnowledgeItemStatus \<Rightarrow> Database \<Rightarrow> KnowledgeItemRecord StoreResult \<times> Database" where
  "set_knowledge_item_status c =
     checked_transaction (validate_set_knowledge_item_status c) (\<lambda>db.
       rbind (read_knowledge_item (sks_project_id c) (sks_id c) db) (\<lambda>current.
       if kn_revision current \<noteq> sks_expected_revision c
       then Inl (StateConflict ''knowledge_item'' (sks_id c) (sks_expected_revision c)
                   (kn_revision current) (sks_status c) (kn_status current))
       else if kn_status current = sks_status c then Inr (current, db)
       else
         rbind (update_knowledge_status (sks_status c) (sks_updated_at c) (sks_project_id c)
                  (sks_id c) (sks_expected_revision c) db) (\<lambda>(updated, db).
         if updated \<noteq> 1
         then Inl (InvariantViolation
                ''knowledge item status update changed an unexpected row count'')
         else
           rbind (read_knowledge_item (sks_project_id c) (sks_id c) db) (\<lambda>result.
           Inr (result, db)))))"

section \<open>Style samples\<close>

definition list_style_samples :: "string \<Rightarrow> Database \<Rightarrow> StyleSampleRecord list StoreResult" where
  "list_style_samples project_id db =
     Inr (sort_key (\<lambda>s. (sty_status s, Desc (sty_updated_at s), sty_id s))
       (filter (\<lambda>s. sty_project_id s = project_id) (style_t db)))"

definition style_key :: "StyleSampleRecord \<Rightarrow> string \<times> string" where
  "style_key s = (sty_project_id s, sty_id s)"

definition read_style_sample :: "string \<Rightarrow> string \<Rightarrow> Database \<Rightarrow> StyleSampleRecord StoreResult" where
  "read_style_sample project_id item_id db =
     ok_or (find_by style_key (project_id, item_id) (style_t db)) (NotFound ''style_sample'' item_id)"

definition style_row :: "CreateStyleSample \<Rightarrow> StyleSampleRecord" where
  "style_row c =
     \<lparr>sty_id = css_id c, sty_project_id = css_project_id c, sty_title = css_title c,
      sty_content = css_content c, sty_content_hash = css_content_hash c,
      sty_status = ''canonical'', sty_sensitivity = css_sensitivity c, sty_revision = 0,
      sty_created_at = css_created_at c, sty_updated_at = css_created_at c\<rparr>"

definition create_style_sample ::
  "CreateStyleSample \<Rightarrow> Database \<Rightarrow> StyleSampleRecord StoreResult \<times> Database" where
  "create_style_sample c =
     checked_transaction (validate_create_style_sample c) (\<lambda>db.
       rbind (require (exists_row (\<lambda>p. pr_id p = css_project_id c) (project_t db))
                (NotFound ''project'' (css_project_id c))) (\<lambda>_.
       rbind (insert_style (style_row c) db) (\<lambda>db.
       rbind (read_style_sample (css_project_id c) (css_id c) db) (\<lambda>result.
       Inr (result, db)))))"

definition set_style_sample_status ::
  "SetStyleSampleStatus \<Rightarrow> Database \<Rightarrow> StyleSampleRecord StoreResult \<times> Database" where
  "set_style_sample_status c =
     checked_transaction (validate_set_style_sample_status c) (\<lambda>db.
       rbind (read_style_sample (sss_project_id c) (sss_id c) db) (\<lambda>current.
       if sty_revision current \<noteq> sss_expected_revision c
       then Inl (StateConflict ''style_sample'' (sss_id c) (sss_expected_revision c)
                   (sty_revision current) (sss_status c) (sty_status current))
       else if sty_status current = sss_status c then Inr (current, db)
       else
         rbind (update_style_status (sss_status c) (sss_updated_at c) (sss_project_id c)
                  (sss_id c) (sss_expected_revision c) db) (\<lambda>(updated, db).
         if updated \<noteq> 1
         then Inl (InvariantViolation
                ''style sample status update changed an unexpected row count'')
         else
           rbind (read_style_sample (sss_project_id c) (sss_id c) db) (\<lambda>result.
           Inr (result, db)))))"

section \<open>Summaries\<close>

definition enqueue_summary_invalidation ::
  "string \<Rightarrow> string \<Rightarrow> string \<Rightarrow> string \<Rightarrow> string \<Rightarrow> string \<Rightarrow> Database \<Rightarrow> Database StoreResult" where
  "enqueue_summary_invalidation project_id scope_type scope_id source_commit_id reason created_at =
     upsert_invalidation
       \<lparr>inv_project_id = project_id, inv_scope_type = scope_type, inv_scope_id = scope_id,
        inv_source_commit_id = source_commit_id, inv_reason = reason,
        inv_invalidation_count = 1, inv_created_at = created_at\<rparr>"

definition scope_rank :: "string \<Rightarrow> int" where
  "scope_rank scope_type =
     (if scope_type = ''block'' then 0 else if scope_type = ''document'' then 1
      else if scope_type = ''project'' then 2 else 3)"

definition list_summary_invalidations ::
  "string \<Rightarrow> nat \<Rightarrow> Database \<Rightarrow> SummaryInvalidationRecord list StoreResult" where
  "list_summary_invalidations project_id limit db =
     (if blank project_id \<or> limit = 0 \<or> limit > 1000
      then validation ''project id and summary invalidation limit 1..=1000 are required''
      else Inr (take limit
             (sort_key (\<lambda>i. (scope_rank (inv_scope_type i), inv_created_at i, inv_scope_id i))
               (filter (\<lambda>i. inv_project_id i = project_id) (invalidation_t db)))))"

definition read_summary_record ::
  "string \<Rightarrow> string \<Rightarrow> string \<Rightarrow> Database \<Rightarrow> SummaryRecord StoreResult" where
  "read_summary_record project_id scope_type scope_id db =
     ok_or (find_by summary_scope (project_id, scope_type, scope_id) (summary_t db))
       (NotFound ''summary_record'' (scope_type @ '':'' @ scope_id))"

definition get_ready_summary_record ::
  "string \<Rightarrow> string \<Rightarrow> string \<Rightarrow> Database \<Rightarrow> SummaryRecord option StoreResult" where
  "get_ready_summary_record project_id scope_type scope_id db =
     rbind (validate_summary_scope_reference project_id scope_type scope_id) (\<lambda>_.
     Inr (if exists_row (\<lambda>i. invalidation_scope i = (project_id, scope_type, scope_id))
               (invalidation_t db)
          then None
          else find_by summary_scope (project_id, scope_type, scope_id) (summary_t db)))"

text \<open>
  Joins through a foreign key: \<open>block AS b JOIN document AS d ON d.id = b.document_id\<close>
  restricted to rows that are not deleted.
\<close>

definition active_document :: "string \<Rightarrow> string \<Rightarrow> Database \<Rightarrow> bool" where
  "active_document project_id document_id db \<longleftrightarrow>
     exists_row (\<lambda>d. doc_project_id d = project_id \<and> doc_id d = document_id
                     \<and> doc_deleted_at d = None) (document_t db)"

definition active_block :: "string \<Rightarrow> string \<Rightarrow> Database \<Rightarrow> bool" where
  "active_block project_id block_id db \<longleftrightarrow>
     exists_row (\<lambda>b. blk_id b = block_id \<and> blk_deleted_at b = None
                     \<and> active_document project_id (blk_document_id b) db) (block_t db)"

definition validate_active_summary_scope ::
  "string \<Rightarrow> string \<Rightarrow> string \<Rightarrow> Database \<Rightarrow> unit StoreResult" where
  "validate_active_summary_scope project_id scope_type scope_id db =
     rbind
       (if scope_type = ''project''
        then (if project_id \<noteq> scope_id
              then validation ''project summary scope must use the project id''
              else Inr (exists_row (\<lambda>p. pr_id p = project_id) (project_t db)))
        else if scope_type = ''document'' then Inr (active_document project_id scope_id db)
        else if scope_type = ''block'' then Inr (active_block project_id scope_id db)
        else validation ''summary scope type is unsupported'') (\<lambda>found.
     require found (NotFound ''summary_scope'' (scope_type @ '':'' @ scope_id)))"

definition put_scope :: "PutSummaryRecord \<Rightarrow> scope" where
  "put_scope c = (put_project_id c, put_scope_type c, put_scope_id c)"

definition summary_row :: "PutSummaryRecord \<Rightarrow> SummaryRecord" where
  "summary_row c =
     \<lparr>sum_project_id = put_project_id c, sum_scope_type = put_scope_type c,
      sum_scope_id = put_scope_id c, sum_source_commit_id = put_expected_source_commit_id c,
      sum_source_hash = put_source_hash c, sum_summary = put_summary c,
      sum_summary_hash = put_summary_hash c, sum_provider_id = put_provider_id c,
      sum_model = put_model c, sum_revision = 0, sum_generated_at = put_generated_at c,
      sum_updated_at = put_generated_at c\<rparr>"

definition put_summary_record ::
  "PutSummaryRecord \<Rightarrow> Database \<Rightarrow> SummaryRecord StoreResult \<times> Database" where
  "put_summary_record c =
     checked_transaction (validate_put_summary_record c) (\<lambda>db.
       rbind (validate_active_summary_scope (put_project_id c) (put_scope_type c)
                (put_scope_id c) db) (\<lambda>_.
       rbind (ok_or (find_by invalidation_scope (put_scope c) (invalidation_t db))
                (NotFound ''summary_invalidation'' (put_scope_type c @ '':'' @ put_scope_id c)))
         (\<lambda>queued.
       if inv_source_commit_id queued \<noteq> put_expected_source_commit_id c
       then Inl (StateConflict ''summary_invalidation'' (put_scope_type c @ '':'' @ put_scope_id c)
                   0 0 (put_expected_source_commit_id c) (inv_source_commit_id queued))
       else
         rbind (upsert_summary (summary_row c) db) (\<lambda>db.
         let (removed, db) = delete_invalidations
               (\<lambda>i. invalidation_scope i = put_scope c
                    \<and> inv_source_commit_id i = put_expected_source_commit_id c) db
         in if removed \<noteq> 1
            then Inl (InvariantViolation
                   ''summary completion did not consume exactly one invalidation'')
            else
              rbind (read_summary_record (put_project_id c) (put_scope_type c)
                       (put_scope_id c) db) (\<lambda>record.
              Inr (record, db))))))"

section \<open>Rows with a revision\<close>

text \<open>
  The contract of \<open>set_knowledge_item_status\<close> and \<open>set_style_sample_status\<close>: a command
  names a row, the revision it expects and the status it wants. It succeeds exactly on
  that revision; it changes the row and increments its revision unless the row has the
  status already.
\<close>

locale versioned_item =
  fixes rows :: "Database \<Rightarrow> 'r list"
    and set_rows :: "'r list \<Rightarrow> Database \<Rightarrow> Database"
    and key :: "'r \<Rightarrow> string \<times> string"
    and revision :: "'r \<Rightarrow> int"
    and status :: "'r \<Rightarrow> string"
    and ok :: "Database \<Rightarrow> bool"
    and accepted :: "'c \<Rightarrow> bool"
    and target :: "'c \<Rightarrow> string \<times> string"
    and expected :: "'c \<Rightarrow> int"
    and wanted :: "'c \<Rightarrow> string"
    and changed :: "'c \<Rightarrow> 'r \<Rightarrow> 'r"
    and set_status :: "'c \<Rightarrow> Database \<Rightarrow> 'r StoreResult \<times> Database"
  assumes keys_distinct: "ok db \<Longrightarrow> distinct (map key (rows db))"
    and rows_set_rows: "rows (set_rows rs db) = rs"
    and changed_key: "key (changed c r) = key r"
    and changed_status: "status (changed c r) = wanted c"
    and changed_revision: "revision (changed c r) = revision r + 1"
    and set_status_iff: "ok db \<Longrightarrow> set_status c db = (Inr r', db') \<longleftrightarrow>
      accepted c \<and> (\<exists>r. find_by key (target c) (rows db) = Some r \<and> revision r = expected c
        \<and> (if status r = wanted c then r' = r \<and> db' = db
           else r' = changed c r
             \<and> db' = set_rows (update_where (\<lambda>x. key x = target c) (changed c) (rows db)) db))"
begin

lemma set_status_rows:
  assumes "ok db" and "set_status c db = (Inr r', db')"
  shows "find_by key k (rows db') = (if k = target c then Some r' else find_by key k (rows db))"
    and "status r' = wanted c"
    and "revision r' = expected c \<or> revision r' = expected c + 1"
    and "accepted c"
proof -
  from assms obtain r where r: "accepted c" "find_by key (target c) (rows db) = Some r"
    "revision r = expected c"
    "if status r = wanted c then r' = r \<and> db' = db
     else r' = changed c r
       \<and> db' = set_rows (update_where (\<lambda>x. key x = target c) (changed c) (rows db)) db"
    by (auto simp: set_status_iff)
  from r(1) show "accepted c" .
  from r(2) have key: "key r = target c" by (auto dest: find_by_SomeD)
  have "find_by key k (update_where (\<lambda>x. key x = target c) (changed c) (rows db))
      = (if k = target c then Some (changed c r) else find_by key k (rows db))"
    using r(2) by (auto simp: find_by_update_where changed_key key option.map_ident_strong
        dest!: find_by_SomeD intro!: option.map_ident_strong)
  with r show "find_by key k (rows db') = (if k = target c then Some r' else find_by key k (rows db))"
    by (auto simp: rows_set_rows split: if_splits)
  from r show "status r' = wanted c" and "revision r' = expected c \<or> revision r' = expected c + 1"
    by (auto simp: changed_status changed_revision split: if_splits)
qed

text \<open>Repeating a command at the revision it returned changes nothing.\<close>

lemma set_status_idempotent:
  assumes "ok db" and "set_status c db = (Inr r', db')" and "ok db'"
    and "target c2 = target c" and "wanted c2 = wanted c" and "expected c2 = revision r'"
    and "accepted c2"
  shows "set_status c2 db' = (Inr r', db')"
  using set_status_rows(1) [OF assms(1,2), of "target c"] set_status_rows(2) [OF assms(1,2)] assms(3-)
  by (simp add: set_status_iff)

text \<open>Of two commands that expect the same revision, only the first can change the row.\<close>

lemma set_status_stale:
  assumes "ok db" and "set_status c db = (Inr r', db')" and "ok db'"
    and "target c2 = target c" and "expected c2 \<noteq> revision r'"
  shows "set_status c2 db' \<noteq> (Inr r2, db2)"
  using set_status_rows(1) [OF assms(1,2), of "target c"] assms(3-)
  by (simp add: set_status_iff)

lemma set_status_succeeds_iff:
  assumes "ok db"
  shows "(\<exists>r' db'. set_status c db = (Inr r', db')) \<longleftrightarrow>
    accepted c \<and> (\<exists>r. find_by key (target c) (rows db) = Some r \<and> revision r = expected c)"
  unfolding set_status_iff [OF assms] by (metis (full_types))

end

definition knowledge_ok :: "Database \<Rightarrow> bool" where
  "knowledge_ok db \<longleftrightarrow> distinct (map kn_id (knowledge_t db)) \<and> list_all knowledge_checks (knowledge_t db)"

definition knowledge_changed :: "SetKnowledgeItemStatus \<Rightarrow> KnowledgeItemRecord \<Rightarrow> KnowledgeItemRecord" where
  "knowledge_changed c r = r\<lparr>kn_status := sks_status c, kn_revision := kn_revision r + 1,
     kn_updated_at := sks_updated_at c\<rparr>"

lemma knowledge_keys: "knowledge_ok db \<Longrightarrow> distinct (map knowledge_key (knowledge_t db))"
  by (auto simp: knowledge_ok_def distinct_map inj_on_def knowledge_key_def)

lemma knowledge_update_iff:
  assumes "knowledge_ok db" and "find_by knowledge_key (p, i) (knowledge_t db) = Some r"
    and "kn_revision r = n" and "knowledge_checks (r\<lparr>kn_status := s, kn_revision := n + 1, kn_updated_at := t\<rparr>)"
  shows "update_knowledge_status s t p i n db = Inr (1, db\<lparr>knowledge_t := update_where (\<lambda>x. knowledge_key x = (p, i))
      (\<lambda>r. r\<lparr>kn_status := s, kn_revision := kn_revision r + 1, kn_updated_at := t\<rparr>) (knowledge_t db)\<rparr>)"
proof -
  let ?hit = "\<lambda>x. kn_project_id x = p \<and> kn_id x = i \<and> kn_revision x = n"
  have keys: "distinct (map knowledge_key (knowledge_t db))" and r: "r \<in> set (knowledge_t db)" "knowledge_key r = (p, i)"
    using assms(1,2) knowledge_keys by (auto dest: find_by_SomeD)
  have hit: "?hit = (\<lambda>x. knowledge_key x = knowledge_key r \<and> kn_revision x = n)"
    using r(2) by (auto simp: knowledge_key_def)
  have "rows_where ?hit (knowledge_t db) = 1"
    unfolding hit using rows_where_key [OF keys r(1), of "\<lambda>x. kn_revision x = n"] assms(3) by simp
  moreover have "update_where ?hit f (knowledge_t db) = update_where (\<lambda>x. knowledge_key x = (p, i)) f (knowledge_t db)" for f
    using update_where_key [OF keys r(1), of "\<lambda>x. kn_revision x = n"] assms(3) r(2) unfolding hit by simp
  moreover have "x = r" if "x \<in> set (knowledge_t db)" "?hit x" for x
    using key_eqD [OF keys r(1) that(1)] that(2) r(2) by (simp add: knowledge_key_def)
  ultimately show ?thesis
    using assms(3,4) by (auto simp: update_knowledge_status_def Let_def result_simps)
qed

lemma knowledge_set_status_iff:
  assumes ok: "knowledge_ok db"
  shows "set_knowledge_item_status c db = (Inr r', db') \<longleftrightarrow>
      validate_set_knowledge_item_status c = Inr () \<and> (\<exists>r. find_by knowledge_key (sks_project_id c, sks_id c) (knowledge_t db) = Some r
        \<and> kn_revision r = sks_expected_revision c
        \<and> (if kn_status r = sks_status c then r' = r \<and> db' = db
           else r' = knowledge_changed c r
             \<and> db' = db\<lparr>knowledge_t := update_where (\<lambda>x. knowledge_key x = (sks_project_id c, sks_id c))
                  (knowledge_changed c) (knowledge_t db)\<rparr>))"
  (is "_ \<longleftrightarrow> ?valid \<and> (\<exists>r. ?found r \<and> ?rev r \<and> ?result r)")
proof (cases "?valid \<and> (\<exists>r. ?found r \<and> ?rev r)")
  case True
  then obtain r where valid: ?valid and r: "?found r" "?rev r" by blast
  have "r \<in> set (knowledge_t db)" using r(1) by (auto dest: find_by_SomeD)
  with ok have "knowledge_checks r" by (auto simp: knowledge_ok_def list_all_iff)
  with valid have "knowledge_checks (r\<lparr>kn_status := sks_status c,
      kn_revision := sks_expected_revision c + 1, kn_updated_at := sks_updated_at c\<rparr>)"
    by (auto simp: knowledge_checks_def validate_set_knowledge_item_status_def result_simps)
  note update = knowledge_update_iff [OF ok r(1,2) this]
  have reread: "find_by knowledge_key (sks_project_id c, sks_id c)
      (update_where (\<lambda>x. knowledge_key x = (sks_project_id c, sks_id c)) (knowledge_changed c) (knowledge_t db))
      = Some (knowledge_changed c r)"
    using r(1) find_by_SomeD [OF r(1)]
    by (simp add: find_by_update_where knowledge_key_def knowledge_changed_def)
  show ?thesis
    using valid r update reread
    by (auto simp: set_knowledge_item_status_def read_knowledge_item_def result_simps knowledge_changed_def [abs_def])
next
  case False
  then show ?thesis
    by (auto simp: set_knowledge_item_status_def read_knowledge_item_def result_simps split: if_splits)
qed

interpretation knowledge_items: versioned_item knowledge_t "\<lambda>rs db. db\<lparr>knowledge_t := rs\<rparr>" knowledge_key
  kn_revision kn_status knowledge_ok "\<lambda>c. validate_set_knowledge_item_status c = Inr ()"
  "\<lambda>c. (sks_project_id c, sks_id c)" sks_expected_revision sks_status knowledge_changed
  set_knowledge_item_status
proof unfold_locales
  show "knowledge_ok db \<Longrightarrow> distinct (map knowledge_key (knowledge_t db))" for db
    by (rule knowledge_keys)
qed (auto simp: knowledge_key_def knowledge_changed_def knowledge_set_status_iff)

lemma knowledge_set_status_ok:
  assumes ok: "knowledge_ok db" and set: "set_knowledge_item_status c db = (Inr r', db')"
  shows "knowledge_ok db'"
proof -
  have "knowledge_checks (knowledge_changed c r)" if "r \<in> set (knowledge_t db)" for r
    using that ok knowledge_items.set_status_rows(4) [OF ok set]
    by (auto simp: knowledge_ok_def list_all_iff knowledge_checks_def knowledge_changed_def
        validate_set_knowledge_item_status_def result_simps)
  then have changed: "list_all knowledge_checks (update_where P (knowledge_changed c) (knowledge_t db))" for P
    using ok by (auto simp: knowledge_ok_def list_all_iff set_update_where)
  have ids: "map kn_id (update_where P (knowledge_changed c) (knowledge_t db)) = map kn_id (knowledge_t db)" for P
    by (rule map_update_where) (simp add: knowledge_changed_def)
  from iffD1 [OF knowledge_set_status_iff [OF ok] set] obtain P where
    "db' = db \<or> db' = db\<lparr>knowledge_t := update_where P (knowledge_changed c) (knowledge_t db)\<rparr>"
    by (auto split: if_splits)
  with ok changed ids show ?thesis
    by (elim disjE) (simp_all add: knowledge_ok_def)
qed

definition style_ok :: "Database \<Rightarrow> bool" where
  "style_ok db \<longleftrightarrow> distinct (map sty_id (style_t db)) \<and> list_all style_checks (style_t db)"

definition style_changed :: "SetStyleSampleStatus \<Rightarrow> StyleSampleRecord \<Rightarrow> StyleSampleRecord" where
  "style_changed c r = r\<lparr>sty_status := sss_status c, sty_revision := sty_revision r + 1,
     sty_updated_at := sss_updated_at c\<rparr>"

lemma style_keys: "style_ok db \<Longrightarrow> distinct (map style_key (style_t db))"
  by (auto simp: style_ok_def distinct_map inj_on_def style_key_def)

lemma style_update_iff:
  assumes "style_ok db" and "find_by style_key (p, i) (style_t db) = Some r"
    and "sty_revision r = n" and "style_checks (r\<lparr>sty_status := s, sty_revision := n + 1, sty_updated_at := t\<rparr>)"
  shows "update_style_status s t p i n db = Inr (1, db\<lparr>style_t := update_where (\<lambda>x. style_key x = (p, i))
      (\<lambda>r. r\<lparr>sty_status := s, sty_revision := sty_revision r + 1, sty_updated_at := t\<rparr>) (style_t db)\<rparr>)"
proof -
  let ?hit = "\<lambda>x. sty_project_id x = p \<and> sty_id x = i \<and> sty_revision x = n"
  have keys: "distinct (map style_key (style_t db))" and r: "r \<in> set (style_t db)" "style_key r = (p, i)"
    using assms(1,2) style_keys by (auto dest: find_by_SomeD)
  have hit: "?hit = (\<lambda>x. style_key x = style_key r \<and> sty_revision x = n)"
    using r(2) by (auto simp: style_key_def)
  have "rows_where ?hit (style_t db) = 1"
    unfolding hit using rows_where_key [OF keys r(1), of "\<lambda>x. sty_revision x = n"] assms(3) by simp
  moreover have "update_where ?hit f (style_t db) = update_where (\<lambda>x. style_key x = (p, i)) f (style_t db)" for f
    using update_where_key [OF keys r(1), of "\<lambda>x. sty_revision x = n"] assms(3) r(2) unfolding hit by simp
  moreover have "x = r" if "x \<in> set (style_t db)" "?hit x" for x
    using key_eqD [OF keys r(1) that(1)] that(2) r(2) by (simp add: style_key_def)
  ultimately show ?thesis
    using assms(3,4) by (auto simp: update_style_status_def Let_def result_simps)
qed

lemma style_set_status_iff:
  assumes ok: "style_ok db"
  shows "set_style_sample_status c db = (Inr r', db') \<longleftrightarrow>
      validate_set_style_sample_status c = Inr () \<and> (\<exists>r. find_by style_key (sss_project_id c, sss_id c) (style_t db) = Some r
        \<and> sty_revision r = sss_expected_revision c
        \<and> (if sty_status r = sss_status c then r' = r \<and> db' = db
           else r' = style_changed c r
             \<and> db' = db\<lparr>style_t := update_where (\<lambda>x. style_key x = (sss_project_id c, sss_id c))
                  (style_changed c) (style_t db)\<rparr>))"
  (is "_ \<longleftrightarrow> ?valid \<and> (\<exists>r. ?found r \<and> ?rev r \<and> ?result r)")
proof (cases "?valid \<and> (\<exists>r. ?found r \<and> ?rev r)")
  case True
  then obtain r where valid: ?valid and r: "?found r" "?rev r" by blast
  have "r \<in> set (style_t db)" using r(1) by (auto dest: find_by_SomeD)
  with ok have "style_checks r" by (auto simp: style_ok_def list_all_iff)
  with valid have "style_checks (r\<lparr>sty_status := sss_status c,
      sty_revision := sss_expected_revision c + 1, sty_updated_at := sss_updated_at c\<rparr>)"
    by (auto simp: style_checks_def validate_set_style_sample_status_def result_simps)
  note update = style_update_iff [OF ok r(1,2) this]
  have reread: "find_by style_key (sss_project_id c, sss_id c)
      (update_where (\<lambda>x. style_key x = (sss_project_id c, sss_id c)) (style_changed c) (style_t db))
      = Some (style_changed c r)"
    using r(1) find_by_SomeD [OF r(1)]
    by (simp add: find_by_update_where style_key_def style_changed_def)
  show ?thesis
    using valid r update reread
    by (auto simp: set_style_sample_status_def read_style_sample_def result_simps style_changed_def [abs_def])
next
  case False
  then show ?thesis
    by (auto simp: set_style_sample_status_def read_style_sample_def result_simps split: if_splits)
qed

interpretation style_samples: versioned_item style_t "\<lambda>rs db. db\<lparr>style_t := rs\<rparr>" style_key
  sty_revision sty_status style_ok "\<lambda>c. validate_set_style_sample_status c = Inr ()"
  "\<lambda>c. (sss_project_id c, sss_id c)" sss_expected_revision sss_status style_changed
  set_style_sample_status
proof unfold_locales
  show "style_ok db \<Longrightarrow> distinct (map style_key (style_t db))" for db
    by (rule style_keys)
qed (auto simp: style_key_def style_changed_def style_set_status_iff)

lemma style_set_status_ok:
  assumes ok: "style_ok db" and set: "set_style_sample_status c db = (Inr r', db')"
  shows "style_ok db'"
proof -
  have "style_checks (style_changed c r)" if "r \<in> set (style_t db)" for r
    using that ok style_samples.set_status_rows(4) [OF ok set]
    by (auto simp: style_ok_def list_all_iff style_checks_def style_changed_def
        validate_set_style_sample_status_def result_simps)
  then have changed: "list_all style_checks (update_where P (style_changed c) (style_t db))" for P
    using ok by (auto simp: style_ok_def list_all_iff set_update_where)
  have ids: "map sty_id (update_where P (style_changed c) (style_t db)) = map sty_id (style_t db)" for P
    by (rule map_update_where) (simp add: style_changed_def)
  from iffD1 [OF style_set_status_iff [OF ok] set] obtain P where
    "db' = db \<or> db' = db\<lparr>style_t := update_where P (style_changed c) (style_t db)\<rparr>"
    by (auto split: if_splits)
  with ok changed ids show ?thesis
    by (elim disjE) (simp_all add: style_ok_def)
qed

section \<open>Creating items and samples\<close>

lemma knowledge_row_checks:
  "validate_create_knowledge_item c = Inr () \<Longrightarrow> knowledge_checks (knowledge_row c)"
  by (auto simp: validate_create_knowledge_item_def knowledge_checks_def knowledge_row_def
      result_simps split: if_splits)

lemma style_row_checks: "validate_create_style_sample c = Inr () \<Longrightarrow> style_checks (style_row c)"
  by (auto simp: validate_create_style_sample_def style_checks_def style_row_def result_simps)

lemma knowledge_row_fresh:
  "cki_id c \<notin> kn_id ` set rows \<Longrightarrow> find_by knowledge_key (cki_project_id c, cki_id c) rows = None"
  by (auto simp: find_by_None_iff knowledge_key_def)

text \<open>
  Creating a knowledge item succeeds exactly when the command is valid, its project exists
  and its id is new; it then appends the item, canonical and at revision 0, and returns it.
  Otherwise the database is unchanged, and a CHECK constraint is never the reason: whatever
  validation lets through the table accepts.
\<close>

theorem create_knowledge_item_outcome:
  assumes "knowledge_ok db"
  shows "create_knowledge_item c db =
    (if validate_create_knowledge_item c = Inr () \<and> cki_project_id c \<in> pr_id ` set (project_t db)
        \<and> cki_id c \<notin> kn_id ` set (knowledge_t db)
     then (Inr (knowledge_row c), db\<lparr>knowledge_t := knowledge_t db @ [knowledge_row c]\<rparr>)
     else (Inl (case validate_create_knowledge_item c of Inl e \<Rightarrow> e
                | Inr _ \<Rightarrow> if cki_project_id c \<notin> pr_id ` set (project_t db)
                           then NotFound ''project'' (cki_project_id c)
                           else Sqlite (ConstraintPrimaryKey ''knowledge_item.id'')), db))
    \<and> knowledge_ok (snd (create_knowledge_item c db))"
proof (cases "validate_create_knowledge_item c")
  case (Inl e)
  with assms show ?thesis by (simp add: create_knowledge_item_def checked_transaction_def)
next
  case (Inr u)
  then have checks: "knowledge_checks (knowledge_row c)" by (intro knowledge_row_checks) simp
  have ids: "kn_id (knowledge_row c) = cki_id c" "kn_project_id (knowledge_row c) = cki_project_id c"
    by (simp_all add: knowledge_row_def)
  have reread: "read_knowledge_item (cki_project_id c) (cki_id c)
      (db\<lparr>knowledge_t := knowledge_t db @ [knowledge_row c]\<rparr>) = Inr (knowledge_row c)"
    if "cki_id c \<notin> kn_id ` set (knowledge_t db)"
    using knowledge_row_fresh [OF that] by (simp add: read_knowledge_item_def ids knowledge_key_def)
  show ?thesis
    using Inr checks assms reread
    by (auto simp: create_knowledge_item_def checked_transaction_def run_transaction_def ids ex_key_iff
        insert_knowledge_def constrain_Nil constrain_Cons knowledge_ok_def)
qed

text \<open>
  Status changes of knowledge items are optimistic updates. A command succeeds exactly when
  it is valid and the item exists at the expected revision; then the item read back has the
  wanted status, no other item changed, and of two commands that expect the same revision
  the second is refused if the first changed the item.
\<close>

theorem knowledge_status_optimistic:
  assumes "knowledge_ok db"
  shows "((\<exists>r db'. set_knowledge_item_status c db = (Inr r, db')) \<longleftrightarrow>
      validate_set_knowledge_item_status c = Inr ()
      \<and> (\<exists>r. read_knowledge_item (sks_project_id c) (sks_id c) db = Inr r
             \<and> kn_revision r = sks_expected_revision c))
    \<and> (\<forall>r db'. set_knowledge_item_status c db = (Inr r, db') \<longrightarrow>
        kn_status r = sks_status c
        \<and> (\<forall>p i. read_knowledge_item p i db' =
             (if (p, i) = (sks_project_id c, sks_id c) then Inr r else read_knowledge_item p i db))
        \<and> (\<forall>c2 r2 db2. sks_project_id c2 = sks_project_id c \<and> sks_id c2 = sks_id c
             \<and> sks_expected_revision c2 = sks_expected_revision c
             \<and> kn_revision r \<noteq> sks_expected_revision c
             \<longrightarrow> set_knowledge_item_status c2 db' \<noteq> (Inr r2, db2)))"
proof (intro conjI allI impI)
  show "(\<exists>r db'. set_knowledge_item_status c db = (Inr r, db')) \<longleftrightarrow>
      validate_set_knowledge_item_status c = Inr ()
      \<and> (\<exists>r. read_knowledge_item (sks_project_id c) (sks_id c) db = Inr r
             \<and> kn_revision r = sks_expected_revision c)"
    by (simp add: knowledge_items.set_status_succeeds_iff [OF assms] read_knowledge_item_def result_simps)
next
  fix r db'
  assume set: "set_knowledge_item_status c db = (Inr r, db')"
  note rows = knowledge_items.set_status_rows [OF assms set]
  show "kn_status r = sks_status c" by (rule rows(2))
  show "read_knowledge_item p i db' =
      (if (p, i) = (sks_project_id c, sks_id c) then Inr r else read_knowledge_item p i db)" for p i
    by (simp add: read_knowledge_item_def rows(1) [of "(p, i)"])
  show "set_knowledge_item_status c2 db' \<noteq> (Inr r2, db2)"
    if "sks_project_id c2 = sks_project_id c \<and> sks_id c2 = sks_id c
        \<and> sks_expected_revision c2 = sks_expected_revision c
        \<and> kn_revision r \<noteq> sks_expected_revision c" for c2 r2 db2
    using knowledge_items.set_status_stale [OF assms set knowledge_set_status_ok [OF assms set]] that
    by simp
qed

text \<open>
  Repeating a status change of a style sample is harmless: sent again at the revision it
  returned, the command succeeds, returns the same sample and leaves the database as it is.
\<close>

theorem style_status_idempotent:
  assumes "style_ok db" and "set_style_sample_status c db = (Inr r, db')"
  shows "set_style_sample_status (c\<lparr>sss_expected_revision := sty_revision r\<rparr>) db' = (Inr r, db')
    \<and> sty_revision r \<in> {sss_expected_revision c, sss_expected_revision c + 1}
    \<and> read_style_sample (sss_project_id c) (sss_id c) db' = Inr r"
proof -
  note rows = style_samples.set_status_rows [OF assms]
  have "0 \<le> sss_expected_revision c" using rows(4)
    by (simp add: validate_set_style_sample_status_def result_simps)
  with rows(3) have "0 \<le> sty_revision r" by auto
  with rows(4) have "validate_set_style_sample_status (c\<lparr>sss_expected_revision := sty_revision r\<rparr>) = Inr ()"
    by (simp add: validate_set_style_sample_status_def result_simps)
  then have "set_style_sample_status (c\<lparr>sss_expected_revision := sty_revision r\<rparr>) db' = (Inr r, db')"
    by (intro style_samples.set_status_idempotent [OF assms style_set_status_ok [OF assms]]) simp_all
  with rows(1) [of "(sss_project_id c, sss_id c)"] rows(3) show ?thesis
    by (simp add: read_style_sample_def)
qed

section \<open>The summary cache\<close>

definition summary_ok :: "Database \<Rightarrow> bool" where
  "summary_ok db \<longleftrightarrow>
     distinct (map summary_scope (summary_t db))
     \<and> distinct (map invalidation_scope (invalidation_t db))
     \<and> list_all (\<lambda>s. 0 \<le> sum_revision s) (summary_t db)
     \<and> list_all (\<lambda>i. inv_project_id i \<in> pr_id ` set (project_t db)
                      \<and> inv_source_commit_id i \<in> cn_id ` set (commit_node_t db)) (invalidation_t db)"

text \<open>
  The abstract state: for every scope the stored summary, if any, and the commit for which
  a new one is wanted, if any.
\<close>

definition summary_abs :: "Database \<Rightarrow> scope \<Rightarrow> SummaryRecord option \<times> string option" where
  "summary_abs db s = (find_by summary_scope s (summary_t db),
     map_option inv_source_commit_id (find_by invalidation_scope s (invalidation_t db)))"

text \<open>What \<open>put_summary_record\<close> stores: a new record, or the next revision of the stored one.\<close>

definition next_summary :: "PutSummaryRecord \<Rightarrow> Database \<Rightarrow> SummaryRecord" where
  "next_summary c db =
     (case find_by summary_scope (put_scope c) (summary_t db) of
        None \<Rightarrow> summary_row c
      | Some s \<Rightarrow> (summary_row c)\<lparr>sum_revision := sum_revision s + 1\<rparr>)"

lemma summary_scope_row [simp]:
  "summary_scope (summary_row c) = put_scope c"
  "summary_scope ((summary_row c)\<lparr>sum_revision := n\<rparr>) = put_scope c"
  by (simp_all add: summary_scope_def summary_row_def put_scope_def)

lemma summary_scope_next [simp]: "summary_scope (next_summary c db) = put_scope c"
  by (simp add: next_summary_def split: option.split)

abbreviation summary_update :: "SummaryRecord \<Rightarrow> SummaryRecord \<Rightarrow> SummaryRecord" where
  "summary_update s x \<equiv> s\<lparr>sum_project_id := sum_project_id x, sum_scope_type := sum_scope_type x,
     sum_scope_id := sum_scope_id x, sum_revision := sum_revision x + 1\<rparr>"

lemma summary_update_scope [simp]: "summary_scope (summary_update s x) = summary_scope x"
  by (simp add: summary_scope_def)

lemma summary_update_same:
  "summary_scope x = summary_scope s \<Longrightarrow> summary_update s x = s\<lparr>sum_revision := sum_revision x + 1\<rparr>"
  by (simp add: summary_scope_def)

lemma summary_row_fields [simp]:
  "sum_project_id (summary_row c) = put_project_id c"
  "sum_scope_type (summary_row c) = put_scope_type c"
  "sum_source_commit_id (summary_row c) = put_expected_source_commit_id c"
  "sum_revision (summary_row c) = 0"
  by (simp_all add: summary_row_def)

lemma upsert_summary_effect:
  assumes "summary_ok db" and "put_scope_type c \<in> set scope_types"
    and "put_project_id c \<in> pr_id ` set (project_t db)"
    and "put_expected_source_commit_id c \<in> cn_id ` set (commit_node_t db)"
  shows "upsert_summary (summary_row c) db = Inr (db\<lparr>summary_t :=
      upsert_by summary_scope (summary_update (summary_row c)) (summary_row c) (summary_t db)\<rparr>)"
proof -
  have "0 \<le> sum_revision x" if "x \<in> set (summary_t db)" for x
    using assms(1) that by (auto simp: summary_ok_def list_all_iff)
  then have "\<not> (\<exists>x \<in> set (summary_t db). summary_scope x = put_scope c \<and> sum_revision x + 1 < 0)"
    by fastforce
  moreover have "\<not> summary_record_guard x (summary_update (summary_row c) x)" for x
    by (simp add: summary_record_guard_def)
  ultimately show ?thesis
    using assms(2-) by (simp add: upsert_summary_def Let_def result_simps)
qed

lemma find_by_next_summary:
  "find_by summary_scope s (upsert_by summary_scope (summary_update (summary_row c)) (summary_row c)
      (summary_t db))
   = (if s = put_scope c then Some (next_summary c db) else find_by summary_scope s (summary_t db))"
  by (cases "find_by summary_scope (put_scope c) (summary_t db)")
    (auto simp: find_by_upsert next_summary_def summary_update_same dest!: find_by_SomeD)

lemma consume_invalidation:
  assumes keys: "distinct (map invalidation_scope (invalidation_t db))"
    and "find_by invalidation_scope s (invalidation_t db) = Some i"
    and "inv_source_commit_id i = h"
  shows "delete_invalidations (\<lambda>x. invalidation_scope x = s \<and> inv_source_commit_id x = h) db
    = (1, db\<lparr>invalidation_t := filter (\<lambda>x. invalidation_scope x \<noteq> s) (invalidation_t db)\<rparr>)"
proof -
  have i: "i \<in> set (invalidation_t db)" "invalidation_scope i = s"
    using assms(2) by (auto dest: find_by_SomeD)
  have "rows_where (\<lambda>x. invalidation_scope x = s \<and> inv_source_commit_id x = h) (invalidation_t db) = 1"
    using rows_where_key [OF keys i(1), of "\<lambda>x. inv_source_commit_id x = h"] i(2) assms(3) by simp
  moreover have "filter (\<lambda>x. \<not> (invalidation_scope x = s \<and> inv_source_commit_id x = h)) (invalidation_t db)
      = filter (\<lambda>x. invalidation_scope x \<noteq> s) (invalidation_t db)"
    using key_eqD [OF keys i(1)] i(2) assms(3) by (intro filter_cong) auto
  ultimately show ?thesis by (simp add: delete_invalidations_def)
qed

lemma put_summary_effect:
  assumes ok: "summary_ok db" and valid: "validate_put_summary_record c = Inr ()"
    and active: "validate_active_summary_scope (put_project_id c) (put_scope_type c) (put_scope_id c) db
      = Inr ()"
    and queued: "snd (summary_abs db (put_scope c)) = Some (put_expected_source_commit_id c)"
  shows "put_summary_record c db = (Inr (next_summary c db),
    db\<lparr>summary_t := upsert_by summary_scope (summary_update (summary_row c)) (summary_row c)
          (summary_t db),
       invalidation_t := filter (\<lambda>x. invalidation_scope x \<noteq> put_scope c) (invalidation_t db)\<rparr>)"
    (is "_ = (_, ?db')")
proof -
  let ?db1 = "db\<lparr>summary_t := upsert_by summary_scope (summary_update (summary_row c)) (summary_row c)
      (summary_t db)\<rparr>"
  from queued obtain i where i: "find_by invalidation_scope (put_scope c) (invalidation_t db) = Some i"
    "inv_source_commit_id i = put_expected_source_commit_id c"
    by (auto simp: summary_abs_def)
  then have "i \<in> set (invalidation_t db)" "invalidation_scope i = put_scope c"
    by (auto dest: find_by_SomeD)
  moreover from this(1) ok have "inv_project_id i \<in> pr_id ` set (project_t db)"
    "inv_source_commit_id i \<in> cn_id ` set (commit_node_t db)"
    by (simp_all add: summary_ok_def list_all_iff)
  ultimately have "put_project_id c \<in> pr_id ` set (project_t db)"
    "put_expected_source_commit_id c \<in> cn_id ` set (commit_node_t db)"
    using i(2) by (simp_all add: invalidation_scope_def put_scope_def)
  moreover have "put_scope_type c \<in> set scope_types"
    using valid by (simp add: validate_put_summary_record_def result_simps
        summary_scope_types_def scope_types_def)
  ultimately have upsert: "upsert_summary (summary_row c) db = Inr ?db1"
    by (intro upsert_summary_effect [OF ok])
  have consume: "delete_invalidations (\<lambda>x. invalidation_scope x = put_scope c
        \<and> inv_source_commit_id x = put_expected_source_commit_id c) ?db1 = (1, ?db')"
    using consume_invalidation [of ?db1 "put_scope c" i] ok i by (simp add: summary_ok_def)
  have "read_summary_record (put_project_id c) (put_scope_type c) (put_scope_id c) ?db'
      = Inr (next_summary c db)"
    using find_by_next_summary [of "put_scope c" c db]
    by (simp add: read_summary_record_def put_scope_def)
  then show ?thesis
    using valid active i upsert consume
    by (simp add: put_summary_record_def result_simps put_scope_def)
qed

lemma put_summaryD:
  assumes "put_summary_record c db = (Inr r, db')"
  shows "validate_put_summary_record c = Inr ()"
    and "validate_active_summary_scope (put_project_id c) (put_scope_type c) (put_scope_id c) db = Inr ()"
    and "snd (summary_abs db (put_scope c)) = Some (put_expected_source_commit_id c)"
  using assms
  by (cases "find_by invalidation_scope (put_scope c) (invalidation_t db)",
      auto simp: put_summary_record_def result_simps summary_abs_def split: if_splits)+

lemma put_summary_ok:
  assumes ok: "summary_ok db" and put: "put_summary_record c db = (Inr r, db')"
  shows "summary_ok db'"
proof -
  have rows: "set (upsert_by summary_scope (summary_update (summary_row c)) (summary_row c) (summary_t db))
      \<subseteq> insert (summary_row c) (set (summary_t db) \<union> summary_update (summary_row c) ` set (summary_t db))"
    by (rule set_upsert)
  have "0 \<le> sum_revision s" if "s \<in> set (upsert_by summary_scope (summary_update (summary_row c))
      (summary_row c) (summary_t db))" for s
    using subsetD [OF rows that] ok by (auto simp: summary_ok_def list_all_iff)
  then show ?thesis
    using put_summary_effect [OF ok put_summaryD [OF put]] put ok
    by (auto simp: summary_ok_def list_all_iff distinct_upsert distinct_filter_key)
qed

lemma enqueue_summary_ok:
  assumes ok: "summary_ok db" and enq: "enqueue_summary_invalidation p t s h reason at0 db = Inr db'"
  shows "summary_ok db'"
proof -
  let ?new = "\<lparr>inv_project_id = p, inv_scope_type = t, inv_scope_id = s, inv_source_commit_id = h,
      inv_reason = reason, inv_invalidation_count = 1, inv_created_at = at0\<rparr>"
  let ?upd = "\<lambda>x. x\<lparr>inv_source_commit_id := h, inv_reason := reason,
      inv_invalidation_count := inv_invalidation_count x + 1, inv_created_at := at0\<rparr>"
  have new: "p \<in> pr_id ` set (project_t db)" "h \<in> cn_id ` set (commit_node_t db)"
    and db': "db' = db\<lparr>invalidation_t := upsert_by invalidation_scope ?upd ?new (invalidation_t db)\<rparr>"
    using enq by (auto simp: enqueue_summary_invalidation_def upsert_invalidation_def result_simps)
  have "inv_project_id i \<in> pr_id ` set (project_t db) \<and> inv_source_commit_id i \<in> cn_id ` set (commit_node_t db)"
    if "i \<in> set (upsert_by invalidation_scope ?upd ?new (invalidation_t db))" for i
    using subsetD [OF set_upsert that] ok new by (auto simp: summary_ok_def list_all_iff)
  moreover have "distinct (map invalidation_scope (upsert_by invalidation_scope ?upd ?new (invalidation_t db)))"
    using ok by (intro distinct_upsert) (auto simp: summary_ok_def invalidation_scope_def)
  ultimately show ?thesis
    using ok by (simp add: db' summary_ok_def list_all_iff)
qed

text \<open>
  \<open>put_summary_record\<close> succeeds exactly when the command is valid, its scope is active and
  the commit the caller saw is the one queued for the scope. It stores the next revision of
  the summary, consumes exactly that invalidation and returns what a read gives; a refusal
  changes nothing.
\<close>

theorem put_summary_record_outcome:
  assumes "summary_ok db"
  shows "(if validate_put_summary_record c = Inr ()
        \<and> validate_active_summary_scope (put_project_id c) (put_scope_type c) (put_scope_id c) db = Inr ()
        \<and> snd (summary_abs db (put_scope c)) = Some (put_expected_source_commit_id c)
     then fst (put_summary_record c db) = Inr (next_summary c db)
       \<and> read_summary_record (put_project_id c) (put_scope_type c) (put_scope_id c)
            (snd (put_summary_record c db)) = Inr (next_summary c db)
       \<and> mset (invalidation_t db) = add_mset
            (the (find_by invalidation_scope (put_scope c) (invalidation_t db)))
            (mset (invalidation_t (snd (put_summary_record c db))))
     else (\<exists>e. put_summary_record c db = (Inl e, db)))
    \<and> summary_ok (snd (put_summary_record c db))"
    (is "(if ?pre then ?done else ?refused) \<and> ?ok")
proof (cases ?pre)
  case True
  then have put: "put_summary_record c db = (Inr (next_summary c db),
    db\<lparr>summary_t := upsert_by summary_scope (summary_update (summary_row c)) (summary_row c)
          (summary_t db),
       invalidation_t := filter (\<lambda>x. invalidation_scope x \<noteq> put_scope c) (invalidation_t db)\<rparr>)"
    by (intro put_summary_effect [OF assms]) simp_all
  from True obtain i where i: "find_by invalidation_scope (put_scope c) (invalidation_t db) = Some i"
    by (auto simp: summary_abs_def)
  have keys: "distinct (map invalidation_scope (invalidation_t db))"
    using assms by (simp add: summary_ok_def)
  have "mset (invalidation_t db) = mset (filter (\<lambda>x. invalidation_scope x = put_scope c) (invalidation_t db))
      + mset (filter (\<lambda>x. invalidation_scope x \<noteq> put_scope c) (invalidation_t db))"
    by (simp add: multiset_partition)
  also have "filter (\<lambda>x. invalidation_scope x = put_scope c) (invalidation_t db) = [i]"
    using filter_key_eq [OF keys] find_by_SomeD [OF i] by metis
  finally have "mset (invalidation_t db)
      = add_mset i (mset (filter (\<lambda>x. invalidation_scope x \<noteq> put_scope c) (invalidation_t db)))"
    by simp
  then have ?done
    using find_by_next_summary [of "put_scope c" c db] i
    by (simp add: put read_summary_record_def put_scope_def)
  with True put_summary_ok [OF assms put] show ?thesis by (simp add: put)
next
  case False
  obtain r db' where put: "put_summary_record c db = (r, db')" by (cases "put_summary_record c db")
  with False put_summaryD [of c db] obtain e where "r = Inl e" by (cases r) auto
  moreover from this put have "db' = db"
    by (simp add: put_summary_record_def checked_transaction_Inl_iff)
  ultimately show ?thesis using False assms put by auto
qed

text \<open>
  C27. The summary tables refine a cache from scopes to a summary and a pending commit. Storing
  a summary sets the value and clears the pending commit of its scope, enqueueing an
  invalidation sets the pending commit, nothing else changes, and the summary served is the
  stored one exactly when no commit is pending.
\<close>

theorem summary_tables_refine_cache:
  assumes "summary_ok db"
  shows "(put_summary_record c db = (Inr r, db1) \<longrightarrow>
      summary_abs db1 = (summary_abs db)(put_scope c := (Some r, None)))
    \<and> (enqueue_summary_invalidation p t s h reason created_at db = Inr db2 \<longrightarrow>
      summary_abs db2 = (summary_abs db)((p, t, s) := (fst (summary_abs db (p, t, s)), Some h)))
    \<and> (get_ready_summary_record p t s db = Inr found \<longrightarrow>
      found = (case summary_abs db (p, t, s) of (stored, None) \<Rightarrow> stored | _ \<Rightarrow> None))"
proof (intro conjI impI)
  assume put: "put_summary_record c db = (Inr r, db1)"
  from put_summary_effect [OF assms put_summaryD [OF put]] put
  show "summary_abs db1 = (summary_abs db)(put_scope c := (Some r, None))"
    by (auto simp: summary_abs_def fun_eq_iff find_by_next_summary find_by_filter_key)
next
  assume "enqueue_summary_invalidation p t s h reason created_at db = Inr db2"
  then show "summary_abs db2 = (summary_abs db)((p, t, s) := (fst (summary_abs db (p, t, s)), Some h))"
    by (auto simp: enqueue_summary_invalidation_def upsert_invalidation_def result_simps
        summary_abs_def fun_eq_iff find_by_upsert invalidation_scope_def split: option.split)
next
  assume ready: "get_ready_summary_record p t s db = Inr found"
  have "exists_row (\<lambda>i. invalidation_scope i = (p, t, s)) (invalidation_t db)
      \<longleftrightarrow> find_by invalidation_scope (p, t, s) (invalidation_t db) \<noteq> None"
    by (simp add: find_by_None_iff ex_key_iff)
  with ready show "found = (case summary_abs db (p, t, s) of (stored, None) \<Rightarrow> stored | _ \<Rightarrow> None)"
    by (auto simp: get_ready_summary_record_def result_simps summary_abs_def split: if_splits)
qed

section \<open>Samples\<close>

text \<open>A project with one knowledge item, one style sample and a queued project summary.\<close>

definition sample_library :: Database where
  "sample_library = empty_database
     \<lparr>project_t := [\<lparr>pr_id = ''p'', pr_title = ''t'', pr_language = ''en'', pr_schema_version = 11,
        pr_head_commit_id = Some ''c'', pr_revision = 0, pr_created_at = ''1'', pr_updated_at = ''1''\<rparr>],
      commit_node_t := [\<lparr>cn_id = ''c'', cn_project_id = ''p'', cn_root_hash = ''h'',
        cn_reason = ''initial'', cn_actor_type = ''system'', cn_actor_id = None,
        cn_created_at = ''1''\<rparr>],
      knowledge_t := [\<lparr>kn_id = ''k'', kn_project_id = ''p'', kn_kind = ''fact'', kn_title = ''t'',
        kn_content = ''x'', kn_content_hash = ''h'', kn_status = ''canonical'',
        kn_authority = ''user_confirmed'', kn_sensitivity = ''public'', kn_severity = None,
        kn_revision = 4, kn_created_at = ''1'', kn_updated_at = ''1''\<rparr>],
      style_t := [\<lparr>sty_id = ''s'', sty_project_id = ''p'', sty_title = ''t'', sty_content = ''x'',
        sty_content_hash = ''h'', sty_status = ''canonical'', sty_sensitivity = ''never_send'',
        sty_revision = 0, sty_created_at = ''1'', sty_updated_at = ''1''\<rparr>],
      invalidation_t := [\<lparr>inv_project_id = ''p'', inv_scope_type = ''project'', inv_scope_id = ''p'',
        inv_source_commit_id = ''c'', inv_reason = ''initial'', inv_invalidation_count = 1,
        inv_created_at = ''1''\<rparr>]\<rparr>"

lemma not_blank_samples [simp]:
  "\<not> blank ''p''" "\<not> blank ''k''" "\<not> blank ''s''" "\<not> blank ''c''" "\<not> blank ''h''" "\<not> blank ''t''"
  "\<not> blank ''x''" "\<not> blank ''2''" "\<not> blank ''project''" "\<not> blank ''archived''" "\<not> blank ''rejected''"
  "\<not> blank ''fact''" "\<not> blank ''user_confirmed''" "\<not> blank ''public''" "\<not> blank ''m''"
  by (simp_all add: blank_iff white_space_def cont_byte_def)

lemma sample_library_ok: "knowledge_ok sample_library" "style_ok sample_library" "summary_ok sample_library"
  by (simp_all add: sample_library_def empty_database_def knowledge_ok_def style_ok_def summary_ok_def
      knowledge_checks_def style_checks_def)

theorem create_knowledge_item_outcome_witness:
  "snd (create_knowledge_item
     \<lparr>cki_id = ''m'', cki_project_id = ''p'', cki_kind = ''fact'', cki_title = ''t'', cki_content = ''x'',
      cki_content_hash = ''h'', cki_authority = ''user_confirmed'', cki_sensitivity = ''public'',
      cki_severity = None, cki_created_at = ''2''\<rparr> sample_library) \<noteq> sample_library"
  using create_knowledge_item_outcome [OF sample_library_ok(1), of
     "\<lparr>cki_id = ''m'', cki_project_id = ''p'', cki_kind = ''fact'', cki_title = ''t'', cki_content = ''x'',
      cki_content_hash = ''h'', cki_authority = ''user_confirmed'', cki_sensitivity = ''public'',
      cki_severity = None, cki_created_at = ''2''\<rparr>"]
  by (simp add: validate_create_knowledge_item_def fields_present_def sample_library_def empty_database_def)

definition sample_archive :: SetKnowledgeItemStatus where
  "sample_archive = \<lparr>sks_project_id = ''p'', sks_id = ''k'', sks_expected_revision = 4,
     sks_status = ''archived'', sks_updated_at = ''2''\<rparr>"

theorem knowledge_status_optimistic_witness:
  "\<exists>r db'. set_knowledge_item_status sample_archive sample_library = (Inr r, db')
     \<and> kn_status r = ''archived''"
proof -
  have "validate_set_knowledge_item_status sample_archive = Inr ()"
    by (simp add: validate_set_knowledge_item_status_def fields_present_def sample_archive_def)
  moreover have "\<exists>r. read_knowledge_item ''p'' ''k'' sample_library = Inr r \<and> kn_revision r = 4"
    by (simp add: read_knowledge_item_def sample_library_def empty_database_def find_by_def knowledge_key_def)
  ultimately show ?thesis
    using knowledge_status_optimistic [OF sample_library_ok(1), of sample_archive]
    by (auto simp: sample_archive_def)
qed

theorem style_status_idempotent_witness:
  "let c = \<lparr>sss_project_id = ''p'', sss_id = ''s'', sss_expected_revision = 0,
            sss_status = ''archived'', sss_updated_at = ''2''\<rparr>
   in \<exists>r db'. set_style_sample_status c sample_library = (Inr r, db')
        \<and> set_style_sample_status (c\<lparr>sss_expected_revision := sty_revision r\<rparr>) db' = (Inr r, db')"
proof -
  let ?c = "\<lparr>sss_project_id = ''p'', sss_id = ''s'', sss_expected_revision = 0,
            sss_status = ''archived'', sss_updated_at = ''2''\<rparr>"
  have "validate_set_style_sample_status ?c = Inr ()"
    by (simp add: validate_set_style_sample_status_def fields_present_def)
  moreover have "\<exists>r. find_by style_key (''p'', ''s'') (style_t sample_library) = Some r \<and> sty_revision r = 0"
    by (simp add: sample_library_def empty_database_def find_by_def style_key_def)
  ultimately obtain r db' where "set_style_sample_status ?c sample_library = (Inr r, db')"
    using style_samples.set_status_succeeds_iff [OF sample_library_ok(2), of ?c] by auto
  with style_status_idempotent [OF sample_library_ok(2) this] show ?thesis by (auto simp: Let_def)
qed

definition sample_summary :: PutSummaryRecord where
  "sample_summary = \<lparr>put_project_id = ''p'', put_scope_type = ''project'', put_scope_id = ''p'',
     put_expected_source_commit_id = ''c'', put_source_hash = ''h'', put_summary = ''x'',
     put_summary_hash = ''h'', put_provider_id = ''m'', put_model = ''m'', put_generated_at = ''2''\<rparr>"

lemma sample_summary_accepted:
  "validate_put_summary_record sample_summary = Inr ()"
  "validate_active_summary_scope ''p'' ''project'' ''p'' sample_library = Inr ()"
  "snd (summary_abs sample_library (put_scope sample_summary)) = Some ''c''"
  by (simp_all add: validate_put_summary_record_def fields_present_def sample_summary_def
      summary_scope_types_def validate_active_summary_scope_def sample_library_def empty_database_def
      summary_abs_def find_by_def invalidation_scope_def put_scope_def)

theorem put_summary_record_outcome_witness:
  "fst (put_summary_record sample_summary sample_library) = Inr (next_summary sample_summary sample_library)"
  using put_summary_record_outcome [OF sample_library_ok(3), of sample_summary] sample_summary_accepted
  by (simp add: sample_summary_def)

theorem summary_tables_refine_cache_witness:
  "\<exists>r db'. put_summary_record sample_summary sample_library = (Inr r, db')
     \<and> summary_abs db' (put_scope sample_summary) = (Some r, None)"
proof -
  have "put_summary_record sample_summary sample_library = (Inr (next_summary sample_summary sample_library),
      snd (put_summary_record sample_summary sample_library))"
    using put_summary_effect [OF sample_library_ok(3), of sample_summary] sample_summary_accepted
    by (simp add: sample_summary_def)
  with summary_tables_refine_cache [OF sample_library_ok(3)] show ?thesis by (metis fun_upd_same)
qed

end
