(* ===== verification/DocumentTree.thy ===== *)
theory DocumentTree
  imports CommandChecks
begin

text \<open>
  \<open>validate_final_document_tree\<close> of \<open>store.rs\<close>: the check of the document hierarchy that a
  batch of mutations must leave behind, its termination, and its equivalence with a
  specification in terms of paths to the root.
\<close>

section \<open>The check\<close>

text \<open>The \<open>BTreeMap\<close> from identifiers to documents: a later document replaces an earlier one.\<close>

definition by_id :: "DocumentRecord list \<Rightarrow> string \<Rightarrow> DocumentRecord option" where
  "by_id docs i = find_by doc_id i (rev docs)"

lemma by_id_SomeD: "by_id docs i = Some d \<Longrightarrow> d \<in> set docs \<and> doc_id d = i"
  by (auto simp: by_id_def dest: find_by_SomeD)

lemma by_id_member: "distinct (map doc_id docs) \<Longrightarrow> d \<in> set docs \<Longrightarrow> by_id docs (doc_id d) = Some d"
  unfolding by_id_def by (subst find_by_Some_iff) (simp_all add: rev_map [symmetric])

text \<open>
  The inner loop follows the parents of an active document. It stops because the set of
  visited identifiers grows within the identifiers of the documents.
\<close>

function walk_parents :: "DocumentRecord list \<Rightarrow> string list \<Rightarrow> string option \<Rightarrow> unit StoreResult" where
  "walk_parents docs visited None = Inr ()"
| "walk_parents docs visited (Some parent_id) =
     (case by_id docs parent_id of
        None \<Rightarrow> validation ''document parent does not exist in the project''
      | Some parent \<Rightarrow>
          if doc_deleted_at parent \<noteq> None
          then validation ''an active document cannot have an archived parent''
          else if doc_id parent \<in> set visited
          then validation ''document hierarchy contains a cycle''
          else walk_parents docs (doc_id parent # visited) (doc_parent_id parent))"
  by pat_completeness auto

termination
proof (relation "measure (\<lambda>(docs, visited, _). card (doc_id ` set docs - set visited))")
  fix docs visited parent_id parent
  assume parent: "by_id docs parent_id = Some parent" "\<not> doc_id parent \<in> set visited"
  then have "doc_id parent \<in> doc_id ` set docs - set visited"
    by (auto dest: by_id_SomeD)
  then have "card (doc_id ` set docs - set (doc_id parent # visited))
      < card (doc_id ` set docs - set visited)"
    by (intro psubset_card_mono) auto
  then show "((docs, doc_id parent # visited, doc_parent_id parent), (docs, visited, Some parent_id))
      \<in> measure (\<lambda>(docs, visited, _). card (doc_id ` set docs - set visited))"
    by simp
qed simp

text \<open>The outer loop threads the sibling keys seen so far.\<close>

fun check_documents ::
  "DocumentRecord list \<Rightarrow> DocumentRecord list \<Rightarrow> (string option \<times> string) list \<Rightarrow> unit StoreResult" where
  "check_documents docs [] order_keys = Inr ()"
| "check_documents docs (d # ds) order_keys =
     (if (doc_parent_id d, doc_order_key d) \<in> set order_keys
      then validation ''document order keys must be unique within each parent''
      else if doc_deleted_at d \<noteq> None
      then check_documents docs ds ((doc_parent_id d, doc_order_key d) # order_keys)
      else rbind (walk_parents docs [doc_id d] (doc_parent_id d)) (\<lambda>_.
           check_documents docs ds ((doc_parent_id d, doc_order_key d) # order_keys)))"

definition validate_final_document_tree :: "DocumentRecord list \<Rightarrow> unit StoreResult" where
  "validate_final_document_tree docs =
     (if \<not> list_ex (\<lambda>d. doc_deleted_at d = None) docs
      then validation ''a project must retain at least one active document''
      else check_documents docs docs [])"

section \<open>The hierarchy as paths\<close>

text \<open>
  \<open>root_path docs i path\<close>: \<open>path\<close> leads from the document \<open>i\<close> through its parents to a
  document without parent, and every document on it is active.
\<close>

inductive root_path :: "DocumentRecord list \<Rightarrow> string \<Rightarrow> string list \<Rightarrow> bool" for docs where
  root: "by_id docs i = Some d \<Longrightarrow> doc_deleted_at d = None \<Longrightarrow> doc_parent_id d = None \<Longrightarrow>
    root_path docs i [i]"
| child: "by_id docs i = Some d \<Longrightarrow> doc_deleted_at d = None \<Longrightarrow> doc_parent_id d = Some p \<Longrightarrow>
    root_path docs p path \<Longrightarrow> root_path docs i (i # path)"

inductive_cases root_pathE: "root_path docs i path"

lemma root_path_unique: "root_path docs i path \<Longrightarrow> root_path docs i path' \<Longrightarrow> path' = path"
proof (induction arbitrary: path' rule: root_path.induct)
  case (root i d)
  from root.prems show ?case
    by (rule root_pathE) (use root.hyps in simp_all)
next
  case (child i d p path)
  from child.prems show ?case
  proof (rule root_pathE)
    fix d' p' rest
    assume "path' = i # rest" "by_id docs i = Some d'" "doc_parent_id d' = Some p'" "root_path docs p' rest"
    with child.hyps child.IH [of rest] show ?thesis by simp
  qed (use child.hyps in simp)
qed

text \<open>Every document on a path starts the rest of the path, so no document is on it twice.\<close>

lemma root_path_suffix:
  "root_path docs i path \<Longrightarrow> j \<in> set path \<Longrightarrow> \<exists>pre post. path = pre @ post \<and> root_path docs j post"
proof (induction rule: root_path.induct)
  case (root i d)
  then have "root_path docs j [i]" by (auto intro: root_path.root)
  then show ?case by (metis append_Nil)
next
  case (child i d p path)
  show ?case
  proof (cases "j = i")
    case True
    with child.hyps have "root_path docs j (i # path)" by (auto intro: root_path.child)
    then show ?thesis by (metis append_Nil)
  next
    case False
    with child obtain pre post where "path = pre @ post" "root_path docs j post" by auto
    then show ?thesis by (metis append_Cons)
  qed
qed

lemma root_path_distinct: "root_path docs i path \<Longrightarrow> distinct path"
proof (induction rule: root_path.induct)
  case (child i d p path)
  have "i \<notin> set path"
  proof
    assume "i \<in> set path"
    with child.hyps root_path_suffix obtain pre post where
      post: "path = pre @ post" "root_path docs i post" by blast
    moreover have "root_path docs i (i # path)"
      using child.hyps by (auto intro: root_path.child)
    ultimately have "post = i # path" using root_path_unique by blast
    with post(1) show False by (metis length_Cons length_append not_add_less2 lessI)
  qed
  with child.IH show ?case by simp
qed simp

section \<open>The loop computes reachability of a root\<close>

lemma walk_parents_sound:
  "walk_parents docs visited (Some p) = Inr () \<Longrightarrow> \<exists>path. root_path docs p path"
proof (induction "card (doc_id ` set docs - set visited)" arbitrary: visited p rule: less_induct)
  case less
  then obtain parent where parent: "by_id docs p = Some parent" "doc_deleted_at parent = None"
    "doc_id parent \<notin> set visited"
    "walk_parents docs (doc_id parent # visited) (doc_parent_id parent) = Inr ()"
    by (auto split: option.splits if_splits)
  show ?case
  proof (cases "doc_parent_id parent")
    case None
    with parent show ?thesis by (blast intro: root_path.root)
  next
    case (Some q)
    have "card (doc_id ` set docs - set (doc_id parent # visited))
        < card (doc_id ` set docs - set visited)"
      using parent by (intro psubset_card_mono) (auto dest: by_id_SomeD)
    from less.hyps [OF this, of q] parent(4) Some obtain path where "root_path docs q path" by auto
    with parent Some show ?thesis by (blast intro: root_path.child)
  qed
qed

lemma walk_parents_complete:
  "root_path docs p path \<Longrightarrow> set path \<inter> set visited = {} \<Longrightarrow> walk_parents docs visited (Some p) = Inr ()"
proof (induction arbitrary: visited rule: root_path.induct)
  case (root i d)
  then show ?case by (auto dest: by_id_SomeD)
next
  case (child i d p path)
  have "root_path docs i (i # path)" using child.hyps by (auto intro: root_path.child)
  then have "i \<notin> set path" by (auto dest: root_path_distinct)
  with child show ?case by (auto dest!: by_id_SomeD)
qed

lemma walk_parents_iff:
  assumes "by_id docs (doc_id d) = Some d" and "doc_deleted_at d = None"
  shows "walk_parents docs [doc_id d] (doc_parent_id d) = Inr () \<longleftrightarrow> (\<exists>path. root_path docs (doc_id d) path)"
proof (cases "doc_parent_id d")
  case None
  with assms show ?thesis by (auto intro: root_path.root)
next
  case (Some p)
  show ?thesis
  proof
    assume "walk_parents docs [doc_id d] (doc_parent_id d) = Inr ()"
    with Some obtain path where "root_path docs p path" using walk_parents_sound by metis
    with assms Some show "\<exists>path. root_path docs (doc_id d) path" by (blast intro: root_path.child)
  next
    assume "\<exists>path. root_path docs (doc_id d) path"
    then obtain path where path: "root_path docs (doc_id d) path" by blast
    with assms Some obtain rest where "path = doc_id d # rest" "root_path docs p rest"
      by (auto elim: root_pathE)
    with root_path_distinct [OF path] Some walk_parents_complete
    show "walk_parents docs [doc_id d] (doc_parent_id d) = Inr ()" by auto
  qed
qed

lemma check_documents_iff:
  assumes "\<And>d. d \<in> set ds \<Longrightarrow> by_id docs (doc_id d) = Some d"
  shows "check_documents docs ds keys = Inr () \<longleftrightarrow>
    distinct (map (\<lambda>d. (doc_parent_id d, doc_order_key d)) ds)
    \<and> (\<lambda>d. (doc_parent_id d, doc_order_key d)) ` set ds \<inter> set keys = {}
    \<and> (\<forall>d \<in> set ds. doc_deleted_at d = None \<longrightarrow> (\<exists>path. root_path docs (doc_id d) path))"
  using assms
proof (induction ds arbitrary: keys)
  case (Cons d ds)
  have "check_documents docs ds ((doc_parent_id d, doc_order_key d) # keys) = Inr () \<longleftrightarrow>
      distinct (map (\<lambda>d. (doc_parent_id d, doc_order_key d)) ds)
      \<and> (\<lambda>d. (doc_parent_id d, doc_order_key d)) ` set ds
          \<inter> set ((doc_parent_id d, doc_order_key d) # keys) = {}
      \<and> (\<forall>d \<in> set ds. doc_deleted_at d = None \<longrightarrow> (\<exists>path. root_path docs (doc_id d) path))"
    by (rule Cons.IH) (use Cons.prems in auto)
  moreover have "walk_parents docs [doc_id d] (doc_parent_id d) = Inr () \<longleftrightarrow>
      (\<exists>path. root_path docs (doc_id d) path)" if "doc_deleted_at d = None"
    using walk_parents_iff that Cons.prems by simp
  ultimately show ?case
    by (cases "walk_parents docs [doc_id d] (doc_parent_id d)") auto
qed simp

text \<open>
  C28. The document tree check accepts exactly the lists of documents, with distinct ids, that
  have an active document, distinct order keys below each parent, and from every active
  document a path of active parents to a root; such a path visits no document twice, so
  the hierarchy has no cycle and the loop over parents ends.
\<close>

theorem validate_final_document_tree_iff:
  assumes "distinct (map doc_id docs)"
  shows "(validate_final_document_tree docs = Inr () \<longleftrightarrow>
      (\<exists>d \<in> set docs. doc_deleted_at d = None)
      \<and> distinct (map (\<lambda>d. (doc_parent_id d, doc_order_key d)) docs)
      \<and> (\<forall>d \<in> set docs. doc_deleted_at d = None \<longrightarrow>
           (\<exists>path. root_path docs (doc_id d) path)))
    \<and> (\<forall>i path. root_path docs i path \<longrightarrow> distinct path)"
  using check_documents_iff [of docs docs "[]"] by_id_member [OF assms] root_path_distinct
  by (auto simp: validate_final_document_tree_def list_ex_iff)

theorem validate_final_document_tree_iff_witness:
  "let docs = [\<lparr>doc_id = ''b'', doc_project_id = ''p'', doc_parent_id = Some ''a'', doc_kind = ''k'',
                doc_title = ''t'', doc_order_key = ''1'', doc_revision = 0, doc_deleted_at = None\<rparr>,
               \<lparr>doc_id = ''a'', doc_project_id = ''p'', doc_parent_id = None, doc_kind = ''k'',
                doc_title = ''t'', doc_order_key = ''1'', doc_revision = 0, doc_deleted_at = None\<rparr>]
   in validate_final_document_tree docs = Inr () \<and> (\<exists>path. root_path docs ''b'' path)"
proof -
  let ?docs = "[\<lparr>doc_id = ''b'', doc_project_id = ''p'', doc_parent_id = Some ''a'', doc_kind = ''k'',
                doc_title = ''t'', doc_order_key = ''1'', doc_revision = 0, doc_deleted_at = None\<rparr>,
               \<lparr>doc_id = ''a'', doc_project_id = ''p'', doc_parent_id = None, doc_kind = ''k'',
                doc_title = ''t'', doc_order_key = ''1'', doc_revision = 0, doc_deleted_at = None\<rparr>]"
  have "validate_final_document_tree ?docs = Inr ()"
    by (simp add: validate_final_document_tree_def by_id_def find_by_def)
  moreover from this have "\<exists>path. root_path ?docs ''b'' path"
    using validate_final_document_tree_iff [of ?docs] by simp
  ultimately show ?thesis by (simp add: Let_def)
qed

end
