(* ===== verification/Documents.thy ===== *)
theory Documents
  imports Knowledge DocumentTree Operations
begin

text \<open>
  Documents and blocks, \<open>store/documents.rs\<close>: the queries, the creation of a document with
  its first block, a batch of document mutations and the edit of a block. Each command
  that writes names the head commit and the project revision it was made against, records
  a commit with its parent and change set, moves the heads of branch and project, and
  queues the summaries it makes stale.
\<close>

section \<open>Queries\<close>

definition list_documents :: "string \<Rightarrow> Database \<Rightarrow> DocumentRecord list StoreResult" where
  "list_documents project_id db =
     Inr (sort_key (\<lambda>d. (doc_order_key d, doc_id d))
       (filter (\<lambda>d. doc_project_id d = project_id \<and> doc_deleted_at d = None) (document_t db)))"

definition list_archived_documents :: "string \<Rightarrow> Database \<Rightarrow> DocumentRecord list StoreResult" where
  "list_archived_documents project_id db =
     Inr (sort_key (\<lambda>d. (Desc (doc_deleted_at d), doc_id d))
       (filter (\<lambda>d. doc_project_id d = project_id \<and> doc_deleted_at d \<noteq> None) (document_t db)))"

definition document_key :: "DocumentRecord \<Rightarrow> string \<times> string" where
  "document_key d = (doc_project_id d, doc_id d)"

definition get_document :: "string \<Rightarrow> string \<Rightarrow> Database \<Rightarrow> DocumentRecord StoreResult" where
  "get_document project_id document_id db =
     ok_or (find_by document_key (project_id, document_id) (document_t db))
       (NotFound ''document'' document_id)"

text \<open>\<open>block AS b JOIN document AS d ON d.id = b.document_id\<close>, and the columns of a block.\<close>

definition joined_blocks :: "Database \<Rightarrow> (DocumentRecord \<times> BlockRow) list" where
  "joined_blocks db = List.map_filter
     (\<lambda>b. map_option (\<lambda>d. (d, b)) (find_by doc_id (blk_document_id b) (document_t db))) (block_t db)"

definition block_record :: "BlockRow \<Rightarrow> BlockRecord" where
  "block_record b = BlockRecord.truncate b"

definition list_blocks :: "string \<Rightarrow> Database \<Rightarrow> BlockRecord list StoreResult" where
  "list_blocks project_id db =
     Inr (map (\<lambda>(d, b). block_record b)
       (sort_key (\<lambda>(d, b). (doc_order_key d, doc_id d, blk_order_key b, blk_id b))
         (filter (\<lambda>(d, b). doc_project_id d = project_id \<and> doc_deleted_at d = None
                           \<and> blk_deleted_at b = None) (joined_blocks db))))"

definition list_all_blocks :: "string \<Rightarrow> Database \<Rightarrow> BlockRecord list StoreResult" where
  "list_all_blocks project_id db =
     Inr (map (\<lambda>(d, b). block_record b)
       (sort_key (\<lambda>(d, b). (doc_id d, blk_order_key b, blk_id b))
         (filter (\<lambda>(d, b). doc_project_id d = project_id \<and> blk_deleted_at b = None)
           (joined_blocks db))))"

definition get_project_block :: "string \<Rightarrow> string \<Rightarrow> Database \<Rightarrow> BlockRecord StoreResult" where
  "get_project_block project_id block_id db =
     rbind (ok_or (List.find (\<lambda>(d, b). doc_project_id d = project_id \<and> blk_id b = block_id
                \<and> doc_deleted_at d = None \<and> blk_deleted_at b = None) (joined_blocks db))
              (NotFound ''block'' block_id)) (\<lambda>(d, b).
     Inr (block_record b))"

definition get_block :: "string \<Rightarrow> Database \<Rightarrow> BlockRecord StoreResult" where
  "get_block block_id db =
     rbind (ok_or (List.find (\<lambda>b. blk_id b = block_id \<and> blk_deleted_at b = None) (block_t db))
              (NotFound ''block'' block_id)) (\<lambda>b.
     Inr (block_record b))"

record EditableBlock =
  eb_project_id :: string
  eb_document_id :: string
  eb_revision :: int
  eb_content_hash :: string
  eb_content_json :: string
  eb_plain_text :: string
  eb_locked :: bool

definition read_block_for_edit :: "string \<Rightarrow> Database \<Rightarrow> EditableBlock StoreResult" where
  "read_block_for_edit block_id db =
     rbind (ok_or (List.find (\<lambda>(d, b). blk_id b = block_id \<and> blk_deleted_at b = None)
              (joined_blocks db)) (NotFound ''block'' block_id)) (\<lambda>(d, b).
     Inr \<lparr>eb_project_id = doc_project_id d, eb_document_id = blk_document_id b,
          eb_revision = blk_revision b, eb_content_hash = blk_content_hash b,
          eb_content_json = blk_content_json b, eb_plain_text = blk_plain_text b,
          eb_locked = blk_locked b\<rparr>)"

section \<open>The head of a branch\<close>

text \<open>
  \<open>branch AS b JOIN project AS p ON p.id = b.project_id\<close>: the project, the head commit and
  the revision of the project. A command that expects another head or revision is refused.
\<close>

definition read_branch_head :: "string \<Rightarrow> Database \<Rightarrow> (string \<times> string \<times> int) StoreResult" where
  "read_branch_head branch_id db =
     ok_or (Option.bind (find_by br_id branch_id (branch_t db)) (\<lambda>b.
              map_option (\<lambda>p. (br_project_id b, br_head_commit_id b, pr_revision p))
                (find_by pr_id (br_project_id b) (project_t db))))
       (NotFound ''branch'' branch_id)"

definition expect_head ::
  "string \<Rightarrow> string \<Rightarrow> int \<Rightarrow> string \<Rightarrow> int \<Rightarrow> unit StoreResult" where
  "expect_head branch_id expected_head expected_revision previous_head project_revision =
     require (\<not> (previous_head \<noteq> expected_head \<or> project_revision \<noteq> expected_revision))
       (StateConflict ''branch'' branch_id expected_revision project_revision
          expected_head previous_head)"

section \<open>Creating a document with its first block\<close>

definition created_document :: "CreateDocumentWithBlock \<Rightarrow> string \<Rightarrow> DocumentRecord" where
  "created_document c project_id =
     \<lparr>doc_id = cdb_document_id c, doc_project_id = project_id,
      doc_parent_id = cdb_document_parent_id c, doc_kind = cdb_document_kind c,
      doc_title = cdb_document_title c, doc_order_key = cdb_document_order_key c,
      doc_revision = 0, doc_deleted_at = None\<rparr>"

definition created_block :: "CreateDocumentWithBlock \<Rightarrow> BlockRow" where
  "created_block c =
     \<lparr>blk_id = cdb_block_id c, blk_document_id = cdb_document_id c, blk_kind = cdb_block_kind c,
      blk_order_key = cdb_block_order_key c, blk_content_json = cdb_block_content_json c,
      blk_plain_text = cdb_block_plain_text c, blk_content_hash = cdb_block_content_hash c,
      blk_revision = 0, blk_locked = cdb_block_locked c, blk_deleted_at = None\<rparr>"

definition creation_commit :: "CreateDocumentWithBlock \<Rightarrow> string \<Rightarrow> CommitRow" where
  "creation_commit c project_id =
     \<lparr>cn_id = cdb_commit_id c, cn_project_id = project_id, cn_root_hash = cdb_new_root_hash c,
      cn_reason = ''document_create'', cn_actor_type = cdb_actor_type c,
      cn_actor_id = cdb_actor_id c, cn_created_at = cdb_occurred_at c\<rparr>"

definition document_creation :: "CreateDocumentWithBlock \<Rightarrow> ChangeSetRow" where
  "document_creation c =
     \<lparr>chg_commit_id = cdb_commit_id c, chg_position = 0, chg_entity_type = ''document'',
      chg_entity_id = cdb_document_id c, chg_operation = ''create'',
      chg_before_hash = None, chg_after_hash = None, chg_edit_journal_id = None\<rparr>"

definition block_creation :: "CreateDocumentWithBlock \<Rightarrow> ChangeSetRow" where
  "block_creation c =
     \<lparr>chg_commit_id = cdb_commit_id c, chg_position = 1, chg_entity_type = ''block'',
      chg_entity_id = cdb_block_id c, chg_operation = ''create'', chg_before_hash = None,
      chg_after_hash = Some (cdb_block_content_hash c), chg_edit_journal_id = None\<rparr>"

definition create_document_with_block ::
  "Env \<Rightarrow> CreateDocumentWithBlock \<Rightarrow> Database \<Rightarrow> CreateDocumentReceipt StoreResult \<times> Database" where
  "create_document_with_block env c =
     checked_transaction (validate_create_document c) (\<lambda>db.
       rbind (read_branch_head (cdb_branch_id c) db) (\<lambda>(project_id, previous_head, project_revision).
       rbind (expect_head (cdb_branch_id c) (cdb_expected_head_commit_id c)
                (cdb_expected_project_revision c) previous_head project_revision) (\<lambda>_.
       rbind (case cdb_document_parent_id c of None \<Rightarrow> Inr ()
              | Some parent_id \<Rightarrow>
                  require (active_document project_id parent_id db)
                    (NotFound ''document'' parent_id)) (\<lambda>_.
       rbind (require (\<not> exists_row (\<lambda>d. doc_project_id d = project_id
                  \<and> doc_parent_id d = cdb_document_parent_id c
                  \<and> doc_order_key d = cdb_document_order_key c) (document_t db))
                (Validation ''document order key already exists within the parent'')) (\<lambda>_.
       rbind (insert_document (created_document c project_id) db) (\<lambda>db.
       rbind (insert_block env (created_block c) db) (\<lambda>db.
       rbind (insert_commit (creation_commit c project_id) db) (\<lambda>db.
       rbind (foldM (\<lambda>(scope_type, scope_id). enqueue_summary_invalidation project_id scope_type
                  scope_id (cdb_commit_id c) ''document_create'' (cdb_occurred_at c))
                [(''project'', project_id), (''document'', cdb_document_id c),
                 (''block'', cdb_block_id c)] db) (\<lambda>db.
       rbind (insert_commit_parent
                \<lparr>par_commit_id = cdb_commit_id c, par_parent_id = previous_head,
                 par_position = 0\<rparr> db) (\<lambda>db.
       rbind (insert_change_set (document_creation c) db) (\<lambda>db.
       rbind (insert_change_set (block_creation c) db) (\<lambda>db.
       rbind (rbind (update_branch_head (cdb_commit_id c) (cdb_occurred_at c)
                (\<lambda>b. br_id b = cdb_branch_id c \<and> br_head_commit_id b = previous_head) db)
                (one_row ''document creation branch update changed an unexpected row count'')) (\<lambda>db.
       rbind (rbind (update_project_head (cdb_commit_id c) (\<lambda>_. project_revision + 1)
                (cdb_occurred_at c)
                (\<lambda>p. pr_id p = project_id \<and> pr_head_commit_id p = Some previous_head
                     \<and> pr_revision p = project_revision) db)
                (one_row ''document creation project update changed an unexpected row count'')) (\<lambda>db.
       Inr (\<lparr>cdr_document_id = cdb_document_id c, cdr_block_id = cdb_block_id c,
             cdr_commit_id = cdb_commit_id c, cdr_previous_head_commit_id = previous_head,
             cdr_project_revision = project_revision + 1\<rparr>, db)))))))))))))))"

section \<open>A batch of document mutations\<close>

text \<open>The project's documents after the mutations, and the parents before and after.\<close>

definition mutated_document :: "string \<Rightarrow> DocumentMutation \<Rightarrow> DocumentRecord \<Rightarrow> DocumentRecord" where
  "mutated_document occurred_at m d =
     d\<lparr>doc_parent_id := mut_parent_id m, doc_kind := mut_kind m, doc_title := mut_title m,
       doc_order_key := mut_order_key m, doc_revision := doc_revision d + 1,
       doc_deleted_at := (if mut_active m then None else Some occurred_at)\<rparr>"

definition mutate_document ::
  "ApplyDocumentBatch \<Rightarrow> string \<Rightarrow> DocumentMutation \<Rightarrow> DocumentRecord list \<times> string list
     \<Rightarrow> (DocumentRecord list \<times> string list) StoreResult" where
  "mutate_document c previous_head m = (\<lambda>(documents, related_parent_ids).
     rbind (ok_or (find_by doc_id (mut_document_id m) documents)
              (NotFound ''document'' (mut_document_id m))) (\<lambda>document.
     rbind (require (doc_revision document = mut_expected_revision m)
              (StateConflict ''document'' (doc_id document) (mut_expected_revision m)
                 (doc_revision document) (adb_expected_head_commit_id c) previous_head)) (\<lambda>_.
     rbind (require (mut_parent_id m \<noteq> Some (mut_document_id m))
              (Validation ''a document cannot be its own parent'')) (\<lambda>_.
     Inr (update_where (\<lambda>d. doc_id d = mut_document_id m)
            (mutated_document (adb_occurred_at c) m) documents,
          related_parent_ids @ (case doc_parent_id document of None \<Rightarrow> [] | Some p \<Rightarrow> [p])
            @ (case mut_parent_id m of None \<Rightarrow> [] | Some p \<Rightarrow> [p]))))))"

definition temporary_order_keys :: "ApplyDocumentBatch \<Rightarrow> string list" where
  "temporary_order_keys c =
     map (\<lambda>(index, _). ''~'' @ adb_commit_id c @ ''-'' @ show_nat index)
       (enumerate 0 (adb_mutations c))"

text \<open>The rows are first moved out of the way, then written.\<close>

definition stage_mutation ::
  "string \<Rightarrow> DocumentMutation \<times> string \<Rightarrow> Database \<Rightarrow> Database StoreResult" where
  "stage_mutation project_id = (\<lambda>(m, temporary_order_key) db.
     rbind (update_document
              (\<lambda>d. d\<lparr>doc_parent_id := None, doc_order_key := temporary_order_key\<rparr>)
              (\<lambda>d. doc_id d = mut_document_id m \<and> doc_project_id d = project_id
                   \<and> doc_revision d = mut_expected_revision m) db)
       (one_row ''document mutation staging changed an unexpected row count''))"

definition write_mutation ::
  "ApplyDocumentBatch \<Rightarrow> string \<Rightarrow> DocumentMutation \<Rightarrow> Database \<Rightarrow> Database StoreResult" where
  "write_mutation c project_id m db =
     rbind (update_document
              (\<lambda>d. d\<lparr>doc_parent_id := mut_parent_id m, doc_kind := mut_kind m,
                     doc_title := mut_title m, doc_order_key := mut_order_key m,
                     doc_revision := mut_expected_revision m + 1,
                     doc_deleted_at := (if mut_active m then None else Some (adb_occurred_at c))\<rparr>)
              (\<lambda>d. doc_id d = mut_document_id m \<and> doc_project_id d = project_id
                   \<and> doc_revision d = mut_expected_revision m) db)
       (one_row ''document mutation changed an unexpected row count'')"

text \<open>The summaries that become stale, or are dropped with an archived document.\<close>

definition restored_block_ids :: "string \<Rightarrow> string \<Rightarrow> Database \<Rightarrow> string list" where
  "restored_block_ids project_id document_id db =
     map (\<lambda>(d, b). blk_id b)
       (sort_key (\<lambda>(d, b). (blk_order_key b, blk_id b))
         (filter (\<lambda>(d, b). doc_project_id d = project_id \<and> doc_id d = document_id
                           \<and> doc_deleted_at d = None \<and> blk_deleted_at b = None)
           (joined_blocks db)))"

definition invalidate_mutation ::
  "ApplyDocumentBatch \<Rightarrow> string \<Rightarrow> DocumentMutation \<Rightarrow> Database \<Rightarrow> Database StoreResult" where
  "invalidate_mutation c project_id m db =
     (if mut_active m then
        rbind (enqueue_summary_invalidation project_id ''document'' (mut_document_id m)
                 (adb_commit_id c) (adb_reason c) (adb_occurred_at c) db) (\<lambda>db.
        if mut_operation m = ''restore''
        then foldM (\<lambda>block_id. enqueue_summary_invalidation project_id ''block'' block_id
                      (adb_commit_id c) (adb_reason c) (adb_occurred_at c))
               (restored_block_ids project_id (mut_document_id m) db) db
        else Inr db)
      else
        Inr (snd (delete_invalidations
          (\<lambda>i. inv_project_id i = project_id
               \<and> (inv_scope_type i = ''document'' \<and> inv_scope_id i = mut_document_id m
                  \<or> inv_scope_type i = ''block'' \<and> exists_row (\<lambda>b. blk_id b = inv_scope_id i
                       \<and> blk_document_id b = mut_document_id m) (block_t db))) db)))"

definition invalidate_parent ::
  "ApplyDocumentBatch \<Rightarrow> string \<Rightarrow> DocumentRecord list \<Rightarrow> string \<Rightarrow> Database \<Rightarrow> Database StoreResult" where
  "invalidate_parent c project_id documents parent_id db =
     (if parent_id \<in> set (map mut_document_id (adb_mutations c)) then Inr db
      else if list_ex (\<lambda>d. doc_id d = parent_id \<and> doc_deleted_at d = None) documents
      then enqueue_summary_invalidation project_id ''document'' parent_id (adb_commit_id c)
             (adb_reason c) (adb_occurred_at c) db
      else Inr db)"

definition mutation_change :: "ApplyDocumentBatch \<Rightarrow> nat \<times> DocumentMutation \<Rightarrow> ChangeSetRow" where
  "mutation_change c = (\<lambda>(position, m).
     \<lparr>chg_commit_id = adb_commit_id c, chg_position = int position,
      chg_entity_type = ''document'', chg_entity_id = mut_document_id m,
      chg_operation = mut_operation m, chg_before_hash = Some (mut_before_hash m),
      chg_after_hash = Some (mut_after_hash m), chg_edit_journal_id = None\<rparr>)"

definition batch_commit :: "ApplyDocumentBatch \<Rightarrow> string \<Rightarrow> CommitRow" where
  "batch_commit c project_id =
     \<lparr>cn_id = adb_commit_id c, cn_project_id = project_id, cn_root_hash = adb_new_root_hash c,
      cn_reason = adb_reason c, cn_actor_type = adb_actor_type c, cn_actor_id = adb_actor_id c,
      cn_created_at = adb_occurred_at c\<rparr>"

definition apply_document_batch ::
  "ApplyDocumentBatch \<Rightarrow> Database \<Rightarrow> DocumentBatchReceipt StoreResult \<times> Database" where
  "apply_document_batch c =
     checked_transaction (validate_document_batch c) (\<lambda>db.
       rbind (read_branch_head (adb_branch_id c) db) (\<lambda>(project_id, previous_head, project_revision).
       rbind (expect_head (adb_branch_id c) (adb_expected_head_commit_id c)
                (adb_expected_project_revision c) previous_head project_revision) (\<lambda>_.
       rbind (foldM (mutate_document c previous_head) (adb_mutations c)
                (sort_key doc_id (filter (\<lambda>d. doc_project_id d = project_id) (document_t db)), []))
         (\<lambda>(documents, related_parent_ids).
       rbind (validate_final_document_tree documents) (\<lambda>_.
       rbind (require (\<not> list_ex (\<lambda>key. key \<in> set (map doc_order_key documents))
                        (temporary_order_keys c))
                (InvariantViolation ''document mutation temporary order key collided'')) (\<lambda>_.
       rbind (foldM (stage_mutation project_id)
                (zip (adb_mutations c) (temporary_order_keys c)) db) (\<lambda>db.
       rbind (foldM (write_mutation c project_id) (adb_mutations c) db) (\<lambda>db.
       rbind (insert_commit (batch_commit c project_id) db) (\<lambda>db.
       rbind (enqueue_summary_invalidation project_id ''project'' project_id (adb_commit_id c)
                (adb_reason c) (adb_occurred_at c) db) (\<lambda>db.
       rbind (foldM (invalidate_mutation c project_id) (adb_mutations c) db) (\<lambda>db.
       rbind (foldM (invalidate_parent c project_id documents)
                (btree_iter related_parent_ids) db) (\<lambda>db.
       rbind (insert_commit_parent
                \<lparr>par_commit_id = adb_commit_id c, par_parent_id = previous_head,
                 par_position = 0\<rparr> db) (\<lambda>db.
       rbind (foldM insert_change_set
                (map (mutation_change c) (enumerate 0 (adb_mutations c))) db) (\<lambda>db.
       rbind (rbind (update_branch_head (adb_commit_id c) (adb_occurred_at c)
                (\<lambda>b. br_id b = adb_branch_id c \<and> br_head_commit_id b = previous_head) db)
                (one_row ''document mutation branch update changed an unexpected row count'')) (\<lambda>db.
       rbind (rbind (update_project_head (adb_commit_id c) (\<lambda>_. project_revision + 1)
                (adb_occurred_at c)
                (\<lambda>p. pr_id p = project_id \<and> pr_head_commit_id p = Some previous_head
                     \<and> pr_revision p = project_revision) db)
                (one_row ''document mutation project update changed an unexpected row count'')) (\<lambda>db.
       Inr (\<lparr>dbr_commit_id = adb_commit_id c, dbr_previous_head_commit_id = previous_head,
             dbr_project_revision = project_revision + 1\<rparr>, db)))))))))))))))))"

section \<open>Editing a block\<close>

text \<open>\<open>UPDATE document SET revision = revision + 1 WHERE id = ... AND deleted_at IS NULL\<close>.\<close>

definition bump_document :: "string \<Rightarrow> Database \<Rightarrow> (nat \<times> Database) StoreResult" where
  "bump_document document_id =
     update_document (\<lambda>d. d\<lparr>doc_revision := doc_revision d + 1\<rparr>)
       (\<lambda>d. doc_id d = document_id \<and> doc_deleted_at d = None)"

definition edit_commit :: "ApplyBlockEdit \<Rightarrow> string \<Rightarrow> CommitRow" where
  "edit_commit c project_id =
     \<lparr>cn_id = abe_commit_id c, cn_project_id = project_id, cn_root_hash = abe_new_root_hash c,
      cn_reason = abe_reason c, cn_actor_type = abe_actor_type c, cn_actor_id = abe_actor_id c,
      cn_created_at = abe_occurred_at c\<rparr>"

definition edit_entry :: "ApplyBlockEdit \<Rightarrow> EditableBlock \<Rightarrow> EditJournalRow" where
  "edit_entry c current =
     \<lparr>ej_id = abe_edit_id c, ej_project_id = eb_project_id current, ej_block_id = abe_block_id c,
      ej_base_revision = eb_revision current, ej_new_revision = eb_revision current + 1,
      ej_before_hash = eb_content_hash current, ej_after_hash = abe_new_content_hash c,
      ej_before_content_json = eb_content_json current,
      ej_after_content_json = abe_new_content_json c,
      ej_before_plain_text = eb_plain_text current, ej_after_plain_text = abe_new_plain_text c,
      ej_occurred_at = abe_occurred_at c\<rparr>"

definition edit_change :: "ApplyBlockEdit \<Rightarrow> ChangeSetRow" where
  "edit_change c =
     \<lparr>chg_commit_id = abe_commit_id c, chg_position = 0, chg_entity_type = ''block'',
      chg_entity_id = abe_block_id c, chg_operation = ''update'',
      chg_before_hash = Some (abe_expected_hash c), chg_after_hash = Some (abe_new_content_hash c),
      chg_edit_journal_id = Some (abe_edit_id c)\<rparr>"

definition edited_block :: "ApplyBlockEdit \<Rightarrow> int \<Rightarrow> BlockRow \<Rightarrow> BlockRow" where
  "edited_block c new_revision b =
     b\<lparr>blk_content_json := abe_new_content_json c, blk_plain_text := abe_new_plain_text c,
       blk_content_hash := abe_new_content_hash c, blk_revision := new_revision\<rparr>"

text \<open>The \<open>WHERE\<close> clause of the update.\<close>

definition edit_hits :: "ApplyBlockEdit \<Rightarrow> BlockRow \<Rightarrow> bool" where
  "edit_hits c b \<longleftrightarrow> blk_id b = abe_block_id c \<and> blk_revision b = abe_expected_revision c
     \<and> blk_content_hash b = abe_expected_hash c \<and> \<not> blk_locked b \<and> blk_deleted_at b = None"

text \<open>The review event of an accepted proposal, in the transaction of the edit.\<close>

definition apply_review ::
  "Env \<Rightarrow> ApplyBlockEdit \<Rightarrow> Database \<Rightarrow> Database StoreResult" where
  "apply_review env c db =
     (case abe_review_event c of None \<Rightarrow> Inr db
      | Some review_event \<Rightarrow>
          rbind (require (\<not> (are_kind review_event \<noteq> ReviewEventKind.Apply
                      \<or> are_expected_status review_event \<noteq> ReviewSessionStatus.Ready
                      \<or> are_next_status review_event \<noteq> ReviewSessionStatus.Applied
                      \<or> are_occurred_at review_event \<noteq> abe_occurred_at c
                      \<or> abe_reason c \<noteq> ''ai_accept''
                      \<or> abe_actor_type c \<noteq> ''model''))
                   (Validation (''reviewed edit must atomically apply one ready proposal ''
                      @ ''as a model ai_accept commit''))) (\<lambda>_.
          rbind (append_review_event_in_transaction env review_event db) (\<lambda>(_, db). Inr db)))"

definition apply_block_edit ::
  "Env \<Rightarrow> ApplyBlockEdit \<Rightarrow> Database \<Rightarrow> EditReceipt StoreResult \<times> Database" where
  "apply_block_edit env c =
     checked_transaction (validate_edit c) (\<lambda>db.
       rbind (read_block_for_edit (abe_block_id c) db) (\<lambda>current.
       rbind (require (\<not> eb_locked current)
                (Validation (''block '' @ abe_block_id c @ '' is locked''))) (\<lambda>_.
       rbind (require (\<not> (eb_revision current \<noteq> abe_expected_revision c
                          \<or> eb_content_hash current \<noteq> abe_expected_hash c))
                (StoreError.Conflict ''block'' (abe_block_id c) (abe_expected_revision c) (eb_revision current)
                   (abe_expected_hash c) (eb_content_hash current))) (\<lambda>_.
       rbind (read_branch_head (abe_branch_id c) db)
         (\<lambda>(branch_project_id, previous_head, project_revision).
       rbind (require (branch_project_id = eb_project_id current)
                (Validation ''branch and block belong to different projects'')) (\<lambda>_.
       rbind (expect_head (abe_branch_id c) (abe_expected_head_commit_id c)
                (abe_expected_project_revision c) previous_head project_revision) (\<lambda>_.
       rbind (rbind (update_block env (edited_block c (eb_revision current + 1))
                (edit_hits c) db)
                (one_row ''optimistic block update changed an unexpected row count'')) (\<lambda>db.
       rbind (insert_edit_journal env (edit_entry c current) db) (\<lambda>db.
       rbind (rbind (bump_document (eb_document_id current) db)
                (one_row ''document revision update changed an unexpected row count'')) (\<lambda>db.
       rbind (insert_commit (edit_commit c (eb_project_id current)) db) (\<lambda>db.
       rbind (foldM (\<lambda>(scope_type, scope_id). enqueue_summary_invalidation (eb_project_id current)
                  scope_type scope_id (abe_commit_id c) (abe_reason c) (abe_occurred_at c))
                [(''project'', eb_project_id current), (''document'', eb_document_id current),
                 (''block'', abe_block_id c)] db) (\<lambda>db.
       rbind (insert_commit_parent
                \<lparr>par_commit_id = abe_commit_id c, par_parent_id = previous_head,
                 par_position = 0\<rparr> db) (\<lambda>db.
       rbind (insert_change_set (edit_change c) db) (\<lambda>db.
       rbind (rbind (update_branch_head (abe_commit_id c) (abe_occurred_at c)
                (\<lambda>b. br_id b = abe_branch_id c \<and> br_head_commit_id b = previous_head) db)
                (one_row ''branch head changed while applying an edit'')) (\<lambda>db.
       rbind (rbind (update_project_head (abe_commit_id c) (\<lambda>r. r + 1) (abe_occurred_at c)
                (\<lambda>p. pr_id p = eb_project_id current) db)
                (one_row ''project head update changed an unexpected row count'')) (\<lambda>db.
       rbind (apply_review env c db) (\<lambda>db.
       Inr (\<lparr>er_edit_id = abe_edit_id c, er_commit_id = abe_commit_id c,
             er_previous_head_commit_id = previous_head, er_block_id = abe_block_id c,
             er_new_revision = eb_revision current + 1,
             er_new_content_hash = abe_new_content_hash c\<rparr>, db))))))))))))))))))"

end
