(* ===== verification/Projects.thy ===== *)
theory Projects
  imports Documents SnapshotCodec
begin

text \<open>
  Projects and branches, \<open>store/projects.rs\<close>: the initialization of a project from a seed,
  the queries, the snapshot of the head of a project (\<open>store.rs\<close>), and the branch that
  holds the candidate content of a reviewed proposal.
\<close>

section \<open>Initializing a project\<close>

definition CURRENT_SCHEMA_VERSION :: int where
  "CURRENT_SCHEMA_VERSION = 11"

definition seed_project_row :: "ProjectSeed \<Rightarrow> ProjectRow" where
  "seed_project_row seed =
     \<lparr>pr_id = seed_project_id seed, pr_title = seed_title seed, pr_language = seed_language seed,
      pr_schema_version = CURRENT_SCHEMA_VERSION, pr_head_commit_id = None, pr_revision = 0,
      pr_created_at = seed_created_at seed, pr_updated_at = seed_created_at seed\<rparr>"

definition seed_document_row :: "ProjectSeed \<Rightarrow> SeedDocument \<Rightarrow> DocumentRecord" where
  "seed_document_row seed d =
     \<lparr>doc_id = sd_id d, doc_project_id = seed_project_id seed, doc_parent_id = sd_parent_id d,
      doc_kind = sd_kind d, doc_title = sd_title d, doc_order_key = sd_order_key d,
      doc_revision = 0, doc_deleted_at = None\<rparr>"

definition seed_block_row :: "SeedBlock \<Rightarrow> BlockRow" where
  "seed_block_row b =
     \<lparr>blk_id = sb_id b, blk_document_id = sb_document_id b, blk_kind = sb_kind b,
      blk_order_key = sb_order_key b, blk_content_json = sb_content_json b,
      blk_plain_text = sb_plain_text b, blk_content_hash = sb_content_hash b,
      blk_revision = 0, blk_locked = sb_locked b, blk_deleted_at = None\<rparr>"

definition seed_commit_row :: "ProjectSeed \<Rightarrow> CommitRow" where
  "seed_commit_row seed =
     \<lparr>cn_id = seed_initial_commit_id seed, cn_project_id = seed_project_id seed,
      cn_root_hash = seed_initial_root_hash seed, cn_reason = ''initial'',
      cn_actor_type = ''system'', cn_actor_id = None, cn_created_at = seed_created_at seed\<rparr>"

definition seed_change :: "ProjectSeed \<Rightarrow> nat \<times> SeedBlock \<Rightarrow> ChangeSetRow" where
  "seed_change seed = (\<lambda>(position, b).
     \<lparr>chg_commit_id = seed_initial_commit_id seed, chg_position = int position,
      chg_entity_type = ''block'', chg_entity_id = sb_id b, chg_operation = ''create'',
      chg_before_hash = None, chg_after_hash = Some (sb_content_hash b),
      chg_edit_journal_id = None\<rparr>)"

definition seed_branch_row :: "ProjectSeed \<Rightarrow> BranchRecord" where
  "seed_branch_row seed =
     \<lparr>br_id = seed_main_branch_id seed, br_project_id = seed_project_id seed, br_name = ''main'',
      br_head_commit_id = seed_initial_commit_id seed, br_created_at = seed_created_at seed,
      br_updated_at = seed_created_at seed\<rparr>"

definition enqueue_initial :: "ProjectSeed \<Rightarrow> string \<times> string \<Rightarrow> Database \<Rightarrow> Database StoreResult" where
  "enqueue_initial seed = (\<lambda>(scope_type, scope_id).
     enqueue_summary_invalidation (seed_project_id seed) scope_type scope_id
       (seed_initial_commit_id seed) ''initial'' (seed_created_at seed))"

text \<open>\<open>UPDATE project SET head_commit_id = ... WHERE id = ...\<close>.\<close>

definition set_project_head :: "string \<Rightarrow> string \<Rightarrow> Database \<Rightarrow> Database" where
  "set_project_head project_id commit_id db =
     db\<lparr>project_t := update_where (\<lambda>p. pr_id p = project_id)
          (\<lambda>p. p\<lparr>pr_head_commit_id := Some commit_id\<rparr>) (project_t db)\<rparr>"

definition initialize_project :: "Env \<Rightarrow> ProjectSeed \<Rightarrow> Database \<Rightarrow> unit StoreResult \<times> Database" where
  "initialize_project env seed =
     checked_transaction (validate_seed seed) (\<lambda>db.
       rbind (insert_project (seed_project_row seed) db) (\<lambda>db.
       rbind (foldM (\<lambda>d. insert_document (seed_document_row seed d)) (seed_documents seed) db) (\<lambda>db.
       rbind (foldM (\<lambda>b. insert_block env (seed_block_row b)) (seed_blocks seed) db) (\<lambda>db.
       rbind (insert_commit (seed_commit_row seed) db) (\<lambda>db.
       rbind (foldM insert_change_set (map (seed_change seed) (enumerate 0 (seed_blocks seed))) db) (\<lambda>db.
       rbind (enqueue_initial seed (''project'', seed_project_id seed) db) (\<lambda>db.
       rbind (foldM (\<lambda>d. enqueue_initial seed (''document'', sd_id d)) (seed_documents seed) db) (\<lambda>db.
       rbind (foldM (\<lambda>b. enqueue_initial seed (''block'', sb_id b)) (seed_blocks seed) db) (\<lambda>db.
       rbind (insert_branch (seed_branch_row seed) db) (\<lambda>db.
       Inr ((), set_project_head (seed_project_id seed) (seed_initial_commit_id seed) db)))))))))))"

section \<open>Queries\<close>

text \<open>A project without head is no \<open>ProjectRecord\<close>: reading its NULL as a \<open>String\<close> fails.\<close>

definition get_project :: "string \<Rightarrow> Database \<Rightarrow> ProjectRecord StoreResult" where
  "get_project project_id db =
     rbind (ok_or (find_by pr_id project_id (project_t db)) (NotFound ''project'' project_id)) (\<lambda>p.
     rbind (ok_or (pr_head_commit_id p) (Sqlite (InvalidColumnType ''head_commit_id''))) (\<lambda>head.
     Inr \<lparr>pj_id = pr_id p, pj_title = pr_title p, pj_language = pr_language p,
          pj_schema_version = pr_schema_version p, pj_head_commit_id = head,
          pj_revision = pr_revision p, pj_created_at = pr_created_at p,
          pj_updated_at = pr_updated_at p\<rparr>))"

definition get_branch :: "string \<Rightarrow> Database \<Rightarrow> BranchRecord StoreResult" where
  "get_branch branch_id db =
     ok_or (find_by br_id branch_id (branch_t db)) (NotFound ''branch'' branch_id)"

section \<open>The snapshot of the head\<close>

definition snapshot_document :: "DocumentRecord \<Rightarrow> SnapshotDocument" where
  "snapshot_document d =
     \<lparr>sdoc_id = doc_id d, sdoc_parent_id = doc_parent_id d, sdoc_kind = doc_kind d,
      sdoc_title = doc_title d, sdoc_order_key = doc_order_key d, sdoc_revision = doc_revision d\<rparr>"

definition read_active_documents :: "string \<Rightarrow> Database \<Rightarrow> SnapshotDocument list" where
  "read_active_documents project_id db =
     map snapshot_document (sort_key doc_id
       (filter (\<lambda>d. doc_project_id d = project_id \<and> doc_deleted_at d = None) (document_t db)))"

definition snapshot_block :: "BlockRow \<Rightarrow> SnapshotBlock" where
  "snapshot_block b =
     \<lparr>sblk_id = blk_id b, sblk_document_id = blk_document_id b, sblk_kind = blk_kind b,
      sblk_order_key = blk_order_key b, sblk_content_json = blk_content_json b,
      sblk_plain_text = blk_plain_text b, sblk_content_hash = blk_content_hash b,
      sblk_revision = blk_revision b, sblk_locked = blk_locked b\<rparr>"

definition read_active_snapshot_blocks :: "string \<Rightarrow> Database \<Rightarrow> SnapshotBlock list" where
  "read_active_snapshot_blocks project_id db =
     map snapshot_block (sort_key blk_id
       (map snd (filter (\<lambda>(d, b). doc_project_id d = project_id \<and> blk_deleted_at b = None
                                  \<and> doc_deleted_at d = None) (joined_blocks db))))"

definition read_head_snapshot :: "string \<Rightarrow> Database \<Rightarrow> ProjectSnapshotV1 StoreResult" where
  "read_head_snapshot project_id db =
     rbind (ok_or (find_by pr_id project_id (project_t db)) (NotFound ''project'' project_id)) (\<lambda>p.
     rbind (ok_or (pr_head_commit_id p) (Sqlite (InvalidColumnType ''head_commit_id''))) (\<lambda>head.
     rbind (ok_or (List.find (\<lambda>c. cn_id c = head \<and> cn_project_id c = project_id) (commit_node_t db))
              (Sqlite QueryReturnedNoRows)) (\<lambda>head_commit.
     Inr \<lparr>ps_schema_version = SNAPSHOT_SCHEMA_VERSION,
          ps_project = \<lparr>sp_id = project_id, sp_title = pr_title p, sp_language = pr_language p\<rparr>,
          ps_commit = \<lparr>sc_id = head, sc_root_hash = cn_root_hash head_commit\<rparr>,
          ps_branches = map (\<lambda>b. \<lparr>sbr_id = br_id b, sbr_name = br_name b,
                                  sbr_head_commit_id = br_head_commit_id b\<rparr>)
            (sort_key br_id (filter (\<lambda>b. br_project_id b = project_id) (branch_t db))),
          ps_documents = read_active_documents project_id db,
          ps_blocks = read_active_snapshot_blocks project_id db\<rparr>)))"

section \<open>The branch of a review candidate\<close>

text \<open>
  The binding of a proposal: its review, its run and the target in the payload of its
  artifact, read column by column.
\<close>

definition proposal_binding ::
  "Env \<Rightarrow> string \<Rightarrow> Database
     \<Rightarrow> (string \<times> string \<times> int \<times> string \<times> string \<times> string \<times> int \<times> string) StoreResult" where
  "proposal_binding env proposal_id db =
     rbind (ok_or (Option.bind (find_by rh_proposal_id proposal_id (review_head_t db)) (\<lambda>h.
              Option.bind (find_by ror_id (rh_run_id h) (run_t db)) (\<lambda>r.
              map_option (\<lambda>a. (h, r, a))
                (List.find (\<lambda>a. ar_id a = rh_proposal_id h \<and> ar_run_id a = rh_run_id h
                                \<and> ar_kind a = ''patch_proposal'') (artifact_t db)))))
              (NotFound ''review_candidate'' proposal_id)) (\<lambda>(h, r, a).
     let extract = sqlite_json_extract env (ar_payload_json a) in
     rbind (get_text ''documentId'' (extract ''$.target.documentId'')) (\<lambda>document_id.
     rbind (get_text ''blockId'' (extract ''$.target.blockId'')) (\<lambda>block_id.
     rbind (get_i64 ''baseRevision'' (extract ''$.target.baseRevision'')) (\<lambda>base_revision.
     rbind (get_text ''baseHash'' (extract ''$.target.baseHash'')) (\<lambda>base_hash.
     Inr (ror_project_id r, ror_base_commit_id r, rh_revision h, rh_status h,
          document_id, block_id, base_revision, base_hash))))))"

text \<open>\<open>iter_mut().find(p)\<close> with the assignments to what it found.\<close>

fun update_first :: "('a \<Rightarrow> bool) \<Rightarrow> ('a \<Rightarrow> 'a) \<Rightarrow> 'a list \<Rightarrow> 'a list option" where
  "update_first p f [] = None"
| "update_first p f (x # xs) = (if p x then Some (f x # xs) else map_option (Cons x) (update_first p f xs))"

definition candidate_snapshot ::
  "CreateReviewCandidateBranch \<Rightarrow> ProjectSnapshotV1 \<Rightarrow> ProjectSnapshotV1 StoreResult" where
  "candidate_snapshot c snapshot =
     rbind (ok_or (update_first (\<lambda>b. sblk_id b = crb_target_block_id c)
                (\<lambda>b. b\<lparr>sblk_content_json := crb_new_content_json c,
                       sblk_plain_text := crb_new_plain_text c,
                       sblk_content_hash := crb_new_content_hash c,
                       sblk_revision := sblk_revision b + 1\<rparr>) (ps_blocks snapshot))
              (InvariantViolation ''candidate target is absent from head snapshot'')) (\<lambda>blocks.
     rbind (ok_or (update_first (\<lambda>d. sdoc_id d = crb_target_document_id c)
                (\<lambda>d. d\<lparr>sdoc_revision := sdoc_revision d + 1\<rparr>) (ps_documents snapshot))
              (InvariantViolation ''candidate document is absent from head snapshot'')) (\<lambda>documents.
     Inr (snapshot\<lparr>ps_commit := \<lparr>sc_id = crb_commit_id c, sc_root_hash = crb_new_root_hash c\<rparr>,
            ps_branches := sort_key sbr_id (ps_branches snapshot
              @ [\<lparr>sbr_id = crb_branch_id c, sbr_name = crb_branch_name c,
                  sbr_head_commit_id = crb_commit_id c\<rparr>]),
            ps_documents := documents, ps_blocks := blocks\<rparr>)))"

definition store_snapshot :: "SnapshotCodecError + 'a \<Rightarrow> 'a StoreResult" where
  "store_snapshot r = map_sum (\<lambda>e. Snapshot (snapshot_error_display e)) id r"

definition candidate_commit :: "CreateReviewCandidateBranch \<Rightarrow> CommitRow" where
  "candidate_commit c =
     \<lparr>cn_id = crb_commit_id c, cn_project_id = crb_project_id c, cn_root_hash = crb_new_root_hash c,
      cn_reason = ''ai_candidate_branch'', cn_actor_type = ''model'',
      cn_actor_id = Some (crb_proposal_id c), cn_created_at = crb_occurred_at c\<rparr>"

definition candidate_rows ::
  "CreateReviewCandidateBranch \<Rightarrow> EncodedSnapshot \<Rightarrow> Database \<Rightarrow> Database StoreResult" where
  "candidate_rows c encoded db =
     rbind (insert_commit (candidate_commit c) db) (\<lambda>db.
     rbind (insert_commit_parent
              \<lparr>par_commit_id = crb_commit_id c, par_parent_id = crb_expected_project_head_commit_id c,
               par_position = 0\<rparr> db) (\<lambda>db.
     rbind (insert_change_set
              \<lparr>chg_commit_id = crb_commit_id c, chg_position = 0, chg_entity_type = ''block'',
               chg_entity_id = crb_target_block_id c, chg_operation = ''candidate'',
               chg_before_hash = Some (crb_expected_block_hash c),
               chg_after_hash = Some (crb_new_content_hash c), chg_edit_journal_id = None\<rparr> db) (\<lambda>db.
     rbind (insert_branch
              \<lparr>br_id = crb_branch_id c, br_project_id = crb_project_id c, br_name = crb_branch_name c,
               br_head_commit_id = crb_commit_id c, br_created_at = crb_occurred_at c,
               br_updated_at = crb_occurred_at c\<rparr> db) (\<lambda>db.
     rbind (insert_snapshot
              \<lparr>snr_id = crb_snapshot_id c, snr_project_id = crb_project_id c,
               snr_commit_id = crb_commit_id c, snr_root_hash = crb_new_root_hash c,
               snr_codec = SNAPSHOT_CODEC, snr_codec_version = SNAPSHOT_CODEC_VERSION,
               snr_payload = es_payload encoded, snr_checksum = es_checksum encoded,
               snr_created_at = crb_occurred_at c\<rparr> db) (\<lambda>db.
     insert_candidate
       \<lparr>cb_proposal_id = crb_proposal_id c, cb_branch_id = crb_branch_id c,
        cb_commit_id = crb_commit_id c, cb_snapshot_id = crb_snapshot_id c,
        cb_created_at = crb_occurred_at c\<rparr> db)))))"

text \<open>The checks before anything is written: review, binding, head and target block.\<close>

definition candidate_checks ::
  "Env \<Rightarrow> CreateReviewCandidateBranch \<Rightarrow> Database \<Rightarrow> unit StoreResult" where
  "candidate_checks env c db =
     rbind (proposal_binding env (crb_proposal_id c) db)
       (\<lambda>(project_id, base_commit_id, revision, status, document_id, block_id, base_revision, base_hash).
     rbind (ok_or (review_session_status_parse status)
              (InvariantViolation (''unknown review status '' @ status))) (\<lambda>actual_status.
     rbind (require (\<not> (revision \<noteq> crb_expected_review_revision c
                        \<or> actual_status \<noteq> ReviewSessionStatus.Ready))
              (StateConflict ''patch_review'' (crb_proposal_id c) (crb_expected_review_revision c)
                 revision (review_session_status_as_str ReviewSessionStatus.Ready)
                 (review_session_status_as_str actual_status))) (\<lambda>_.
     rbind (require (\<not> (project_id \<noteq> crb_project_id c
                        \<or> base_commit_id \<noteq> crb_expected_project_head_commit_id c
                        \<or> document_id \<noteq> crb_target_document_id c
                        \<or> block_id \<noteq> crb_target_block_id c
                        \<or> base_revision \<noteq> crb_expected_block_revision c
                        \<or> base_hash \<noteq> crb_expected_block_hash c))
              (Validation ''candidate branch command does not match its immutable proposal binding'')) (\<lambda>_.
     rbind (ok_or (find_by pr_id (crb_project_id c) (project_t db))
              (NotFound ''project'' (crb_project_id c))) (\<lambda>p.
     rbind (ok_or (pr_head_commit_id p) (Sqlite (InvalidColumnType ''head_commit_id''))) (\<lambda>project_head.
     rbind (require (project_head = crb_expected_project_head_commit_id c)
              (StateConflict ''candidate_branch_base'' (crb_proposal_id c)
                 (crb_expected_review_revision c) revision
                 (crb_expected_project_head_commit_id c) project_head)) (\<lambda>_.
     rbind (read_block_for_edit (crb_target_block_id c) db) (\<lambda>current.
     rbind (require (\<not> (eb_project_id current \<noteq> crb_project_id c
                        \<or> eb_document_id current \<noteq> crb_target_document_id c
                        \<or> eb_revision current \<noteq> crb_expected_block_revision c
                        \<or> eb_content_hash current \<noteq> crb_expected_block_hash c
                        \<or> eb_locked current))
              (StoreError.Conflict ''candidate_branch_target'' (crb_target_block_id c)
                 (crb_expected_block_revision c) (eb_revision current)
                 (crb_expected_block_hash c) (eb_content_hash current))) (\<lambda>_.
     require (\<not> exists_row (\<lambda>x. cb_proposal_id x = crb_proposal_id c) (candidate_t db))
       (Validation ''review candidate already has a branch''))))))))))"

definition create_review_candidate_branch ::
  "Env \<Rightarrow> Codec \<Rightarrow> CreateReviewCandidateBranch \<Rightarrow> Database
     \<Rightarrow> ReviewCandidateBranchRecord StoreResult \<times> Database" where
  "create_review_candidate_branch env cdc c =
     checked_transaction (validate_review_candidate_branch env c) (\<lambda>db.
       rbind (candidate_checks env c db) (\<lambda>_.
       rbind (read_head_snapshot (crb_project_id c) db) (\<lambda>snapshot.
       rbind (require (sc_id (ps_commit snapshot) = crb_expected_project_head_commit_id c)
                (InvariantViolation ''candidate snapshot does not match the expected project head'')) (\<lambda>_.
       rbind (candidate_snapshot c snapshot) (\<lambda>snapshot.
       rbind (store_snapshot (encode_snapshot cdc snapshot)) (\<lambda>encoded.
       rbind (candidate_rows c encoded db) (\<lambda>db.
       Inr (\<lparr>rcb_proposal_id = crb_proposal_id c, rcb_branch_id = crb_branch_id c,
             rcb_branch_name = crb_branch_name c, rcb_commit_id = crb_commit_id c,
             rcb_snapshot_id = crb_snapshot_id c, rcb_created_at = crb_occurred_at c\<rparr>, db))))))))"

end
