(* ===== verification/Commits.thy ===== *)
theory Commits
  imports Projects
begin

text \<open>
  Commits and snapshots, \<open>store/commits.rs\<close>: the history queries, the snapshot records and
  the restoration of a snapshot as a new commit.
\<close>

section \<open>History\<close>

definition commit_record :: "Database \<Rightarrow> CommitRow \<Rightarrow> CommitRecord" where
  "commit_record db c =
     \<lparr>cm_id = cn_id c, cm_project_id = cn_project_id c, cm_root_hash = cn_root_hash c,
      cm_reason = cn_reason c, cm_actor_type = cn_actor_type c, cm_actor_id = cn_actor_id c,
      cm_created_at = cn_created_at c,
      cm_parents = map par_parent_id (sort_key par_position
        (filter (\<lambda>p. par_commit_id p = cn_id c) (commit_parent_t db)))\<rparr>"

definition list_commits :: "string \<Rightarrow> Database \<Rightarrow> CommitRecord list StoreResult" where
  "list_commits project_id db =
     Inr (map (commit_record db) (sort_key (\<lambda>c. (cn_created_at c, cn_id c))
       (filter (\<lambda>c. cn_project_id c = project_id) (commit_node_t db))))"

text \<open>\<open>commit_parent AS cp JOIN commit_node AS cn ON cn.id = cp.commit_id\<close> of a project.\<close>

definition parent_rows :: "string \<Rightarrow> Database \<Rightarrow> CommitParentRow list" where
  "parent_rows project_id db =
     filter (\<lambda>p. exists_row (\<lambda>c. cn_id c = par_commit_id p \<and> cn_project_id c = project_id)
                  (commit_node_t db)) (commit_parent_t db)"

definition list_commit_parents :: "string \<Rightarrow> string \<Rightarrow> Database \<Rightarrow> string list StoreResult" where
  "list_commit_parents project_id commit_id db =
     Inr (map par_parent_id (sort_key par_position
       (filter (\<lambda>p. par_commit_id p = commit_id) (parent_rows project_id db))))"

text \<open>\<open>slice.chunks(n)\<close>.\<close>

function chunks :: "nat \<Rightarrow> 'a list \<Rightarrow> 'a list list" where
  "chunks n [] = []"
| "chunks n (x # xs) = (x # take (n - 1) xs) # chunks n (drop (n - 1) xs)"
  by pat_completeness auto

termination
  by (relation "measure (\<lambda>(_, xs). length xs)") auto

text \<open>\<open>entry(commit_id).or_insert_with(Vec::new).push(parent_id)\<close>, one row after the other.\<close>

definition push_parent ::
  "CommitParentRow \<Rightarrow> (string \<rightharpoonup> string list) \<Rightarrow> (string \<rightharpoonup> string list)" where
  "push_parent p m = m(par_commit_id p \<mapsto> coalesce (m (par_commit_id p)) [] @ [par_parent_id p])"

definition chunk_rows :: "string \<Rightarrow> Database \<Rightarrow> string list \<Rightarrow> CommitParentRow list" where
  "chunk_rows project_id db ids =
     sort_key (\<lambda>p. (par_commit_id p, par_position p))
       (filter (\<lambda>p. par_commit_id p \<in> set ids) (parent_rows project_id db))"

definition list_commit_parents_batch ::
  "string \<Rightarrow> string list \<Rightarrow> Database \<Rightarrow> (string \<rightharpoonup> string list) StoreResult" where
  "list_commit_parents_batch project_id commit_ids db =
     Inr (fold (\<lambda>ids. fold push_parent (chunk_rows project_id db ids))
       (chunks 200 commit_ids) Map.empty)"

section \<open>Snapshot records\<close>

definition created_snapshot :: "CreateSnapshot \<Rightarrow> SnapshotRecord" where
  "created_snapshot s =
     \<lparr>snr_id = csn_id s, snr_project_id = csn_project_id s, snr_commit_id = csn_commit_id s,
      snr_root_hash = csn_root_hash s, snr_codec = csn_codec s,
      snr_codec_version = csn_codec_version s, snr_payload = csn_payload s,
      snr_checksum = csn_checksum s, snr_created_at = csn_created_at s\<rparr>"

definition validate_create_snapshot :: "CreateSnapshot \<Rightarrow> unit StoreResult" where
  "validate_create_snapshot s =
     require (\<not> (blank (csn_codec s) \<or> blank (csn_checksum s) \<or> csn_codec_version s < 1))
       (Validation ''snapshot codec, checksum and codec version are required'')"

definition create_snapshot :: "CreateSnapshot \<Rightarrow> Database \<Rightarrow> unit StoreResult \<times> Database" where
  "create_snapshot s =
     checked_transaction (validate_create_snapshot s) (\<lambda>db.
       rbind (ok_or (List.find (\<lambda>c. cn_id c = csn_commit_id s \<and> cn_project_id c = csn_project_id s)
                (commit_node_t db)) (NotFound ''commit'' (csn_commit_id s))) (\<lambda>c.
       rbind (require (cn_root_hash c = csn_root_hash s)
                (Validation ''snapshot root hash does not match commit root hash'')) (\<lambda>_.
       rbind (insert_snapshot (created_snapshot s) db) (\<lambda>db.
       Inr ((), db)))))"

text \<open>The snapshots of a project, newest first, without those of candidate branches.\<close>

definition project_snapshots :: "string \<Rightarrow> Database \<Rightarrow> SnapshotRecord list" where
  "project_snapshots project_id db =
     sort_key (\<lambda>s. (Desc (snr_created_at s), Desc (snr_id s)))
       (filter (\<lambda>s. snr_project_id s = project_id
                    \<and> \<not> exists_row (\<lambda>x. cb_snapshot_id x = snr_id s) (candidate_t db))
         (snapshot_t db))"

definition latest_snapshot :: "string \<Rightarrow> Database \<Rightarrow> SnapshotRecord option StoreResult" where
  "latest_snapshot project_id db =
     Inr (case project_snapshots project_id db of [] \<Rightarrow> None | s # _ \<Rightarrow> Some s)"

definition list_snapshots :: "string \<Rightarrow> Database \<Rightarrow> SnapshotRecord list StoreResult" where
  "list_snapshots project_id db = Inr (project_snapshots project_id db)"

definition get_snapshot :: "string \<Rightarrow> Database \<Rightarrow> SnapshotRecord StoreResult" where
  "get_snapshot snapshot_id db =
     ok_or (find_by snr_id snapshot_id (snapshot_t db)) (NotFound ''snapshot'' snapshot_id)"

definition decode_snapshot_record :: "Codec \<Rightarrow> SnapshotRecord \<Rightarrow> ProjectSnapshotV1 StoreResult" where
  "decode_snapshot_record cdc r =
     rbind (require (\<not> (snr_codec r \<noteq> SNAPSHOT_CODEC \<or> snr_codec_version r \<noteq> SNAPSHOT_CODEC_VERSION))
              (Snapshot (''unsupported codec '' @ snr_codec r @ ''/'' @ show_int (snr_codec_version r)))) (\<lambda>_.
     rbind (store_snapshot (decode_snapshot cdc (snr_payload r) (snr_checksum r))) (\<lambda>snapshot.
     rbind (require (\<not> (sp_id (ps_project snapshot) \<noteq> snr_project_id r
                        \<or> sc_id (ps_commit snapshot) \<noteq> snr_commit_id r
                        \<or> sc_root_hash (ps_commit snapshot) \<noteq> snr_root_hash r))
              (Snapshot ''payload descriptor does not match snapshot database record'')) (\<lambda>_.
     Inr snapshot)))"

definition head_snapshot_record ::
  "string \<Rightarrow> ProjectSnapshotV1 \<Rightarrow> EncodedSnapshot \<Rightarrow> string \<Rightarrow> SnapshotRecord" where
  "head_snapshot_record snapshot_id snapshot encoded created_at =
     \<lparr>snr_id = snapshot_id, snr_project_id = sp_id (ps_project snapshot),
      snr_commit_id = sc_id (ps_commit snapshot),
      snr_root_hash = sc_root_hash (ps_commit snapshot), snr_codec = SNAPSHOT_CODEC,
      snr_codec_version = SNAPSHOT_CODEC_VERSION, snr_payload = es_payload encoded,
      snr_checksum = es_checksum encoded, snr_created_at = created_at\<rparr>"

definition create_head_snapshot ::
  "Codec \<Rightarrow> string \<Rightarrow> string \<Rightarrow> string \<Rightarrow> Database \<Rightarrow> SnapshotRecord StoreResult \<times> Database" where
  "create_head_snapshot cdc snapshot_id project_id created_at =
     checked_transaction
       (require (\<not> (blank snapshot_id \<or> blank project_id \<or> blank created_at))
          (Validation ''snapshot id, project id and created_at are required''))
       (\<lambda>db.
       rbind (read_head_snapshot project_id db) (\<lambda>snapshot.
       rbind (store_snapshot (encode_snapshot cdc snapshot)) (\<lambda>encoded.
       let r = head_snapshot_record snapshot_id snapshot encoded created_at in
       rbind (insert_snapshot r db) (\<lambda>db.
       Inr (r, db)))))"

definition head_snapshot :: "string \<Rightarrow> Database \<Rightarrow> ProjectSnapshotV1 StoreResult" where
  "head_snapshot project_id db = read_head_snapshot project_id db"

section \<open>Restoring a snapshot\<close>

record RestoredChange =
  rc_entity_type :: string
  rc_entity_id :: string
  rc_operation :: string
  rc_before_hash :: "string option"
  rc_after_hash :: "string option"
  rc_edit_id :: "string option"

text \<open>What the loops of the restoration write to.\<close>

record RestoreState =
  rst_db :: Database
  rst_changes :: "RestoredChange list"
  rst_changed_documents :: "string list"
  rst_revised_documents :: "string list"

text \<open>
  A block that is in the snapshot and active now must keep its document, kind, order key
  and lock; the blocks of the snapshot are visited in the order of their ids.
\<close>

definition block_metadata_ok :: "SnapshotBlock list \<Rightarrow> SnapshotBlock \<Rightarrow> unit StoreResult" where
  "block_metadata_ok current_blocks target =
     (case find_by sblk_id (sblk_id target) current_blocks of None \<Rightarrow> Inr ()
      | Some current \<Rightarrow>
          require (\<not> (sblk_document_id current \<noteq> sblk_document_id target
                      \<or> sblk_kind current \<noteq> sblk_kind target
                      \<or> sblk_order_key current \<noteq> sblk_order_key target
                      \<or> sblk_locked current \<noteq> sblk_locked target))
            (Validation (''block metadata changed and cannot be structurally restored: ''
               @ sblk_id target)))"

definition metadata_changed :: "SnapshotDocument \<Rightarrow> SnapshotDocument \<Rightarrow> bool" where
  "metadata_changed current target \<longleftrightarrow>
     sdoc_parent_id current \<noteq> sdoc_parent_id target
     \<or> sdoc_kind current \<noteq> sdoc_kind target
     \<or> sdoc_title current \<noteq> sdoc_title target
     \<or> sdoc_order_key current \<noteq> sdoc_order_key target"

definition document_structure_changed :: "SnapshotDocument list \<Rightarrow> SnapshotDocument list \<Rightarrow> bool" where
  "document_structure_changed current_documents documents \<longleftrightarrow>
     length current_documents \<noteq> length documents
     \<or> list_ex (\<lambda>target. case find_by sdoc_id (sdoc_id target) current_documents of
                   None \<Rightarrow> True | Some current \<Rightarrow> metadata_changed current target) documents"

definition stage_restore ::
  "RestoreSnapshot \<Rightarrow> string \<Rightarrow> nat \<times> SnapshotDocument \<Rightarrow> Database \<Rightarrow> Database StoreResult" where
  "stage_restore c project_id = (\<lambda>(position, d) db.
     rbind (update_document
              (\<lambda>x. x\<lparr>doc_parent_id := None,
                     doc_order_key := ''~restore-'' @ rs_new_commit_id c @ ''-'' @ show_nat position\<rparr>)
              (\<lambda>x. doc_id x = sdoc_id d \<and> doc_project_id x = project_id
                   \<and> doc_revision x = sdoc_revision d \<and> doc_deleted_at x = None) db)
       (one_row ''structural restore document staging changed an unexpected row count''))"

definition archive_block ::
  "Env \<Rightarrow> RestoreSnapshot \<Rightarrow> SnapshotBlock \<Rightarrow> RestoreState \<Rightarrow> RestoreState StoreResult" where
  "archive_block env c b st =
     rbind (rbind (update_block env (\<lambda>x. x\<lparr>blk_deleted_at := Some (rs_occurred_at c)\<rparr>)
              (\<lambda>x. blk_id x = sblk_id b \<and> blk_deleted_at x = None) (rst_db st))
              (one_row ''structural restore could not archive a block'')) (\<lambda>db.
     Inr (st\<lparr>rst_db := db,
             rst_changes := rst_changes st @
               [\<lparr>rc_entity_type = ''block'', rc_entity_id = sblk_id b, rc_operation = ''archive'',
                 rc_before_hash = Some (sblk_content_hash b), rc_after_hash = None,
                 rc_edit_id = None\<rparr>],
             rst_changed_documents := rst_changed_documents st @ [sblk_document_id b]\<rparr>))"

definition document_change :: "string \<Rightarrow> string \<Rightarrow> RestoredChange" where
  "document_change document_id operation =
     \<lparr>rc_entity_type = ''document'', rc_entity_id = document_id, rc_operation = operation,
      rc_before_hash = None, rc_after_hash = None, rc_edit_id = None\<rparr>"

definition archive_document ::
  "RestoreSnapshot \<Rightarrow> string \<Rightarrow> nat \<times> SnapshotDocument \<Rightarrow> RestoreState \<Rightarrow> RestoreState StoreResult" where
  "archive_document c project_id = (\<lambda>(position, d) st.
     rbind (rbind (update_document
                (\<lambda>x. x\<lparr>doc_parent_id := None,
                       doc_order_key := ''~archived-'' @ rs_new_commit_id c @ ''-'' @ show_nat position,
                       doc_deleted_at := Some (rs_occurred_at c),
                       doc_revision := doc_revision x + 1\<rparr>)
                (\<lambda>x. doc_id x = sdoc_id d \<and> doc_project_id x = project_id \<and> doc_deleted_at x = None)
                (rst_db st))
              (one_row ''structural restore could not archive a document'')) (\<lambda>db.
     Inr (st\<lparr>rst_db := db,
             rst_changes := rst_changes st @ [document_change (sdoc_id d) ''archive''],
             rst_revised_documents := rst_revised_documents st @ [sdoc_id d]\<rparr>)))"

definition restore_current_document ::
  "string \<Rightarrow> SnapshotDocument list \<Rightarrow> SnapshotDocument \<Rightarrow> RestoreState \<Rightarrow> RestoreState StoreResult" where
  "restore_current_document project_id current_documents target st =
     (case find_by sdoc_id (sdoc_id target) current_documents of None \<Rightarrow> Inr st
      | Some current \<Rightarrow>
          let changed = metadata_changed current target;
              next_revision = sdoc_revision current + (if changed then 1 else 0)
          in rbind (rbind (update_document
                      (\<lambda>x. x\<lparr>doc_parent_id := sdoc_parent_id target, doc_kind := sdoc_kind target,
                             doc_title := sdoc_title target, doc_order_key := sdoc_order_key target,
                             doc_revision := next_revision\<rparr>)
                      (\<lambda>x. doc_id x = sdoc_id target \<and> doc_project_id x = project_id
                           \<and> doc_revision x = sdoc_revision current \<and> doc_deleted_at x = None)
                      (rst_db st))
                    (one_row ''structural restore document update changed an unexpected row count'')) (\<lambda>db.
             Inr (if changed
                  then st\<lparr>rst_db := db,
                          rst_changes := rst_changes st @ [document_change (sdoc_id target) ''restore''],
                          rst_revised_documents := rst_revised_documents st @ [sdoc_id target]\<rparr>
                  else st\<lparr>rst_db := db\<rparr>)))"

definition restored_document :: "string \<Rightarrow> SnapshotDocument \<Rightarrow> DocumentRecord" where
  "restored_document project_id d =
     \<lparr>doc_id = sdoc_id d, doc_project_id = project_id, doc_parent_id = sdoc_parent_id d,
      doc_kind = sdoc_kind d, doc_title = sdoc_title d, doc_order_key = sdoc_order_key d,
      doc_revision = sdoc_revision d, doc_deleted_at = None\<rparr>"

definition restore_missing_document ::
  "string \<Rightarrow> SnapshotDocument \<Rightarrow> RestoreState \<Rightarrow> RestoreState StoreResult" where
  "restore_missing_document project_id d st =
     rbind (case find_by doc_id (sdoc_id d) (document_t (rst_db st)) of
              None \<Rightarrow> insert_document (restored_document project_id d) (rst_db st)
            | Some existing \<Rightarrow>
                rbind (require (doc_project_id existing = project_id)
                         (Validation ''snapshot document id belongs to another project'')) (\<lambda>_.
                map_sum id snd (update_document
                  (\<lambda>x. x\<lparr>doc_parent_id := sdoc_parent_id d, doc_kind := sdoc_kind d,
                         doc_title := sdoc_title d, doc_order_key := sdoc_order_key d,
                         doc_revision := doc_revision existing + 1, doc_deleted_at := None\<rparr>)
                  (\<lambda>x. doc_id x = sdoc_id d) (rst_db st)))) (\<lambda>db.
     Inr (st\<lparr>rst_db := db,
             rst_changes := rst_changes st @ [document_change (sdoc_id d) ''restore''],
             rst_revised_documents := rst_revised_documents st @ [sdoc_id d]\<rparr>))"

definition restored_block :: "SnapshotBlock \<Rightarrow> int \<Rightarrow> BlockRow" where
  "restored_block b revision =
     \<lparr>blk_id = sblk_id b, blk_document_id = sblk_document_id b, blk_kind = sblk_kind b,
      blk_order_key = sblk_order_key b, blk_content_json = sblk_content_json b,
      blk_plain_text = sblk_plain_text b, blk_content_hash = sblk_content_hash b,
      blk_revision = revision, blk_locked = sblk_locked b, blk_deleted_at = None\<rparr>"

definition restore_missing_block ::
  "Env \<Rightarrow> SnapshotBlock \<Rightarrow> RestoreState \<Rightarrow> RestoreState StoreResult" where
  "restore_missing_block env b st =
     rbind (case find_by blk_id (sblk_id b) (block_t (rst_db st)) of
              None \<Rightarrow> insert_block env (restored_block b (sblk_revision b)) (rst_db st)
            | Some existing \<Rightarrow>
                map_sum id snd (update_block env (\<lambda>_. restored_block b (blk_revision existing))
                  (\<lambda>x. blk_id x = sblk_id b) (rst_db st))) (\<lambda>db.
     Inr (st\<lparr>rst_db := db,
             rst_changes := rst_changes st @
               [\<lparr>rc_entity_type = ''block'', rc_entity_id = sblk_id b, rc_operation = ''restore'',
                 rc_before_hash = None, rc_after_hash = Some (sblk_content_hash b),
                 rc_edit_id = None\<rparr>],
             rst_changed_documents := rst_changed_documents st @ [sblk_document_id b]\<rparr>))"

definition restore_entry ::
  "RestoreSnapshot \<Rightarrow> string \<Rightarrow> string \<Rightarrow> EditableBlock \<Rightarrow> SnapshotBlock \<Rightarrow> EditJournalRow" where
  "restore_entry c project_id edit_id current b =
     \<lparr>ej_id = edit_id, ej_project_id = project_id, ej_block_id = sblk_id b,
      ej_base_revision = eb_revision current, ej_new_revision = eb_revision current + 1,
      ej_before_hash = eb_content_hash current, ej_after_hash = sblk_content_hash b,
      ej_before_content_json = eb_content_json current, ej_after_content_json = sblk_content_json b,
      ej_before_plain_text = eb_plain_text current, ej_after_plain_text = sblk_plain_text b,
      ej_occurred_at = rs_occurred_at c\<rparr>"

definition restore_current_block ::
  "Env \<Rightarrow> RestoreSnapshot \<Rightarrow> string \<Rightarrow> SnapshotBlock list \<Rightarrow> SnapshotBlock \<Rightarrow> RestoreState
     \<Rightarrow> RestoreState StoreResult" where
  "restore_current_block env c project_id current_blocks b st =
     (if find_by sblk_id (sblk_id b) current_blocks = None then Inr st
      else
        rbind (read_block_for_edit (sblk_id b) (rst_db st)) (\<lambda>current.
        if eb_content_hash current = sblk_content_hash b
           \<and> eb_content_json current = sblk_content_json b
           \<and> eb_plain_text current = sblk_plain_text b
        then Inr st
        else
          let edit_id = rs_edit_id_prefix c @ ''-'' @ show_nat (length (rst_changes st)) in
          rbind (rbind (update_block env
                   (\<lambda>x. x\<lparr>blk_content_json := sblk_content_json b, blk_plain_text := sblk_plain_text b,
                          blk_content_hash := sblk_content_hash b,
                          blk_revision := eb_revision current + 1\<rparr>)
                   (\<lambda>x. blk_id x = sblk_id b \<and> blk_revision x = eb_revision current
                        \<and> blk_content_hash x = eb_content_hash current \<and> blk_deleted_at x = None)
                   (rst_db st))
                   (one_row ''restore optimistic block update changed an unexpected row count'')) (\<lambda>db.
          rbind (insert_edit_journal env (restore_entry c project_id edit_id current b) db) (\<lambda>db.
          Inr (st\<lparr>rst_db := db,
                  rst_changes := rst_changes st @
                    [\<lparr>rc_entity_type = ''block'', rc_entity_id = sblk_id b, rc_operation = ''restore'',
                      rc_before_hash = Some (eb_content_hash current),
                      rc_after_hash = Some (sblk_content_hash b), rc_edit_id = Some edit_id\<rparr>],
                  rst_changed_documents := rst_changed_documents st @ [eb_document_id current]\<rparr>)))))"

definition bump_restored :: "string \<Rightarrow> Database \<Rightarrow> Database StoreResult" where
  "bump_restored document_id db =
     rbind (bump_document document_id db) (\<lambda>(updated, db).
     if updated > 1
     then Inl (InvariantViolation
            ''restore document revision update changed an unexpected row count'')
     else Inr db)"

text \<open>A scope that is still active is queued, one that is not is dropped.\<close>

definition restore_scope ::
  "RestoreSnapshot \<Rightarrow> string \<Rightarrow> string \<Rightarrow> (string \<Rightarrow> Database \<Rightarrow> bool) \<Rightarrow> string \<Rightarrow> Database
     \<Rightarrow> Database StoreResult" where
  "restore_scope c project_id scope_type active scope_id db =
     (if active scope_id db
      then enqueue_summary_invalidation project_id scope_type scope_id (rs_new_commit_id c)
             ''restore'' (rs_occurred_at c) db
      else Inr (snd (delete_invalidations (\<lambda>i. invalidation_scope i = (project_id, scope_type, scope_id))
             db)))"

definition restore_change_row :: "RestoreSnapshot \<Rightarrow> nat \<times> RestoredChange \<Rightarrow> ChangeSetRow" where
  "restore_change_row c = (\<lambda>(position, x).
     \<lparr>chg_commit_id = rs_new_commit_id c, chg_position = int position,
      chg_entity_type = rc_entity_type x, chg_entity_id = rc_entity_id x,
      chg_operation = rc_operation x, chg_before_hash = rc_before_hash x,
      chg_after_hash = rc_after_hash x, chg_edit_journal_id = rc_edit_id x\<rparr>)"

definition changed_block_ids :: "RestoredChange list \<Rightarrow> string list" where
  "changed_block_ids changes =
     map rc_entity_id (filter (\<lambda>x. rc_entity_type x = ''block'') changes)"

definition restore_commit :: "RestoreSnapshot \<Rightarrow> string \<Rightarrow> string \<Rightarrow> CommitRow" where
  "restore_commit c project_id root_hash =
     \<lparr>cn_id = rs_new_commit_id c, cn_project_id = project_id, cn_root_hash = root_hash,
      cn_reason = ''restore'', cn_actor_type = rs_actor_type c, cn_actor_id = rs_actor_id c,
      cn_created_at = rs_occurred_at c\<rparr>"

text \<open>The project's rows are brought back to the snapshot.\<close>

definition restore_rows ::
  "Env \<Rightarrow> RestoreSnapshot \<Rightarrow> string \<Rightarrow> ProjectSnapshotV1 \<Rightarrow> Database \<Rightarrow> RestoreState StoreResult" where
  "restore_rows env c project_id snapshot db =
     (let current_documents = read_active_documents project_id db;
          current_blocks = read_active_snapshot_blocks project_id db;
          documents = ps_documents snapshot; blocks = ps_blocks snapshot
      in
     rbind (all_ok (map (block_metadata_ok current_blocks) (sort_key sblk_id blocks))) (\<lambda>_.
     rbind (if document_structure_changed current_documents documents
            then foldM (stage_restore c project_id) (enumerate 0 current_documents) db
            else Inr db) (\<lambda>db.
     rbind (foldM (archive_block env c)
              (filter (\<lambda>b. sblk_id b \<notin> set (map sblk_id blocks)) current_blocks)
              \<lparr>rst_db = db, rst_changes = [], rst_changed_documents = [],
               rst_revised_documents = []\<rparr>) (\<lambda>st.
     rbind (foldM (archive_document c project_id)
              (enumerate 0 (filter (\<lambda>d. sdoc_id d \<notin> set (map sdoc_id documents)) current_documents))
              st) (\<lambda>st.
     rbind (foldM (restore_current_document project_id current_documents) documents st) (\<lambda>st.
     rbind (foldM (restore_missing_document project_id)
              (filter (\<lambda>d. sdoc_id d \<notin> set (map sdoc_id current_documents)) documents) st) (\<lambda>st.
     rbind (foldM (restore_missing_block env)
              (filter (\<lambda>b. sblk_id b \<notin> set (map sblk_id current_blocks)) blocks) st) (\<lambda>st.
     foldM (restore_current_block env c project_id current_blocks) blocks st))))))))"

text \<open>The restoration is recorded like every change: commit, invalidations, heads.\<close>

definition restore_record ::
  "RestoreSnapshot \<Rightarrow> string \<Rightarrow> string \<Rightarrow> string \<Rightarrow> RestoreState \<Rightarrow> Database StoreResult" where
  "restore_record c project_id previous_head root_hash st =
     rbind (foldM bump_restored
              (btree_iter (filter (\<lambda>d. d \<notin> set (rst_revised_documents st)) (rst_changed_documents st)))
              (rst_db st)) (\<lambda>db.
     rbind (insert_commit (restore_commit c project_id root_hash) db) (\<lambda>db.
     rbind (enqueue_summary_invalidation project_id ''project'' project_id (rs_new_commit_id c)
              ''restore'' (rs_occurred_at c) db) (\<lambda>db.
     rbind (foldM (restore_scope c project_id ''document'' (active_document project_id))
              (btree_iter (rst_changed_documents st @ rst_revised_documents st)) db) (\<lambda>db.
     rbind (foldM (restore_scope c project_id ''block'' (active_block project_id))
              (btree_iter (changed_block_ids (rst_changes st))) db) (\<lambda>db.
     rbind (insert_commit_parent
              \<lparr>par_commit_id = rs_new_commit_id c, par_parent_id = previous_head,
               par_position = 0\<rparr> db) (\<lambda>db.
     rbind (foldM insert_change_set
              (map (restore_change_row c) (enumerate 0 (rst_changes st))) db) (\<lambda>db.
     rbind (rbind (update_branch_head (rs_new_commit_id c) (rs_occurred_at c)
              (\<lambda>b. br_id b = rs_branch_id c \<and> br_head_commit_id b = previous_head) db)
              (one_row ''branch head changed while restoring a snapshot'')) (\<lambda>db.
     rbind (update_project_head (rs_new_commit_id c) (\<lambda>r. r + 1) (rs_occurred_at c)
              (\<lambda>p. pr_id p = project_id) db)
       (one_row ''project head update changed an unexpected row count during restore'')))))))))"

text \<open>The snapshot is read and decoded before the transaction starts.\<close>

definition restore_in_transaction ::
  "Env \<Rightarrow> RestoreSnapshot \<Rightarrow> ProjectSnapshotV1 \<Rightarrow> Database \<Rightarrow> (RestoreReceipt \<times> Database) StoreResult" where
  "restore_in_transaction env c snapshot db =
     rbind (ok_or (find_by br_id (rs_branch_id c) (branch_t db)) (NotFound ''branch'' (rs_branch_id c))) (\<lambda>b.
     rbind (require (br_project_id b = sp_id (ps_project snapshot))
              (Validation ''snapshot and branch belong to different projects'')) (\<lambda>_.
     rbind (restore_rows env c (br_project_id b) snapshot db) (\<lambda>st.
     rbind (require (rst_changes st \<noteq> [])
              (Validation ''snapshot already matches the current project state'')) (\<lambda>_.
     rbind (restore_record c (br_project_id b) (br_head_commit_id b)
              (sc_root_hash (ps_commit snapshot)) st) (\<lambda>db.
     Inr (\<lparr>rr_snapshot_id = rs_snapshot_id c, rr_commit_id = rs_new_commit_id c,
           rr_previous_head_commit_id = br_head_commit_id b,
           rr_restored_root_hash = sc_root_hash (ps_commit snapshot),
           rr_changed_blocks = length (changed_block_ids (rst_changes st))\<rparr>, db))))))"

definition restore_snapshot ::
  "Env \<Rightarrow> Codec \<Rightarrow> RestoreSnapshot \<Rightarrow> Database \<Rightarrow> RestoreReceipt StoreResult \<times> Database" where
  "restore_snapshot env cdc c db =
     (case rbind (validate_restore c) (\<lambda>_. rbind (get_snapshot (rs_snapshot_id c) db)
             (decode_snapshot_record cdc)) of
        Inl e \<Rightarrow> (Inl e, db)
      | Inr snapshot \<Rightarrow> run_transaction (restore_in_transaction env c snapshot) db)"

end
