(* ===== verification/Maintenance.thy ===== *)
theory Maintenance
  imports Commits
begin

text \<open>
  Full-text search and the audit of the whole store, \<open>store/maintenance.rs\<close>. \<open>open\<close> refuses
  a database that the audit rejects. The match and the rank of FTS5 and the result of
  \<open>PRAGMA quick_check\<close> come from SQLite: parameters.
\<close>

section \<open>Search\<close>

record 'k BlockSearchHit =
  bsh_block_id :: string
  bsh_document_id :: string
  bsh_plain_text :: string
  bsh_rank :: 'k

text \<open>
  \<open>fts query rows\<close> is an error, or the rank of every row that matches the query in the
  index \<open>rows\<close>.
\<close>

definition search_blocks ::
  "(string \<Rightarrow> FtsRow list \<Rightarrow> SqliteError + (FtsRow \<Rightarrow> ('k :: linorder) option))
     \<Rightarrow> string \<Rightarrow> string \<Rightarrow> nat \<Rightarrow> Database \<Rightarrow> 'k BlockSearchHit list StoreResult" where
  "search_blocks fts project_id query limit db =
     rbind (require (\<not> (blank query \<or> limit = 0 \<or> limit > 1000))
              (Validation ''search query must be non-empty and limit must be 1..=1000'')) (\<lambda>_.
     rbind (map_sum Sqlite id (fts query (block_fts_t db))) (\<lambda>rank.
     Inr (take limit (sort_key (\<lambda>h. (bsh_rank h, bsh_block_id h))
       (List.map_filter (\<lambda>f.
          if active_document project_id (fts_document_id f) db
          then map_option (\<lambda>k. \<lparr>bsh_block_id = fts_block_id f, bsh_document_id = fts_document_id f,
                                bsh_plain_text = fts_plain_text f, bsh_rank = k\<rparr>) (rank f)
          else None) (block_fts_t db))))))"

section \<open>The audit\<close>

text \<open>
  \<open>PRAGMA foreign_key_check\<close>: every \<open>REFERENCES\<close> clause of the schema with the values of
  its column and the keys it refers to.
\<close>

definition foreign_keys :: "Database \<Rightarrow> (string option list \<times> string list) list" where
  "foreign_keys db =
     (let projects = map pr_id (project_t db); commits = map cn_id (commit_node_t db);
          runs = map ror_id (run_t db); heads = map rh_proposal_id (review_head_t db)
      in [(map (Some \<circ> doc_project_id) (document_t db), projects),
          (map (Some \<circ> cn_project_id) (commit_node_t db), projects),
          (map (Some \<circ> br_project_id) (branch_t db), projects),
          (map (Some \<circ> ej_project_id) (edit_journal_t db), projects),
          (map (Some \<circ> snr_project_id) (snapshot_t db), projects),
          (map (Some \<circ> cp_project_id) (packet_t db), projects),
          (map (Some \<circ> ror_project_id) (run_t db), projects),
          (map (Some \<circ> sty_project_id) (style_t db), projects),
          (map (Some \<circ> sum_project_id) (summary_t db), projects),
          (map (Some \<circ> inv_project_id) (invalidation_t db), projects),
          (map (Some \<circ> kn_project_id) (knowledge_t db), projects),
          (map (Some \<circ> par_commit_id) (commit_parent_t db), commits),
          (map (Some \<circ> par_parent_id) (commit_parent_t db), commits),
          (map (Some \<circ> br_head_commit_id) (branch_t db), commits),
          (map (Some \<circ> chg_commit_id) (change_set_t db), commits),
          (map (Some \<circ> snr_commit_id) (snapshot_t db), commits),
          (map (Some \<circ> cp_base_commit_id) (packet_t db), commits),
          (map (Some \<circ> ror_base_commit_id) (run_t db), commits),
          (map (Some \<circ> sum_source_commit_id) (summary_t db), commits),
          (map (Some \<circ> inv_source_commit_id) (invalidation_t db), commits),
          (map (Some \<circ> cb_commit_id) (candidate_t db), commits),
          (map doc_parent_id (document_t db), map doc_id (document_t db)),
          (map (Some \<circ> blk_document_id) (block_t db), map doc_id (document_t db)),
          (map (Some \<circ> ej_block_id) (edit_journal_t db), map blk_id (block_t db)),
          (map chg_edit_journal_id (change_set_t db), map ej_id (edit_journal_t db)),
          (map (Some \<circ> cb_branch_id) (candidate_t db), map br_id (branch_t db)),
          (map (Some \<circ> cb_snapshot_id) (candidate_t db), map snr_id (snapshot_t db)),
          (map ror_context_packet_id (run_t db), map cp_id (packet_t db)),
          (map (Some \<circ> lr_run_id) (lifecycle_t db), runs),
          (map (Some \<circ> ar_run_id) (artifact_t db), runs),
          (map (Some \<circ> rh_proposal_id) (review_head_t db), map ar_id (artifact_t db)),
          (map (Some \<circ> rh_run_id) (review_head_t db), runs),
          (map (Some \<circ> re_proposal_id) (review_event_t db), heads),
          (map (Some \<circ> cb_proposal_id) (candidate_t db), heads),
          (map (Some \<circ> oa_run_id) (attempt_t db), runs)])"

definition foreign_key_check :: "Database \<Rightarrow> bool" where
  "foreign_key_check db \<longleftrightarrow>
     list_all (\<lambda>(refs, keys). list_all (opt_all (\<lambda>r. r \<in> set keys)) refs) (foreign_keys db)"

definition broken_branch_head :: "Database \<Rightarrow> BranchRecord \<Rightarrow> bool" where
  "broken_branch_head db b \<longleftrightarrow>
     (case find_by cn_id (br_head_commit_id b) (commit_node_t db) of
        None \<Rightarrow> True | Some c \<Rightarrow> cn_project_id c \<noteq> br_project_id b)"

text \<open>The joins of the query go through keys: a row without partner does not count.\<close>

definition broken_candidate :: "Database \<Rightarrow> CandidateRow \<Rightarrow> bool" where
  "broken_candidate db cb \<longleftrightarrow>
     (case Option.bind (find_by rh_proposal_id (cb_proposal_id cb) (review_head_t db)) (\<lambda>h.
           Option.bind (find_by ror_id (rh_run_id h) (run_t db)) (\<lambda>r.
           Option.bind (find_by br_id (cb_branch_id cb) (branch_t db)) (\<lambda>b.
           Option.bind (find_by cn_id (cb_commit_id cb) (commit_node_t db)) (\<lambda>c.
           map_option (\<lambda>s. (r, b, c, s)) (find_by snr_id (cb_snapshot_id cb) (snapshot_t db)))))) of
        None \<Rightarrow> False
      | Some (r, b, c, s) \<Rightarrow>
          br_project_id b \<noteq> ror_project_id r \<or> cn_project_id c \<noteq> ror_project_id r
          \<or> snr_project_id s \<noteq> ror_project_id r \<or> br_head_commit_id b \<noteq> cb_commit_id cb
          \<or> snr_commit_id s \<noteq> cb_commit_id cb \<or> snr_root_hash s \<noteq> cn_root_hash c)"

definition broken_project_head :: "Database \<Rightarrow> ProjectRow \<Rightarrow> bool" where
  "broken_project_head db p \<longleftrightarrow>
     (case pr_head_commit_id p of None \<Rightarrow> False
      | Some head \<Rightarrow> (case find_by cn_id head (commit_node_t db) of
                        None \<Rightarrow> True | Some c \<Rightarrow> cn_project_id c \<noteq> pr_id p))"

definition latest_revision :: "Database \<Rightarrow> string \<Rightarrow> int" where
  "latest_revision db block_id = coalesce (sql_max (map ej_new_revision
     (filter (\<lambda>e. ej_block_id e = block_id) (edit_journal_t db)))) 0"

definition stale_invalidation :: "Database \<Rightarrow> SummaryInvalidationRecord \<Rightarrow> bool" where
  "stale_invalidation db i \<longleftrightarrow>
     exists_row (\<lambda>p. pr_id p = inv_project_id i) (project_t db)
     \<and> (case find_by cn_id (inv_source_commit_id i) (commit_node_t db) of
          None \<Rightarrow> False
        | Some c \<Rightarrow>
            cn_project_id c \<noteq> inv_project_id i
            \<or> inv_scope_type i = ''project'' \<and> inv_scope_id i \<noteq> inv_project_id i
            \<or> inv_scope_type i = ''document''
                \<and> \<not> active_document (inv_project_id i) (inv_scope_id i) db
            \<or> inv_scope_type i = ''block'' \<and> \<not> active_block (inv_project_id i) (inv_scope_id i) db)"

definition audit_count :: "nat \<Rightarrow> string \<Rightarrow> unit StoreResult" where
  "audit_count n message = require (n = 0) (InvariantViolation (show_nat n @ message))"

definition verify_invariants :: "string \<Rightarrow> Database \<Rightarrow> unit StoreResult" where
  "verify_invariants quick_check db = all_ok
     [require (quick_check = ''ok'') (InvariantViolation (''quick_check returned '' @ quick_check)),
      require (foreign_key_check db) (InvariantViolation ''foreign_key_check found violations''),
      audit_count (rows_where (broken_branch_head db) (branch_t db)) '' branch heads are invalid'',
      audit_count (rows_where (broken_candidate db) (candidate_t db))
        '' candidate branches are invalid'',
      audit_count (rows_where (broken_project_head db) (project_t db)) '' project heads are invalid'',
      audit_count (rows_where (\<lambda>b. blk_revision b \<noteq> latest_revision db (blk_id b)) (block_t db))
        '' block revisions do not match the edit journal'',
      (let active = rows_where (\<lambda>b. blk_deleted_at b = None) (block_t db);
           indexed = length (block_fts_t db)
       in require (active = indexed)
            (InvariantViolation (''FTS index count '' @ show_nat indexed
               @ '' does not match active block count '' @ show_nat active))),
      audit_count (rows_where (stale_invalidation db) (invalidation_t db))
        '' summary invalidations are stale or invalid'',
      verify_operation_invariants db]"

end
