(* ===== verification/ReviewCandidates.thy ===== *)
theory ReviewCandidates
  imports Operations
begin

text \<open>
  The list of review candidates of \<open>operation.rs\<close>: one row per review head, joined with its
  run, its artifact and, where there is one, its candidate branch.
\<close>

text \<open>\<open>RawReviewCandidateSummary\<close>, the columns of the query in order.\<close>

record RawReviewCandidateSummary =
  raw_head :: ReviewHeadRow
  raw_run :: RawOperationRun
  raw_document_id :: string
  raw_block_id :: string
  raw_hunk_count :: int
  raw_summary :: "string option"
  raw_created_at :: string
  raw_branch_id :: "string option"
  raw_branch_name :: "string option"
  raw_commit_id :: "string option"
  raw_snapshot_id :: "string option"
  raw_branch_created_at :: "string option"

definition candidate_join :: "Database \<Rightarrow> (ReviewHeadRow \<times> RawOperationRun \<times> ArtifactRow) list" where
  "candidate_join db = List.map_filter (\<lambda>h.
     Option.bind (find_by ror_id (rh_run_id h) (run_t db)) (\<lambda>r.
     map_option (\<lambda>a. (h, r, a))
       (List.find (\<lambda>a. ar_id a = rh_proposal_id h \<and> ar_run_id a = rh_run_id h) (artifact_t db))))
     (review_head_t db)"

text \<open>
  A row is computed before its columns are read: a failing \<open>json_array_length\<close> is the first
  error, then the columns in order.
\<close>

definition read_review_candidate_summary ::
  "Env \<Rightarrow> Database \<Rightarrow> ReviewHeadRow \<times> RawOperationRun \<times> ArtifactRow
     \<Rightarrow> RawReviewCandidateSummary StoreResult" where
  "read_review_candidate_summary env db = (\<lambda>(h, r, a).
     let extract = sqlite_json_extract env (ar_payload_json a);
         cb = find_by cb_proposal_id (rh_proposal_id h) (candidate_t db);
         b = Option.bind cb (\<lambda>x. find_by br_id (cb_branch_id x) (branch_t db))
     in
     rbind (map_sum Sqlite id (sqlite_json_array_length env (extract ''$.hunks''))) (\<lambda>hunks.
     rbind (get_text ''documentId'' (extract ''$.target.documentId'')) (\<lambda>document_id.
     rbind (get_text ''blockId'' (extract ''$.target.blockId'')) (\<lambda>block_id.
     rbind (get_i64 ''hunks'' hunks) (\<lambda>hunk_count.
     rbind (get_opt_text ''summary'' (extract ''$.summary'')) (\<lambda>summary.
     Inr \<lparr>raw_head = h, raw_run = r, raw_document_id = document_id, raw_block_id = block_id,
          raw_hunk_count = hunk_count, raw_summary = summary, raw_created_at = ar_created_at a,
          raw_branch_id = map_option cb_branch_id cb, raw_branch_name = map_option br_name b,
          raw_commit_id = map_option cb_commit_id cb, raw_snapshot_id = map_option cb_snapshot_id cb,
          raw_branch_created_at = map_option cb_created_at cb\<rparr>))))))"

text \<open>The branch columns are all there or all missing.\<close>

definition candidate_branch_record ::
  "RawReviewCandidateSummary \<Rightarrow> ReviewCandidateBranchRecord option StoreResult" where
  "candidate_branch_record raw =
     (case (raw_branch_id raw, raw_branch_name raw, raw_commit_id raw, raw_snapshot_id raw,
            raw_branch_created_at raw) of
        (None, None, None, None, None) \<Rightarrow> Inr None
      | (Some branch_id, Some branch_name, Some commit_id, Some snapshot_id, Some created_at) \<Rightarrow>
          Inr (Some \<lparr>rcb_proposal_id = rh_proposal_id (raw_head raw), rcb_branch_id = branch_id,
                     rcb_branch_name = branch_name, rcb_commit_id = commit_id,
                     rcb_snapshot_id = snapshot_id, rcb_created_at = created_at\<rparr>)
      | _ \<Rightarrow> Inl (InvariantViolation ''review candidate branch join is partially populated''))"

definition parse_review_candidate_summary ::
  "RawReviewCandidateSummary \<Rightarrow> ReviewCandidateSummaryRecord StoreResult" where
  "parse_review_candidate_summary raw =
     rbind (candidate_branch_record raw) (\<lambda>candidate_branch.
     rbind (require (\<not> raw_hunk_count raw < 1)
              (InvariantViolation ''review candidate has no proposal hunks'')) (\<lambda>_.
     rbind (parse_review_status (rh_status (raw_head raw))) (\<lambda>status.
     Inr \<lparr>rcs_proposal_id = rh_proposal_id (raw_head raw), rcs_run_id = rh_run_id (raw_head raw),
          rcs_project_id = ror_project_id (raw_run raw),
          rcs_operation_intent_id = ror_operation_intent_id (raw_run raw),
          rcs_provider_id = ror_provider_id (raw_run raw), rcs_model = ror_model (raw_run raw),
          rcs_base_commit_id = ror_base_commit_id (raw_run raw),
          rcs_target_document_id = raw_document_id raw, rcs_target_block_id = raw_block_id raw,
          rcs_hunk_count = raw_hunk_count raw, rcs_summary = raw_summary raw,
          rcs_revision = rh_revision (raw_head raw), rcs_status = status,
          rcs_created_at = raw_created_at raw, rcs_updated_at = rh_updated_at (raw_head raw),
          rcs_candidate_branch = candidate_branch\<rparr>)))"

definition open_rank :: "string \<Rightarrow> int" where
  "open_rank status = (if status \<in> set [''review'', ''ready'', ''conflicted''] then 0 else 1)"

definition list_review_candidates ::
  "Env \<Rightarrow> string \<Rightarrow> nat \<Rightarrow> Database \<Rightarrow> ReviewCandidateSummaryRecord list StoreResult" where
  "list_review_candidates env project_id limit db =
     rbind (require (\<not> (blank project_id \<or> limit = 0 \<or> limit > 200))
              (Validation ''project id and review candidate limit 1..=200 are required'')) (\<lambda>_.
     rbind (mapM (read_review_candidate_summary env db)
       (take limit (sort_key (\<lambda>(h, r, a). (open_rank (rh_status h), Desc (rh_updated_at h),
                                          Desc (rh_proposal_id h)))
         (filter (\<lambda>(h, r, a). ror_project_id r = project_id) (candidate_join db))))) (\<lambda>rows.
     mapM parse_review_candidate_summary rows))"

definition get_review_candidate_summary ::
  "Env \<Rightarrow> string \<Rightarrow> Database \<Rightarrow> ReviewCandidateSummaryRecord StoreResult" where
  "get_review_candidate_summary env proposal_id db =
     rbind (ok_or (List.find (\<lambda>(h, r, a). rh_proposal_id h = proposal_id) (candidate_join db))
              (NotFound ''review_candidate'' proposal_id)) (\<lambda>row.
     rbind (read_review_candidate_summary env db row) parse_review_candidate_summary)"

end
