(* ===== verification/Migration.thy ===== *)
theory Migration
  imports Schema
begin

text \<open>
  Opening a database: the check of the SQLite version (\<open>store.rs\<close>) and the migration driver
  \<open>migrate\<close> of \<open>migration.rs\<close>. The driver runs SQL scripts in one transaction and never
  looks at what they do; executing a script, counting foreign-key violations and writing
  the \<open>foreign_keys\<close> switch are SQLite: parameters. The tables that the scripts leave behind
  are the ones of \<open>Schema\<close>.
\<close>

section \<open>The SQLite version\<close>

text \<open>\<open>str::parse::<u64>\<close>: an optional plus sign and at least one decimal digit, within range.\<close>

definition digit :: "char \<Rightarrow> bool" where
  "digit c \<longleftrightarrow> 48 \<le> (of_char c :: nat) \<and> (of_char c :: nat) \<le> 57"

definition parse_u64 :: "string \<Rightarrow> nat option" where
  "parse_u64 s =
     (let ds = (case s of c # cs \<Rightarrow> if c = CHR ''+'' then cs else s | [] \<Rightarrow> []);
          n = foldl (\<lambda>n c. 10 * n + (of_char c - 48)) 0 ds
      in if ds \<noteq> [] \<and> list_all digit ds \<and> n < 2 ^ 64 then Some n else None)"

text \<open>\<open>value.split('.')\<close>.\<close>

function split_dots :: "string \<Rightarrow> string list" where
  "split_dots s =
     takeWhile (\<lambda>c. c \<noteq> CHR ''.'') s #
       (case dropWhile (\<lambda>c. c \<noteq> CHR ''.'') s of [] \<Rightarrow> [] | _ # rest \<Rightarrow> split_dots rest)"
  by pat_completeness auto

termination
proof (relation "measure length")
  fix s :: string and c rest
  assume "dropWhile (\<lambda>c. c \<noteq> CHR ''.'') s = c # rest"
  then have "length (c # rest) \<le> length s" by (metis length_dropWhile_le)
  then show "(rest, s) \<in> measure length" by simp
qed simp

declare split_dots.simps [simp del]

text \<open>\<open>next()?.ok()?\<close> on the first three parts.\<close>

fun parse_version :: "string \<Rightarrow> (nat \<times> nat \<times> nat) option" where
  "parse_version s =
     (case map parse_u64 (take 3 (split_dots s)) of
        [Some a, Some b, Some c] \<Rightarrow> Some (a, b, c)
      | _ \<Rightarrow> None)"

definition MINIMUM_SQLITE_VERSION :: string where
  "MINIMUM_SQLITE_VERSION = ''3.51.3''"

definition ensure_safe_sqlite_version :: "string \<Rightarrow> unit StoreResult" where
  "ensure_safe_sqlite_version sqlite_version =
     rbind (ok_or (parse_version sqlite_version) (UnsafeSqliteVersion sqlite_version MINIMUM_SQLITE_VERSION)) (\<lambda>parsed.
     require (\<not> parsed < (3, 51, 3)) (UnsafeSqliteVersion sqlite_version MINIMUM_SQLITE_VERSION))"

section \<open>The migration driver\<close>

record 'c Connection =
  cx_contents :: 'c
  cx_user_version :: int
  cx_schema_migration :: "int list"
  cx_foreign_keys :: bool

text \<open>
  \<open>script n\<close> executes \<open>MIGRATION_n\<close>, \<open>violations\<close> is \<open>COUNT(*) FROM pragma_foreign_key_check\<close>
  and \<open>write_switch\<close> is \<open>pragma_update\<close> of \<open>foreign_keys\<close>, which may fail.
\<close>

record 'c Sql =
  script :: "int \<Rightarrow> 'c \<Rightarrow> SqliteError + 'c"
  violations :: "'c \<Rightarrow> nat"
  write_switch :: "bool \<Rightarrow> SqliteError + unit"

text \<open>The versions after whose script the foreign keys are checked.\<close>

definition checked_versions :: "int list" where
  "checked_versions = [4, 5, 6, 7, 8, 9]"

definition migration_step :: "'c Sql \<Rightarrow> int \<Rightarrow> int \<Rightarrow> 'c Connection \<Rightarrow> 'c Connection StoreResult" where
  "migration_step sql current version cx =
     (if current < version then
        rbind (map_sum Sqlite id (script sql version (cx_contents cx))) (\<lambda>contents.
        rbind (require (version \<notin> set checked_versions \<or> violations sql contents = 0)
                 (Validation (''schema migration produced '' @ show_nat (violations sql contents)
                    @ '' foreign-key violation(s)''))) (\<lambda>_.
        rbind (require (version \<notin> set (cx_schema_migration cx))
                 (Sqlite (ConstraintPrimaryKey ''schema_migration.version''))) (\<lambda>_.
        Inr (cx\<lparr>cx_contents := contents, cx_user_version := version,
                cx_schema_migration := cx_schema_migration cx @ [version]\<rparr>))))
      else Inr cx)"

definition migration_versions :: "int list" where
  "migration_versions = [1..11]"

text \<open>
  The switch is turned off before and on after, whatever the transaction did; the
  transaction's own error comes first.
\<close>

definition migrate :: "'c Sql \<Rightarrow> 'c Connection \<Rightarrow> unit StoreResult \<times> 'c Connection" where
  "migrate sql cx =
     (let current = cx_user_version cx in
      if current > 11
      then (Inl (Validation (''database schema '' @ show_int current @ '' is newer than supported 11'')), cx)
      else if current = 11 then (Inr (), cx)
      else
        let enabled = cx_foreign_keys cx in
        case (if enabled then write_switch sql False else Inr ()) of
          Inl e \<Rightarrow> (Inl (Sqlite e), cx)
        | Inr _ \<Rightarrow>
            let off = cx\<lparr>cx_foreign_keys := False\<rparr>;
                (migration_result, cx) =
                  (case foldM (migration_step sql current) migration_versions off of
                     Inl e \<Rightarrow> (Inl e, off) | Inr migrated \<Rightarrow> (Inr (), migrated));
                (restore_result, cx) =
                  (if enabled
                   then (case write_switch sql True of
                           Inl e \<Rightarrow> (Inl (Sqlite e), cx)
                         | Inr _ \<Rightarrow> (Inr (), cx\<lparr>cx_foreign_keys := True\<rparr>))
                   else (Inr (), cx))
            in (rbind migration_result (\<lambda>_. restore_result), cx))"

end
