(* ===== verification/StoreInvariant.thy ===== *)
theory StoreInvariant
  imports Maintenance OperationInvariants
begin

text \<open>
  The invariant of the whole store: unique keys, resolved references, a full-text index that
  agrees with the blocks, block revisions that agree with the journal, heads and candidate
  branches within their project, and invalidations of active scopes. The audit accepts
  every database that satisfies it, and every statement of the model keeps it under the
  conditions that the operations establish.
\<close>

section \<open>The parts of the invariant\<close>

definition keys_ok :: "Database \<Rightarrow> bool" where
  "keys_ok db \<longleftrightarrow>
     distinct (map pr_id (project_t db)) \<and> distinct (map doc_id (document_t db))
     \<and> distinct (map blk_id (block_t db)) \<and> distinct (map cn_id (commit_node_t db))
     \<and> distinct (map br_id (branch_t db)) \<and> distinct (map snr_id (snapshot_t db))
     \<and> distinct (map invalidation_scope (invalidation_t db))"

definition project_refs :: "Database \<Rightarrow> bool" where
  "project_refs db \<longleftrightarrow>
     doc_project_id ` set (document_t db) \<subseteq> pr_id ` set (project_t db)
     \<and> cn_project_id ` set (commit_node_t db) \<subseteq> pr_id ` set (project_t db)
     \<and> br_project_id ` set (branch_t db) \<subseteq> pr_id ` set (project_t db)
     \<and> ej_project_id ` set (edit_journal_t db) \<subseteq> pr_id ` set (project_t db)
     \<and> snr_project_id ` set (snapshot_t db) \<subseteq> pr_id ` set (project_t db)
     \<and> cp_project_id ` set (packet_t db) \<subseteq> pr_id ` set (project_t db)
     \<and> ror_project_id ` set (run_t db) \<subseteq> pr_id ` set (project_t db)
     \<and> sty_project_id ` set (style_t db) \<subseteq> pr_id ` set (project_t db)
     \<and> sum_project_id ` set (summary_t db) \<subseteq> pr_id ` set (project_t db)
     \<and> inv_project_id ` set (invalidation_t db) \<subseteq> pr_id ` set (project_t db)
     \<and> kn_project_id ` set (knowledge_t db) \<subseteq> pr_id ` set (project_t db)"

definition commit_refs :: "Database \<Rightarrow> bool" where
  "commit_refs db \<longleftrightarrow>
     par_commit_id ` set (commit_parent_t db) \<subseteq> cn_id ` set (commit_node_t db)
     \<and> par_parent_id ` set (commit_parent_t db) \<subseteq> cn_id ` set (commit_node_t db)
     \<and> br_head_commit_id ` set (branch_t db) \<subseteq> cn_id ` set (commit_node_t db)
     \<and> chg_commit_id ` set (change_set_t db) \<subseteq> cn_id ` set (commit_node_t db)
     \<and> snr_commit_id ` set (snapshot_t db) \<subseteq> cn_id ` set (commit_node_t db)
     \<and> cp_base_commit_id ` set (packet_t db) \<subseteq> cn_id ` set (commit_node_t db)
     \<and> ror_base_commit_id ` set (run_t db) \<subseteq> cn_id ` set (commit_node_t db)
     \<and> sum_source_commit_id ` set (summary_t db) \<subseteq> cn_id ` set (commit_node_t db)
     \<and> inv_source_commit_id ` set (invalidation_t db) \<subseteq> cn_id ` set (commit_node_t db)
     \<and> cb_commit_id ` set (candidate_t db) \<subseteq> cn_id ` set (commit_node_t db)"

definition row_refs :: "Database \<Rightarrow> bool" where
  "row_refs db \<longleftrightarrow>
     Option.these (doc_parent_id ` set (document_t db)) \<subseteq> doc_id ` set (document_t db)
     \<and> blk_document_id ` set (block_t db) \<subseteq> doc_id ` set (document_t db)
     \<and> ej_block_id ` set (edit_journal_t db) \<subseteq> blk_id ` set (block_t db)
     \<and> Option.these (chg_edit_journal_id ` set (change_set_t db)) \<subseteq> ej_id ` set (edit_journal_t db)
     \<and> cb_branch_id ` set (candidate_t db) \<subseteq> br_id ` set (branch_t db)
     \<and> cb_snapshot_id ` set (candidate_t db) \<subseteq> snr_id ` set (snapshot_t db)"

definition run_refs :: "Database \<Rightarrow> bool" where
  "run_refs db \<longleftrightarrow>
     Option.these (ror_context_packet_id ` set (run_t db)) \<subseteq> cp_id ` set (packet_t db)
     \<and> lr_run_id ` set (lifecycle_t db) \<subseteq> ror_id ` set (run_t db)
     \<and> ar_run_id ` set (artifact_t db) \<subseteq> ror_id ` set (run_t db)
     \<and> rh_proposal_id ` set (review_head_t db) \<subseteq> ar_id ` set (artifact_t db)
     \<and> rh_run_id ` set (review_head_t db) \<subseteq> ror_id ` set (run_t db)
     \<and> re_proposal_id ` set (review_event_t db) \<subseteq> rh_proposal_id ` set (review_head_t db)
     \<and> cb_proposal_id ` set (candidate_t db) \<subseteq> rh_proposal_id ` set (review_head_t db)
     \<and> oa_run_id ` set (attempt_t db) \<subseteq> ror_id ` set (run_t db)"

definition refs_ok :: "Database \<Rightarrow> bool" where
  "refs_ok db \<longleftrightarrow> project_refs db \<and> commit_refs db \<and> row_refs db \<and> run_refs db"

text \<open>The index holds one row for every block that is not deleted.\<close>

definition fts_ok :: "Database \<Rightarrow> bool" where
  "fts_ok db \<longleftrightarrow> mset (block_fts_t db) = mset (concat (map fts_rows (block_t db)))"

definition revisions_ok :: "Database \<Rightarrow> bool" where
  "revisions_ok db \<longleftrightarrow> (\<forall>b \<in> set (block_t db). blk_revision b = latest_revision db (blk_id b))"

definition heads_ok :: "Database \<Rightarrow> bool" where
  "heads_ok db \<longleftrightarrow>
     (\<forall>b \<in> set (branch_t db). commit_ok db (br_head_commit_id b) (br_project_id b))
     \<and> (\<forall>p \<in> set (project_t db). opt_all (\<lambda>c. commit_ok db c (pr_id p)) (pr_head_commit_id p))"

text \<open>
  A candidate branch stays on the commit and the snapshot it was created with, in the
  project of the run that proposed it.
\<close>

definition candidate_ok :: "Database \<Rightarrow> CandidateRow \<Rightarrow> bool" where
  "candidate_ok db cb \<longleftrightarrow>
     (\<exists>project_id.
        (\<forall>h \<in> set (review_head_t db). rh_proposal_id h = cb_proposal_id cb \<longrightarrow>
           (\<forall>r \<in> set (run_t db). ror_id r = rh_run_id h \<longrightarrow> ror_project_id r = project_id))
        \<and> (\<exists>b \<in> set (branch_t db). br_id b = cb_branch_id cb \<and> br_project_id b = project_id
             \<and> br_head_commit_id b = cb_commit_id cb)
        \<and> (\<exists>c \<in> set (commit_node_t db). \<exists>s \<in> set (snapshot_t db).
             cn_id c = cb_commit_id cb \<and> cn_project_id c = project_id
             \<and> snr_id s = cb_snapshot_id cb \<and> snr_project_id s = project_id
             \<and> snr_commit_id s = cb_commit_id cb \<and> snr_root_hash s = cn_root_hash c))"

text \<open>The head of a project is never the commit of a candidate.\<close>

definition mainline_ok :: "Database \<Rightarrow> bool" where
  "mainline_ok db \<longleftrightarrow>
     (\<forall>cb \<in> set (candidate_t db). \<forall>p \<in> set (project_t db). pr_head_commit_id p \<noteq> Some (cb_commit_id cb))"

text \<open>
  The scope of an invalidation is active, but for the scopes in \<open>X\<close>, whose invalidations an
  operation still has to drop.
\<close>

fun scope_active :: "Database \<Rightarrow> scope \<Rightarrow> bool" where
  "scope_active db (project_id, scope_type, scope_id) \<longleftrightarrow>
     (scope_type = ''project'' \<longrightarrow> scope_id = project_id)
     \<and> (scope_type = ''document'' \<longrightarrow> active_document project_id scope_id db)
     \<and> (scope_type = ''block'' \<longrightarrow> active_block project_id scope_id db)"

declare scope_active.simps [simp del]

definition scopes_ok :: "scope set \<Rightarrow> Database \<Rightarrow> bool" where
  "scopes_ok X db \<longleftrightarrow>
     (\<forall>i \<in> set (invalidation_t db). commit_ok db (inv_source_commit_id i) (inv_project_id i)
        \<and> (scope_active db (invalidation_scope i) \<or> invalidation_scope i \<in> X))"

definition project_ok :: "scope set \<Rightarrow> Database \<Rightarrow> bool" where
  "project_ok X db \<longleftrightarrow>
     keys_ok db \<and> refs_ok db \<and> fts_ok db \<and> heads_ok db
     \<and> (\<forall>cb \<in> set (candidate_t db). candidate_ok db cb) \<and> mainline_ok db \<and> scopes_ok X db"

definition store_ok :: "Database \<Rightarrow> bool" where
  "store_ok db \<longleftrightarrow> project_ok {} db \<and> revisions_ok db \<and> op_ok db"

section \<open>The audit accepts the invariant\<close>

lemma list_all_refs:
  "list_all (opt_all (\<lambda>r. r \<in> K)) (map (Some \<circ> f) xs) \<longleftrightarrow> f ` set xs \<subseteq> K"
  "list_all (opt_all (\<lambda>r. r \<in> K)) (map g xs) \<longleftrightarrow> Option.these (g ` set xs) \<subseteq> K"
proof -
  show "list_all (opt_all (\<lambda>r. r \<in> K)) (map (Some \<circ> f) xs) \<longleftrightarrow> f ` set xs \<subseteq> K"
    by (auto simp: list_all_iff)
  have "opt_all P x \<longleftrightarrow> (\<forall>y. x = Some y \<longrightarrow> P y)" for P and x :: "'a option"
    by (cases x) auto
  moreover have "Option.these A \<subseteq> B \<longleftrightarrow> (\<forall>x \<in> A. \<forall>y. x = Some y \<longrightarrow> y \<in> B)" for A and B :: "'a set"
    by (auto simp: in_these_eq)
  ultimately show "list_all (opt_all (\<lambda>r. r \<in> K)) (map g xs) \<longleftrightarrow> Option.these (g ` set xs) \<subseteq> K"
    by (simp add: list_all_iff)
qed

lemma foreign_key_check_iff: "foreign_key_check db \<longleftrightarrow> refs_ok db"
  unfolding foreign_key_check_def foreign_keys_def Let_def refs_ok_def project_refs_def
    commit_refs_def row_refs_def run_refs_def
  by (simp only: list.pred_inject split list_all_refs(1), simp only: list_all_refs(2) set_map simp_thms conj_assoc)

lemma commit_ok_find:
  assumes "keys_ok db"
  shows "commit_ok db c p \<longleftrightarrow> (\<exists>x. find_by cn_id c (commit_node_t db) = Some x \<and> cn_project_id x = p)"
  using assms by (auto simp: commit_ok_def keys_ok_def find_by_Some_iff)

lemma heads_not_broken:
  assumes "keys_ok db" and "heads_ok db"
  shows "rows_where (broken_branch_head db) (branch_t db) = 0"
    and "rows_where (broken_project_head db) (project_t db) = 0"
proof -
  show "rows_where (broken_branch_head db) (branch_t db) = 0"
    using assms(2) commit_ok_find [OF assms(1)]
    by (fastforce simp: heads_ok_def broken_branch_head_def)
  have "\<not> broken_project_head db p" if p: "p \<in> set (project_t db)" for p
  proof (cases "pr_head_commit_id p")
    case (Some c)
    with assms(2) p have "commit_ok db c (pr_id p)" by (force simp: heads_ok_def)
    with Some show ?thesis
      using commit_ok_find [OF assms(1)] by (auto simp: broken_project_head_def)
  qed (simp add: broken_project_head_def)
  then show "rows_where (broken_project_head db) (project_t db) = 0" by simp
qed

lemma candidate_not_broken:
  assumes "keys_ok db" and "candidate_ok db cb"
  shows "\<not> broken_candidate db cb"
proof (cases "find_by rh_proposal_id (cb_proposal_id cb) (review_head_t db)")
  case (Some h)
  then have h: "h \<in> set (review_head_t db)" "rh_proposal_id h = cb_proposal_id cb"
    by (auto dest: find_by_SomeD)
  show ?thesis
  proof (cases "find_by ror_id (rh_run_id h) (run_t db)")
    case (Some r)
    then have r: "r \<in> set (run_t db)" "ror_id r = rh_run_id h" by (auto dest: find_by_SomeD)
    from assms(2) h r obtain b c s where bcs:
      "b \<in> set (branch_t db)" "br_id b = cb_branch_id cb" "br_project_id b = ror_project_id r"
      "br_head_commit_id b = cb_commit_id cb"
      "c \<in> set (commit_node_t db)" "cn_id c = cb_commit_id cb" "cn_project_id c = ror_project_id r"
      "s \<in> set (snapshot_t db)" "snr_id s = cb_snapshot_id cb" "snr_project_id s = ror_project_id r"
      "snr_commit_id s = cb_commit_id cb" "snr_root_hash s = cn_root_hash c"
      unfolding candidate_ok_def by metis
    have "find_by br_id (cb_branch_id cb) (branch_t db) = Some b"
      "find_by cn_id (cb_commit_id cb) (commit_node_t db) = Some c"
      "find_by snr_id (cb_snapshot_id cb) (snapshot_t db) = Some s"
      using assms(1) bcs by (simp_all add: keys_ok_def find_by_Some_iff)
    with bcs \<open>find_by rh_proposal_id _ _ = Some h\<close> Some show ?thesis
      by (simp add: broken_candidate_def)
  qed (use Some in \<open>simp add: broken_candidate_def\<close>)
qed (simp add: broken_candidate_def)

lemma scopes_not_stale:
  assumes "keys_ok db" and "scopes_ok {} db" and "i \<in> set (invalidation_t db)"
  shows "\<not> stale_invalidation db i"
proof -
  from assms(2,3) have i: "commit_ok db (inv_source_commit_id i) (inv_project_id i)"
    "scope_active db (inv_project_id i, inv_scope_type i, inv_scope_id i)"
    by (auto simp: scopes_ok_def invalidation_scope_def)
  from i(1) obtain c where "find_by cn_id (inv_source_commit_id i) (commit_node_t db) = Some c"
    "cn_project_id c = inv_project_id i"
    using commit_ok_find [OF assms(1)] by blast
  with i(2) show ?thesis by (auto simp: stale_invalidation_def scope_active.simps)
qed

lemma fts_count:
  assumes "fts_ok db"
  shows "length (block_fts_t db) = rows_where (\<lambda>b. blk_deleted_at b = None) (block_t db)"
proof -
  have "length (block_fts_t db) = length (concat (map fts_rows (block_t db)))"
    using assms by (metis fts_ok_def size_mset)
  also have "length (concat (map fts_rows bs)) = rows_where (\<lambda>b. blk_deleted_at b = None) bs" for bs
    by (induction bs) (simp_all add: rows_where_def fts_rows_def)
  finally show ?thesis .
qed

lemma store_audit_accepts: "store_ok db \<Longrightarrow> verify_invariants ''ok'' db = Inr ()"
  unfolding verify_invariants_def store_ok_def project_ok_def
  using heads_not_broken [of db] candidate_not_broken [of db] scopes_not_stale [of db]
    fts_count [of db] audit_accepts [of db] foreign_key_check_iff [of db]
  by (simp add: audit_count_def Let_def revisions_ok_def)

section \<open>Frames\<close>

text \<open>
  \<open>grows db db'\<close>: what every statement on the tables of projects and documents keeps for
  the statements after it. Projects, commits and branches stay, and candidate branches and the
  tables of operations are as they were. \<open>extends\<close> also keeps active scopes active.
\<close>

definition grows :: "Database \<Rightarrow> Database \<Rightarrow> bool" where
  "grows db db' \<longleftrightarrow>
     same_op_tables db db' \<and> set (project_t db) \<subseteq> set (project_t db')
     \<and> set (branch_t db) \<subseteq> set (branch_t db') \<and> candidate_t db' = candidate_t db
     \<and> set (commit_node_t db) \<subseteq> set (commit_node_t db')"

definition extends :: "Database \<Rightarrow> Database \<Rightarrow> bool" where
  "extends db db' \<longleftrightarrow> grows db db' \<and> (\<forall>s. scope_active db s \<longrightarrow> scope_active db' s)"

lemma grows_refl: "grows db db"
  by (simp add: grows_def same_op_tables_def)

lemma grows_trans [trans]: "grows db db' \<Longrightarrow> grows db' db'' \<Longrightarrow> grows db db''"
  by (auto simp: grows_def same_op_tables_def)

lemma extends_refl: "extends db db"
  by (simp add: extends_def grows_refl)

lemma extends_trans [trans]: "extends db db' \<Longrightarrow> extends db' db'' \<Longrightarrow> extends db db''"
  by (auto simp: extends_def intro: grows_trans)

lemma extends_grows: "extends db db' \<Longrightarrow> grows db db'"
  by (simp add: extends_def)

lemma grows_commit_ok: "grows db db' \<Longrightarrow> commit_ok db c p \<Longrightarrow> commit_ok db' c p"
  by (auto simp: grows_def commit_ok_def)

lemma grows_branch: "grows db db' \<Longrightarrow> b \<in> set (branch_t db) \<Longrightarrow> b \<in> set (branch_t db')"
  by (auto simp: grows_def)

lemma grows_project: "grows db db' \<Longrightarrow> p \<in> set (project_t db) \<Longrightarrow> p \<in> set (project_t db')"
  by (auto simp: grows_def)

lemma grows_candidates: "grows db db' \<Longrightarrow> candidate_t db' = candidate_t db"
  by (simp add: grows_def)

lemma extends_scope: "extends db db' \<Longrightarrow> scope_active db s \<Longrightarrow> scope_active db' s"
  unfolding extends_def by blast

lemma op_ok_grows:
  assumes "op_ok db" and "grows db db'" and "keys_ok db'"
  shows "op_ok db'"
  using op_ok_frame [of db db'] assms by (simp add: grows_def keys_ok_def)

lemma revisions_frame:
  "revisions_ok db \<Longrightarrow> block_t db' = block_t db \<Longrightarrow> edit_journal_t db' = edit_journal_t db \<Longrightarrow> revisions_ok db'"
  by (simp add: revisions_ok_def latest_revision_def)

lemma heads_mono:
  assumes "heads_ok db" and "set (commit_node_t db) \<subseteq> set (commit_node_t db')"
    and "\<And>b. b \<in> set (branch_t db') \<Longrightarrow> b \<in> set (branch_t db)
      \<or> commit_ok db' (br_head_commit_id b) (br_project_id b)"
    and "\<And>p. p \<in> set (project_t db') \<Longrightarrow> pr_head_commit_id p = None
      \<or> (\<exists>q \<in> set (project_t db). pr_id q = pr_id p \<and> pr_head_commit_id q = pr_head_commit_id p)"
  shows "heads_ok db'"
proof -
  have commit: "commit_ok db c p \<Longrightarrow> commit_ok db' c p" for c p
    using assms(2) by (auto simp: commit_ok_def)
  have "opt_all (\<lambda>c. commit_ok db' c (pr_id p)) (pr_head_commit_id p)" if "p \<in> set (project_t db')" for p
    using assms(4) [OF that]
  proof
    assume "\<exists>q \<in> set (project_t db). pr_id q = pr_id p \<and> pr_head_commit_id q = pr_head_commit_id p"
    then obtain q where "q \<in> set (project_t db)" "pr_id q = pr_id p"
      "pr_head_commit_id q = pr_head_commit_id p" by blast
    with assms(1) commit show ?thesis
      by (cases "pr_head_commit_id p") (auto simp: heads_ok_def)
  qed simp
  with assms(1,3) commit show ?thesis unfolding heads_ok_def by blast
qed

lemma candidate_mono:
  assumes "candidate_ok db cb"
    and "review_head_t db' = review_head_t db" and "run_t db' = run_t db"
    and "\<And>b. b \<in> set (branch_t db) \<Longrightarrow> br_id b = cb_branch_id cb \<Longrightarrow> b \<in> set (branch_t db')"
    and "set (commit_node_t db) \<subseteq> set (commit_node_t db')"
    and "set (snapshot_t db) \<subseteq> set (snapshot_t db')"
  shows "candidate_ok db' cb"
  using assms(1) unfolding candidate_ok_def assms(2,3)
  by (rule ex_forward) (use assms(4-6) in \<open>blast\<close>)

lemma candidates_mono:
  assumes "\<forall>cb \<in> set (candidate_t db). candidate_ok db cb" and "candidate_t db' = candidate_t db"
    and "review_head_t db' = review_head_t db" and "run_t db' = run_t db"
    and "set (branch_t db) \<subseteq> set (branch_t db')"
    and "set (commit_node_t db) \<subseteq> set (commit_node_t db')"
    and "set (snapshot_t db) \<subseteq> set (snapshot_t db')"
  shows "\<forall>cb \<in> set (candidate_t db'). candidate_ok db' cb"
  using assms candidate_mono [of db _ db'] by (simp add: subset_iff)

lemma scopes_mono:
  assumes "scopes_ok X db" and "set (invalidation_t db') \<subseteq> set (invalidation_t db)"
    and "set (commit_node_t db) \<subseteq> set (commit_node_t db')"
    and "\<And>s. scope_active db s \<or> s \<in> X \<Longrightarrow> scope_active db' s \<or> s \<in> Y"
  shows "scopes_ok Y db'"
proof -
  have "commit_ok db c p \<Longrightarrow> commit_ok db' c p" for c p
    using assms(3) by (auto simp: commit_ok_def)
  with assms(1,2,4) show ?thesis unfolding scopes_ok_def by blast
qed

text \<open>Activity of a scope depends on the documents and blocks only.\<close>

lemma active_document_mono:
  assumes "active_document p d db"
    and "\<And>x. x \<in> set (document_t db) \<Longrightarrow> doc_deleted_at x = None \<Longrightarrow> \<exists>y \<in> set (document_t db').
      doc_id y = doc_id x \<and> doc_project_id y = doc_project_id x \<and> doc_deleted_at y = None"
  shows "active_document p d db'"
  using assms by (fastforce simp: active_document_def)

lemma scope_active_mono:
  assumes "scope_active db s"
    and "\<And>x. x \<in> set (document_t db) \<Longrightarrow> doc_deleted_at x = None \<Longrightarrow> \<exists>y \<in> set (document_t db').
      doc_id y = doc_id x \<and> doc_project_id y = doc_project_id x \<and> doc_deleted_at y = None"
    and "\<And>x. x \<in> set (block_t db) \<Longrightarrow> blk_deleted_at x = None \<Longrightarrow> \<exists>y \<in> set (block_t db').
      blk_id y = blk_id x \<and> blk_document_id y = blk_document_id x \<and> blk_deleted_at y = None"
  shows "scope_active db' s"
proof -
  have doc: "active_document p d db \<Longrightarrow> active_document p d db'" for p d
    using assms(2) active_document_mono by blast
  have "active_block p b db \<Longrightarrow> active_block p b db'" for p b
    unfolding active_block_def exists_row_iff using assms(3) doc by metis
  with doc assms(1) show ?thesis by (cases s) (auto simp: scope_active.simps)
qed

lemma scope_active_same:
  "document_t db' = document_t db \<Longrightarrow> block_t db' = block_t db \<Longrightarrow> scope_active db' s = scope_active db s"
  by (cases s) (simp add: scope_active.simps active_document_def active_block_def)

lemma extendsI:
  assumes "same_op_tables db db'" and "set (project_t db) \<subseteq> set (project_t db')"
    and "set (branch_t db) \<subseteq> set (branch_t db')" and "candidate_t db' = candidate_t db"
    and "set (commit_node_t db) \<subseteq> set (commit_node_t db')"
    and "\<And>x. x \<in> set (document_t db) \<Longrightarrow> doc_deleted_at x = None \<Longrightarrow> \<exists>y \<in> set (document_t db').
      doc_id y = doc_id x \<and> doc_project_id y = doc_project_id x \<and> doc_deleted_at y = None"
    and "\<And>x. x \<in> set (block_t db) \<Longrightarrow> blk_deleted_at x = None \<Longrightarrow> \<exists>y \<in> set (block_t db').
      blk_id y = blk_id x \<and> blk_document_id y = blk_document_id x \<and> blk_deleted_at y = None"
  shows "extends db db'"
  unfolding extends_def grows_def using assms(1-5) scope_active_mono [OF _ assms(6,7)] by blast

lemma extends_same_scopes:
  assumes "same_op_tables db db'" and "set (project_t db) \<subseteq> set (project_t db')"
    and "set (branch_t db) \<subseteq> set (branch_t db')" and "candidate_t db' = candidate_t db"
    and "set (commit_node_t db) \<subseteq> set (commit_node_t db')"
    and "document_t db' = document_t db" and "block_t db' = block_t db"
  shows "extends db db'"
  unfolding extends_def grows_def using assms(1-5) scope_active_same [OF assms(6,7)] by blast

lemma scopes_same:
  assumes "scopes_ok X db" and "invalidation_t db' = invalidation_t db"
    and "commit_node_t db' = commit_node_t db" and "document_t db' = document_t db"
    and "block_t db' = block_t db"
  shows "scopes_ok X db'"
  using assms(1,2,3) scope_active_same [OF assms(4,5)] by (simp add: scopes_ok_def commit_ok_def)

end
