(* ===== verification/StoreStatements.thy ===== *)
theory StoreStatements
  imports StoreInvariant
begin

text \<open>
  Every statement of the model keeps the parts of the store's invariant, under the
  conditions that the operations establish, and extends the database for the statements
  after it.
\<close>

section \<open>Shared steps\<close>

lemmas refs_defs = refs_ok_def project_refs_def commit_refs_def row_refs_def run_refs_def

lemma project_okD:
  assumes "project_ok X db"
  shows "keys_ok db" and "refs_ok db" and "fts_ok db" and "heads_ok db"
    and "\<forall>cb \<in> set (candidate_t db). candidate_ok db cb" and "mainline_ok db" and "scopes_ok X db"
  using assms by (simp_all add: project_ok_def)

lemma project_ok_grows:
  assumes "project_ok X db" and "grows db db'"
    and "\<And>s. scope_active db s \<or> s \<in> X \<Longrightarrow> scope_active db' s \<or> s \<in> Y"
    and "keys_ok db'" and "refs_ok db'" and "fts_ok db'"
    and "\<And>b. b \<in> set (branch_t db') \<Longrightarrow> b \<in> set (branch_t db)
      \<or> commit_ok db' (br_head_commit_id b) (br_project_id b)"
    and "\<And>p. p \<in> set (project_t db') \<Longrightarrow> pr_head_commit_id p = None
      \<or> (\<exists>q \<in> set (project_t db). pr_id q = pr_id p \<and> pr_head_commit_id q = pr_head_commit_id p)"
    and "set (snapshot_t db) \<subseteq> set (snapshot_t db')"
    and "set (invalidation_t db') \<subseteq> set (invalidation_t db)"
  shows "project_ok Y db'"
proof -
  have ext: "set (commit_node_t db) \<subseteq> set (commit_node_t db')" "set (branch_t db) \<subseteq> set (branch_t db')"
    "candidate_t db' = candidate_t db" "review_head_t db' = review_head_t db" "run_t db' = run_t db"
    using assms(2) by (simp_all add: grows_def same_op_tables_def)
  have "heads_ok db'" using heads_mono [OF _ ext(1) assms(7,8)] assms(1) by (simp add: project_ok_def)
  moreover have "\<forall>cb \<in> set (candidate_t db'). candidate_ok db' cb"
    using candidates_mono [OF _ ext(3-5,2,1) assms(9)] assms(1) by (simp add: project_ok_def)
  moreover have "mainline_ok db'"
    using assms(1,8) ext(3) by (fastforce simp: project_ok_def mainline_ok_def)
  moreover have "scopes_ok Y db'"
    by (rule scopes_mono [where X = X, OF _ assms(10) ext(1) assms(3)])
      (use assms(1) in \<open>simp_all add: project_ok_def\<close>)
  ultimately show ?thesis using assms(4-6) by (simp add: project_ok_def)
qed

lemma project_okI:
  assumes "project_ok X db" and "extends db db'"
    and "keys_ok db'" and "refs_ok db'" and "fts_ok db'"
    and "\<And>b. b \<in> set (branch_t db') \<Longrightarrow> b \<in> set (branch_t db)
      \<or> commit_ok db' (br_head_commit_id b) (br_project_id b)"
    and "\<And>p. p \<in> set (project_t db') \<Longrightarrow> pr_head_commit_id p = None
      \<or> (\<exists>q \<in> set (project_t db). pr_id q = pr_id p \<and> pr_head_commit_id q = pr_head_commit_id p)"
    and "set (snapshot_t db) \<subseteq> set (snapshot_t db')"
    and "set (invalidation_t db') \<subseteq> set (invalidation_t db)"
  shows "project_ok X db'"
  using project_ok_grows [OF assms(1) extends_grows [OF assms(2)] _ assms(3-9)] extends_scope [OF assms(2)]
  by blast

lemma image_update_where [simp]:
  "(\<And>r. p r \<Longrightarrow> f (g r) = f r) \<Longrightarrow> f ` set (update_where p g rows) = f ` set rows"
  by (metis map_update_where set_map)

lemma these_insert_subset:
  "Option.these A \<subseteq> B \<Longrightarrow> opt_all (\<lambda>x. x \<in> B) y \<Longrightarrow> Option.these (insert y A) \<subseteq> B"
  by (cases y) auto

text \<open>Statements on tables that no other part of the invariant reads.\<close>

definition same_core :: "Database \<Rightarrow> Database \<Rightarrow> bool" where
  "same_core db db' \<longleftrightarrow>
     same_op_tables db db' \<and> project_t db' = project_t db \<and> document_t db' = document_t db
     \<and> block_t db' = block_t db \<and> block_fts_t db' = block_fts_t db
     \<and> commit_node_t db' = commit_node_t db \<and> branch_t db' = branch_t db
     \<and> snapshot_t db' = snapshot_t db \<and> candidate_t db' = candidate_t db
     \<and> invalidation_t db' = invalidation_t db"

lemma leaf_statement:
  assumes "project_ok X db" and "same_core db db'" and "refs_ok db \<longrightarrow> refs_ok db'"
  shows "project_ok X db'" and "extends db db'"
proof -
  note ok = project_okD [OF assms(1)]
  show ext: "extends db db'"
    using assms(2) by (intro extends_same_scopes) (simp_all add: same_core_def)
  have 1: "keys_ok db'" using ok(1) assms(2) by (simp add: same_core_def keys_ok_def)
  have 2: "fts_ok db'" using ok(3) assms(2) by (simp add: same_core_def fts_ok_def)
  show "project_ok X db'"
    by (rule project_okI [OF assms(1) ext 1 mp [OF assms(3) ok(2)] 2])
      (use assms(2) in \<open>auto simp: same_core_def\<close>)
qed

section \<open>Inserting rows\<close>

lemma insert_project_ok:
  assumes "project_ok X db" and "insert_project p db = Inr db'" and "pr_head_commit_id p = None"
  shows "project_ok X db'" and "extends db db'"
proof -
  note ok = project_okD [OF assms(1)]
  have db': "db' = db\<lparr>project_t := project_t db @ [p]\<rparr>" and new: "pr_id p \<notin> pr_id ` set (project_t db)"
    using assms(2) by (auto simp: insert_project_def result_simps)
  show ext: "extends db db'" by (rule extends_same_scopes) (auto simp: db' same_op_tables_def)
  have 1: "keys_ok db'" using ok(1) new by (simp add: db' keys_ok_def)
  have 2: "refs_ok db'" using ok(2) by (simp add: db' refs_defs subset_insertI2)
  have 3: "fts_ok db'" using ok(3) by (simp add: db' fts_ok_def)
  show "project_ok X db'"
    by (rule project_okI [OF assms(1) ext 1 2 3]) (use assms(3) in \<open>auto simp: db'\<close>)
qed

lemma insert_document_ok:
  assumes "project_ok X db" and "insert_document d db = Inr db'"
  shows "project_ok X db'" and "extends db db'"
proof -
  note ok = project_okD [OF assms(1)]
  have db': "db' = db\<lparr>document_t := document_t db @ [d]\<rparr>"
    and new: "doc_id d \<notin> doc_id ` set (document_t db)" "doc_project_id d \<in> pr_id ` set (project_t db)"
      "opt_all (\<lambda>p. p \<in> insert (doc_id d) (doc_id ` set (document_t db))) (doc_parent_id d)"
    using assms(2) by (auto simp: insert_document_def result_simps)
  show ext: "extends db db'" by (rule extendsI) (auto simp: db' same_op_tables_def)
  have 1: "keys_ok db'" using ok(1) new by (simp add: db' keys_ok_def)
  have "Option.these (insert (doc_parent_id d) (doc_parent_id ` set (document_t db)))
      \<subseteq> insert (doc_id d) (doc_id ` set (document_t db))"
    by (rule these_insert_subset) (use ok(2) new(3) in \<open>auto simp: refs_ok_def row_refs_def\<close>)
  then have 2: "refs_ok db'" using ok(2) new(2) by (simp add: db' refs_defs subset_insertI2)
  have 3: "fts_ok db'" using ok(3) by (simp add: db' fts_ok_def)
  show "project_ok X db'" by (rule project_okI [OF assms(1) ext 1 2 3]) (auto simp: db')
qed

lemma insert_block_ok:
  assumes "project_ok X db" and "insert_block env b db = Inr db'"
  shows "project_ok X db'" and "extends db db'"
proof -
  note ok = project_okD [OF assms(1)]
  have db': "db' = db\<lparr>block_t := block_t db @ [b], block_fts_t := block_fts_t db @ fts_rows b\<rparr>"
    and new: "blk_id b \<notin> blk_id ` set (block_t db)" "blk_document_id b \<in> doc_id ` set (document_t db)"
    using assms(2) by (auto simp: insert_block_def result_simps)
  show ext: "extends db db'" by (rule extendsI) (auto simp: db' same_op_tables_def)
  have 1: "keys_ok db'" using ok(1) new by (simp add: db' keys_ok_def)
  have 2: "refs_ok db'" using ok(2) new(2) by (simp add: db' refs_defs subset_insertI2)
  have 3: "fts_ok db'" using ok(3) by (simp add: db' fts_ok_def)
  show "project_ok X db'" by (rule project_okI [OF assms(1) ext 1 2 3]) (auto simp: db')
qed

lemma insert_commit_ok:
  assumes "project_ok X db" and "insert_commit c db = Inr db'"
  shows "project_ok X db'" and "extends db db'" and "commit_ok db' (cn_id c) (cn_project_id c)"
    and "cn_id c \<notin> cb_commit_id ` set (candidate_t db')"
proof -
  note ok = project_okD [OF assms(1)]
  have db': "db' = db\<lparr>commit_node_t := commit_node_t db @ [c]\<rparr>"
    and new: "cn_id c \<notin> cn_id ` set (commit_node_t db)" "cn_project_id c \<in> pr_id ` set (project_t db)"
    using assms(2) by (auto simp: insert_commit_def result_simps)
  show ext: "extends db db'" by (rule extends_same_scopes) (auto simp: db' same_op_tables_def)
  have 1: "keys_ok db'" using ok(1) new by (simp add: db' keys_ok_def)
  have 2: "refs_ok db'" using ok(2) new(2) by (simp add: db' refs_defs subset_insertI2)
  have 3: "fts_ok db'" using ok(3) by (simp add: db' fts_ok_def)
  show "project_ok X db'" by (rule project_okI [OF assms(1) ext 1 2 3]) (auto simp: db')
  show "commit_ok db' (cn_id c) (cn_project_id c)" by (auto simp: db' commit_ok_def)
  show "cn_id c \<notin> cb_commit_id ` set (candidate_t db')"
    using ok(2) new(1) by (auto simp: db' refs_ok_def commit_refs_def)
qed

lemma insert_commit_parent_ok:
  assumes "project_ok X db" and "insert_commit_parent p db = Inr db'"
  shows "project_ok X db'" and "extends db db'"
proof -
  have db': "db' = db\<lparr>commit_parent_t := commit_parent_t db @ [p]\<rparr>"
    and new: "par_commit_id p \<in> cn_id ` set (commit_node_t db)"
      "par_parent_id p \<in> cn_id ` set (commit_node_t db)"
    using assms(2) by (auto simp: insert_commit_parent_def result_simps)
  have core: "same_core db db'" by (simp add: db' same_core_def same_op_tables_def)
  have refs: "refs_ok db \<longrightarrow> refs_ok db'"
    using new by (simp add: db' refs_defs subset_insertI2)
  from leaf_statement [OF assms(1) core refs] show "project_ok X db'" "extends db db'" .
qed

lemma insert_branch_ok:
  assumes "project_ok X db" and "insert_branch b db = Inr db'"
    and "commit_ok db (br_head_commit_id b) (br_project_id b)"
  shows "project_ok X db'" and "extends db db'" and "b \<in> set (branch_t db')"
proof -
  note ok = project_okD [OF assms(1)]
  have db': "db' = db\<lparr>branch_t := branch_t db @ [b]\<rparr>"
    and new: "br_id b \<notin> br_id ` set (branch_t db)" "br_project_id b \<in> pr_id ` set (project_t db)"
      "br_head_commit_id b \<in> cn_id ` set (commit_node_t db)"
    using assms(2) by (auto simp: insert_branch_def result_simps)
  show ext: "extends db db'" by (rule extends_same_scopes) (auto simp: db' same_op_tables_def)
  have 1: "keys_ok db'" using ok(1) new by (simp add: db' keys_ok_def)
  have 2: "refs_ok db'" using ok(2) new by (simp add: db' refs_defs subset_insertI2)
  have 3: "fts_ok db'" using ok(3) by (simp add: db' fts_ok_def)
  show "project_ok X db'"
    by (rule project_okI [OF assms(1) ext 1 2 3]) (use assms(3) in \<open>auto simp: db' commit_ok_def\<close>)
  show "b \<in> set (branch_t db')" by (simp add: db')
qed

lemma insert_edit_journal_ok:
  assumes "project_ok X db" and "insert_edit_journal env e db = Inr db'"
  shows "project_ok X db'" and "extends db db'"
proof -
  have db': "db' = db\<lparr>edit_journal_t := edit_journal_t db @ [e]\<rparr>"
    and new: "ej_project_id e \<in> pr_id ` set (project_t db)" "ej_block_id e \<in> blk_id ` set (block_t db)"
    using assms(2) by (auto simp: insert_edit_journal_def result_simps)
  have core: "same_core db db'" by (simp add: db' same_core_def same_op_tables_def)
  have refs: "refs_ok db \<longrightarrow> refs_ok db'"
    using new by (simp add: db' refs_defs subset_insertI2)
  from leaf_statement [OF assms(1) core refs] show "project_ok X db'" "extends db db'" .
qed

lemma insert_change_set_ok:
  assumes "project_ok X db" and "insert_change_set c db = Inr db'"
  shows "project_ok X db'" and "extends db db'"
proof -
  have db': "db' = db\<lparr>change_set_t := change_set_t db @ [c]\<rparr>"
    and new: "chg_commit_id c \<in> cn_id ` set (commit_node_t db)"
      "opt_all (\<lambda>e. e \<in> ej_id ` set (edit_journal_t db)) (chg_edit_journal_id c)"
    using assms(2) by (auto simp: insert_change_set_def result_simps)
  have core: "same_core db db'" by (simp add: db' same_core_def same_op_tables_def)
  have refs: "refs_ok db \<longrightarrow> refs_ok db'"
    using new these_insert_subset [OF _ new(2)]
    by (simp add: db' refs_defs subset_insertI2)
  from leaf_statement [OF assms(1) core refs] show "project_ok X db'" "extends db db'" .
qed

lemma insert_snapshot_ok:
  assumes "project_ok X db" and "insert_snapshot s db = Inr db'"
  shows "project_ok X db'" and "extends db db'" and "s \<in> set (snapshot_t db')"
proof -
  note ok = project_okD [OF assms(1)]
  have db': "db' = db\<lparr>snapshot_t := snapshot_t db @ [s]\<rparr>"
    and new: "snr_id s \<notin> snr_id ` set (snapshot_t db)" "snr_project_id s \<in> pr_id ` set (project_t db)"
      "snr_commit_id s \<in> cn_id ` set (commit_node_t db)"
    using assms(2) by (auto simp: insert_snapshot_def result_simps)
  show ext: "extends db db'" by (rule extends_same_scopes) (auto simp: db' same_op_tables_def)
  have 1: "keys_ok db'" using ok(1) new by (simp add: db' keys_ok_def)
  have 2: "refs_ok db'" using ok(2) new by (simp add: db' refs_defs subset_insertI2)
  have 3: "fts_ok db'" using ok(3) by (simp add: db' fts_ok_def)
  show "project_ok X db'" by (rule project_okI [OF assms(1) ext 1 2 3]) (auto simp: db')
  show "s \<in> set (snapshot_t db')" by (simp add: db')
qed

lemma insert_style_ok:
  assumes "project_ok X db" and "insert_style s db = Inr db'"
  shows "project_ok X db'" and "extends db db'"
proof -
  have db': "db' = db\<lparr>style_t := style_t db @ [s]\<rparr>"
    and new: "sty_project_id s \<in> pr_id ` set (project_t db)"
    using assms(2) by (auto simp: insert_style_def result_simps)
  have core: "same_core db db'" by (simp add: db' same_core_def same_op_tables_def)
  have refs: "refs_ok db \<longrightarrow> refs_ok db'"
    using new by (simp add: db' refs_defs subset_insertI2)
  from leaf_statement [OF assms(1) core refs] show "project_ok X db'" "extends db db'" .
qed

lemma insert_knowledge_ok:
  assumes "project_ok X db" and "insert_knowledge k db = Inr db'"
  shows "project_ok X db'" and "extends db db'"
proof -
  have db': "db' = db\<lparr>knowledge_t := knowledge_t db @ [k]\<rparr>"
    and new: "kn_project_id k \<in> pr_id ` set (project_t db)"
    using assms(2) by (auto simp: insert_knowledge_def result_simps)
  have core: "same_core db db'" by (simp add: db' same_core_def same_op_tables_def)
  have refs: "refs_ok db \<longrightarrow> refs_ok db'"
    using new by (simp add: db' refs_defs subset_insertI2)
  from leaf_statement [OF assms(1) core refs] show "project_ok X db'" "extends db db'" .
qed

lemma insert_candidate_ok:
  assumes "project_ok X db" and "insert_candidate c db = Inr db'" and "candidate_ok db c"
    and "\<And>p. p \<in> set (project_t db) \<Longrightarrow> pr_head_commit_id p \<noteq> Some (cb_commit_id c)"
  shows "project_ok X db'"
proof -
  note ok = project_okD [OF assms(1)]
  have db': "db' = db\<lparr>candidate_t := candidate_t db @ [c]\<rparr>"
    and new: "cb_proposal_id c \<in> rh_proposal_id ` set (review_head_t db)"
      "cb_branch_id c \<in> br_id ` set (branch_t db)" "cb_commit_id c \<in> cn_id ` set (commit_node_t db)"
      "cb_snapshot_id c \<in> snr_id ` set (snapshot_t db)"
    using assms(2) by (auto simp: insert_candidate_def result_simps)
  have "candidate_ok db' x" if "candidate_ok db x" for x
    using candidate_mono [OF that] by (simp add: db')
  moreover have "keys_ok db'" "fts_ok db'" "heads_ok db'" "mainline_ok db'"
    using ok(1,3,4,6) assms(4)
    by (simp_all add: db' keys_ok_def fts_ok_def heads_ok_def commit_ok_def mainline_ok_def)
  moreover have "scopes_ok X db'"
    by (rule scopes_same [OF ok(7)]) (simp_all add: db')
  moreover have "refs_ok db'" using ok(2) new by (simp add: db' refs_defs subset_insertI2)
  ultimately show ?thesis using ok(5) assms(3) by (simp add: project_ok_def db')
qed

section \<open>Updating rows\<close>

lemma update_style_status_ok:
  assumes "project_ok X db" and "update_style_status s u p i r db = Inr (n, db')"
  shows "project_ok X db'" and "extends db db'"
proof -
  obtain hit upd where db': "db' = db\<lparr>style_t := update_where hit upd (style_t db)\<rparr>"
    and upd: "\<And>s. sty_project_id (upd s) = sty_project_id s"
    using assms(2) by (auto simp: update_style_status_def Let_def result_simps)
  have core: "same_core db db'" by (simp add: db' same_core_def same_op_tables_def)
  have refs: "refs_ok db \<longrightarrow> refs_ok db'" using upd by (simp add: db' refs_defs)
  from leaf_statement [OF assms(1) core refs] show "project_ok X db'" "extends db db'" .
qed

lemma update_knowledge_status_ok:
  assumes "project_ok X db" and "update_knowledge_status s u p i r db = Inr (n, db')"
  shows "project_ok X db'" and "extends db db'"
proof -
  obtain hit upd where db': "db' = db\<lparr>knowledge_t := update_where hit upd (knowledge_t db)\<rparr>"
    and upd: "\<And>k. kn_project_id (upd k) = kn_project_id k"
    using assms(2) by (auto simp: update_knowledge_status_def Let_def result_simps)
  have core: "same_core db db'" by (simp add: db' same_core_def same_op_tables_def)
  have refs: "refs_ok db \<longrightarrow> refs_ok db'" using upd by (simp add: db' refs_defs)
  from leaf_statement [OF assms(1) core refs] show "project_ok X db'" "extends db db'" .
qed

lemma image_upsert_subset:
  assumes "f ` set rows \<subseteq> B" and "f new \<in> B" and "\<And>x. f (upd x) = f x \<or> f (upd x) = f new"
  shows "f ` set (upsert_by key upd new rows) \<subseteq> B"
proof -
  have "f (upd x) \<in> B" if "x \<in> set rows" for x
    using assms(2) subsetD [OF assms(1) imageI [OF that]] assms(3) [of x] by auto
  then have "f ` insert new (set rows \<union> upd ` set rows) \<subseteq> B"
    using assms(1,2) by auto
  then show ?thesis using image_mono [OF set_upsert] by (rule order.trans [rotated])
qed

lemma upsert_summary_ok:
  assumes "project_ok X db" and "upsert_summary s db = Inr db'"
  shows "project_ok X db'" and "extends db db'"
proof -
  let ?upd = "\<lambda>x. s\<lparr>sum_project_id := sum_project_id x, sum_scope_type := sum_scope_type x,
      sum_scope_id := sum_scope_id x, sum_revision := sum_revision x + 1\<rparr>"
  have db': "db' = db\<lparr>summary_t := upsert_by summary_scope ?upd s (summary_t db)\<rparr>"
    and new: "sum_project_id s \<in> pr_id ` set (project_t db)"
      "sum_source_commit_id s \<in> cn_id ` set (commit_node_t db)"
    using assms(2) by (auto simp: upsert_summary_def Let_def result_simps)
  have core: "same_core db db'" by (simp add: db' same_core_def same_op_tables_def)
  have upsert: "f ` set (summary_t db') \<subseteq> B"
    if "f ` set (summary_t db) \<subseteq> B" and "f s \<in> B" and "\<And>x. f (?upd x) = f x \<or> f (?upd x) = f s"
    for f :: "SummaryRecord \<Rightarrow> string" and B
    unfolding db' using image_upsert_subset [where upd = ?upd, OF that] by simp
  have refs: "refs_ok db \<longrightarrow> refs_ok db'"
    using upsert [of sum_project_id] upsert [of sum_source_commit_id] new
    by (simp add: db' refs_defs)
  from leaf_statement [OF assms(1) core refs] show "project_ok X db'" "extends db db'" .
qed

text \<open>Queueing a scope: it must be active, or one of those still to be dropped.\<close>

lemma upsert_invalidation_ok:
  assumes "project_ok X db" and "upsert_invalidation i db = Inr db'"
    and "commit_ok db (inv_source_commit_id i) (inv_project_id i)"
    and "scope_active db (invalidation_scope i) \<or> invalidation_scope i \<in> X"
  shows "project_ok X db'" and "extends db db'"
proof -
  note ok = project_okD [OF assms(1)]
  let ?upd = "\<lambda>x. x\<lparr>inv_source_commit_id := inv_source_commit_id i, inv_reason := inv_reason i,
      inv_invalidation_count := inv_invalidation_count x + 1, inv_created_at := inv_created_at i\<rparr>"
  have db': "db' = db\<lparr>invalidation_t := upsert_by invalidation_scope ?upd i (invalidation_t db)\<rparr>"
    and new: "inv_project_id i \<in> pr_id ` set (project_t db)"
      "inv_source_commit_id i \<in> cn_id ` set (commit_node_t db)"
    using assms(2) by (auto simp: upsert_invalidation_def Let_def result_simps)
  show ext: "extends db db'" by (rule extends_same_scopes) (auto simp: db' same_op_tables_def)
  have key: "invalidation_scope (?upd x) = invalidation_scope x" for x
    by (simp add: invalidation_scope_def)
  have "keys_ok db'" using ok(1) key by (simp add: db' keys_ok_def distinct_upsert)
  moreover have upsert: "f ` set (invalidation_t db') \<subseteq> B"
    if "f ` set (invalidation_t db) \<subseteq> B" and "f i \<in> B" and "\<And>x. f (?upd x) = f x \<or> f (?upd x) = f i"
    for f :: "SummaryInvalidationRecord \<Rightarrow> string" and B
    unfolding db' using image_upsert_subset [where upd = ?upd, OF that] by simp
  have "refs_ok db'"
    using ok(2) upsert [of inv_project_id] upsert [of inv_source_commit_id] new
    by (simp add: db' refs_defs)
  moreover have "fts_ok db'" "heads_ok db'" "mainline_ok db'"
    using ok(3,4,6) by (simp_all add: db' fts_ok_def heads_ok_def commit_ok_def mainline_ok_def)
  moreover have "\<forall>cb \<in> set (candidate_t db'). candidate_ok db' cb"
    by (rule candidates_mono [OF ok(5)]) (simp_all add: db')
  moreover have "scopes_ok X db'"
    unfolding scopes_ok_def
  proof
    fix x assume x: "x \<in> set (invalidation_t db')"
    have same: "commit_ok db' c p = commit_ok db c p" "scope_active db' s = scope_active db s" for c p s
      using scope_active_same [of db' db] by (simp_all add: db' commit_ok_def)
    have "x = i \<or> x \<in> set (invalidation_t db) \<or> (\<exists>y \<in> set (invalidation_t db).
        invalidation_scope y = invalidation_scope i \<and> x = ?upd y)"
      using x by (auto simp: db' upsert_by_def set_update_where split: if_splits)
    with ok(7) assms(3,4) show "commit_ok db' (inv_source_commit_id x) (inv_project_id x)
        \<and> (scope_active db' (invalidation_scope x) \<or> invalidation_scope x \<in> X)"
      unfolding same scopes_ok_def by (auto simp: invalidation_scope_def)
  qed
  ultimately show "project_ok X db'" by (simp add: project_ok_def)
qed

lemma delete_invalidations_ok:
  assumes "project_ok X db" and "db' = snd (delete_invalidations hit db)"
    and "\<And>i. i \<in> set (invalidation_t db) \<Longrightarrow> invalidation_scope i \<in> X \<Longrightarrow>
      invalidation_scope i \<in> Y \<or> hit i \<or> scope_active db (invalidation_scope i)"
  shows "project_ok Y db'" and "extends db db'"
proof -
  note ok = project_okD [OF assms(1)]
  have db': "db' = db\<lparr>invalidation_t := filter (\<lambda>x. \<not> hit x) (invalidation_t db)\<rparr>"
    using assms(2) by (simp add: delete_invalidations_def)
  show "extends db db'" by (rule extends_same_scopes) (auto simp: db' same_op_tables_def)
  have sub: "f ` {x \<in> A. P x} \<subseteq> B" if "f ` A \<subseteq> B" for f :: "SummaryInvalidationRecord \<Rightarrow> string" and A P B
    using that by auto
  have "keys_ok db'" using ok(1) by (simp add: db' keys_ok_def distinct_filter_key)
  moreover have "refs_ok db'" using ok(2) by (simp add: db' refs_defs sub)
  moreover have "fts_ok db'" "heads_ok db'" "mainline_ok db'"
    using ok(3,4,6) by (simp_all add: db' fts_ok_def heads_ok_def commit_ok_def mainline_ok_def)
  moreover have "\<forall>cb \<in> set (candidate_t db'). candidate_ok db' cb"
    by (rule candidates_mono [OF ok(5)]) (simp_all add: db')
  moreover have "scopes_ok Y db'"
    unfolding scopes_ok_def
  proof
    fix i assume i: "i \<in> set (invalidation_t db')"
    have same: "commit_ok db' c p = commit_ok db c p" "scope_active db' s = scope_active db s" for c p s
      using scope_active_same [of db' db] by (simp_all add: db' commit_ok_def)
    with i ok(7) assms(3) [of i] show "commit_ok db' (inv_source_commit_id i) (inv_project_id i)
        \<and> (scope_active db' (invalidation_scope i) \<or> invalidation_scope i \<in> Y)"
      unfolding same by (auto simp: db' scopes_ok_def)
  qed
  ultimately show "project_ok Y db'" by (simp add: project_ok_def)
qed

section \<open>Updating documents and blocks\<close>

lemma these_update_subset:
  assumes "Option.these (f ` set rows) \<subseteq> B"
    and "\<And>r. r \<in> set rows \<Longrightarrow> p r \<Longrightarrow> opt_all (\<lambda>x. x \<in> B) (f (g r))"
  shows "Option.these (f ` set (update_where p g rows)) \<subseteq> B"
proof
  fix x assume "x \<in> Option.these (f ` set (update_where p g rows))"
  then obtain r where r: "r \<in> set rows" "f (if p r then g r else r) = Some x"
    by (auto simp: in_these_eq set_update_where)
  show "x \<in> B"
  proof (cases "p r")
    case True
    with r assms(2) [of r] show ?thesis by simp
  next
    case False
    with r have "Some x \<in> f ` set rows" by (metis image_eqI)
    with assms(1) show ?thesis by (auto simp: in_these_eq)
  qed
qed

lemma update_document_grows:
  assumes "project_ok X db" and "update_document upd hit db = Inr (n, db')"
    and "\<And>d. hit d \<Longrightarrow> doc_id (upd d) = doc_id d \<and> doc_project_id (upd d) = doc_project_id d"
    and "\<And>s. scope_active db s \<or> s \<in> X \<Longrightarrow> scope_active db' s \<or> s \<in> Y"
  shows "project_ok Y db'" and "grows db db'"
proof -
  note ok = project_okD [OF assms(1)]
  have db': "db' = db\<lparr>document_t := update_where hit upd (document_t db)\<rparr>"
    and new: "\<And>d. d \<in> set (document_t db) \<Longrightarrow> hit d \<Longrightarrow>
      opt_all (\<lambda>p. p \<in> doc_id ` set (document_t db)) (doc_parent_id (upd d))"
    using assms(2) by (auto simp: update_document_def Let_def result_simps list_all_iff)
  show grow: "grows db db'" by (simp add: db' grows_def same_op_tables_def)
  have 1: "keys_ok db'" using ok(1) assms(3) by (simp add: db' keys_ok_def)
  have 2: "refs_ok db'"
    using ok(2) assms(3) these_update_subset [where f = doc_parent_id and rows = "document_t db"
        and B = "doc_id ` set (document_t db)" and p = hit and g = upd, OF _ new]
    by (simp add: db' refs_defs)
  have 3: "fts_ok db'" using ok(3) by (simp add: db' fts_ok_def)
  show "project_ok Y db'"
    by (rule project_ok_grows [OF assms(1) grow assms(4) 1 2 3]) (auto simp: db')
qed

lemma update_document_extends:
  assumes "update_document upd hit db = Inr (n, db')"
    and "\<And>d. hit d \<Longrightarrow> doc_id (upd d) = doc_id d \<and> doc_project_id (upd d) = doc_project_id d
      \<and> (doc_deleted_at d = None \<longrightarrow> doc_deleted_at (upd d) = None)"
  shows "extends db db'"
proof -
  have db': "db' = db\<lparr>document_t := update_where hit upd (document_t db)\<rparr>"
    using assms(1) by (auto simp: update_document_def Let_def result_simps)
  show ?thesis
  proof (rule extendsI)
    fix x assume "x \<in> set (document_t db)" "doc_deleted_at x = None"
    with assms(2) [of x] show "\<exists>y \<in> set (document_t db').
        doc_id y = doc_id x \<and> doc_project_id y = doc_project_id x \<and> doc_deleted_at y = None"
      by (intro bexI [of _ "if hit x then upd x else x"]) (auto simp: db' set_update_where)
  qed (auto simp: db' same_op_tables_def)
qed

lemma update_document_ok:
  assumes "project_ok X db" and "update_document upd hit db = Inr (n, db')"
    and "\<And>d. hit d \<Longrightarrow> doc_id (upd d) = doc_id d \<and> doc_project_id (upd d) = doc_project_id d
      \<and> (doc_deleted_at d = None \<longrightarrow> doc_deleted_at (upd d) = None)"
  shows "project_ok X db'" and "extends db db'"
proof -
  show ext: "extends db db'" using update_document_extends [OF assms(2,3)] .
  show "project_ok X db'"
    using update_document_grows(1) [OF assms(1,2)] assms(3) extends_scope [OF ext] by blast
qed

text \<open>The trigger keeps the index in step with the blocks.\<close>

lemma fts_rows_id: "f \<in> set (fts_rows b) \<Longrightarrow> fts_block_id f = blk_id b"
  by (auto simp: fts_rows_def fts_row_def split: if_splits)

lemma fts_update:
  assumes "distinct (map blk_id bs)" and "mset fts = mset (concat (map fts_rows bs))"
  shows "mset (filter (\<lambda>f. fts_block_id f \<notin> blk_id ` set (filter hit bs)) fts
      @ concat (map (fts_rows \<circ> upd) (filter hit bs)))
    = mset (concat (map fts_rows (update_where hit upd bs)))"
proof -
  let ?P = "\<lambda>f. fts_block_id f \<notin> blk_id ` {x \<in> set bs. hit x}"
  have kept: "filter ?P (fts_rows b) = (if hit b then [] else fts_rows b)" if b: "b \<in> set bs" for b
  proof -
    have "blk_id b \<in> blk_id ` {x \<in> set bs. hit x} \<longleftrightarrow> hit b"
      using key_eqD [OF assms(1)] b by auto
    with fts_rows_id [of _ b] show ?thesis by (auto simp: filter_empty_conv intro: filter_True)
  qed
  have "filter ?P (concat (map fts_rows xs)) = concat (map fts_rows (filter (\<lambda>b. \<not> hit b) xs))"
    if "set xs \<subseteq> set bs" for xs
    using that by (induction xs) (simp_all add: kept)
  from this [of bs]
  have "mset (filter ?P fts) = mset (concat (map fts_rows (filter (\<lambda>b. \<not> hit b) bs)))"
    unfolding mset_filter [symmetric] assms(2) [symmetric]
    by (simp only: mset_filter assms(2) order_refl) (simp only: mset_filter [symmetric])
  moreover have "mset (concat (map fts_rows (filter (\<lambda>b. \<not> hit b) xs)))
      + mset (concat (map (fts_rows \<circ> upd) (filter hit xs)))
      = mset (concat (map fts_rows (update_where hit upd xs)))" for xs
    by (induction xs) (simp_all add: update_where_def ac_simps)
  ultimately show ?thesis by simp
qed

lemma update_block_grows:
  assumes "project_ok X db" and "update_block env upd hit db = Inr (n, db')"
    and "\<And>b. hit b \<Longrightarrow> blk_id (upd b) = blk_id b"
    and "\<And>s. scope_active db s \<or> s \<in> X \<Longrightarrow> scope_active db' s \<or> s \<in> Y"
  shows "project_ok Y db'" and "grows db db'"
proof -
  note ok = project_okD [OF assms(1)]
  have db': "db' = db\<lparr>block_t := update_where hit upd (block_t db),
        block_fts_t := filter (\<lambda>f. fts_block_id f \<notin> blk_id ` set (filter hit (block_t db))) (block_fts_t db)
          @ concat (map (fts_rows \<circ> upd) (filter hit (block_t db)))\<rparr>"
    and new: "\<And>b. b \<in> set (block_t db) \<Longrightarrow> hit b \<Longrightarrow> blk_document_id (upd b) \<in> doc_id ` set (document_t db)"
    using assms(2) by (auto simp: update_block_def Let_def result_simps list_all_iff)
  show grow: "grows db db'" by (simp add: db' grows_def same_op_tables_def)
  have 1: "keys_ok db'" using ok(1) assms(3) by (simp add: db' keys_ok_def)
  have "blk_document_id ` set (update_where hit upd (block_t db)) \<subseteq> doc_id ` set (document_t db)"
    using ok(2) new by (auto simp: set_update_where refs_ok_def row_refs_def)
  then have 2: "refs_ok db'" using ok(2) assms(3) by (simp add: db' refs_defs)
  have "distinct (map blk_id (block_t db))" using ok(1) by (simp add: keys_ok_def)
  from fts_update [OF this, of _ hit upd] have 3: "fts_ok db'"
    using ok(3) by (simp add: db' fts_ok_def)
  show "project_ok Y db'"
    by (rule project_ok_grows [OF assms(1) grow assms(4) 1 2 3]) (auto simp: db')
qed

lemma update_block_ok:
  assumes "project_ok X db" and "update_block env upd hit db = Inr (n, db')"
    and "\<And>b. hit b \<Longrightarrow> blk_id (upd b) = blk_id b"
    and "\<And>b. hit b \<Longrightarrow> blk_deleted_at b = None \<Longrightarrow>
      blk_document_id (upd b) = blk_document_id b \<and> blk_deleted_at (upd b) = None"
  shows "project_ok X db'" and "extends db db'"
proof -
  have tables: "block_t db' = update_where hit upd (block_t db)" "document_t db' = document_t db"
    "same_op_tables db db'" "branch_t db' = branch_t db" "candidate_t db' = candidate_t db"
    "commit_node_t db' = commit_node_t db" "project_t db' = project_t db"
    using assms(2) by (auto simp: update_block_def Let_def result_simps same_op_tables_def)
  show ext: "extends db db'"
  proof (rule extendsI)
    fix x assume "x \<in> set (block_t db)" "blk_deleted_at x = None"
    with assms(3,4) [of x] show "\<exists>y \<in> set (block_t db').
        blk_id y = blk_id x \<and> blk_document_id y = blk_document_id x \<and> blk_deleted_at y = None"
      by (intro bexI [of _ "if hit x then upd x else x"]) (auto simp: tables set_update_where)
  qed (use tables in auto)
  show "project_ok X db'"
    using update_block_grows(1) [OF assms(1-3)] extends_scope [OF ext] by blast
qed

section \<open>Moving heads\<close>

lemma update_branch_head_frame:
  assumes "update_branch_head cid tm hit db = Inr (n, db')"
  shows "same_op_tables db db'" and "commit_node_t db' = commit_node_t db"
    and "project_t db' = project_t db" and "candidate_t db' = candidate_t db"
    and "block_t db' = block_t db" and "edit_journal_t db' = edit_journal_t db"
  using assms by (auto simp: update_branch_head_def same_op_tables_def result_simps)

lemma update_project_head_frame:
  assumes "update_project_head cid f tm hit db = Inr (n, db')"
  shows "same_op_tables db db'" and "commit_node_t db' = commit_node_t db"
    and "branch_t db' = branch_t db" and "candidate_t db' = candidate_t db"
    and "block_t db' = block_t db" and "edit_journal_t db' = edit_journal_t db"
  using assms by (auto simp: update_project_head_def same_op_tables_def result_simps)

lemma update_branch_head_ok:
  assumes "project_ok X db" and "update_branch_head cid tm hit db = Inr (n, db')"
    and "\<And>b. b \<in> set (branch_t db) \<Longrightarrow> hit b \<Longrightarrow> commit_ok db cid (br_project_id b)"
    and "\<And>b cb. b \<in> set (branch_t db) \<Longrightarrow> hit b \<Longrightarrow> cb \<in> set (candidate_t db) \<Longrightarrow> cb_branch_id cb \<noteq> br_id b"
  shows "project_ok X db'"
proof -
  note ok = project_okD [OF assms(1)]
  let ?upd = "\<lambda>b. b\<lparr>br_head_commit_id := cid, br_updated_at := tm\<rparr>"
  have db': "db' = db\<lparr>branch_t := update_where hit ?upd (branch_t db)\<rparr>"
    and new: "\<And>b. b \<in> set (branch_t db) \<Longrightarrow> hit b \<Longrightarrow> cid \<in> cn_id ` set (commit_node_t db)"
    using assms(2) by (auto simp: update_branch_head_def result_simps)
  have "keys_ok db'" using ok(1) by (simp add: db' keys_ok_def)
  moreover have "br_head_commit_id ` set (update_where hit ?upd (branch_t db)) \<subseteq> cn_id ` set (commit_node_t db)"
    using ok(2) new by (auto simp: set_update_where refs_ok_def commit_refs_def)
  then have "refs_ok db'" using ok(2) by (simp add: db' refs_defs)
  moreover have "fts_ok db'" using ok(3) by (simp add: db' fts_ok_def)
  moreover have "heads_ok db'"
    using ok(4) assms(3) by (auto simp: db' heads_ok_def commit_ok_def set_update_where)
  moreover have "candidate_ok db' cb" if cb: "cb \<in> set (candidate_t db)" for cb
  proof -
    have kept: "b \<in> set (branch_t db')" if "b \<in> set (branch_t db)" "br_id b = cb_branch_id cb" for b
    proof -
      have "\<not> hit b" using that assms(4) [OF that(1) _ cb] by auto
      with that(1) show ?thesis by (auto simp: db' set_update_where image_iff)
    qed
    have "candidate_ok db cb" using ok(5) cb by blast
    then show ?thesis
      by (rule candidate_mono [where db = db and db' = db'])
        (use kept in \<open>simp_all add: db' del: update_where_append\<close>)
  qed
  moreover have "scopes_ok X db'" by (rule scopes_same [OF ok(7)]) (simp_all add: db')
  moreover have "mainline_ok db'" using ok(6) by (simp add: db' mainline_ok_def)
  ultimately show "project_ok X db'" by (simp add: project_ok_def db')
qed

lemma project_heads_ok:
  assumes "project_ok X db" and db': "db' = db\<lparr>project_t := update_where hit upd (project_t db)\<rparr>"
    and "\<And>p. hit p \<Longrightarrow> pr_id (upd p) = pr_id p \<and> pr_head_commit_id (upd p) = Some cid"
    and "\<And>p. p \<in> set (project_t db) \<Longrightarrow> hit p \<Longrightarrow> commit_ok db cid (pr_id p)"
    and "cid \<notin> cb_commit_id ` set (candidate_t db)"
  shows "project_ok X db'"
proof -
  note ok = project_okD [OF assms(1)]
  have "keys_ok db'" using ok(1) assms(3) by (simp add: db' keys_ok_def)
  moreover have "refs_ok db'" using ok(2) assms(3) by (simp add: db' refs_defs)
  moreover have "fts_ok db'" using ok(3) by (simp add: db' fts_ok_def)
  moreover have "heads_ok db'"
    using ok(4) assms(3,4) by (auto simp: db' heads_ok_def commit_ok_def set_update_where)
  moreover have "\<forall>cb \<in> set (candidate_t db'). candidate_ok db' cb"
    by (rule candidates_mono [OF ok(5)]) (simp_all add: db')
  moreover have "scopes_ok X db'" by (rule scopes_same [OF ok(7)]) (simp_all add: db')
  moreover have "mainline_ok db'"
    using ok(6) assms(3,5) by (auto simp: db' mainline_ok_def set_update_where)
  ultimately show "project_ok X db'" by (simp add: project_ok_def)
qed

lemma update_project_head_ok:
  assumes "project_ok X db" and "update_project_head cid f tm hit db = Inr (n, db')"
    and "\<And>p. p \<in> set (project_t db) \<Longrightarrow> hit p \<Longrightarrow> commit_ok db cid (pr_id p)"
    and "cid \<notin> cb_commit_id ` set (candidate_t db)"
  shows "project_ok X db'"
proof -
  let ?upd = "\<lambda>p. p\<lparr>pr_head_commit_id := Some cid, pr_revision := f (pr_revision p), pr_updated_at := tm\<rparr>"
  have db': "db' = db\<lparr>project_t := update_where hit ?upd (project_t db)\<rparr>"
    using assms(2) by (auto simp: update_project_head_def result_simps)
  show "project_ok X db'"
    by (rule project_heads_ok [OF assms(1) db' _ assms(3,4)]) simp_all
qed

end
