(* ===== verification/StoreRuns.thy ===== *)
theory StoreRuns
  imports StoreStatements ReviewLog
begin

text \<open>
  The tables of operations and reviews within the invariant of the store: what a persisted
  bundle and a review event may change without breaking a reference or a candidate branch.
\<close>

text \<open>The tables of projects, documents and commits are as they were.\<close>

definition same_project_tables :: "Database \<Rightarrow> Database \<Rightarrow> bool" where
  "same_project_tables db db' \<longleftrightarrow>
     project_t db' = project_t db \<and> document_t db' = document_t db \<and> block_t db' = block_t db
     \<and> block_fts_t db' = block_fts_t db \<and> commit_node_t db' = commit_node_t db
     \<and> commit_parent_t db' = commit_parent_t db \<and> branch_t db' = branch_t db
     \<and> edit_journal_t db' = edit_journal_t db \<and> change_set_t db' = change_set_t db
     \<and> snapshot_t db' = snapshot_t db \<and> style_t db' = style_t db \<and> summary_t db' = summary_t db
     \<and> invalidation_t db' = invalidation_t db \<and> knowledge_t db' = knowledge_t db
     \<and> candidate_t db' = candidate_t db"

text \<open>Reviews and runs keep their identity: the run of a proposal, the project of a run.\<close>

definition same_reviews :: "Database \<Rightarrow> Database \<Rightarrow> bool" where
  "same_reviews db db' \<longleftrightarrow>
     (\<forall>h \<in> set (review_head_t db). \<exists>h' \<in> set (review_head_t db').
        rh_proposal_id h' = rh_proposal_id h \<and> rh_run_id h' = rh_run_id h)
     \<and> (\<forall>r \<in> set (run_t db). \<exists>r' \<in> set (run_t db').
          ror_id r' = ror_id r \<and> ror_project_id r' = ror_project_id r)"

lemma commit_ok_project: "commit_ok db c p \<Longrightarrow> refs_ok db \<Longrightarrow> c \<in> cn_id ` set (commit_node_t db) \<and> p \<in> pr_id ` set (project_t db)"
  by (auto simp: commit_ok_def refs_ok_def project_refs_def)

lemma op_side_refs:
  assumes "refs_ok db" and "op_ok db'" and same: "same_project_tables db db'" and "same_reviews db db'"
  shows "refs_ok db'"
proof -
  have c: "c \<in> cn_id ` set (commit_node_t db) \<and> p \<in> pr_id ` set (project_t db)"
    if "commit_ok db' c p" for c p
    using commit_ok_project [OF _ assms(1), of c p] that same
    by (simp add: commit_ok_def same_project_tables_def)
  have packets: "cp_project_id ` set (packet_t db') \<subseteq> pr_id ` set (project_t db)"
    "cp_base_commit_id ` set (packet_t db') \<subseteq> cn_id ` set (commit_node_t db)"
    using assms(2) c by (auto simp: op_ok_def)
  have run: "commit_ok db' (ror_base_commit_id r) (ror_project_id r)" "packet_bound db' r"
    if "r \<in> set (run_t db')" for r
    using assms(2) that by (auto simp: op_ok_def run_ok_def)
  have runs: "ror_project_id ` set (run_t db') \<subseteq> pr_id ` set (project_t db)"
    "ror_base_commit_id ` set (run_t db') \<subseteq> cn_id ` set (commit_node_t db)"
    using c [OF run(1)] by auto
  have bound: "Option.these (ror_context_packet_id ` set (run_t db')) \<subseteq> cp_id ` set (packet_t db')"
  proof
    fix k assume "k \<in> Option.these (ror_context_packet_id ` set (run_t db'))"
    then obtain r where "r \<in> set (run_t db')" "ror_context_packet_id r = Some k"
      by (auto simp: in_these_eq)
    with run(2) [of r] show "k \<in> cp_id ` set (packet_t db')" by (auto simp: packet_bound_def)
  qed
  have heads: "rh_proposal_id ` set (review_head_t db) \<subseteq> rh_proposal_id ` set (review_head_t db')"
    using assms(4) unfolding same_reviews_def by (metis image_subsetI image_eqI)
  have "cb_proposal_id ` set (candidate_t db) \<subseteq> rh_proposal_id ` set (review_head_t db)"
    using assms(1) by (simp add: refs_ok_def run_refs_def)
  then have candidates: "cb_proposal_id ` set (candidate_t db) \<subseteq> rh_proposal_id ` set (review_head_t db')"
    using heads by (rule subset_trans)
  have "project_refs db'" using assms(1) same packets(1) runs(1)
    by (simp add: refs_ok_def project_refs_def same_project_tables_def)
  moreover have "commit_refs db'" using assms(1) same packets(2) runs(2)
    by (simp add: refs_ok_def commit_refs_def same_project_tables_def)
  moreover have "row_refs db'" using assms(1) same
    by (simp add: refs_ok_def row_refs_def same_project_tables_def)
  moreover have "run_refs db'" using assms(2) same bound candidates
    by (simp add: run_refs_def op_ok_def op_refs_def same_project_tables_def)
  ultimately show ?thesis by (simp add: refs_ok_def)
qed

lemma op_side_candidate:
  assumes "candidate_ok db cb" and "cb_proposal_id cb \<in> rh_proposal_id ` set (review_head_t db)"
    and "op_refs db" and "op_keys db'" and same: "same_project_tables db db'" "same_reviews db db'"
  shows "candidate_ok db' cb"
proof -
  from assms(2) obtain h where h: "h \<in> set (review_head_t db)" "rh_proposal_id h = cb_proposal_id cb"
    by (metis imageE)
  have "rh_run_id h \<in> ror_id ` set (run_t db)" using assms(3) h(1) by (auto simp: op_refs_def)
  then obtain r where r: "r \<in> set (run_t db)" "ror_id r = rh_run_id h" by (metis imageE)
  from same(2) h(1) obtain h' where h': "h' \<in> set (review_head_t db')"
    "rh_proposal_id h' = rh_proposal_id h" "rh_run_id h' = rh_run_id h"
    unfolding same_reviews_def by blast
  from same(2) r(1) obtain r' where r': "r' \<in> set (run_t db')" "ror_id r' = ror_id r"
    "ror_project_id r' = ror_project_id r"
    unfolding same_reviews_def by blast
  have only: "ror_project_id y = ror_project_id r"
    if x: "x \<in> set (review_head_t db')" "rh_proposal_id x = cb_proposal_id cb"
      and y: "y \<in> set (run_t db')" "ror_id y = rh_run_id x" for x y
  proof -
    have "x = h'" using key_eqD [of rh_proposal_id "review_head_t db'" h' x] assms(4) x h' h(2)
      by (simp add: op_keys_def)
    then have "y = r'" using key_eqD [of ror_id "run_t db'" r' y] assms(4) y h' r' r(2)
      by (simp add: op_keys_def)
    with r'(3) show ?thesis by simp
  qed
  from assms(1) h r obtain b cm s where
    "b \<in> set (branch_t db)" "br_id b = cb_branch_id cb" "br_project_id b = ror_project_id r"
    "br_head_commit_id b = cb_commit_id cb"
    "cm \<in> set (commit_node_t db)" "cn_id cm = cb_commit_id cb" "cn_project_id cm = ror_project_id r"
    "s \<in> set (snapshot_t db)" "snr_id s = cb_snapshot_id cb" "snr_project_id s = ror_project_id r"
    "snr_commit_id s = cb_commit_id cb" "snr_root_hash s = cn_root_hash cm"
    unfolding candidate_ok_def by metis
  with only same(1) show ?thesis
    unfolding candidate_ok_def same_project_tables_def
    by (intro exI [of _ "ror_project_id r"] conjI) (blast | metis)+
qed

lemma op_side_project_ok:
  assumes "project_ok X db" and "op_refs db" and "op_ok db'"
    and same: "same_project_tables db db'" "same_reviews db db'"
  shows "project_ok X db'"
proof -
  note ok = project_okD [OF assms(1)]
  have "keys_ok db'" "fts_ok db'" "heads_ok db'" "mainline_ok db'"
    using ok(1,3,4,6) same(1)
    by (simp_all add: same_project_tables_def keys_ok_def fts_ok_def heads_ok_def commit_ok_def mainline_ok_def)
  moreover have "refs_ok db'" by (rule op_side_refs [OF ok(2) assms(3) same])
  moreover have "candidate_ok db' cb" if "cb \<in> set (candidate_t db')" for cb
  proof -
    have cb: "cb \<in> set (candidate_t db)" using that same(1) by (simp add: same_project_tables_def)
    then have "cb_proposal_id cb \<in> rh_proposal_id ` set (review_head_t db)"
      using ok(2) by (auto simp: refs_ok_def run_refs_def)
    with ok(5) cb assms(2,3) op_side_candidate [OF _ _ _ _ same] show ?thesis
      by (simp add: op_ok_def)
  qed
  moreover have "scopes_ok X db'"
    by (rule scopes_same [OF ok(7)]) (use same(1) in \<open>simp_all add: same_project_tables_def\<close>)
  ultimately show ?thesis by (simp add: project_ok_def)
qed

section \<open>Review events and bundles\<close>

lemma after_event_same:
  "same_project_tables db (after_event c h db)" "same_reviews db (after_event c h db)"
proof -
  show "same_project_tables db (after_event c h db)"
    by (simp add: same_project_tables_def after_event_def run_rows_def event_rows_def)
  have "\<exists>y \<in> (\<lambda>x. if q x then f x else x) ` A. key y = key x"
    if "x \<in> A" "\<And>x. key (f x) = key x" for q f x A and key :: "'a \<Rightarrow> string \<times> string"
    using that by (intro bexI [of _ "if q x then f x else x"]) auto
  note moved = this [of _ _ "\<lambda>h. (rh_proposal_id h, rh_run_id h)"]
    this [of _ _ "\<lambda>r. (ror_id r, ror_project_id r)"]
  have "\<exists>r' \<in> set (run_t (after_event c h db)). ror_id r' = ror_id r \<and> ror_project_id r' = ror_project_id r"
    if "r \<in> set (run_t db)" for r
    using that moved(2) [OF that, of "moved_run c" "\<lambda>r. ror_id r = rh_run_id h"]
    by (auto simp: after_event_runs set_update_where moved_run_def)
  moreover have "\<exists>x' \<in> set (review_head_t (after_event c h db)).
      rh_proposal_id x' = rh_proposal_id x \<and> rh_run_id x' = rh_run_id x"
    if "x \<in> set (review_head_t db)" for x
    using moved(1) [OF that, of "next_head c" "\<lambda>x. rh_proposal_id x = rh_proposal_id h"]
    by (simp add: set_update_where)
  ultimately show "same_reviews db (after_event c h db)" by (simp add: same_reviews_def)
qed

lemma review_event_ok:
  assumes "project_ok X db" and "op_ok db"
    and "append_review_event_in_transaction env c db = Inr (s, db')"
  shows "project_ok X db'" and "op_ok db'" and "same_project_tables db db'"
proof -
  from assms(3) obtain h where h: "event_accepted env c h db" "db' = after_event c h db"
    by (auto simp: append_iff [OF assms(2)])
  show ok: "op_ok db'" using after_event_ok [OF assms(2) h(1)] h(2) by simp
  have refs: "op_refs db" using assms(2) by (simp add: op_ok_def)
  show "project_ok X db'"
    by (rule op_side_project_ok [OF assms(1) refs ok]) (simp_all add: h(2) after_event_same)
  show "same_project_tables db db'" by (simp add: h(2) after_event_same)
qed

lemma bundle_rows_same:
  "same_project_tables db (bundle_rows b db)" "same_reviews db (bundle_rows b db)"
  by (auto simp: same_project_tables_def same_reviews_def bundle_rows_def Let_def)

lemma bundle_ok:
  assumes "project_ok X db" and "op_ok db" and "validate_bundle env b = Inr ()"
    and "persist_rows env b db = Inr db'"
  shows "project_ok X db'" and "op_ok db'" and "same_project_tables db db'"
proof -
  show ok: "op_ok db'" by (rule persist_rows_op_ok [OF assms(2-4)])
  have db': "db' = bundle_rows b db" by (rule persist_rows_effect(1) [OF assms(4)])
  have refs: "op_refs db" using assms(2) by (simp add: op_ok_def)
  show "project_ok X db'"
    by (rule op_side_project_ok [OF assms(1) refs ok]) (simp_all add: db' bundle_rows_same)
  show "same_project_tables db db'" by (simp add: db' bundle_rows_same)
qed

end
