(* ===== verification/StoreOperations.thy ===== *)
theory StoreOperations
  imports StoreRuns
begin

text \<open>
  Every operation on projects, documents, commits and snapshots keeps the invariant of the
  store. A chain of statements is followed from state to state: each keeps \<open>project_ok\<close>, and
  what a statement established (a commit of the project, an active document) is still
  there for the statements after it.
\<close>

section \<open>Shared steps\<close>

lemma keys_find:
  "keys_ok db \<Longrightarrow> find_by br_id i (branch_t db) = Some b \<longleftrightarrow> b \<in> set (branch_t db) \<and> br_id b = i"
  "keys_ok db \<Longrightarrow> find_by pr_id i (project_t db) = Some p \<longleftrightarrow> p \<in> set (project_t db) \<and> pr_id p = i"
  "keys_ok db \<Longrightarrow> find_by doc_id i (document_t db) = Some d \<longleftrightarrow> d \<in> set (document_t db) \<and> doc_id d = i"
  "keys_ok db \<Longrightarrow> find_by blk_id i (block_t db) = Some k \<longleftrightarrow> k \<in> set (block_t db) \<and> blk_id k = i"
  by (simp_all add: keys_ok_def find_by_Some_iff)

lemma read_branch_head_Inr_iff [result_simps]:
  "read_branch_head i db = Inr (p, h, r) \<longleftrightarrow>
     (\<exists>b q. find_by br_id i (branch_t db) = Some b \<and> br_project_id b = p \<and> br_head_commit_id b = h
        \<and> find_by pr_id p (project_t db) = Some q \<and> pr_revision q = r)"
  by (auto simp: read_branch_head_def result_simps Option.bind_eq_Some_conv)

lemma expect_head_Inr_iff [result_simps]:
  "expect_head i eh er h r = Inr u \<longleftrightarrow> h = eh \<and> r = er"
  by (auto simp: expect_head_def result_simps)

lemma enqueue_ok:
  assumes "project_ok X db" and "enqueue_summary_invalidation p ty i cid reason tm db = Inr db'"
    and "commit_ok db cid p" and "scope_active db (p, ty, i)"
  shows "project_ok X db'" and "extends db db'"
  using upsert_invalidation_ok [OF assms(1)] assms(2-4)
  by (simp_all add: enqueue_summary_invalidation_def invalidation_scope_def)

lemma enqueue_all_ok:
  assumes "project_ok X db"
    and "foldM (\<lambda>(ty, i). enqueue_summary_invalidation p ty i cid reason tm) ss db = Inr db'"
    and "commit_ok db cid p" and "\<And>ty i. (ty, i) \<in> set ss \<Longrightarrow> scope_active db (p, ty, i)"
  shows "project_ok X db' \<and> extends db db'"
  using assms
proof (induction ss arbitrary: db)
  case (Cons s ss)
  obtain ty i where s: "s = (ty, i)" by (cases s)
  from Cons.prems(2) s obtain db1 where
    step: "enqueue_summary_invalidation p ty i cid reason tm db = Inr db1"
    and rest: "foldM (\<lambda>(ty, i). enqueue_summary_invalidation p ty i cid reason tm) ss db1 = Inr db'"
    by (auto simp: result_simps)
  note one = enqueue_ok [OF Cons.prems(1) step Cons.prems(3)]
  have act: "scope_active db (p, ty, i)" using Cons.prems(4) s by simp
  have "project_ok X db' \<and> extends db1 db'"
    using Cons.IH [OF one(1) [OF act] rest grows_commit_ok [OF extends_grows [OF one(2) [OF act]] Cons.prems(3)]]
      Cons.prems(4) extends_scope [OF one(2) [OF act]] by auto
  with extends_trans [OF one(2) [OF act]] show ?case by blast
qed (simp add: extends_refl)

lemma active_new_document:
  assumes "insert_document d db = Inr db'" and "doc_deleted_at d = None"
  shows "scope_active db' (doc_project_id d, ''document'', doc_id d)"
  using documents.ins_rows [OF assms(1)] assms(2) by (auto simp: scope_active.simps active_document_def)

lemma active_new_block:
  assumes "insert_block env b db = Inr db'" and "blk_deleted_at b = None"
    and "scope_active db (p, ''document'', blk_document_id b)"
  shows "scope_active db' (p, ''block'', blk_id b)"
proof -
  have "document_t db' = document_t db" using assms(1) by (auto simp: insert_block_def result_simps)
  with blocks.ins_rows [OF assms(1)] assms(2,3) show ?thesis
    by (auto simp: scope_active.simps active_document_def active_block_def)
qed

lemma rows_where_one: "rows_where P rows = 1 \<Longrightarrow> \<exists>r \<in> set rows. P r"
  by (metis rows_where_0_iff zero_neq_one)

text \<open>A branch whose head is the head of a project is no candidate branch.\<close>

lemma mainline_branch:
  assumes "project_ok X db" and "b \<in> set (branch_t db)" and "q \<in> set (project_t db)"
    and "pr_head_commit_id q = Some (br_head_commit_id b)" and "cb \<in> set (candidate_t db)"
  shows "cb_branch_id cb \<noteq> br_id b"
proof
  note ok = project_okD [OF assms(1)]
  assume eq: "cb_branch_id cb = br_id b"
  from ok(5) assms(5) obtain b' where "b' \<in> set (branch_t db)" "br_id b' = cb_branch_id cb"
    "br_head_commit_id b' = cb_commit_id cb"
    unfolding candidate_ok_def by blast
  moreover from this(1,2) eq assms(2) have "b' = b"
    using ok(1) by (auto simp: keys_ok_def dest: key_eqD)
  ultimately show False using ok(6) assms(3,4,5) by (auto simp: mainline_ok_def)
qed

text \<open>
  Moving the heads of a branch and of its project to a new commit. When the project must be
  on the head of the branch, the branch cannot be a candidate branch.
\<close>

lemma move_heads_ok:
  assumes "project_ok X db"
    and branch: "update_branch_head cid tm (\<lambda>b. br_id b = i \<and> br_head_commit_id b = h) db = Inr (1, db1)"
    and proj: "update_project_head cid f tm hit db1 = Inr (1, db2)" and "\<And>q. hit q \<Longrightarrow> pr_id q = p"
    and "\<And>b. b \<in> set (branch_t db) \<Longrightarrow> br_id b = i \<Longrightarrow> br_project_id b = p"
    and "commit_ok db cid p" and "cid \<notin> cb_commit_id ` set (candidate_t db)"
    and "i \<notin> cb_branch_id ` set (candidate_t db)"
  shows "project_ok X db2" and "same_op_tables db db2" and "commit_node_t db2 = commit_node_t db"
proof -
  have hit_ok: "commit_ok db cid (br_project_id b)"
    if "b \<in> set (branch_t db)" "br_id b = i \<and> br_head_commit_id b = h" for b
    unfolding assms(5) [OF that(1) conjunct1 [OF that(2)]] by (rule assms(6))
  have other: "cb_branch_id cb \<noteq> br_id b"
    if "b \<in> set (branch_t db)" "br_id b = i \<and> br_head_commit_id b = h" "cb \<in> set (candidate_t db)" for b cb
  proof
    assume "cb_branch_id cb = br_id b"
    then have "i \<in> cb_branch_id ` set (candidate_t db)"
      using that(3) unfolding conjunct1 [OF that(2)] by (intro image_eqI) (rule sym)
    then show False using assms(8) by (rule notE [rotated])
  qed
  have one: "project_ok X db1" by (rule update_branch_head_ok [OF assms(1) branch hit_ok other])
  note frame1 = update_branch_head_frame [OF branch] and frame2 = update_project_head_frame [OF proj]
  have "commit_ok db1 cid p" using assms(6) frame1(2) by (simp add: commit_ok_def)
  then have 1: "commit_ok db1 cid (pr_id q)" if "hit q" for q
    unfolding assms(4) [OF that] .
  have 2: "cid \<notin> cb_commit_id ` set (candidate_t db1)" using assms(7) frame1(4) by simp
  show "project_ok X db2" by (rule update_project_head_ok [OF one proj 1 2])
  from frame1(1,2) frame2(1,2) show "same_op_tables db db2" "commit_node_t db2 = commit_node_t db"
    by (simp_all add: same_op_tables_def)
qed

lemma move_heads_guarded_ok:
  assumes "project_ok X db"
    and branch: "update_branch_head cid tm (\<lambda>b. br_id b = i \<and> br_head_commit_id b = h) db = Inr (1, db1)"
    and proj: "update_project_head cid f tm
      (\<lambda>q. pr_id q = p \<and> pr_head_commit_id q = Some h \<and> pr_revision q = r) db1 = Inr (1, db2)"
    and "\<And>b. b \<in> set (branch_t db) \<Longrightarrow> br_id b = i \<Longrightarrow> br_project_id b = p"
    and "commit_ok db cid p" and "cid \<notin> cb_commit_id ` set (candidate_t db)"
  shows "project_ok X db2" and "same_op_tables db db2" and "commit_node_t db2 = commit_node_t db"
proof -
  have rows: "project_t db1 = project_t db"
    "rows_where (\<lambda>b. br_id b = i \<and> br_head_commit_id b = h) (branch_t db) = 1"
    "rows_where (\<lambda>q. pr_id q = p \<and> pr_head_commit_id q = Some h \<and> pr_revision q = r) (project_t db1) = 1"
    using branch proj by (auto simp: update_branch_head_def update_project_head_def result_simps)
  from rows_where_one [OF rows(3)] rows(1)
  obtain q where q: "q \<in> set (project_t db)" "pr_head_commit_id q = Some h" by auto
  from rows_where_one [OF rows(2)]
  obtain b where b: "b \<in> set (branch_t db)" "br_id b = i" "br_head_commit_id b = h" by auto
  have other: "cb_branch_id cb \<noteq> i" if "cb \<in> set (candidate_t db)" for cb
    using mainline_branch [OF assms(1) b(1) q(1) _ that] q(2) b(2,3) by simp
  have "i \<notin> cb_branch_id ` set (candidate_t db)"
  proof
    assume "i \<in> cb_branch_id ` set (candidate_t db)"
    then obtain cb where "cb \<in> set (candidate_t db)" "i = cb_branch_id cb" by (rule imageE)
    with other [of cb] show False by simp
  qed
  note moved = move_heads_ok [OF assms(1) branch proj _ assms(4) assms(5,6) this]
  show "project_ok X db2" by (rule moved(1)) (erule conjunct1)
  show "same_op_tables db db2" by (rule moved(2)) (erule conjunct1)
  show "commit_node_t db2 = commit_node_t db" by (rule moved(3)) (erule conjunct1)
qed

section \<open>Block revisions and the journal\<close>

lemma latest_revision_fresh:
  "refs_ok db \<Longrightarrow> k \<notin> blk_id ` set (block_t db) \<Longrightarrow> latest_revision db k = 0"
  unfolding latest_revision_def refs_ok_def row_refs_def
  by (subst filter_owner_Nil) auto

lemma insert_block_revisions:
  assumes "revisions_ok db" and "refs_ok db" and "insert_block env b db = Inr db'" and "blk_revision b = 0"
  shows "revisions_ok db'"
proof -
  have tables: "block_t db' = block_t db @ [b]" "edit_journal_t db' = edit_journal_t db"
    and fresh: "blk_id b \<notin> blk_id ` set (block_t db)"
    using assms(3) by (auto simp: insert_block_def result_simps)
  have "latest_revision db' k = latest_revision db k" for k by (simp add: latest_revision_def tables)
  with assms(1,4) latest_revision_fresh [OF assms(2) fresh] show ?thesis
    by (simp add: revisions_ok_def tables)
qed

lemma latest_revision_snoc:
  assumes "edit_journal_t db' = edit_journal_t db @ [e]"
    and "ej_new_revision e = latest_revision db (ej_block_id e) + 1"
  shows "latest_revision db' k = (if k = ej_block_id e then ej_new_revision e else latest_revision db k)"
proof -
  let ?own = "map ej_new_revision (filter (\<lambda>x. ej_block_id x = ej_block_id e) (edit_journal_t db))"
  have "coalesce (sql_max (xs @ [n])) 0 = n" if "n = coalesce (sql_max xs) 0 + 1" for xs and n :: int
    using that by (cases "xs = []") (simp_all add: sql_max_def max_def)
  from this [of "ej_new_revision e" ?own]
  have "coalesce (sql_max (?own @ [ej_new_revision e])) 0 = ej_new_revision e"
    using assms(2) by (simp only: latest_revision_def)
  then show ?thesis by (auto simp: latest_revision_def assms(1))
qed

lemma journaled_update_revisions:
  assumes "revisions_ok db" and "keys_ok db"
    and "update_block env upd hit db = Inr (1, db1)" and "insert_edit_journal env e db1 = Inr db2"
    and "\<And>b. hit b \<Longrightarrow> blk_id b = ej_block_id e \<and> blk_revision b = ej_base_revision e"
    and "\<And>b. hit b \<Longrightarrow> blk_id (upd b) = blk_id b \<and> blk_revision (upd b) = ej_base_revision e + 1"
  shows "revisions_ok db2"
proof -
  have tables: "block_t db2 = update_where hit upd (block_t db)"
    "edit_journal_t db1 = edit_journal_t db" "edit_journal_t db2 = edit_journal_t db1 @ [e]"
    and new: "ej_new_revision e = ej_base_revision e + 1" and n: "length (filter hit (block_t db)) = 1"
    using assms(3,4) by (auto simp: update_block_def insert_edit_journal_def Let_def result_simps)
  from n obtain b where b: "b \<in> set (block_t db)" "hit b"
    by (metis filter_empty_conv list.size(3) zero_neq_one)
  have only: "x = b" if "x \<in> set (block_t db)" "blk_id x = ej_block_id e" for x
    using key_eqD [of blk_id "block_t db" b x] assms(2,5) b that by (auto simp: keys_ok_def)
  have same: "latest_revision db1 k = latest_revision db k" for k
    by (simp add: latest_revision_def tables(2))
  have "ej_new_revision e = latest_revision db1 (ej_block_id e) + 1"
    using assms(1,5) b new by (simp add: revisions_ok_def same) metis
  note latest = latest_revision_snoc [OF tables(3) this, unfolded same]
  have "blk_revision (if hit x then upd x else x) = latest_revision db2 (blk_id (if hit x then upd x else x))"
    if x: "x \<in> set (block_t db)" for x
  proof (cases "hit x")
    case True
    with assms(5,6) [of x] new show ?thesis by (simp add: latest)
  next
    case False
    with only [OF x] b(2) have "blk_id x \<noteq> ej_block_id e" by auto
    with False x assms(1) show ?thesis by (simp add: latest revisions_ok_def)
  qed
  then have "\<forall>y \<in> (\<lambda>x. if hit x then upd x else x) ` set (block_t db).
      blk_revision y = latest_revision db2 (blk_id y)"
    by (simp only: ball_simps) blast
  then show ?thesis by (simp only: revisions_ok_def tables set_update_where)
qed

section \<open>From the parts to the whole invariant\<close>

lemma store_okD:
  assumes "store_ok db"
  shows "project_ok {} db" and "revisions_ok db" and "op_ok db"
  using assms by (simp_all add: store_ok_def)

lemma store_okI:
  assumes "store_ok db" and "project_ok {} db'" and "revisions_ok db'"
    and "same_op_tables db db'" and "set (commit_node_t db) \<subseteq> set (commit_node_t db')"
  shows "store_ok db'"
proof -
  have "distinct (map cn_id (commit_node_t db'))"
    using assms(2) by (simp add: project_ok_def keys_ok_def)
  from op_ok_frame [OF store_okD(3) [OF assms(1)] assms(4,5) this] assms(2,3) show ?thesis
    by (simp add: store_ok_def)
qed

text \<open>The statements that leave the blocks and the journal alone.\<close>

definition same_blocks :: "Database \<Rightarrow> Database \<Rightarrow> bool" where
  "same_blocks db db' \<longleftrightarrow> block_t db' = block_t db \<and> edit_journal_t db' = edit_journal_t db"

lemma same_blocks_trans [trans]: "same_blocks db db' \<Longrightarrow> same_blocks db' db'' \<Longrightarrow> same_blocks db db''"
  by (simp add: same_blocks_def)

lemma same_blocks_revisions: "revisions_ok db \<Longrightarrow> same_blocks db db' \<Longrightarrow> revisions_ok db'"
  by (simp add: same_blocks_def revisions_frame)

lemma same_blocks_statements:
  "insert_document d db = Inr db' \<Longrightarrow> same_blocks db db'"
  "insert_project p db = Inr db' \<Longrightarrow> same_blocks db db'"
  "insert_commit cm db = Inr db' \<Longrightarrow> same_blocks db db'"
  "insert_commit_parent cp db = Inr db' \<Longrightarrow> same_blocks db db'"
  "insert_change_set ch db = Inr db' \<Longrightarrow> same_blocks db db'"
  "insert_branch b db = Inr db' \<Longrightarrow> same_blocks db db'"
  "insert_snapshot s db = Inr db' \<Longrightarrow> same_blocks db db'"
  "insert_candidate cb db = Inr db' \<Longrightarrow> same_blocks db db'"
  "update_document upd hit db = Inr (n, db') \<Longrightarrow> same_blocks db db'"
  "update_branch_head cid tm bhit db = Inr (n, db') \<Longrightarrow> same_blocks db db'"
  "update_project_head cid f tm phit db = Inr (n, db') \<Longrightarrow> same_blocks db db'"
  "enqueue_summary_invalidation pid ty i cid reason tm db = Inr db' \<Longrightarrow> same_blocks db db'"
  by (auto simp: same_blocks_def insert_document_def insert_project_def insert_commit_def
      insert_commit_parent_def insert_change_set_def insert_branch_def insert_snapshot_def
      insert_candidate_def update_document_def update_branch_head_def update_project_head_def
      enqueue_summary_invalidation_def upsert_invalidation_def Let_def result_simps)

lemma foldM_rel:
  assumes "foldM f xs db = Inr db'" and "\<And>x db db'. f x db = Inr db' \<Longrightarrow> R db db'"
    and "\<And>db. R db db" and "\<And>db db' db''. R db db' \<Longrightarrow> R db' db'' \<Longrightarrow> R db db''"
  shows "R db db'"
  using assms(1) by (induction xs arbitrary: db) (auto simp: result_simps intro: assms(2-4))

lemma same_blocks_fold:
  assumes "foldM f xs db = Inr db'" and "\<And>x db db'. f x db = Inr db' \<Longrightarrow> same_blocks db db'"
  shows "same_blocks db db'"
  by (rule foldM_rel [OF assms]) (auto simp: same_blocks_def)

text \<open>
  The end of every change of a project: the commit is recorded, its parent and its changes
  are, and the heads of the branch and of the project move to it.
\<close>

lemma change_sets_ok:
  assumes "project_ok X db" and "foldM insert_change_set rows db = Inr db'"
  shows "project_ok X db' \<and> extends db db'"
  using assms
proof (induction rows arbitrary: db)
  case (Cons r rows)
  then obtain db1 where "insert_change_set r db = Inr db1" "foldM insert_change_set rows db1 = Inr db'"
    by (auto simp: result_simps)
  with insert_change_set_ok [OF Cons.prems(1)] Cons.IH show ?case
    by (meson extends_trans)
qed (simp add: extends_refl)

lemma extends_frame:
  assumes "extends db db'"
  shows "same_op_tables db db'" and "set (commit_node_t db) \<subseteq> set (commit_node_t db')"
    and "set (branch_t db) \<subseteq> set (branch_t db')" and "candidate_t db' = candidate_t db"
    and "set (project_t db) \<subseteq> set (project_t db')"
  using assms by (simp_all add: extends_def grows_def)

lemma same_op_tables_trans [trans]:
  "same_op_tables db db' \<Longrightarrow> same_op_tables db' db'' \<Longrightarrow> same_op_tables db db''"
  by (simp add: same_op_tables_def)

lemma branch_project:
  assumes "keys_ok db" and "b \<in> set (branch_t db)" and "x \<in> set (branch_t db)" and "br_id x = br_id b"
  shows "br_project_id x = br_project_id b"
  using key_eqD [of br_id "branch_t db" b x] assms by (simp add: keys_ok_def)

text \<open>What every change of a project ends with: its parent, its change set and the heads.\<close>

lemma record_change:
  assumes "project_ok X d" and b: "b \<in> set (branch_t d)" "br_project_id b = p"
    and commit: "commit_ok d cid p" "cid \<notin> cb_commit_id ` set (candidate_t d)"
    and s1: "insert_commit_parent pa d = Inr d1" and s2: "foldM insert_change_set rows d1 = Inr d2"
    and s3: "update_branch_head cid tm (\<lambda>x. br_id x = br_id b \<and> br_head_commit_id x = h) d2 = Inr (1, d3)"
    and s4: "update_project_head cid f tm hit d3 = Inr (1, d')"
    and hit: "\<And>q. hit q \<Longrightarrow> pr_id q = p"
    and main: "br_id b \<notin> cb_branch_id ` set (candidate_t d)
      \<or> hit = (\<lambda>q. pr_id q = p \<and> pr_head_commit_id q = Some h \<and> pr_revision q = r)"
  shows "project_ok X d'" and "same_op_tables d d'" and "set (commit_node_t d) \<subseteq> set (commit_node_t d')"
    and "same_blocks d d'"
proof -
  note one = insert_commit_parent_ok [OF assms(1) s1]
  note two = change_sets_ok [OF one(1) s2]
  have ext: "extends d d2" using one(2) two extends_trans by blast
  note frame = extends_frame [OF ext]
  have b2: "b \<in> set (branch_t d2)" using b(1) frame(3) by blast
  have keys: "keys_ok d2" using two by (simp add: project_ok_def)
  have proj: "br_project_id x = p" if "x \<in> set (branch_t d2)" "br_id x = br_id b" for x
    using branch_project [OF keys b2 that] b(2) by simp
  have c2: "commit_ok d2 cid p" "cid \<notin> cb_commit_id ` set (candidate_t d2)"
    using grows_commit_ok [OF extends_grows [OF ext] commit(1)] commit(2) frame(4) by simp_all
  have moved: "project_ok X d' \<and> same_op_tables d2 d' \<and> commit_node_t d' = commit_node_t d2"
    using main
  proof
    assume "br_id b \<notin> cb_branch_id ` set (candidate_t d)"
    then have no: "br_id b \<notin> cb_branch_id ` set (candidate_t d2)" by (simp only: frame(4) not_False_eq_True)
    show ?thesis
      using move_heads_ok [OF conjunct1 [OF two] s3 s4 hit proj c2 no] by blast
  next
    assume "hit = (\<lambda>q. pr_id q = p \<and> pr_head_commit_id q = Some h \<and> pr_revision q = r)"
    with move_heads_guarded_ok [OF conjunct1 [OF two] s3 _ proj c2] s4 show ?thesis by blast
  qed
  then show "project_ok X d'" by blast
  from moved frame(1) show "same_op_tables d d'" using same_op_tables_trans by blast
  from moved frame(2) show "set (commit_node_t d) \<subseteq> set (commit_node_t d')" by simp
  have "same_blocks d d2"
    using same_blocks_statements(4) [OF s1] same_blocks_fold [OF s2 same_blocks_statements(5)]
    by (rule same_blocks_trans)
  also have "same_blocks d2 d3" by (rule same_blocks_statements(10) [OF s3])
  also have "same_blocks d3 d'" by (rule same_blocks_statements(11) [OF s4])
  finally show "same_blocks d d'" .
qed

section \<open>Creating a document\<close>

lemma foldM_three: "foldM f [a, b, c] db = Inr db' \<longleftrightarrow>
    (\<exists>db1 db2. f a db = Inr db1 \<and> f b db1 = Inr db2 \<and> f c db2 = Inr db')"
  by (auto simp: result_simps)

lemma create_document_store_ok:
  assumes "store_ok db" and "create_document_with_block env c db = (Inr r, db')"
  shows "store_ok db'"
proof -
  note ok = store_okD [OF assms(1)]
  let ?cid = "cdb_commit_id c" and ?tm = "cdb_occurred_at c" and ?did = "cdb_document_id c"
    and ?h = "cdb_expected_head_commit_id c" and ?rev = "cdb_expected_project_revision c"
  obtain b d1 d2 d3 d4 d5 d6 d7 d8 pa where
    b: "find_by br_id (cdb_branch_id c) (branch_t db) = Some b"
    and s1: "insert_document (created_document c (br_project_id b)) db = Inr d1"
    and s2: "insert_block env (created_block c) d1 = Inr d2"
    and s3: "insert_commit (creation_commit c (br_project_id b)) d2 = Inr d3"
    and s4: "foldM (\<lambda>(scope_type, scope_id). enqueue_summary_invalidation (br_project_id b) scope_type
        scope_id ?cid ''document_create'' ?tm)
        [(''project'', br_project_id b), (''document'', ?did), (''block'', cdb_block_id c)] d3 = Inr d4"
    and s5: "insert_commit_parent pa d4 = Inr d5"
    and s6: "insert_change_set (document_creation c) d5 = Inr d6"
    and s7: "insert_change_set (block_creation c) d6 = Inr d7"
    and s8: "update_branch_head ?cid ?tm (\<lambda>b. br_id b = cdb_branch_id c \<and> br_head_commit_id b = ?h) d7
        = Inr (1, d8)"
    and s9: "update_project_head ?cid (\<lambda>_. ?rev + 1) ?tm
        (\<lambda>q. pr_id q = br_project_id b \<and> pr_head_commit_id q = Some ?h \<and> pr_revision q = ?rev) d8 = Inr (1, db')"
    using assms(2) unfolding create_document_with_block_def
    by (auto simp only: result_simps split_beta fst_conv snd_conv prod.inject)
  have b': "b \<in> set (branch_t db)" "br_id b = cdb_branch_id c"
    using b keys_find(1) [of db] ok(1) by (auto simp: project_ok_def)
  let ?p = "br_project_id b"
  note 1 = insert_document_ok [OF ok(1) s1]
  note 2 = insert_block_ok [OF 1(1) s2]
  note 3 = insert_commit_ok [OF 2(1) s3]
  have doc: "scope_active d1 (?p, ''document'', ?did)"
    using active_new_document [OF s1] by (simp add: created_document_def)
  have blk: "scope_active d2 (?p, ''block'', cdb_block_id c)"
    using active_new_block [OF s2, of ?p] doc by (simp add: created_block_def)
  have scopes: "scope_active d3 (?p, ty, i)"
    if "(ty, i) \<in> set [(''project'', ?p), (''document'', ?did), (''block'', cdb_block_id c)]" for ty i
    using that extends_scope [OF 3(2)] extends_scope [OF 2(2)] doc blk
    by (auto simp: scope_active.simps [of _ _ "''project''"])
  have c3: "commit_ok d3 ?cid ?p" "?cid \<notin> cb_commit_id ` set (candidate_t d3)"
    using 3(3,4) by (simp_all add: creation_commit_def)
  note 4 = enqueue_all_ok [OF 3(1) s4 c3(1) scopes]
  have ext: "extends db d4" using 1(2) 2(2) 3(2) 4 extends_trans by blast
  note frame = extends_frame [OF ext]
  have c4: "commit_ok d4 ?cid ?p" "?cid \<notin> cb_commit_id ` set (candidate_t d4)"
    using grows_commit_ok [OF extends_grows [OF conjunct2 [OF 4]] c3(1)] c3(2) extends_frame(4) [OF conjunct2 [OF 4]]
    by simp_all
  have s67: "foldM insert_change_set [document_creation c, block_creation c] d5 = Inr d7"
    using s6 s7 by simp
  have b4: "b \<in> set (branch_t d4)" using b'(1) frame(3) by blast
  note rec = record_change [OF conjunct1 [OF 4] b4 refl c4 s5 s67 s8 [folded b'(2)] s9 _ disjI2 [OF refl]]
  have "revisions_ok d1" using ok(2) same_blocks_statements(1) [OF s1] by (rule same_blocks_revisions)
  then have "revisions_ok d2"
    using insert_block_revisions [OF _ _ s2] 1(1) by (simp add: project_ok_def created_block_def)
  moreover have "same_blocks d2 d4"
    using same_blocks_statements(3) [OF s3] same_blocks_fold [OF s4]
    by (rule same_blocks_trans) (auto intro: same_blocks_statements(12))
  ultimately have "revisions_ok db'"
    using rec(4) same_blocks_revisions by blast
  with store_okI [OF assms(1) rec(1)] rec(2,3) frame(1,2) show ?thesis
    using same_op_tables_trans by blast
qed

section \<open>Editing a block\<close>

text \<open>What the joined row of a block says: an active block of a document that exists.\<close>

lemma find_joined:
  assumes "keys_ok db" and "List.find (\<lambda>(d, b). P d b) (joined_blocks db) = Some (d, b)"
  shows "P d b" and "d \<in> set (document_t db)" and "b \<in> set (block_t db)" and "doc_id d = blk_document_id b"
proof -
  from assms(2) have hit: "P d b" "(d, b) \<in> set (joined_blocks db)"
    by (auto simp: find_Some_iff in_set_conv_nth)
  from hit(2) have "b \<in> set (block_t db)" "find_by doc_id (blk_document_id b) (document_t db) = Some d"
    by (auto simp: joined_blocks_def map_filter_def)
  with keys_find(3) [OF assms(1)] hit(1) show "P d b" "d \<in> set (document_t db)" "b \<in> set (block_t db)"
    "doc_id d = blk_document_id b"
    by auto
qed

lemma read_block_for_edit_facts:
  assumes "keys_ok db" and "read_block_for_edit i db = Inr e"
  obtains d b where "d \<in> set (document_t db)" "b \<in> set (block_t db)" "doc_id d = eb_document_id e"
    "doc_project_id d = eb_project_id e" "blk_id b = i" "blk_document_id b = eb_document_id e"
    "blk_deleted_at b = None" "blk_revision b = eb_revision e" "blk_content_hash b = eb_content_hash e"
    "blk_locked b = eb_locked e"
proof -
  from assms(2) obtain d b where
    found: "List.find (\<lambda>(d, b). blk_id b = i \<and> blk_deleted_at b = None) (joined_blocks db) = Some (d, b)"
    and e: "e = \<lparr>eb_project_id = doc_project_id d, eb_document_id = blk_document_id b,
          eb_revision = blk_revision b, eb_content_hash = blk_content_hash b,
          eb_content_json = blk_content_json b, eb_plain_text = blk_plain_text b,
          eb_locked = blk_locked b\<rparr>"
    by (auto simp: read_block_for_edit_def result_simps)
  note facts = find_joined [where P = "\<lambda>d b. blk_id b = i \<and> blk_deleted_at b = None", OF assms(1) found]
  show thesis by (rule that [of d b]) (use facts e in auto)
qed

text \<open>A document that a statement bumped is active, and so is its scope.\<close>

lemma bumped_active:
  assumes "bump_document i db = Inr (1, db')" and "d \<in> set (document_t db)" and "doc_id d = i"
    and "keys_ok db"
  shows "scope_active db' (doc_project_id d, ''document'', i)"
proof -
  let ?hit = "\<lambda>d. doc_id d = i \<and> doc_deleted_at d = None"
    and ?upd = "\<lambda>d. d\<lparr>doc_revision := doc_revision d + 1\<rparr>"
  have rows: "document_t db' = update_where ?hit ?upd (document_t db)" "rows_where ?hit (document_t db) = 1"
    using assms(1) by (auto simp: bump_document_def update_document_def Let_def result_simps rows_where_def)
  from rows_where_one [OF rows(2)] obtain x where x: "x \<in> set (document_t db)" "doc_id x = i"
    "doc_deleted_at x = None" by blast
  then have "x = d" using key_eqD [of doc_id "document_t db" d x] assms(2-4) by (simp add: keys_ok_def)
  with x have "\<exists>y \<in> set (document_t db'). doc_id y = i \<and> doc_project_id y = doc_project_id d
      \<and> doc_deleted_at y = None"
    unfolding rows(1) set_update_where by (intro bexI [of _ "?upd x"]) auto
  then show ?thesis by (auto simp: scope_active.simps active_document_def)
qed

lemma project_scope_active: "scope_active db (p, ''project'', p)"
  by (simp add: scope_active.simps)

lemma active_blockI:
  "b \<in> set (block_t db) \<Longrightarrow> blk_id b = i \<Longrightarrow> blk_deleted_at b = None
    \<Longrightarrow> scope_active db (p, ''document'', blk_document_id b) \<Longrightarrow> scope_active db (p, ''block'', i)"
  by (auto simp: scope_active.simps active_block_def active_document_def)

lemma apply_review_ok:
  assumes "project_ok X db" and "op_ok db" and "apply_review env c db = Inr db'"
  shows "project_ok X db' \<and> op_ok db' \<and> same_blocks db db'"
proof (cases "abe_review_event c")
  case (Some e)
  then obtain s where "append_review_event_in_transaction env e db = Inr (s, db')"
    using assms(3) by (auto simp: apply_review_def result_simps)
  note event = review_event_ok [OF assms(1,2) this]
  then show ?thesis by (simp add: same_blocks_def same_project_tables_def)
qed (use assms in \<open>simp add: apply_review_def same_blocks_def\<close>)

lemma update_block_frame:
  assumes "update_block env upd hit db = Inr (n, db')"
  shows "document_t db' = document_t db" and "branch_t db' = branch_t db"
    and "edit_journal_t db' = edit_journal_t db" and "block_t db' = update_where hit upd (block_t db)"
    and "n = rows_where hit (block_t db)"
  using assms by (auto simp: update_block_def Let_def result_simps rows_where_def)

text \<open>The statements of an edit in their order.\<close>

lemma apply_block_edit_steps:
  assumes "apply_block_edit env c db = (Inr r, db')"
  obtains e b d1 d2 d3 d4 d5 d6 d7 d8 d9 pa where
    "read_block_for_edit (abe_block_id c) db = Inr e"
    and "eb_revision e = abe_expected_revision c"
    and "find_by br_id (abe_branch_id c) (branch_t db) = Some b"
    and "br_project_id b = eb_project_id e"
    and "update_block env (edited_block c (eb_revision e + 1)) (edit_hits c) db = Inr (1, d1)"
    and "insert_edit_journal env (edit_entry c e) d1 = Inr d2"
    and "bump_document (eb_document_id e) d2 = Inr (1, d3)"
    and "insert_commit (edit_commit c (eb_project_id e)) d3 = Inr d4"
    and "foldM (\<lambda>(scope_type, scope_id). enqueue_summary_invalidation (eb_project_id e)
        scope_type scope_id (abe_commit_id c) (abe_reason c) (abe_occurred_at c))
        [(''project'', eb_project_id e), (''document'', eb_document_id e), (''block'', abe_block_id c)]
        d4 = Inr d5"
    and "insert_commit_parent pa d5 = Inr d6"
    and "insert_change_set (edit_change c) d6 = Inr d7"
    and "update_branch_head (abe_commit_id c) (abe_occurred_at c) (\<lambda>b. br_id b = abe_branch_id c
        \<and> br_head_commit_id b = abe_expected_head_commit_id c) d7 = Inr (1, d8)"
    and "update_project_head (abe_commit_id c) (\<lambda>r. r + 1) (abe_occurred_at c)
        (\<lambda>q. pr_id q = eb_project_id e) d8 = Inr (1, d9)"
    and "apply_review env c d9 = Inr db'"
  using assms unfolding apply_block_edit_def
  by (auto simp only: result_simps split_beta fst_conv snd_conv prod.inject de_Morgan_disj not_not)

lemma apply_block_edit_store_ok:
  assumes "store_ok db" and "apply_block_edit env c db = (Inr r, db')"
    and "abe_branch_id c \<notin> cb_branch_id ` set (candidate_t db)"
  shows "store_ok db'"
proof -
  note ok = store_okD [OF assms(1)]
  have keys: "keys_ok db" using ok(1) by (simp add: project_ok_def)
  let ?cid = "abe_commit_id c" and ?tm = "abe_occurred_at c" and ?h = "abe_expected_head_commit_id c"
    and ?hit = "edit_hits c"
  obtain e b d1 d2 d3 d4 d5 d6 d7 d8 d9 pa where
    e: "read_block_for_edit (abe_block_id c) db = Inr e"
    and cur: "eb_revision e = abe_expected_revision c"
    and b: "find_by br_id (abe_branch_id c) (branch_t db) = Some b"
    and p: "br_project_id b = eb_project_id e"
    and s1: "update_block env (edited_block c (eb_revision e + 1)) ?hit db = Inr (1, d1)"
    and s2: "insert_edit_journal env (edit_entry c e) d1 = Inr d2"
    and s3: "bump_document (eb_document_id e) d2 = Inr (1, d3)"
    and s4: "insert_commit (edit_commit c (eb_project_id e)) d3 = Inr d4"
    and s5: "foldM (\<lambda>(scope_type, scope_id). enqueue_summary_invalidation (eb_project_id e)
        scope_type scope_id ?cid (abe_reason c) ?tm)
        [(''project'', eb_project_id e), (''document'', eb_document_id e), (''block'', abe_block_id c)]
        d4 = Inr d5"
    and s6: "insert_commit_parent pa d5 = Inr d6"
    and s7: "insert_change_set (edit_change c) d6 = Inr d7"
    and s8: "update_branch_head ?cid ?tm (\<lambda>b. br_id b = abe_branch_id c \<and> br_head_commit_id b = ?h) d7
        = Inr (1, d8)"
    and s9: "update_project_head ?cid (\<lambda>r. r + 1) ?tm (\<lambda>q. pr_id q = eb_project_id e) d8 = Inr (1, d9)"
    and s10: "apply_review env c d9 = Inr db'"
    by (rule apply_block_edit_steps [OF assms(2)])
  let ?p = "eb_project_id e"
  have b': "b \<in> set (branch_t db)" "br_id b = abe_branch_id c"
    using b keys_find(1) [OF keys] by auto
  obtain d k where d: "d \<in> set (document_t db)" "doc_id d = eb_document_id e" "doc_project_id d = ?p"
    and k: "k \<in> set (block_t db)" "blk_id k = abe_block_id c" "blk_document_id k = eb_document_id e"
    by (rule read_block_for_edit_facts [OF keys e])
  note f1 = update_block_frame [OF s1]
  from rows_where_one [OF sym [OF f1(5)]] obtain x where x: "x \<in> set (block_t db)" "?hit x" by blast
  then have xk: "x = k" using key_eqD [of blk_id "block_t db" k x] k keys by (simp add: keys_ok_def edit_hits_def)
  have edited: "edited_block c (eb_revision e + 1) k \<in> set (block_t d1)"
    unfolding f1(4) set_update_where using x xk by (intro image_eqI [of _ _ k]) simp_all
  note x = x [unfolded edit_hits_def]
  have upd: "blk_id (edited_block c n b) = blk_id b" "blk_deleted_at (edited_block c n b) = blk_deleted_at b"
    "blk_document_id (edited_block c n b) = blk_document_id b" "blk_revision (edited_block c n b) = n" for n b
    by (simp_all add: edited_block_def)
  have 1: "project_ok {} d1" "extends db d1"
    using update_block_ok [OF ok(1) s1] upd by (auto simp: edit_hits_def)
  note 2 = insert_edit_journal_ok [OF 1(1) s2]
  have d2: "document_t d2 = document_t db" "block_t d2 = block_t d1" "keys_ok d2"
    using f1(1) s2 2(1) by (auto simp: insert_edit_journal_def project_ok_def result_simps)
  have 3: "project_ok {} d3" "extends d2 d3"
    using update_document_ok [OF 2(1) s3 [unfolded bump_document_def]] by simp_all
  note 4 = insert_commit_ok [OF 3(1) s4]
  have doc: "scope_active d3 (?p, ''document'', eb_document_id e)"
    using bumped_active [OF s3 _ d(2) d2(3)] d(1,3) d2(1) by simp
  have "block_t d3 = block_t d2"
    using same_blocks_statements(9) [OF s3 [unfolded bump_document_def]] by (simp add: same_blocks_def)
  then have blk: "scope_active d3 (?p, ''block'', abe_block_id c)"
    using active_blockI [of "edited_block c (eb_revision e + 1) k" d3] edited doc d2(2) k(2,3) x(2) xk
    by (simp add: upd)
  have scopes: "scope_active d4 (?p, ty, i)"
    if "(ty, i) \<in> set [(''project'', ?p), (''document'', eb_document_id e), (''block'', abe_block_id c)]" for ty i
    using that extends_scope [OF 4(2)] doc blk project_scope_active by auto
  have c4: "commit_ok d4 ?cid ?p" "?cid \<notin> cb_commit_id ` set (candidate_t d4)"
    using 4(3,4) by (simp_all add: edit_commit_def)
  note 5 = enqueue_all_ok [OF 4(1) s5 c4(1) scopes]
  have ext: "extends db d5" using 1(2) 2(2) 3(2) 4(2) 5 extends_trans by blast
  note frame = extends_frame [OF ext]
  have c5: "commit_ok d5 ?cid ?p" "?cid \<notin> cb_commit_id ` set (candidate_t d5)"
    using grows_commit_ok [OF extends_grows [OF conjunct2 [OF 5]] c4(1)] c4(2) extends_frame(4) [OF conjunct2 [OF 5]]
    by simp_all
  have s67: "foldM insert_change_set [edit_change c] d6 = Inr d7" using s7 by simp
  have b5: "b \<in> set (branch_t d5)" using b'(1) frame(3) by blast
  have main: "br_id b \<notin> cb_branch_id ` set (candidate_t d5)" using assms(3) b'(2) frame(4) by simp
  note rec = record_change [OF conjunct1 [OF 5] b5 p c5 s6 s67 s8 [folded b'(2)] s9 _ disjI1 [OF main]]
  have "revisions_ok d2"
    by (rule journaled_update_revisions [OF ok(2) keys s1 s2]) (simp_all add: edit_entry_def edit_hits_def upd cur)
  moreover have "same_blocks d2 d3" by (rule same_blocks_statements(9) [OF s3 [unfolded bump_document_def]])
  moreover have "same_blocks d3 d4" by (rule same_blocks_statements(3) [OF s4])
  moreover have "same_blocks d4 d5"
    by (rule same_blocks_fold [OF s5]) (auto intro: same_blocks_statements(12))
  ultimately have "revisions_ok d9" using rec(4) same_blocks_revisions by blast
  with store_okI [OF assms(1) rec(1)] rec(2,3) frame(1,2) have "store_ok d9"
    using same_op_tables_trans by blast
  from apply_review_ok [OF store_okD(1,3) [OF this] s10] store_okD(2) [OF this] show ?thesis
    using same_blocks_revisions by (auto simp: store_ok_def)
qed

end
