(* ===== verification/StoreCommands.thy ===== *)
theory StoreCommands
  imports StoreOperations
begin

text \<open>
  The initialization of a project, the branch of a review candidate, the snapshots and the
  commands on runs, knowledge, style and summaries keep the invariant of the store.
\<close>

section \<open>Folds of statements\<close>

lemma foldM_statements:
  assumes "foldM f xs db = Inr db'" and "project_ok X db" and "Pre db"
    and step: "\<And>x d d'. x \<in> set xs \<Longrightarrow> project_ok X d \<Longrightarrow> Pre d \<Longrightarrow> f x d = Inr d'
      \<Longrightarrow> project_ok X d' \<and> extends d d' \<and> Q x d'"
    and pre: "\<And>d d'. extends d d' \<Longrightarrow> Pre d \<Longrightarrow> Pre d'"
    and post: "\<And>x d d'. extends d d' \<Longrightarrow> Q x d \<Longrightarrow> Q x d'"
  shows "project_ok X db' \<and> extends db db' \<and> (\<forall>x \<in> set xs. Q x db')"
  using assms(1-3) step
proof (induction xs arbitrary: db)
  case (Cons x xs)
  from Cons.prems(1) obtain d where x: "f x db = Inr d" and rest: "foldM f xs d = Inr db'"
    by (auto simp: result_simps)
  have one: "project_ok X d \<and> extends db d \<and> Q x d"
    by (rule Cons.prems(4)) (use Cons.prems(2,3) x in auto)
  then have "Pre d" using pre [of db d] Cons.prems(3) by blast
  have all: "project_ok X db' \<and> extends d db' \<and> (\<forall>x \<in> set xs. Q x db')"
    by (rule Cons.IH [OF rest _ \<open>Pre d\<close>]) (use one Cons.prems(4) in auto)
  moreover have "Q x db'" by (rule post [of d]) (use all one in auto)
  moreover have "extends db db'" using one all extends_trans by blast
  ultimately show ?case by simp
qed (simp add: extends_refl)

lemma foldM_map: "foldM f (map g xs) = foldM (\<lambda>x. f (g x)) xs"
proof (induction xs)
  case (Cons x xs)
  then show ?case by (intro ext) simp
qed (intro ext, simp)

section \<open>Initializing a project\<close>

text \<open>The seed names documents for its blocks that it brings along.\<close>

definition seed_closed :: "ProjectSeed \<Rightarrow> bool" where
  "seed_closed seed \<longleftrightarrow> sb_document_id ` set (seed_blocks seed) \<subseteq> sd_id ` set (seed_documents seed)"

lemma seed_documents_ok:
  assumes "foldM (\<lambda>d. insert_document (seed_document_row seed d)) ds db = Inr db'" and "project_ok X db"
  shows "project_ok X db' \<and> extends db db' \<and>
    (\<forall>d \<in> set ds. scope_active db' (seed_project_id seed, ''document'', sd_id d))"
proof (rule foldM_statements [OF assms, where Pre = "\<lambda>_. True"])
  fix x d d'
  assume ok: "project_ok X d" and step: "insert_document (seed_document_row seed x) d = Inr d'"
  show "project_ok X d' \<and> extends d d' \<and> scope_active d' (seed_project_id seed, ''document'', sd_id x)"
    using insert_document_ok [OF ok step] active_new_document [OF step] by (simp add: seed_document_row_def)
qed (auto intro: extends_scope)

lemma seed_blocks_ok:
  assumes "foldM (\<lambda>b. insert_block env (seed_block_row b)) bs db = Inr db'" and "project_ok X db"
    and "\<And>b. b \<in> set bs \<Longrightarrow> scope_active db (p, ''document'', sb_document_id b)"
  shows "project_ok X db' \<and> extends db db' \<and> (\<forall>b \<in> set bs. scope_active db' (p, ''block'', sb_id b))"
proof (rule foldM_statements [OF assms(1,2), where
      Pre = "\<lambda>d. \<forall>b \<in> set bs. scope_active d (p, ''document'', sb_document_id b)"])
  fix b d d'
  assume b: "b \<in> set bs" and ok: "project_ok X d" and step: "insert_block env (seed_block_row b) d = Inr d'"
    and pre: "\<forall>b \<in> set bs. scope_active d (p, ''document'', sb_document_id b)"
  show "project_ok X d' \<and> extends d d' \<and> scope_active d' (p, ''block'', sb_id b)"
    using insert_block_ok [OF ok step] active_new_block [OF step, of p] b pre
      extends_scope [OF insert_block_ok(2) [OF ok step]]
    by (simp add: seed_block_row_def)
qed (use assms(3) extends_scope in auto)

lemma seed_blocks_revisions:
  assumes "foldM (\<lambda>b. insert_block env (seed_block_row b)) bs db = Inr db'" and "project_ok X db"
    and "revisions_ok db"
  shows "revisions_ok db'"
  using assms
proof (induction bs arbitrary: db)
  case (Cons b bs)
  then obtain d where d: "insert_block env (seed_block_row b) db = Inr d"
    "foldM (\<lambda>b. insert_block env (seed_block_row b)) bs d = Inr db'"
    by (auto simp: result_simps)
  have "revisions_ok d"
    using insert_block_revisions [OF Cons.prems(3) _ d(1)] Cons.prems(2)
    by (simp add: project_ok_def seed_block_row_def)
  with Cons.IH [OF d(2)] insert_block_ok(1) [OF Cons.prems(2) d(1)] show ?case by blast
qed simp

lemma enqueue_initial_ok:
  assumes "foldM (\<lambda>x. enqueue_initial seed (ty, key x)) xs db = Inr db'" and "project_ok X db"
    and "commit_ok db (seed_initial_commit_id seed) (seed_project_id seed)"
    and "\<And>x. x \<in> set xs \<Longrightarrow> scope_active db (seed_project_id seed, ty, key x)"
  shows "project_ok X db' \<and> extends db db' \<and> same_blocks db db'"
proof -
  have fold: "foldM (\<lambda>(ty, i). enqueue_summary_invalidation (seed_project_id seed) ty i
        (seed_initial_commit_id seed) ''initial'' (seed_created_at seed)) (map (\<lambda>x. (ty, key x)) xs) db = Inr db'"
    using assms(1) by (simp add: foldM_map enqueue_initial_def)
  have "same_blocks db db'"
    by (rule same_blocks_fold [OF fold]) (auto intro: same_blocks_statements(12))
  with enqueue_all_ok [OF assms(2) fold assms(3)] assms(4) show ?thesis by auto
qed

lemma set_project_head_ok:
  assumes "project_ok X db" and "commit_ok db cid p" and "cid \<notin> cb_commit_id ` set (candidate_t db)"
  shows "project_ok X (set_project_head p cid db)"
  by (rule project_heads_ok [OF assms(1) set_project_head_def]) (use assms(2,3) in simp_all)

lemma initialize_project_store_ok:
  assumes "store_ok db" and "initialize_project env seed db = (Inr r, db')" and "seed_closed seed"
  shows "store_ok db'"
proof -
  note ok = store_okD [OF assms(1)]
  let ?p = "seed_project_id seed" and ?cid = "seed_initial_commit_id seed"
  obtain d1 d2 d3 d4 d5 d6 d7 d8 d9 where
    s1: "insert_project (seed_project_row seed) db = Inr d1"
    and s2: "foldM (\<lambda>d. insert_document (seed_document_row seed d)) (seed_documents seed) d1 = Inr d2"
    and s3: "foldM (\<lambda>b. insert_block env (seed_block_row b)) (seed_blocks seed) d2 = Inr d3"
    and s4: "insert_commit (seed_commit_row seed) d3 = Inr d4"
    and s5: "foldM insert_change_set (map (seed_change seed) (enumerate 0 (seed_blocks seed))) d4 = Inr d5"
    and s6: "enqueue_initial seed (''project'', ?p) d5 = Inr d6"
    and s7: "foldM (\<lambda>d. enqueue_initial seed (''document'', sd_id d)) (seed_documents seed) d6 = Inr d7"
    and s8: "foldM (\<lambda>b. enqueue_initial seed (''block'', sb_id b)) (seed_blocks seed) d7 = Inr d8"
    and s9: "insert_branch (seed_branch_row seed) d8 = Inr d9"
    and db': "db' = set_project_head ?p ?cid d9"
    using assms(2) unfolding initialize_project_def
    by (auto simp only: result_simps split_beta fst_conv snd_conv prod.inject sum.inject)
  note 1 = insert_project_ok [OF ok(1) s1]
  have p1: "project_ok {} d1" "extends db d1" using 1 by (simp_all add: seed_project_row_def)
  note 2 = seed_documents_ok [OF s2 p1(1)]
  have docs: "scope_active d2 (?p, ''document'', sb_document_id b)" if "b \<in> set (seed_blocks seed)" for b
  proof -
    have "sb_document_id b \<in> sd_id ` set (seed_documents seed)"
      using that assms(3) by (auto simp: seed_closed_def)
    with 2 show ?thesis by (metis imageE)
  qed
  have 3: "project_ok {} d3 \<and> extends d2 d3 \<and>
      (\<forall>b \<in> set (seed_blocks seed). scope_active d3 (?p, ''block'', sb_id b))"
    by (rule seed_blocks_ok [OF s3 conjunct1 [OF 2]]) (rule docs)
  note 4 = insert_commit_ok [OF conjunct1 [OF 3] s4]
  note 5 = change_sets_ok [OF 4(1) s5]
  have c5: "commit_ok d5 ?cid ?p" "?cid \<notin> cb_commit_id ` set (candidate_t d5)"
    using grows_commit_ok [OF extends_grows [OF conjunct2 [OF 5]] 4(3)] 4(4) extends_frame(4) [OF conjunct2 [OF 5]]
    by (simp_all add: seed_commit_row_def)
  note 6 = enqueue_ok [OF conjunct1 [OF 5] s6 [unfolded enqueue_initial_def, simplified] c5(1) project_scope_active]
  have "extends d2 d6" "extends d3 d6" using 3 4(2) 5 6(2) extends_trans by blast+
  then have act: "\<And>d. d \<in> set (seed_documents seed) \<Longrightarrow> scope_active d6 (?p, ''document'', sd_id d)"
    "\<And>b. b \<in> set (seed_blocks seed) \<Longrightarrow> scope_active d6 (?p, ''block'', sb_id b)"
    using extends_scope [OF \<open>extends d2 d6\<close>] 2 extends_scope [OF \<open>extends d3 d6\<close>] 3 by simp_all
  have c6: "commit_ok d6 ?cid ?p" by (rule grows_commit_ok [OF extends_grows [OF 6(2)] c5(1)])
  have 7: "project_ok {} d7 \<and> extends d6 d7 \<and> same_blocks d6 d7"
    by (rule enqueue_initial_ok [OF s7 6(1) c6]) (rule act(1))
  have e7: "extends d6 d7" using 7 by blast
  have c7: "commit_ok d7 ?cid ?p" by (rule grows_commit_ok [OF extends_grows [OF e7] c6])
  have 8: "project_ok {} d8 \<and> extends d7 d8 \<and> same_blocks d7 d8"
    by (rule enqueue_initial_ok [OF s8 conjunct1 [OF 7] c7]) (rule extends_scope [OF e7 act(2)])
  have e8: "extends d7 d8" using 8 by blast
  have c8: "commit_ok d8 ?cid ?p" by (rule grows_commit_ok [OF extends_grows [OF e8] c7])
  note 9 = insert_branch_ok [OF conjunct1 [OF 8] s9]
  have p9: "project_ok {} d9" "extends d8 d9" using 9 c8 by (simp_all add: seed_branch_row_def)
  have e5: "extends d5 d9" using 6(2) e7 e8 p9(2) extends_trans by blast
  have c9: "commit_ok d9 ?cid ?p" "?cid \<notin> cb_commit_id ` set (candidate_t d9)"
    using grows_commit_ok [OF extends_grows [OF e5] c5(1)] c5(2) extends_frame(4) [OF e5] by simp_all
  have final: "project_ok {} db'" unfolding db' by (rule set_project_head_ok [OF p9(1) c9])
  have "same_blocks d1 d2"
    by (rule same_blocks_fold [OF s2]) (rule same_blocks_statements(1))
  with same_blocks_statements(2) [OF s1] ok(2) have "revisions_ok d2"
    using same_blocks_revisions by blast
  then have "revisions_ok d3" using seed_blocks_revisions [OF s3] 2 by blast
  have "same_blocks d3 d4" by (rule same_blocks_statements(3) [OF s4])
  also have "same_blocks d4 d5"
    by (rule same_blocks_fold [OF s5]) (rule same_blocks_statements(5))
  also have "same_blocks d5 d6" by (rule same_blocks_statements(12) [OF s6 [unfolded enqueue_initial_def, simplified]])
  also have "same_blocks d6 d7" using 7 by (elim conjE)
  also have "same_blocks d7 d8" using 8 by (elim conjE)
  also have "same_blocks d8 d9" by (rule same_blocks_statements(6) [OF s9])
  finally have "revisions_ok d9" by (rule same_blocks_revisions [OF \<open>revisions_ok d3\<close>])
  then have rev: "revisions_ok db'" by (rule revisions_frame) (simp_all add: db' set_project_head_def)
  note p1(2)
  also have "extends d1 d2" using 2 by (elim conjE)
  also have "extends d2 d3" using 3 by (elim conjE)
  also note 4(2)
  also note conjunct2 [OF 5]
  also note e5
  finally have "extends db d9" .
  note frame = extends_frame [OF this]
  show ?thesis
    by (rule store_okI [OF assms(1) final rev])
      (use frame(1,2) in \<open>simp_all add: db' set_project_head_def same_op_tables_def\<close>)
qed

section \<open>The branch of a candidate\<close>

lemma proposal_binding_facts:
  assumes "proposal_binding env i db = Inr (p, bc, rv, st, did, bid, br, bh)"
  shows "\<exists>h \<in> set (review_head_t db). \<exists>r \<in> set (run_t db).
    rh_proposal_id h = i \<and> ror_id r = rh_run_id h \<and> ror_project_id r = p"
proof -
  from assms obtain h r where "find_by rh_proposal_id i (review_head_t db) = Some h"
    "find_by ror_id (rh_run_id h) (run_t db) = Some r" "ror_project_id r = p"
    by (auto simp: proposal_binding_def Let_def result_simps Option.bind_eq_Some_conv)
  then show ?thesis by (auto dest!: find_by_SomeD)
qed

lemma candidate_checks_binding:
  assumes "candidate_checks env c db = Inr ()"
  shows "\<exists>h \<in> set (review_head_t db). \<exists>r \<in> set (run_t db).
    rh_proposal_id h = crb_proposal_id c \<and> ror_id r = rh_run_id h \<and> ror_project_id r = crb_project_id c"
proof -
  from assms obtain bc rv st did bid br bh where
    "proposal_binding env (crb_proposal_id c) db = Inr (crb_project_id c, bc, rv, st, did, bid, br, bh)"
    by (auto simp: candidate_checks_def result_simps)
  then show ?thesis by (rule proposal_binding_facts)
qed

lemma new_candidate_ok:
  assumes "project_ok X d" and ops: "op_keys db" "same_op_tables db d"
    and bind: "h \<in> set (review_head_t db)" "rh_proposal_id h = crb_proposal_id c"
      "r \<in> set (run_t db)" "ror_id r = rh_run_id h" "ror_project_id r = crb_project_id c"
    and cm: "candidate_commit c \<in> set (commit_node_t d)"
    and b: "b \<in> set (branch_t d)" "br_id b = crb_branch_id c" "br_project_id b = crb_project_id c"
      "br_head_commit_id b = crb_commit_id c"
    and s: "s \<in> set (snapshot_t d)" "snr_id s = crb_snapshot_id c" "snr_project_id s = crb_project_id c"
      "snr_commit_id s = crb_commit_id c" "snr_root_hash s = crb_new_root_hash c"
    and cb: "cb_proposal_id cb = crb_proposal_id c" "cb_branch_id cb = crb_branch_id c"
      "cb_commit_id cb = crb_commit_id c" "cb_snapshot_id cb = crb_snapshot_id c"
  shows "candidate_ok d cb"
proof -
  have tables: "review_head_t d = review_head_t db" "run_t d = run_t db"
    using ops(2) by (simp_all add: same_op_tables_def)
  have only: "ror_project_id y = crb_project_id c"
    if x: "x \<in> set (review_head_t db)" "rh_proposal_id x = crb_proposal_id c"
      and y: "y \<in> set (run_t db)" "ror_id y = rh_run_id x" for x y
  proof -
    have "x = h" using key_eqD [of rh_proposal_id "review_head_t db" h x] ops(1) x bind(1,2)
      by (simp add: op_keys_def)
    then have "y = r" using key_eqD [of ror_id "run_t db" r y] ops(1) y bind(3,4)
      by (simp add: op_keys_def)
    with bind(5) show ?thesis by simp
  qed
  have row: "cn_id (candidate_commit c) = crb_commit_id c" "cn_project_id (candidate_commit c) = crb_project_id c"
    "cn_root_hash (candidate_commit c) = crb_new_root_hash c"
    by (simp_all add: candidate_commit_def)
  show ?thesis
    unfolding candidate_ok_def tables cb
  proof (intro exI [of _ "crb_project_id c"] conjI)
    show "\<forall>h \<in> set (review_head_t db). rh_proposal_id h = crb_proposal_id c \<longrightarrow>
        (\<forall>r \<in> set (run_t db). ror_id r = rh_run_id h \<longrightarrow> ror_project_id r = crb_project_id c)"
      using only by blast
    show "\<exists>b \<in> set (branch_t d). br_id b = crb_branch_id c \<and> br_project_id b = crb_project_id c
        \<and> br_head_commit_id b = crb_commit_id c" using b by blast
    show "\<exists>x \<in> set (commit_node_t d). \<exists>s \<in> set (snapshot_t d). cn_id x = crb_commit_id c
        \<and> cn_project_id x = crb_project_id c \<and> snr_id s = crb_snapshot_id c
        \<and> snr_project_id s = crb_project_id c \<and> snr_commit_id s = crb_commit_id c
        \<and> snr_root_hash s = cn_root_hash x"
      by (rule bexI [OF _ cm], rule bexI [OF _ s(1)]) (simp add: row s(2-5))
  qed
qed

lemma create_candidate_store_ok:
  assumes "store_ok db" and "create_review_candidate_branch env cdc c db = (Inr r, db')"
  shows "store_ok db'"
proof -
  note ok = store_okD [OF assms(1)]
  let ?cid = "crb_commit_id c" and ?p = "crb_project_id c"
  obtain encoded where checks: "candidate_checks env c db = Inr ()"
    and rows: "candidate_rows c encoded db = Inr db'"
    using assms(2) by (auto simp: create_review_candidate_branch_def result_simps)
  from candidate_checks_binding [OF checks] obtain h rn where bind:
    "h \<in> set (review_head_t db)" "rh_proposal_id h = crb_proposal_id c"
    "rn \<in> set (run_t db)" "ror_id rn = rh_run_id h" "ror_project_id rn = ?p"
    by blast
  obtain d1 d2 d3 d4 d5 pa ch b s cb where
    s1: "insert_commit (candidate_commit c) db = Inr d1"
    and s2: "insert_commit_parent pa d1 = Inr d2" and s3: "insert_change_set ch d2 = Inr d3"
    and s4: "insert_branch b d3 = Inr d4" and s5: "insert_snapshot s d4 = Inr d5"
    and s6: "insert_candidate cb d5 = Inr db'"
    and b: "br_id b = crb_branch_id c" "br_project_id b = ?p" "br_head_commit_id b = ?cid"
    and s: "snr_id s = crb_snapshot_id c" "snr_project_id s = ?p" "snr_commit_id s = ?cid"
      "snr_root_hash s = crb_new_root_hash c"
    and cb: "cb_proposal_id cb = crb_proposal_id c" "cb_branch_id cb = crb_branch_id c"
      "cb_commit_id cb = ?cid" "cb_snapshot_id cb = crb_snapshot_id c"
    using rows unfolding candidate_rows_def by (auto simp: result_simps)
  note 1 = insert_commit_ok [OF ok(1) s1]
  note 2 = insert_commit_parent_ok [OF 1(1) s2]
  note 3 = insert_change_set_ok [OF 2(1) s3]
  have c3: "commit_ok d3 ?cid ?p"
    using grows_commit_ok [OF extends_grows [OF extends_trans [OF 2(2) 3(2)]] 1(3)]
    by (simp add: candidate_commit_def)
  note 4 = insert_branch_ok [OF 3(1) s4, unfolded b, OF c3]
  note 5 = insert_snapshot_ok [OF 4(1) s5]
  note extends_trans [OF 2(2) 3(2)]
  also note 4(2)
  also note 5(2)
  finally have e1: "extends d1 d5" .
  have e: "extends db d5" by (rule extends_trans [OF 1(2) e1])
  note frame = extends_frame [OF e]
  have new: "candidate_commit c \<in> set (commit_node_t d1)"
    "?cid \<notin> cn_id ` set (commit_node_t db)"
    using s1 by (auto simp: insert_commit_def candidate_commit_def result_simps)
  have b5: "b \<in> set (branch_t d5)" using 4(3) extends_frame(3) [OF 5(2)] by blast
  have cm5: "candidate_commit c \<in> set (commit_node_t d5)"
    using new(1) extends_frame(2) [OF e1] by blast
  have cand: "candidate_ok d5 cb"
    by (rule new_candidate_ok [OF 5(1) _ frame(1) bind cm5 b5 b 5(3) s cb])
      (use ok(3) in \<open>simp add: op_ok_def\<close>)
  have projects: "project_t d5 = project_t db"
    using s1 s2 s3 s4 s5 by (auto simp: insert_commit_def insert_commit_parent_def
        insert_change_set_def insert_branch_def insert_snapshot_def result_simps)
  have mainline: "pr_head_commit_id q \<noteq> Some (cb_commit_id cb)" if "q \<in> set (project_t d5)" for q
  proof
    assume "pr_head_commit_id q = Some (cb_commit_id cb)"
    with that projects ok(1) have "commit_ok db ?cid (pr_id q)"
      by (force simp: project_ok_def heads_ok_def cb)
    then obtain x where "x \<in> set (commit_node_t db)" "cn_id x = ?cid" by (auto simp: commit_ok_def)
    with new(2) show False by (metis imageI)
  qed
  have final: "project_ok {} db'" by (rule insert_candidate_ok [OF 5(1) s6 cand]) (rule mainline)
  have "same_blocks db d1" by (rule same_blocks_statements(3) [OF s1])
  also have "same_blocks d1 d2" by (rule same_blocks_statements(4) [OF s2])
  also have "same_blocks d2 d3" by (rule same_blocks_statements(5) [OF s3])
  also have "same_blocks d3 d4" by (rule same_blocks_statements(6) [OF s4])
  also have "same_blocks d4 d5" by (rule same_blocks_statements(7) [OF s5])
  also have "same_blocks d5 db'" by (rule same_blocks_statements(8) [OF s6])
  finally have rev: "revisions_ok db'" by (rule same_blocks_revisions [OF ok(2)])
  have "db' = d5\<lparr>candidate_t := candidate_t d5 @ [cb]\<rparr>"
    using s6 by (auto simp: insert_candidate_def result_simps)
  with frame(1,2) show ?thesis
    by (intro store_okI [OF assms(1) final rev]) (simp_all add: same_op_tables_def)
qed

section \<open>Snapshots, runs, knowledge, style and summaries\<close>

lemma core_store_ok:
  assumes "store_ok db" and "project_ok {} db'" and "extends db db'" and "same_blocks db db'"
  shows "store_ok db'"
  using store_okI [OF assms(1,2) same_blocks_revisions [OF store_okD(2) [OF assms(1)] assms(4)]]
    extends_frame(1,2) [OF assms(3)] by blast

lemma create_snapshot_store_ok:
  assumes "store_ok db" and "create_snapshot s db = (Inr r, db')"
  shows "store_ok db'"
proof -
  have ins: "insert_snapshot (created_snapshot s) db = Inr db'"
    using assms(2) by (auto simp: create_snapshot_def result_simps)
  note 1 = insert_snapshot_ok [OF store_okD(1) [OF assms(1)] ins]
  show ?thesis by (rule core_store_ok [OF assms(1) 1(1,2) same_blocks_statements(7) [OF ins]])
qed

lemma create_head_snapshot_store_ok:
  assumes "store_ok db" and "create_head_snapshot cdc i p t db = (Inr r, db')"
  shows "store_ok db'"
proof -
  obtain s where ins: "insert_snapshot s db = Inr db'"
    using assms(2) by (auto simp: create_head_snapshot_def Let_def result_simps)
  note 1 = insert_snapshot_ok [OF store_okD(1) [OF assms(1)] ins]
  show ?thesis by (rule core_store_ok [OF assms(1) 1(1,2) same_blocks_statements(7) [OF ins]])
qed

lemma append_review_event_store_ok:
  assumes "store_ok db" and "append_review_event env c db = (Inr s, db')"
  shows "store_ok db'"
proof -
  have step: "append_review_event_in_transaction env c db = Inr (s, db')"
    using assms(2) by (simp add: append_review_event_def result_simps)
  note ok = store_okD [OF assms(1)]
  note one = review_event_ok [OF ok(1,3) step]
  from one(3) have "revisions_ok db'"
    by (intro revisions_frame [OF ok(2)]) (simp_all add: same_project_tables_def)
  with one(1,2) show ?thesis by (simp add: store_ok_def)
qed

lemma persist_bundle_store_ok:
  assumes "store_ok db" and "persist_operation_bundle env b db = (r, db')"
  shows "store_ok db'"
  using persist_operation_bundle_cases [OF assms(2)]
proof
  assume *: "validate_bundle env b = Inr () \<and> persist_rows env b db = Inr db'
      \<and> r = get_operation_run (nor_id (pob_run b)) db'"
  note ok = store_okD [OF assms(1)]
  note one = bundle_ok [OF ok(1,3) conjunct1 [OF *] conjunct1 [OF conjunct2 [OF *]]]
  from one(3) have "revisions_ok db'"
    by (intro revisions_frame [OF ok(2)]) (simp_all add: same_project_tables_def)
  with one(1,2) show ?thesis by (simp add: store_ok_def)
qed (use assms(1) in simp)

lemma knowledge_same_blocks:
  "insert_knowledge k db = Inr db' \<Longrightarrow> same_blocks db db'"
  "insert_style s db = Inr db' \<Longrightarrow> same_blocks db db'"
  "update_knowledge_status st u p i rv db = Inr (n, db') \<Longrightarrow> same_blocks db db'"
  "update_style_status st u p i rv db = Inr (n, db') \<Longrightarrow> same_blocks db db'"
  "upsert_summary sm db = Inr db' \<Longrightarrow> same_blocks db db'"
  "same_blocks db (snd (delete_invalidations hit db))"
  by (auto simp: same_blocks_def insert_knowledge_def insert_style_def update_knowledge_status_def
      update_style_status_def upsert_summary_def delete_invalidations_def Let_def result_simps)

lemma create_knowledge_item_store_ok:
  assumes "store_ok db" and "create_knowledge_item c db = (Inr r, db')"
  shows "store_ok db'"
proof -
  have ins: "insert_knowledge (knowledge_row c) db = Inr db'"
    using assms(2) by (auto simp: create_knowledge_item_def result_simps)
  note 1 = insert_knowledge_ok [OF store_okD(1) [OF assms(1)] ins]
  show ?thesis by (rule core_store_ok [OF assms(1) 1 knowledge_same_blocks(1) [OF ins]])
qed

lemma create_style_sample_store_ok:
  assumes "store_ok db" and "create_style_sample c db = (Inr r, db')"
  shows "store_ok db'"
proof -
  have ins: "insert_style (style_row c) db = Inr db'"
    using assms(2) by (auto simp: create_style_sample_def result_simps)
  note 1 = insert_style_ok [OF store_okD(1) [OF assms(1)] ins]
  show ?thesis by (rule core_store_ok [OF assms(1) 1 knowledge_same_blocks(2) [OF ins]])
qed

lemma set_knowledge_item_status_store_ok:
  assumes "store_ok db" and "set_knowledge_item_status c db = (Inr r, db')"
  shows "store_ok db'"
proof -
  have "db' = db \<or> (\<exists>n. update_knowledge_status (sks_status c) (sks_updated_at c) (sks_project_id c)
      (sks_id c) (sks_expected_revision c) db = Inr (n, db'))"
    using assms(2) by (auto simp: set_knowledge_item_status_def result_simps split: if_splits)
  then show ?thesis
  proof
    assume "\<exists>n. update_knowledge_status (sks_status c) (sks_updated_at c) (sks_project_id c)
      (sks_id c) (sks_expected_revision c) db = Inr (n, db')"
    then obtain n where up: "update_knowledge_status (sks_status c) (sks_updated_at c) (sks_project_id c)
      (sks_id c) (sks_expected_revision c) db = Inr (n, db')" by blast
    note 1 = update_knowledge_status_ok [OF store_okD(1) [OF assms(1)] up]
    show ?thesis by (rule core_store_ok [OF assms(1) 1 knowledge_same_blocks(3) [OF up]])
  qed (use assms(1) in simp)
qed

lemma set_style_sample_status_store_ok:
  assumes "store_ok db" and "set_style_sample_status c db = (Inr r, db')"
  shows "store_ok db'"
proof -
  have "db' = db \<or> (\<exists>n. update_style_status (sss_status c) (sss_updated_at c) (sss_project_id c)
      (sss_id c) (sss_expected_revision c) db = Inr (n, db'))"
    using assms(2) by (auto simp: set_style_sample_status_def result_simps split: if_splits)
  then show ?thesis
  proof
    assume "\<exists>n. update_style_status (sss_status c) (sss_updated_at c) (sss_project_id c)
      (sss_id c) (sss_expected_revision c) db = Inr (n, db')"
    then obtain n where up: "update_style_status (sss_status c) (sss_updated_at c) (sss_project_id c)
      (sss_id c) (sss_expected_revision c) db = Inr (n, db')" by blast
    note 1 = update_style_status_ok [OF store_okD(1) [OF assms(1)] up]
    show ?thesis by (rule core_store_ok [OF assms(1) 1 knowledge_same_blocks(4) [OF up]])
  qed (use assms(1) in simp)
qed

lemma put_summary_record_store_ok:
  assumes "store_ok db" and "put_summary_record c db = (Inr r, db')"
  shows "store_ok db'"
proof -
  let ?hit = "\<lambda>i. invalidation_scope i = put_scope c
      \<and> inv_source_commit_id i = put_expected_source_commit_id c"
  obtain d where up: "upsert_summary (summary_row c) db = Inr d"
    and db': "db' = snd (delete_invalidations ?hit d)"
    using assms(2) by (auto simp: put_summary_record_def Let_def split_beta result_simps split: if_splits)
  note 1 = upsert_summary_ok [OF store_okD(1) [OF assms(1)] up]
  have 2: "project_ok {} db'" "extends d db'"
    using delete_invalidations_ok [OF 1(1) db'] by blast+
  show ?thesis
    by (rule core_store_ok [OF assms(1) 2(1) extends_trans [OF 1(2) 2(2)]])
      (use same_blocks_trans [OF knowledge_same_blocks(5) [OF up] knowledge_same_blocks(6)] in \<open>simp add: db'\<close>)
qed

end
