(* ===== verification/StoreBatches.thy ===== *)
theory StoreBatches
  imports StoreCommands
begin

text \<open>
  A batch of document mutations keeps the invariant of the store. While the rows are being
  written, the invalidations of archived documents and of their blocks are stale; the
  scopes still to be dropped are the exception set of \<open>project_ok\<close>, which the loop over the
  mutations empties.
\<close>

section \<open>The scopes of an archived document\<close>

definition archived_scopes :: "string \<Rightarrow> string \<Rightarrow> Database \<Rightarrow> scope set" where
  "archived_scopes p i db =
     insert (p, ''document'', i)
       {(p, ''block'', blk_id b) |b. b \<in> set (block_t db) \<and> blk_document_id b = i}"

definition dropped_scopes :: "string \<Rightarrow> DocumentMutation list \<Rightarrow> Database \<Rightarrow> scope set" where
  "dropped_scopes p ms db = (\<Union>m \<in> {m \<in> set ms. \<not> mut_active m}. archived_scopes p (mut_document_id m) db)"

lemma dropped_scopes_Cons:
  "dropped_scopes p (m # ms) db =
     (if mut_active m then {} else archived_scopes p (mut_document_id m) db) \<union> dropped_scopes p ms db"
  by (auto simp: dropped_scopes_def)

lemma archived_scopes_same: "block_t db' = block_t db \<Longrightarrow> archived_scopes p i db' = archived_scopes p i db"
  by (simp add: archived_scopes_def)

section \<open>Writing the documents\<close>

text \<open>An update of a document takes no scope away but those of a document it archives.\<close>

lemma update_document_scopes:
  assumes "update_document upd hit db = Inr (n, db')"
    and "\<And>d. hit d \<Longrightarrow> doc_id (upd d) = doc_id d \<and> doc_project_id (upd d) = doc_project_id d"
    and "\<And>d. hit d \<Longrightarrow> doc_id d = i \<and> doc_project_id d = p"
    and "scope_active db s"
  shows "scope_active db' s \<or> (s \<in> archived_scopes p i db \<and> (\<exists>d. hit d \<and> doc_deleted_at (upd d) \<noteq> None))"
proof -
  let ?lost = "\<exists>d. hit d \<and> doc_deleted_at (upd d) \<noteq> None"
  have tables: "document_t db' = update_where hit upd (document_t db)" "block_t db' = block_t db"
    using assms(1) by (auto simp: update_document_def Let_def result_simps)
  have doc: "active_document q j db' \<or> (q = p \<and> j = i \<and> ?lost)" if "active_document q j db" for q j
  proof -
    from that obtain d where d: "d \<in> set (document_t db)" "doc_project_id d = q" "doc_id d = j"
      "doc_deleted_at d = None" by (auto simp: active_document_def)
    have row: "(if hit d then upd d else d) \<in> set (document_t db')"
      unfolding tables set_update_where using d(1) by (rule imageI)
    show ?thesis
    proof (cases "hit d \<and> doc_deleted_at (upd d) \<noteq> None")
      case True
      with assms(3) [of d] d show ?thesis by auto
    next
      case False
      with assms(2) [of d] d have "doc_project_id (if hit d then upd d else d) = q"
        "doc_id (if hit d then upd d else d) = j" "doc_deleted_at (if hit d then upd d else d) = None"
        by auto
      with row show ?thesis unfolding active_document_def exists_row_iff by blast
    qed
  qed
  have blk: "active_block q j db' \<or> ((q, ''block'', j) \<in> archived_scopes p i db \<and> ?lost)"
    if act: "active_block q j db" for q j
  proof -
    from act obtain b where b: "b \<in> set (block_t db)" "blk_id b = j" "blk_deleted_at b = None"
      "active_document q (blk_document_id b) db" by (auto simp: active_block_def)
    from doc [OF b(4)] show ?thesis
    proof
      assume "active_document q (blk_document_id b) db'"
      with b(1-3) show ?thesis unfolding active_block_def exists_row_iff tables(2) by blast
    next
      assume "q = p \<and> blk_document_id b = i \<and> ?lost"
      with b(1,2) show ?thesis by (auto simp: archived_scopes_def)
    qed
  qed
  obtain q ty j where s: "s = (q, ty, j)" by (cases s)
  consider "ty = ''document''" | "ty = ''block''" | "ty \<noteq> ''document''" "ty \<noteq> ''block''" by blast
  then show ?thesis
  proof cases
    case 1
    with assms(4) doc [of q j] show ?thesis by (auto simp: s scope_active.simps archived_scopes_def)
  next
    case 2
    with assms(4) blk [of q j] show ?thesis by (auto simp: s scope_active.simps)
  next
    case 3
    with assms(4) show ?thesis by (auto simp: s scope_active.simps)
  qed
qed

lemma stage_mutations_ok:
  assumes "foldM (stage_mutation p) xs db = Inr db'" and "project_ok X db"
  shows "project_ok X db' \<and> extends db db'"
proof -
  have "project_ok X db' \<and> extends db db' \<and> (\<forall>x \<in> set xs. True)"
  proof (rule foldM_statements [OF assms, where Pre = "\<lambda>_. True"])
    fix x d d'
    assume ok: "project_ok X d" and step: "stage_mutation p x d = Inr d'"
    obtain upd hit where up: "update_document upd hit d = Inr (1, d')"
      and upd: "\<And>d. doc_id (upd d) = doc_id d \<and> doc_project_id (upd d) = doc_project_id d
        \<and> doc_deleted_at (upd d) = doc_deleted_at d"
      using step by (auto simp: stage_mutation_def split_beta result_simps)
    show "project_ok X d' \<and> extends d d' \<and> True"
      using update_document_ok [OF ok up] upd by simp
  qed auto
  then show ?thesis by blast
qed

lemma write_mutation_ok:
  assumes "project_ok X db" and "write_mutation c p m db = Inr db'"
    and "\<not> mut_active m \<Longrightarrow> archived_scopes p (mut_document_id m) db \<subseteq> X"
  shows "project_ok X db'" and "grows db db'" and "same_blocks db db'"
    and "mut_active m \<Longrightarrow> scope_active db' (p, ''document'', mut_document_id m)"
    and "\<And>q j. j \<noteq> mut_document_id m \<Longrightarrow> scope_active db (q, ''document'', j) \<Longrightarrow> scope_active db' (q, ''document'', j)"
proof -
  let ?upd = "\<lambda>d. d\<lparr>doc_parent_id := mut_parent_id m, doc_kind := mut_kind m, doc_title := mut_title m,
      doc_order_key := mut_order_key m, doc_revision := mut_expected_revision m + 1,
      doc_deleted_at := (if mut_active m then None else Some (adb_occurred_at c))\<rparr>"
    and ?hit = "\<lambda>d. doc_id d = mut_document_id m \<and> doc_project_id d = p
      \<and> doc_revision d = mut_expected_revision m"
  have up: "update_document ?upd ?hit db = Inr (1, db')"
    using assms(2) by (simp add: write_mutation_def result_simps)
  have scopes: "scope_active db' s \<or> (s \<in> archived_scopes p (mut_document_id m) db \<and> \<not> mut_active m)"
    if act: "scope_active db s" for s
  proof -
    have 1: "doc_id (?upd d) = doc_id d \<and> doc_project_id (?upd d) = doc_project_id d" for d by simp
    have 2: "doc_id d = mut_document_id m \<and> doc_project_id d = p" if "?hit d" for d using that by simp
    from update_document_scopes [OF up 1 2 act] show ?thesis
    proof
      assume *: "s \<in> archived_scopes p (mut_document_id m) db \<and> (\<exists>d. ?hit d \<and> doc_deleted_at (?upd d) \<noteq> None)"
      then have "\<not> mut_active m" by (auto split: if_splits)
      with * show ?thesis by blast
    next
      assume "scope_active db' s"
      then show ?thesis by (rule disjI1)
    qed
  qed
  have kept: "scope_active db' s \<or> s \<in> X" if "scope_active db s \<or> s \<in> X" for s
    using that scopes [of s] subsetD [OF assms(3), of s] by blast
  show "project_ok X db'" by (rule update_document_grows(1) [OF assms(1) up _ kept]) simp_all
  show "grows db db'" by (rule update_document_grows(2) [OF assms(1) up _ kept]) simp_all
  show "same_blocks db db'" by (rule same_blocks_statements(9) [OF up])
  show "scope_active db' (q, ''document'', j)"
    if "j \<noteq> mut_document_id m" "scope_active db (q, ''document'', j)" for q j
    using scopes [OF that(2)] that(1) by (auto simp: archived_scopes_def)
  assume act: "mut_active m"
  have rows: "document_t db' = update_where ?hit ?upd (document_t db)" "rows_where ?hit (document_t db) = 1"
    using up by (auto simp: update_document_def Let_def result_simps rows_where_def)
  from rows_where_one [OF rows(2)] obtain d where d: "d \<in> set (document_t db)" "?hit d" by blast
  then have "?upd d \<in> set (document_t db')"
    unfolding rows(1) set_update_where by (intro image_eqI [of _ _ d]) auto
  with d act show "scope_active db' (p, ''document'', mut_document_id m)"
    by (auto simp: scope_active.simps active_document_def intro!: bexI [of _ "?upd d"])
qed

text \<open>All the documents of a batch: their ids are pairwise distinct.\<close>

lemma write_mutations_ok:
  assumes "foldM (write_mutation c p) ms db = Inr db'" and "project_ok X db"
    and "distinct (map mut_document_id ms)" and "dropped_scopes p ms db \<subseteq> X"
  shows "project_ok X db' \<and> grows db db' \<and> same_blocks db db'
    \<and> (\<forall>m \<in> set ms. mut_active m \<longrightarrow> scope_active db' (p, ''document'', mut_document_id m))
    \<and> (\<forall>q j. j \<notin> mut_document_id ` set ms \<longrightarrow> scope_active db (q, ''document'', j)
         \<longrightarrow> scope_active db' (q, ''document'', j))"
  using assms
proof (induction ms arbitrary: db)
  case Nil
  then show ?case by (simp add: grows_refl same_blocks_def)
next
  case (Cons m ms)
  from Cons.prems(1) obtain d where d: "write_mutation c p m db = Inr d"
    and rest: "foldM (write_mutation c p) ms d = Inr db'" by (auto simp: result_simps)
  have arch: "archived_scopes p (mut_document_id m) db \<subseteq> X" if "\<not> mut_active m"
    using Cons.prems(4) that by (simp add: dropped_scopes_Cons)
  note one = write_mutation_ok [OF Cons.prems(2) d arch]
  have ok: "project_ok X d" by (rule one(1))
  have grow: "grows db d" by (rule one(2))
  have same: "same_blocks db d" by (rule one(3))
  have "dropped_scopes p ms d = dropped_scopes p ms db"
    using archived_scopes_same [of d db] same by (simp add: dropped_scopes_def same_blocks_def)
  then have sub: "dropped_scopes p ms d \<subseteq> X" using Cons.prems(4) by (simp add: dropped_scopes_Cons)
  have dist: "distinct (map mut_document_id ms)" "mut_document_id m \<notin> mut_document_id ` set ms"
    using Cons.prems(3) by simp_all
  note IH = Cons.IH [OF rest ok dist(1) sub]
  have later: "scope_active db' (q, ''document'', j)"
    if "j \<notin> mut_document_id ` set ms" "scope_active d (q, ''document'', j)" for q j
  proof -
    from IH have "\<forall>q j. j \<notin> mut_document_id ` set ms \<longrightarrow> scope_active d (q, ''document'', j)
        \<longrightarrow> scope_active db' (q, ''document'', j)" by (elim conjE)
    with that show ?thesis by blast
  qed
  have now: "scope_active db' (p, ''document'', mut_document_id x)" if "x \<in> set ms" "mut_active x" for x
  proof -
    from IH have "\<forall>m \<in> set ms. mut_active m \<longrightarrow> scope_active db' (p, ''document'', mut_document_id m)"
      by (elim conjE)
    with that show ?thesis by blast
  qed
  show ?case
  proof (intro conjI ballI allI impI)
    show "project_ok X db'" using IH by (elim conjE)
    show "grows db db'" by (rule grows_trans [OF grow]) (use IH in \<open>elim conjE\<close>)
    show "same_blocks db db'" by (rule same_blocks_trans [OF same]) (use IH in \<open>elim conjE\<close>)
  next
    fix x assume x: "x \<in> set (m # ms)" "mut_active x"
    show "scope_active db' (p, ''document'', mut_document_id x)"
    proof (cases "x = m")
      case True
      then show ?thesis using x(2) one(4) by (intro later) (simp_all add: dist(2))
    qed (use x now in simp)
  next
    fix q j assume j: "j \<notin> mut_document_id ` set (m # ms)" "scope_active db (q, ''document'', j)"
    then show "scope_active db' (q, ''document'', j)" using one(5) [of j q] by (intro later) simp_all
  qed
qed

section \<open>Invalidating and dropping\<close>

lemma invalidate_mutation_ok:
  assumes "project_ok X db" and "invalidate_mutation c p m db = Inr db'"
    and commit: "commit_ok db (adb_commit_id c) p"
    and act: "mut_active m \<Longrightarrow> scope_active db (p, ''document'', mut_document_id m)"
    and X: "X \<subseteq> Y \<union> (if mut_active m then {} else archived_scopes p (mut_document_id m) db)"
  shows "project_ok Y db'" and "extends db db'" and "same_blocks db db'"
proof -
  have "project_ok Y db' \<and> extends db db' \<and> same_blocks db db'"
  proof (cases "mut_active m")
    case True
    from assms(2) True obtain d where
      one: "enqueue_summary_invalidation p ''document'' (mut_document_id m) (adb_commit_id c)
        (adb_reason c) (adb_occurred_at c) db = Inr d"
      and two: "if mut_operation m = ''restore'' then foldM (\<lambda>i. enqueue_summary_invalidation p ''block'' i
          (adb_commit_id c) (adb_reason c) (adb_occurred_at c)) (restored_block_ids p (mut_document_id m) d) d = Inr db'
        else db' = d"
      by (auto simp: invalidate_mutation_def result_simps split: if_splits)
    have Y: "project_ok Y db"
      using assms(1) True X by (auto simp: project_ok_def scopes_ok_def)
    note first = enqueue_ok [OF Y one commit act [OF True]] same_blocks_statements(12) [OF one]
    show ?thesis
    proof (cases "mut_operation m = ''restore''")
      case restore: True
      have fold: "foldM (\<lambda>(ty, i). enqueue_summary_invalidation p ty i (adb_commit_id c) (adb_reason c)
          (adb_occurred_at c)) (map (Pair ''block'') (restored_block_ids p (mut_document_id m) d)) d = Inr db'"
        using two restore by (simp add: foldM_map)
      have blocks: "scope_active d (p, ty, i)"
        if "(ty, i) \<in> set (map (Pair ''block'') (restored_block_ids p (mut_document_id m) d))" for ty i
      proof -
        from that obtain x b where xb: "(x, b) \<in> set (joined_blocks d)" "doc_project_id x = p"
          "doc_deleted_at x = None" "blk_deleted_at b = None" and i: "i = blk_id b" "ty = ''block''"
          by (auto simp: restored_block_ids_def)
        from xb(1) have "b \<in> set (block_t d)" "x \<in> set (document_t d)" "doc_id x = blk_document_id b"
          by (auto simp: joined_blocks_def map_filter_def dest: find_by_SomeD)
        with xb i show ?thesis
          by (auto simp: scope_active.simps active_block_def active_document_def)
      qed
      have c: "commit_ok d (adb_commit_id c) p"
        by (rule grows_commit_ok [OF extends_grows [OF first(2)] commit])
      have "project_ok Y db' \<and> extends d db'" by (rule enqueue_all_ok [OF first(1) fold c blocks])
      moreover have "same_blocks d db'"
        by (rule same_blocks_fold [OF fold]) (auto intro: same_blocks_statements(12))
      ultimately show ?thesis using extends_trans [OF first(2)] same_blocks_trans [OF first(3)] by blast
    qed (use two first in simp)
  next
    case False
    let ?hit = "\<lambda>i. inv_project_id i = p
        \<and> (inv_scope_type i = ''document'' \<and> inv_scope_id i = mut_document_id m
          \<or> inv_scope_type i = ''block'' \<and> exists_row (\<lambda>b. blk_id b = inv_scope_id i
               \<and> blk_document_id b = mut_document_id m) (block_t db))"
    have db': "db' = snd (delete_invalidations ?hit db)"
      using assms(2) False by (simp add: invalidate_mutation_def)
    have drop: "invalidation_scope i \<in> Y \<or> ?hit i \<or> scope_active db (invalidation_scope i)"
      if "invalidation_scope i \<in> X" for i
      using subsetD [OF X that] False by (auto simp: invalidation_scope_def archived_scopes_def)
    have "project_ok Y db'" by (rule delete_invalidations_ok(1) [OF assms(1) db' drop])
    moreover have "extends db db'" by (rule delete_invalidations_ok(2) [OF assms(1) db' drop])
    moreover have "same_blocks db db'" unfolding db' by (rule knowledge_same_blocks(6))
    ultimately show ?thesis by blast
  qed
  then show "project_ok Y db'" "extends db db'" "same_blocks db db'" by blast+
qed

lemma invalidate_mutations_ok:
  assumes "foldM (invalidate_mutation c p) ms db = Inr db'" and "project_ok (dropped_scopes p ms db) db"
    and "commit_ok db (adb_commit_id c) p"
    and "\<And>m. m \<in> set ms \<Longrightarrow> mut_active m \<Longrightarrow> scope_active db (p, ''document'', mut_document_id m)"
  shows "project_ok {} db' \<and> extends db db' \<and> same_blocks db db'"
  using assms
proof (induction ms arbitrary: db)
  case Nil
  then show ?case by (simp add: dropped_scopes_def extends_refl same_blocks_def)
next
  case (Cons m ms)
  from Cons.prems(1) obtain d where d: "invalidate_mutation c p m db = Inr d"
    and rest: "foldM (invalidate_mutation c p) ms d = Inr db'" by (auto simp: result_simps)
  have act: "scope_active db (p, ''document'', mut_document_id m)" if "mut_active m"
    using Cons.prems(4) that by simp
  have sub: "dropped_scopes p (m # ms) db
      \<subseteq> dropped_scopes p ms db \<union> (if mut_active m then {} else archived_scopes p (mut_document_id m) db)"
    by (auto simp: dropped_scopes_Cons)
  note one = invalidate_mutation_ok [OF Cons.prems(2) d Cons.prems(3) act sub]
  have ok: "project_ok (dropped_scopes p ms db) d" by (rule one(1))
  have ext: "extends db d" by (rule one(2))
  have same: "same_blocks db d" by (rule one(3))
  have X: "dropped_scopes p ms d = dropped_scopes p ms db"
    using archived_scopes_same [of d db] same by (simp add: dropped_scopes_def same_blocks_def)
  have "project_ok {} db' \<and> extends d db' \<and> same_blocks d db'"
  proof (rule Cons.IH [OF rest])
    show "project_ok (dropped_scopes p ms d) d" using ok by (simp only: X)
    show "commit_ok d (adb_commit_id c) p" by (rule grows_commit_ok [OF extends_grows [OF ext] Cons.prems(3)])
    show "scope_active d (p, ''document'', mut_document_id x)" if "x \<in> set ms" "mut_active x" for x
      by (rule extends_scope [OF ext Cons.prems(4)]) (use that in simp_all)
  qed
  with extends_trans [OF ext] same_blocks_trans [OF same] show ?case by blast
qed

text \<open>A document that no mutation names is in memory what it is in the table.\<close>

lemma mutate_documents_other:
  assumes "foldM (mutate_document c h) ms (ds, rel) = Inr (ds', rel')"
    and "d \<in> set ds'" and "doc_id d \<notin> mut_document_id ` set ms"
  shows "d \<in> set ds"
  using assms
proof (induction ms arbitrary: ds rel)
  case (Cons m ms)
  from Cons.prems(1) obtain st where st: "mutate_document c h m (ds, rel) = Inr st"
    "foldM (mutate_document c h) ms st = Inr (ds', rel')"
    by (auto simp: result_simps)
  from st(1) obtain rel1 where "st = (update_where (\<lambda>d. doc_id d = mut_document_id m)
      (mutated_document (adb_occurred_at c) m) ds, rel1)"
    by (auto simp: mutate_document_def result_simps)
  with st(2) have "foldM (mutate_document c h) ms (update_where (\<lambda>d. doc_id d = mut_document_id m)
       (mutated_document (adb_occurred_at c) m) ds, rel1) = Inr (ds', rel')"
    by simp
  from Cons.IH [OF this Cons.prems(2)] Cons.prems(3)
  obtain x where x: "x \<in> set ds"
    "d = (if doc_id x = mut_document_id m then mutated_document (adb_occurred_at c) m x else x)"
    by (auto simp: set_update_where)
  then have "doc_id d = doc_id x" by (simp add: mutated_document_def)
  with x Cons.prems(3) show ?case by auto
qed simp

lemma invalidate_parents_ok:
  assumes "foldM (invalidate_parent c p ds) ids db = Inr db'" and "project_ok X db"
    and "commit_ok db (adb_commit_id c) p"
    and "\<And>d. d \<in> set ds \<Longrightarrow> doc_id d \<notin> mut_document_id ` set (adb_mutations c)
      \<Longrightarrow> doc_deleted_at d = None \<Longrightarrow> scope_active db (p, ''document'', doc_id d)"
  shows "project_ok X db' \<and> extends db db' \<and> same_blocks db db'"
proof -
  let ?pre = "\<lambda>x. commit_ok x (adb_commit_id c) p \<and> (\<forall>d \<in> set ds.
      doc_id d \<notin> mut_document_id ` set (adb_mutations c) \<longrightarrow> doc_deleted_at d = None
      \<longrightarrow> scope_active x (p, ''document'', doc_id d))"
  have "project_ok X db' \<and> extends db db' \<and> (\<forall>i \<in> set ids. True)"
  proof (rule foldM_statements [OF assms(1,2), where Pre = ?pre])
    show "?pre db" using assms(3,4) by blast
    show "?pre d'" if "extends d d'" "?pre d" for d d'
      using that grows_commit_ok [OF extends_grows] extends_scope by blast
    fix i x x' assume ok: "project_ok X x" and pre: "?pre x" and step: "invalidate_parent c p ds i x = Inr x'"
    show "project_ok X x' \<and> extends x x' \<and> True"
    proof (cases "i \<in> set (map mut_document_id (adb_mutations c))
        \<or> \<not> list_ex (\<lambda>d. doc_id d = i \<and> doc_deleted_at d = None) ds")
      case True
      with step have "x' = x" by (auto simp: invalidate_parent_def split: if_splits)
      with ok show ?thesis by (simp add: extends_refl)
    next
      case False
      then obtain d where "d \<in> set ds" "doc_id d = i" "doc_deleted_at d = None"
        "i \<notin> mut_document_id ` set (adb_mutations c)" by (auto simp: list_ex_iff)
      with pre have act: "scope_active x (p, ''document'', i)" by blast
      from False step have "enqueue_summary_invalidation p ''document'' i (adb_commit_id c)
          (adb_reason c) (adb_occurred_at c) x = Inr x'"
        by (auto simp: invalidate_parent_def split: if_splits)
      from enqueue_ok [OF ok this] pre act show ?thesis by blast
    qed
  qed simp
  moreover have "same_blocks db db'"
    by (rule same_blocks_fold [OF assms(1)])
      (auto simp: invalidate_parent_def same_blocks_def dest: same_blocks_statements(12) split: if_splits)
  ultimately show ?thesis by blast
qed

lemma project_ok_weaken: "project_ok X db \<Longrightarrow> X \<subseteq> Y \<Longrightarrow> project_ok Y db"
  by (auto simp: project_ok_def scopes_ok_def)

text \<open>The whole batch, from the heads it was made against to the heads it leaves.\<close>

lemma apply_document_batch_store_ok:
  assumes "store_ok db" and "apply_document_batch c db = (Inr r, db')"
  shows "store_ok db'"
proof -
  note ok = store_okD [OF assms(1)]
  have keys: "keys_ok db" using ok(1) by (simp add: project_ok_def)
  let ?cid = "adb_commit_id c" and ?tm = "adb_occurred_at c" and ?h = "adb_expected_head_commit_id c"
    and ?rev = "adb_expected_project_revision c" and ?ms = "adb_mutations c"
  obtain b ds rel d1 d2 d3 d4 d5 d6 d7 d8 d9 pa where
    valid: "validate_document_batch c = Inr ()"
    and b: "find_by br_id (adb_branch_id c) (branch_t db) = Some b"
    and mem: "foldM (mutate_document c ?h) ?ms
        (sort_key doc_id (filter (\<lambda>d. doc_project_id d = br_project_id b) (document_t db)), []) = Inr (ds, rel)"
    and s1: "foldM (stage_mutation (br_project_id b)) (zip ?ms (temporary_order_keys c)) db = Inr d1"
    and s2: "foldM (write_mutation c (br_project_id b)) ?ms d1 = Inr d2"
    and s3: "insert_commit (batch_commit c (br_project_id b)) d2 = Inr d3"
    and s4: "enqueue_summary_invalidation (br_project_id b) ''project'' (br_project_id b) ?cid
        (adb_reason c) ?tm d3 = Inr d4"
    and s5: "foldM (invalidate_mutation c (br_project_id b)) ?ms d4 = Inr d5"
    and s6: "foldM (invalidate_parent c (br_project_id b) ds) (btree_iter rel) d5 = Inr d6"
    and s7: "insert_commit_parent pa d6 = Inr d7"
    and s8: "foldM insert_change_set (map (mutation_change c) (enumerate 0 ?ms)) d7 = Inr d8"
    and s9: "update_branch_head ?cid ?tm (\<lambda>b. br_id b = adb_branch_id c \<and> br_head_commit_id b = ?h) d8
        = Inr (1, d9)"
    and s10: "update_project_head ?cid (\<lambda>_. ?rev + 1) ?tm
        (\<lambda>q. pr_id q = br_project_id b \<and> pr_head_commit_id q = Some ?h \<and> pr_revision q = ?rev) d9 = Inr (1, db')"
    using assms(2) unfolding apply_document_batch_def
    by (auto simp: result_simps simp del: One_nat_def)
  let ?p = "br_project_id b" and ?X = "dropped_scopes (br_project_id b) ?ms d1"
  have b': "b \<in> set (branch_t db)" "br_id b = adb_branch_id c"
    using b keys_find(1) [OF keys] by auto
  note 1 = stage_mutations_ok [OF s1 ok(1)]
  have ok1: "project_ok ?X d1" by (rule project_ok_weaken [OF conjunct1 [OF 1] empty_subsetI])
  note 2 = write_mutations_ok [OF s2 ok1 validate_document_batch_distinct [OF valid] subset_refl]
  have ok2: "project_ok ?X d2" and g2: "grows d1 d2" and blocks2: "same_blocks d1 d2"
    using 2 by simp_all
  have active2: "scope_active d2 (?p, ''document'', mut_document_id m)" if "m \<in> set ?ms" "mut_active m" for m
    using 2 that by blast
  have other2: "scope_active d2 (q, ''document'', j)"
    if "j \<notin> mut_document_id ` set ?ms" "scope_active d1 (q, ''document'', j)" for q j
    using 2 that by blast
  note 3 = insert_commit_ok [OF ok2 s3]
  have c3: "commit_ok d3 ?cid ?p" "?cid \<notin> cb_commit_id ` set (candidate_t d3)"
    using 3(3,4) by (simp_all add: batch_commit_def)
  note 4 = enqueue_ok [OF 3(1) s4 c3(1) project_scope_active]
  have e24: "extends d2 d4" by (rule extends_trans [OF 3(2) 4(2)])
  have c4: "commit_ok d4 ?cid ?p" by (rule grows_commit_ok [OF extends_grows [OF 4(2)] c3(1)])
  have b24: "same_blocks d2 d4"
    by (rule same_blocks_trans [OF same_blocks_statements(3) [OF s3] same_blocks_statements(12) [OF s4]])
  have X4: "dropped_scopes ?p ?ms d4 = ?X"
    using same_blocks_trans [OF blocks2 b24] archived_scopes_same [of d4 d1]
    by (simp add: dropped_scopes_def same_blocks_def)
  have 5: "project_ok {} d5 \<and> extends d4 d5 \<and> same_blocks d4 d5"
    by (rule invalidate_mutations_ok [OF s5 _ c4])
      (use 4(1) X4 extends_scope [OF e24 active2] in simp_all)
  have e45: "extends d4 d5" using 5 by (elim conjE)
  have e25: "extends d2 d5" by (rule extends_trans [OF e24 e45])
  have c5: "commit_ok d5 ?cid ?p" by (rule grows_commit_ok [OF extends_grows [OF e45] c4])
  have parents: "scope_active d5 (?p, ''document'', doc_id d)"
    if "d \<in> set ds" "doc_id d \<notin> mut_document_id ` set ?ms" "doc_deleted_at d = None" for d
  proof -
    have "d \<in> set (document_t db)" "doc_project_id d = ?p"
      using mutate_documents_other [OF mem that(1,2)] by auto
    with that(3) have "scope_active db (?p, ''document'', doc_id d)"
      by (auto simp: scope_active.simps active_document_def)
    then have "scope_active d1 (?p, ''document'', doc_id d)" using 1 extends_scope by blast
    then show ?thesis by (intro extends_scope [OF e25] other2 that(2))
  qed
  have 6: "project_ok {} d6 \<and> extends d5 d6 \<and> same_blocks d5 d6"
    by (rule invalidate_parents_ok [OF s6 conjunct1 [OF 5] c5 parents])
  have e56: "extends d5 d6" using 6 by (elim conjE)
  have g: "grows db d6"
    using extends_grows [OF conjunct2 [OF 1]] g2 extends_grows [OF e25] extends_grows [OF e56]
    by (meson grows_trans)
  have e36: "extends d3 d6" by (meson 4(2) e45 e56 extends_trans)
  have c6: "commit_ok d6 ?cid ?p" "?cid \<notin> cb_commit_id ` set (candidate_t d6)"
    using grows_commit_ok [OF extends_grows [OF e36] c3(1)] c3(2) extends_frame(4) [OF e36] by simp_all
  note rec = record_change [OF conjunct1 [OF 6] grows_branch [OF g b'(1)] refl c6 s7 s8
      s9 [folded b'(2)] s10 _ disjI2 [OF refl]]
  have "same_blocks db d1"
    by (rule same_blocks_fold [OF s1])
      (auto simp: stage_mutation_def split_beta result_simps intro: same_blocks_statements(9))
  also note blocks2
  also note b24
  also have "same_blocks d4 d5" using 5 by (elim conjE)
  also have "same_blocks d5 d6" using 6 by (elim conjE)
  also have "same_blocks d6 db'" by (rule rec(4)) simp
  finally have rev: "revisions_ok db'" by (rule same_blocks_revisions [OF ok(2)])
  have p': "project_ok {} db'" by (rule rec(1)) simp
  have "same_op_tables d6 db'" "set (commit_node_t d6) \<subseteq> set (commit_node_t db')"
    by (rule rec(2), simp) (rule rec(3), simp)
  with g show ?thesis
    by (intro store_okI [OF assms(1) p' rev]) (auto simp: grows_def same_op_tables_def)
qed

end
