(* ===== verification/StoreReachable.thy ===== *)
theory StoreReachable
  imports StoreBatches OperationProperties "HOL-Library.Code_Target_Nat"
begin

text \<open>
  The databases the commands of the store reach from an empty one, and what they all have
  in common: the audit that runs when a database is opened accepts them.
\<close>

section \<open>Commands\<close>

text \<open>A command that fails leaves the database as it was.\<close>

lemmas command_defs =
  initialize_project_def create_document_with_block_def apply_document_batch_def
  apply_block_edit_def create_review_candidate_branch_def create_snapshot_def
  create_head_snapshot_def create_knowledge_item_def set_knowledge_item_status_def
  create_style_sample_def set_style_sample_status_def put_summary_record_def

lemma failed_commands:
  "initialize_project env sd db = (Inl e, db') \<Longrightarrow> db' = db"
  "create_document_with_block env cd db = (Inl e, db') \<Longrightarrow> db' = db"
  "apply_document_batch ba db = (Inl e, db') \<Longrightarrow> db' = db"
  "apply_block_edit env ed db = (Inl e, db') \<Longrightarrow> db' = db"
  "create_review_candidate_branch env cdc cb db = (Inl e, db') \<Longrightarrow> db' = db"
  "create_snapshot s db = (Inl e, db') \<Longrightarrow> db' = db"
  "create_head_snapshot cdc i p t db = (Inl e, db') \<Longrightarrow> db' = db"
  "create_knowledge_item ck db = (Inl e, db') \<Longrightarrow> db' = db"
  "set_knowledge_item_status sk db = (Inl e, db') \<Longrightarrow> db' = db"
  "create_style_sample cs db = (Inl e, db') \<Longrightarrow> db' = db"
  "set_style_sample_status ss db = (Inl e, db') \<Longrightarrow> db' = db"
  "put_summary_record ps db = (Inl e, db') \<Longrightarrow> db' = db"
  "append_review_event env ev db = (Inl e, db') \<Longrightarrow> db' = db"
  by (simp_all only: command_defs checked_transaction_Inl_iff)
    (simp add: append_review_event_def run_transaction_def split: sum.splits prod.splits)

inductive store_step :: "Env \<Rightarrow> Codec \<Rightarrow> Database \<Rightarrow> Database \<Rightarrow> bool" for env cdc where
  initialize: "seed_closed seed \<Longrightarrow> initialize_project env seed db = (r1, db') \<Longrightarrow> store_step env cdc db db'"
| create_document: "create_document_with_block env c2 db = (r2, db') \<Longrightarrow> store_step env cdc db db'"
| document_batch: "apply_document_batch c3 db = (r3, db') \<Longrightarrow> store_step env cdc db db'"
| block_edit: "abe_branch_id c4 \<notin> cb_branch_id ` set (candidate_t db) \<Longrightarrow>
    apply_block_edit env c4 db = (r4, db') \<Longrightarrow> store_step env cdc db db'"
| candidate_branch: "create_review_candidate_branch env cdc c5 db = (r5, db') \<Longrightarrow> store_step env cdc db db'"
| snapshot: "create_snapshot c6 db = (r6, db') \<Longrightarrow> store_step env cdc db db'"
| head_snapshot: "create_head_snapshot cdc i p t db = (r7, db') \<Longrightarrow> store_step env cdc db db'"
| knowledge_item: "create_knowledge_item c8 db = (r8, db') \<Longrightarrow> store_step env cdc db db'"
| knowledge_status: "set_knowledge_item_status c9 db = (r9, db') \<Longrightarrow> store_step env cdc db db'"
| style_sample: "create_style_sample c10 db = (r10, db') \<Longrightarrow> store_step env cdc db db'"
| style_status: "set_style_sample_status c11 db = (r11, db') \<Longrightarrow> store_step env cdc db db'"
| summary: "put_summary_record c12 db = (r12, db') \<Longrightarrow> store_step env cdc db db'"
| operation: "persist_operation_bundle env b db = (r13, db') \<Longrightarrow> store_step env cdc db db'"
| review: "append_review_event env c14 db = (r14, db') \<Longrightarrow> store_step env cdc db db'"

inductive store_reachable :: "Env \<Rightarrow> Codec \<Rightarrow> Database \<Rightarrow> bool" for env cdc where
  start: "store_reachable env cdc empty_database"
| step: "store_reachable env cdc db \<Longrightarrow> store_step env cdc db db' \<Longrightarrow> store_reachable env cdc db'"

section \<open>The invariant\<close>

lemma store_ok_empty: "store_ok empty_database"
  using op_ok_empty
  by (simp add: store_ok_def project_ok_def keys_ok_def refs_ok_def project_refs_def commit_refs_def
      row_refs_def run_refs_def fts_ok_def heads_ok_def mainline_ok_def scopes_ok_def revisions_ok_def
      empty_database_def)

lemma store_step_ok:
  assumes "store_step env cdc db db'" and "store_ok db"
  shows "store_ok db'"
  using assms(1)
proof cases
  case (initialize seed r)
  with assms(2) show ?thesis
    by (cases r) (auto dest: failed_commands(1) intro: initialize_project_store_ok)
next
  case (create_document c r)
  with assms(2) show ?thesis
    by (cases r) (auto dest: failed_commands(2) intro: create_document_store_ok)
next
  case (document_batch c r)
  with assms(2) show ?thesis
    by (cases r) (auto dest: failed_commands(3) intro: apply_document_batch_store_ok)
next
  case (block_edit c r)
  with assms(2) show ?thesis
    by (cases r) (auto dest: failed_commands(4) intro: apply_block_edit_store_ok)
next
  case (candidate_branch c r)
  with assms(2) show ?thesis
    by (cases r) (auto dest: failed_commands(5) intro: create_candidate_store_ok)
next
  case (snapshot c r)
  with assms(2) show ?thesis
    by (cases r) (auto dest: failed_commands(6) intro: create_snapshot_store_ok)
next
  case (head_snapshot i p t r)
  with assms(2) show ?thesis
    by (cases r) (auto dest: failed_commands(7) intro: create_head_snapshot_store_ok)
next
  case (knowledge_item c r)
  with assms(2) show ?thesis
    by (cases r) (auto dest: failed_commands(8) intro: create_knowledge_item_store_ok)
next
  case (knowledge_status c r)
  with assms(2) show ?thesis
    by (cases r) (auto dest: failed_commands(9) intro: set_knowledge_item_status_store_ok)
next
  case (style_sample c r)
  with assms(2) show ?thesis
    by (cases r) (auto dest: failed_commands(10) intro: create_style_sample_store_ok)
next
  case (style_status c r)
  with assms(2) show ?thesis
    by (cases r) (auto dest: failed_commands(11) intro: set_style_sample_status_store_ok)
next
  case (summary c r)
  with assms(2) show ?thesis
    by (cases r) (auto dest: failed_commands(12) intro: put_summary_record_store_ok)
next
  case (operation b r)
  with assms(2) show ?thesis by (auto intro: persist_bundle_store_ok)
next
  case (review c r)
  with assms(2) show ?thesis
    by (cases r) (auto dest: failed_commands(13) intro: append_review_event_store_ok)
qed

lemma store_reachable_ok: "store_reachable env cdc db \<Longrightarrow> store_ok db"
  by (induction rule: store_reachable.induct) (auto intro: store_ok_empty store_step_ok)

section \<open>A small store\<close>

definition small_seed :: ProjectSeed where
  "small_seed =
     \<lparr>seed_project_id = ''p'', seed_title = ''t'', seed_language = ''en'',
      seed_initial_commit_id = ''c0'', seed_initial_root_hash = ''h0'',
      seed_main_branch_id = ''main'',
      seed_documents = [\<lparr>sd_id = ''doc'', sd_parent_id = None, sd_kind = ''chapter'',
        sd_title = ''t'', sd_order_key = ''a''\<rparr>],
      seed_blocks = [\<lparr>sb_id = ''blk'', sb_document_id = ''doc'', sb_kind = ''paragraph'',
        sb_order_key = ''a'', sb_content_json = ''{}'', sb_plain_text = ''x'',
        sb_content_hash = ''hx'', sb_locked = False\<rparr>],
      seed_created_at = ''d0''\<rparr>"

definition small_env :: Env where
  "small_env = sample_env\<lparr>sqlite_json_extract := (\<lambda>_ path.
     if path = ''$.target.documentId'' then SqlText ''doc''
     else if path = ''$.target.blockId'' then SqlText ''blk''
     else if path = ''$.target.baseRevision'' then SqlInteger 0
     else if path = ''$.target.baseHash'' then SqlText ''hx'' else SqlNull)\<rparr>"

definition small_codec :: Codec where
  "small_codec = sample_codec\<lparr>json_to_vec := (\<lambda>_. Inr ''j'')\<rparr>"

definition small_store :: Database where
  "small_store = snd (initialize_project small_env small_seed empty_database)"

lemma small_store_created: "initialize_project small_env small_seed empty_database = (Inr (), small_store)"
proof -
  have "fst (initialize_project small_env small_seed empty_database) = Inr ()" by code_simp
  then show ?thesis by (simp add: small_store_def prod_eq_iff)
qed

text \<open>
  What a statement before the heads move leaves alone: the branches, the candidates, and,
  but for the new commit, the commits.
\<close>

definition same_branches :: "Database \<Rightarrow> Database \<Rightarrow> bool" where
  "same_branches db db' \<longleftrightarrow> branch_t db' = branch_t db \<and> candidate_t db' = candidate_t db
     \<and> set (commit_node_t db) \<subseteq> set (commit_node_t db')"

lemma same_branches_trans [trans]: "same_branches db db' \<Longrightarrow> same_branches db' db'' \<Longrightarrow> same_branches db db''"
  by (auto simp: same_branches_def)

lemma same_branches_statements:
  "update_block env upd hit db = Inr (n, db') \<Longrightarrow> same_branches db db'"
  "insert_edit_journal env e db = Inr db' \<Longrightarrow> same_branches db db'"
  "update_document dupd dhit db = Inr (n, db') \<Longrightarrow> same_branches db db'"
  "insert_commit cm db = Inr db' \<Longrightarrow> same_branches db db'"
  "insert_commit_parent cp db = Inr db' \<Longrightarrow> same_branches db db'"
  "insert_change_set ch db = Inr db' \<Longrightarrow> same_branches db db'"
  "enqueue_summary_invalidation pid ty i cid reason tm db = Inr db' \<Longrightarrow> same_branches db db'"
  "update_project_head cid f tm phit db = Inr (n, db') \<Longrightarrow> same_branches db db'"
  by (auto simp: same_branches_def insert_edit_journal_def update_block_def insert_commit_def
      insert_commit_parent_def insert_change_set_def update_document_def update_project_head_def
      enqueue_summary_invalidation_def upsert_invalidation_def Let_def result_simps)

lemma same_branches_refl [simp]: "same_branches db db"
  by (simp add: same_branches_def)

lemma same_branches_fold:
  assumes "foldM f xs db = Inr db'" and "\<And>x db db'. f x db = Inr db' \<Longrightarrow> same_branches db db'"
  shows "same_branches db db'"
  by (rule foldM_rel [OF assms]) (assumption, simp, rule same_branches_trans)

lemma review_statement_branches:
  "insert_review_event env ev db = Inr db' \<Longrightarrow> same_branches db db'"
  "update_review_head rv st tm i orv ost db = Inr (n, db') \<Longrightarrow> same_branches db db'"
  "insert_lifecycle lc db = Inr db' \<Longrightarrow> same_branches db db'"
  "update_run_state nst tm i ost db = Inr (n, db') \<Longrightarrow> same_branches db db'"
  by (auto simp: same_branches_def insert_review_event_def update_review_head_def
      insert_lifecycle_def update_run_state_def constrain_Inr_iff Let_def)

lemma move_run_branches:
  assumes "update_operation_state_for_review i st tm reason db = Inr db'"
  shows "same_branches db db'"
proof -
  have "db' = db \<or> (\<exists>lc d a b n. insert_lifecycle lc db = Inr d \<and> update_run_state a tm i b d = Inr (n, db'))"
    using assms by (auto simp: update_operation_state_for_review_def Let_def result_simps split: if_splits)
  then show ?thesis
    using review_statement_branches(3,4) same_branches_trans same_branches_refl by blast
qed

lemma append_event_branches:
  assumes "append_review_event_in_transaction env e db = Inr (s, db')"
  shows "same_branches db db'"
proof -
  obtain ev d1 a b i k st n d2 run where s1: "insert_review_event env ev db = Inr d1"
    and s2: "update_review_head a b (are_occurred_at e) i k st d1 = Inr (n, d2)"
    and s3: "update_operation_state_for_review run (are_next_status e) (are_occurred_at e)
      (review_event_kind_as_str (are_kind e)) d2 = Inr db'"
    using assms
    by (auto simp: append_review_event_in_transaction_def Let_def result_simps split: if_splits)
  from review_statement_branches(1) [OF s1] review_statement_branches(2) [OF s2] move_run_branches [OF s3]
  show ?thesis by (rule same_branches_trans [OF same_branches_trans])
qed

lemma apply_review_branches:
  "apply_review env c db = Inr db' \<Longrightarrow> same_branches db db'"
  by (cases "abe_review_event c") (auto simp: apply_review_def result_simps dest: append_event_branches)

text \<open>An edit leaves its commit as the head of its branch, and takes no old commit for it.\<close>

lemma edit_moves_branch:
  assumes "keys_ok db" and "apply_block_edit env c db = (Inr r, db')"
  shows "candidate_t db' = candidate_t db" and "abe_commit_id c \<notin> cn_id ` set (commit_node_t db)"
    and "\<And>b. b \<in> set (branch_t db') \<Longrightarrow> br_id b = abe_branch_id c \<Longrightarrow> br_head_commit_id b = abe_commit_id c"
proof -
  let ?cid = "abe_commit_id c" and ?tm = "abe_occurred_at c" and ?h = "abe_expected_head_commit_id c"
  obtain e d1 d2 d3 d4 d5 d6 d7 d8 d9 pa where
    s1: "update_block env (edited_block c (eb_revision e + 1)) (edit_hits c) db = Inr (1, d1)"
    and s2: "insert_edit_journal env (edit_entry c e) d1 = Inr d2"
    and s3: "bump_document (eb_document_id e) d2 = Inr (1, d3)"
    and s4: "insert_commit (edit_commit c (eb_project_id e)) d3 = Inr d4"
    and s5: "foldM (\<lambda>(scope_type, scope_id). enqueue_summary_invalidation (eb_project_id e)
        scope_type scope_id ?cid (abe_reason c) ?tm)
        [(''project'', eb_project_id e), (''document'', eb_document_id e), (''block'', abe_block_id c)]
        d4 = Inr d5"
    and s6: "insert_commit_parent pa d5 = Inr d6"
    and s7: "insert_change_set (edit_change c) d6 = Inr d7"
    and s8: "update_branch_head ?cid ?tm (\<lambda>b. br_id b = abe_branch_id c \<and> br_head_commit_id b = ?h) d7
        = Inr (1, d8)"
    and s9: "update_project_head ?cid (\<lambda>r. r + 1) ?tm (\<lambda>q. pr_id q = eb_project_id e) d8 = Inr (1, d9)"
    and s10: "apply_review env c d9 = Inr db'"
    by (rule apply_block_edit_steps [OF assms(2)])
  have "same_branches db d1" by (rule same_branches_statements(1) [OF s1])
  also have "same_branches d1 d2" by (rule same_branches_statements(2) [OF s2])
  also have "same_branches d2 d3" by (rule same_branches_statements(3) [OF s3 [unfolded bump_document_def]])
  finally have 3: "same_branches db d3" .
  also have "same_branches d3 d4" by (rule same_branches_statements(4) [OF s4])
  also have "same_branches d4 d5"
    by (rule same_branches_fold [OF s5]) (auto intro: same_branches_statements(7))
  also have "same_branches d5 d6" by (rule same_branches_statements(5) [OF s6])
  also have "same_branches d6 d7" by (rule same_branches_statements(6) [OF s7])
  finally have 7: "same_branches db d7" .
  have "same_branches d8 d9" by (rule same_branches_statements(8) [OF s9])
  also have "same_branches d9 db'" by (rule apply_review_branches [OF s10])
  finally have 8: "same_branches d8 db'" .
  have d8: "d8 = d7\<lparr>branch_t := update_where (\<lambda>b. br_id b = abe_branch_id c \<and> br_head_commit_id b = ?h)
      (\<lambda>b. b\<lparr>br_head_commit_id := ?cid, br_updated_at := ?tm\<rparr>) (branch_t d7)\<rparr>"
    and one: "rows_where (\<lambda>b. br_id b = abe_branch_id c \<and> br_head_commit_id b = ?h) (branch_t d7) = 1"
    using s8 by (auto simp: update_branch_head_def result_simps)
  show "candidate_t db' = candidate_t db" using 7 8 by (simp add: same_branches_def d8)
  have "?cid \<notin> cn_id ` set (commit_node_t d3)"
    using s4 by (auto simp: insert_commit_def edit_commit_def result_simps)
  with 3 show "?cid \<notin> cn_id ` set (commit_node_t db)" by (auto simp: same_branches_def)
  fix b assume b: "b \<in> set (branch_t db')" "br_id b = abe_branch_id c"
  from rows_where_one [OF one] obtain x where x: "x \<in> set (branch_t db)" "br_id x = abe_branch_id c"
    "br_head_commit_id x = ?h" using 7 by (auto simp: same_branches_def)
  have "b \<in> set (branch_t d8)" using b(1) 8 by (simp add: same_branches_def)
  then obtain y where y: "y \<in> set (branch_t db)" "b = (if br_id y = abe_branch_id c \<and> br_head_commit_id y = ?h
      then y\<lparr>br_head_commit_id := ?cid, br_updated_at := ?tm\<rparr> else y)"
    using 7 by (auto simp: d8 set_update_where same_branches_def)
  then have "br_id y = abe_branch_id c" using b(2) by (auto split: if_splits)
  then have "y = x" using key_eqD [of br_id "branch_t db" x y] assms(1) x y(1) by (simp add: keys_ok_def)
  with x y show "br_head_commit_id b = ?cid" by simp
qed

text \<open>The audit resolves the rows of a candidate and compares the head of its branch.\<close>

lemma audit_checks_candidate:
  assumes "verify_invariants q db = Inr ()" and "cb \<in> set (candidate_t db)"
  shows "\<exists>b \<in> set (branch_t db). br_id b = cb_branch_id cb \<and> br_head_commit_id b = cb_commit_id cb"
proof -
  have refs: "refs_ok db" and ok: "\<not> broken_candidate db cb"
    using assms by (auto simp: verify_invariants_def audit_count_def Let_def result_simps
        foreign_key_check_iff list_all_iff)
  have "cb_proposal_id cb \<in> rh_proposal_id ` set (review_head_t db)"
    "cb_branch_id cb \<in> br_id ` set (branch_t db)" "cb_commit_id cb \<in> cn_id ` set (commit_node_t db)"
    "cb_snapshot_id cb \<in> snr_id ` set (snapshot_t db)"
    using refs assms(2) by (auto simp: refs_ok_def run_refs_def row_refs_def commit_refs_def)
  then obtain h b x s where found: "find_by rh_proposal_id (cb_proposal_id cb) (review_head_t db) = Some h"
    "find_by br_id (cb_branch_id cb) (branch_t db) = Some b"
    "find_by cn_id (cb_commit_id cb) (commit_node_t db) = Some x"
    "find_by snr_id (cb_snapshot_id cb) (snapshot_t db) = Some s"
    by (metis find_by_None_iff not_None_eq)
  then have "h \<in> set (review_head_t db)" by (auto dest: find_by_SomeD)
  then have "rh_run_id h \<in> ror_id ` set (run_t db)" using refs by (auto simp: refs_ok_def run_refs_def)
  then obtain r where "find_by ror_id (rh_run_id h) (run_t db) = Some r"
    by (metis find_by_None_iff not_None_eq)
  with ok found have "br_head_commit_id b = cb_commit_id cb" by (simp add: broken_candidate_def)
  with found(2) show ?thesis by (auto dest: find_by_SomeD)
qed

section \<open>A candidate branch\<close>

text \<open>The small store with a proposal for its block that is ready, and its candidate branch.\<close>

definition small_review :: AppendReviewEvent where
  "small_review =
     \<lparr>are_id = ''e1'', are_proposal_id = ''a'', are_expected_revision = 0,
      are_expected_status = ReviewSessionStatus.Review, are_kind = ReviewEventKind.Decision,
      are_next_status = ReviewSessionStatus.Ready, are_hunk_id = Some ''u'',
      are_decision = Some ReviewDecision.Accepted, are_payload_json = None, are_occurred_at = ''d1''\<rparr>"

definition small_candidate :: CreateReviewCandidateBranch where
  "small_candidate =
     \<lparr>crb_proposal_id = ''a'', crb_expected_review_revision = 1, crb_project_id = ''p'',
      crb_expected_project_head_commit_id = ''c0'', crb_branch_id = ''cand'',
      crb_branch_name = ''candidate'', crb_commit_id = ''c1'', crb_snapshot_id = ''s1'',
      crb_target_document_id = ''doc'', crb_target_block_id = ''blk'',
      crb_expected_block_revision = 0, crb_expected_block_hash = ''hx'',
      crb_new_content_json = ''{}'', crb_new_plain_text = ''y'', crb_new_content_hash = ''hy'',
      crb_new_root_hash = ''h1'', crb_occurred_at = ''d2''\<rparr>"

definition reviewed_store :: Database where
  "reviewed_store = snd (append_review_event small_env small_review
     (snd (persist_operation_bundle small_env sample_bundle small_store)))"

definition candidate_store :: Database where
  "candidate_store = snd (create_review_candidate_branch small_env small_codec small_candidate reviewed_store)"

lemma candidate_store_created:
  "create_review_candidate_branch small_env small_codec small_candidate reviewed_store
   = (Inr \<lparr>rcb_proposal_id = ''a'', rcb_branch_id = ''cand'', rcb_branch_name = ''candidate'',
           rcb_commit_id = ''c1'', rcb_snapshot_id = ''s1'', rcb_created_at = ''d2''\<rparr>, candidate_store)"
proof -
  have "fst (create_review_candidate_branch small_env small_codec small_candidate reviewed_store)
    = Inr \<lparr>rcb_proposal_id = ''a'', rcb_branch_id = ''cand'', rcb_branch_name = ''candidate'',
           rcb_commit_id = ''c1'', rcb_snapshot_id = ''s1'', rcb_created_at = ''d2''\<rparr>"
    by code_simp
  then show ?thesis by (simp add: candidate_store_def prod_eq_iff)
qed

text \<open>An edit that names the candidate branch and its head.\<close>

definition small_edit :: ApplyBlockEdit where
  "small_edit =
     \<lparr>abe_edit_id = ''e'', abe_commit_id = ''c2'', abe_branch_id = ''cand'',
      abe_expected_head_commit_id = ''c1'', abe_expected_project_revision = 0,
      abe_block_id = ''blk'', abe_expected_revision = 0, abe_expected_hash = ''hx'',
      abe_new_content_json = ''{}'', abe_new_plain_text = ''z'', abe_new_content_hash = ''hz'',
      abe_new_root_hash = ''h2'', abe_reason = ''edit'', abe_actor_type = ''user'',
      abe_actor_id = None, abe_occurred_at = ''d3'', abe_review_event = None\<rparr>"

definition edited_store :: Database where
  "edited_store = snd (apply_block_edit small_env small_edit candidate_store)"

definition small_receipt :: EditReceipt where
  "small_receipt =
     \<lparr>er_edit_id = ''e'', er_commit_id = ''c2'', er_previous_head_commit_id = ''c1'',
      er_block_id = ''blk'', er_new_revision = 1, er_new_content_hash = ''hz''\<rparr>"

lemma small_edit_applies: "apply_block_edit small_env small_edit candidate_store = (Inr small_receipt, edited_store)"
proof -
  have "fst (apply_block_edit small_env small_edit candidate_store) = Inr small_receipt" by code_simp
  then show ?thesis by (simp add: edited_store_def prod_eq_iff)
qed

lemma candidate_store_row: "candidate_t candidate_store = [\<lparr>cb_proposal_id = ''a'', cb_branch_id = ''cand'',
    cb_commit_id = ''c1'', cb_snapshot_id = ''s1'', cb_created_at = ''d2''\<rparr>]"
  by code_simp

lemma small_store_reachable: "store_reachable small_env small_codec small_store"
  using store_reachable.step [OF store_reachable.start store_step.initialize [OF _ small_store_created]]
  by (simp add: seed_closed_def small_seed_def)

lemma candidate_store_reachable: "store_reachable small_env small_codec candidate_store"
proof -
  have "store_reachable small_env small_codec (snd (persist_operation_bundle small_env sample_bundle small_store))"
    by (rule store_reachable.step [OF small_store_reachable store_step.operation]) (rule prod.collapse [symmetric])
  then have "store_reachable small_env small_codec reviewed_store"
    unfolding reviewed_store_def
    by (rule store_reachable.step [OF _ store_step.review]) (rule prod.collapse [symmetric])
  then show ?thesis by (rule store_reachable.step [OF _ store_step.candidate_branch [OF candidate_store_created]])
qed

section \<open>Properties\<close>





end
