(* ===== verification/EditReady.thy ===== *)
theory EditReady
  imports StoreReachable
begin

text \<open>
  When an edit of a block succeeds. The precondition is stated over the rows of the tables;
  given the invariant of the store and the constraints that the tables check on every
  write, it is exact: no statement of the edit can fail for another reason.
\<close>

text \<open>What the CHECK and UNIQUE clauses promise of the rows that are stored.\<close>

definition constraints_ok :: "Env \<Rightarrow> Database \<Rightarrow> bool" where
  "constraints_ok env db \<longleftrightarrow>
     list_all (\<lambda>b. json_valid env (blk_content_json b)) (block_t db)
     \<and> distinct (map (\<lambda>b. (blk_document_id b, blk_order_key b)) (block_t db))
     \<and> list_all (\<lambda>d. 0 \<le> doc_revision d \<and> list_all (\<lambda>x. doc_id x = doc_id d \<or> \<not> sibling_clash d x)
         (document_t db)) (document_t db)"

text \<open>The heads and the block are what the command expects, and its ids are new.\<close>

definition edit_ready :: "Env \<Rightarrow> ApplyBlockEdit \<Rightarrow> Database \<Rightarrow> bool" where
  "edit_ready env c db \<longleftrightarrow>
     validate_edit c = Inr ()
     \<and> (\<exists>k \<in> set (block_t db). \<exists>d \<in> set (document_t db). \<exists>b \<in> set (branch_t db). \<exists>p \<in> set (project_t db).
          edit_hits c k \<and> doc_id d = blk_document_id k \<and> doc_deleted_at d = None
          \<and> br_id b = abe_branch_id c \<and> br_project_id b = doc_project_id d
          \<and> br_head_commit_id b = abe_expected_head_commit_id c
          \<and> pr_id p = br_project_id b \<and> pr_revision p = abe_expected_project_revision c)
     \<and> abe_commit_id c \<notin> cn_id ` set (commit_node_t db)
     \<and> abe_edit_id c \<notin> ej_id ` set (edit_journal_t db)
     \<and> json_valid env (abe_new_content_json c)"

section \<open>A success was ready\<close>

lemma edit_success_ready:
  assumes "keys_ok db" and "apply_block_edit env c db = (Inr r, db')"
  shows "edit_ready env c db"
proof -
  obtain e b d1 d2 d3 d4 where
    e: "read_block_for_edit (abe_block_id c) db = Inr e"
    and b: "find_by br_id (abe_branch_id c) (branch_t db) = Some b"
    and p: "br_project_id b = eb_project_id e"
    and s1: "update_block env (edited_block c (eb_revision e + 1)) (edit_hits c) db = Inr (1, d1)"
    and s2: "insert_edit_journal env (edit_entry c e) d1 = Inr d2"
    and s3: "bump_document (eb_document_id e) d2 = Inr (1, d3)"
    and s4: "insert_commit (edit_commit c (eb_project_id e)) d3 = Inr d4"
    by (rule apply_block_edit_steps [OF assms(2)])
  obtain q where q: "find_by pr_id (br_project_id b) (project_t db) = Some q"
    and expected: "br_head_commit_id b = abe_expected_head_commit_id c"
      "pr_revision q = abe_expected_project_revision c"
    and valid: "validate_edit c = Inr ()"
    using assms(2) b unfolding apply_block_edit_def by (auto simp: result_simps)
  obtain d k where d: "d \<in> set (document_t db)" "doc_id d = eb_document_id e" "doc_project_id d = eb_project_id e"
    and k: "k \<in> set (block_t db)" "blk_id k = abe_block_id c" "blk_document_id k = eb_document_id e"
    by (rule read_block_for_edit_facts [OF assms(1) e])
  note f1 = update_block_frame [OF s1]
  from rows_where_one [OF sym [OF f1(5)]] obtain x where x: "x \<in> set (block_t db)" "edit_hits c x" by blast
  then have "x = k"
    using key_eqD [of blk_id "block_t db" k x] k assms(1) by (simp add: keys_ok_def edit_hits_def)
  have tables: "document_t d2 = document_t db" "set (commit_node_t d3) = set (commit_node_t db)"
    "edit_journal_t d1 = edit_journal_t db"
    using s1 s2 s3 by (auto simp: update_block_def insert_edit_journal_def bump_document_def
        update_document_def Let_def result_simps)
  have "rows_where (\<lambda>y. doc_id y = eb_document_id e \<and> doc_deleted_at y = None) (document_t db) = 1"
    using s3 tables(1) by (auto simp: bump_document_def update_document_def Let_def result_simps rows_where_def)
  from rows_where_one [OF this] obtain y where y: "y \<in> set (document_t db)" "doc_id y = eb_document_id e"
    "doc_deleted_at y = None" by blast
  then have "y = d" using key_eqD [of doc_id "document_t db" d y] d assms(1) by (simp add: keys_ok_def)
  moreover have "b \<in> set (branch_t db)" "br_id b = abe_branch_id c" "q \<in> set (project_t db)"
    "pr_id q = br_project_id b"
    using b q find_by_SomeD by fast+
  moreover have "abe_commit_id c \<notin> cn_id ` set (commit_node_t db)"
    using s4 tables(2) by (auto simp: insert_commit_def edit_commit_def result_simps)
  moreover have "abe_edit_id c \<notin> ej_id ` set (edit_journal_t db)" "json_valid env (abe_new_content_json c)"
    using s2 tables(3) by (auto simp: insert_edit_journal_def edit_entry_def result_simps)
  ultimately show ?thesis
    unfolding edit_ready_def using valid d k p x \<open>x = k\<close> y expected by metis
qed

section \<open>What is ready succeeds\<close>

lemma read_block_for_edit_succeeds:
  assumes "keys_ok db" and "k \<in> set (block_t db)" and "blk_deleted_at k = None"
    and "d \<in> set (document_t db)" and "doc_id d = blk_document_id k"
  shows "read_block_for_edit (blk_id k) db = Inr
    \<lparr>eb_project_id = doc_project_id d, eb_document_id = blk_document_id k, eb_revision = blk_revision k,
     eb_content_hash = blk_content_hash k, eb_content_json = blk_content_json k,
     eb_plain_text = blk_plain_text k, eb_locked = blk_locked k\<rparr>"
proof -
  let ?P = "\<lambda>(x, b). blk_id b = blk_id k \<and> blk_deleted_at b = None"
  have doc: "find_by doc_id (blk_document_id k) (document_t db) = Some d"
    using keys_find(3) [OF assms(1)] assms(4,5) by blast
  then have "(d, k) \<in> set (joined_blocks db)"
    using assms(2) by (force simp: joined_blocks_def map_filter_def)
  then have "List.find ?P (joined_blocks db) \<noteq> None"
    using assms(3) by (auto simp: find_None_iff)
  then obtain x b where found: "List.find ?P (joined_blocks db) = Some (x, b)" by auto
  note hit = find_joined [where P = "\<lambda>x b. blk_id b = blk_id k \<and> blk_deleted_at b = None", OF assms(1) found]
  have "b = k" using key_eqD [of blk_id "block_t db" k b] assms(1,2) hit by (simp add: keys_ok_def)
  moreover then have "x = d"
    using key_eqD [of doc_id "document_t db" d x] assms(1,4,5) hit by (simp add: keys_ok_def)
  ultimately show ?thesis using found by (simp add: read_block_for_edit_def)
qed

lemma enqueue_all_succeeds:
  assumes "p \<in> pr_id ` set (project_t db)" and "cid \<in> cn_id ` set (commit_node_t db)"
    and "list_all (\<lambda>(ty, i). ty \<in> set scope_types) ss"
  shows "\<exists>rows. foldM (\<lambda>(ty, i). enqueue_summary_invalidation p ty i cid reason tm) ss db
    = Inr (db\<lparr>invalidation_t := rows\<rparr>)"
  using assms
proof (induction ss arbitrary: db)
  case Nil
  have "db = db\<lparr>invalidation_t := invalidation_t db\<rparr>" by simp
  then show ?case by (metis foldM.simps(1))
next
  case (Cons s ss)
  obtain ty i where s: "s = (ty, i)" by (cases s)
  obtain rows where one: "enqueue_summary_invalidation p ty i cid reason tm db = Inr (db\<lparr>invalidation_t := rows\<rparr>)"
    using Cons.prems s by (auto simp: enqueue_summary_invalidation_def upsert_invalidation_def constrain_def)
  obtain rows' where "foldM (\<lambda>(ty, i). enqueue_summary_invalidation p ty i cid reason tm) ss
      (db\<lparr>invalidation_t := rows\<rparr>) = Inr (db\<lparr>invalidation_t := rows\<rparr>\<lparr>invalidation_t := rows'\<rparr>)"
    using Cons.IH [of "db\<lparr>invalidation_t := rows\<rparr>"] Cons.prems by auto
  with one s show ?case by auto
qed

text \<open>The one row that the \<open>WHERE\<close> clause of a key hits.\<close>

lemma filter_one:
  assumes "distinct (map key rows)" and "x \<in> set rows" and "hit x"
    and unique: "\<And>y. hit y \<Longrightarrow> key y = key x"
  shows "filter hit rows = [x]"
  using assms(1,2)
proof (induction rows)
  case (Cons a rows)
  show ?case
  proof (cases "a = x")
    case True
    have "\<not> hit y" if "y \<in> set rows" for y
      using Cons.prems(1) unique [of y] that True by (auto simp: image_iff)
    then show ?thesis using True assms(3) by (simp add: filter_empty_conv)
  next
    case False
    then have x: "x \<in> set rows" using Cons.prems(2) by simp
    then have "\<not> hit a" using Cons.prems(1) unique [of a] by (auto simp: image_iff)
    then show ?thesis using Cons.IH Cons.prems(1) x by simp
  qed
qed simp

section \<open>The precondition is exact\<close>

lemma ready_edit_succeeds:
  assumes keys: "keys_ok db" and refs: "refs_ok db" and con: "constraints_ok env db"
    and ready: "edit_ready env c db" and review: "abe_review_event c = None"
  shows "\<exists>r db'. apply_block_edit env c db = (Inr r, db')"
proof -
  from ready obtain k d b p where k: "k \<in> set (block_t db)" "edit_hits c k"
    and d: "d \<in> set (document_t db)" "doc_id d = blk_document_id k" "doc_deleted_at d = None"
    and b: "b \<in> set (branch_t db)" "br_id b = abe_branch_id c" "br_project_id b = doc_project_id d"
      "br_head_commit_id b = abe_expected_head_commit_id c"
    and p: "p \<in> set (project_t db)" "pr_id p = br_project_id b" "pr_revision p = abe_expected_project_revision c"
    and fresh: "abe_commit_id c \<notin> cn_id ` set (commit_node_t db)" "abe_edit_id c \<notin> ej_id ` set (edit_journal_t db)"
    and json: "json_valid env (abe_new_content_json c)" and valid: "validate_edit c = Inr ()"
    unfolding edit_ready_def by blast
  let ?cid = "abe_commit_id c" and ?tm = "abe_occurred_at c" and ?h = "abe_expected_head_commit_id c"
    and ?pid = "doc_project_id d" and ?did = "blk_document_id k"
  note kc = k(2) [unfolded edit_hits_def]
  define e where "e = \<lparr>eb_project_id = ?pid, eb_document_id = ?did, eb_revision = blk_revision k,
     eb_content_hash = blk_content_hash k, eb_content_json = blk_content_json k,
     eb_plain_text = blk_plain_text k, eb_locked = blk_locked k\<rparr>"
  have read: "read_block_for_edit (abe_block_id c) db = Inr e"
    using read_block_for_edit_succeeds [OF keys k(1) _ d(1,2)] kc by (simp add: e_def)
  have nonneg: "0 \<le> abe_expected_revision c" "0 \<le> abe_expected_project_revision c"
    using valid by (simp_all add: validate_edit_def result_simps)
  have branch: "find_by br_id (abe_branch_id c) (branch_t db) = Some b"
    "find_by pr_id (br_project_id b) (project_t db) = Some p"
    using keys_find(1,2) [OF keys] b(1,2) p(1,2) by auto
  have distinct_keys: "distinct (map blk_id (block_t db))" "distinct (map doc_id (document_t db))"
    "distinct (map br_id (branch_t db))" "distinct (map pr_id (project_t db))"
    using keys by (simp_all add: keys_ok_def)
  have hits: "filter (edit_hits c) (block_t db) = [k]"
    by (rule filter_one [where key = blk_id and rows = "block_t db" and hit = "edit_hits c" and x = k])
      (use distinct_keys(1) k kc in \<open>auto simp: edit_hits_def\<close>)
  have doc_hits: "filter (\<lambda>y. doc_id y = ?did \<and> doc_deleted_at y = None) (document_t db) = [d]"
    by (rule filter_one [where key = doc_id and x = d]) (use distinct_keys(2) d in auto)
  have branch_hits: "filter (\<lambda>y. br_id y = abe_branch_id c \<and> br_head_commit_id y = ?h) (branch_t db) = [b]"
    by (rule filter_one [where key = br_id and x = b]) (use distinct_keys(3) b in auto)
  have project_hits: "filter (\<lambda>y. pr_id y = ?pid) (project_t db) = [p]"
    by (rule filter_one [where key = pr_id and x = p]) (use distinct_keys(4) p b in auto)
  have order: "blk_document_id x \<noteq> ?did \<or> blk_order_key x \<noteq> blk_order_key k"
    if "x \<in> set (block_t db)" "blk_id x \<noteq> blk_id k" for x
    using con that k(1) key_eqD [of "\<lambda>b. (blk_document_id b, blk_order_key b)" "block_t db" k x]
    by (auto simp: constraints_ok_def)
  define d1 where "d1 = db\<lparr>block_t := update_where (edit_hits c) (edited_block c (blk_revision k + 1)) (block_t db),
    block_fts_t := filter (\<lambda>f. fts_block_id f \<notin> blk_id ` set [k]) (block_fts_t db)
      @ concat (map (fts_rows \<circ> edited_block c (blk_revision k + 1)) [k])\<rparr>"
  have s1: "update_block env (edited_block c (blk_revision k + 1)) (edit_hits c) db = Inr (1, d1)"
    using json nonneg kc order d(1,2)
    by (force simp: update_block_def hits constrain_Inr_iff d1_def edited_block_def exists_row_def)
  define d2 where "d2 = d1\<lparr>edit_journal_t := edit_journal_t d1 @ [edit_entry c e]\<rparr>"
  have blocks1: "blk_id ` set (block_t d1) = blk_id ` set (block_t db)"
    by (simp add: d1_def edited_block_def)
  have refs': "?pid \<in> pr_id ` set (project_t db)" "?h \<in> cn_id ` set (commit_node_t db)"
    "par_commit_id ` set (commit_parent_t db) \<subseteq> cn_id ` set (commit_node_t db)"
    "chg_commit_id ` set (change_set_t db) \<subseteq> cn_id ` set (commit_node_t db)"
  proof -
    have "doc_project_id ` set (document_t db) \<subseteq> pr_id ` set (project_t db)"
      "br_head_commit_id ` set (branch_t db) \<subseteq> cn_id ` set (commit_node_t db)"
      using refs by (simp_all add: refs_defs)
    then show "?pid \<in> pr_id ` set (project_t db)" "?h \<in> cn_id ` set (commit_node_t db)"
      using d(1) b(1) b(4) [symmetric] by auto
  qed (use refs in \<open>simp_all add: refs_defs\<close>)
  have "Option.these (doc_parent_id ` set (document_t db)) \<subseteq> doc_id ` set (document_t db)"
    using refs by (simp add: refs_ok_def row_refs_def)
  then have parent: "x \<in> doc_id ` set (document_t db)" if "doc_parent_id d = Some x" for x
    using that d(1) by (force simp: in_these_eq image_iff)
  have s2: "insert_edit_journal env (edit_entry c e) d1 = Inr d2"
  proof -
    have "json_valid env (blk_content_json k)" using con k(1) by (simp add: constraints_ok_def list_all_iff)
    moreover have "abe_block_id c \<in> blk_id ` set (block_t d1)" using kc k(1) blocks1 by force
    moreover have "?pid \<in> pr_id ` set (project_t d1)" "edit_journal_t d1 = edit_journal_t db"
      using refs'(1) by (simp_all add: d1_def)
    ultimately show ?thesis using nonneg kc json fresh(2)
      by (simp add: insert_edit_journal_def constrain_Inr_iff edit_entry_def e_def d2_def)
  qed
  define d3 where "d3 = d2\<lparr>document_t := update_where (\<lambda>y. doc_id y = ?did \<and> doc_deleted_at y = None)
      (\<lambda>y. y\<lparr>doc_revision := doc_revision y + 1\<rparr>) (document_t d2)\<rparr>"
  have doc2: "document_t d2 = document_t db" by (simp add: d2_def d1_def)
  have s3: "bump_document ?did d2 = Inr (1, d3)"
  proof -
    have "0 \<le> doc_revision d" and clash: "\<And>x. x \<in> set (document_t db) \<Longrightarrow> doc_id x = doc_id d \<or> \<not> sibling_clash d x"
      using con d(1) by (auto simp: constraints_ok_def list_all_iff)
    moreover have "sibling_clash (d\<lparr>doc_revision := i\<rparr>) = sibling_clash d" for i
      by (auto simp: sibling_clash_def fun_eq_iff)
    ultimately show ?thesis using parent
      by (cases "doc_parent_id d")
        (auto simp: bump_document_def update_document_def Let_def doc2 doc_hits constrain_Inr_iff d3_def)
  qed
  define d4 where "d4 = d3\<lparr>commit_node_t := commit_node_t d3 @ [edit_commit c ?pid]\<rparr>"
  have s4: "insert_commit (edit_commit c ?pid) d3 = Inr d4"
    using fresh(1) refs'(1)
    by (simp add: insert_commit_def constrain_Inr_iff edit_commit_def d4_def) (simp add: d3_def d2_def d1_def)
  have tables4: "project_t d4 = project_t db" "commit_node_t d4 = commit_node_t db @ [edit_commit c ?pid]"
    "branch_t d4 = branch_t db" "commit_parent_t d4 = commit_parent_t db" "change_set_t d4 = change_set_t db"
    "edit_journal_t d4 = edit_journal_t db @ [edit_entry c e]"
    by (simp_all add: d4_def d3_def d2_def d1_def)
  have cid: "?cid \<in> cn_id ` set (commit_node_t d4)" by (simp add: tables4 edit_commit_def)
  obtain rows where s5: "foldM (\<lambda>(ty, i). enqueue_summary_invalidation ?pid ty i ?cid (abe_reason c) ?tm)
      [(''project'', ?pid), (''document'', ?did), (''block'', abe_block_id c)] d4
      = Inr (d4\<lparr>invalidation_t := rows\<rparr>)"
    using enqueue_all_succeeds [of ?pid d4 ?cid "[(''project'', ?pid), (''document'', ?did), (''block'', abe_block_id c)]"
      "abe_reason c" ?tm] refs'(1) cid tables4(1) by (auto simp: scope_types_def)
  define d6 where "d6 = d4\<lparr>invalidation_t := rows, commit_parent_t := commit_parent_t d4 @
      [\<lparr>par_commit_id = ?cid, par_parent_id = ?h, par_position = 0\<rparr>]\<rparr>"
  have s6: "insert_commit_parent \<lparr>par_commit_id = ?cid, par_parent_id = ?h, par_position = 0\<rparr>
      (d4\<lparr>invalidation_t := rows\<rparr>) = Inr d6"
    using cid refs'(2,3) fresh(1)
    by (auto simp: insert_commit_parent_def constrain_Inr_iff d6_def tables4)
  define d7 where "d7 = d6\<lparr>change_set_t := change_set_t d6 @ [edit_change c]\<rparr>"
  have s7: "insert_change_set (edit_change c) d6 = Inr d7"
    using cid refs'(4) fresh(1)
    by (auto simp: insert_change_set_def constrain_Inr_iff d7_def d6_def tables4 edit_change_def edit_entry_def)
  define d8 where "d8 = d7\<lparr>branch_t := update_where (\<lambda>y. br_id y = abe_branch_id c \<and> br_head_commit_id y = ?h)
      (\<lambda>y. y\<lparr>br_head_commit_id := ?cid, br_updated_at := ?tm\<rparr>) (branch_t d7)\<rparr>"
  have s8: "update_branch_head ?cid ?tm (\<lambda>y. br_id y = abe_branch_id c \<and> br_head_commit_id y = ?h) d7 = Inr (1, d8)"
    using cid branch_hits
    by (simp add: update_branch_head_def constrain_Inr_iff rows_where_def d8_def)
      (simp add: d7_def d6_def tables4)
  define d9 where "d9 = d8\<lparr>project_t := update_where (\<lambda>y. pr_id y = ?pid)
      (\<lambda>y. y\<lparr>pr_head_commit_id := Some ?cid, pr_revision := pr_revision y + 1, pr_updated_at := ?tm\<rparr>)
      (project_t d8)\<rparr>"
  have s9: "update_project_head ?cid (\<lambda>r. r + 1) ?tm (\<lambda>y. pr_id y = ?pid) d8 = Inr (1, d9)"
  proof -
    have "p \<in> set (project_t d8) \<and> filter (\<lambda>y. pr_id y = ?pid) (project_t d8) = [p]"
      using p(1) project_hits by (simp add: d8_def d7_def d6_def tables4)
    moreover have "0 \<le> pr_revision p" using p(3) nonneg(2) by simp
    moreover have "y = p" if "y \<in> set (project_t d8)" "pr_id y = ?pid" for y
    proof -
      have "y \<in> set (filter (\<lambda>y. pr_id y = ?pid) (project_t d8))" using that by simp
      then show ?thesis using calculation(1) by auto
    qed
    ultimately show ?thesis
      by (auto simp: update_project_head_def constrain_Inr_iff rows_where_def d9_def)
  qed
  have head: "read_branch_head (abe_branch_id c) db = Inr (?pid, ?h, abe_expected_project_revision c)"
    using branch b(3,4) p(3) by (simp add: read_branch_head_def)
  have revision: "eb_revision e = blk_revision k" "eb_document_id e = ?did" "eb_project_id e = ?pid"
    "eb_content_hash e = blk_content_hash k" "\<not> eb_locked e"
    using kc by (simp_all add: e_def)
  show ?thesis
    using kc s1 s2 s3 s4 s5 s6 s7 s8 s9 review
    by (simp add: apply_block_edit_def checked_transaction_def run_transaction_def valid read head revision
        expect_head_def apply_review_def one_row_def)
qed

section \<open>One writer wins\<close>

text \<open>What a command that succeeds saw as the head of its branch.\<close>

lemma edit_saw_head:
  assumes "apply_block_edit env c db = (Inr r, db')"
  shows "\<exists>b \<in> set (branch_t db). br_id b = abe_branch_id c \<and> br_head_commit_id b = abe_expected_head_commit_id c"
  using assms unfolding apply_block_edit_def expect_head_def
  by (auto simp: result_simps dest!: find_by_SomeD)

lemma create_saw_head:
  assumes "create_document_with_block env c db = (Inr r, db')"
  shows "\<exists>b \<in> set (branch_t db). br_id b = cdb_branch_id c \<and> br_head_commit_id b = cdb_expected_head_commit_id c"
  using assms unfolding create_document_with_block_def expect_head_def
  by (auto simp: result_simps dest!: find_by_SomeD)

lemma batch_saw_head:
  assumes "apply_document_batch c db = (Inr r, db')"
  shows "\<exists>b \<in> set (branch_t db). br_id b = adb_branch_id c \<and> br_head_commit_id b = adb_expected_head_commit_id c"
  using assms unfolding apply_document_batch_def expect_head_def
  by (auto simp: result_simps dest!: find_by_SomeD)

text \<open>After an edit, no row of its branch is on the head that the edit expected.\<close>

lemma edit_leaves_expected_head:
  assumes "keys_ok db" and "refs_ok db" and edit: "apply_block_edit env c db = (Inr r, db')"
    and "b \<in> set (branch_t db')" and "br_id b = abe_branch_id c"
  shows "br_head_commit_id b \<noteq> abe_expected_head_commit_id c"
proof -
  obtain x where "x \<in> set (branch_t db)" "br_head_commit_id x = abe_expected_head_commit_id c"
    using edit_saw_head [OF edit] by blast
  moreover have "br_head_commit_id ` set (branch_t db) \<subseteq> cn_id ` set (commit_node_t db)"
    using assms(2) by (simp add: refs_ok_def commit_refs_def)
  ultimately have "abe_expected_head_commit_id c \<in> cn_id ` set (commit_node_t db)" by force
  then show ?thesis using edit_moves_branch(2,3) [OF assms(1) edit] assms(4,5) by metis
qed

section \<open>Properties\<close>

text \<open>An edit of the main line of the small store.\<close>

definition main_edit :: ApplyBlockEdit where
  "main_edit = small_edit\<lparr>abe_branch_id := ''main'', abe_expected_head_commit_id := ''c0''\<rparr>"

lemma small_store_constraints: "constraints_ok small_env small_store"
  by code_simp

lemma main_edit_ready: "edit_ready small_env main_edit small_store"
  by code_simp


text \<open>
  C7. Of the writers that read the same head of a branch, one wins. In a store that the commands
  reach, once an edit has succeeded, every edit, document creation or batch of document
  mutations that names the same branch and expects the same head is refused, and the
  refusal changes nothing.
\<close>

theorem stale_head_refused:
  assumes "store_reachable env cdc db" and edit: "apply_block_edit env c db = (Inr r, db')"
  shows "(abe_branch_id e = abe_branch_id c \<and> abe_expected_head_commit_id e = abe_expected_head_commit_id c
      \<longrightarrow> (\<exists>err. apply_block_edit env e db' = (Inl err, db')))
    \<and> (cdb_branch_id n = abe_branch_id c \<and> cdb_expected_head_commit_id n = abe_expected_head_commit_id c
      \<longrightarrow> (\<exists>err. create_document_with_block env n db' = (Inl err, db')))
    \<and> (adb_branch_id m = abe_branch_id c \<and> adb_expected_head_commit_id m = abe_expected_head_commit_id c
      \<longrightarrow> (\<exists>err. apply_document_batch m db' = (Inl err, db')))"
proof -
  have ok: "keys_ok db" "refs_ok db"
    using store_okD(1) [OF store_reachable_ok [OF assms(1)]] by (simp_all add: project_ok_def)
  note moved = edit_leaves_expected_head [OF ok edit]
  have refused: "\<exists>err. p = (Inl err, db')"
    if "\<And>x db''. p \<noteq> (Inr x, db'')" "\<And>err db''. p = (Inl err, db'') \<Longrightarrow> db'' = db'" for p :: "'z StoreResult \<times> Database"
    using that by (cases p; cases "fst p") auto
  have "\<exists>err. apply_block_edit env e db' = (Inl err, db')"
    if "abe_branch_id e = abe_branch_id c" "abe_expected_head_commit_id e = abe_expected_head_commit_id c"
    using edit_saw_head [of env e db'] moved that
    by (intro refused) (fastforce simp: apply_block_edit_def checked_transaction_Inl_iff)+
  moreover have "\<exists>err. create_document_with_block env n db' = (Inl err, db')"
    if "cdb_branch_id n = abe_branch_id c" "cdb_expected_head_commit_id n = abe_expected_head_commit_id c"
    using create_saw_head [of env n db'] moved that
    by (intro refused) (fastforce simp: create_document_with_block_def checked_transaction_Inl_iff)+
  moreover have "\<exists>err. apply_document_batch m db' = (Inl err, db')"
    if "adb_branch_id m = abe_branch_id c" "adb_expected_head_commit_id m = abe_expected_head_commit_id c"
    using batch_saw_head [of m db'] moved that
    by (intro refused) (fastforce simp: apply_document_batch_def checked_transaction_Inl_iff)+
  ultimately show ?thesis by blast
qed

text \<open>A second writer that read the same head.\<close>

definition late_edit :: ApplyBlockEdit where
  "late_edit = main_edit\<lparr>abe_edit_id := ''e2'', abe_commit_id := ''c3'', abe_expected_project_revision := 1,
     abe_expected_revision := 1, abe_expected_hash := ''hz''\<rparr>"

lemma main_edit_applies: "fst (apply_block_edit small_env main_edit small_store)
    = Inr (small_receipt\<lparr>er_previous_head_commit_id := ''c0''\<rparr>)"
  by code_simp

theorem stale_head_refused_witness:
  "\<exists>err. apply_block_edit small_env late_edit (snd (apply_block_edit small_env main_edit small_store))
     = (Inl err, snd (apply_block_edit small_env main_edit small_store))"
proof -
  have edit: "apply_block_edit small_env main_edit small_store = (Inr (small_receipt\<lparr>er_previous_head_commit_id := ''c0''\<rparr>),
      snd (apply_block_edit small_env main_edit small_store))"
    using main_edit_applies by (simp add: prod_eq_iff)
  show ?thesis
    using stale_head_refused [OF small_store_reachable edit, of late_edit] by (simp add: late_edit_def)
qed

end
