(* ===== verification/HostText.thy ===== *)
theory HostText
  imports Schema "HOL-Library.Code_Target_Nat"
begin

text \<open>
  The string functions of the standard library that the host uses, on UTF-8 bytes: ASCII
  case and classes, prefixes, search and replacement, splitting at a byte, and the check of
  \<open>str::from_utf8\<close>. The lemmas say what a prefix and a replacement can contain.
\<close>

section \<open>Bytes\<close>

definition ascii_digit :: "char \<Rightarrow> bool" where
  "ascii_digit c \<longleftrightarrow> of_char c \<in> {48..57 :: nat}"

definition ascii_upper :: "char \<Rightarrow> bool" where
  "ascii_upper c \<longleftrightarrow> of_char c \<in> {65..90 :: nat}"

definition ascii_lower :: "char \<Rightarrow> bool" where
  "ascii_lower c \<longleftrightarrow> of_char c \<in> {97..122 :: nat}"

definition ascii_alphanumeric :: "char \<Rightarrow> bool" where
  "ascii_alphanumeric c \<longleftrightarrow> ascii_digit c \<or> ascii_upper c \<or> ascii_lower c"

definition lower_hex_digit :: "char \<Rightarrow> bool" where
  "lower_hex_digit c \<longleftrightarrow> ascii_digit c \<or> of_char c \<in> {97..102 :: nat}"

definition lower_byte :: "char \<Rightarrow> char" where
  "lower_byte c = (if ascii_upper c then char_of (of_char c + 32 :: nat) else c)"

definition to_ascii_lowercase :: "string \<Rightarrow> string" where
  "to_ascii_lowercase s = map lower_byte s"

text \<open>Letters, digits, \<open>_\<close> and \<open>-\<close>: the bytes of an identifier of the host.\<close>

definition safe_name :: "nat \<Rightarrow> string \<Rightarrow> bool" where
  "safe_name limit s \<longleftrightarrow> s \<noteq> [] \<and> length s \<le> limit
     \<and> list_all (\<lambda>c. ascii_alphanumeric c \<or> c = CHR ''_'' \<or> c = CHR ''-'') s"

text \<open>\<open>char::is_control\<close>: U+0000 to U+001F and U+007F to U+009F.\<close>

definition control_char :: "string \<Rightarrow> bool" where
  "control_char c =
     (let b = map of_char c :: nat list in
      (length b = 1 \<and> (b ! 0 < 32 \<or> b ! 0 = 127))
      \<or> (length b = 2 \<and> b ! 0 = 194 \<and> 128 \<le> b ! 1 \<and> b ! 1 \<le> 159))"

section \<open>Search\<close>

definition starts_with :: "string \<Rightarrow> string \<Rightarrow> bool" where
  "starts_with s p \<longleftrightarrow> take (length p) s = p"

definition ends_with :: "string \<Rightarrow> string \<Rightarrow> bool" where
  "ends_with s p \<longleftrightarrow> length p \<le> length s \<and> drop (length s - length p) s = p"

definition strip_prefix :: "bytes \<Rightarrow> bytes \<Rightarrow> bytes option" where
  "strip_prefix s p = (if starts_with s p then Some (drop (length p) s) else None)"

fun contains :: "string \<Rightarrow> string \<Rightarrow> bool" where
  "contains [] p \<longleftrightarrow> p = []"
| "contains (c # cs) p \<longleftrightarrow> starts_with (c # cs) p \<or> contains cs p"

text \<open>\<open>s.split(b)\<close> for a byte \<open>b\<close>: the pieces between its occurrences.\<close>

fun split_at :: "char \<Rightarrow> string \<Rightarrow> string list" where
  "split_at b [] = [[]]"
| "split_at b (c # cs) =
     (if c = b then [] # split_at b cs
      else case split_at b cs of [] \<Rightarrow> [[c]] | p # ps \<Rightarrow> (c # p) # ps)"

text \<open>\<open>s.replace(p, r)\<close> for a pattern that is not empty: matches from the left, without overlap.\<close>

function replace_all :: "string \<Rightarrow> string \<Rightarrow> string \<Rightarrow> string" where
  "replace_all [] p r = []"
| "replace_all (c # cs) p r =
     (if p \<noteq> [] \<and> starts_with (c # cs) p then r @ replace_all (drop (length p) (c # cs)) p r
      else c # replace_all cs p r)"
  by pat_completeness auto
termination
  by (relation "measure (\<lambda>(s, _, _). length s)") auto

text \<open>\<open>s.chars().take(n).collect()\<close>.\<close>

definition take_chars :: "nat \<Rightarrow> string \<Rightarrow> string" where
  "take_chars n s = concat (take n (utf8_chars s))"

section \<open>UTF-8\<close>

text \<open>\<open>std::str::from_utf8\<close> accepts exactly the well-formed sequences of table 3-7 of Unicode.\<close>

definition in_range :: "nat \<Rightarrow> nat \<Rightarrow> nat \<Rightarrow> bool" where
  "in_range lo hi b \<longleftrightarrow> lo \<le> b \<and> b \<le> hi"

fun utf8_bytes :: "nat list \<Rightarrow> bool" where
  "utf8_bytes [] = True"
| "utf8_bytes (a # bs) =
     (if a < 128 then utf8_bytes bs
      else if in_range 194 223 a then
        (case bs of b # cs \<Rightarrow> in_range 128 191 b \<and> utf8_bytes cs | [] \<Rightarrow> False)
      else if in_range 224 239 a then
        (case bs of b # c # cs \<Rightarrow>
           in_range (if a = 224 then 160 else 128) (if a = 237 then 159 else 191) b
           \<and> in_range 128 191 c \<and> utf8_bytes cs | _ \<Rightarrow> False)
      else if in_range 240 244 a then
        (case bs of b # c # d # cs \<Rightarrow>
           in_range (if a = 240 then 144 else 128) (if a = 244 then 143 else 191) b
           \<and> in_range 128 191 c \<and> in_range 128 191 d \<and> utf8_bytes cs | _ \<Rightarrow> False)
      else False)"

definition utf8_valid :: "bytes \<Rightarrow> bool" where
  "utf8_valid s \<longleftrightarrow> utf8_bytes (map of_char s)"

lemma utf8_valid_Nil [simp]: "utf8_valid []"
  by (simp add: utf8_valid_def)

lemma utf8_valid_ascii [simp]: "of_char c < (128 :: nat) \<Longrightarrow> utf8_valid (c # s) \<longleftrightarrow> utf8_valid s"
  by (simp add: utf8_valid_def)

section \<open>Prefixes and replacement\<close>

lemma starts_with_iff: "starts_with s p \<longleftrightarrow> (\<exists>t. s = p @ t)"
  by (metis append_eq_conv_conj append_take_drop_id starts_with_def)

lemma starts_with_Nil [simp]: "starts_with s []"
  by (simp add: starts_with_def)

lemma starts_with_Cons [simp]: "starts_with (c # s) (d # p) \<longleftrightarrow> c = d \<and> starts_with s p"
  by (auto simp: starts_with_def)

lemma starts_with_Nil_Cons [simp]: "\<not> starts_with [] (d # p)"
  by (simp add: starts_with_def)

lemma contains_iff: "contains s p \<longleftrightarrow> (\<exists>a b. s = a @ p @ b)"
proof (induction s)
  case (Cons c cs)
  have "(\<exists>a b. c # cs = a @ p @ b) \<longleftrightarrow> (\<exists>b. c # cs = p @ b) \<or> (\<exists>a b. cs = a @ p @ b)"
    by (auto simp: Cons_eq_append_conv)
  then show ?case using Cons.IH by (simp add: starts_with_iff)
qed auto

lemma contains_prefix: "contains s p \<Longrightarrow> contains (s @ t) p"
  unfolding contains_iff by (metis append.assoc)

lemma take_chars_prefix: "\<exists>t. s = take_chars n s @ t"
  by (metis append_take_drop_id concat_append concat_utf8_chars take_chars_def)

lemma contains_take_chars: "contains (take_chars n s) p \<Longrightarrow> contains s p"
  using take_chars_prefix [of s n] contains_prefix by metis

lemma contains_append_start:
  "contains (a @ s) p \<longleftrightarrow> (\<exists>i < length a. starts_with (drop i a @ s) p) \<or> contains s p"
proof (induction a)
  case (Cons c a)
  have "(\<exists>i < length (c # a). starts_with (drop i (c # a) @ s) p)
      \<longleftrightarrow> starts_with (c # a @ s) p \<or> (\<exists>i < length a. starts_with (drop i a @ s) p)"
    by (auto simp: less_Suc_eq_0_disj)
  then show ?case using Cons.IH by auto
qed simp

text \<open>
  A pattern that avoids the first byte of the replacement is found in front of a replaced
  text only where it was in front of the text.
\<close>

lemma starts_with_replace_all:
  assumes "starts_with (replace_all s p (b # r)) q" and "b \<notin> set q"
  shows "starts_with s q"
  using assms
proof (induction s arbitrary: q)
  case (Cons c cs)
  then show ?case by (cases q) (auto split: if_splits)
qed auto

text \<open>
  What replaces a pattern hides it: when the replacement is bracketed by bytes that the
  pattern avoids and does not hold the pattern in between, no occurrence is left.
\<close>

lemma bracketed_start:
  assumes "p \<noteq> []" and "b \<notin> set p" and "e \<notin> set p" and "\<not> contains r p" and "i < length (b # r @ [e])"
  shows "\<not> starts_with (drop i (b # r @ [e]) @ t) p"
proof
  assume start: "starts_with (drop i (b # r @ [e]) @ t) p"
  show False
  proof (cases i)
    case 0
    with start assms(1,2) show False by (cases p) auto
  next
    case (Suc j)
    with assms(5) have j: "j \<le> length r" by simp
    with start Suc obtain u where "drop j r @ e # t = p @ u" by (auto simp: starts_with_iff)
    then obtain us where "drop j r = p @ us \<or> p = drop j r @ us \<and> e # t = us @ u"
      by (auto simp: append_eq_append_conv2)
    then show False
    proof
      assume "drop j r = p @ us"
      then have "r = take j r @ p @ us" by (metis append_take_drop_id)
      with assms(4) show False by (metis contains_iff)
    next
      assume us: "p = drop j r @ us \<and> e # t = us @ u"
      show False
      proof (cases us)
        case Nil
        with us have "r = take j r @ p @ []" by simp
        with assms(4) show False by (metis contains_iff)
      next
        case (Cons x xs)
        with us assms(3) show False by auto
      qed
    qed
  qed
qed

lemma replace_all_hides:
  assumes "p \<noteq> []" and "b \<notin> set p" and "e \<notin> set p" and "\<not> contains r p"
  shows "\<not> contains (replace_all s p (b # r @ [e])) p"
proof (induction s rule: length_induct)
  case (1 s)
  show ?case
  proof (cases s)
    case Nil
    then show ?thesis using assms(1) by simp
  next
    case (Cons c cs)
    show ?thesis
    proof (cases "starts_with s p")
      case True
      have "length (drop (length p) s) < length s" using assms(1) Cons by simp
      then have later: "\<not> contains (replace_all (drop (length p) s) p (b # r @ [e])) p"
        using "1.IH" by blast
      have "replace_all s p (b # r @ [e])
          = (b # r @ [e]) @ replace_all (drop (length p) s) p (b # r @ [e])"
        using True assms(1) Cons by simp
      then show ?thesis
        using later bracketed_start [OF assms] by (simp only: contains_append_start) blast
    next
      case False
      have "\<not> contains (replace_all cs p (b # r @ [e])) p" using "1.IH" Cons by simp
      moreover have "\<not> starts_with (c # replace_all cs p (b # r @ [e])) p"
      proof
        assume start: "starts_with (c # replace_all cs p (b # r @ [e])) p"
        then obtain q where q: "p = c # q" using assms(1) by (cases p) auto
        then have "starts_with cs q"
          using start starts_with_replace_all [of cs p b "r @ [e]" q] assms(2) by auto
        with False q Cons show False by simp
      qed
      ultimately show ?thesis using False Cons by simp
    qed
  qed
qed

end
