(* ===== verification/GatewayModel.thy ===== *)
theory GatewayModel
  imports HostText Complex_Main
begin

text \<open>
  The data of the model gateway (\<open>model_gateway.rs\<close>, \<open>model_gateway_transport.rs\<close>): requests,
  provider configurations, authorizations, stream events, errors and prepared requests, and
  the trusted endpoints of \<open>trusted_model_endpoints.rs\<close> they refer to. Field names carry the
  initials of their struct. \<open>u16\<close>, \<open>u32\<close>, \<open>u64\<close> and \<open>usize\<close> are \<open>nat\<close>; the one addition that
  can leave the range wraps where it is written. \<open>OffsetDateTime\<close> is a point in time as an
  \<open>int\<close> of seconds. The headers of a response are an association list in place of the
  \<open>BTreeMap\<close>, read only.
\<close>

section \<open>Enumerations\<close>

datatype OpenAICompatibleMaxOutputTokenField = MaxTokens | MaxCompletionTokens

fun token_field_as_str :: "OpenAICompatibleMaxOutputTokenField \<Rightarrow> string" where
  "token_field_as_str MaxTokens = ''max_tokens''"
| "token_field_as_str MaxCompletionTokens = ''max_completion_tokens''"

datatype ModelProviderId = Deepseek | Qwen | Kimi | Minimax | Ollama | OpenAICompatible

fun provider_as_str :: "ModelProviderId \<Rightarrow> string" where
  "provider_as_str Deepseek = ''deepseek''"
| "provider_as_str Qwen = ''qwen''"
| "provider_as_str Kimi = ''kimi''"
| "provider_as_str Minimax = ''minimax''"
| "provider_as_str Ollama = ''ollama''"
| "provider_as_str OpenAICompatible = ''openai_compatible''"

fun provider_label :: "ModelProviderId \<Rightarrow> string" where
  "provider_label Deepseek = ''DeepSeek''"
| "provider_label Qwen = ''Qwen''"
| "provider_label Kimi = ''Kimi''"
| "provider_label Minimax = ''MiniMax''"
| "provider_label Ollama = ''Ollama''"
| "provider_label OpenAICompatible = ''OpenAI-compatible''"

datatype StreamContentMode = Delta | Cumulative

definition stream_mode :: "ModelProviderId \<Rightarrow> StreamContentMode" where
  "stream_mode p = (if p = Minimax then Cumulative else Delta)"

datatype QwenDeploymentRegion = China | Singapore | Us | Germany | Japan

datatype ModelMessageRole = System | User | Assistant | Tool

fun role_as_str :: "ModelMessageRole \<Rightarrow> string" where
  "role_as_str System = ''system''"
| "role_as_str User = ''user''"
| "role_as_str Assistant = ''assistant''"
| "role_as_str Tool = ''tool''"

datatype ReasoningMode = Enabled | Disabled | Adaptive

fun reasoning_mode_as_str :: "ReasoningMode \<Rightarrow> string" where
  "reasoning_mode_as_str Enabled = ''enabled''"
| "reasoning_mode_as_str Disabled = ''disabled''"
| "reasoning_mode_as_str Adaptive = ''adaptive''"

datatype ReasoningEffort = LowEffort | MediumEffort | HighEffort | MaxEffort

fun effort_as_str :: "ReasoningEffort \<Rightarrow> string" where
  "effort_as_str LowEffort = ''low''"
| "effort_as_str MediumEffort = ''medium''"
| "effort_as_str HighEffort = ''high''"
| "effort_as_str MaxEffort = ''max''"

datatype ModelResponseFormat = TextFormat | JsonObject

fun format_as_str :: "ModelResponseFormat \<Rightarrow> string" where
  "format_as_str TextFormat = ''text''"
| "format_as_str JsonObject = ''json_object''"

datatype ModelToolChoice = NoTools | AutoTools | RequiredTools

fun choice_as_str :: "ModelToolChoice \<Rightarrow> string" where
  "choice_as_str NoTools = ''none''"
| "choice_as_str AutoTools = ''auto''"
| "choice_as_str RequiredTools = ''required''"

datatype ModelStopSequences = OneStop string | ManyStops "string list"

fun stop_values :: "ModelStopSequences \<Rightarrow> string list" where
  "stop_values (OneStop s) = [s]"
| "stop_values (ManyStops ss) = ss"

datatype ModelFinishReason =
  Stop | LengthReached | ContentFilter | ToolCalls | InsufficientSystemResource | UnknownReason

definition finish_reason_from_value :: "json option \<Rightarrow> ModelFinishReason" where
  "finish_reason_from_value v =
     (case Option.bind v json_as_str of
        None \<Rightarrow> UnknownReason
      | Some s \<Rightarrow>
          if s = ''stop'' then Stop else if s = ''length'' then LengthReached
          else if s = ''content_filter'' then ContentFilter
          else if s = ''tool_calls'' then ToolCalls
          else if s = ''insufficient_system_resource'' then InsufficientSystemResource
          else UnknownReason)"

datatype ModelHttpMethod = Get | Post

text \<open>A double, as far as the checks of a request look at it.\<close>

datatype f64 = Finite rat | Infinite | NotANumber

section \<open>Requests, answers and errors\<close>

record TrustedModelEndpointCapabilities =
  tmc_json_object :: bool
  tmc_stream_usage :: bool
  tmc_max_output_token_field :: OpenAICompatibleMaxOutputTokenField

record TrustedModelEndpoint =
  tme_schema_version :: nat
  tme_id :: string
  tme_label :: string
  tme_hostname :: string
  tme_base_path :: string
  tme_base_url :: string
  tme_credential_ref :: string
  tme_capabilities :: TrustedModelEndpointCapabilities
  tme_revision :: nat
  tme_created_at :: string
  tme_updated_at :: string

record QwenProviderConfiguration =
  qpc_region :: QwenDeploymentRegion
  qpc_workspace_id :: "string option"

record OpenAICompatibleProviderConfiguration =
  ocp_endpoint_id :: string
  ocp_endpoint_revision :: nat
  ocp_json_object :: bool
  ocp_stream_usage :: bool
  ocp_max_output_token_field :: OpenAICompatibleMaxOutputTokenField

record ModelProviderConfiguration =
  mpc_schema_version :: nat
  mpc_id :: string
  mpc_provider_id :: ModelProviderId
  mpc_enabled :: bool
  mpc_default_model :: string
  mpc_credential_ref :: string
  mpc_qwen :: "QwenProviderConfiguration option"
  mpc_openai_compatible :: "OpenAICompatibleProviderConfiguration option"
  mpc_default_timeout_ms :: nat
  mpc_max_request_bytes :: nat
  mpc_updated_at :: string

record ModelToolCallFunction =
  mtcf_name :: string
  mtcf_arguments :: string

record ModelToolCall =
  mtc_id :: string
  mtc_kind :: string
  mtc_function :: ModelToolCallFunction

record ModelMessage =
  mm_role :: ModelMessageRole
  mm_content :: string
  mm_name :: "string option"
  mm_reasoning_content :: "string option"
  mm_tool_call_id :: "string option"
  mm_tool_calls :: "(ModelToolCall list) option"

record ModelToolDefinitionFunction =
  mtdf_name :: string
  mtdf_description :: "string option"
  mtdf_parameters :: "json option"
  mtdf_strict :: "bool option"

record ModelToolDefinition =
  mtd_kind :: string
  mtd_function :: ModelToolDefinitionFunction

record ReasoningOptions =
  ro_mode :: ReasoningMode
  ro_effort :: "ReasoningEffort option"
  ro_preserve :: "bool option"

record ModelRequest =
  mr_model :: "string option"
  mr_messages :: "ModelMessage list"
  mr_max_output_tokens :: "nat option"
  mr_temperature :: "f64 option"
  mr_top_p :: "f64 option"
  mr_stop :: "ModelStopSequences option"
  mr_response_format :: "ModelResponseFormat option"
  mr_reasoning :: "ReasoningOptions option"
  mr_tools :: "(ModelToolDefinition list) option"
  mr_tool_choice :: "ModelToolChoice option"

record ModelExecutionRequest =
  mer_schema_version :: nat
  mer_request_id :: string
  mer_configuration :: ModelProviderConfiguration
  mer_request :: ModelRequest

record ConfirmedContextPacket =
  ccp_id :: string
  ccp_hash :: string
  ccp_payload_json :: string

record ModelAuthorizationScope =
  mas_project_id :: string
  mas_base_commit_id :: string
  mas_operation_intent_id :: string
  mas_confirmed_context :: ConfirmedContextPacket
  mas_target_block_id :: string
  mas_target_block_revision :: int
  mas_target_block_hash :: string

record ModelRequestAuthorization =
  mra_schema_version :: nat
  mra_authorization_id :: string
  mra_request_id :: string
  mra_provider_id :: ModelProviderId
  mra_expires_at :: string

record ModelUsage =
  usg_input_tokens :: nat
  usg_output_tokens :: nat
  usg_total_tokens :: nat
  usg_cached_input_tokens :: "nat option"
  usg_reasoning_tokens :: "nat option"

record ModelExecutionSummary =
  mes_schema_version :: nat
  mes_request_id :: string
  mes_response_id :: string
  mes_provider_id :: ModelProviderId
  mes_model :: string
  mes_content :: string
  mes_reasoning_content :: string
  mes_finish_reason :: ModelFinishReason
  mes_usage :: "ModelUsage option"

record OllamaModelInfo =
  omi_id :: string
  omi_created :: "nat option"
  omi_owned_by :: "string option"

record OllamaModelList =
  oml_schema_version :: nat
  oml_endpoint :: string
  oml_models :: "OllamaModelInfo list"

record OpenAICompatibleModelList =
  ocl_schema_version :: nat
  ocl_endpoint_id :: string
  ocl_endpoint :: string
  ocl_models :: "OllamaModelInfo list"

record CancelModelRequestResponse =
  cmr_schema_version :: nat
  cmr_request_id :: string
  cmr_cancelled :: bool

record ModelGatewayError =
  mge_code :: string
  mge_message :: string
  mge_provider_id :: "ModelProviderId option"
  mge_status :: "nat option"
  mge_remote_code :: "string option"
  mge_remote_request_id :: "string option"
  mge_retry_after_ms :: "nat option"
  mge_retriable :: bool

record ModelHttpResponseHead =
  mhr_status :: nat
  mhr_headers :: "(string \<times> string) list"

record PreparedModelRequest =
  pmr_request_id :: string
  pmr_provider_id :: ModelProviderId
  pmr_host :: string
  pmr_path :: string
  pmr_port :: nat
  pmr_use_tls :: bool
  pmr_use_system_proxy :: bool
  pmr_method :: ModelHttpMethod
  pmr_body :: bytes
  pmr_timeout_ms :: nat
  pmr_max_response_bytes :: nat

record PendingModelAuthorization =
  pma_input :: ModelExecutionRequest
  pma_scope :: ModelAuthorizationScope
  pma_expires_at :: int

section \<open>Stream events\<close>

datatype ModelStreamEvent =
  StartEvent string string ModelProviderId string
| TextDelta string
| ReasoningDelta string
| ToolCallDelta nat "string option" "string option" "string option"
| UsageEvent ModelUsage
| FinishEvent ModelFinishReason

section \<open>Errors\<close>

definition gateway_error :: "string \<Rightarrow> string \<Rightarrow> ModelGatewayError" where
  "gateway_error code message =
     \<lparr>mge_code = code, mge_message = message, mge_provider_id = None, mge_status = None,
      mge_remote_code = None, mge_remote_request_id = None, mge_retry_after_ms = None,
      mge_retriable = False\<rparr>"

definition for_provider :: "ModelProviderId \<Rightarrow> ModelGatewayError \<Rightarrow> ModelGatewayError" where
  "for_provider p e = e\<lparr>mge_provider_id := Some p\<rparr>"

abbreviation provider_error :: "ModelProviderId \<Rightarrow> string \<Rightarrow> string \<Rightarrow> ModelGatewayError" where
  "provider_error p code message \<equiv> for_provider p (gateway_error code message)"

abbreviation protocol_error :: "ModelProviderId \<Rightarrow> string \<Rightarrow> ModelGatewayError" where
  "protocol_error p message \<equiv> provider_error p ''PROVIDER_PROTOCOL'' message"

definition response_header :: "ModelHttpResponseHead \<Rightarrow> string \<Rightarrow> string option" where
  "response_header h name = map_of (mhr_headers h) (to_ascii_lowercase name)"

section \<open>Limits\<close>

definition REQUEST_SCHEMA_VERSION :: nat where "REQUEST_SCHEMA_VERSION = 1"
definition MAX_TIMEOUT_MS :: nat where "MAX_TIMEOUT_MS = 3600000"
definition MAX_REQUEST_BYTES :: nat where "MAX_REQUEST_BYTES = 67108864"
definition MAX_RESPONSE_BYTES :: nat where "MAX_RESPONSE_BYTES = 67108864"
definition MAX_ERROR_BYTES :: nat where "MAX_ERROR_BYTES = 65536"
definition MAX_SSE_EVENT_BYTES :: nat where "MAX_SSE_EVENT_BYTES = 4 * 1024 * 1024"
definition MAX_OUTPUT_BYTES :: nat where "MAX_OUTPUT_BYTES = 32 * 1024 * 1024"
definition MODEL_AUTHORIZATION_TTL_SECONDS :: int where "MODEL_AUTHORIZATION_TTL_SECONDS = 120"
definition MAX_PENDING_MODEL_AUTHORIZATIONS :: nat where "MAX_PENDING_MODEL_AUTHORIZATIONS = 32"

section \<open>JSON numbers\<close>

text \<open>
  \<open>Value::as_u64\<close>: the number is an unsigned integer of 64 bits. \<open>serde_json\<close> prints such a
  number, and no other, as digits alone.
\<close>

definition json_as_u64 :: "json \<Rightarrow> nat option" where
  "json_as_u64 j =
     (case j of JNumber s \<Rightarrow>
        if s \<noteq> [] \<and> list_all ascii_digit s
        then (let n = foldl (\<lambda>n c. 10 * n + (of_char c - 48)) 0 s
              in if n < 2 ^ 64 then Some n else None)
        else None
      | _ \<Rightarrow> None)"

fun json_as_array :: "json \<Rightarrow> json list option" where
  "json_as_array (JArray vs) = Some vs"
| "json_as_array _ = None"

fun json_as_object :: "json \<Rightarrow> (string \<times> json) list option" where
  "json_as_object (JObject m) = Some m"
| "json_as_object _ = None"

text \<open>
  What the gateway takes from libraries: \<open>from_slice\<close> parses JSON, \<open>rfc3339\<close> accepts a time
  stamp and \<open>retry_after\<close> is the wait that a \<open>Retry-After\<close> header asks for, which may depend
  on the clock.
\<close>

record GatewayEnv =
  from_slice :: "bytes \<Rightarrow> json option"
  to_vec :: "json \<Rightarrow> bytes option"
  f64_value :: "f64 \<Rightarrow> json"
  rfc3339 :: "string \<Rightarrow> bool"
  rfc3339_format :: "int \<Rightarrow> string + string"
  retry_after :: "string \<Rightarrow> nat option"

end
