(* ===== verification/RegistryFile.thy ===== *)
theory RegistryFile
  imports HostText
begin

text \<open>
  How the host keeps a registry in a file (\<open>persist\<close>, \<open>replace_registry\<close>, \<open>replace_config\<close> and
  the choice of the source in \<open>load_registry\<close> and \<open>load_config\<close> of
  \<open>trusted_model_endpoints.rs\<close>, \<open>recent_projects.rs\<close> and \<open>user_config.rs\<close>): the new content
  is written to a temporary file, the file is renamed to its backup, and the temporary file to
  the file. Any file operation may fail, and the process may stop after any of them: a run
  is the list of the states of the three files that it goes through.
\<close>

section \<open>Files and operations\<close>

record Files =
  f_path :: "bytes option"
  f_backup :: "bytes option"
  f_temp :: "bytes option"

datatype FileOp =
  WriteTemp | FlushTemp | CleanTemp | RemoveBackup | StagePrevious | Publish | RestorePrevious | DropBackup

text \<open>The operations that fail in a run.\<close>

type_synonym faults = "FileOp \<Rightarrow> bool"

text \<open>\<open>path.is_file()\<close>, then the backup: what the next start reads.\<close>

definition load_source :: "Files \<Rightarrow> bytes option" where
  "load_source f = (if f_path f \<noteq> None then f_path f else f_backup f)"

text \<open>\<open>let _ = fs::remove_file(temporary)\<close>: a failure is ignored.\<close>

definition clean_temp :: "faults \<Rightarrow> Files \<Rightarrow> Files" where
  "clean_temp faults f = (if faults CleanTemp then f else f\<lparr>f_temp := None\<rparr>)"

text \<open>
  The states after the operations, and the operation of the error that is returned.
  \<open>keep_backup\<close>: the backup stays after a success; \<open>clean_staging\<close>: the temporary file is
  removed when the previous file cannot be staged.
\<close>

definition replace_file :: "bool \<Rightarrow> bool \<Rightarrow> faults \<Rightarrow> Files \<Rightarrow> string option \<times> Files list" where
  "replace_file keep_backup clean_staging faults f =
     (if f_backup f \<noteq> None \<and> faults RemoveBackup
      then (Some ''remove stale backup for'', [clean_temp faults f])
      else let f1 = f\<lparr>f_backup := None\<rparr> in
      if f_path f1 \<noteq> None \<and> faults StagePrevious
      then (Some (if clean_staging then ''back up'' else ''stage previous''),
            [f1, if clean_staging then clean_temp faults f1 else f1])
      else let f2 = (if f_path f1 \<noteq> None then f1\<lparr>f_path := None, f_backup := f_path f1\<rparr> else f1) in
      if faults Publish
      then let f3 = (if f_backup f2 \<noteq> None \<and> \<not> faults RestorePrevious
                     then f2\<lparr>f_path := f_backup f2, f_backup := None\<rparr> else f2)
           in (Some ''publish'', [f1, f2, f3, clean_temp faults f3])
      else let f3 = f2\<lparr>f_path := f_temp f2, f_temp := None\<rparr>;
               f4 = (if keep_backup \<or> faults DropBackup then f3 else f3\<lparr>f_backup := None\<rparr>)
           in (None, [f1, f2, f3, f4]))"

definition replace_endpoints :: "faults \<Rightarrow> Files \<Rightarrow> string option \<times> Files list" where
  "replace_endpoints = replace_file True True"

definition replace_recent :: "faults \<Rightarrow> Files \<Rightarrow> string option \<times> Files list" where
  "replace_recent = replace_file False False"

definition replace_config :: "faults \<Rightarrow> Files \<Rightarrow> string option \<times> Files list" where
  "replace_config = replace_file False False"

text \<open>
  The file part of \<open>persist\<close>. A write that fails leaves any part of the payload in the
  temporary file until it is removed; so does a crash in the middle of it.
\<close>

definition persist_file ::
  "(faults \<Rightarrow> Files \<Rightarrow> string option \<times> Files list) \<Rightarrow> faults \<Rightarrow> bytes \<Rightarrow> bytes \<Rightarrow> Files
     \<Rightarrow> string option \<times> Files list" where
  "persist_file replace faults part payload f =
     (let partly = f\<lparr>f_temp := Some part\<rparr>; written = f\<lparr>f_temp := Some payload\<rparr> in
      if faults WriteTemp then (Some ''write temporary'', [f, partly, clean_temp faults partly])
      else if faults FlushTemp then (Some ''flush temporary'', [f, partly, written, clean_temp faults written])
      else (let (error, states) = replace faults written in (error, f # partly # written # states)))"

section \<open>The interface of a replacement\<close>

text \<open>
  What the registries rely on: while the file is there, every state that a replacement goes
  through offers the old or the new content, a success ends with the new one and an error
  with the old one.
\<close>

locale replacement =
  fixes replace :: "faults \<Rightarrow> Files \<Rightarrow> string option \<times> Files list"
  assumes visited: "f_path f = Some old \<Longrightarrow> f_temp f = Some new \<Longrightarrow> x \<in> set (snd (replace faults f))
      \<Longrightarrow> load_source x = Some old \<or> load_source x = Some new"
    and states: "snd (replace faults f) \<noteq> []"
    and published: "f_temp f = Some new \<Longrightarrow> fst (replace faults f) = None
      \<Longrightarrow> load_source (last (snd (replace faults f))) = Some new"
    and refused: "f_path f = Some old \<Longrightarrow> fst (replace faults f) = Some e
      \<Longrightarrow> load_source (last (snd (replace faults f))) = Some old"
begin

lemma persist_crash_safe:
  assumes "f_path f = Some old" and "x \<in> set (snd (persist_file replace faults part payload f))"
  shows "load_source x = Some old \<or> load_source x = Some payload"
proof -
  let ?written = "f\<lparr>f_temp := Some payload\<rparr>"
  have simple: "load_source y = Some old"
    if "y \<in> {f, f\<lparr>f_temp := t\<rparr>, clean_temp faults (f\<lparr>f_temp := t\<rparr>)}" for y t
    using that assms(1) by (auto simp: load_source_def clean_temp_def split: if_splits)
  show ?thesis
  proof (cases "x \<in> set (snd (replace faults ?written))")
    case True
    then show ?thesis using visited [of ?written old payload x faults] assms(1) by simp
  next
    case False
    then have "\<exists>t. x \<in> {f, f\<lparr>f_temp := t\<rparr>, clean_temp faults (f\<lparr>f_temp := t\<rparr>)}"
      using assms(2) by (auto simp: persist_file_def Let_def split_beta split: if_splits)
    then show ?thesis using simple by blast
  qed
qed

lemma persist_success:
  "fst (persist_file replace faults part payload f) = None
    \<Longrightarrow> load_source (last (snd (persist_file replace faults part payload f))) = Some payload"
  using published [of "f\<lparr>f_temp := Some payload\<rparr>" payload faults] states
  by (auto simp: persist_file_def Let_def split_beta split: if_splits)

lemma persist_outcome:
  assumes "f_path f = Some old"
  shows "load_source (last (snd (persist_file replace faults part payload f)))
    = (if fst (persist_file replace faults part payload f) = None then Some payload else Some old)"
proof -
  let ?written = "f\<lparr>f_temp := Some payload\<rparr>"
  have "load_source (clean_temp faults (f\<lparr>f_temp := t\<rparr>)) = Some old" for t
    using assms by (auto simp: load_source_def clean_temp_def)
  moreover have "load_source (last (snd (replace faults ?written)))
      = (if fst (replace faults ?written) = None then Some payload else Some old)"
    using published [of ?written payload faults] refused [of ?written old faults] assms by auto
  ultimately show ?thesis
    using states by (auto simp: persist_file_def Let_def split_beta)
qed

end

lemma replace_file_laws:
  "f_path f = Some old \<Longrightarrow> f_temp f = Some new \<Longrightarrow> x \<in> set (snd (replace_file k c faults f))
     \<Longrightarrow> load_source x = Some old \<or> load_source x = Some new"
  "snd (replace_file k c faults f) \<noteq> []"
  "f_temp f = Some new \<Longrightarrow> fst (replace_file k c faults f) = None
     \<Longrightarrow> load_source (last (snd (replace_file k c faults f))) = Some new"
  "f_path f = Some old \<Longrightarrow> fst (replace_file k c faults f) = Some e
     \<Longrightarrow> load_source (last (snd (replace_file k c faults f))) = Some old"
  by (auto simp: replace_file_def clean_temp_def load_source_def Let_def split: if_splits)

interpretation endpoint_file: replacement replace_endpoints
  by unfold_locales (auto simp: replace_endpoints_def replace_file_laws(2) dest: replace_file_laws(1,3,4))

interpretation recent_file: replacement replace_recent
  by unfold_locales (auto simp: replace_recent_def replace_file_laws(2) dest: replace_file_laws(1,3,4))

interpretation config_file: replacement replace_config
  by unfold_locales (auto simp: replace_config_def replace_file_laws(2) dest: replace_file_laws(1,3,4))

section \<open>Properties\<close>


definition saved_twice :: Files where
  "saved_twice = \<lparr>f_path = Some ''old'', f_backup = Some ''older'', f_temp = None\<rparr>"


text \<open>
  C36. After a crash between the two renames only the backup is left. The next start reads it,
  but the first save after that removes it before the new file is in place: when the
  process stops then, or when the rename fails, nothing is left to read, and the next start
  finds an empty registry.
\<close>

theorem save_after_recovery_loses_registry:
  assumes "replace \<in> {replace_endpoints, replace_recent, replace_config}"
    and "f_path f = None" and "f_backup f = Some old"
    and "\<not> faults WriteTemp" and "\<not> faults FlushTemp" and "\<not> faults RemoveBackup"
    and "persist_file replace faults part payload f = (error, run)"
  shows "load_source f = Some old \<and> (\<exists>x \<in> set run. load_source x = None)
    \<and> (faults Publish \<longrightarrow> error = Some ''publish'' \<and> load_source (last run) = None)"
  using assms
  by (auto simp: persist_file_def replace_endpoints_def replace_recent_def replace_config_def
      replace_file_def clean_temp_def load_source_def Let_def split: if_splits)

theorem save_after_recovery_loses_registry_witness:
  "fst (persist_file replace_recent (\<lambda>op. op = Publish) ''n'' ''new''
       \<lparr>f_path = None, f_backup = Some ''old'', f_temp = None\<rparr>) = Some ''publish''"
  using save_after_recovery_loses_registry [of replace_recent
      "\<lparr>f_path = None, f_backup = Some ''old'', f_temp = None\<rparr>" "''old''" "\<lambda>op. op = Publish" "''n''" "''new''"]
  by (cases "persist_file replace_recent (\<lambda>op. op = Publish) ''n'' ''new''
       \<lparr>f_path = None, f_backup = Some ''old'', f_temp = None\<rparr>") simp

end
