(* ===== verification/TrustedEndpoints.thy ===== *)
theory TrustedEndpoints
  imports GatewayModel RegistryFile "HOL-Library.Multiset"
begin

text \<open>
  The registry of trusted model endpoints (\<open>trusted_model_endpoints.rs\<close>): the canonical form of
  host names and base paths, the check of entries, and opening, registering and removing with
  the file behind it. The clock, the random id, the JSON of the file and the failing file
  operations of a call are the record \<open>EndpointEnv\<close>. A path that is a directory and the
  creation of the parent directory are not modelled.
\<close>

section \<open>Errors\<close>

datatype TrustedModelEndpointError =
  PathMustBeAbsolute string
| InvalidRegistry string
| InvalidEndpoint string
| TrustConfirmationMismatch
| EndpointNotFound
| EndpointIo string
| EndpointJson
| EndpointTime

fun endpoint_error_code :: "TrustedModelEndpointError \<Rightarrow> string" where
  "endpoint_error_code (InvalidEndpoint _) = ''INVALID_TRUSTED_MODEL_ENDPOINT''"
| "endpoint_error_code TrustConfirmationMismatch = ''MODEL_ENDPOINT_TRUST_REQUIRED''"
| "endpoint_error_code EndpointNotFound = ''TRUSTED_MODEL_ENDPOINT_NOT_FOUND''"
| "endpoint_error_code _ = ''TRUSTED_MODEL_ENDPOINTS_UNAVAILABLE''"

fun endpoint_public_message :: "TrustedModelEndpointError \<Rightarrow> string" where
  "endpoint_public_message (InvalidEndpoint message) = message"
| "endpoint_public_message TrustConfirmationMismatch =
     ''The confirmed HTTPS origin does not match the endpoint hostname''"
| "endpoint_public_message EndpointNotFound = ''The trusted model endpoint is no longer registered''"
| "endpoint_public_message _ = ''Trusted model endpoints are unavailable''"

section \<open>\<open>IpAddr::from_str\<close>\<close>

text \<open>
  The parser of the standard library: four decimal octets without leading zeros, or up to
  eight groups of four hexadecimal digits with one \<open>::\<close> and an IPv4 address at the end. Each
  reader returns what follows.
\<close>

definition hex_digit :: "char \<Rightarrow> bool" where
  "hex_digit c \<longleftrightarrow> ascii_digit c \<or> of_char c \<in> {65..70 :: nat} \<or> of_char c \<in> {97..102 :: nat}"

definition read_octet :: "string \<Rightarrow> string option" where
  "read_octet s =
     (let ds = takeWhile ascii_digit s
      in if ds = [] \<or> length ds > 3 \<or> (hd ds = CHR ''0'' \<and> length ds > 1)
           \<or> foldl (\<lambda>n c. 10 * n + (of_char c - 48)) 0 ds > (255 :: nat)
         then None else Some (drop (length ds) s))"

definition read_given_char :: "char \<Rightarrow> string \<Rightarrow> string option" where
  "read_given_char c s = (case s of [] \<Rightarrow> None | d # ds \<Rightarrow> if d = c then Some ds else None)"

definition read_ipv4_addr :: "string \<Rightarrow> string option" where
  "read_ipv4_addr s =
     Option.bind (read_octet s) (\<lambda>s. Option.bind (read_given_char CHR ''.'' s) (\<lambda>s.
     Option.bind (read_octet s) (\<lambda>s. Option.bind (read_given_char CHR ''.'' s) (\<lambda>s.
     Option.bind (read_octet s) (\<lambda>s. Option.bind (read_given_char CHR ''.'' s) read_octet)))))"

definition read_group :: "string \<Rightarrow> string option" where
  "read_group s =
     (let ds = takeWhile hex_digit s
      in if ds = [] \<or> length ds > 4 then None else Some (drop (length ds) s))"

definition read_separated :: "nat \<Rightarrow> (string \<Rightarrow> string option) \<Rightarrow> string \<Rightarrow> string option" where
  "read_separated i inner s =
     (if i > 0 then Option.bind (read_given_char CHR '':'' s) inner else inner s)"

text \<open>The groups read, whether they end with an IPv4 address, and the rest.\<close>

function read_groups :: "nat \<Rightarrow> nat \<Rightarrow> string \<Rightarrow> nat \<times> bool \<times> string" where
  "read_groups limit i s =
     (if i \<ge> limit then (limit, False, s)
      else case (if i + 1 < limit then read_separated i read_ipv4_addr s else None) of
             Some rest \<Rightarrow> (i + 2, True, rest)
           | None \<Rightarrow>
               (case read_separated i read_group s of
                  Some rest \<Rightarrow> read_groups limit (i + 1) rest
                | None \<Rightarrow> (i, False, s)))"
  by pat_completeness auto
termination
  by (relation "measure (\<lambda>(limit, i, _). limit - i)") auto

declare read_groups.simps [simp del]

definition read_ipv6_addr :: "string \<Rightarrow> string option" where
  "read_ipv6_addr s =
     (case read_groups 8 0 s of (head_size, head_ipv4, rest) \<Rightarrow>
        if head_size = 8 then Some rest
        else if head_ipv4 then None
        else Option.bind (read_given_char CHR '':'' rest) (\<lambda>rest.
             Option.bind (read_given_char CHR '':'' rest) (\<lambda>rest.
             Some (snd (snd (read_groups (7 - head_size) 0 rest))))))"

definition ip_addr :: "string \<Rightarrow> bool" where
  "ip_addr s \<longleftrightarrow>
     (case read_ipv4_addr s of Some rest \<Rightarrow> rest = [] | None \<Rightarrow> read_ipv6_addr s = Some [])"

section \<open>Host names and paths\<close>

definition reserved_suffixes :: "string list" where
  "reserved_suffixes =
     [''localhost'', ''local'', ''internal'', ''home'', ''lan'', ''localdomain'', ''test'',
      ''example'', ''invalid'', ''onion'', ''arpa'', ''corp'']"

definition dns_label :: "string \<Rightarrow> bool" where
  "dns_label l \<longleftrightarrow> l \<noteq> [] \<and> length l \<le> 63 \<and> \<not> starts_with l ''-'' \<and> \<not> ends_with l ''-''
     \<and> list_all (\<lambda>c. ascii_alphanumeric c \<or> c = CHR ''-'') l"

definition canonical_hostname :: "string \<Rightarrow> TrustedModelEndpointError + string" where
  "canonical_hostname v =
     (let hostname = to_ascii_lowercase (trim v) in
      if hostname = [] \<or> length hostname > 253 \<or> starts_with hostname ''.'' \<or> ends_with hostname ''.''
           \<or> \<not> contains hostname ''.'' \<or> ip_addr hostname
      then Inl (InvalidEndpoint ''hostname must be a public ASCII DNS name with at least two labels'')
      else if \<not> list_all dns_label (split_at CHR ''.'' hostname)
      then Inl (InvalidEndpoint ''hostname contains an invalid DNS label'')
      else if list_ex (\<lambda>suffix. hostname = suffix \<or> ends_with hostname (''.'' @ suffix)) reserved_suffixes
      then Inl (InvalidEndpoint ''hostname uses a local, private or reserved DNS suffix'')
      else Inr hostname)"

text \<open>\<open>trim_start_matches('/')\<close> and \<open>trim_end_matches('/')\<close>.\<close>

definition trim_slashes_start :: "string \<Rightarrow> string" where
  "trim_slashes_start s = dropWhile (\<lambda>c. c = CHR ''/'') s"

definition trim_slashes_end :: "string \<Rightarrow> string" where
  "trim_slashes_end s = rev (dropWhile (\<lambda>c. c = CHR ''/'') (rev s))"

definition path_segment :: "string \<Rightarrow> bool" where
  "path_segment s \<longleftrightarrow> s \<noteq> [] \<and> s \<noteq> ''.'' \<and> s \<noteq> ''..''
     \<and> list_all (\<lambda>c. ascii_alphanumeric c \<or> c \<in> set ''-_.~'') s"

definition canonical_base_path :: "string \<Rightarrow> TrustedModelEndpointError + string" where
  "canonical_base_path v =
     (let value = trim v in
      if value = [] \<or> value = ''/'' then Inr ''/''
      else if length value > 256 \<or> \<not> starts_with value ''/'' \<or> contains value ''//''
           \<or> list_ex (\<lambda>c. c \<in> set ''?#%@:'' \<or> c = CHR 0x5C) value \<or> list_ex white_space (utf8_chars value)
      then Inl (InvalidEndpoint ''basePath must be an absolute path without credentials, escapes, query or fragment'')
      else let canonical = trim_slashes_end value in
      if list_all path_segment (split_at CHR ''/'' (trim_slashes_start canonical))
      then Inr canonical
      else Inl (InvalidEndpoint ''basePath contains an unsafe path segment''))"

definition join_endpoint_path :: "string \<Rightarrow> string \<Rightarrow> string" where
  "join_endpoint_path base_path suffix =
     (if base_path = ''/'' then ''/'' @ suffix else base_path @ ''/'' @ suffix)"

definition chat_completions_path :: "TrustedModelEndpoint \<Rightarrow> string" where
  "chat_completions_path e = join_endpoint_path (tme_base_path e) ''chat/completions''"

definition models_path :: "TrustedModelEndpoint \<Rightarrow> string" where
  "models_path e = join_endpoint_path (tme_base_path e) ''models''"

section \<open>Checking entries\<close>

definition MAX_ENDPOINTS :: nat where "MAX_ENDPOINTS = 32"
definition MAX_REGISTRY_BYTES :: nat where "MAX_REGISTRY_BYTES = 256 * 1024"

definition safe_endpoint_id :: "string \<Rightarrow> bool" where
  "safe_endpoint_id v \<longleftrightarrow> starts_with v ''endpoint-'' \<and> length v = length ''endpoint-'' + 32
     \<and> list_all lower_hex_digit (drop (length ''endpoint-'') v)"

definition endpoint_base_url :: "string \<Rightarrow> string \<Rightarrow> string" where
  "endpoint_base_url hostname base_path =
     (if base_path = ''/'' then ''https://'' @ hostname else ''https://'' @ hostname @ base_path)"

definition endpoint_credential_ref :: "string \<Rightarrow> string" where
  "endpoint_credential_ref endpoint_id = ''secret://providers/openai-compatible/'' @ endpoint_id"

definition label_ok :: "string \<Rightarrow> bool" where
  "label_ok label \<longleftrightarrow> label \<noteq> [] \<and> length label \<le> 128 \<and> \<not> list_ex control_char (utf8_chars label)"

record EndpointEnv =
  ee_rfc3339 :: "string \<Rightarrow> bool"
  ee_now :: "string option"
  ee_uuid :: string
  ee_encode :: "TrustedModelEndpoint list \<Rightarrow> bytes option"
  ee_decode :: "bytes \<Rightarrow> (nat \<times> TrustedModelEndpoint list) option"
  ee_faults :: faults
  ee_part :: bytes

definition validate_endpoint ::
  "EndpointEnv \<Rightarrow> TrustedModelEndpoint \<Rightarrow> TrustedModelEndpointError + unit" where
  "validate_endpoint env e =
     rbind (require (\<not> (tme_schema_version e \<noteq> 1 \<or> \<not> safe_endpoint_id (tme_id e) \<or> tme_revision e \<noteq> 1))
              (InvalidRegistry ''invalid endpoint identity or revision'')) (\<lambda>_.
     rbind (require (\<not> (blank (tme_label e) \<or> length (tme_label e) > 128
                        \<or> list_ex control_char (utf8_chars (tme_label e))))
              (InvalidRegistry ''invalid endpoint label'')) (\<lambda>_.
     rbind (map_sum (\<lambda>_. InvalidRegistry ''invalid endpoint hostname'') id
              (canonical_hostname (tme_hostname e))) (\<lambda>hostname.
     rbind (map_sum (\<lambda>_. InvalidRegistry ''invalid endpoint base path'') id
              (canonical_base_path (tme_base_path e))) (\<lambda>base_path.
     rbind (require (\<not> (hostname \<noteq> tme_hostname e \<or> base_path \<noteq> tme_base_path e))
              (InvalidRegistry ''endpoint location is not canonical'')) (\<lambda>_.
     rbind (require (\<not> (tme_base_url e \<noteq> endpoint_base_url hostname base_path
                        \<or> tme_credential_ref e \<noteq> endpoint_credential_ref (tme_id e)))
              (InvalidRegistry ''endpoint derived fields do not match its identity'')) (\<lambda>_.
     require (\<not> (\<not> ee_rfc3339 env (tme_created_at e) \<or> \<not> ee_rfc3339 env (tme_updated_at e)))
       (InvalidRegistry ''invalid endpoint timestamp'')))))))"

definition location :: "TrustedModelEndpoint \<Rightarrow> string \<times> string" where
  "location e = (tme_hostname e, tme_base_path e)"

text \<open>One entry against the ones before it: the three sets of the loop.\<close>

definition validate_entry_step ::
  "EndpointEnv \<Rightarrow> TrustedModelEndpoint \<Rightarrow> TrustedModelEndpoint list
     \<Rightarrow> TrustedModelEndpointError + TrustedModelEndpoint list" where
  "validate_entry_step env e seen =
     rbind (validate_endpoint env e) (\<lambda>_.
     rbind (require (tme_id e \<notin> tme_id ` set seen) (InvalidRegistry ''duplicate endpoint ID'')) (\<lambda>_.
     rbind (require (location e \<notin> location ` set seen)
              (InvalidRegistry ''duplicate endpoint location'')) (\<lambda>_.
     rbind (require (tme_credential_ref e \<notin> tme_credential_ref ` set seen)
              (InvalidRegistry ''duplicate credential reference'')) (\<lambda>_.
     Inr (seen @ [e])))))"

definition validate_entries ::
  "EndpointEnv \<Rightarrow> TrustedModelEndpoint list \<Rightarrow> TrustedModelEndpointError + unit" where
  "validate_entries env entries =
     rbind (require (\<not> length entries > MAX_ENDPOINTS) (InvalidRegistry ''too many entries'')) (\<lambda>_.
     rbind (foldM (validate_entry_step env) entries []) (\<lambda>_. Inr ()))"

section \<open>The registry\<close>

text \<open>\<open>epr_path\<close>: whether the registry has a file. The files travel beside it.\<close>

record EndpointRegistry =
  epr_path :: bool
  epr_endpoints :: "TrustedModelEndpoint list"

definition memory_registry :: EndpointRegistry where
  "memory_registry = \<lparr>epr_path = False, epr_endpoints = []\<rparr>"

definition get_endpoint :: "EndpointRegistry \<Rightarrow> string \<Rightarrow> TrustedModelEndpointError + TrustedModelEndpoint" where
  "get_endpoint reg endpoint_id =
     ok_or (List.find (\<lambda>e. tme_id e = endpoint_id) (epr_endpoints reg)) EndpointNotFound"

definition contains_credential_reference :: "EndpointRegistry \<Rightarrow> string \<Rightarrow> bool" where
  "contains_credential_reference reg reference \<longleftrightarrow>
     list_ex (\<lambda>e. tme_credential_ref e = reference) (epr_endpoints reg)"

definition load_registry ::
  "EndpointEnv \<Rightarrow> Files \<Rightarrow> TrustedModelEndpointError + TrustedModelEndpoint list" where
  "load_registry env files =
     (case load_source files of
        None \<Rightarrow> Inr []
      | Some payload \<Rightarrow>
          if length payload = 0 \<or> length payload > MAX_REGISTRY_BYTES
          then Inl (InvalidRegistry ''registry size is invalid'')
          else (case ee_decode env payload of
                  None \<Rightarrow> Inl EndpointJson
                | Some (version, endpoints) \<Rightarrow>
                    if version \<noteq> 1 then Inl (InvalidRegistry ''unsupported schema version'')
                    else Inr endpoints))"

definition open_registry :: "EndpointEnv \<Rightarrow> Files \<Rightarrow> TrustedModelEndpointError + EndpointRegistry" where
  "open_registry env files =
     rbind (load_registry env files) (\<lambda>endpoints.
     rbind (validate_entries env endpoints) (\<lambda>_.
     Inr \<lparr>epr_path = True, epr_endpoints = endpoints\<rparr>))"

definition persist_registry ::
  "EndpointEnv \<Rightarrow> EndpointRegistry \<Rightarrow> Files \<Rightarrow> (TrustedModelEndpointError + unit) \<times> Files" where
  "persist_registry env reg files =
     (if \<not> epr_path reg then (Inr (), files)
      else case ee_encode env (epr_endpoints reg) of
             None \<Rightarrow> (Inl EndpointJson, files)
           | Some payload \<Rightarrow>
               if length payload > MAX_REGISTRY_BYTES
               then (Inl (InvalidRegistry ''registry exceeds size limit''), files)
               else (let (error, run) = persist_file replace_endpoints (ee_faults env) (ee_part env) payload files
                     in (case error of None \<Rightarrow> Inr () | Some operation \<Rightarrow> Inl (EndpointIo operation), last run)))"

definition sort_endpoints :: "TrustedModelEndpoint list \<Rightarrow> TrustedModelEndpoint list" where
  "sort_endpoints es = sort_key (\<lambda>e. (to_ascii_lowercase (tme_label e), tme_id e)) es"

record RegisterTrustedModelEndpoint =
  rte_schema_version :: nat
  rte_label :: string
  rte_hostname :: string
  rte_base_path :: string
  rte_confirmed_origin :: string
  rte_capabilities :: TrustedModelEndpointCapabilities

text \<open>The checks of \<open>register\<close> on its input: the label, the host name and the base path.\<close>

definition registration_location ::
  "EndpointRegistry \<Rightarrow> RegisterTrustedModelEndpoint \<Rightarrow> TrustedModelEndpointError + (string \<times> string \<times> string)" where
  "registration_location reg input =
     rbind (require (rte_schema_version input = 1) (InvalidEndpoint ''schemaVersion must equal 1'')) (\<lambda>_.
     rbind (require (\<not> length (epr_endpoints reg) \<ge> MAX_ENDPOINTS)
              (InvalidEndpoint ''at most 32 trusted endpoints may be registered'')) (\<lambda>_.
     rbind (require (label_ok (trim (rte_label input)))
              (InvalidEndpoint ''label must contain 1-128 printable characters'')) (\<lambda>_.
     rbind (canonical_hostname (rte_hostname input)) (\<lambda>hostname.
     rbind (canonical_base_path (rte_base_path input)) (\<lambda>base_path.
     rbind (require (rte_confirmed_origin input = ''https://'' @ hostname) TrustConfirmationMismatch) (\<lambda>_.
     rbind (require (\<not> list_ex (\<lambda>e. tme_hostname e = hostname \<and> tme_base_path e = base_path) (epr_endpoints reg))
              (InvalidEndpoint ''this HTTPS base URL is already registered'')) (\<lambda>_.
     Inr (trim (rte_label input), hostname, base_path))))))))"

definition new_endpoint :: "EndpointEnv \<Rightarrow> RegisterTrustedModelEndpoint \<Rightarrow> string \<times> string \<times> string \<Rightarrow> string
    \<Rightarrow> TrustedModelEndpoint" where
  "new_endpoint env input loc now =
     (let (label, hostname, base_path) = loc; i = ''endpoint-'' @ ee_uuid env in
      \<lparr>tme_schema_version = 1, tme_id = i, tme_label = label, tme_hostname = hostname,
       tme_base_path = base_path, tme_base_url = endpoint_base_url hostname base_path,
       tme_credential_ref = endpoint_credential_ref i, tme_capabilities = rte_capabilities input,
       tme_revision = 1, tme_created_at = now, tme_updated_at = now\<rparr>)"

definition register ::
  "EndpointEnv \<Rightarrow> RegisterTrustedModelEndpoint \<Rightarrow> EndpointRegistry \<times> Files
     \<Rightarrow> (TrustedModelEndpointError + TrustedModelEndpoint) \<times> EndpointRegistry \<times> Files" where
  "register env input = (\<lambda>(reg, files).
     case rbind (registration_location reg input) (\<lambda>loc.
          rbind (ok_or (ee_now env) EndpointTime) (\<lambda>now.
          let endpoint = new_endpoint env input loc now in
          rbind (validate_endpoint env endpoint) (\<lambda>_. Inr endpoint))) of
       Inl e \<Rightarrow> (Inl e, reg, files)
     | Inr endpoint \<Rightarrow>
         (let reg' = reg\<lparr>epr_endpoints := sort_endpoints (epr_endpoints reg @ [endpoint])\<rparr> in
          case persist_registry env reg' files of
            (Inl e, files') \<Rightarrow> (Inl e, reg, files')
          | (Inr _, files') \<Rightarrow> (Inr endpoint, reg', files')))"

text \<open>\<open>position\<close> and \<open>remove(index)\<close>: the first entry with the id.\<close>

fun remove_first :: "string \<Rightarrow> TrustedModelEndpoint list \<Rightarrow> TrustedModelEndpoint list" where
  "remove_first i [] = []"
| "remove_first i (e # es) = (if tme_id e = i then es else e # remove_first i es)"

definition remove_endpoint ::
  "EndpointEnv \<Rightarrow> string \<Rightarrow> EndpointRegistry \<times> Files
     \<Rightarrow> (TrustedModelEndpointError + TrustedModelEndpoint) \<times> EndpointRegistry \<times> Files" where
  "remove_endpoint env endpoint_id = (\<lambda>(reg, files).
     case get_endpoint reg endpoint_id of
       Inl e \<Rightarrow> (Inl e, reg, files)
     | Inr endpoint \<Rightarrow>
         (let reg' = reg\<lparr>epr_endpoints := remove_first endpoint_id (epr_endpoints reg)\<rparr> in
          case persist_registry env reg' files of
            (Inl e, files') \<Rightarrow> (Inl e, reg, files')
          | (Inr _, files') \<Rightarrow> (Inr endpoint, reg', files')))"

section \<open>Trimmed text\<close>

text \<open>The characters of a string, wherever it is cut between two of them.\<close>

definition chars_wf :: "string list \<Rightarrow> bool" where
  "chars_wf cs \<longleftrightarrow> list_all (\<lambda>c. c \<noteq> [] \<and> list_all cont_byte (tl c)) cs
     \<and> list_all (\<lambda>c. \<not> cont_byte (hd c)) (tl cs)"

lemma chars_wf_utf8: "chars_wf (utf8_chars s)"
proof (induction s rule: utf8_chars.induct)
  case (2 c cs)
  have "list_all (\<lambda>c. \<not> cont_byte (hd c)) (utf8_chars (dropWhile cont_byte cs))"
  proof (cases "dropWhile cont_byte cs")
    case (Cons d ds)
    then have "\<not> cont_byte d" by (metis hd_dropWhile list.distinct(1) list.sel(1))
    with 2 Cons show ?thesis by (simp add: chars_wf_def)
  next
    case Nil
    then show ?thesis by (simp only: Nil) simp
  qed
  moreover have "list_all cont_byte (takeWhile cont_byte cs)"
    by (auto simp: list_all_iff dest: set_takeWhileD)
  ultimately show ?case using 2 by (simp add: chars_wf_def)
qed (simp add: chars_wf_def)

lemma while_start: "xs = [] \<or> \<not> P (hd xs) \<Longrightarrow> takeWhile P xs = [] \<and> dropWhile P xs = xs"
  by (cases xs) auto

lemma utf8_chars_concat: "chars_wf cs \<Longrightarrow> utf8_chars (concat cs) = cs"
proof (induction cs)
  case (Cons c cs)
  then obtain b bs where c: "c = b # bs" by (cases c) (auto simp: chars_wf_def)
  have wf: "chars_wf cs" using Cons.prems by (cases cs) (auto simp: chars_wf_def)
  have "takeWhile cont_byte (bs @ concat cs) = bs" "dropWhile cont_byte (bs @ concat cs) = concat cs"
  proof -
    have bs: "\<forall>x \<in> set bs. cont_byte x" using Cons.prems c by (simp add: chars_wf_def list_all_iff)
    have "concat cs = [] \<or> \<not> cont_byte (hd (concat cs))"
      using Cons.prems by (cases cs) (auto simp: chars_wf_def)
    from while_start [where P = cont_byte and xs = "concat cs", OF this] bs show "takeWhile cont_byte (bs @ concat cs) = bs" "dropWhile cont_byte (bs @ concat cs) = concat cs"
      by (simp_all add: takeWhile_append2 dropWhile_append2)
  qed
  with c Cons.IH [OF wf] show ?case by simp
qed simp

lemma chars_wf_infix: "chars_wf (a @ cs @ b) \<Longrightarrow> chars_wf cs"
  by (cases a; cases cs) (auto simp: chars_wf_def)

lemma infix_trimmed: "\<exists>a b. cs = a @ rev (dropWhile P (rev (dropWhile P cs))) @ b"
proof -
  let ?d = "dropWhile P cs"
  have "?d = rev (dropWhile P (rev ?d)) @ rev (takeWhile P (rev ?d))"
    by (metis rev_append rev_rev_ident takeWhile_dropWhile_id)
  then show ?thesis by (metis takeWhile_dropWhile_id)
qed

lemma utf8_chars_trim: "utf8_chars (trim s) = rev (dropWhile white_space (rev (dropWhile white_space (utf8_chars s))))"
proof -
  let ?k = "rev (dropWhile white_space (rev (dropWhile white_space (utf8_chars s))))"
  obtain a b where "utf8_chars s = a @ ?k @ b" using infix_trimmed by blast
  then have "chars_wf ?k" using chars_wf_utf8 [of s] chars_wf_infix by metis
  then show ?thesis by (simp add: trim_def utf8_chars_concat)
qed

lemma dropWhile_hd: "dropWhile P xs = x # ys \<Longrightarrow> \<not> P x"
  by (metis hd_dropWhile list.distinct(1) list.sel(1))

lemma blank_trim: "blank (trim s) \<longleftrightarrow> trim s = []"
proof
  assume "blank (trim s)"
  show "trim s = []"
  proof (cases "dropWhile white_space (rev (dropWhile white_space (utf8_chars s)))")
    case Nil
    then show ?thesis by (simp only: trim_def Nil) simp
  next
    case (Cons x xs)
    with \<open>blank (trim s)\<close> have "white_space x" by (simp add: blank_iff utf8_chars_trim)
    with dropWhile_hd [OF Cons] show ?thesis by simp
  qed
qed simp

text \<open>Visible ASCII text is its own trimmed form.\<close>

definition ascii_visible :: "char \<Rightarrow> bool" where
  "ascii_visible c \<longleftrightarrow> of_char c \<in> {33..126 :: nat}"

lemma utf8_chars_ascii: "list_all ascii_visible s \<Longrightarrow> utf8_chars s = map (\<lambda>c. [c]) s"
proof (induction s)
  case (Cons c cs)
  have "takeWhile cont_byte cs = [] \<and> dropWhile cont_byte cs = cs"
    using Cons.prems by (cases cs) (auto simp: cont_byte_def ascii_visible_def)
  with Cons show ?case by simp
qed simp

lemma ascii_not_white: "ascii_visible c \<Longrightarrow> \<not> white_space [c]"
  by (auto simp: ascii_visible_def white_space_def)

lemma dropWhile_none: "list_all (\<lambda>x. \<not> P x) xs \<Longrightarrow> dropWhile P xs = xs"
  by (cases xs) auto

lemma trim_ascii:
  assumes "list_all ascii_visible s"
  shows "trim s = s"
proof -
  have "list_all (\<lambda>x. \<not> white_space x) (map (\<lambda>c. [c]) s)"
    using assms by (auto simp: list_all_iff ascii_not_white)
  then have "dropWhile white_space (map (\<lambda>c. [c]) s) = map (\<lambda>c. [c]) s"
    "dropWhile white_space (rev (map (\<lambda>c. [c]) s)) = rev (map (\<lambda>c. [c]) s)"
    by (simp_all add: dropWhile_none list_all_iff)
  then have "trim s = concat (map (\<lambda>c. [c]) s)" by (simp add: trim_def utf8_chars_ascii [OF assms])
  then show ?thesis by simp
qed

section \<open>Canonical locations\<close>

lemma lower_byte_idem [simp]: "lower_byte (lower_byte c) = lower_byte c"
proof -
  have "of_char c + 32 < (256 :: nat)" if "ascii_upper c" using that by (simp add: ascii_upper_def)
  then have "\<not> ascii_upper (lower_byte c)" by (auto simp: lower_byte_def ascii_upper_def)
  then show ?thesis by (simp add: lower_byte_def)
qed

lemma set_split_at: "c \<in> set s \<Longrightarrow> c = b \<or> (\<exists>p \<in> set (split_at b s). c \<in> set p)"
proof (induction s)
  case (Cons a s)
  show ?case
  proof (cases "a = b \<or> c = b")
    case True
    with Cons show ?thesis by auto
  next
    case False
    show ?thesis
    proof (cases "split_at b s")
      case Nil
      with False Cons show ?thesis by auto
    next
      case (Cons p ps)
      with False Cons.prems Cons.IH show ?thesis by auto
    qed
  qed
qed simp

lemma alphanumeric_visible: "ascii_alphanumeric c \<Longrightarrow> ascii_visible c"
  by (auto simp: ascii_alphanumeric_def ascii_visible_def ascii_digit_def ascii_upper_def ascii_lower_def)

lemma split_visible:
  assumes "list_all (\<lambda>p. list_all (\<lambda>c. ascii_alphanumeric c \<or> c \<in> set extra) p) (split_at b s)"
    and "list_all ascii_visible (b # extra)"
  shows "list_all ascii_visible s"
  unfolding list_all_iff
proof
  fix c assume "c \<in> set s"
  then have "c = b \<or> (\<exists>p \<in> set (split_at b s). c \<in> set p)" using set_split_at [of c s b] by auto
  then show "ascii_visible c" using assms alphanumeric_visible by (auto simp: list_all_iff)
qed

lemma canonical_hostname_fixed:
  assumes "canonical_hostname v = Inr h"
  shows "canonical_hostname h = Inr h" and "list_all ascii_visible h"
proof -
  have h: "h = to_ascii_lowercase (trim v)" and labels: "list_all dns_label (split_at CHR ''.'' h)"
    using assms by (auto simp: canonical_hostname_def Let_def split: if_splits)
  from labels have "list_all (\<lambda>p. list_all (\<lambda>c. ascii_alphanumeric c \<or> c \<in> set ''-'') p) (split_at CHR ''.'' h)"
    by (auto simp: list_all_iff dns_label_def)
  then show visible: "list_all ascii_visible h" by (rule split_visible) (simp add: ascii_visible_def)
  have "to_ascii_lowercase h = h" by (simp add: h to_ascii_lowercase_def)
  then show "canonical_hostname h = Inr h"
    using assms trim_ascii [OF visible] h by (auto simp: canonical_hostname_def Let_def split: if_splits)
qed

lemma trim_slashes_end_prefix: "\<exists>t. s = trim_slashes_end s @ t"
  unfolding trim_slashes_end_def by (metis rev_append rev_rev_ident takeWhile_dropWhile_id)

lemma canonical_base_path_fixed:
  assumes "canonical_base_path v = Inr p"
  shows "canonical_base_path p = Inr p" and "list_all ascii_visible p"
proof -
  have slash: "canonical_base_path ''/'' = Inr ''/'' \<and> list_all ascii_visible ''/''"
    by (simp add: canonical_base_path_def trim_ascii ascii_visible_def)
  have "canonical_base_path p = Inr p \<and> list_all ascii_visible p"
  proof (cases "trim v = [] \<or> trim v = ''/''")
    case True
    with assms slash show ?thesis by (auto simp: canonical_base_path_def)
  next
    case False
    let ?v = "trim v"
    have p: "p = trim_slashes_end ?v"
      and v: "length ?v \<le> 256" "starts_with ?v ''/''" "\<not> contains ?v ''//''"
        "\<not> list_ex (\<lambda>c. c \<in> set ''?#%@:'' \<or> c = CHR 0x5C) ?v"
      and segments: "list_all path_segment (split_at CHR ''/'' (trim_slashes_start p))"
      using assms False by (auto simp: canonical_base_path_def Let_def split: if_splits)
    have "list_all (\<lambda>q. list_all (\<lambda>c. ascii_alphanumeric c \<or> c \<in> set ''-_.~'') q)
        (split_at CHR ''/'' (trim_slashes_start p))"
    proof -
      have "list_all (\<lambda>c. ascii_alphanumeric c \<or> c \<in> set ''-_.~'') q" if "path_segment q" for q
        using that by (simp only: path_segment_def)
      with segments show ?thesis by (rule list.pred_mono_strong)
    qed
    then have "list_all ascii_visible (trim_slashes_start p)"
      by (rule split_visible) (simp add: ascii_visible_def)
    moreover have "list_all ascii_visible (takeWhile (\<lambda>c. c = CHR ''/'') p)"
      by (auto simp: list_all_iff ascii_visible_def dest: set_takeWhileD)
    ultimately have visible: "list_all ascii_visible p"
      using takeWhile_dropWhile_id [of "\<lambda>c. c = CHR ''/''" p]
      by (metis list_all_append trim_slashes_start_def)
    have inner: "trim_slashes_start p \<noteq> []" using segments by (auto simp: path_segment_def)
    then have nonempty: "p \<noteq> []" "p \<noteq> ''/''" by (auto simp: trim_slashes_start_def)
    obtain t where t: "?v = p @ t" using trim_slashes_end_prefix p by metis
    have "length p \<le> 256" using v(1) t by simp
    moreover have "starts_with p ''/''" using v(2) t nonempty(1) by (cases p) auto
    moreover have "\<not> contains p ''//''" using v(3) t contains_prefix by metis
    moreover have "\<not> list_ex (\<lambda>c. c \<in> set ''?#%@:'' \<or> c = CHR 0x5C) p"
      using v(4) t by (simp add: list_ex_iff)
    moreover have "\<not> list_ex white_space (utf8_chars p)"
      using visible ascii_not_white by (auto simp: utf8_chars_ascii list_ex_iff list_all_iff)
    moreover have "trim_slashes_end p = p"
      by (simp add: p trim_slashes_end_def dropWhile_idem)
    ultimately show ?thesis
      using visible segments nonempty by (simp add: canonical_base_path_def trim_ascii)
  qed
  then show "canonical_base_path p = Inr p" "list_all ascii_visible p" by simp_all
qed

section \<open>Entries that are valid together\<close>

definition keys_distinct :: "TrustedModelEndpoint list \<Rightarrow> bool" where
  "keys_distinct es \<longleftrightarrow> distinct (map tme_id es) \<and> distinct (map location es)
     \<and> distinct (map tme_credential_ref es)"

lemma keys_distinct_snoc: "keys_distinct (es @ [e]) \<longleftrightarrow> keys_distinct es \<and> tme_id e \<notin> tme_id ` set es
    \<and> location e \<notin> location ` set es \<and> tme_credential_ref e \<notin> tme_credential_ref ` set es"
  by (auto simp: keys_distinct_def)

lemma keys_distinct_prefix: "keys_distinct (es @ fs) \<Longrightarrow> keys_distinct es"
  by (auto simp: keys_distinct_def)

lemma validate_entry_step_iff:
  assumes "keys_distinct seen"
  shows "validate_entry_step env e seen = Inr s \<longleftrightarrow>
    s = seen @ [e] \<and> validate_endpoint env e = Inr () \<and> keys_distinct (seen @ [e])"
  using assms by (auto simp: validate_entry_step_def result_simps keys_distinct_snoc)

lemma validate_entry_fold:
  assumes "keys_distinct seen"
  shows "foldM (validate_entry_step env) es seen = Inr r \<longleftrightarrow>
    r = seen @ es \<and> list_all (\<lambda>e. validate_endpoint env e = Inr ()) es \<and> keys_distinct (seen @ es)"
  using assms
proof (induction es arbitrary: seen)
  case (Cons e es)
  have "foldM (validate_entry_step env) (e # es) seen = Inr r \<longleftrightarrow> validate_endpoint env e = Inr ()
      \<and> keys_distinct (seen @ [e]) \<and> foldM (validate_entry_step env) es (seen @ [e]) = Inr r"
    by (auto simp: result_simps validate_entry_step_iff [OF Cons.prems])
  also have "\<dots> \<longleftrightarrow> validate_endpoint env e = Inr () \<and> keys_distinct (seen @ [e]) \<and> r = (seen @ [e]) @ es
      \<and> list_all (\<lambda>e. validate_endpoint env e = Inr ()) es \<and> keys_distinct ((seen @ [e]) @ es)"
    using Cons.IH [of "seen @ [e]"] by blast
  also have "\<dots> \<longleftrightarrow> r = seen @ e # es \<and> list_all (\<lambda>e. validate_endpoint env e = Inr ()) (e # es)
      \<and> keys_distinct (seen @ e # es)"
    using keys_distinct_prefix [of "seen @ [e]" es] by auto
  finally show ?case .
qed (auto simp: keys_distinct_def)

definition registry_valid :: "EndpointEnv \<Rightarrow> TrustedModelEndpoint list \<Rightarrow> bool" where
  "registry_valid env es \<longleftrightarrow> length es \<le> MAX_ENDPOINTS
     \<and> list_all (\<lambda>e. validate_endpoint env e = Inr ()) es
     \<and> keys_distinct es"

lemma validate_entries_iff: "validate_entries env es = Inr () \<longleftrightarrow> registry_valid env es"
proof -
  have "keys_distinct []" by (simp add: keys_distinct_def)
  then show ?thesis
    by (simp add: validate_entries_def registry_valid_def rbind_Inr_iff require_Inr_iff validate_entry_fold not_less)
qed

lemma distinct_map_mset: "mset es = mset fs \<Longrightarrow> distinct (map f es) = distinct (map f fs)"
  by (intro mset_eq_imp_distinct_iff) simp

lemma registry_valid_mset:
  assumes "mset es = mset fs"
  shows "registry_valid env es = registry_valid env fs"
proof -
  have "keys_distinct es = keys_distinct fs"
    using distinct_map_mset [OF assms, of tme_id] distinct_map_mset [OF assms, of location]
      distinct_map_mset [OF assms, of tme_credential_ref] by (simp add: keys_distinct_def)
  moreover have "length es = length fs" using assms by (rule mset_eq_length)
  moreover have "set es = set fs" using assms by (rule mset_eq_setD)
  ultimately show ?thesis by (simp add: registry_valid_def list_all_iff)
qed

section \<open>Registering\<close>

text \<open>The entry that a registration makes passes the check that is run on it.\<close>

lemma new_endpoint_valid:
  assumes "registration_location reg input = Inr loc"
    and "length (ee_uuid env) = 32" and "list_all lower_hex_digit (ee_uuid env)" and "ee_rfc3339 env now"
  shows "validate_endpoint env (new_endpoint env input loc now) = Inr ()"
proof -
  obtain label hostname base_path where loc: "loc = (label, hostname, base_path)" by (cases loc)
  with assms(1) have label: "label = trim (rte_label input)" "label_ok label"
    and host: "canonical_hostname (rte_hostname input) = Inr hostname"
    and path: "canonical_base_path (rte_base_path input) = Inr base_path"
    by (auto simp: registration_location_def result_simps)
  have "\<not> blank label" using label blank_trim by (auto simp: label_ok_def)
  moreover have "safe_endpoint_id (''endpoint-'' @ ee_uuid env)"
    using assms(2,3) by (simp add: safe_endpoint_id_def)
  ultimately show ?thesis
    using label(2) assms(4) canonical_hostname_fixed(1) [OF host] canonical_base_path_fixed(1) [OF path]
    by (simp add: validate_endpoint_def new_endpoint_def loc label_ok_def Let_def)
qed

lemma registration_fits:
  assumes "registration_location reg input = Inr loc" and "registry_valid env (epr_endpoints reg)"
    and "''endpoint-'' @ ee_uuid env \<notin> tme_id ` set (epr_endpoints reg)"
    and "validate_endpoint env (new_endpoint env input loc now) = Inr ()"
  shows "registry_valid env (epr_endpoints reg @ [new_endpoint env input loc now])"
proof -
  obtain label hostname base_path where loc: "loc = (label, hostname, base_path)" by (cases loc)
  with assms(1) have room: "length (epr_endpoints reg) < MAX_ENDPOINTS"
    and free: "\<not> list_ex (\<lambda>e. tme_hostname e = hostname \<and> tme_base_path e = base_path) (epr_endpoints reg)"
    by (auto simp: registration_location_def result_simps)
  have refs: "tme_credential_ref e = endpoint_credential_ref (tme_id e)" if "e \<in> set (epr_endpoints reg)" for e
    using assms(2) that by (auto simp: registry_valid_def list_all_iff validate_endpoint_def result_simps)
  have "location (new_endpoint env input loc now) \<notin> location ` set (epr_endpoints reg)"
    using free by (auto simp: location_def new_endpoint_def loc list_ex_iff Let_def)
  moreover have "tme_credential_ref (new_endpoint env input loc now) \<notin> tme_credential_ref ` set (epr_endpoints reg)"
    using assms(3) refs by (auto simp: new_endpoint_def loc Let_def endpoint_credential_ref_def image_iff)
  moreover have "tme_id (new_endpoint env input loc now) \<notin> tme_id ` set (epr_endpoints reg)"
    using assms(3) by (simp add: new_endpoint_def loc Let_def)
  ultimately show ?thesis
    using assms(2,4) room by (simp add: registry_valid_def keys_distinct_snoc)
qed

text \<open>What the checks of a registration ask for, whatever the files do.\<close>

definition registration_ready :: "EndpointRegistry \<Rightarrow> RegisterTrustedModelEndpoint \<Rightarrow> bool" where
  "registration_ready reg input \<longleftrightarrow>
     rte_schema_version input = 1 \<and> length (epr_endpoints reg) < MAX_ENDPOINTS
     \<and> label_ok (trim (rte_label input))
     \<and> (case canonical_hostname (rte_hostname input) of Inl _ \<Rightarrow> False | Inr hostname \<Rightarrow>
          rte_confirmed_origin input = ''https://'' @ hostname
          \<and> (case canonical_base_path (rte_base_path input) of Inl _ \<Rightarrow> False | Inr base_path \<Rightarrow>
               (hostname, base_path) \<notin> location ` set (epr_endpoints reg)))"

lemma registration_location_iff:
  "(\<exists>loc. registration_location reg input = Inr loc) \<longleftrightarrow> registration_ready reg input"
  by (cases "canonical_hostname (rte_hostname input)"; cases "canonical_base_path (rte_base_path input)")
    (auto simp: registration_location_def registration_ready_def result_simps list_ex_iff location_def image_iff)

lemma get_endpoint_iff:
  assumes "keys_distinct (epr_endpoints reg)"
  shows "get_endpoint reg i = Inr e \<longleftrightarrow> e \<in> set (epr_endpoints reg) \<and> tme_id e = i"
proof -
  have "get_endpoint reg i = Inr e \<longleftrightarrow> find_by tme_id i (epr_endpoints reg) = Some e"
    by (simp add: get_endpoint_def find_by_def ok_or_Inr_iff)
  then show ?thesis using assms find_by_Some_iff [of tme_id] by (auto simp: keys_distinct_def)
qed

text \<open>The state and the result of a registration, by its checks and the file.\<close>

lemma register_cases:
  assumes "register env input (reg, files) = (r, reg', files')"
    and "registry_valid env (epr_endpoints reg)"
    and "length (ee_uuid env) = 32" and "list_all lower_hex_digit (ee_uuid env)"
    and "''endpoint-'' @ ee_uuid env \<notin> tme_id ` set (epr_endpoints reg)"
    and "ee_now env = Some now" and "ee_rfc3339 env now"
  obtains (refused) err where "\<not> registration_ready reg input" "r = Inl err" "reg' = reg" "files' = files"
  | (unsaved) e err where "registration_ready reg input"
      "persist_registry env (reg\<lparr>epr_endpoints := sort_endpoints (epr_endpoints reg @ [e])\<rparr>) files = (Inl err, files')"
      "r = Inl err" "reg' = reg"
  | (added) e where "registration_ready reg input"
      "persist_registry env (reg\<lparr>epr_endpoints := sort_endpoints (epr_endpoints reg @ [e])\<rparr>) files = (Inr (), files')"
      "r = Inr e" "reg' = reg\<lparr>epr_endpoints := sort_endpoints (epr_endpoints reg @ [e])\<rparr>"
      "registry_valid env (sort_endpoints (epr_endpoints reg @ [e]))"
      "rte_confirmed_origin input = ''https://'' @ tme_hostname e"
proof (cases "registration_location reg input")
  case (Inl err)
  then have "\<not> registration_ready reg input" using registration_location_iff by (metis sum.distinct(1))
  with Inl assms(1) show ?thesis by (intro refused) (auto simp: register_def)
next
  case (Inr loc)
  let ?e = "new_endpoint env input loc now"
  let ?reg = "reg\<lparr>epr_endpoints := sort_endpoints (epr_endpoints reg @ [?e])\<rparr>"
  have valid: "validate_endpoint env ?e = Inr ()" by (rule new_endpoint_valid [OF Inr assms(3,4,7)])
  have "registry_valid env (epr_endpoints reg @ [?e])" by (rule registration_fits [OF Inr assms(2,5) valid])
  then have sorted: "registry_valid env (sort_endpoints (epr_endpoints reg @ [?e]))"
    using registry_valid_mset [of "sort_endpoints (epr_endpoints reg @ [?e])" "epr_endpoints reg @ [?e]"]
    by (simp add: sort_endpoints_def)
  have ready: "registration_ready reg input" using Inr registration_location_iff by blast
  have origin: "rte_confirmed_origin input = ''https://'' @ tme_hostname ?e"
    using Inr by (auto simp: registration_location_def new_endpoint_def result_simps Let_def)
  obtain saved saved_files where save: "persist_registry env ?reg files = (saved, saved_files)" by force
  have run: "(r, reg', files') = (case saved of Inl err \<Rightarrow> (Inl err, reg, saved_files) | Inr _ \<Rightarrow> (Inr ?e, ?reg, saved_files))"
    using assms(1,6) Inr valid save by (simp add: register_def Let_def split: sum.splits)
  show ?thesis
  proof (cases saved)
    case (Inl err)
    show ?thesis by (rule unsaved [of ?e err]) (use run save Inl ready in auto)
  next
    case (Inr u)
    show ?thesis by (rule added [of ?e]) (use run save Inr ready origin sorted in auto)
  qed
qed

section \<open>Properties\<close>


text \<open>A registry that knows one endpoint, and a second input.\<close>

definition sample_endpoint_env :: EndpointEnv where
  "sample_endpoint_env = \<lparr>ee_rfc3339 = (\<lambda>t. t = ''now''), ee_now = Some ''now'', ee_uuid = replicate 32 CHR ''a'',
     ee_encode = (\<lambda>_. Some ''json''), ee_decode = (\<lambda>_. None), ee_faults = (\<lambda>_. False), ee_part = []\<rparr>"

definition sample_registration :: RegisterTrustedModelEndpoint where
  "sample_registration = \<lparr>rte_schema_version = 1, rte_label = '' Acme '', rte_hostname = ''API.Acme.AI'',
     rte_base_path = ''/v1/'', rte_confirmed_origin = ''https://api.acme.ai'',
     rte_capabilities = \<lparr>tmc_json_object = False, tmc_stream_usage = False, tmc_max_output_token_field = MaxTokens\<rparr>\<rparr>"

definition no_files :: Files where
  "no_files = \<lparr>f_path = None, f_backup = None, f_temp = None\<rparr>"


text \<open>
  C38. An endpoint that was registered in a file survives a restart: when \<open>register\<close> returns it,
  opening the registry from the files it left gives the same registry, and the endpoint is
  found under its id. Removing an endpoint is as durable. The JSON of the file is library
  code: reading back what was written gives the same entries, and it is not empty.
\<close>

theorem registry_survives_restart:
  assumes "\<And>es payload. ee_encode env es = Some payload \<Longrightarrow> payload \<noteq> [] \<and> ee_decode env payload = Some (1, es)"
    and "epr_path reg" and "registry_valid env (epr_endpoints reg)"
    and "length (ee_uuid env) = 32" and "list_all lower_hex_digit (ee_uuid env)"
    and "''endpoint-'' @ ee_uuid env \<notin> tme_id ` set (epr_endpoints reg)"
    and "ee_now env = Some now" and "ee_rfc3339 env now"
    and "register env input (reg, files) = (Inr e, reg', files') \<or> remove_endpoint env i (reg, files) = (Inr e, reg', files')"
  shows "open_registry env files' = Inr reg'"
proof -
  have saved: "open_registry env files' = Inr r"
    if "persist_registry env r files = (Inr u, files')" "registry_valid env (epr_endpoints r)" "epr_path r" for r u
  proof -
    from that(1,3) obtain payload where payload: "ee_encode env (epr_endpoints r) = Some payload"
        "length payload \<le> MAX_REGISTRY_BYTES"
      and published: "fst (persist_file replace_endpoints (ee_faults env) (ee_part env) payload files) = None"
        "files' = last (snd (persist_file replace_endpoints (ee_faults env) (ee_part env) payload files))"
      by (auto simp: persist_registry_def split_beta split: option.splits if_splits)
    have "load_source files' = Some payload" using endpoint_file.persist_success [OF published(1)] published(2) by simp
    moreover have "validate_entries env (epr_endpoints r) = Inr ()" using that(2) validate_entries_iff by blast
    ultimately show ?thesis
      using payload assms(1) [OF payload(1)] that(3)
      by (cases r) (simp add: open_registry_def load_registry_def)
  qed
  from assms(9) show ?thesis
  proof
    assume run: "register env input (reg, files) = (Inr e, reg', files')"
    from run assms(3-8) show ?thesis
    proof (cases rule: register_cases)
      case (added x)
      with saved [OF added(2)] assms(2) show ?thesis by simp
    qed simp_all
  next
    assume run: "remove_endpoint env i (reg, files) = (Inr e, reg', files')"
    let ?reg = "reg\<lparr>epr_endpoints := remove_first i (epr_endpoints reg)\<rparr>"
    from run have p: "persist_registry env ?reg files = (Inr (), files')" and reg': "reg' = ?reg"
      by (auto simp: remove_endpoint_def Let_def split: sum.splits prod.splits)
    have sub: "set (remove_first i es) \<subseteq> set es" "length (remove_first i es) \<le> length es" for es
      by (induction es) auto
    have "distinct (map f (remove_first i es))" if "distinct (map f es)" for f :: "TrustedModelEndpoint \<Rightarrow> string" and es
      using that sub(1) by (induction es) auto
    moreover have "distinct (map location (remove_first i es))" if "distinct (map location es)" for es
      using that sub(1) by (induction es) auto
    ultimately have "registry_valid env (epr_endpoints ?reg)"
      using assms(3) sub [of "epr_endpoints reg"] by (auto simp: registry_valid_def keys_distinct_def list_all_iff)
    with saved [OF p] reg' assms(2) show ?thesis by simp
  qed
qed

definition sample_endpoint :: TrustedModelEndpoint where
  "sample_endpoint = new_endpoint sample_endpoint_env sample_registration (''Acme'', ''api.acme.ai'', ''/v1'') ''now''"

definition restart_env :: EndpointEnv where
  "restart_env = sample_endpoint_env\<lparr>
     ee_encode := (\<lambda>es. if es = [sample_endpoint] then Some ''json'' else None),
     ee_decode := (\<lambda>b. if b = ''json'' then Some (1, [sample_endpoint]) else None)\<rparr>"

definition empty_registry :: EndpointRegistry where
  "empty_registry = \<lparr>epr_path = True, epr_endpoints = []\<rparr>"

theorem registry_survives_restart_witness:
  "open_registry restart_env (snd (snd (register restart_env sample_registration (empty_registry, no_files))))
     = Inr \<lparr>epr_path = True, epr_endpoints = [sample_endpoint]\<rparr>"
proof -
  have run: "register restart_env sample_registration (empty_registry, no_files)
      = (Inr sample_endpoint, \<lparr>epr_path = True, epr_endpoints = [sample_endpoint]\<rparr>,
         \<lparr>f_path = Some ''json'', f_backup = None, f_temp = None\<rparr>)"
    by code_simp
  have "open_registry restart_env \<lparr>f_path = Some ''json'', f_backup = None, f_temp = None\<rparr>
      = Inr \<lparr>epr_path = True, epr_endpoints = [sample_endpoint]\<rparr>"
    by (rule registry_survives_restart [OF _ _ _ _ _ _ _ _ disjI1 [OF run]])
      (auto simp: restart_env_def sample_endpoint_env_def empty_registry_def registry_valid_def keys_distinct_def
        lower_hex_digit_def list_all_iff split: if_splits)
  with run show ?thesis by simp
qed

end
