(* ===== verification/SseDecoder.thy ===== *)
theory SseDecoder
  imports GatewayModel
begin

text \<open>
  The decoder of server-sent events of \<open>model_gateway_stream.rs\<close> (\<open>SseDecoder\<close>): bytes arrive in
  chunks of any size, a line may be split between chunks, and the lines \<open>data: ...\<close> up to an
  empty line are one event. The lemmas relate \<open>feed\<close> on chunks to one pass over the whole
  stream.
\<close>

section \<open>The decoder\<close>

record SseDecoder =
  sse_buffer :: bytes
  sse_data_lines :: "bytes list"
  sse_data_bytes :: nat
  sse_done :: bool

definition new_decoder :: SseDecoder where
  "new_decoder = \<lparr>sse_buffer = [], sse_data_lines = [], sse_data_bytes = 0, sse_done = False\<rparr>"

definition newline :: char where
  "newline = CHR 0x0A"

definition carriage_return :: char where
  "carriage_return = CHR 0x0D"

fun join_lines :: "bytes list \<Rightarrow> bytes" where
  "join_lines [] = []"
| "join_lines [l] = l"
| "join_lines (l # ls) = l @ newline # join_lines ls"

definition flush_event :: "SseDecoder \<Rightarrow> bytes list \<times> SseDecoder" where
  "flush_event d =
     (if sse_data_lines d = [] then ([], d)
      else let data = join_lines (sse_data_lines d);
               d' = d\<lparr>sse_data_lines := [], sse_data_bytes := 0\<rparr>
           in if data = ''[DONE]'' then ([], d'\<lparr>sse_done := True\<rparr>) else ([data], d'))"

definition sse_limit_error :: ModelGatewayError where
  "sse_limit_error = gateway_error ''PROVIDER_PROTOCOL'' ''SSE event exceeded the configured size limit''"

definition process_line :: "bytes \<Rightarrow> SseDecoder \<Rightarrow> ModelGatewayError + (bytes list \<times> SseDecoder)" where
  "process_line line d =
     (if \<not> utf8_valid line
      then Inl (gateway_error ''PROVIDER_PROTOCOL'' ''SSE stream is not valid UTF-8'')
      else if line = [] then Inr (flush_event d)
      else case strip_prefix line ''data:'' of
             None \<Rightarrow> Inr ([], d)
           | Some rest \<Rightarrow>
               (let data = (case strip_prefix rest '' '' of None \<Rightarrow> rest | Some r \<Rightarrow> r);
                    total = sse_data_bytes d + length data
                in if total > MAX_SSE_EVENT_BYTES then Inl sse_limit_error
                   else Inr ([], d\<lparr>sse_data_bytes := total,
                                 sse_data_lines := sse_data_lines d @ [data]\<rparr>)))"

text \<open>The bytes up to the first newline, and the ones after it.\<close>

fun split_line :: "bytes \<Rightarrow> (bytes \<times> bytes) option" where
  "split_line [] = None"
| "split_line (c # cs) =
     (if c = newline then Some ([], cs) else map_option (\<lambda>(l, r). (c # l, r)) (split_line cs))"

definition strip_cr :: "bytes \<Rightarrow> bytes" where
  "strip_cr line = (if line \<noteq> [] \<and> last line = carriage_return then butlast line else line)"

lemma split_line_Some: "split_line s = Some (l, r) \<Longrightarrow> s = l @ newline # r \<and> newline \<notin> set l"
  by (induction s arbitrary: l) (auto split: if_splits)

lemma split_line_None_iff: "split_line s = None \<longleftrightarrow> newline \<notin> set s"
  by (induction s) (auto split: if_splits)

text \<open>The loop of \<open>feed\<close> over the complete lines of the buffer.\<close>

function feed_lines :: "bytes \<Rightarrow> SseDecoder \<Rightarrow> ModelGatewayError + (bytes list \<times> SseDecoder)" where
  "feed_lines buffer d =
     (case split_line buffer of
        None \<Rightarrow> Inr ([], d\<lparr>sse_buffer := buffer\<rparr>)
      | Some (line, rest) \<Rightarrow>
          rbind (process_line (strip_cr line) d) (\<lambda>(events, d).
            if sse_done d then Inr (events, d\<lparr>sse_buffer := []\<rparr>)
            else rbind (feed_lines rest d) (\<lambda>(later, d). Inr (events @ later, d))))"
  by pat_completeness auto
termination
  by (relation "measure (\<lambda>(buffer, _). length buffer)") (auto dest: split_line_Some)

declare feed_lines.simps [simp del]

definition feed :: "bytes \<Rightarrow> SseDecoder \<Rightarrow> ModelGatewayError + (bytes list \<times> SseDecoder)" where
  "feed chunk d =
     (if sse_done d then Inr ([], d)
      else if length (sse_buffer d @ chunk) > MAX_SSE_EVENT_BYTES then Inl sse_limit_error
      else feed_lines (sse_buffer d @ chunk) d)"

definition finish_decoder :: "SseDecoder \<Rightarrow> ModelGatewayError + (bytes list \<times> SseDecoder)" where
  "finish_decoder d =
     (if sse_done d then Inr ([], d)
      else rbind (if sse_buffer d = [] then Inr ([], d)
                  else process_line (strip_cr (sse_buffer d)) (d\<lparr>sse_buffer := []\<rparr>))
             (\<lambda>(events, d). let (last_event, d) = flush_event d in Inr (events @ last_event, d)))"

text \<open>The transport hands over its chunks one after the other.\<close>

fun feed_all :: "bytes list \<Rightarrow> SseDecoder \<Rightarrow> ModelGatewayError + (bytes list \<times> SseDecoder)" where
  "feed_all [] d = Inr ([], d)"
| "feed_all (c # cs) d =
     rbind (feed c d) (\<lambda>(events, d). rbind (feed_all cs d) (\<lambda>(later, d). Inr (events @ later, d)))"

section \<open>Chunks and the whole stream\<close>

text \<open>The loop reads its own argument and not the field of the decoder.\<close>

lemma flush_event_buffer: "flush_event (d\<lparr>sse_buffer := b\<rparr>) = map_prod id (\<lambda>d. d\<lparr>sse_buffer := b\<rparr>) (flush_event d)"
  by (simp add: flush_event_def Let_def)

lemma process_line_buffer:
  "process_line l (d\<lparr>sse_buffer := b\<rparr>) = map_sum id (map_prod id (\<lambda>d. d\<lparr>sse_buffer := b\<rparr>)) (process_line l d)"
  by (simp add: process_line_def flush_event_buffer Let_def split: option.splits)

lemma feed_lines_buffer: "feed_lines s (d\<lparr>sse_buffer := b\<rparr>) = feed_lines s d"
proof (induction s d rule: feed_lines.induct)
  case (1 s d)
  show ?case
  proof (cases "split_line s")
    case None
    then show ?thesis by (simp add: feed_lines.simps)
  next
    case (Some lr)
    obtain l r where lr: "lr = (l, r)" by (cases lr)
    show ?thesis
    proof (cases "process_line (strip_cr l) d")
      case (Inl e)
      with Some lr show ?thesis by (simp add: feed_lines.simps [of s] process_line_buffer)
    next
      case (Inr x)
      obtain ev d' where x: "x = (ev, d')" by (cases x)
      have "feed_lines r (d'\<lparr>sse_buffer := b\<rparr>) = feed_lines r d'" if "\<not> sse_done d'"
        using "1.IH" [OF Some lr [symmetric] that] .
      with Some lr Inr x show ?thesis by (simp add: feed_lines.simps [of s] process_line_buffer)
    qed
  qed
qed

text \<open>Splitting a stream that continues.\<close>

lemma split_line_append:
  "split_line (s @ t) = (case split_line s of
     Some (l, r) \<Rightarrow> Some (l, r @ t)
   | None \<Rightarrow> map_option (\<lambda>(l, r). (s @ l, r)) (split_line t))"
  by (induction s; cases "split_line t") (auto split: option.splits)

lemma rbind_assoc: "rbind (rbind a f) g = rbind a (\<lambda>y. rbind (f y) g)"
  by (cases a) simp_all

lemma feed_lines_append:
  assumes "\<not> sse_done d"
  shows "feed_lines (s @ t) d = rbind (feed_lines s d) (\<lambda>(ev, d').
    if sse_done d' then Inr (ev, d')
    else rbind (feed_lines (sse_buffer d' @ t) d') (\<lambda>(ev', d''). Inr (ev @ ev', d'')))"
  using assms
proof (induction s d rule: feed_lines.induct)
  case (1 s d)
  show ?case
  proof (cases "split_line s")
    case None
    then have "feed_lines s d = Inr ([], d\<lparr>sse_buffer := s\<rparr>)" by (simp add: feed_lines.simps)
    moreover have "rbind x (\<lambda>(ev', d''). Inr ([] @ ev', d'')) = x"
      for x :: "ModelGatewayError + (bytes list \<times> SseDecoder)"
      by (cases x) auto
    ultimately show ?thesis using "1.prems" by (simp add: feed_lines_buffer split_beta)
  next
    case (Some lr)
    obtain l r where lr: "lr = (l, r)" by (cases lr)
    with Some have st: "split_line (s @ t) = Some (l, r @ t)" by (simp add: split_line_append)
    show ?thesis
    proof (cases "process_line (strip_cr l) d")
      case (Inl e)
      with Some lr st show ?thesis by (simp add: feed_lines.simps [of s] feed_lines.simps [of "s @ t"])
    next
      case (Inr x)
      obtain ev d' where x: "x = (ev, d')" by (cases x)
      show ?thesis
      proof (cases "sse_done d'")
        case True
        with Some lr st Inr x show ?thesis
          by (simp add: feed_lines.simps [of s] feed_lines.simps [of "s @ t"])
      next
        case False
        note IH = "1.IH" [OF Some lr [symmetric] False False]
        from Some lr st Inr x False show ?thesis
          by (auto simp: feed_lines.simps [of s] feed_lines.simps [of "s @ t"] IH split_beta rbind_assoc
              intro!: arg_cong [where f = "rbind _"] ext)
      qed
    qed
  qed
qed

text \<open>
  What stays in the buffer is the line that is not complete yet. \<open>lines_within K n s\<close>: no line of
  \<open>s\<close> is longer than \<open>K\<close> when its first line already has \<open>n\<close> bytes.
\<close>

fun lines_within :: "nat \<Rightarrow> nat \<Rightarrow> bytes \<Rightarrow> bool" where
  "lines_within K n [] \<longleftrightarrow> n \<le> K"
| "lines_within K n (c # cs) \<longleftrightarrow> n \<le> K \<and> lines_within K (if c = newline then 0 else n + 1) cs"

fun open_line :: "nat \<Rightarrow> bytes \<Rightarrow> nat" where
  "open_line n [] = n"
| "open_line n (c # cs) = open_line (if c = newline then 0 else n + 1) cs"

lemma lines_within_append:
  "lines_within K n (s @ t) \<Longrightarrow> lines_within K (open_line n s) t"
  by (induction s arbitrary: n) auto

lemma lines_within_start: "lines_within K n s \<Longrightarrow> n \<le> K"
  by (cases s) auto

lemma open_line_append: "open_line n (s @ t) = open_line (open_line n s) t"
  by (induction s arbitrary: n) auto

lemma open_line_plain: "newline \<notin> set s \<Longrightarrow> open_line n s = n + length s"
  by (induction s arbitrary: n) auto

lemma feed_lines_rest:
  assumes "feed_lines s d = Inr (ev, d')" and "\<not> sse_done d'"
  shows "length (sse_buffer d') = open_line 0 s \<and> newline \<notin> set (sse_buffer d')"
  using assms
proof (induction s d arbitrary: ev rule: feed_lines.induct)
  case (1 s d)
  show ?case
  proof (cases "split_line s")
    case None
    with "1.prems" show ?thesis
      by (auto simp: feed_lines.simps [of s] open_line_plain split_line_None_iff)
  next
    case (Some lr)
    obtain l r where lr: "lr = (l, r)" by (cases lr)
    from "1.prems" Some lr obtain ev1 d1 ev2 where
      step: "\<not> sse_done d1" "feed_lines r d1 = Inr (ev2, d')"
      by (auto simp: feed_lines.simps [of s] result_simps split: if_splits)
    have "s = l @ newline # r" "newline \<notin> set l" using split_line_Some Some lr by auto
    then have "open_line 0 s = open_line 0 r" by (simp add: open_line_append)
    with "1.IH" [OF Some lr [symmetric] step "1.prems"(2)] show ?thesis by simp
  qed
qed

text \<open>
  However the stream is cut, as long as a line and a chunk fit into the buffer together, the
  chunks give the events of the whole stream.
\<close>

lemma feed_all_whole:
  assumes "feed_lines (sse_buffer d @ concat chunks) d = Inr (ev, d')" and "\<not> sse_done d"
    and "lines_within K (length (sse_buffer d)) (concat chunks)"
    and "newline \<notin> set (sse_buffer d)"
    and "\<And>c. c \<in> set chunks \<Longrightarrow> K + length c \<le> MAX_SSE_EVENT_BYTES"
  shows "\<exists>d''. feed_all chunks d = Inr (ev, d'') \<and> (sse_done d' \<longrightarrow> sse_done d'')"
  using assms
proof (induction chunks arbitrary: d ev)
  case Nil
  then have "split_line (sse_buffer d) = None" by (simp add: split_line_None_iff)
  with Nil show ?case by (auto simp: feed_lines.simps)
next
  case (Cons c cs)
  have "length (sse_buffer d) \<le> K" using lines_within_start Cons.prems(3) by blast
  then have "length (sse_buffer d @ c) \<le> MAX_SSE_EVENT_BYTES" using Cons.prems(5) [of c] by simp
  then have feed: "feed c d = feed_lines (sse_buffer d @ c) d" using Cons.prems(2) by (simp add: feed_def)
  have whole: "feed_lines ((sse_buffer d @ c) @ concat cs) d = Inr (ev, d')" using Cons.prems(1) by simp
  note cut = whole [unfolded feed_lines_append [OF Cons.prems(2), of "sse_buffer d @ c" "concat cs"]]
  from cut obtain ev1 d1 where 1: "feed_lines (sse_buffer d @ c) d = Inr (ev1, d1)"
    by (auto simp: result_simps)
  show ?case
  proof (cases "sse_done d1")
    case True
    have "feed_all cs x = Inr ([], x)" if "sse_done x" for x
      using that by (induction cs) (simp_all add: feed_def)
    with True 1 cut feed show ?thesis by auto
  next
    case False
    with 1 cut obtain ev2 where 2: "feed_lines (sse_buffer d1 @ concat cs) d1 = Inr (ev2, d')"
      and ev: "ev = ev1 @ ev2"
      by (auto simp: result_simps)
    have rest: "length (sse_buffer d1) = open_line (length (sse_buffer d)) c" "newline \<notin> set (sse_buffer d1)"
      using feed_lines_rest [OF 1 False] Cons.prems(4) by (simp_all add: open_line_append open_line_plain)
    have "lines_within K (length (sse_buffer d1)) (concat cs)"
      using lines_within_append Cons.prems(3) rest(1) by simp
    with Cons.IH [OF 2 False _ rest(2)] Cons.prems(5) obtain d2 where
      "feed_all cs d1 = Inr (ev2, d2)" "sse_done d' \<longrightarrow> sse_done d2" by auto
    with 1 feed ev show ?thesis by auto
  qed
qed

section \<open>What a server sends\<close>

text \<open>An event as it is written to the stream: its lines after \<open>data: \<close>, and an empty line.\<close>

definition encode_line :: "bytes \<Rightarrow> bytes" where
  "encode_line l = ''data: '' @ l @ [newline]"

definition encode_event :: "bytes list \<Rightarrow> bytes" where
  "encode_event ls = concat (map encode_line ls) @ [newline]"

definition line_ok :: "bytes \<Rightarrow> bool" where
  "line_ok l \<longleftrightarrow> utf8_valid l \<and> newline \<notin> set l \<and> (l = [] \<or> last l \<noteq> carriage_return)"

definition event_ok :: "bytes list \<Rightarrow> bool" where
  "event_ok ls \<longleftrightarrow> ls \<noteq> [] \<and> list_all line_ok ls \<and> join_lines ls \<noteq> ''[DONE]''
     \<and> sum_list (map length ls) \<le> MAX_SSE_EVENT_BYTES"

lemma split_line_plain: "newline \<notin> set l \<Longrightarrow> split_line (l @ newline # r) = Some (l, r)"
  by (induction l) auto

lemma feed_encode_line:
  assumes "line_ok l" and "sse_data_bytes d + length l \<le> MAX_SSE_EVENT_BYTES" and "\<not> sse_done d"
  shows "feed_lines (encode_line l @ rest) d = feed_lines rest
    (d\<lparr>sse_data_bytes := sse_data_bytes d + length l, sse_data_lines := sse_data_lines d @ [l]\<rparr>)"
proof -
  have line: "split_line (encode_line l @ rest) = Some (''data: '' @ l, rest)"
    using split_line_plain [of "''data: '' @ l" rest] assms(1)
    by (simp add: encode_line_def line_ok_def newline_def)
  have cr: "strip_cr (''data: '' @ l) = ''data: '' @ l"
    using assms(1) by (auto simp: strip_cr_def line_ok_def carriage_return_def)
  have "process_line (''data: '' @ l) d = Inr ([],
      d\<lparr>sse_data_bytes := sse_data_bytes d + length l, sse_data_lines := sse_data_lines d @ [l]\<rparr>)"
    using assms by (simp add: process_line_def strip_prefix_def line_ok_def)
  then show ?thesis
    using line cr assms(3)
    by (simp add: feed_lines.simps [of "encode_line l @ rest"] del: append_Cons)
      (cases "feed_lines rest (d\<lparr>sse_data_bytes := sse_data_bytes d + length l, sse_data_lines := sse_data_lines d @ [l]\<rparr>)"; auto)
qed

lemma feed_encode_lines:
  assumes "list_all line_ok ls" and "sse_data_bytes d + sum_list (map length ls) \<le> MAX_SSE_EVENT_BYTES"
    and "\<not> sse_done d"
  shows "feed_lines (concat (map encode_line ls) @ rest) d = feed_lines rest
    (d\<lparr>sse_data_bytes := sse_data_bytes d + sum_list (map length ls),
       sse_data_lines := sse_data_lines d @ ls\<rparr>)"
  using assms
proof (induction ls arbitrary: d)
  case (Cons l ls)
  then show ?case by (simp add: feed_encode_line add.assoc)
qed simp

text \<open>A decoder between two events.\<close>

definition idle :: "SseDecoder \<Rightarrow> bool" where
  "idle d \<longleftrightarrow> sse_data_lines d = [] \<and> sse_data_bytes d = 0 \<and> \<not> sse_done d"

lemma feed_blank_line:
  assumes "\<not> sse_done d"
  shows "feed_lines (newline # rest) d = (let (ev, d') = flush_event d in
    if sse_done d' then Inr (ev, d'\<lparr>sse_buffer := []\<rparr>)
    else rbind (feed_lines rest d') (\<lambda>(later, d). Inr (ev @ later, d)))"
  by (simp add: feed_lines.simps [of "newline # rest"] process_line_def strip_cr_def split_beta)

lemma feed_encode_event:
  assumes "event_ok ls" and "idle d"
  shows "feed_lines (encode_event ls @ rest) d
    = rbind (feed_lines rest d) (\<lambda>(later, d). Inr (join_lines ls # later, d))"
proof -
  let ?d = "d\<lparr>sse_data_bytes := sum_list (map length ls), sse_data_lines := ls\<rparr>"
  have d: "?d\<lparr>sse_data_lines := [], sse_data_bytes := 0\<rparr> = d"
    using assms(2) by (cases d) (simp add: idle_def)
  have "feed_lines (encode_event ls @ rest) d = feed_lines (newline # rest) ?d"
    using feed_encode_lines [of ls d "newline # rest"] assms by (simp add: encode_event_def idle_def event_ok_def)
  also have "flush_event ?d = ([join_lines ls], d)"
    using assms(1) d by (simp add: flush_event_def event_ok_def Let_def)
  then have "feed_lines (newline # rest) ?d = rbind (feed_lines rest d) (\<lambda>(later, d). Inr (join_lines ls # later, d))"
    using assms(2) by (simp add: feed_blank_line idle_def)
  finally show ?thesis .
qed

lemma feed_encode_events:
  assumes "list_all event_ok events" and "idle d"
  shows "feed_lines (concat (map encode_event events) @ rest) d
    = rbind (feed_lines rest d) (\<lambda>(later, d). Inr (map join_lines events @ later, d))"
  using assms
proof (induction events)
  case Nil
  then show ?case by (cases "feed_lines rest d") auto
next
  case (Cons e es)
  then show ?case by (simp add: feed_encode_event rbind_assoc split_beta)
qed

lemma feed_encode_done:
  assumes "idle d"
  shows "\<exists>d'. feed_lines (encode_event [''[DONE]'']) d = Inr ([], d') \<and> sse_done d'"
proof -
  let ?d = "d\<lparr>sse_data_bytes := length ''[DONE]'', sse_data_lines := [''[DONE]'']\<rparr>"
  have "feed_lines (encode_event [''[DONE]'']) d = feed_lines (newline # []) ?d"
    using feed_encode_lines [of "[''[DONE]'']" d "[newline]"] assms
    by (simp add: encode_event_def idle_def line_ok_def newline_def carriage_return_def MAX_SSE_EVENT_BYTES_def)
  then show ?thesis using assms by (simp add: feed_blank_line idle_def flush_event_def Let_def)
qed

section \<open>Properties\<close>

text \<open>
  C32. However the transport cuts the stream into chunks, the decoder hands on exactly the
  events that the server sent, in order, and stops at \<open>[DONE]\<close>: a line may be split anywhere,
  inside \<open>data:\<close> or inside a character. It is enough that each chunk fits into the buffer
  together with a line.
\<close>

theorem sse_events_independent_of_chunks:
  assumes "concat chunks = concat (map encode_event events) @ encode_event [''[DONE]'']"
    and "list_all event_ok events"
    and "lines_within K 0 (concat chunks)"
    and "list_all (\<lambda>c. K + length c \<le> MAX_SSE_EVENT_BYTES) chunks"
  shows "\<exists>d. feed_all chunks new_decoder = Inr (map join_lines events, d) \<and> finish_decoder d = Inr ([], d)"
proof -
  have idle: "idle new_decoder" by (simp add: idle_def new_decoder_def)
  obtain d' where d': "feed_lines (encode_event [''[DONE]'']) new_decoder = Inr ([], d')" "sse_done d'"
    using feed_encode_done [OF idle] by blast
  then have whole: "feed_lines (sse_buffer new_decoder @ concat chunks) new_decoder = Inr (map join_lines events, d')"
    using feed_encode_events [OF assms(2) idle] assms(1) by (simp add: new_decoder_def)
  obtain d where "feed_all chunks new_decoder = Inr (map join_lines events, d)" "sse_done d' \<longrightarrow> sse_done d"
    using feed_all_whole [OF whole, of K] assms(3,4) by (auto simp: new_decoder_def list_all_iff)
  with d'(2) show ?thesis by (simp add: finish_decoder_def)
qed

text \<open>Two events in chunks that split lines, the prefix and the end mark.\<close>

definition sample_chunks :: "bytes list" where
  "sample_chunks =
     [''da'', ''ta: a'', newline # ''data: b'' @ [newline], newline # ''data: c'' @ [newline, newline],
      ''data: [DO'', ''NE]'' @ [newline, newline]]"

theorem sse_events_independent_of_chunks_witness:
  "\<exists>d. feed_all sample_chunks new_decoder = Inr ([''a'' @ newline # ''b'', ''c''], d) \<and> finish_decoder d = Inr ([], d)"
proof -
  have "\<exists>d. feed_all sample_chunks new_decoder = Inr (map join_lines [[''a'', ''b''], [''c'']], d)
      \<and> finish_decoder d = Inr ([], d)"
  proof (rule sse_events_independent_of_chunks [where K = 12])
    show "concat sample_chunks = concat (map encode_event [[''a'', ''b''], [''c'']]) @ encode_event [''[DONE]'']"
      by (simp add: sample_chunks_def encode_event_def encode_line_def)
    show "list_all event_ok [[''a'', ''b''], [''c'']]" by code_simp
    show "lines_within 12 0 (concat sample_chunks)" by code_simp
    show "list_all (\<lambda>c. 12 + length c \<le> MAX_SSE_EVENT_BYTES) sample_chunks" by code_simp
  qed
  then show ?thesis by simp
qed

end
