(* ===== verification/GatewayStream.thy ===== *)
theory GatewayStream
  imports SseDecoder
begin

text \<open>
  The sink that turns the answer of a model provider into stream events
  (\<open>StreamingGatewaySink\<close> of \<open>model_gateway_stream.rs\<close>). The callback \<open>emit\<close> of the code is the
  parameter \<open>receive\<close>: from the events it has seen and the next one it says whether it fails.
  The sink keeps the list of the events handed to it. An operation returns its result and
  the sink; after an error the gateway does not use the sink again, so what the decoder
  holds at an error is not modelled.
\<close>

record Sink =
  sk_request_id :: string
  sk_provider_id :: ModelProviderId
  sk_secret :: "string option"
  sk_head :: "ModelHttpResponseHead option"
  sk_error_body :: bytes
  sk_decoder :: SseDecoder
  sk_started :: bool
  sk_response_id :: "string option"
  sk_model :: "string option"
  sk_content :: string
  sk_reasoning :: string
  sk_finish_reason :: ModelFinishReason
  sk_usage :: "ModelUsage option"
  sk_events :: "ModelStreamEvent list"

definition new_sink :: "string \<Rightarrow> ModelProviderId \<Rightarrow> string option \<Rightarrow> Sink" where
  "new_sink request_id provider_id secret =
     \<lparr>sk_request_id = request_id, sk_provider_id = provider_id, sk_secret = secret,
      sk_head = None, sk_error_body = [], sk_decoder = new_decoder, sk_started = False,
      sk_response_id = None, sk_model = None, sk_content = [], sk_reasoning = [],
      sk_finish_reason = UnknownReason, sk_usage = None, sk_events = []\<rparr>"

section \<open>Operations on the sink\<close>

type_synonym 'a sink_op = "Sink \<Rightarrow> (ModelGatewayError + 'a) \<times> Sink"
type_synonym receiver = "ModelStreamEvent list \<Rightarrow> ModelStreamEvent \<Rightarrow> ModelGatewayError option"

definition sbind :: "'a sink_op \<Rightarrow> ('a \<Rightarrow> 'b sink_op) \<Rightarrow> 'b sink_op" where
  "sbind m f s = (case m s of (Inl e, s') \<Rightarrow> (Inl e, s') | (Inr x, s') \<Rightarrow> f x s')"

definition slift :: "ModelGatewayError + 'a \<Rightarrow> 'a sink_op" where
  "slift r s = (r, s)"

definition smodify :: "(Sink \<Rightarrow> Sink) \<Rightarrow> unit sink_op" where
  "smodify f s = (Inr (), f s)"

definition emit :: "receiver \<Rightarrow> ModelStreamEvent \<Rightarrow> unit sink_op" where
  "emit receive event s =
     (case receive (sk_events s) event of None \<Rightarrow> Inr () | Some e \<Rightarrow> Inl e,
      s\<lparr>sk_events := sk_events s @ [event]\<rparr>)"

fun each :: "('a \<Rightarrow> unit sink_op) \<Rightarrow> 'a list \<Rightarrow> unit sink_op" where
  "each f [] = slift (Inr ())"
| "each f (x # xs) = sbind (f x) (\<lambda>_. each f xs)"

section \<open>Reading a chunk\<close>

definition normalize_piece :: "StreamContentMode \<Rightarrow> string \<Rightarrow> string \<Rightarrow> string \<times> string" where
  "normalize_piece mode previous current =
     (if mode = Delta then (current, previous @ current)
      else if starts_with current previous then (drop (length previous) current, current)
      else if ends_with previous current then ([], previous)
      else (current, previous @ current))"

definition optional_non_empty_string ::
  "ModelProviderId \<Rightarrow> json option \<Rightarrow> string \<Rightarrow> ModelGatewayError + string option" where
  "optional_non_empty_string p v name =
     (case v of
        None \<Rightarrow> Inr None
      | Some JNull \<Rightarrow> Inr None
      | Some (JString s) \<Rightarrow> if s \<noteq> [] then Inr (Some s)
          else Inl (protocol_error p (name @ '' must be a non-empty string''))
      | _ \<Rightarrow> Inl (protocol_error p (name @ '' must be a non-empty string'')))"

definition optional_nullable_string ::
  "ModelProviderId \<Rightarrow> json option \<Rightarrow> string \<Rightarrow> ModelGatewayError + string option" where
  "optional_nullable_string p v name =
     (case v of
        None \<Rightarrow> Inr None
      | Some JNull \<Rightarrow> Inr None
      | Some (JString s) \<Rightarrow> Inr (Some s)
      | _ \<Rightarrow> Inl (protocol_error p (name @ '' must be a string'')))"

definition parse_reasoning_details ::
  "ModelProviderId \<Rightarrow> json option \<Rightarrow> ModelGatewayError + string option" where
  "parse_reasoning_details p v =
     (case v of
        None \<Rightarrow> Inr None
      | Some JNull \<Rightarrow> Inr None
      | Some (JArray details) \<Rightarrow>
          rbind (mapM (\<lambda>detail. ok_or (Option.bind (Option.bind (json_as_object detail)
                    (\<lambda>m. map_of m ''text'')) json_as_str)
                  (protocol_error p ''reasoning_details text must be a string'')) details)
            (\<lambda>texts. Inr (if concat texts = [] then None else Some (concat texts)))
      | _ \<Rightarrow> Inl (protocol_error p ''reasoning_details must be an array''))"

definition parse_tool_call_delta ::
  "ModelProviderId \<Rightarrow> nat \<times> json \<Rightarrow> ModelGatewayError + ModelStreamEvent" where
  "parse_tool_call_delta p = (\<lambda>(position, value).
     rbind (ok_or (json_as_object value) (protocol_error p ''tool call delta must be an object''))
       (\<lambda>call.
     let function = Option.bind (map_of call ''function'') json_as_object;
         index = (case Option.bind (map_of call ''index'') json_as_u64 of None \<Rightarrow> position | Some i \<Rightarrow> i)
     in rbind (optional_nullable_string p (map_of call ''id'') ''tool call id'') (\<lambda>i.
        rbind (optional_nullable_string p (Option.bind function (\<lambda>f. map_of f ''name''))
                 ''tool call name'') (\<lambda>name.
        rbind (optional_nullable_string p (Option.bind function (\<lambda>f. map_of f ''arguments''))
                 ''tool call arguments'') (\<lambda>arguments.
        Inr (ToolCallDelta index i name arguments))))))"

definition parse_tool_call_deltas ::
  "ModelProviderId \<Rightarrow> json option \<Rightarrow> ModelGatewayError + ModelStreamEvent list" where
  "parse_tool_call_deltas p v =
     (case v of
        None \<Rightarrow> Inr []
      | Some JNull \<Rightarrow> Inr []
      | Some (JArray calls) \<Rightarrow> mapM (parse_tool_call_delta p) (enumerate 0 calls)
      | _ \<Rightarrow> Inl (protocol_error p ''delta.tool_calls must be an array''))"

fun first_u64 :: "(string \<times> json) list \<Rightarrow> string list \<Rightarrow> nat option" where
  "first_u64 values [] = None"
| "first_u64 values (name # names) =
     (case Option.bind (map_of values name) json_as_u64 of
        Some n \<Rightarrow> Some n | None \<Rightarrow> first_u64 values names)"

definition unwrap_or :: "'a \<Rightarrow> 'a option \<Rightarrow> 'a" where
  "unwrap_or d v = (case v of None \<Rightarrow> d | Some x \<Rightarrow> x)"

definition or_else :: "'a option \<Rightarrow> 'a option \<Rightarrow> 'a option" where
  "or_else a b = (case a of None \<Rightarrow> b | Some x \<Rightarrow> Some x)"

text \<open>The sum of two \<open>u64\<close> wraps in a release build.\<close>

definition u64_add :: "nat \<Rightarrow> nat \<Rightarrow> nat" where
  "u64_add a b = (a + b) mod 2 ^ 64"

definition parse_usage :: "ModelProviderId \<Rightarrow> json option \<Rightarrow> ModelGatewayError + ModelUsage option" where
  "parse_usage p v =
     (case v of
        None \<Rightarrow> Inr None
      | Some JNull \<Rightarrow> Inr None
      | Some (JObject usage) \<Rightarrow>
          (let input_tokens = unwrap_or 0 (first_u64 usage [''prompt_tokens'', ''input_tokens'']);
               output_tokens = unwrap_or 0 (first_u64 usage [''completion_tokens'', ''output_tokens'']);
               prompt_details = Option.bind (map_of usage ''prompt_tokens_details'') json_as_object;
               completion_details = Option.bind (map_of usage ''completion_tokens_details'') json_as_object
           in Inr (Some
                \<lparr>usg_input_tokens = input_tokens, usg_output_tokens = output_tokens,
                 usg_total_tokens = unwrap_or (u64_add input_tokens output_tokens)
                   (first_u64 usage [''total_tokens'']),
                 usg_cached_input_tokens = or_else
                   (first_u64 usage [''cached_tokens'', ''prompt_cache_hit_tokens''])
                   (Option.bind prompt_details (\<lambda>d. first_u64 d [''cached_tokens''])),
                 usg_reasoning_tokens =
                   Option.bind completion_details (\<lambda>d. first_u64 d [''reasoning_tokens''])\<rparr>))
      | _ \<Rightarrow> Inl (protocol_error p ''usage must be an object''))"

text \<open>What the first choice of a chunk holds.\<close>

record ChunkParts =
  pt_content :: "string option"
  pt_reasoning :: "string option"
  pt_reasoning_details :: "string option"
  pt_tool_calls :: "ModelStreamEvent list"
  pt_finish :: "ModelFinishReason option"

definition no_parts :: ChunkParts where
  "no_parts = \<lparr>pt_content = None, pt_reasoning = None, pt_reasoning_details = None,
     pt_tool_calls = [], pt_finish = None\<rparr>"

definition parse_choice :: "ModelProviderId \<Rightarrow> json \<Rightarrow> ModelGatewayError + ChunkParts" where
  "parse_choice p value =
     rbind (ok_or (json_as_object value) (protocol_error p ''stream choice must be an object''))
       (\<lambda>choice.
     rbind (ok_or (Option.bind (map_of choice ''delta'') json_as_object)
              (protocol_error p ''stream choice delta must be an object'')) (\<lambda>delta.
     rbind (optional_nullable_string p (map_of delta ''content'') ''delta.content'') (\<lambda>content.
     rbind (optional_nullable_string p (map_of delta ''reasoning_content'') ''delta.reasoning_content'')
       (\<lambda>reasoning_content.
     rbind (optional_nullable_string p (map_of delta ''reasoning'') ''delta.reasoning'') (\<lambda>reasoning.
     rbind (parse_reasoning_details p (map_of delta ''reasoning_details'')) (\<lambda>details.
     rbind (parse_tool_call_deltas p (map_of delta ''tool_calls'')) (\<lambda>calls.
     Inr \<lparr>pt_content = content, pt_reasoning = or_else reasoning_content reasoning,
          pt_reasoning_details = details, pt_tool_calls = calls,
          pt_finish = (case map_of choice ''finish_reason'' of
             None \<Rightarrow> None | Some JNull \<Rightarrow> None
           | Some v \<Rightarrow> Some (finish_reason_from_value (Some v)))\<rparr>)))))))"

definition parse_choices :: "ModelProviderId \<Rightarrow> json option \<Rightarrow> ModelGatewayError + ChunkParts" where
  "parse_choices p v =
     (case v of
        None \<Rightarrow> Inr no_parts
      | Some (JArray []) \<Rightarrow> Inr no_parts
      | Some (JArray (choice # _)) \<Rightarrow> parse_choice p choice
      | Some _ \<Rightarrow> Inl (protocol_error p ''stream choices must be an array''))"

definition nonempty :: "string option \<Rightarrow> bool" where
  "nonempty v \<longleftrightarrow> (case v of None \<Rightarrow> False | Some s \<Rightarrow> s \<noteq> [])"

definition has_output :: "ChunkParts \<Rightarrow> bool" where
  "has_output parts \<longleftrightarrow> nonempty (pt_content parts) \<or> nonempty (pt_reasoning parts)
     \<or> nonempty (pt_reasoning_details parts) \<or> pt_tool_calls parts \<noteq> [] \<or> pt_finish parts \<noteq> None"

section \<open>Emitting\<close>

definition remember_ids :: "string option \<Rightarrow> string option \<Rightarrow> Sink \<Rightarrow> Sink" where
  "remember_ids chunk_id chunk_model s =
     s\<lparr>sk_response_id := or_else (sk_response_id s) chunk_id,
       sk_model := or_else (sk_model s) chunk_model\<rparr>"

definition start_stream :: "receiver \<Rightarrow> ChunkParts \<Rightarrow> unit sink_op" where
  "start_stream receive parts s =
     (if \<not> sk_started s \<and> has_output parts
      then (let missing = protocol_error (sk_provider_id s) ''first output chunk must include id and model''
            in sbind (slift (ok_or (sk_response_id s) missing)) (\<lambda>response_id.
               sbind (slift (ok_or (sk_model s) missing)) (\<lambda>model.
               sbind (smodify (\<lambda>s. s\<lparr>sk_started := True\<rparr>)) (\<lambda>_.
               emit receive (StartEvent (sk_request_id s) response_id (sk_provider_id s) model)))) s)
      else (Inr (), s))"

definition emit_reasoning :: "receiver \<Rightarrow> ChunkParts \<Rightarrow> unit sink_op" where
  "emit_reasoning receive parts s =
     (let piece = (case pt_reasoning_details parts of
          Some details \<Rightarrow> Some (normalize_piece Cumulative (sk_reasoning s) details)
        | None \<Rightarrow> map_option (normalize_piece (stream_mode (sk_provider_id s)) (sk_reasoning s))
                    (pt_reasoning parts))
      in case piece of
           None \<Rightarrow> (Inr (), s)
         | Some (delta, reasoning) \<Rightarrow>
             (let s = s\<lparr>sk_reasoning := reasoning\<rparr>
              in if delta = [] then (Inr (), s) else emit receive (ReasoningDelta delta) s))"

definition emit_content :: "receiver \<Rightarrow> ChunkParts \<Rightarrow> unit sink_op" where
  "emit_content receive parts s =
     (case map_option (normalize_piece (stream_mode (sk_provider_id s)) (sk_content s)) (pt_content parts) of
        None \<Rightarrow> (Inr (), s)
      | Some (delta, content) \<Rightarrow>
          (let s = s\<lparr>sk_content := content\<rparr>
           in if delta = [] then (Inr (), s) else emit receive (TextDelta delta) s))"

definition emit_usage :: "receiver \<Rightarrow> json option \<Rightarrow> unit sink_op" where
  "emit_usage receive v s =
     sbind (slift (parse_usage (sk_provider_id s) v)) (\<lambda>usage.
       case usage of
         None \<Rightarrow> slift (Inr ())
       | Some u \<Rightarrow> sbind (smodify (\<lambda>s. s\<lparr>sk_usage := Some u\<rparr>)) (\<lambda>_. emit receive (UsageEvent u))) s"

definition keep_finish :: "ChunkParts \<Rightarrow> Sink \<Rightarrow> Sink" where
  "keep_finish parts s =
     (case pt_finish parts of None \<Rightarrow> s | Some reason \<Rightarrow> s\<lparr>sk_finish_reason := reason\<rparr>)"

definition check_output_size :: "unit sink_op" where
  "check_output_size s =
     (require (\<not> length (sk_content s) + length (sk_reasoning s) > MAX_OUTPUT_BYTES)
        (protocol_error (sk_provider_id s) ''model output exceeded the hard size limit''), s)"

definition process_chunk :: "GatewayEnv \<Rightarrow> receiver \<Rightarrow> ModelProviderId \<Rightarrow> bytes \<Rightarrow> unit sink_op" where
  "process_chunk env receive p event =
      sbind (slift (ok_or (from_slice env event) (protocol_error p ''SSE data is not valid JSON''))) (\<lambda>value.
      sbind (slift (ok_or (json_as_object value) (protocol_error p ''stream chunk must be an object''))) (\<lambda>root.
      sbind (slift (optional_non_empty_string p (map_of root ''id'') ''stream chunk id'')) (\<lambda>chunk_id.
      sbind (slift (optional_non_empty_string p (map_of root ''model'') ''stream chunk model'')) (\<lambda>chunk_model.
      sbind (smodify (remember_ids chunk_id chunk_model)) (\<lambda>_.
      sbind (slift (parse_choices p (map_of root ''choices''))) (\<lambda>parts.
      sbind (start_stream receive parts) (\<lambda>_.
      sbind (emit_reasoning receive parts) (\<lambda>_.
      sbind (emit_content receive parts) (\<lambda>_.
      sbind (each (emit receive) (pt_tool_calls parts)) (\<lambda>_.
      sbind (emit_usage receive (map_of root ''usage'')) (\<lambda>_.
      sbind (smodify (keep_finish parts)) (\<lambda>_.
      check_output_size))))))))))))"

definition process_sse_event :: "GatewayEnv \<Rightarrow> receiver \<Rightarrow> bytes \<Rightarrow> unit sink_op" where
  "process_sse_event env receive event s = process_chunk env receive (sk_provider_id s) event s"

section \<open>The response\<close>

definition success_status :: "nat \<Rightarrow> bool" where
  "success_status status \<longleftrightarrow> 200 \<le> status \<and> status < 300"

definition begin_response :: "ModelHttpResponseHead \<Rightarrow> unit sink_op" where
  "begin_response head s =
     (if sk_head s \<noteq> None
      then (Inl (protocol_error (sk_provider_id s) ''provider transport emitted response headers twice''), s)
      else if success_status (mhr_status head)
        \<and> (case response_header head ''content-type'' of
               None \<Rightarrow> True | Some v \<Rightarrow> \<not> contains (to_ascii_lowercase v) ''text/event-stream'')
      then (Inl (protocol_error (sk_provider_id s) ''streaming response must use text/event-stream''), s)
      else (Inr (), s\<lparr>sk_head := Some head\<rparr>))"

definition response_chunk :: "GatewayEnv \<Rightarrow> receiver \<Rightarrow> bytes \<Rightarrow> unit sink_op" where
  "response_chunk env receive chunk s =
     (case sk_head s of
        None \<Rightarrow> (Inl (protocol_error (sk_provider_id s)
                   ''provider transport emitted body before response headers''), s)
      | Some head \<Rightarrow>
          if \<not> success_status (mhr_status head)
          then (Inr (), s\<lparr>sk_error_body := sk_error_body s
                  @ take (MAX_ERROR_BYTES - length (sk_error_body s)) chunk\<rparr>)
          else sbind (slift (feed chunk (sk_decoder s))) (\<lambda>(events, d).
               sbind (smodify (\<lambda>s. s\<lparr>sk_decoder := d\<rparr>)) (\<lambda>_.
               each (process_sse_event env receive) events)) s)"

section \<open>Errors of the provider\<close>

definition redaction_mark :: string where
  "redaction_mark = ''[REDACTED]''"

definition bounded_redacted :: "string option \<Rightarrow> nat \<Rightarrow> string \<Rightarrow> string" where
  "bounded_redacted secret max_chars v =
     take_chars max_chars (case secret of
       None \<Rightarrow> v | Some p \<Rightarrow> if p = [] then v else replace_all v p redaction_mark)"

definition provider_error_code :: "string \<Rightarrow> nat \<Rightarrow> string" where
  "provider_error_code normalized_code status =
     (if contains normalized_code ''content_filter'' \<or> contains normalized_code ''sensitive''
         \<or> contains normalized_code ''safety'' then ''PROVIDER_CONTENT_FILTER''
      else if status = 401 then ''PROVIDER_AUTHENTICATION''
      else if status = 402 then ''PROVIDER_QUOTA''
      else if status = 403 then ''PROVIDER_PERMISSION''
      else if status = 429 then ''PROVIDER_RATE_LIMIT''
      else if status \<in> set [400, 404, 409, 422] then ''INVALID_MODEL_REQUEST''
      else ''PROVIDER_SERVER'')"

text \<open>The object that describes the error: the field \<open>error\<close> when it is one, or the root.\<close>

definition nested_error :: "json option \<Rightarrow> (string \<times> json) list option" where
  "nested_error payload =
     Option.bind (Option.bind payload json_as_object)
       (\<lambda>root. or_else (Option.bind (map_of root ''error'') json_as_object) (Some root))"

definition provider_http_error ::
  "GatewayEnv \<Rightarrow> ModelProviderId \<Rightarrow> ModelHttpResponseHead \<Rightarrow> bytes \<Rightarrow> string option \<Rightarrow> ModelGatewayError" where
  "provider_http_error env p head body secret =
     (let nested = nested_error (from_slice env body);
          status = mhr_status head;
          remote_message = Option.bind (Option.bind nested (\<lambda>m. map_of m ''message'')) json_as_str;
          remote_code = map_option (bounded_redacted secret 200)
            (Option.bind (Option.bind nested (\<lambda>m. or_else (map_of m ''code'') (map_of m ''type''))) json_as_str);
          default_message = provider_label p @ '' request failed with HTTP '' @ show_nat status
      in \<lparr>mge_code = provider_error_code (to_ascii_lowercase (unwrap_or [] remote_code)) status,
          mge_message = bounded_redacted secret 1000 (unwrap_or default_message remote_message),
          mge_provider_id = Some p, mge_status = Some status, mge_remote_code = remote_code,
          mge_remote_request_id = map_option (bounded_redacted secret 512)
            (or_else (response_header head ''x-request-id'')
               (or_else (response_header head ''request-id'')
                  (response_header head ''x-dashscope-request-id''))),
          mge_retry_after_ms = Option.bind (response_header head ''retry-after'') (retry_after env),
          mge_retriable = (status = 408 \<or> status = 429 \<or> status \<ge> 500)\<rparr>)"

section \<open>The end of the response\<close>

text \<open>
  The summary of a finished stream. \<open>expect\<close> panics when an id is missing: the outer \<open>None\<close>.
\<close>

definition stream_summary :: "Sink \<Rightarrow> ModelExecutionSummary option" where
  "stream_summary s =
     Option.bind (sk_response_id s) (\<lambda>response_id. map_option (\<lambda>model.
       \<lparr>mes_schema_version = REQUEST_SCHEMA_VERSION, mes_request_id = sk_request_id s,
        mes_response_id = response_id, mes_provider_id = sk_provider_id s, mes_model = model,
        mes_content = sk_content s, mes_reasoning_content = sk_reasoning s,
        mes_finish_reason = sk_finish_reason s, mes_usage = sk_usage s\<rparr>) (sk_model s))"

definition finish_response :: "GatewayEnv \<Rightarrow> receiver \<Rightarrow> ModelExecutionSummary option sink_op" where
  "finish_response env receive s =
     (case sk_head s of
        None \<Rightarrow> (Inl (protocol_error (sk_provider_id s)
                   ''provider transport ended before response headers''), s)
      | Some head \<Rightarrow>
          if \<not> success_status (mhr_status head)
          then (Inl (provider_http_error env (sk_provider_id s) head (sk_error_body s) (sk_secret s)), s)
          else sbind (slift (finish_decoder (sk_decoder s))) (\<lambda>(events, d).
               sbind (smodify (\<lambda>s. s\<lparr>sk_decoder := d\<rparr>)) (\<lambda>_.
               sbind (each (process_sse_event env receive) events) (\<lambda>_ s.
               sbind (slift (require (sk_started s) (protocol_error (sk_provider_id s)
                        ''stream ended before an output chunk was received''))) (\<lambda>_.
               sbind (emit receive (FinishEvent (sk_finish_reason s))) (\<lambda>_.
               (\<lambda>s. (Inr (stream_summary s), s)))) s))) s)"

text \<open>A whole response: its head and its chunks.\<close>

definition run_response ::
  "GatewayEnv \<Rightarrow> receiver \<Rightarrow> ModelHttpResponseHead \<Rightarrow> bytes list \<Rightarrow> ModelExecutionSummary option sink_op" where
  "run_response env receive head chunks =
     sbind (begin_response head) (\<lambda>_.
     sbind (each (response_chunk env receive) chunks) (\<lambda>_.
     finish_response env receive))"

section \<open>The protocol of the events\<close>

text \<open>
  What a receiver relies on: usage may come at any time, the start comes once and before
  every piece of output, and nothing follows the finish.
\<close>

datatype Phase = Waiting | Streaming | Closed

fun next_phase :: "Phase \<Rightarrow> ModelStreamEvent \<Rightarrow> Phase option" where
  "next_phase Waiting (UsageEvent _) = Some Waiting"
| "next_phase Waiting (StartEvent _ _ _ _) = Some Streaming"
| "next_phase Streaming (TextDelta _) = Some Streaming"
| "next_phase Streaming (ReasoningDelta _) = Some Streaming"
| "next_phase Streaming (ToolCallDelta _ _ _ _) = Some Streaming"
| "next_phase Streaming (UsageEvent _) = Some Streaming"
| "next_phase Streaming (FinishEvent _) = Some Closed"
| "next_phase _ _ = None"

fun phase_after :: "Phase \<Rightarrow> ModelStreamEvent list \<Rightarrow> Phase option" where
  "phase_after ph [] = Some ph"
| "phase_after ph (e # es) = Option.bind (next_phase ph e) (\<lambda>ph. phase_after ph es)"

fun event_text :: "ModelStreamEvent \<Rightarrow> string" where
  "event_text (TextDelta t) = t"
| "event_text _ = []"

fun event_reasoning :: "ModelStreamEvent \<Rightarrow> string" where
  "event_reasoning (ReasoningDelta t) = t"
| "event_reasoning _ = []"

fun event_usage :: "ModelUsage option \<Rightarrow> ModelStreamEvent \<Rightarrow> ModelUsage option" where
  "event_usage u (UsageEvent v) = Some v"
| "event_usage u _ = u"

definition text_of :: "ModelStreamEvent list \<Rightarrow> string" where
  "text_of es = concat (map event_text es)"

definition reasoning_of :: "ModelStreamEvent list \<Rightarrow> string" where
  "reasoning_of es = concat (map event_reasoning es)"

definition usage_of :: "ModelStreamEvent list \<Rightarrow> ModelUsage option" where
  "usage_of es = foldl event_usage None es"

lemma phase_after_snoc: "phase_after ph (es @ [e]) = Option.bind (phase_after ph es) (\<lambda>ph. next_phase ph e)"
  by (induction es arbitrary: ph) (auto split: bind_splits)

lemma of_snoc [simp]:
  "text_of (es @ [e]) = text_of es @ event_text e"
  "reasoning_of (es @ [e]) = reasoning_of es @ event_reasoning e"
  "usage_of (es @ [e]) = event_usage (usage_of es) e"
  by (simp_all add: text_of_def reasoning_of_def usage_of_def)

text \<open>The sink agrees with the events it has handed on.\<close>

definition stream_ok :: "Sink \<Rightarrow> bool" where
  "stream_ok s \<longleftrightarrow>
     phase_after Waiting (sk_events s) = Some (if sk_started s then Streaming else Waiting)
     \<and> text_of (sk_events s) = sk_content s \<and> reasoning_of (sk_events s) = sk_reasoning s
     \<and> usage_of (sk_events s) = sk_usage s
     \<and> (sk_started s \<longrightarrow> (\<exists>i m. sk_response_id s = Some i \<and> sk_model s = Some m
          \<and> StartEvent (sk_request_id s) i (sk_provider_id s) m \<in> set (sk_events s)))"

text \<open>
  \<open>holds P m Q\<close>: from a sink with \<open>P\<close>, the operation leaves a sink that agrees with its
  events whatever its result, and one with \<open>Q\<close> when it succeeds.
\<close>

definition holds :: "(Sink \<Rightarrow> bool) \<Rightarrow> 'a sink_op \<Rightarrow> ('a \<Rightarrow> Sink \<Rightarrow> bool) \<Rightarrow> bool" where
  "holds P m Q \<longleftrightarrow> (\<forall>s. P s \<longrightarrow> stream_ok (snd (m s)) \<and> (\<forall>x. fst (m s) = Inr x \<longrightarrow> Q x (snd (m s))))"

named_theorems sink_rules \<open>rules for the operations of the sink\<close>

lemma holds_sbind [sink_rules]:
  assumes "holds P m Q" and "\<And>x. holds (Q x) (f x) R"
  shows "holds P (sbind m f) R"
  unfolding holds_def
proof (intro allI impI)
  fix s assume "P s"
  with assms(1) have m: "stream_ok (snd (m s))" "\<And>x. fst (m s) = Inr x \<Longrightarrow> Q x (snd (m s))"
    by (auto simp: holds_def)
  show "stream_ok (snd (sbind m f s)) \<and> (\<forall>x. fst (sbind m f s) = Inr x \<longrightarrow> R x (snd (sbind m f s)))"
  proof (cases "m s")
    case (Pair r s')
    then show ?thesis
      using m assms(2) by (cases r) (auto simp: sbind_def holds_def)
  qed
qed

lemma holds_slift [sink_rules]: "(\<And>s. P s \<Longrightarrow> stream_ok s) \<Longrightarrow> holds P (slift r) (\<lambda>_. P)"
  by (simp add: holds_def slift_def)

lemma holds_smodify: "(\<And>s. P s \<Longrightarrow> stream_ok (f s) \<and> Q (f s)) \<Longrightarrow> holds P (smodify f) (\<lambda>_. Q)"
  by (simp add: holds_def smodify_def)

lemma holds_each:
  assumes "\<And>x. x \<in> set xs \<Longrightarrow> holds P (f x) (\<lambda>_. P)" and "\<And>s. P s \<Longrightarrow> stream_ok s"
  shows "holds P (each f xs) (\<lambda>_. P)"
  using assms(1)
proof (induction xs)
  case Nil
  then show ?case using holds_slift [of P] assms(2) by simp
next
  case (Cons x xs)
  then show ?case using holds_sbind [of P "f x" "\<lambda>_. P"] by simp
qed

lemma holds_weaken: "holds P m Q \<Longrightarrow> (\<And>s. P' s \<Longrightarrow> P s) \<Longrightarrow> (\<And>x s. Q x s \<Longrightarrow> Q' x s) \<Longrightarrow> holds P' m Q'"
  by (auto simp: holds_def)

section \<open>The sink keeps the protocol\<close>

text \<open>A piece extends the text by what is emitted for it.\<close>

lemma normalize_piece_extends: "normalize_piece mode previous current = (delta, now) \<Longrightarrow> now = previous @ delta"
  by (auto simp: normalize_piece_def starts_with_iff split: if_splits)

lemma normalize_piece_empty: "normalize_piece mode previous [] = (delta, now) \<Longrightarrow> delta = []"
  by (auto simp: normalize_piece_def split: if_splits)

definition output_event :: "ModelStreamEvent \<Rightarrow> bool" where
  "output_event e \<longleftrightarrow> next_phase Streaming e = Some Streaming"

lemma stream_ok_event:
  assumes "stream_ok s" and "output_event e" and "sk_started s \<or> next_phase Waiting e = Some Waiting"
  shows "stream_ok (s\<lparr>sk_events := sk_events s @ [e], sk_content := sk_content s @ event_text e,
    sk_reasoning := sk_reasoning s @ event_reasoning e, sk_usage := event_usage (sk_usage s) e\<rparr>)"
  using assms by (auto simp: stream_ok_def phase_after_snoc output_event_def)

definition ready :: "ChunkParts \<Rightarrow> Sink \<Rightarrow> bool" where
  "ready parts s \<longleftrightarrow> stream_ok s \<and> (has_output parts \<longrightarrow> sk_started s)"

lemma ready_ok: "ready parts s \<Longrightarrow> stream_ok s"
  by (simp add: ready_def)

lemma stream_ok_remember: "stream_ok s \<Longrightarrow> stream_ok (remember_ids i m s)"
  by (auto simp: stream_ok_def remember_ids_def or_else_def)

lemma start_stream_ready: "holds stream_ok (start_stream receive parts) (\<lambda>_. ready parts)"
  by (auto simp: holds_def ready_def start_stream_def sbind_def slift_def smodify_def emit_def Let_def
      ok_or_def stream_ok_def phase_after_snoc split: option.splits)

lemma emit_reasoning_ready: "holds (ready parts) (emit_reasoning receive parts) (\<lambda>_. ready parts)"
  unfolding holds_def
proof (intro allI impI)
  fix s assume ready: "ready parts s"
  let ?piece = "case pt_reasoning_details parts of
          Some details \<Rightarrow> Some (normalize_piece Cumulative (sk_reasoning s) details)
        | None \<Rightarrow> map_option (normalize_piece (stream_mode (sk_provider_id s)) (sk_reasoning s)) (pt_reasoning parts)"
  have piece: "now = sk_reasoning s @ delta \<and> (delta \<noteq> [] \<longrightarrow> has_output parts)"
    if "?piece = Some (delta, now)" for delta now
    using that
    by (auto simp: has_output_def nonempty_def split: option.splits
        dest: normalize_piece_extends normalize_piece_empty intro!: normalize_piece_extends)
  show "stream_ok (snd (emit_reasoning receive parts s)) \<and>
      (\<forall>x. fst (emit_reasoning receive parts s) = Inr x \<longrightarrow> ready parts (snd (emit_reasoning receive parts s)))"
  proof (cases ?piece)
    case None
    with ready show ?thesis by (simp add: emit_reasoning_def ready_def)
  next
    case (Some dn)
    obtain delta now where dn: "dn = (delta, now)" by (cases dn)
    with piece Some have "now = sk_reasoning s @ delta" "delta \<noteq> [] \<longrightarrow> sk_started s"
      using ready by (auto simp: ready_def)
    with ready Some dn show ?thesis
      by (auto simp: emit_reasoning_def emit_def Let_def ready_def stream_ok_def phase_after_snoc)
  qed
qed

lemma emit_content_ready: "holds (ready parts) (emit_content receive parts) (\<lambda>_. ready parts)"
  unfolding holds_def
proof (intro allI impI)
  fix s assume ready: "ready parts s"
  show "stream_ok (snd (emit_content receive parts s)) \<and>
      (\<forall>x. fst (emit_content receive parts s) = Inr x \<longrightarrow> ready parts (snd (emit_content receive parts s)))"
  proof (cases "pt_content parts")
    case None
    with ready show ?thesis by (simp add: emit_content_def ready_def)
  next
    case (Some content)
    obtain delta now where dn: "normalize_piece (stream_mode (sk_provider_id s)) (sk_content s) content = (delta, now)"
      by force
    then have "now = sk_content s @ delta" by (rule normalize_piece_extends)
    moreover have "delta \<noteq> [] \<longrightarrow> sk_started s"
      using ready Some dn normalize_piece_empty by (auto simp: ready_def has_output_def nonempty_def)
    ultimately show ?thesis using ready Some dn
      by (auto simp: emit_content_def emit_def Let_def ready_def stream_ok_def phase_after_snoc)
  qed
qed

lemma parse_tool_calls_events:
  assumes "parse_tool_call_deltas p v = Inr calls" and "e \<in> set calls"
  shows "\<exists>i a b c. e = ToolCallDelta i a b c"
proof -
  have one: "\<exists>i a b c. e = ToolCallDelta i a b c" if "parse_tool_call_delta p x = Inr e" for x e
    using that by (cases x) (auto simp: parse_tool_call_delta_def Let_def result_simps)
  have "calls = [] \<or> (\<exists>vs. mapM (parse_tool_call_delta p) (enumerate 0 vs) = Inr calls)"
    using assms(1) by (auto simp: parse_tool_call_deltas_def split: option.splits json.splits)
  then obtain vs where "list_all2 (\<lambda>x y. parse_tool_call_delta p x = Inr y) vs calls"
    using assms(2) by (auto simp: mapM_Inr_iff)
  moreover obtain i where "i < length calls" "e = calls ! i"
    using assms(2) by (auto simp: in_set_conv_nth)
  ultimately have "parse_tool_call_delta p (vs ! i) = Inr e" by (simp add: list_all2_conv_all_nth)
  then show ?thesis by (rule one)
qed

lemma emit_calls_ready:
  assumes "\<And>e. e \<in> set (pt_tool_calls parts) \<Longrightarrow> \<exists>i a b c. e = ToolCallDelta i a b c"
  shows "holds (ready parts) (each (emit receive) (pt_tool_calls parts)) (\<lambda>_. ready parts)"
proof (rule holds_each)
  fix e assume e: "e \<in> set (pt_tool_calls parts)"
  then have "has_output parts" by (auto simp: has_output_def)
  with assms [OF e] show "holds (ready parts) (emit receive e) (\<lambda>_. ready parts)"
    by (auto simp: holds_def emit_def ready_def stream_ok_def phase_after_snoc)
qed (rule ready_ok)

lemma emit_usage_ready: "holds (ready parts) (emit_usage receive v) (\<lambda>_. ready parts)"
  unfolding holds_def
proof (intro allI impI)
  fix s assume "ready parts s"
  then show "stream_ok (snd (emit_usage receive v s)) \<and>
      (\<forall>x. fst (emit_usage receive v s) = Inr x \<longrightarrow> ready parts (snd (emit_usage receive v s)))"
    by (cases "parse_usage (sk_provider_id s) v")
      (auto simp: emit_usage_def sbind_def slift_def smodify_def emit_def ready_def stream_ok_def
        phase_after_snoc split: option.splits)
qed
lemma parse_choices_calls:
  assumes "parse_choices p v = Inr parts" and "e \<in> set (pt_tool_calls parts)"
  shows "\<exists>i a b c. e = ToolCallDelta i a b c"
proof -
  have "\<exists>d. parse_tool_call_deltas p d = Inr (pt_tool_calls parts)" if "parse_choice p x = Inr parts" for x
    using that by (auto simp: parse_choice_def result_simps)
  then have "pt_tool_calls parts = [] \<or> (\<exists>d. parse_tool_call_deltas p d = Inr (pt_tool_calls parts))"
    using assms(1) by (auto simp: parse_choices_def no_parts_def split: option.splits json.splits list.splits)
  then show ?thesis using assms(2) parse_tool_calls_events by auto
qed

lemma keep_finish_ready: "ready parts s \<Longrightarrow> ready parts (keep_finish parts s)"
  by (auto simp: ready_def keep_finish_def stream_ok_def split: option.splits)

lemma process_sse_event_ok: "holds stream_ok (process_sse_event env receive event) (\<lambda>_. stream_ok)"
proof -
  have emitted: "holds (ready parts)
      (sbind (emit_reasoning receive parts) (\<lambda>_.
       sbind (emit_content receive parts) (\<lambda>_.
       sbind (each (emit receive) (pt_tool_calls parts)) (\<lambda>_.
       sbind (emit_usage receive u) (\<lambda>_.
       sbind (smodify (keep_finish parts)) (\<lambda>_. check_output_size)))))) (\<lambda>_. stream_ok)"
    if "\<And>e. e \<in> set (pt_tool_calls parts) \<Longrightarrow> \<exists>i a b c. e = ToolCallDelta i a b c" for parts u
    by (rule holds_sbind [OF emit_reasoning_ready], rule holds_sbind [OF emit_content_ready],
        rule holds_sbind [OF emit_calls_ready [OF that]], assumption, rule holds_sbind [OF emit_usage_ready],
        rule holds_sbind [OF holds_smodify [where Q = "ready parts"]])
      (auto simp: keep_finish_ready ready_ok ready_ok [OF keep_finish_ready] holds_def check_output_size_def)
  have choices: "holds stream_ok (sbind (slift (parse_choices p v)) f) (\<lambda>_. stream_ok)"
    if "\<And>parts. parse_choices p v = Inr parts \<Longrightarrow> holds stream_ok (f parts) (\<lambda>_. stream_ok)" for p v f
    using that by (cases "parse_choices p v") (auto simp: holds_def sbind_def slift_def)
  have "holds stream_ok (process_chunk env receive p event) (\<lambda>_. stream_ok)" for p
    unfolding process_chunk_def
    by (rule holds_sbind [OF holds_slift], assumption)+
      (rule holds_sbind [OF holds_smodify [where Q = stream_ok]], simp add: stream_ok_remember, rule choices,
        rule holds_sbind [OF start_stream_ready], rule emitted, rule parse_choices_calls)
  then show ?thesis by (simp add: holds_def process_sse_event_def)
qed

text \<open>No operation changes the request and the provider the sink was made for.\<close>

definition keeps_request :: "'a sink_op \<Rightarrow> bool" where
  "keeps_request m \<longleftrightarrow> (\<forall>s. sk_request_id (snd (m s)) = sk_request_id s \<and> sk_provider_id (snd (m s)) = sk_provider_id s)"

lemma keeps_sbind: "keeps_request m \<Longrightarrow> (\<And>x. keeps_request (f x)) \<Longrightarrow> keeps_request (sbind m f)"
  by (auto simp: keeps_request_def sbind_def split: prod.splits sum.splits)
    (metis fst_conv snd_conv)+

lemma keeps_slift: "keeps_request (slift r)"
  by (simp add: keeps_request_def slift_def)

lemma keeps_smodify:
  "(\<And>s. sk_request_id (f s) = sk_request_id s \<and> sk_provider_id (f s) = sk_provider_id s) \<Longrightarrow> keeps_request (smodify f)"
  by (simp add: keeps_request_def smodify_def)

lemma keeps_each: "(\<And>x. keeps_request (f x)) \<Longrightarrow> keeps_request (each f xs)"
  by (induction xs) (auto intro: keeps_slift keeps_sbind)

lemma keeps_emit: "keeps_request (emit receive e)"
  by (simp add: keeps_request_def emit_def)

lemma keeps_steps:
  "keeps_request (start_stream receive parts)"
  "keeps_request (emit_reasoning receive parts)"
  "keeps_request (emit_content receive parts)"
  "keeps_request (emit_usage receive v)"
  "keeps_request (smodify (remember_ids i m))"
  "keeps_request (smodify (keep_finish parts))"
  "keeps_request check_output_size"
  by (auto simp: keeps_request_def start_stream_def emit_reasoning_def emit_content_def emit_usage_def
      remember_ids_def keep_finish_def check_output_size_def sbind_def slift_def smodify_def emit_def Let_def
      split: option.splits sum.splits prod.splits)

lemma keeps_process: "keeps_request (process_sse_event env receive event)"
proof -
  have "keeps_request (process_chunk env receive p event)" for p
    unfolding process_chunk_def
    by (intro keeps_sbind keeps_slift keeps_steps keeps_each keeps_emit)
  then show ?thesis by (simp add: keeps_request_def process_sse_event_def)
qed

section \<open>A whole response\<close>

lemma begin_response_ok: "holds stream_ok (begin_response head) (\<lambda>_. stream_ok)"
  by (auto simp: holds_def begin_response_def stream_ok_def)

lemma process_events_ok: "holds stream_ok (each (process_sse_event env receive) events) (\<lambda>_. stream_ok)"
  by (rule holds_each) (auto intro: process_sse_event_ok)

lemma set_decoder_ok: "stream_ok (s\<lparr>sk_decoder := d\<rparr>) \<longleftrightarrow> stream_ok s"
  by (simp add: stream_ok_def)

lemma response_chunk_ok: "holds stream_ok (response_chunk env receive chunk) (\<lambda>_. stream_ok)"
  unfolding holds_def
proof (intro allI impI)
  fix s assume s: "stream_ok s"
  have "holds stream_ok (sbind (slift (feed chunk (sk_decoder s))) (\<lambda>(events, d).
               sbind (smodify (\<lambda>s. s\<lparr>sk_decoder := d\<rparr>)) (\<lambda>_.
               each (process_sse_event env receive) events))) (\<lambda>_. stream_ok)"
    unfolding split_beta
    by (rule holds_sbind [OF holds_slift], assumption,
        rule holds_sbind [OF holds_smodify [where Q = stream_ok]], simp add: set_decoder_ok, rule process_events_ok)
  with s show "stream_ok (snd (response_chunk env receive chunk s)) \<and>
      (\<forall>x. fst (response_chunk env receive chunk s) = Inr x \<longrightarrow> stream_ok (snd (response_chunk env receive chunk s)))"
    by (auto simp: response_chunk_def holds_def stream_ok_def split: option.splits)
qed

text \<open>What the sink looks like when the finish has been handed on.\<close>

definition stream_finished :: "ModelExecutionSummary option \<Rightarrow> Sink \<Rightarrow> bool" where
  "stream_finished y s \<longleftrightarrow>
     phase_after Waiting (sk_events s) = Some Closed
     \<and> (\<exists>x. y = Some x \<and> mes_request_id x = sk_request_id s \<and> mes_provider_id x = sk_provider_id s
          \<and> StartEvent (sk_request_id s) (mes_response_id x) (sk_provider_id s) (mes_model x) \<in> set (sk_events s)
          \<and> mes_content x = text_of (sk_events s) \<and> mes_reasoning_content x = reasoning_of (sk_events s)
          \<and> mes_usage x = usage_of (sk_events s)
          \<and> last (sk_events s) = FinishEvent (mes_finish_reason x))"

lemma finish_stream:
  assumes "stream_ok s" and "sk_started s"
  shows "stream_finished (stream_summary (s\<lparr>sk_events := sk_events s @ [FinishEvent (sk_finish_reason s)]\<rparr>))
    (s\<lparr>sk_events := sk_events s @ [FinishEvent (sk_finish_reason s)]\<rparr>)"
  using assms by (auto simp: stream_finished_def stream_summary_def stream_ok_def phase_after_snoc)

lemma finish_response_ok:
  assumes "stream_ok s" and "finish_response env receive s = (r, s')"
  shows "(\<exists>ph. phase_after Waiting (sk_events s') = Some ph) \<and> (\<forall>y. r = Inr y \<longrightarrow> stream_finished y s')"
proof (cases "\<exists>head. sk_head s = Some head \<and> success_status (mhr_status head)")
  case False
  then show ?thesis using assms by (auto simp: finish_response_def stream_ok_def split: option.splits if_splits)
next
  case True
  show ?thesis
  proof (cases "finish_decoder (sk_decoder s)")
    case (Inl e)
    with True assms show ?thesis by (auto simp: finish_response_def sbind_def slift_def stream_ok_def)
  next
    case (Inr ed)
    obtain events d where ed: "ed = (events, d)" by (cases ed)
    let ?m = "each (process_sse_event env receive) events (s\<lparr>sk_decoder := d\<rparr>)"
    obtain rm sm where m: "?m = (rm, sm)" by (cases ?m)
    have sm: "stream_ok sm" using process_events_ok [of env receive events] assms(1) m
      by (metis holds_def set_decoder_ok snd_conv)
    show ?thesis
    proof (cases rm)
      case (Inl e)
      with True Inr ed m assms(2) sm show ?thesis
        by (auto simp: finish_response_def sbind_def slift_def smodify_def stream_ok_def)
    next
      case (Inr u)
      note fin = finish_stream [OF sm]
      show ?thesis
      proof (cases "sk_started sm")
        case False
        with True \<open>finish_decoder _ = _\<close> ed m Inr assms(2) sm show ?thesis
          by (auto simp: finish_response_def sbind_def slift_def smodify_def stream_ok_def)
      next
        case started: True
        with True \<open>finish_decoder _ = _\<close> ed m Inr assms(2) fin show ?thesis
          by (auto simp: finish_response_def sbind_def slift_def smodify_def emit_def stream_finished_def
              split: option.splits)
      qed
    qed
  qed
qed

lemma keeps_begin: "keeps_request (begin_response head)"
  by (auto simp: keeps_request_def begin_response_def)

lemma keeps_chunk: "keeps_request (response_chunk env receive chunk)"
proof -
  have "keeps_request (sbind (slift (feed chunk d)) (\<lambda>(events, d). sbind (smodify (\<lambda>s. s\<lparr>sk_decoder := d\<rparr>))
      (\<lambda>_. each (process_sse_event env receive) events)))" for d
    unfolding split_beta by (intro keeps_sbind keeps_slift keeps_smodify keeps_each keeps_process) simp_all
  then show ?thesis by (auto simp: keeps_request_def response_chunk_def split: option.splits)
qed

lemma keeps_finish: "keeps_request (finish_response env receive)"
proof -
  have close: "keeps_request (\<lambda>s. sbind (slift (require (sk_started s) e)) (\<lambda>_.
      sbind (emit receive (FinishEvent (sk_finish_reason s))) (\<lambda>_ s. (Inr (stream_summary s), s))) s)" for e
    by (auto simp: keeps_request_def sbind_def slift_def emit_def split: sum.splits option.splits)
  have "keeps_request (sbind (slift (finish_decoder d)) (\<lambda>(events, d). sbind (smodify (\<lambda>s. s\<lparr>sk_decoder := d\<rparr>)) (\<lambda>_.
      sbind (each (process_sse_event env receive) events) (\<lambda>_ s. sbind (slift (require (sk_started s)
        (protocol_error (sk_provider_id s) ''stream ended before an output chunk was received''))) (\<lambda>_.
      sbind (emit receive (FinishEvent (sk_finish_reason s))) (\<lambda>_ s. (Inr (stream_summary s), s))) s))))" for d
    unfolding split_beta
    by (intro keeps_sbind keeps_slift keeps_smodify keeps_each keeps_process)
      (auto simp: keeps_request_def sbind_def slift_def emit_def split: sum.splits option.splits)
  then show ?thesis by (auto simp: keeps_request_def finish_response_def split: option.splits)
qed

section \<open>Properties\<close>

text \<open>
  C33. Whatever a provider answers, in whatever chunks, and whenever the receiver fails: the
  events follow the protocol of the stream. A response that succeeds has handed on one start
  before all output and a finish after it, its summary holds the ids of that start, exactly
  the text and the reasoning of the pieces that were handed on, the last usage and the
  reason of the finish; the two calls of \<open>expect\<close> do not panic.
\<close>

theorem stream_events_follow_protocol:
  assumes "run_response env receive head chunks (new_sink request_id provider_id secret) = (r, s)"
  shows "(\<exists>ph. phase_after Waiting (sk_events s) = Some ph)
    \<and> sk_request_id s = request_id \<and> sk_provider_id s = provider_id
    \<and> (\<forall>y. r = Inr y \<longrightarrow> stream_finished y s)"
proof -
  let ?s = "new_sink request_id provider_id secret"
  have new: "stream_ok ?s"
    by (simp add: stream_ok_def new_sink_def text_of_def reasoning_of_def usage_of_def)
  have "holds stream_ok (sbind (begin_response head) (\<lambda>_. each (response_chunk env receive) chunks)) (\<lambda>_. stream_ok)"
    by (rule holds_sbind [OF begin_response_ok], rule holds_each [OF response_chunk_ok])
  moreover obtain r1 s1 where body: "sbind (begin_response head) (\<lambda>_. each (response_chunk env receive) chunks) ?s = (r1, s1)"
    by force
  ultimately have s1: "stream_ok s1" using new by (metis holds_def snd_conv)
  have run: "run_response env receive head chunks ?s
      = (case r1 of Inl e \<Rightarrow> (Inl e, s1) | Inr _ \<Rightarrow> finish_response env receive s1)"
    using body by (auto simp: run_response_def sbind_def split: prod.splits sum.splits)
  have "(\<exists>ph. phase_after Waiting (sk_events s) = Some ph) \<and> (\<forall>y. r = Inr y \<longrightarrow> stream_finished y s)"
  proof (cases r1)
    case (Inl e)
    with run assms s1 show ?thesis by (auto simp: stream_ok_def)
  next
    case (Inr u)
    with run assms have "finish_response env receive s1 = (r, s)" by simp
    with s1 show ?thesis by (rule finish_response_ok)
  qed
  moreover have "keeps_request (run_response env receive head chunks)"
    unfolding run_response_def by (intro keeps_sbind keeps_begin keeps_each keeps_chunk keeps_finish)
  then have "sk_request_id s = request_id \<and> sk_provider_id s = provider_id"
    using assms by (auto simp: keeps_request_def new_sink_def) (metis Sink.select_convs(1,2) snd_conv)+
  ultimately show ?thesis by blast
qed

text \<open>A provider that sends its output cumulatively, and usage before it.\<close>

definition sample_gateway :: GatewayEnv where
  "sample_gateway =
     \<lparr>from_slice = (\<lambda>b.
        if b = ''u'' then Some (JObject [(''usage'', JObject [(''prompt_tokens'', JNumber ''3'')])])
        else if b = ''1'' then Some (JObject [(''id'', JString ''r''), (''model'', JString ''m''),
          (''choices'', JArray [JObject [(''delta'', JObject [(''content'', JString ''ab'')])]])])
        else if b = ''2'' then Some (JObject [(''choices'', JArray [JObject
          [(''delta'', JObject [(''content'', JString ''abc'')]), (''finish_reason'', JString ''stop'')]])])
        else None),
      to_vec = (\<lambda>_. Some ''{}''), f64_value = (\<lambda>_. JNull), rfc3339 = (\<lambda>_. True), rfc3339_format = (\<lambda>_. Inr ''t''),
      retry_after = (\<lambda>_. None)\<rparr>"

definition event_stream_head :: ModelHttpResponseHead where
  "event_stream_head = \<lparr>mhr_status = 200, mhr_headers = [(''content-type'', ''text/event-stream'')]\<rparr>"

definition sample_response :: "bytes list" where
  "sample_response = [concat (map encode_event [[''u''], [''1'']]), encode_event [''2''] @ ''data: [DO'',
     ''NE]'' @ [newline, newline]]"

definition sample_run :: "(ModelGatewayError + ModelExecutionSummary option) \<times> Sink" where
  "sample_run = run_response sample_gateway (\<lambda>_ _. None) event_stream_head sample_response (new_sink ''q'' Minimax None)"

theorem stream_events_follow_protocol_witness:
  "(\<exists>y. fst sample_run = Inr y \<and> stream_finished y (snd sample_run))
   \<and> sk_events (snd sample_run) = [UsageEvent \<lparr>usg_input_tokens = 3, usg_output_tokens = 0, usg_total_tokens = 3,
          usg_cached_input_tokens = None, usg_reasoning_tokens = None\<rparr>,
        StartEvent ''q'' ''r'' Minimax ''m'', TextDelta ''ab'', TextDelta ''c'', FinishEvent Stop]"
proof -
  have events: "sk_events (snd sample_run) = [UsageEvent \<lparr>usg_input_tokens = 3, usg_output_tokens = 0,
          usg_total_tokens = 3, usg_cached_input_tokens = None, usg_reasoning_tokens = None\<rparr>,
        StartEvent ''q'' ''r'' Minimax ''m'', TextDelta ''ab'', TextDelta ''c'', FinishEvent Stop]"
    by code_simp
  have "projl (fst sample_run) = projl (fst sample_run) \<and> isl (fst sample_run) = False" by code_simp
  then obtain y where y: "fst sample_run = Inr y" by (cases "fst sample_run") auto
  have "run_response sample_gateway (\<lambda>_ _. None) event_stream_head sample_response (new_sink ''q'' Minimax None)
      = (Inr y, snd sample_run)"
    using y by (simp add: sample_run_def prod_eq_iff)
  from stream_events_follow_protocol [OF this] y events show ?thesis by simp
qed

text \<open>
  C34. The credential of a request does not reach an error message. When the secret avoids the
  brackets of the redaction mark and is no part of its word, neither the message, nor the
  code, nor the request id of an error that the provider answers with contains it, however
  often the provider echoes it, and also after the text was cut to its bound.
\<close>

theorem provider_error_hides_secret:
  assumes "secret \<noteq> []" and "CHR ''['' \<notin> set secret" and "CHR '']'' \<notin> set secret"
    and "\<not> contains ''REDACTED'' secret"
    and "provider_http_error env p head body (Some secret) = e"
  shows "\<not> contains (mge_message e) secret
    \<and> (\<forall>c. mge_remote_code e = Some c \<longrightarrow> \<not> contains c secret)
    \<and> (\<forall>i. mge_remote_request_id e = Some i \<longrightarrow> \<not> contains i secret)"
proof -
  have "\<not> contains (replace_all v secret (CHR ''['' # ''REDACTED'' @ [CHR '']''])) secret" for v
    by (rule replace_all_hides [OF assms(1-4)])
  then have hidden: "\<not> contains (bounded_redacted (Some secret) n v) secret" for n v
    using contains_take_chars assms(1) by (auto simp: bounded_redacted_def redaction_mark_def)
  show ?thesis
    using assms(5) hidden by (auto simp: provider_http_error_def Let_def)
qed

text \<open>A provider that echoes the key it was sent.\<close>

definition echo_gateway :: GatewayEnv where
  "echo_gateway = sample_gateway\<lparr>from_slice := \<lambda>_. Some (JObject [(''error'', JObject
     [(''message'', JString ''bad key sk-1 and sk-1''), (''code'', JString ''sk-1'')])])\<rparr>"

definition unauthorized_head :: ModelHttpResponseHead where
  "unauthorized_head = \<lparr>mhr_status = 401, mhr_headers = [(''x-request-id'', ''id-sk-1'')]\<rparr>"

theorem provider_error_hides_secret_witness:
  "mge_message (provider_http_error echo_gateway Kimi unauthorized_head ''x'' (Some ''sk-1''))
     = ''bad key [REDACTED] and [REDACTED]''
   \<and> \<not> contains (mge_message (provider_http_error echo_gateway Kimi unauthorized_head ''x'' (Some ''sk-1''))) ''sk-1''"
proof -
  have "mge_message (provider_http_error echo_gateway Kimi unauthorized_head ''x'' (Some ''sk-1''))
     = ''bad key [REDACTED] and [REDACTED]''"
    by code_simp
  then show ?thesis
    using provider_error_hides_secret [of "''sk-1''" echo_gateway Kimi unauthorized_head "''x''"] by simp
qed

end
