(* ===== verification/GatewayPrepare.thy ===== *)
theory GatewayPrepare
  imports TrustedEndpoints GatewayStream
begin

text \<open>
  Preparing a model request (\<open>model_gateway_prepare.rs\<close>): the checks of the configuration and of
  the request, the endpoint of the provider, and the body in the dialect of the provider. A
  JSON object of the code is the list of its insertions, in order. \<open>SecretReference::parse\<close> is
  from \<open>secrets.rs\<close>.
\<close>

section \<open>Secret references\<close>

definition secret_error :: ModelGatewayError where
  "secret_error = gateway_error ''INVALID_SECRET_REFERENCE'' ''invalid secret:// reference''"

definition parse_secret_reference :: "string \<Rightarrow> ModelGatewayError + string" where
  "parse_secret_reference v =
     (case strip_prefix v ''secret://'' of
        None \<Rightarrow> Inl secret_error
      | Some path \<Rightarrow>
          if length v > 512 \<or> path = []
               \<or> \<not> list_all (\<lambda>c. ascii_alphanumeric c \<or> c \<in> set ''._~/-'') path
          then Inl secret_error else Inr v)"

section \<open>Checks\<close>

abbreviation invalid_request :: "ModelProviderId \<Rightarrow> string \<Rightarrow> ModelGatewayError" where
  "invalid_request p message \<equiv> provider_error p ''INVALID_MODEL_REQUEST'' message"

abbreviation configuration_error :: "ModelProviderId \<Rightarrow> string \<Rightarrow> ModelGatewayError" where
  "configuration_error p message \<equiv> provider_error p ''PROVIDER_CONFIGURATION'' message"

definition validate_request_id :: "string \<Rightarrow> ModelGatewayError + unit" where
  "validate_request_id request_id =
     require (safe_name 128 request_id)
       (gateway_error ''INVALID_MODEL_REQUEST'' (''requestId must contain 1-128 ASCII letters, digits, '_' or '' @ [CHR 0x27, CHR ''-'', CHR 0x27]))"

definition validate_authorization_id :: "string \<Rightarrow> ModelGatewayError + unit" where
  "validate_authorization_id i =
     require (safe_name 128 i) (gateway_error ''MODEL_AUTHORIZATION_INVALID'' ''model authorization ID is invalid'')"

definition default_credential_ref :: "ModelProviderId \<Rightarrow> string" where
  "default_credential_ref p = ''secret://providers/'' @ provider_as_str p @ ''/default''"

text \<open>The slot that the configuration must name.\<close>

definition expected_credential_ref :: "ModelProviderConfiguration \<Rightarrow> ModelGatewayError + string" where
  "expected_credential_ref c =
     (let p = mpc_provider_id c in
      if p = OpenAICompatible
      then rbind (ok_or (mpc_openai_compatible c)
             (configuration_error p ''openaiCompatible configuration is required for this provider'')) (\<lambda>compatible.
           rbind (require (\<not> (ocp_endpoint_revision compatible \<noteq> 1 \<or> \<not> safe_endpoint_id (ocp_endpoint_id compatible)))
             (configuration_error p ''openaiCompatible endpoint identity or revision is invalid'')) (\<lambda>_.
           Inr (endpoint_credential_ref (ocp_endpoint_id compatible))))
      else Inr (default_credential_ref p))"

definition validate_qwen :: "ModelProviderId \<Rightarrow> QwenProviderConfiguration \<Rightarrow> ModelGatewayError + unit" where
  "validate_qwen p qwen = all_ok
     [require (case qpc_workspace_id qwen of None \<Rightarrow> True | Some w \<Rightarrow> safe_name 128 w)
        (configuration_error p ''Qwen workspaceId contains unsupported characters''),
      require (\<not> (qpc_region qwen \<in> {Germany, Japan} \<and> qpc_workspace_id qwen = None))
        (configuration_error p ''Qwen Germany and Japan regions require a workspaceId'')]"

definition validate_configuration :: "GatewayEnv \<Rightarrow> ModelProviderConfiguration \<Rightarrow> ModelGatewayError + unit" where
  "validate_configuration env c =
     (let p = mpc_provider_id c in
      rbind (require (mpc_schema_version c = REQUEST_SCHEMA_VERSION)
        (provider_error p ''UNSUPPORTED_SCHEMA''
           (''Unsupported provider configuration schema version '' @ show_nat (mpc_schema_version c)))) (\<lambda>_.
      rbind (require (mpc_enabled c)
        (provider_error p ''PROVIDER_DISABLED'' (provider_label p @ '' provider is disabled''))) (\<lambda>_.
      rbind (all_ok (map (\<lambda>(name, v). require (\<not> blank v) (configuration_error p (name @ '' must not be empty'')))
               [(''configuration.id'', mpc_id c), (''configuration.defaultModel'', mpc_default_model c),
                (''configuration.updatedAt'', mpc_updated_at c)])) (\<lambda>_.
      rbind (require (rfc3339 env (mpc_updated_at c))
        (configuration_error p ''configuration.updatedAt must be an RFC 3339 timestamp'')) (\<lambda>_.
      rbind (parse_secret_reference (mpc_credential_ref c)) (\<lambda>credential_ref.
      rbind (expected_credential_ref c) (\<lambda>expected.
      rbind (require (credential_ref = expected)
        (configuration_error p ''credentialRef must match the Host-bound provider credential slot'')) (\<lambda>_.
      rbind (require (1 \<le> mpc_default_timeout_ms c \<and> mpc_default_timeout_ms c \<le> MAX_TIMEOUT_MS)
        (configuration_error p ''defaultTimeoutMs must be between 1 and 3600000'')) (\<lambda>_.
      rbind (require (1 \<le> mpc_max_request_bytes c \<and> mpc_max_request_bytes c \<le> MAX_REQUEST_BYTES)
        (configuration_error p ''maxRequestBytes must be between 1 and 67108864'')) (\<lambda>_.
      rbind (require (\<not> (p \<noteq> Qwen \<and> mpc_qwen c \<noteq> None))
        (configuration_error p ''qwen configuration is only valid for the Qwen provider'')) (\<lambda>_.
      rbind (require (\<not> (p \<noteq> OpenAICompatible \<and> mpc_openai_compatible c \<noteq> None))
        (configuration_error p ''openaiCompatible configuration is only valid for the openai_compatible provider'')) (\<lambda>_.
      case mpc_qwen c of None \<Rightarrow> Inr () | Some qwen \<Rightarrow> validate_qwen p qwen))))))))))))"

definition valid_tool_name :: "string \<Rightarrow> bool" where
  "valid_tool_name v \<longleftrightarrow> safe_name 64 v"

definition validate_message :: "ModelProviderId \<Rightarrow> nat \<times> ModelMessage \<Rightarrow> ModelGatewayError + unit" where
  "validate_message p = (\<lambda>(index, m). let at_index = ''messages['' @ show_nat index @ '']'' in all_ok
     [require (case mm_name m of None \<Rightarrow> True | Some name \<Rightarrow> \<not> blank name)
        (invalid_request p (at_index @ ''.name must not be empty'')),
      require (\<not> (mm_role m = Tool \<and> (case mm_tool_call_id m of None \<Rightarrow> True | Some i \<Rightarrow> blank i)))
        (invalid_request p (at_index @ '' tool message requires toolCallId'')),
      require (\<not> (mm_role m \<noteq> Assistant \<and> (mm_reasoning_content m \<noteq> None \<or> mm_tool_calls m \<noteq> None)))
        (invalid_request p (at_index @ '' reasoningContent/toolCalls require assistant role''))])"

definition f64_within :: "rat \<Rightarrow> f64 \<Rightarrow> bool" where
  "f64_within hi x \<longleftrightarrow> (case x of Finite r \<Rightarrow> 0 \<le> r \<and> r \<le> hi | _ \<Rightarrow> False)"

definition uses_undeclared_capability :: "ModelRequest \<Rightarrow> bool" where
  "uses_undeclared_capability r \<longleftrightarrow>
     mr_reasoning r \<noteq> None \<or> mr_tools r \<noteq> None \<or> mr_tool_choice r \<noteq> None
     \<or> list_ex (\<lambda>m. mm_role m = Tool \<or> mm_reasoning_content m \<noteq> None \<or> mm_tool_call_id m \<noteq> None
          \<or> mm_tool_calls m \<noteq> None) (mr_messages r)"

definition validate_model_request ::
  "ModelProviderId \<Rightarrow> OpenAICompatibleProviderConfiguration option \<Rightarrow> ModelRequest \<Rightarrow> ModelGatewayError + unit" where
  "validate_model_request p compatible r =
     rbind (require (mr_messages r \<noteq> []) (invalid_request p ''at least one message is required'')) (\<lambda>_.
     rbind (all_ok (map (validate_message p) (enumerate 0 (mr_messages r)))) (\<lambda>_.
     rbind (require (mr_max_output_tokens r \<noteq> Some 0) (invalid_request p ''maxOutputTokens must be positive'')) (\<lambda>_.
     rbind (require (case mr_temperature r of None \<Rightarrow> True | Some t \<Rightarrow> f64_within 2 t)
       (invalid_request p ''temperature must be between 0 and 2'')) (\<lambda>_.
     rbind (require (case mr_top_p r of None \<Rightarrow> True | Some t \<Rightarrow> f64_within 1 t)
       (invalid_request p ''topP must be between 0 and 1'')) (\<lambda>_.
     rbind (case mr_stop r of None \<Rightarrow> Inr ()
            | Some stop \<Rightarrow>
                (let maximum = (if p = Kimi then 5 else 16) :: nat
                 in require (\<not> (stop_values stop = [] \<or> length (stop_values stop) > maximum
                                 \<or> list_ex (\<lambda>v. v = []) (stop_values stop)))
                      (invalid_request p (''stop must contain 1-'' @ show_nat maximum @ '' non-empty strings'')))) (\<lambda>_.
     rbind (require (\<not> (p = Minimax \<and> mr_response_format r = Some JsonObject))
       (invalid_request p ''MiniMax has no verified json_object capability'')) (\<lambda>_.
     rbind (require (\<not> (p = OpenAICompatible \<and> mr_response_format r = Some JsonObject
                         \<and> (case compatible of None \<Rightarrow> True | Some c \<Rightarrow> \<not> ocp_json_object c)))
       (invalid_request p ''the trusted endpoint has no declared json_object capability'')) (\<lambda>_.
     rbind (require (\<not> (p = OpenAICompatible \<and> uses_undeclared_capability r))
       (invalid_request p ''the trusted endpoint has no declared reasoning or tool-call capability'')) (\<lambda>_.
     case mr_tools r of
       Some tools \<Rightarrow>
         rbind (require (\<not> (tools = [] \<or> length tools > 128))
           (invalid_request p ''tools must contain 1-128 definitions'')) (\<lambda>_.
         all_ok (map (\<lambda>t. require (\<not> (mtd_kind t \<noteq> ''function'' \<or> \<not> valid_tool_name (mtdf_name (mtd_function t))))
           (invalid_request p ''tool definitions require type=function and a safe 1-64 character name'')) tools))
     | None \<Rightarrow> require (mr_tool_choice r \<in> {None, Some NoTools})
         (invalid_request p ''toolChoice requires tools''))))))))))"

section \<open>The endpoint of the provider\<close>

record ProviderEndpoint =
  pe_host :: string
  pe_path :: string
  pe_port :: nat
  pe_use_tls :: bool
  pe_use_system_proxy :: bool

fun qwen_suffix :: "QwenDeploymentRegion \<Rightarrow> string" where
  "qwen_suffix China = ''cn-beijing.maas.aliyuncs.com''"
| "qwen_suffix Singapore = ''ap-southeast-1.maas.aliyuncs.com''"
| "qwen_suffix Germany = ''eu-central-1.maas.aliyuncs.com''"
| "qwen_suffix Japan = ''ap-northeast-1.maas.aliyuncs.com''"
| "qwen_suffix Us = []"

definition qwen_host :: "QwenProviderConfiguration option \<Rightarrow> ModelGatewayError + string" where
  "qwen_host configured =
     (let qwen = unwrap_or \<lparr>qpc_region = China, qpc_workspace_id = None\<rparr> configured in
      case (qpc_region qwen, qpc_workspace_id qwen) of
        (Us, _) \<Rightarrow> Inr ''dashscope-us.aliyuncs.com''
      | (China, None) \<Rightarrow> Inr ''dashscope.aliyuncs.com''
      | (Singapore, None) \<Rightarrow> Inr ''dashscope-intl.aliyuncs.com''
      | (region, Some workspace_id) \<Rightarrow> Inr (workspace_id @ ''.'' @ qwen_suffix region)
      | _ \<Rightarrow> Inl (configuration_error Qwen ''Qwen region requires a workspaceId''))"

definition trusted_location ::
  "ModelProviderConfiguration \<Rightarrow> TrustedModelEndpoint option \<Rightarrow> ModelGatewayError + (string \<times> string)" where
  "trusted_location c trusted_endpoint =
     rbind (ok_or trusted_endpoint
       (configuration_error OpenAICompatible ''trusted endpoint is not registered'')) (\<lambda>endpoint.
     rbind (ok_or (mpc_openai_compatible c)
       (configuration_error OpenAICompatible ''openaiCompatible configuration is required'')) (\<lambda>compatible.
     rbind (require (\<not> (tme_id endpoint \<noteq> ocp_endpoint_id compatible
         \<or> tme_revision endpoint \<noteq> ocp_endpoint_revision compatible
         \<or> tme_credential_ref endpoint \<noteq> mpc_credential_ref c
         \<or> mpc_id c \<noteq> ''provider-openai-compatible-'' @ tme_id endpoint
         \<or> tme_capabilities endpoint \<noteq> \<lparr>tmc_json_object = ocp_json_object compatible,
             tmc_stream_usage = ocp_stream_usage compatible,
             tmc_max_output_token_field = ocp_max_output_token_field compatible\<rparr>))
       (configuration_error OpenAICompatible
          ''provider configuration does not match the current trusted endpoint record'')) (\<lambda>_.
     Inr (tme_hostname endpoint, chat_completions_path endpoint))))"

definition provider_endpoint ::
  "ModelProviderConfiguration \<Rightarrow> TrustedModelEndpoint option \<Rightarrow> ModelGatewayError + ProviderEndpoint" where
  "provider_endpoint c trusted_endpoint =
     (let p = mpc_provider_id c in
      rbind (case p of
               Deepseek \<Rightarrow> Inr (''api.deepseek.com'', ''/chat/completions'')
             | Kimi \<Rightarrow> Inr (''api.moonshot.cn'', ''/v1/chat/completions'')
             | Minimax \<Rightarrow> Inr (''api.minimaxi.com'', ''/v1/chat/completions'')
             | Ollama \<Rightarrow> Inr (''127.0.0.1'', ''/v1/chat/completions'')
             | Qwen \<Rightarrow> rbind (qwen_host (mpc_qwen c))
                 (\<lambda>host. Inr (host, ''/compatible-mode/v1/chat/completions''))
             | OpenAICompatible \<Rightarrow> trusted_location c trusted_endpoint)
        (\<lambda>(host, path).
           Inr \<lparr>pe_host = host, pe_path = path, pe_port = (if p = Ollama then 11434 else 443),
                pe_use_tls = (p \<noteq> Ollama), pe_use_system_proxy = (p \<notin> {Ollama, OpenAICompatible})\<rparr>))"

section \<open>The body\<close>

definition opt_json :: "('a \<Rightarrow> json) \<Rightarrow> 'a option \<Rightarrow> json" where
  "opt_json f v = (case v of None \<Rightarrow> JNull | Some x \<Rightarrow> f x)"

definition opt_entry :: "string \<Rightarrow> ('a \<Rightarrow> json) \<Rightarrow> 'a option \<Rightarrow> (string \<times> json) list" where
  "opt_entry key f v = (case v of None \<Rightarrow> [] | Some x \<Rightarrow> [(key, f x)])"

definition tool_call_json :: "ModelToolCall \<Rightarrow> json" where
  "tool_call_json call = JObject
     [(''id'', JString (mtc_id call)), (''type'', JString (mtc_kind call)),
      (''function'', JObject [(''name'', JString (mtcf_name (mtc_function call))),
         (''arguments'', JString (mtcf_arguments (mtc_function call)))])]"

definition tool_json :: "ModelToolDefinition \<Rightarrow> json" where
  "tool_json t = JObject
     [(''type'', JString (mtd_kind t)),
      (''function'', JObject
        [(''name'', JString (mtdf_name (mtd_function t))),
         (''description'', opt_json JString (mtdf_description (mtd_function t))),
         (''parameters'', opt_json id (mtdf_parameters (mtd_function t))),
         (''strict'', opt_json JBool (mtdf_strict (mtd_function t)))])]"

fun stop_json :: "ModelStopSequences \<Rightarrow> json" where
  "stop_json (OneStop s) = JString s"
| "stop_json (ManyStops ss) = JArray (map JString ss)"

definition serialize_message :: "ModelMessage \<Rightarrow> json" where
  "serialize_message m = JObject
     ([(''role'', JString (role_as_str (mm_role m))), (''content'', JString (mm_content m))]
      @ opt_entry ''name'' JString (mm_name m)
      @ opt_entry ''reasoning_content'' JString (mm_reasoning_content m)
      @ opt_entry ''tool_call_id'' JString (mm_tool_call_id m)
      @ opt_entry ''tool_calls'' (\<lambda>calls. JArray (map tool_call_json calls)) (mm_tool_calls m))"

definition ollama_effort :: "ReasoningOptions \<Rightarrow> string option" where
  "ollama_effort r =
     (case (ro_mode r, ro_effort r) of
        (Disabled, _) \<Rightarrow> Some ''none''
      | (_, Some effort) \<Rightarrow> Some (effort_as_str effort)
      | (Enabled, None) \<Rightarrow> Some ''medium''
      | (Adaptive, None) \<Rightarrow> None)"

definition reasoning_entries :: "ModelProviderId \<Rightarrow> ReasoningOptions option \<Rightarrow> (string \<times> json) list" where
  "reasoning_entries p reasoning =
     (if p = Minimax
      then (''reasoning_split'', JBool True)
        # opt_entry ''thinking'' (\<lambda>r. JObject [(''type'',
            JString (if ro_mode r = Disabled then ''disabled'' else ''adaptive''))]) reasoning
      else case reasoning of
        None \<Rightarrow> []
      | Some r \<Rightarrow>
          (case p of
             Qwen \<Rightarrow> (if ro_mode r \<noteq> Adaptive then [(''enable_thinking'', JBool (ro_mode r = Enabled))] else [])
               @ opt_entry ''preserve_thinking'' JBool (ro_preserve r)
               @ opt_entry ''reasoning_effort'' (\<lambda>e. JString (effort_as_str e)) (ro_effort r)
           | Kimi \<Rightarrow> [(''thinking'', JObject
               ((''type'', JString (if ro_mode r = Disabled then ''disabled'' else ''enabled''))
                # (if ro_preserve r = Some True then [(''keep'', JString ''all'')] else [])))]
           | Deepseek \<Rightarrow> (if ro_mode r \<noteq> Adaptive
                 then [(''thinking'', JObject [(''type'', JString (reasoning_mode_as_str (ro_mode r)))])] else [])
               @ opt_entry ''reasoning_effort'' (\<lambda>e. JString (effort_as_str e)) (ro_effort r)
           | Ollama \<Rightarrow> opt_entry ''reasoning_effort'' JString (ollama_effort r)
           | _ \<Rightarrow> []))"

definition max_tokens_field :: "ModelProviderId \<Rightarrow> OpenAICompatibleProviderConfiguration option \<Rightarrow> string" where
  "max_tokens_field p compatible =
     (if p \<in> {Deepseek, Kimi, Ollama} then ''max_tokens''
      else if p \<in> {Qwen, Minimax} then ''max_completion_tokens''
      else unwrap_or ''max_tokens'' (map_option (\<lambda>c. token_field_as_str (ocp_max_output_token_field c)) compatible))"

definition build_request_body ::
  "GatewayEnv \<Rightarrow> ModelProviderId \<Rightarrow> OpenAICompatibleProviderConfiguration option \<Rightarrow> string \<Rightarrow> ModelRequest
     \<Rightarrow> ModelGatewayError + json" where
  "build_request_body env p compatible model r =
     rbind (require (\<not> (p = Kimi \<and> contains (to_ascii_lowercase model) ''k2.7-code''
              \<and> (case mr_reasoning r of None \<Rightarrow> False | Some opts \<Rightarrow> ro_mode opts = Disabled)))
       (invalid_request p ''kimi-k2.7-code always has thinking enabled'')) (\<lambda>_.
     Inr (JObject
       ([(''model'', JString model), (''messages'', JArray (map serialize_message (mr_messages r))),
         (''stream'', JBool True)]
        @ (if p \<noteq> OpenAICompatible \<or> (case compatible of None \<Rightarrow> False | Some c \<Rightarrow> ocp_stream_usage c)
           then [(''stream_options'', JObject [(''include_usage'', JBool True)])] else [])
        @ opt_entry (max_tokens_field p compatible) (\<lambda>n. JNumber (show_nat n)) (mr_max_output_tokens r)
        @ opt_entry ''temperature'' (f64_value env) (mr_temperature r)
        @ opt_entry ''top_p'' (f64_value env) (mr_top_p r)
        @ opt_entry ''stop'' stop_json (mr_stop r)
        @ (case mr_response_format r of None \<Rightarrow> []
           | Some format \<Rightarrow>
               if p = OpenAICompatible \<and> format = TextFormat then []
               else [(''response_format'', JObject [(''type'', JString (format_as_str format))])])
        @ opt_entry ''tools'' (\<lambda>tools. JArray (map tool_json tools)) (mr_tools r)
        @ opt_entry ''tool_choice'' (\<lambda>choice. JString (choice_as_str choice)) (mr_tool_choice r)
        @ reasoning_entries p (mr_reasoning r))))"

section \<open>The prepared request\<close>

definition prepare_request ::
  "GatewayEnv \<Rightarrow> ModelExecutionRequest \<Rightarrow> TrustedModelEndpoint option \<Rightarrow> ModelGatewayError + PreparedModelRequest" where
  "prepare_request env input trusted_endpoint =
     (let c = mer_configuration input; p = mpc_provider_id c; r = mer_request input in
      rbind (require (mer_schema_version input = REQUEST_SCHEMA_VERSION)
        (gateway_error ''UNSUPPORTED_SCHEMA''
           (''Unsupported model execution schema version '' @ show_nat (mer_schema_version input)))) (\<lambda>_.
      rbind (validate_request_id (mer_request_id input)) (\<lambda>_.
      rbind (validate_configuration env c) (\<lambda>_.
      rbind (validate_model_request p (mpc_openai_compatible c) r) (\<lambda>_.
      rbind (provider_endpoint c trusted_endpoint) (\<lambda>endpoint.
      let model = (case map_option trim (mr_model r) of
            Some m \<Rightarrow> if m \<noteq> [] then m else trim (mpc_default_model c)
          | None \<Rightarrow> trim (mpc_default_model c)) in
      rbind (require (\<not> (model = [] \<or> length model > 256))
        (invalid_request p ''model must contain 1-256 characters'')) (\<lambda>_.
      rbind (build_request_body env p (mpc_openai_compatible c) model r) (\<lambda>body.
      rbind (ok_or (to_vec env body) (invalid_request p ''model request could not be serialized'')) (\<lambda>body.
      rbind (require (\<not> length body > mpc_max_request_bytes c)
        (invalid_request p (''request body exceeds the configured '' @ show_nat (mpc_max_request_bytes c) @ ''-byte limit''))) (\<lambda>_.
      Inr \<lparr>pmr_request_id = mer_request_id input, pmr_provider_id = p, pmr_host = pe_host endpoint,
           pmr_path = pe_path endpoint, pmr_port = pe_port endpoint, pmr_use_tls = pe_use_tls endpoint,
           pmr_use_system_proxy = pe_use_system_proxy endpoint, pmr_method = Post, pmr_body = body,
           pmr_timeout_ms = mpc_default_timeout_ms c, pmr_max_response_bytes = MAX_RESPONSE_BYTES\<rparr>))))))))))"

end
