(* ===== verification/GatewayHost.thy ===== *)
theory GatewayHost
  imports GatewayPrepare
begin

text \<open>
  The host of model requests (\<open>ModelExecutionHost\<close> of \<open>model_gateway.rs\<close>): requests are
  authorized, redeemed once, executed and cancelled. The mutexes of the code make each
  operation one step on the state; an execution is its begin, the run of the transport, the
  check of the control and the end, so that other operations may come in between. A poisoned mutex is not modelled. The
  control of an execution (\<open>ModelCancellation\<close>) is shared between the threads: it is an
  entry of \<open>mh_controls\<close>, and \<open>mh_active\<close> maps the request to its index.
\<close>

section \<open>The control of an execution\<close>

datatype Control = ControlActive | ControlCancelled | ControlTimedOut | ControlComplete

text \<open>\<open>compare_exchange\<close> from \<open>CONTROL_ACTIVE\<close>: whether it changed, and the new value.\<close>

definition exchange_active :: "Control \<Rightarrow> Control \<Rightarrow> bool \<times> Control" where
  "exchange_active new_value control =
     (if control = ControlActive then (True, new_value) else (False, control))"

definition is_cancelled :: "Control \<Rightarrow> bool" where
  "is_cancelled control \<longleftrightarrow> control \<in> {ControlCancelled, ControlTimedOut}"

definition cancellation_error :: "ModelProviderId \<Rightarrow> Control \<Rightarrow> ModelGatewayError option" where
  "cancellation_error p control =
     (if control = ControlCancelled
      then Some (provider_error p ''PROVIDER_CANCELLED'' (provider_label p @ '' request was cancelled''))
      else if control = ControlTimedOut
      then Some ((provider_error p ''PROVIDER_TIMEOUT'' (provider_label p @ '' request timed out''))\<lparr>mge_retriable := True\<rparr>)
      else None)"

section \<open>The state\<close>

record ModelHost =
  mh_endpoints :: EndpointRegistry
  mh_controls :: "Control list"
  mh_active :: "(string \<times> nat) list"
  mh_pending :: "(string \<times> PendingModelAuthorization) list"

text \<open>The secret store behind the trait \<open>SecretStore\<close>.\<close>

type_synonym secrets = "string \<Rightarrow> ModelGatewayError + string option"

definition new_host :: "EndpointRegistry \<Rightarrow> ModelHost" where
  "new_host reg = \<lparr>mh_endpoints = reg, mh_controls = [], mh_active = [], mh_pending = []\<rparr>"

definition trusted_endpoint :: "ModelHost \<Rightarrow> string \<Rightarrow> ModelGatewayError + TrustedModelEndpoint" where
  "trusted_endpoint h endpoint_id =
     map_sum (\<lambda>e. provider_error OpenAICompatible (endpoint_error_code e) (endpoint_public_message e)) id
       (get_endpoint (mh_endpoints h) endpoint_id)"

definition host_prepare_request ::
  "GatewayEnv \<Rightarrow> ModelHost \<Rightarrow> ModelExecutionRequest \<Rightarrow> ModelGatewayError + PreparedModelRequest" where
  "host_prepare_request env h input =
     (let c = mer_configuration input in
      rbind (if mpc_provider_id c = OpenAICompatible
             then rbind (ok_or (mpc_openai_compatible c)
                    (configuration_error OpenAICompatible ''openaiCompatible configuration is required'')) (\<lambda>compatible.
                  rbind (trusted_endpoint h (ocp_endpoint_id compatible)) (\<lambda>e. Inr (Some e)))
             else Inr None)
        (prepare_request env input))"

definition host_bound_credential_reference ::
  "ModelHost \<Rightarrow> ModelExecutionRequest \<Rightarrow> ModelGatewayError + string" where
  "host_bound_credential_reference h input =
     (let c = mer_configuration input; p = mpc_provider_id c in
      if p = OpenAICompatible
      then rbind (ok_or (mpc_openai_compatible c)
             (configuration_error p ''openaiCompatible configuration is required'')) (\<lambda>compatible.
           rbind (trusted_endpoint h (ocp_endpoint_id compatible)) (\<lambda>e.
           parse_secret_reference (tme_credential_ref e)))
      else parse_secret_reference (default_credential_ref p))"

section \<open>Authorizations\<close>

definition expired :: "int \<Rightarrow> PendingModelAuthorization \<Rightarrow> bool" where
  "expired now a \<longleftrightarrow> pma_expires_at a \<le> now"

text \<open>
  \<open>authorize\<close> at the time \<open>now\<close> with the random id \<open>authorization_id\<close>. The entry is stored
  before the expiry is printed; a time that cannot be printed leaves it there.
\<close>

definition authorize ::
  "GatewayEnv \<Rightarrow> int \<Rightarrow> string \<Rightarrow> ModelExecutionRequest \<Rightarrow> ModelAuthorizationScope \<Rightarrow> ModelHost
     \<Rightarrow> (ModelGatewayError + ModelRequestAuthorization) \<times> ModelHost" where
  "authorize env now authorization_id input scope h =
     (case host_prepare_request env h input of
        Inl e \<Rightarrow> (Inl e, h)
      | Inr prepared \<Rightarrow>
          (let p = pmr_provider_id prepared;
               expires_at = now + MODEL_AUTHORIZATION_TTL_SECONDS;
               h = h\<lparr>mh_pending := filter (\<lambda>(_, a). \<not> expired now a) (mh_pending h)\<rparr> in
           if length (mh_pending h) \<ge> MAX_PENDING_MODEL_AUTHORIZATIONS
           then (Inl (provider_error p ''MODEL_AUTHORIZATION_CAPACITY''
                   ''too many model requests are waiting for execution''), h)
           else if list_ex (\<lambda>(_, a). mer_request_id (pma_input a) = mer_request_id input) (mh_pending h)
                \<or> mer_request_id input \<in> fst ` set (mh_active h)
           then (Inl (provider_error p ''MODEL_REQUEST_ID_IN_USE''
                   ''model request ID is already authorized or active''), h)
           else (case rfc3339_format env expires_at of
                   Inl e \<Rightarrow> Inl (gateway_error ''MODEL_AUTHORIZATION_UNAVAILABLE''
                     (''failed to format authorization expiry timestamp: '' @ e))
                 | Inr expiry \<Rightarrow> Inr
                     \<lparr>mra_schema_version = REQUEST_SCHEMA_VERSION, mra_authorization_id = authorization_id,
                      mra_request_id = mer_request_id input, mra_provider_id = p, mra_expires_at = expiry\<rparr>,
                 h\<lparr>mh_pending := filter (\<lambda>(i, _). i \<noteq> authorization_id) (mh_pending h) @ [(authorization_id,
                    \<lparr>pma_input = input, pma_scope = scope, pma_expires_at = expires_at\<rparr>)]\<rparr>)))"

definition take_authorized_request ::
  "int \<Rightarrow> string \<Rightarrow> string \<Rightarrow> string \<Rightarrow> ModelHost \<Rightarrow> (ModelGatewayError + ModelExecutionRequest) \<times> ModelHost" where
  "take_authorized_request now authorization_id project_id head_commit_id h =
     (case validate_authorization_id authorization_id of
        Inl e \<Rightarrow> (Inl e, h)
      | Inr _ \<Rightarrow>
          (case map_of (mh_pending h) authorization_id of
             None \<Rightarrow> (Inl (gateway_error ''MODEL_AUTHORIZATION_INVALID''
                        ''model request authorization is unknown or already consumed''), h)
           | Some a \<Rightarrow>
               (let p = mpc_provider_id (mer_configuration (pma_input a));
                    h = h\<lparr>mh_pending := filter (\<lambda>(i, _). i \<noteq> authorization_id) (mh_pending h)\<rparr>
                in (if expired now a
                    then Inl (provider_error p ''MODEL_AUTHORIZATION_EXPIRED''
                           ''model request authorization has expired'')
                    else if mas_project_id (pma_scope a) \<noteq> project_id
                         \<or> mas_base_commit_id (pma_scope a) \<noteq> head_commit_id
                    then Inl (provider_error p ''MODEL_AUTHORIZATION_STALE''
                           ''the project changed after the model request was authorized'')
                    else Inr (pma_input a), h))))"

section \<open>Executing\<close>

text \<open>Up to the call of the transport: the prepared request and the credential it is sent with.\<close>

definition begin_execution ::
  "GatewayEnv \<Rightarrow> secrets \<Rightarrow> ModelExecutionRequest \<Rightarrow> ModelHost
     \<Rightarrow> (ModelGatewayError + (PreparedModelRequest \<times> string option \<times> nat)) \<times> ModelHost" where
  "begin_execution env secrets input h =
     (case rbind (host_prepare_request env h input) (\<lambda>prepared.
           let p = pmr_provider_id prepared in
           rbind (if p = Ollama then Inr None
                  else rbind (host_bound_credential_reference h input) (\<lambda>reference.
                       rbind (secrets reference) (\<lambda>secret.
                       rbind (ok_or secret (provider_error p ''PROVIDER_CREDENTIAL_MISSING''
                                (''No credential is stored for '' @ reference))) (\<lambda>s. Inr (Some s)))))
             (\<lambda>secret. Inr (prepared, secret))) of
        Inl e \<Rightarrow> (Inl e, h)
      | Inr (prepared, secret) \<Rightarrow>
          if pmr_request_id prepared \<in> fst ` set (mh_active h)
          then (Inl (provider_error (pmr_provider_id prepared) ''MODEL_REQUEST_ID_IN_USE''
                  ''model request ID is already active''), h)
          else (Inr (prepared, secret, length (mh_controls h)),
                h\<lparr>mh_controls := mh_controls h @ [ControlActive],
                  mh_active := mh_active h @ [(pmr_request_id prepared, length (mh_controls h))]\<rparr>))"

text \<open>The watchdog, and \<open>ActiveRequestGuard\<close> when it is dropped.\<close>

definition set_control :: "nat \<Rightarrow> Control \<Rightarrow> ModelHost \<Rightarrow> bool \<times> ModelHost" where
  "set_control i new_value h =
     (if i < length (mh_controls h)
      then (let (changed, control) = exchange_active new_value (mh_controls h ! i)
            in (changed, h\<lparr>mh_controls := (mh_controls h)[i := control]\<rparr>))
      else (False, h))"

definition time_out :: "nat \<Rightarrow> ModelHost \<Rightarrow> ModelHost" where
  "time_out i h = snd (set_control i ControlTimedOut h)"

definition drop_guard :: "string \<Rightarrow> nat \<Rightarrow> ModelHost \<Rightarrow> ModelHost" where
  "drop_guard request_id i h =
     (let h = snd (set_control i ControlComplete h)
      in h\<lparr>mh_active := filter (\<lambda>(r, _). r \<noteq> request_id) (mh_active h)\<rparr>)"

text \<open>
  After the transport, two steps: a cancelled control decides, then the error \<open>failed\<close> that the
  transport returned; without either of them the sink that it left is finished. A cancellation
  between the two steps comes too late.
\<close>

definition transport_verdict :: "ModelProviderId \<Rightarrow> nat \<Rightarrow> ModelGatewayError option \<Rightarrow> ModelHost \<Rightarrow> ModelGatewayError option" where
  "transport_verdict p i failed h =
     (case cancellation_error p (if i < length (mh_controls h) then mh_controls h ! i else ControlActive) of
        Some e \<Rightarrow> Some e
      | None \<Rightarrow> map_option (for_provider p) failed)"

definition finish_execution ::
  "GatewayEnv \<Rightarrow> receiver \<Rightarrow> PreparedModelRequest \<Rightarrow> nat \<Rightarrow> ModelGatewayError option \<Rightarrow> Sink \<Rightarrow> ModelHost
     \<Rightarrow> (ModelGatewayError + ModelExecutionSummary option) \<times> Sink \<times> ModelHost" where
  "finish_execution env receive prepared i verdict sink h =
     (let (result, sink) =
            (case verdict of Some e \<Rightarrow> (Inl e, sink) | None \<Rightarrow> finish_response env receive sink)
      in (result, sink, drop_guard (pmr_request_id prepared) i h))"

section \<open>Cancelling\<close>

text \<open>\<open>find_map\<close> over the pending map, then \<open>remove\<close>.\<close>

definition remove_pending :: "string \<Rightarrow> (string \<times> PendingModelAuthorization) list
    \<Rightarrow> bool \<times> (string \<times> PendingModelAuthorization) list" where
  "remove_pending request_id pending =
     (case List.find (\<lambda>(_, a). mer_request_id (pma_input a) = request_id) pending of
        None \<Rightarrow> (False, pending)
      | Some (i, _) \<Rightarrow> (True, filter (\<lambda>(j, _). j \<noteq> i) pending))"

definition cancel :: "string \<Rightarrow> ModelHost \<Rightarrow> CancelModelRequestResponse \<times> ModelHost" where
  "cancel request_id h =
     (let (active_cancelled, h) =
            (case map_of (mh_active h) request_id of
               None \<Rightarrow> (False, h) | Some i \<Rightarrow> set_control i ControlCancelled h);
          (pending_cancelled, pending) = remove_pending request_id (mh_pending h)
      in (\<lparr>cmr_schema_version = REQUEST_SCHEMA_VERSION, cmr_request_id = request_id,
           cmr_cancelled = (active_cancelled \<or> pending_cancelled)\<rparr>,
          h\<lparr>mh_pending := pending\<rparr>))"

fun cancel_controls :: "nat list \<Rightarrow> ModelHost \<Rightarrow> nat \<times> ModelHost" where
  "cancel_controls [] h = (0, h)"
| "cancel_controls (i # is) h =
     (let (changed, h) = set_control i ControlCancelled h; (n, h) = cancel_controls is h
      in (n + (if changed then 1 else 0), h))"

definition cancel_all :: "ModelHost \<Rightarrow> nat \<times> ModelHost" where
  "cancel_all h =
     (let (active, h) = cancel_controls (map snd (mh_active h)) h
      in (active + length (mh_pending h), h\<lparr>mh_pending := []\<rparr>))"

section \<open>Where a credential goes\<close>

text \<open>The hosts of a built-in provider.\<close>

definition builtin_host :: "ModelProviderId \<Rightarrow> string \<Rightarrow> bool" where
  "builtin_host p host \<longleftrightarrow>
     (case p of
        Deepseek \<Rightarrow> host = ''api.deepseek.com''
      | Kimi \<Rightarrow> host = ''api.moonshot.cn''
      | Minimax \<Rightarrow> host = ''api.minimaxi.com''
      | Ollama \<Rightarrow> host = ''127.0.0.1''
      | Qwen \<Rightarrow> host \<in> set [''dashscope.aliyuncs.com'', ''dashscope-us.aliyuncs.com'', ''dashscope-intl.aliyuncs.com'']
          \<or> list_ex (\<lambda>region. ends_with host (''.'' @ qwen_suffix region)
               \<and> safe_name 128 (take (length host - length (''.'' @ qwen_suffix region)) host))
             [China, Singapore, Germany, Japan]
      | OpenAICompatible \<Rightarrow> False)"

lemma qwen_host_builtin:
  assumes "qwen_host q = Inr host" and "case q of None \<Rightarrow> True | Some c \<Rightarrow> validate_qwen p c = Inr ()"
  shows "builtin_host Qwen host"
proof (cases "\<exists>c w. q = Some c \<and> qpc_workspace_id c = Some w \<and> qpc_region c \<noteq> Us")
  case True
  then obtain c w where q: "q = Some c" "qpc_workspace_id c = Some w" "qpc_region c \<noteq> Us" by blast
  then have "host = w @ ''.'' @ qwen_suffix (qpc_region c)"
    using assms(1) by (cases "qpc_region c") (auto simp: qwen_host_def unwrap_or_def Let_def)
  moreover have "safe_name 128 w" using assms(2) q by (simp add: validate_qwen_def result_simps)
  ultimately show ?thesis
    using q(3) by (cases "qpc_region c") (auto simp: builtin_host_def ends_with_def)
next
  case False
  with assms(1) show ?thesis
    by (auto simp: qwen_host_def unwrap_or_def Let_def builtin_host_def split: option.splits QwenDeploymentRegion.splits)
qed

lemma prepare_request_facts:
  assumes "prepare_request env input e = Inr prepared"
  shows "pmr_provider_id prepared = mpc_provider_id (mer_configuration input)"
    and "pmr_request_id prepared = mer_request_id input"
    and "\<exists>pe. provider_endpoint (mer_configuration input) e = Inr pe \<and> pmr_host prepared = pe_host pe
      \<and> pmr_path prepared = pe_path pe \<and> pmr_port prepared = pe_port pe \<and> pmr_use_tls prepared = pe_use_tls pe
      \<and> pmr_use_system_proxy prepared = pe_use_system_proxy pe"
    and "validate_configuration env (mer_configuration input) = Inr ()"
  using assms by (auto simp: prepare_request_def Let_def result_simps)

lemma provider_endpoint_builtin:
  assumes "provider_endpoint c e = Inr pe" and "mpc_provider_id c \<noteq> OpenAICompatible"
    and "validate_configuration env c = Inr ()"
  shows "builtin_host (mpc_provider_id c) (pe_host pe)"
    and "pe_use_tls pe = (mpc_provider_id c \<noteq> Ollama)" and "mpc_provider_id c \<noteq> Ollama \<Longrightarrow> pe_port pe = 443"
proof -
  have qwen: "case mpc_qwen c of None \<Rightarrow> True | Some q \<Rightarrow> validate_qwen (mpc_provider_id c) q = Inr ()"
    using assms(3) by (auto simp: validate_configuration_def Let_def result_simps split: option.splits)
  then show "builtin_host (mpc_provider_id c) (pe_host pe)"
  proof (cases "mpc_provider_id c = Qwen")
    case True
    then obtain host where "qwen_host (mpc_qwen c) = Inr host" "pe_host pe = host"
      using assms(1) by (auto simp: provider_endpoint_def Let_def result_simps)
    with True qwen show ?thesis using qwen_host_builtin by metis
  next
    case False
    with assms(1,2) show ?thesis
      by (cases "mpc_provider_id c") (auto simp: provider_endpoint_def Let_def result_simps builtin_host_def)
  qed
  show "pe_use_tls pe = (mpc_provider_id c \<noteq> Ollama)" "mpc_provider_id c \<noteq> Ollama \<Longrightarrow> pe_port pe = 443"
    using assms(1) by (auto simp: provider_endpoint_def Let_def result_simps)
qed

lemma provider_endpoint_trusted:
  assumes "provider_endpoint c (Some e) = Inr pe" and "mpc_provider_id c = OpenAICompatible"
  shows "pe_host pe = tme_hostname e" and "pe_path pe = chat_completions_path e" and "pe_port pe = 443"
    and "pe_use_tls pe" and "\<not> pe_use_system_proxy pe" and "tme_credential_ref e = mpc_credential_ref c"
  using assms by (auto simp: provider_endpoint_def trusted_location_def Let_def result_simps)

lemma trusted_endpoint_facts:
  "trusted_endpoint h i = Inr e \<Longrightarrow> e \<in> set (epr_endpoints (mh_endpoints h)) \<and> tme_id e = i"
  by (auto simp: trusted_endpoint_def get_endpoint_def ok_or_def split: option.splits dest: find_Some_iff [THEN iffD1])

lemma parse_secret_reference_same: "parse_secret_reference v = Inr r \<Longrightarrow> r = v"
  by (auto simp: parse_secret_reference_def split: option.splits if_splits)

lemma host_prepare_facts:
  assumes "host_prepare_request env h input = Inr prepared"
  obtains e where "prepare_request env input e = Inr prepared"
    and "e = None \<and> mpc_provider_id (mer_configuration input) \<noteq> OpenAICompatible
      \<or> (\<exists>c x. mpc_provider_id (mer_configuration input) = OpenAICompatible
          \<and> mpc_openai_compatible (mer_configuration input) = Some c
          \<and> trusted_endpoint h (ocp_endpoint_id c) = Inr x \<and> e = Some x)"
  using assms that by (auto simp: host_prepare_request_def Let_def result_simps split: if_splits)

section \<open>Properties of the credential\<close>

text \<open>What a request and a credential have to do with each other.\<close>

definition credential_bound ::
  "ModelHost \<Rightarrow> secrets \<Rightarrow> ModelProviderConfiguration \<Rightarrow> PreparedModelRequest \<Rightarrow> string \<Rightarrow> bool" where
  "credential_bound h secrets c prepared secret \<longleftrightarrow>
     pmr_use_tls prepared \<and> pmr_port prepared = 443
     \<and> (if mpc_provider_id c = OpenAICompatible
        then \<exists>e \<in> set (epr_endpoints (mh_endpoints h)).
               pmr_host prepared = tme_hostname e \<and> pmr_path prepared = chat_completions_path e
               \<and> secrets (tme_credential_ref e) = Inr (Some secret) \<and> \<not> pmr_use_system_proxy prepared
        else builtin_host (mpc_provider_id c) (pmr_host prepared)
          \<and> secrets (default_credential_ref (mpc_provider_id c)) = Inr (Some secret))"

text \<open>
  C9. A credential is only sent to the host it belongs to. When an execution hands a request
  with a secret to the transport, the request goes over TLS to port 443; for a built-in
  provider to a host of that provider, with the secret of the slot of that provider, and
  for a trusted endpoint to the host and path of a registered endpoint, past any proxy, with
  the secret of the slot of the same endpoint, whatever the configuration of the request names.
  A request without a secret goes to Ollama on this machine.
\<close>

theorem credential_stays_with_its_host:
  assumes "begin_execution env secrets input h = (Inr (prepared, secret, i), h')"
  shows "case secret of
      Some s \<Rightarrow> credential_bound h secrets (mer_configuration input) prepared s
    | None \<Rightarrow> mpc_provider_id (mer_configuration input) = Ollama \<and> pmr_host prepared = ''127.0.0.1''"
proof -
  let ?c = "mer_configuration input"
  from assms have prep: "host_prepare_request env h input = Inr prepared"
    by (auto simp: begin_execution_def Let_def rbind_def split: sum.splits if_splits prod.splits)
  obtain e where e: "prepare_request env input e = Inr prepared"
    "e = None \<and> mpc_provider_id ?c \<noteq> OpenAICompatible
      \<or> (\<exists>c x. mpc_provider_id ?c = OpenAICompatible \<and> mpc_openai_compatible ?c = Some c
          \<and> trusted_endpoint h (ocp_endpoint_id c) = Inr x \<and> e = Some x)"
    by (rule host_prepare_facts [OF prep])
  note facts = prepare_request_facts [OF e(1)]
  obtain pe where pe: "provider_endpoint ?c e = Inr pe" "pmr_host prepared = pe_host pe" "pmr_path prepared = pe_path pe"
    "pmr_port prepared = pe_port pe" "pmr_use_tls prepared = pe_use_tls pe"
    "pmr_use_system_proxy prepared = pe_use_system_proxy pe"
    using facts(3) by blast
  show ?thesis
  proof (cases "mpc_provider_id ?c = Ollama")
    case True
    then have "secret = None"
      using assms prep facts(1) by (auto simp: begin_execution_def Let_def split: if_splits)
    moreover have "pmr_host prepared = ''127.0.0.1''"
      using pe(1,2) True by (auto simp: provider_endpoint_def Let_def)
    ultimately show ?thesis using True by simp
  next
    case False
    then obtain reference s where reference: "host_bound_credential_reference h input = Inr reference"
      and s: "secrets reference = Inr (Some s)" "secret = Some s"
      using assms prep facts(1)
      by (auto simp: begin_execution_def Let_def rbind_def ok_or_def split: sum.splits if_splits option.splits)
    show ?thesis
    proof (cases "mpc_provider_id ?c = OpenAICompatible")
      case True
      then obtain c x where x: "mpc_openai_compatible ?c = Some c" "trusted_endpoint h (ocp_endpoint_id c) = Inr x"
        "e = Some x" using e(2) by auto
      then have "reference = tme_credential_ref x"
        using reference True parse_secret_reference_same
        by (auto simp: host_bound_credential_reference_def Let_def)
      moreover note provider_endpoint_trusted [OF pe(1) [unfolded x(3)] True]
      ultimately show ?thesis
        using trusted_endpoint_facts [OF x(2)] s pe True by (auto simp: credential_bound_def)
    next
      case builtin: False
      then have "reference = default_credential_ref (mpc_provider_id ?c)"
        using reference parse_secret_reference_same by (auto simp: host_bound_credential_reference_def Let_def)
      then show ?thesis
        using provider_endpoint_builtin [OF pe(1) builtin facts(4)] False builtin s pe
        by (simp add: credential_bound_def)
    qed
  qed
qed

text \<open>A request to a built-in provider, and a store that holds two keys.\<close>

definition sample_configuration :: ModelProviderConfiguration where
  "sample_configuration =
     \<lparr>mpc_schema_version = 1, mpc_id = ''c'', mpc_provider_id = Kimi, mpc_enabled = True, mpc_default_model = ''k2'',
      mpc_credential_ref = ''secret://providers/kimi/default'', mpc_qwen = None, mpc_openai_compatible = None,
      mpc_default_timeout_ms = 1000, mpc_max_request_bytes = 4096, mpc_updated_at = ''t''\<rparr>"

definition sample_request :: "string \<Rightarrow> ModelExecutionRequest" where
  "sample_request request_id =
     \<lparr>mer_schema_version = 1, mer_request_id = request_id, mer_configuration = sample_configuration,
      mer_request =
        \<lparr>mr_model = None,
         mr_messages = [\<lparr>mm_role = User, mm_content = ''hi'', mm_name = None, mm_reasoning_content = None,
           mm_tool_call_id = None, mm_tool_calls = None\<rparr>],
         mr_max_output_tokens = None, mr_temperature = None, mr_top_p = None, mr_stop = None,
         mr_response_format = None, mr_reasoning = None, mr_tools = None, mr_tool_choice = None\<rparr>\<rparr>"

definition sample_secrets :: secrets where
  "sample_secrets reference =
     Inr (map_of [(''secret://providers/kimi/default'', ''k''), (''secret://providers/qwen/default'', ''q'')] reference)"

definition sample_host :: ModelHost where
  "sample_host = new_host memory_registry"

definition sample_begin ::
    "(ModelGatewayError + (PreparedModelRequest \<times> string option \<times> nat)) \<times> ModelHost" where
  "sample_begin = begin_execution sample_gateway sample_secrets (sample_request ''r1'') sample_host"

theorem credential_stays_with_its_host_witness:
  "\<exists>prepared i h. sample_begin = (Inr (prepared, Some ''k'', i), h)
     \<and> credential_bound sample_host sample_secrets sample_configuration prepared ''k''"
proof -
  have found: "isl (fst sample_begin) = False" "fst (snd (projr (fst sample_begin))) = Some ''k''" by code_simp+
  obtain r h where rh: "sample_begin = (r, h)" by (cases sample_begin)
  with found obtain prepared i where "r = Inr (prepared, Some ''k'', i)" by (cases r) (auto simp: rh)
  with rh have run: "sample_begin = (Inr (prepared, Some ''k'', i), h)" by simp
  have "mer_configuration (sample_request ''r1'') = sample_configuration" by (simp add: sample_request_def)
  then show ?thesis
    using credential_stays_with_its_host [OF run [unfolded sample_begin_def]] run by auto
qed

end
