(* ===== verification/HostRuns.thy ===== *)
theory HostRuns
  imports GatewayHost
begin

text \<open>
  Sequences of operations of the model host, in any order: what holds of an authorization and
  of a cancellation whatever else the host is asked to do in between.
\<close>

section \<open>Calls and replies\<close>

text \<open>
  The operations of \<open>ModelExecutionHost\<close>, and the changes of the registry of trusted
  endpoints that it shares with the settings.
\<close>

datatype HostCall =
  AuthorizeCall int string ModelExecutionRequest ModelAuthorizationScope
| TakeCall int string string string
| BeginCall ModelExecutionRequest
| TimeOutCall nat
| CheckCall ModelProviderId nat "ModelGatewayError option"
| FinishCall PreparedModelRequest nat "ModelGatewayError option" Sink
| CancelCall string
| CancelAllCall
| EndpointsCall EndpointRegistry

datatype HostReply =
  Authorized "ModelGatewayError + ModelRequestAuthorization"
| Taken "ModelGatewayError + ModelExecutionRequest"
| Begun "ModelGatewayError + (PreparedModelRequest \<times> string option \<times> nat)"
| Checked "ModelGatewayError option"
| Finished "(ModelGatewayError + ModelExecutionSummary option) \<times> Sink"
| Cancelled CancelModelRequestResponse
| CancelledAll nat
| NoReply

fun host_call :: "GatewayEnv \<Rightarrow> secrets \<Rightarrow> receiver \<Rightarrow> HostCall \<Rightarrow> ModelHost \<Rightarrow> HostReply \<times> ModelHost" where
  "host_call env secrets receive (AuthorizeCall now i input scope) h =
     map_prod Authorized id (authorize env now i input scope h)"
| "host_call env secrets receive (TakeCall now i project head) h =
     map_prod Taken id (take_authorized_request now i project head h)"
| "host_call env secrets receive (BeginCall input) h = map_prod Begun id (begin_execution env secrets input h)"
| "host_call env secrets receive (TimeOutCall i) h = (NoReply, time_out i h)"
| "host_call env secrets receive (CheckCall p i failed) h = (Checked (transport_verdict p i failed h), h)"
| "host_call env secrets receive (FinishCall prepared i verdict sink) h =
     (let (result, sink, h) = finish_execution env receive prepared i verdict sink h in (Finished (result, sink), h))"
| "host_call env secrets receive (CancelCall r) h = map_prod Cancelled id (cancel r h)"
| "host_call env secrets receive CancelAllCall h = map_prod CancelledAll id (cancel_all h)"
| "host_call env secrets receive (EndpointsCall reg) h = (NoReply, h\<lparr>mh_endpoints := reg\<rparr>)"

fun host_calls :: "GatewayEnv \<Rightarrow> secrets \<Rightarrow> receiver \<Rightarrow> HostCall list \<Rightarrow> ModelHost \<Rightarrow> HostReply list \<times> ModelHost" where
  "host_calls env secrets receive [] h = ([], h)"
| "host_calls env secrets receive (c # cs) h =
     (let (reply, h) = host_call env secrets receive c h; (replies, h) = host_calls env secrets receive cs h
      in (reply # replies, h))"

text \<open>The ids that the calls give to authorizations.\<close>

fun authorization_ids :: "HostCall list \<Rightarrow> string list" where
  "authorization_ids [] = []"
| "authorization_ids (AuthorizeCall _ i _ _ # cs) = i # authorization_ids cs"
| "authorization_ids (_ # cs) = authorization_ids cs"

lemma authorization_ids_append [simp]:
  "authorization_ids (xs @ ys) = authorization_ids xs @ authorization_ids ys"
  by (induction xs rule: authorization_ids.induct) auto

lemma host_calls_append:
  "host_calls env secrets receive (xs @ ys) h =
     (let (rs, h1) = host_calls env secrets receive xs h; (ss, h2) = host_calls env secrets receive ys h1
      in (rs @ ss, h2))"
  by (induction xs arbitrary: h) (auto simp: Let_def split_beta)

lemma host_calls_length: "length (fst (host_calls env secrets receive cs h)) = length cs"
  by (induction cs arbitrary: h) (auto simp: Let_def split_beta)

section \<open>What a call does to the pending authorizations\<close>

lemma set_control_pending [simp]:
  "mh_pending (snd (set_control i v h)) = mh_pending h" "mh_active (snd (set_control i v h)) = mh_active h"
  by (auto simp: set_control_def Let_def split_beta)

lemma cancel_controls_pending [simp]: "mh_pending (snd (cancel_controls is h)) = mh_pending h"
  by (induction "is" arbitrary: h) (auto simp: Let_def split_beta)

lemma drop_guard_pending [simp]: "mh_pending (drop_guard r i h) = mh_pending h"
  by (simp add: drop_guard_def Let_def)

lemma authorize_pending:
  "set (mh_pending (snd (authorize env now i input scope h)))
     \<subseteq> set (mh_pending h) \<union> {(i, \<lparr>pma_input = input, pma_scope = scope, pma_expires_at = now + MODEL_AUTHORIZATION_TTL_SECONDS\<rparr>)}"
  by (auto simp: authorize_def Let_def split: sum.splits if_splits)

lemma begin_execution_pending [simp]: "mh_pending (snd (begin_execution env secrets input h)) = mh_pending h"
  by (auto simp: begin_execution_def Let_def split: sum.splits prod.splits)

lemma take_pending:
  "set (mh_pending (snd (take_authorized_request now i project head h))) \<subseteq> set (mh_pending h)"
  by (auto simp: take_authorized_request_def Let_def split: sum.splits option.splits)

lemma cancel_pending: "set (mh_pending (snd (cancel r h))) \<subseteq> set (mh_pending h)"
  by (auto simp: cancel_def Let_def remove_pending_def split_beta split: option.splits)

lemma host_call_pending:
  assumes "(i, a) \<in> set (mh_pending (snd (host_call env secrets receive c h)))"
  shows "(i, a) \<in> set (mh_pending h)
    \<or> c = AuthorizeCall (pma_expires_at a - MODEL_AUTHORIZATION_TTL_SECONDS) i (pma_input a) (pma_scope a)"
proof (cases c)
  case (AuthorizeCall now j input scope)
  then show ?thesis using assms authorize_pending [of env now j input scope h] by auto
next
  case (TakeCall now j project head)
  then show ?thesis using assms take_pending by fastforce
next
  case (CancelCall r)
  then show ?thesis using assms cancel_pending by fastforce
qed (use assms in \<open>auto simp: time_out_def cancel_all_def finish_execution_def Let_def split_beta\<close>)

lemma host_calls_pending:
  assumes "(i, a) \<in> set (mh_pending (snd (host_calls env secrets receive cs h)))"
  shows "(i, a) \<in> set (mh_pending h)
    \<or> AuthorizeCall (pma_expires_at a - MODEL_AUTHORIZATION_TTL_SECONDS) i (pma_input a) (pma_scope a) \<in> set cs"
  using assms
proof (induction cs arbitrary: h)
  case (Cons c cs)
  from Cons.prems have "(i, a) \<in> set (mh_pending (snd (host_calls env secrets receive cs
      (snd (host_call env secrets receive c h)))))"
    by (simp add: Let_def split_beta)
  from Cons.IH [OF this] host_call_pending [of i a env secrets receive c h] show ?case by auto
qed simp

lemma authorization_ids_member: "AuthorizeCall now i input scope \<in> set cs \<Longrightarrow> i \<in> set (authorization_ids cs)"
  by (induction cs rule: authorization_ids.induct) auto

lemma host_calls_absent:
  assumes "i \<notin> fst ` set (mh_pending h)" and "i \<notin> set (authorization_ids cs)"
  shows "i \<notin> fst ` set (mh_pending (snd (host_calls env secrets receive cs h)))"
proof
  assume "i \<in> fst ` set (mh_pending (snd (host_calls env secrets receive cs h)))"
  then obtain a where "(i, a) \<in> set (mh_pending (snd (host_calls env secrets receive cs h)))" by force
  from host_calls_pending [OF this] assms show False
    using authorization_ids_member by (metis fst_conv image_eqI)
qed

lemma host_calls_nth:
  "k < length cs \<Longrightarrow> fst (host_calls env secrets receive cs h) ! k
     = fst (host_call env secrets receive (cs ! k) (snd (host_calls env secrets receive (take k cs) h)))"
proof (induction cs arbitrary: k h)
  case (Cons c cs)
  then show ?case by (cases k) (simp_all add: Let_def split_beta)
qed simp

lemma host_calls_after:
  assumes "k < l" and "l < length cs"
  shows "snd (host_calls env secrets receive (take l cs) h)
    = snd (host_calls env secrets receive (drop (Suc k) (take l cs))
        (snd (host_call env secrets receive (cs ! k) (snd (host_calls env secrets receive (take k cs) h)))))"
proof -
  have "take l cs = take k cs @ cs ! k # drop (Suc k) (take l cs)"
    using assms id_take_nth_drop [of k "take l cs"] by (simp add: min_def)
  then have "snd (host_calls env secrets receive (take l cs) h)
    = snd (host_calls env secrets receive (take k cs @ cs ! k # drop (Suc k) (take l cs)) h)" by simp
  then show ?thesis by (simp add: host_calls_append Let_def split_beta)
qed

section \<open>Redeeming an authorization\<close>

definition unknown_authorization :: ModelGatewayError where
  "unknown_authorization = gateway_error ''MODEL_AUTHORIZATION_INVALID''
     ''model request authorization is unknown or already consumed''"

text \<open>A reply that found the authorization, and the answer to the request that it is for.\<close>

fun found_authorization :: "ModelGatewayError + ModelExecutionRequest \<Rightarrow> bool" where
  "found_authorization (Inr _) = True"
| "found_authorization (Inl e) = (mge_code e \<noteq> ''MODEL_AUTHORIZATION_INVALID'')"

definition redemption ::
  "int \<Rightarrow> ModelExecutionRequest \<Rightarrow> ModelAuthorizationScope \<Rightarrow> int \<Rightarrow> string \<Rightarrow> string
     \<Rightarrow> ModelGatewayError + ModelExecutionRequest" where
  "redemption issued input scope now project head =
     (let p = mpc_provider_id (mer_configuration input) in
      if issued + MODEL_AUTHORIZATION_TTL_SECONDS \<le> now
      then Inl (provider_error p ''MODEL_AUTHORIZATION_EXPIRED'' ''model request authorization has expired'')
      else if mas_project_id scope \<noteq> project \<or> mas_base_commit_id scope \<noteq> head
      then Inl (provider_error p ''MODEL_AUTHORIZATION_STALE''
             ''the project changed after the model request was authorized'')
      else Inr input)"

lemma take_found:
  assumes "take_authorized_request now i project head h = (r, h')" and "found_authorization r"
  obtains a where "(i, a) \<in> set (mh_pending h)" and "i \<notin> fst ` set (mh_pending h')"
    and "r = redemption (pma_expires_at a - MODEL_AUTHORIZATION_TTL_SECONDS) (pma_input a) (pma_scope a) now project head"
proof -
  have valid: "validate_authorization_id i = Inr ()"
  proof (rule ccontr)
    assume "validate_authorization_id i \<noteq> Inr ()"
    with assms show False
      by (auto simp: take_authorized_request_def validate_authorization_id_def require_def gateway_error_def split: if_splits)
  qed
  show thesis
  proof (cases "map_of (mh_pending h) i")
    case None
    with assms valid show thesis by (auto simp: take_authorized_request_def gateway_error_def)
  next
    case (Some a)
    with assms(1) valid have "i \<notin> fst ` set (mh_pending h')"
      and "r = redemption (pma_expires_at a - MODEL_AUTHORIZATION_TTL_SECONDS) (pma_input a) (pma_scope a) now project head"
      by (auto simp: take_authorized_request_def redemption_def expired_def Let_def)
    with map_of_SomeD [OF Some] show thesis by (rule that)
  qed
qed

lemma take_unknown:
  assumes "i \<notin> fst ` set (mh_pending h)" and "validate_authorization_id i = Inr ()"
  shows "fst (take_authorized_request now i project head h) = Inl unknown_authorization"
proof -
  from assms(1) have "map_of (mh_pending h) i = None" by (simp add: map_of_eq_None_iff)
  with assms(2) show ?thesis by (simp add: take_authorized_request_def unknown_authorization_def)
qed

lemma found_valid:
  "fst (take_authorized_request now i project head h) = r \<Longrightarrow> found_authorization r \<Longrightarrow> validate_authorization_id i = Inr ()"
  by (auto simp: take_authorized_request_def validate_authorization_id_def require_def gateway_error_def split: if_splits)

text \<open>
  C10. An authorization is redeemed once. Whatever the host is asked to do, in any order, when
  a redemption finds its authorization then this authorization was issued before, the
  request it returns is the one that was authorized, and it returns it only within 120
  seconds, for the same project and head; found or refused, every later redemption of it is
  answered as unknown. The ids are distinct, as random UUIDs are.
\<close>

theorem authorization_redeemed_once:
  assumes "distinct (authorization_ids calls)"
    and "host_calls env secrets receive calls (new_host reg) = (replies, h)"
    and "k < length calls" and "calls ! k = TakeCall now i project head"
    and "replies ! k = Taken r" and "found_authorization r"
  shows "(\<exists>j < k. \<exists>issued input scope. calls ! j = AuthorizeCall issued i input scope
            \<and> r = redemption issued input scope now project head)
    \<and> (\<forall>l now' project' head'. k < l \<and> l < length calls \<and> calls ! l = TakeCall now' i project' head'
          \<longrightarrow> replies ! l = Taken (Inl unknown_authorization))"
proof -
  let ?at = "\<lambda>l. snd (host_calls env secrets receive (take l calls) (new_host reg))"
  have reply: "replies ! l = fst (host_call env secrets receive (calls ! l) (?at l))" if "l < length calls" for l
    using host_calls_nth [OF that, of env secrets receive "new_host reg"] assms(2) by simp
  obtain r' h1 where run: "take_authorized_request now i project head (?at k) = (r', h1)" by fastforce
  with reply [OF assms(3)] assms(4,5) have r': "r' = r" by simp
  obtain a where a: "(i, a) \<in> set (mh_pending (?at k))" "i \<notin> fst ` set (mh_pending h1)"
    "r = redemption (pma_expires_at a - MODEL_AUTHORIZATION_TTL_SECONDS) (pma_input a) (pma_scope a) now project head"
    using take_found [OF run [unfolded r'] assms(6)] by metis
  have "AuthorizeCall (pma_expires_at a - MODEL_AUTHORIZATION_TTL_SECONDS) i (pma_input a) (pma_scope a) \<in> set (take k calls)"
    using host_calls_pending [OF a(1)] by (simp add: new_host_def)
  then obtain j where j: "j < k"
    "calls ! j = AuthorizeCall (pma_expires_at a - MODEL_AUTHORIZATION_TTL_SECONDS) i (pma_input a) (pma_scope a)"
    using assms(3) by (auto simp: in_set_conv_nth)
  have "i \<in> set (authorization_ids (take k calls))"
    using j assms(3) by (intro authorization_ids_member) (auto simp: in_set_conv_nth)
  then have fresh: "i \<notin> set (authorization_ids (drop k calls))"
    using assms(1) by (metis append_take_drop_id authorization_ids_append disjoint_iff distinct_append)
  have "replies ! l = Taken (Inl unknown_authorization)"
    if l: "k < l" "l < length calls" "calls ! l = TakeCall now' i project' head'" for l now' project' head'
  proof -
    have "set (authorization_ids (drop (Suc k) (take l calls))) \<subseteq> set (authorization_ids (drop k calls))"
    proof -
      have "drop k calls = [calls ! k] @ drop (Suc k) (take l calls) @ drop l calls"
        using l(1,2) assms(3) by (metis Cons_nth_drop_Suc append_Cons append_Nil append_take_drop_id drop_append
            drop_take take_drop drop_drop add_diff_inverse_nat le_add_diff_inverse2 Suc_leI not_less_eq)
      then show ?thesis using assms(4) by auto
    qed
    with fresh have "i \<notin> set (authorization_ids (drop (Suc k) (take l calls)))" by blast
    from host_calls_absent [OF a(2) this]
    have "i \<notin> fst ` set (mh_pending (snd (host_calls env secrets receive (drop (Suc k) (take l calls)) h1)))" .
    then have "i \<notin> fst ` set (mh_pending (?at l))"
      using host_calls_after [OF l(1,2), of env secrets receive "new_host reg"] assms(4) run by simp
    then show ?thesis
      using reply [OF l(2)] l(3) take_unknown found_valid [of now i project head "?at k" r] run r' assms(6) by simp
  qed
  with j a(3) show ?thesis by blast
qed

text \<open>One authorization, and two commands that try to redeem it.\<close>

definition sample_scope :: ModelAuthorizationScope where
  "sample_scope =
     \<lparr>mas_project_id = ''p'', mas_base_commit_id = ''c'', mas_operation_intent_id = ''o'',
      mas_confirmed_context = \<lparr>ccp_id = ''x'', ccp_hash = ''h'', ccp_payload_json = ''{}''\<rparr>,
      mas_target_block_id = ''b'', mas_target_block_revision = 1, mas_target_block_hash = ''h''\<rparr>"

definition sample_calls :: "HostCall list" where
  "sample_calls =
     [AuthorizeCall 0 ''a1'' (sample_request ''r1'') sample_scope, TakeCall 5 ''a1'' ''p'' ''c'',
      TakeCall 6 ''a1'' ''p'' ''c'']"

definition sample_replies :: "HostReply list \<times> ModelHost" where
  "sample_replies = host_calls sample_gateway sample_secrets (\<lambda>_ _. None) sample_calls (new_host memory_registry)"

theorem authorization_redeemed_once_witness:
  "fst sample_replies ! 1 = Taken (Inr (sample_request ''r1''))
   \<and> fst sample_replies ! 2 = Taken (Inl unknown_authorization)"
proof -
  have first: "fst sample_replies ! 1 = Taken (Inr (sample_request ''r1''))" by code_simp
  have calls: "distinct (authorization_ids sample_calls)" "1 < length sample_calls"
    "sample_calls ! 1 = TakeCall 5 ''a1'' ''p'' ''c''" "2 < length sample_calls"
    "sample_calls ! 2 = TakeCall 6 ''a1'' ''p'' ''c''"
    by (simp_all add: sample_calls_def)
  have run: "host_calls sample_gateway sample_secrets (\<lambda>_ _. None) sample_calls (new_host memory_registry)
      = (fst sample_replies, snd sample_replies)"
    by (simp add: sample_replies_def)
  from authorization_redeemed_once [OF calls(1) run calls(2,3) first] calls(4,5)
  have "fst sample_replies ! 2 = Taken (Inl unknown_authorization)" by auto
  with first show ?thesis ..
qed

section \<open>Cancelling an execution\<close>

text \<open>No operation leaves a control that is not active any more, or adds one in front of another.\<close>

definition keeps_controls :: "ModelHost \<Rightarrow> ModelHost \<Rightarrow> bool" where
  "keeps_controls h h' \<longleftrightarrow> length (mh_controls h) \<le> length (mh_controls h')
     \<and> (\<forall>i < length (mh_controls h). mh_controls h ! i \<noteq> ControlActive \<longrightarrow> mh_controls h' ! i = mh_controls h ! i)"

lemma keeps_controls_refl [simp]: "keeps_controls h h"
  by (simp add: keeps_controls_def)

lemma keeps_controls_same: "mh_controls h' = mh_controls h \<Longrightarrow> keeps_controls h h'"
  by (simp add: keeps_controls_def)

lemma keeps_controls_trans: "keeps_controls h h' \<Longrightarrow> keeps_controls h' h'' \<Longrightarrow> keeps_controls h h''"
  by (auto simp: keeps_controls_def)

lemma set_control_keeps: "keeps_controls h (snd (set_control i v h))"
  by (auto simp: set_control_def keeps_controls_def exchange_active_def nth_list_update)

lemma cancel_controls_keeps: "keeps_controls h (snd (cancel_controls is h))"
proof (induction "is" arbitrary: h)
  case (Cons i js)
  have "snd (cancel_controls (i # js) h) = snd (cancel_controls js (snd (set_control i ControlCancelled h)))"
    by (simp add: Let_def split_beta)
  with Cons.IH set_control_keeps keeps_controls_trans show ?case by metis
qed simp

lemma host_call_keeps: "keeps_controls h (snd (host_call env secrets receive c h))"
proof (cases c)
  case (AuthorizeCall now j input scope)
  then show ?thesis by (auto intro!: keeps_controls_same simp: authorize_def Let_def split: sum.splits)
next
  case (TakeCall now j project head)
  then show ?thesis
    by (auto intro!: keeps_controls_same simp: take_authorized_request_def Let_def split: sum.splits option.splits)
next
  case (BeginCall input)
  then show ?thesis
    by (auto simp: keeps_controls_def begin_execution_def nth_append split: sum.splits prod.splits)
next
  case (TimeOutCall i)
  then show ?thesis using set_control_keeps by (simp add: time_out_def)
next
  case (FinishCall prepared i verdict sink)
  have "snd (host_call env secrets receive c h) = drop_guard (pmr_request_id prepared) i h"
    using FinishCall by (simp add: finish_execution_def Let_def split_beta)
  moreover have "mh_controls (drop_guard (pmr_request_id prepared) i h) = mh_controls (snd (set_control i ControlComplete h))"
    by (simp add: drop_guard_def Let_def)
  ultimately show ?thesis
    using set_control_keeps keeps_controls_same keeps_controls_trans by metis
next
  case (CancelCall r)
  have "mh_controls (snd (cancel r h))
      = mh_controls (case map_of (mh_active h) r of None \<Rightarrow> h | Some i \<Rightarrow> snd (set_control i ControlCancelled h))"
    by (auto simp: cancel_def Let_def split_beta split: option.splits)
  then show ?thesis
    using CancelCall set_control_keeps keeps_controls_same keeps_controls_trans
    by (auto split: option.splits) metis
next
  case CancelAllCall
  have "mh_controls (snd (cancel_all h)) = mh_controls (snd (cancel_controls (map snd (mh_active h)) h))"
    by (simp add: cancel_all_def Let_def split_beta)
  then show ?thesis
    using CancelAllCall cancel_controls_keeps keeps_controls_same keeps_controls_trans by (auto) metis
qed (auto intro: keeps_controls_same)

lemma host_calls_keeps: "keeps_controls h (snd (host_calls env secrets receive cs h))"
proof (induction cs arbitrary: h)
  case (Cons c cs)
  have "snd (host_calls env secrets receive (c # cs) h)
      = snd (host_calls env secrets receive cs (snd (host_call env secrets receive c h)))"
    by (simp add: Let_def split_beta)
  with Cons.IH host_call_keeps keeps_controls_trans show ?case by metis
qed simp

text \<open>
  C39. A cancellation wins over everything that comes after it. When \<open>cancel\<close> meets an execution
  that is still active, it reports the request as cancelled, and however the host is used
  before the transport returns, also when the time-out fires then, the check after the transport
  ends the execution with the cancellation error and no summary, whatever the provider sent.
\<close>

theorem cancellation_is_final:
  assumes "map_of (mh_active h) request_id = Some i" and "i < length (mh_controls h)"
    and "mh_controls h ! i = ControlActive" and "cancel request_id h = (response, h1)"
    and "host_calls env secrets receive calls h1 = (replies, h2)"
    and "transport_verdict p i failed h2 = verdict"
    and "finish_execution env receive prepared i verdict sink h2 = (result, sink', h3)"
  shows "cmr_cancelled response \<and> sink' = sink
    \<and> result = Inl (provider_error p ''PROVIDER_CANCELLED'' (provider_label p @ '' request was cancelled''))"
proof -
  have "cmr_cancelled response" and control: "i < length (mh_controls h1) \<and> mh_controls h1 ! i = ControlCancelled"
    using assms(1-4) by (auto simp: cancel_def Let_def set_control_def exchange_active_def split_beta)
  moreover have "keeps_controls h1 h2"
    using host_calls_keeps [of h1 env secrets receive calls] assms(5) by simp
  with control have "i < length (mh_controls h2) \<and> mh_controls h2 ! i = ControlCancelled"
    by (auto simp: keeps_controls_def)
  then have "verdict = Some (provider_error p ''PROVIDER_CANCELLED'' (provider_label p @ '' request was cancelled''))"
    using assms(6) by (auto simp: transport_verdict_def cancellation_error_def)
  ultimately show ?thesis using assms(7) by (simp add: finish_execution_def Let_def)
qed

definition busy_host :: ModelHost where
  "busy_host = snd sample_begin"

definition cancelled_run :: "HostReply list \<times> ModelHost" where
  "cancelled_run = host_calls sample_gateway sample_secrets (\<lambda>_ _. None) [TimeOutCall 0, CancelAllCall]
     (snd (cancel ''r1'' busy_host))"

definition cancelled_end :: "(ModelGatewayError + ModelExecutionSummary option) \<times> Sink \<times> ModelHost" where
  "cancelled_end = finish_execution sample_gateway (\<lambda>_ _. None) (fst (projr (fst sample_begin))) 0
     (transport_verdict Kimi 0 None (snd cancelled_run)) (new_sink ''r1'' Kimi None) (snd cancelled_run)"

theorem cancellation_is_final_witness:
  "cmr_cancelled (fst (cancel ''r1'' busy_host)) \<and> fst cancelled_end
     = Inl (provider_error Kimi ''PROVIDER_CANCELLED'' (provider_label Kimi @ '' request was cancelled''))"
proof -
  have busy: "map_of (mh_active busy_host) ''r1'' = Some 0" "0 < length (mh_controls busy_host)"
    "mh_controls busy_host ! 0 = ControlActive"
    by code_simp+
  obtain response h1 where cancel: "cancel ''r1'' busy_host = (response, h1)" by fastforce
  obtain replies h2 where run: "cancelled_run = (replies, h2)" by fastforce
  obtain result sink h3 where ended: "cancelled_end = (result, sink, h3)" by (metis prod.collapse)
  from run cancel have run': "host_calls sample_gateway sample_secrets (\<lambda>_ _. None) [TimeOutCall 0, CancelAllCall] h1
      = (replies, h2)"
    by (simp add: cancelled_run_def)
  have "finish_execution sample_gateway (\<lambda>_ _. None) (fst (projr (fst sample_begin))) 0
      (transport_verdict Kimi 0 None h2) (new_sink ''r1'' Kimi None) h2 = (result, sink, h3)"
    unfolding cancelled_end_def run snd_conv by (rule ended [unfolded cancelled_end_def run snd_conv])
  from cancellation_is_final [OF busy cancel run' refl this] show ?thesis
    by (simp add: cancel ended)
qed

end
