(* ===== verification/ContextCompiler.thy ===== *)
theory ContextCompiler
  imports GatewayStream "HOL-Library.Multiset"
begin

text \<open>
  The context compiler of the host (\<open>expected_compilation\<close> of \<open>confirmed_context.rs\<close>): which of
  the candidates for the context of a model request are sent, which are left out and why, and
  in which order. Scores are doubles: every operation rounds its exact result with the
  parameter \<open>rnd\<close>; the signals of a candidate are finite constants of the host, so no
  infinity or NaN occurs. \<open>None\<close> is a panic (an unknown tier of a candidate that is not
  excluded before).
\<close>

section \<open>Candidates\<close>

record OperationContextSignals =
  ocs_relevance :: rat
  ocs_structural_proximity :: rat
  ocs_freshness :: rat
  ocs_risk :: rat

record OperationContextCandidate =
  occ_id :: string
  occ_source_ref :: string
  occ_source_hash :: string
  occ_source_commit_id :: string
  occ_tier :: string
  occ_status :: string
  occ_authority :: string
  occ_sensitivity :: string
  occ_render_mode :: string
  occ_reason_codes :: "string list"
  occ_content :: string
  occ_mandatory :: bool
  occ_selected_by_user :: bool
  occ_signals :: OperationContextSignals

text \<open>\<open>format!("{source_ref}\0{source_hash}")\<close>.\<close>

definition identity :: "string \<Rightarrow> string \<Rightarrow> string" where
  "identity source_ref source_hash = source_ref @ CHR 0x00 # source_hash"

definition candidate_key :: "OperationContextCandidate \<Rightarrow> string" where
  "candidate_key c = identity (occ_source_ref c) (occ_source_hash c)"

definition tier_index :: "string \<Rightarrow> nat" where
  "tier_index tier =
     (if tier = ''L0_TARGET'' then 0 else if tier = ''L1_LOCAL'' then 1 else if tier = ''L2_STRUCTURAL'' then 2
      else if tier = ''L3_KNOWLEDGE'' then 3 else if tier = ''L4_STYLE_GLOBAL'' then 4 else 5)"

definition tier_fractions :: "string \<Rightarrow> string + rat list" where
  "tier_fractions operation_type =
     (if operation_type = ''polish'' then Inr [45/100, 35/100, 8/100, 4/100, 8/100]
      else if operation_type = ''continue_scene'' then Inr [25/100, 25/100, 20/100, 22/100, 8/100]
      else if operation_type = ''compress'' then Inr [60/100, 20/100, 10/100, 5/100, 5/100]
      else if operation_type = ''expand'' then Inr [40/100, 20/100, 15/100, 15/100, 10/100]
      else if operation_type = ''critique'' then Inr [15/100, 10/100, 35/100, 25/100, 15/100]
      else Inl ''Context Packet operation profile is unsupported'')"

definition required_exclusion :: "OperationContextCandidate \<Rightarrow> string \<Rightarrow> string option" where
  "required_exclusion c provider_locality =
     (if occ_status c \<in> set [''archived'', ''rejected'', ''deleted''] then Some ''INELIGIBLE_STATUS''
      else if occ_status c = ''draft'' \<and> \<not> occ_selected_by_user c then Some ''DRAFT_NOT_SELECTED''
      else if provider_locality = ''remote'' \<and> occ_sensitivity c = ''never_send'' then Some ''POLICY_DENIED''
      else None)"

section \<open>Scores\<close>

definition clamp01 :: "rat \<Rightarrow> rat" where
  "clamp01 x = (if x < 0 then 0 else if x > 1 then 1 else x)"

text \<open>\<open>f64::round\<close>: to the nearest integer, halves away from zero.\<close>

definition round_half_away :: "rat \<Rightarrow> rat" where
  "round_half_away x = (if 0 \<le> x then of_int \<lfloor>x + 1/2\<rfloor> else - of_int \<lfloor>1/2 - x\<rfloor>)"

definition authority_weight :: "string \<Rightarrow> rat" where
  "authority_weight authority =
     (if authority = ''user_confirmed'' then 1 else if authority = ''source_derived'' then 75/100
      else if authority = ''model_inferred'' then 35/100 else if authority = ''external_untrusted'' then 10/100
      else 0)"

definition rounded_score :: "(rat \<Rightarrow> rat) \<Rightarrow> OperationContextCandidate \<Rightarrow> rat option" where
  "rounded_score rnd c =
     map_option (\<lambda>tier_weight.
       let s = occ_signals c;
           plus = (\<lambda>a b. rnd (a + b));
           times = (\<lambda>a b. rnd (a * b));
           score = plus tier_weight (times (clamp01 (ocs_relevance s)) 30);
           score = plus score (times (clamp01 (ocs_structural_proximity s)) 20);
           score = plus score (times (rnd (authority_weight (occ_authority c))) 15);
           score = plus score (times (clamp01 (ocs_freshness s)) 10);
           score = plus score (if occ_selected_by_user c then 25 else 0);
           score = rnd (score - times (clamp01 (ocs_risk s)) 20)
       in rnd (round_half_away (times score 1000000) / 1000000))
     (nth_opt [100, 80, 65, 50, 35] (tier_index (occ_tier c)))"

section \<open>Selection\<close>

record ScoredCandidate =
  sc_candidate :: OperationContextCandidate
  sc_estimated_tokens :: nat
  sc_score :: rat

record ExpectedDisposition =
  ed_estimated_tokens :: nat
  ed_score :: rat
  ed_exclusion :: "string option"

record ExpectedCompilation =
  ec_disposition :: "string \<Rightarrow> ExpectedDisposition option"
  ec_selected_order :: "string list"
  ec_exclusion_order :: "string list"

abbreviation scored_key :: "ScoredCandidate \<Rightarrow> string" where
  "scored_key e \<equiv> candidate_key (sc_candidate e)"

text \<open>One token per two characters, at least one.\<close>

definition estimate_tokens :: "string \<Rightarrow> nat" where
  "estimate_tokens content = max 1 ((chars_count content + 1) div 2)"

definition score_candidate :: "(rat \<Rightarrow> rat) \<Rightarrow> OperationContextCandidate \<Rightarrow> ScoredCandidate option" where
  "score_candidate rnd c =
     map_option (\<lambda>score. \<lparr>sc_candidate = c, sc_estimated_tokens = estimate_tokens (occ_content c), sc_score = score\<rparr>)
       (rounded_score rnd c)"

definition scored_before :: "ScoredCandidate \<Rightarrow> bool \<times> rat \<times> nat \<times> string \<times> string" where
  "scored_before e =
     (\<not> occ_mandatory (sc_candidate e), - sc_score e, tier_index (occ_tier (sc_candidate e)),
      occ_source_ref (sc_candidate e), occ_source_hash (sc_candidate e))"

definition selected_before :: "ScoredCandidate \<Rightarrow> nat \<times> bool \<times> rat \<times> string \<times> string" where
  "selected_before e =
     (tier_index (occ_tier (sc_candidate e)), \<not> occ_mandatory (sc_candidate e), - sc_score e,
      occ_source_ref (sc_candidate e), occ_source_hash (sc_candidate e))"

text \<open>\<open>try_fold\<close> with \<open>checked_add\<close>.\<close>

fun checked_sum :: "nat list \<Rightarrow> nat \<Rightarrow> nat option" where
  "checked_sum [] acc = Some acc"
| "checked_sum (n # ns) acc = (if acc + n < 2 ^ 64 then checked_sum ns (acc + n) else None)"

definition saturating_add :: "nat \<Rightarrow> nat \<Rightarrow> nat" where
  "saturating_add a b = min (a + b) (2 ^ 64 - 1)"

record Selection =
  sl_output :: "string \<Rightarrow> ExpectedDisposition option"
  sl_selected :: "ScoredCandidate list"
  sl_used :: nat
  sl_tier_used :: "nat list"
  sl_deferred :: "ScoredCandidate list"

definition disposition_of :: "ScoredCandidate \<Rightarrow> string option \<Rightarrow> ExpectedDisposition" where
  "disposition_of e reason =
     \<lparr>ed_estimated_tokens = sc_estimated_tokens e, ed_score = sc_score e, ed_exclusion = reason\<rparr>"

text \<open>\<open>select_expected\<close> with the bookkeeping that follows each of its calls.\<close>

definition select_entry :: "ScoredCandidate \<Rightarrow> Selection \<Rightarrow> Selection" where
  "select_entry e s =
     (let tier = tier_index (occ_tier (sc_candidate e)) in
      s\<lparr>sl_output := (sl_output s)(scored_key e \<mapsto> disposition_of e None),
        sl_selected := sl_selected s @ [e],
        sl_used := u64_add (sl_used s) (sc_estimated_tokens e),
        sl_tier_used := (sl_tier_used s)[tier := u64_add (sl_tier_used s ! tier) (sc_estimated_tokens e)]\<rparr>)"

definition exclude_expected :: "string \<Rightarrow> ScoredCandidate \<Rightarrow> Selection \<Rightarrow> Selection" where
  "exclude_expected reason e s =
     s\<lparr>sl_output := (sl_output s)(scored_key e \<mapsto> disposition_of e (Some reason))\<rparr>"

definition first_pass :: "nat \<Rightarrow> nat list \<Rightarrow> ScoredCandidate \<Rightarrow> Selection \<Rightarrow> Selection" where
  "first_pass budget caps e s =
     (let tier = tier_index (occ_tier (sc_candidate e)) in
      if saturating_add (sl_used s) (sc_estimated_tokens e) > budget then exclude_expected ''TOTAL_BUDGET'' e s
      else if saturating_add (sl_tier_used s ! tier) (sc_estimated_tokens e) \<le> caps ! tier then select_entry e s
      else s\<lparr>sl_deferred := sl_deferred s @ [e]\<rparr>)"

definition second_pass :: "nat \<Rightarrow> ScoredCandidate \<Rightarrow> Selection \<Rightarrow> Selection" where
  "second_pass budget e s =
     (if saturating_add (sl_used s) (sc_estimated_tokens e) \<le> budget then select_entry e s
      else exclude_expected ''TOTAL_BUDGET'' e s)"

definition policy_output ::
  "OperationContextCandidate list \<Rightarrow> string \<Rightarrow> string \<Rightarrow> ExpectedDisposition option" where
  "policy_output candidates locality =
     fold (\<lambda>c m. case required_exclusion c locality of
        None \<Rightarrow> m
      | Some reason \<Rightarrow> m(candidate_key c \<mapsto>
          \<lparr>ed_estimated_tokens = 0, ed_score = 0, ed_exclusion = Some reason\<rparr>)) candidates Map.empty"

definition run_selection ::
  "nat \<Rightarrow> nat list \<Rightarrow> ScoredCandidate list \<Rightarrow> (string \<Rightarrow> ExpectedDisposition option) \<Rightarrow> Selection" where
  "run_selection budget caps scored output =
     (let s = \<lparr>sl_output = output, sl_selected = [], sl_used = 0, sl_tier_used = replicate 5 0, sl_deferred = []\<rparr>;
          s = fold select_entry (filter (\<lambda>e. occ_mandatory (sc_candidate e)) scored) s;
          s = fold (first_pass budget caps) (filter (\<lambda>e. \<not> occ_mandatory (sc_candidate e)) scored) s
      in fold (second_pass budget) (sl_deferred s) s)"

definition tier_caps :: "(rat \<Rightarrow> rat) \<Rightarrow> nat \<Rightarrow> rat list \<Rightarrow> nat list" where
  "tier_caps rnd budget fractions = map (\<lambda>f. nat \<lfloor>rnd (rnd (of_nat budget) * rnd f)\<rfloor>) fractions"

definition excluded_keys ::
  "OperationContextCandidate list \<Rightarrow> (string \<Rightarrow> ExpectedDisposition option) \<Rightarrow> string list" where
  "excluded_keys candidates output =
     map (snd \<circ> snd) (sort_key (\<lambda>(r, reason, _). (r, reason))
       (List.map_filter (\<lambda>c. map_option (\<lambda>reason. (occ_source_ref c, reason, candidate_key c))
            (Option.bind (output (candidate_key c)) ed_exclusion)) candidates))"

definition expected_compilation ::
  "(rat \<Rightarrow> rat) \<Rightarrow> OperationContextCandidate list \<Rightarrow> string \<Rightarrow> string \<Rightarrow> nat
     \<Rightarrow> (string + ExpectedCompilation) option" where
  "expected_compilation rnd candidates locality operation_type budget =
     (case tier_fractions operation_type of
        Inl e \<Rightarrow> Some (Inl e)
      | Inr fractions \<Rightarrow>
          (case map_opt (score_candidate rnd) (filter (\<lambda>c. required_exclusion c locality = None) candidates) of
             None \<Rightarrow> None
           | Some scored \<Rightarrow>
               (let scored = sort_key scored_before scored in
                case checked_sum (map sc_estimated_tokens
                       (filter (\<lambda>e. occ_mandatory (sc_candidate e)) scored)) 0 of
                  None \<Rightarrow> Some (Inl ''Context Packet mandatory token total overflowed'')
                | Some mandatory_tokens \<Rightarrow>
                    if mandatory_tokens > budget
                    then Some (Inl ''Host Context candidates exceed the mandatory token budget'')
                    else (let s = run_selection budget (tier_caps rnd budget fractions) scored
                                 (policy_output candidates locality)
                          in Some (Inr
                            \<lparr>ec_disposition = sl_output s,
                             ec_selected_order = map scored_key (sort_key selected_before (sl_selected s)),
                             ec_exclusion_order = excluded_keys candidates (sl_output s)\<rparr>)))))"

section \<open>The selection\<close>

lemma saturating_add_less: "budget < 2 ^ 64 - 1 \<Longrightarrow> budget < saturating_add a b \<longleftrightarrow> budget < a + b"
  by (auto simp: saturating_add_def)

lemma u64_add_small: "a + b < 2 ^ 64 \<Longrightarrow> u64_add a b = a + b"
  by (simp add: u64_add_def)

lemma checked_sum_Some: "checked_sum ns acc = Some t \<Longrightarrow> t = acc + sum_list ns"
proof (induction ns arbitrary: acc)
  case (Cons n ns)
  then have "checked_sum ns (acc + n) = Some t" by (simp split: if_splits)
  from Cons.IH [OF this] show ?case by simp
qed simp

lemma map_opt_all2: "map_opt f xs = Some ys \<Longrightarrow> list_all2 (\<lambda>x y. f x = Some y) xs ys"
  by (induction xs arbitrary: ys) (auto simp: bind_eq_Some_conv)

lemma score_candidate_Some:
  "score_candidate rnd c = Some e \<Longrightarrow> sc_candidate e = c \<and> sc_estimated_tokens e = estimate_tokens (occ_content c)"
  by (auto simp: score_candidate_def)

text \<open>
  While entries are decided: \<open>rest\<close> holds the ones that are not decided yet, \<open>left\<close> the ones
  left out for the budget. No entry that was left out fits beside the ones selected so far.
\<close>

definition selecting ::
  "nat \<Rightarrow> (string \<Rightarrow> ExpectedDisposition option) \<Rightarrow> ScoredCandidate list \<Rightarrow> ScoredCandidate multiset
     \<Rightarrow> ScoredCandidate list \<Rightarrow> Selection \<Rightarrow> bool" where
  "selecting budget output entries rest left s \<longleftrightarrow>
     mset entries = mset (sl_selected s) + rest + mset left
     \<and> sum_list (map sc_estimated_tokens (sl_selected s)) = sl_used s \<and> sl_used s \<le> budget
     \<and> (\<forall>e \<in> set (sl_selected s). sl_output s (scored_key e) = Some (disposition_of e None))
     \<and> (\<forall>e \<in> set left. sl_output s (scored_key e) = Some (disposition_of e (Some ''TOTAL_BUDGET''))
          \<and> budget < sl_used s + sc_estimated_tokens e \<and> \<not> occ_mandatory (sc_candidate e))
     \<and> (\<forall>k. k \<notin> scored_key ` (set (sl_selected s) \<union> set left) \<longrightarrow> sl_output s k = output k)"

lemma undecided_key:
  assumes "distinct (map scored_key entries)" and "mset entries = mset xs + (add_mset e rest) + mset ys"
  shows "\<forall>x \<in> set xs \<union> set ys. scored_key x \<noteq> scored_key e"
proof -
  obtain rs where "mset rs = rest" by (metis ex_mset)
  with assms(2) have "mset entries = mset (xs @ e # rs @ ys)" by simp
  with assms(1) have "distinct (map scored_key (xs @ e # rs @ ys))"
    by (metis mset_eq_imp_distinct_iff mset_map)
  then have "scored_key e \<notin> scored_key ` (set xs \<union> set ys)" by auto
  then show ?thesis by (metis imageI)
qed

lemma select_entry_selecting:
  assumes "selecting budget output entries (add_mset e rest) left s" and "distinct (map scored_key entries)"
    and "sl_used s + sc_estimated_tokens e \<le> budget" and "budget < 2 ^ 64"
  shows "selecting budget output entries rest left (select_entry e s)"
proof -
  have "\<forall>x \<in> set (sl_selected s) \<union> set left. scored_key x \<noteq> scored_key e"
    using undecided_key [OF assms(2)] assms(1) by (simp add: selecting_def)
  then show ?thesis
    using assms(1,3,4) by (auto simp: selecting_def select_entry_def Let_def u64_add_small)
qed

lemma exclude_selecting:
  assumes "selecting budget output entries (add_mset e rest) left s" and "distinct (map scored_key entries)"
    and "budget < sl_used s + sc_estimated_tokens e" and "\<not> occ_mandatory (sc_candidate e)"
  shows "selecting budget output entries rest (left @ [e]) (exclude_expected ''TOTAL_BUDGET'' e s)"
proof -
  have "\<forall>x \<in> set (sl_selected s) \<union> set left. scored_key x \<noteq> scored_key e"
    using undecided_key [OF assms(2)] assms(1) by (simp add: selecting_def)
  then show ?thesis
    using assms(1,3,4) by (auto simp: selecting_def exclude_expected_def)
qed

lemma defer_selecting:
  "selecting budget output entries rest left s
    \<Longrightarrow> selecting budget output entries rest left (s\<lparr>sl_deferred := ds\<rparr>)"
  by (simp add: selecting_def)

lemma mandatory_selecting:
  assumes "distinct (map scored_key entries)" and "budget < 2 ^ 64"
    and "selecting budget output entries (mset es + rest) left s"
    and "sl_used s + sum_list (map sc_estimated_tokens es) \<le> budget"
  shows "selecting budget output entries rest left (fold select_entry es s)
    \<and> sl_deferred (fold select_entry es s) = sl_deferred s"
  using assms(3,4)
proof (induction es arbitrary: s)
  case (Cons e es)
  have "selecting budget output entries (mset es + rest) left (select_entry e s)"
    using select_entry_selecting [OF _ assms(1) _ assms(2)] Cons.prems by simp
  moreover have "sl_used (select_entry e s) = sl_used s + sc_estimated_tokens e"
    using Cons.prems(2) assms(2) by (simp add: select_entry_def Let_def u64_add_small)
  ultimately show ?case using Cons.IH [of "select_entry e s"] Cons.prems(2) by (simp add: select_entry_def Let_def)
qed simp

lemma first_pass_selecting:
  assumes "distinct (map scored_key entries)" and "budget < 2 ^ 64 - 1"
    and "list_all (\<lambda>e. \<not> occ_mandatory (sc_candidate e)) es"
    and "selecting budget output entries (mset es + mset (sl_deferred s)) left s"
  shows "\<exists>left'. selecting budget output entries (mset (sl_deferred (fold (first_pass budget caps) es s))) left'
    (fold (first_pass budget caps) es s)"
  using assms(3,4)
proof (induction es arbitrary: s left)
  case (Cons e es)
  have prems: "selecting budget output entries (add_mset e (mset es + mset (sl_deferred s))) left s"
    using Cons.prems(2) by simp
  let ?next = "first_pass budget caps e s"
  have "\<exists>left'. selecting budget output entries (mset es + mset (sl_deferred ?next)) left' ?next"
  proof (cases "budget < saturating_add (sl_used s) (sc_estimated_tokens e)")
    case True
    then have "?next = exclude_expected ''TOTAL_BUDGET'' e s" by (simp add: first_pass_def Let_def)
    then show ?thesis
      using exclude_selecting [OF prems assms(1)] True Cons.prems(1) saturating_add_less [OF assms(2)]
      by (auto simp: exclude_expected_def)
  next
    case False
    then have fits: "sl_used s + sc_estimated_tokens e \<le> budget" using saturating_add_less [OF assms(2)] by simp
    have "?next = select_entry e s \<or> ?next = s\<lparr>sl_deferred := sl_deferred s @ [e]\<rparr>"
      using False by (simp add: first_pass_def Let_def)
    then show ?thesis
    proof
      assume "?next = select_entry e s"
      moreover have "sl_deferred (select_entry e s) = sl_deferred s" by (simp add: select_entry_def Let_def)
      ultimately show ?thesis
        using select_entry_selecting [OF prems assms(1) fits] assms(2) by (metis diff_le_self less_le_trans)
    next
      assume "?next = s\<lparr>sl_deferred := sl_deferred s @ [e]\<rparr>"
      then show ?thesis using defer_selecting [OF prems] by auto
    qed
  qed
  then show ?case using Cons.IH Cons.prems(1) by auto
qed auto

lemma second_pass_selecting:
  assumes "distinct (map scored_key entries)" and "budget < 2 ^ 64 - 1"
    and "list_all (\<lambda>e. \<not> occ_mandatory (sc_candidate e)) es"
    and "selecting budget output entries (mset es) left s"
  shows "\<exists>left'. selecting budget output entries {#} left' (fold (second_pass budget) es s)"
  using assms(3,4)
proof (induction es arbitrary: s left)
  case (Cons e es)
  have prems: "selecting budget output entries (add_mset e (mset es)) left s" using Cons.prems(2) by simp
  have "\<exists>left'. selecting budget output entries (mset es) left' (second_pass budget e s)"
  proof (cases "budget < saturating_add (sl_used s) (sc_estimated_tokens e)")
    case True
    then have "budget < sl_used s + sc_estimated_tokens e" using saturating_add_less [OF assms(2)] by simp
    moreover have "\<not> occ_mandatory (sc_candidate e)" using Cons.prems(1) by simp
    ultimately have "selecting budget output entries (mset es) (left @ [e]) (exclude_expected ''TOTAL_BUDGET'' e s)"
      by (rule exclude_selecting [OF prems assms(1)])
    moreover have "second_pass budget e s = exclude_expected ''TOTAL_BUDGET'' e s"
      using True by (simp add: second_pass_def)
    ultimately show ?thesis by metis
  next
    case False
    then have "sl_used s + sc_estimated_tokens e \<le> budget" using saturating_add_less [OF assms(2)] by simp
    from select_entry_selecting [OF prems assms(1) this] assms(2) False show ?thesis
      by (auto simp: second_pass_def not_less)
  qed
  then show ?case using Cons.IH Cons.prems(1) by auto
qed auto

lemma first_pass_deferred:
  "set (sl_deferred (fold (first_pass budget caps) es s)) \<subseteq> set es \<union> set (sl_deferred s)"
proof (induction es arbitrary: s)
  case (Cons e es)
  have "set (sl_deferred (first_pass budget caps e s)) \<subseteq> insert e (set (sl_deferred s))"
    by (auto simp: first_pass_def Let_def exclude_expected_def select_entry_def)
  with Cons.IH [of "first_pass budget caps e s"] show ?case by auto
qed simp

lemma run_selection_selecting:
  assumes "distinct (map scored_key scored)" and "budget < 2 ^ 64 - 1"
    and "sum_list (map sc_estimated_tokens (filter (\<lambda>e. occ_mandatory (sc_candidate e)) scored)) \<le> budget"
  shows "\<exists>left. selecting budget output scored {#} left (run_selection budget caps scored output)"
proof -
  let ?mandatory = "filter (\<lambda>e. occ_mandatory (sc_candidate e)) scored"
  let ?optional = "filter (\<lambda>e. \<not> occ_mandatory (sc_candidate e)) scored"
  let ?start = "\<lparr>sl_output = output, sl_selected = [], sl_used = 0, sl_tier_used = replicate 5 0, sl_deferred = []\<rparr>"
  let ?s = "fold select_entry ?mandatory ?start"
  let ?t = "fold (first_pass budget caps) ?optional ?s"
  have "selecting budget output scored (mset ?mandatory + mset ?optional) [] ?start"
    by (simp add: selecting_def)
  from mandatory_selecting [OF assms(1) _ this] assms(2,3)
  have s: "selecting budget output scored (mset ?optional) [] ?s" "sl_deferred ?s = []" by auto
  have optional: "list_all (\<lambda>e. \<not> occ_mandatory (sc_candidate e)) ?optional" by (simp add: list_all_iff)
  obtain left where t: "selecting budget output scored (mset (sl_deferred ?t)) left ?t"
    using first_pass_selecting [OF assms(1,2) optional, where s = ?s and left = "[]" and caps = caps] s by auto
  have "set (sl_deferred ?t) \<subseteq> set ?optional"
    using first_pass_deferred [of budget caps ?optional ?s] s(2) by simp
  then have "list_all (\<lambda>e. \<not> occ_mandatory (sc_candidate e)) (sl_deferred ?t)" by (auto simp: list_all_iff)
  from second_pass_selecting [OF assms(1,2) this t] show ?thesis
    by (simp add: run_selection_def Let_def)
qed

lemma fold_map_updates:
  assumes "distinct (map g cs)"
  shows "c \<in> set cs \<Longrightarrow> fold (\<lambda>c m. case f c of None \<Rightarrow> m | Some v \<Rightarrow> m(g c \<mapsto> h v)) cs m (g c)
      = (case f c of None \<Rightarrow> m (g c) | Some v \<Rightarrow> Some (h v))"
    and "k \<notin> g ` set cs \<Longrightarrow> fold (\<lambda>c m. case f c of None \<Rightarrow> m | Some v \<Rightarrow> m(g c \<mapsto> h v)) cs m k = m k"
proof -
  let ?step = "\<lambda>c m. case f c of None \<Rightarrow> m | Some v \<Rightarrow> m(g c \<mapsto> h v)"
  have outside: "fold ?step cs m k = m k" if "k \<notin> g ` set cs" for cs m k
    using that by (induction cs arbitrary: m) (auto split: option.splits)
  then show "k \<notin> g ` set cs \<Longrightarrow> fold ?step cs m k = m k" .
  show "fold ?step cs m (g c) = (case f c of None \<Rightarrow> m (g c) | Some v \<Rightarrow> Some (h v))" if "c \<in> set cs"
    using that assms
  proof (induction cs arbitrary: m)
    case (Cons d ds)
    show ?case
    proof (cases "c = d")
      case True
      with Cons.prems outside [of "g d" ds] show ?thesis by (auto split: option.splits)
    next
      case False
      with Cons.prems have "c \<in> set ds" by simp
      moreover from this Cons.prems(2) have "g c \<noteq> g d"
        by (metis distinct.simps(2) imageI list.set_map list.simps(9))
      ultimately show ?thesis using Cons by (auto split: option.splits)
    qed
  qed simp
qed

section \<open>The result of a compilation\<close>

definition context_selected :: "ExpectedCompilation \<Rightarrow> OperationContextCandidate \<Rightarrow> bool" where
  "context_selected ec c \<longleftrightarrow> (\<exists>d. ec_disposition ec (candidate_key c) = Some d \<and> ed_exclusion d = None
     \<and> ed_estimated_tokens d = estimate_tokens (occ_content c))"

definition context_excluded :: "ExpectedCompilation \<Rightarrow> OperationContextCandidate \<Rightarrow> string \<Rightarrow> bool" where
  "context_excluded ec c reason \<longleftrightarrow> (\<exists>d. ec_disposition ec (candidate_key c) = Some d \<and> ed_exclusion d = Some reason)"

definition context_tokens :: "ExpectedCompilation \<Rightarrow> OperationContextCandidate list \<Rightarrow> nat" where
  "context_tokens ec candidates = sum_list (map (\<lambda>c. estimate_tokens (occ_content c)) (filter (context_selected ec) candidates))"

text \<open>
  The policy of a compilation: what the rules exclude is excluded for that reason, of the rest
  everything mandatory is selected, the selection keeps to the budget, and what is left out for
  the budget has no room beside the selection.
\<close>

definition compilation_ok :: "OperationContextCandidate list \<Rightarrow> string \<Rightarrow> nat \<Rightarrow> ExpectedCompilation \<Rightarrow> bool" where
  "compilation_ok candidates locality budget ec \<longleftrightarrow>
     context_tokens ec candidates \<le> budget
     \<and> (\<forall>c \<in> set candidates. case required_exclusion c locality of
          Some reason \<Rightarrow> context_excluded ec c reason
        | None \<Rightarrow> context_selected ec c
            \<or> (\<not> occ_mandatory c \<and> context_excluded ec c ''TOTAL_BUDGET''
               \<and> budget < context_tokens ec candidates + estimate_tokens (occ_content c)))
     \<and> mset (ec_selected_order ec) = mset (map candidate_key (filter (context_selected ec) candidates))
     \<and> mset (ec_exclusion_order ec) = mset (map candidate_key (filter (\<lambda>c. \<not> context_selected ec c) candidates))"

lemma mset_filter_map_filter:
  "mset (List.map_filter f xs) = mset (map (the \<circ> f) (filter (\<lambda>x. f x \<noteq> None) xs))"
  by (induction xs) (auto simp: List.map_filter_simps split: option.splits)

lemma excluded_keys_mset:
  "mset (excluded_keys candidates output) = mset (map candidate_key
     (filter (\<lambda>c. Option.bind (output (candidate_key c)) ed_exclusion \<noteq> None) candidates))"
proof -
  let ?entry = "\<lambda>c. map_option (\<lambda>reason. (occ_source_ref c, reason, candidate_key c))
            (Option.bind (output (candidate_key c)) ed_exclusion)"
  have "mset (excluded_keys candidates output) = image_mset (snd \<circ> snd) (mset (List.map_filter ?entry candidates))"
    unfolding excluded_keys_def mset_map mset_sort ..
  also have "\<dots> = mset (map ((snd \<circ> snd) \<circ> (the \<circ> ?entry)) (filter (\<lambda>c. ?entry c \<noteq> None) candidates))"
    by (simp add: mset_filter_map_filter multiset.map_comp)
  also have "map ((snd \<circ> snd) \<circ> (the \<circ> ?entry)) (filter (\<lambda>c. ?entry c \<noteq> None) candidates)
      = map candidate_key (filter (\<lambda>c. ?entry c \<noteq> None) candidates)"
    by (rule map_cong) auto
  finally show ?thesis by simp
qed

text \<open>What a compilation that succeeds is made of.\<close>

lemma compilation_cases:
  assumes "expected_compilation rnd candidates locality operation_type budget = Some (Inr ec)"
  obtains scored caps s where "mset (map sc_candidate scored) = mset (filter (\<lambda>c. required_exclusion c locality = None) candidates)"
    and "\<forall>e \<in> set scored. sc_estimated_tokens e = estimate_tokens (occ_content (sc_candidate e))"
    and "sum_list (map sc_estimated_tokens (filter (\<lambda>e. occ_mandatory (sc_candidate e)) scored)) \<le> budget"
    and "s = run_selection budget caps scored (policy_output candidates locality)"
    and "ec_disposition ec = sl_output s"
    and "ec_selected_order ec = map scored_key (sort_key selected_before (sl_selected s))"
    and "ec_exclusion_order ec = excluded_keys candidates (sl_output s)"
proof -
  let ?eligible = "filter (\<lambda>c. required_exclusion c locality = None) candidates"
  obtain fractions scored mandatory_tokens where fractions: "tier_fractions operation_type = Inr fractions"
    and scored: "map_opt (score_candidate rnd) ?eligible = Some scored"
    and sum: "checked_sum (map sc_estimated_tokens (filter (\<lambda>e. occ_mandatory (sc_candidate e))
      (sort_key scored_before scored))) 0 = Some mandatory_tokens" "mandatory_tokens \<le> budget"
    and ec: "ec = (let s = run_selection budget (tier_caps rnd budget fractions) (sort_key scored_before scored)
        (policy_output candidates locality) in
        \<lparr>ec_disposition = sl_output s, ec_selected_order = map scored_key (sort_key selected_before (sl_selected s)),
         ec_exclusion_order = excluded_keys candidates (sl_output s)\<rparr>)"
    using assms by (auto simp: expected_compilation_def Let_def split: sum.splits option.splits if_splits)
  have pairs: "list_all2 (\<lambda>c e. score_candidate rnd c = Some e) ?eligible scored"
    by (rule map_opt_all2 [OF scored])
  then have eligible: "map sc_candidate scored = ?eligible"
    by (induction rule: list_all2_induct) (auto dest: score_candidate_Some)
  from pairs have tokens: "\<forall>e \<in> set scored. sc_estimated_tokens e = estimate_tokens (occ_content (sc_candidate e))"
    by (induction rule: list_all2_induct) (auto dest: score_candidate_Some)
  show thesis
  proof (rule that)
    show "mset (map sc_candidate (sort_key scored_before scored)) = mset ?eligible"
      unfolding mset_map mset_sort eligible [symmetric] ..
    show "sum_list (map sc_estimated_tokens (filter (\<lambda>e. occ_mandatory (sc_candidate e)) (sort_key scored_before scored)))
        \<le> budget"
      using checked_sum_Some [OF sum(1)] sum(2) by simp
    show "run_selection budget (tier_caps rnd budget fractions) (sort_key scored_before scored)
        (policy_output candidates locality)
      = run_selection budget (tier_caps rnd budget fractions) (sort_key scored_before scored)
        (policy_output candidates locality)" ..
  qed (use tokens ec in \<open>simp_all add: Let_def\<close>)
qed

lemma distinct_scored:
  assumes "distinct (map candidate_key candidates)"
    and "mset (map sc_candidate scored) = mset (filter P candidates)"
  shows "distinct (map scored_key scored)"
proof -
  have "distinct (map candidate_key (filter P candidates))" by (rule distinct_map_filter [OF assms(1)])
  moreover have "mset (map candidate_key (map sc_candidate scored)) = mset (map candidate_key (filter P candidates))"
    using assms(2) by (metis mset_map)
  ultimately have "distinct (map candidate_key (map sc_candidate scored))" by (metis mset_eq_imp_distinct_iff)
  then show ?thesis by (simp add: comp_def)
qed

lemma compilation_parts:
  assumes "distinct (map candidate_key candidates)" and "budget < 2 ^ 64 - 1"
    and "expected_compilation rnd candidates locality operation_type budget = Some (Inr ec)"
  obtains selected left where
    "mset (filter (\<lambda>c. required_exclusion c locality = None) candidates) = mset (map sc_candidate (selected @ left))"
    and "\<forall>e \<in> set (selected @ left). sc_estimated_tokens e = estimate_tokens (occ_content (sc_candidate e))"
    and "sum_list (map sc_estimated_tokens selected) \<le> budget"
    and "\<forall>e \<in> set selected. ec_disposition ec (scored_key e) = Some (disposition_of e None)"
    and "\<forall>e \<in> set left. ec_disposition ec (scored_key e) = Some (disposition_of e (Some ''TOTAL_BUDGET''))
      \<and> budget < sum_list (map sc_estimated_tokens selected) + sc_estimated_tokens e
      \<and> \<not> occ_mandatory (sc_candidate e)"
    and "\<forall>k. k \<notin> scored_key ` set (selected @ left) \<longrightarrow> ec_disposition ec k = policy_output candidates locality k"
    and "ec_selected_order ec = map scored_key (sort_key selected_before selected)"
    and "ec_exclusion_order ec = excluded_keys candidates (ec_disposition ec)"
proof (rule compilation_cases [OF assms(3)])
  fix scored caps s
  assume scored: "mset (map sc_candidate scored) = mset (filter (\<lambda>c. required_exclusion c locality = None) candidates)"
    and tokens: "\<forall>e \<in> set scored. sc_estimated_tokens e = estimate_tokens (occ_content (sc_candidate e))"
    and fits: "sum_list (map sc_estimated_tokens (filter (\<lambda>e. occ_mandatory (sc_candidate e)) scored)) \<le> budget"
    and s: "s = run_selection budget caps scored (policy_output candidates locality)"
    and ec: "ec_disposition ec = sl_output s"
      "ec_selected_order ec = map scored_key (sort_key selected_before (sl_selected s))"
      "ec_exclusion_order ec = excluded_keys candidates (sl_output s)"
  obtain left where left: "selecting budget (policy_output candidates locality) scored {#} left s"
    using run_selection_selecting [OF distinct_scored [OF assms(1) scored] assms(2) fits] s by metis
  then have parts: "mset scored = mset (sl_selected s @ left)" by (simp add: selecting_def)
  then have members: "set scored = set (sl_selected s @ left)" by (rule mset_eq_setD)
  show thesis
  proof (rule that [of "sl_selected s" left])
    show "mset (filter (\<lambda>c. required_exclusion c locality = None) candidates) = mset (map sc_candidate (sl_selected s @ left))"
      unfolding scored [symmetric] mset_map parts ..
  qed (use left tokens ec members in \<open>simp_all add: selecting_def\<close>)
qed

lemma policy_output_key:
  assumes "distinct (map candidate_key candidates)" and "c \<in> set candidates"
  shows "policy_output candidates locality (candidate_key c)
    = map_option (\<lambda>reason. \<lparr>ed_estimated_tokens = 0, ed_score = 0, ed_exclusion = Some reason\<rparr>) (required_exclusion c locality)"
  unfolding policy_output_def
  using fold_map_updates(1) [OF assms, where f = "\<lambda>c. required_exclusion c locality" and m = Map.empty
      and h = "\<lambda>reason. \<lparr>ed_estimated_tokens = 0, ed_score = 0, ed_exclusion = Some reason\<rparr>"]
  by (simp split: option.splits)

lemma excluded_not_selected: "context_excluded ec c reason \<Longrightarrow> \<not> context_selected ec c"
  by (auto simp: context_excluded_def context_selected_def)

text \<open>The candidates that are selected, when each one is known to be decided one way or the other.\<close>

lemma selected_candidates:
  assumes "mset (filter eligible candidates) = image_mset sc_candidate (mset selected + mset left)"
    and "\<And>c. c \<in> set candidates \<Longrightarrow> context_selected ec c \<Longrightarrow> eligible c"
    and "\<forall>e \<in> set selected. context_selected ec (sc_candidate e)"
    and "\<forall>e \<in> set left. \<not> context_selected ec (sc_candidate e)"
  shows "mset (filter (context_selected ec) candidates) = image_mset sc_candidate (mset selected)"
proof -
  have "filter (context_selected ec) candidates = filter (context_selected ec) (filter eligible candidates)"
    using assms(2) by (auto intro!: filter_cong)
  then have "mset (filter (context_selected ec) candidates)
      = filter_mset (context_selected ec) (mset (filter eligible candidates))"
    by (simp only: mset_filter)
  also have "\<dots> = filter_mset (context_selected ec) (image_mset sc_candidate (mset selected + mset left))"
    by (simp only: assms(1))
  also have "\<dots> = image_mset sc_candidate (mset (filter (\<lambda>e. context_selected ec (sc_candidate e)) selected)
      + mset (filter (\<lambda>e. context_selected ec (sc_candidate e)) left))"
    by (simp add: filter_mset_image_mset)
  also have "filter (\<lambda>e. context_selected ec (sc_candidate e)) selected = selected" using assms(3) by simp
  also have "filter (\<lambda>e. context_selected ec (sc_candidate e)) left = []" using assms(4) by (simp add: filter_empty_conv)
  finally show ?thesis by simp
qed

lemma selected_tokens:
  assumes "mset (filter (context_selected ec) candidates) = image_mset sc_candidate (mset selected)"
    and "\<forall>e \<in> set selected. sc_estimated_tokens e = estimate_tokens (occ_content (sc_candidate e))"
  shows "context_tokens ec candidates = sum_list (map sc_estimated_tokens selected)"
proof -
  have "context_tokens ec candidates = sum_mset (image_mset (\<lambda>c. estimate_tokens (occ_content c))
      (mset (filter (context_selected ec) candidates)))"
    unfolding context_tokens_def mset_map [symmetric] sum_mset_sum_list ..
  also have "\<dots> = sum_mset (mset (map (\<lambda>e. estimate_tokens (occ_content (sc_candidate e))) selected))"
    by (simp only: assms(1) multiset.map_comp comp_def mset_map)
  also have "map (\<lambda>e. estimate_tokens (occ_content (sc_candidate e))) selected = map sc_estimated_tokens selected"
    using assms(2) by simp
  finally show ?thesis by (simp only: sum_mset_sum_list)
qed

lemma compilation_decides:
  assumes "distinct (map candidate_key candidates)" and "budget < 2 ^ 64 - 1"
    and "expected_compilation rnd candidates locality operation_type budget = Some (Inr ec)"
  obtains selected left where
    "set (filter (\<lambda>c. required_exclusion c locality = None) candidates) = sc_candidate ` (set selected \<union> set left)"
    and "\<forall>c \<in> set candidates. \<forall>reason. required_exclusion c locality = Some reason \<longrightarrow> context_excluded ec c reason"
    and "\<forall>e \<in> set selected. context_selected ec (sc_candidate e)"
    and "\<forall>e \<in> set left. context_excluded ec (sc_candidate e) ''TOTAL_BUDGET'' \<and> \<not> occ_mandatory (sc_candidate e)
      \<and> budget < context_tokens ec candidates + estimate_tokens (occ_content (sc_candidate e))"
    and "mset (filter (context_selected ec) candidates) = image_mset sc_candidate (mset selected)"
    and "context_tokens ec candidates \<le> budget"
    and "ec_selected_order ec = map scored_key (sort_key selected_before selected)"
    and "ec_exclusion_order ec = excluded_keys candidates (ec_disposition ec)"
proof (rule compilation_parts [OF assms])
  fix selected left
  let ?eligible = "\<lambda>c. required_exclusion c locality = None"
  assume parts: "mset (filter ?eligible candidates) = mset (map sc_candidate (selected @ left))"
    and tokens: "\<forall>e \<in> set (selected @ left). sc_estimated_tokens e = estimate_tokens (occ_content (sc_candidate e))"
    and fits: "sum_list (map sc_estimated_tokens selected) \<le> budget"
    and sel: "\<forall>e \<in> set selected. ec_disposition ec (scored_key e) = Some (disposition_of e None)"
    and lft: "\<forall>e \<in> set left. ec_disposition ec (scored_key e) = Some (disposition_of e (Some ''TOTAL_BUDGET''))
      \<and> budget < sum_list (map sc_estimated_tokens selected) + sc_estimated_tokens e \<and> \<not> occ_mandatory (sc_candidate e)"
    and pol: "\<forall>k. k \<notin> scored_key ` set (selected @ left) \<longrightarrow> ec_disposition ec k = policy_output candidates locality k"
    and orders: "ec_selected_order ec = map scored_key (sort_key selected_before selected)"
      "ec_exclusion_order ec = excluded_keys candidates (ec_disposition ec)"
  have eligible: "set (filter ?eligible candidates) = sc_candidate ` (set selected \<union> set left)"
    using mset_eq_setD [OF parts] by auto
  have excluded: "context_excluded ec c reason" if c: "c \<in> set candidates" "required_exclusion c locality = Some reason" for c reason
  proof -
    have "candidate_key c \<notin> candidate_key ` set (filter ?eligible candidates)"
      using assms(1) c by (auto simp: distinct_map inj_on_def)
    then have "candidate_key c \<notin> scored_key ` set (selected @ left)" using eligible by auto
    with pol policy_output_key [OF assms(1) c(1), of locality] c(2) show ?thesis by (simp add: context_excluded_def)
  qed
  have eligible_selected: "?eligible c" if "c \<in> set candidates" "context_selected ec c" for c
    using that excluded excluded_not_selected by (metis option.exhaust)
  have is_sel: "\<forall>e \<in> set selected. context_selected ec (sc_candidate e)"
    using sel tokens by (simp add: context_selected_def disposition_of_def)
  have is_left: "\<forall>e \<in> set left. context_excluded ec (sc_candidate e) ''TOTAL_BUDGET''"
    using lft by (simp add: context_excluded_def disposition_of_def)
  have chosen: "mset (filter (context_selected ec) candidates) = image_mset sc_candidate (mset selected)"
    by (rule selected_candidates [where eligible = ?eligible and left = left])
      (use parts eligible_selected is_sel is_left excluded_not_selected in auto)
  have used: "context_tokens ec candidates = sum_list (map sc_estimated_tokens selected)"
    using selected_tokens [OF chosen] tokens by simp
  show thesis
    by (rule that [of selected left]) (use eligible excluded is_sel is_left lft tokens fits chosen orders used in simp_all)
qed

lemma compilation_is_ok:
  assumes "distinct (map candidate_key candidates)" and "budget < 2 ^ 64 - 1"
    and "expected_compilation rnd candidates locality operation_type budget = Some (Inr ec)"
  shows "compilation_ok candidates locality budget ec"
proof (rule compilation_decides [OF assms])
  fix selected left
  assume eligible: "set (filter (\<lambda>c. required_exclusion c locality = None) candidates) = sc_candidate ` (set selected \<union> set left)"
    and excluded: "\<forall>c \<in> set candidates. \<forall>reason. required_exclusion c locality = Some reason \<longrightarrow> context_excluded ec c reason"
    and sel: "\<forall>e \<in> set selected. context_selected ec (sc_candidate e)"
    and lft: "\<forall>e \<in> set left. context_excluded ec (sc_candidate e) ''TOTAL_BUDGET'' \<and> \<not> occ_mandatory (sc_candidate e)
      \<and> budget < context_tokens ec candidates + estimate_tokens (occ_content (sc_candidate e))"
    and chosen: "mset (filter (context_selected ec) candidates) = image_mset sc_candidate (mset selected)"
    and fits: "context_tokens ec candidates \<le> budget"
    and orders: "ec_selected_order ec = map scored_key (sort_key selected_before selected)"
      "ec_exclusion_order ec = excluded_keys candidates (ec_disposition ec)"
  have decided: "case required_exclusion c locality of Some reason \<Rightarrow> context_excluded ec c reason
      | None \<Rightarrow> context_selected ec c \<or> (\<not> occ_mandatory c \<and> context_excluded ec c ''TOTAL_BUDGET''
          \<and> budget < context_tokens ec candidates + estimate_tokens (occ_content c))" if "c \<in> set candidates" for c
  proof (cases "required_exclusion c locality")
    case None
    with that have "c \<in> sc_candidate ` (set selected \<union> set left)" using eligible by auto
    with None sel lft show ?thesis by auto
  qed (use excluded that in simp)
  have "Option.bind (ec_disposition ec (candidate_key c)) ed_exclusion \<noteq> None \<longleftrightarrow> \<not> context_selected ec c"
    if "c \<in> set candidates" for c
  proof (cases "context_selected ec c")
    case False
    with decided [OF that] obtain reason where "context_excluded ec c reason" by (auto split: option.splits)
    with False show ?thesis by (auto simp: context_excluded_def)
  qed (auto simp: context_selected_def)
  then have "filter (\<lambda>c. Option.bind (ec_disposition ec (candidate_key c)) ed_exclusion \<noteq> None) candidates
      = filter (\<lambda>c. \<not> context_selected ec c) candidates"
    by (rule filter_cong [OF refl])
  then have "mset (ec_exclusion_order ec) = mset (map candidate_key (filter (\<lambda>c. \<not> context_selected ec c) candidates))"
    by (simp only: orders(2) excluded_keys_mset)
  moreover have "mset (ec_selected_order ec) = mset (map candidate_key (filter (context_selected ec) candidates))"
    by (simp only: orders(1) mset_map mset_sort chosen multiset.map_comp comp_def)
  ultimately show "compilation_ok candidates locality budget ec"
    using fits decided by (simp add: compilation_ok_def)
qed

text \<open>
  C13. The context that is sent with a model request respects policy and budget. When the
  compilation succeeds, archived, rejected and deleted sources, drafts nobody selected and, for
  a remote provider, everything marked never to be sent is excluded for that reason; every
  other mandatory source is selected; the estimated tokens of the selection stay within the
  budget; and a source is left out for the budget only if there is no room for it beside the
  selection. Each candidate is in exactly one of the two lists.
\<close>

theorem compiled_context_follows_policy:
  assumes "distinct (map candidate_key candidates)" and "budget < 2 ^ 64 - 1"
    and "expected_compilation rnd candidates locality operation_type budget = Some (Inr ec)"
  shows "compilation_ok candidates locality budget ec"
  by (rule compilation_is_ok [OF assms])

text \<open>A target, a style sample that must stay local and a neighbour that does not fit.\<close>

definition sample_candidate :: "string \<Rightarrow> string \<Rightarrow> string \<Rightarrow> string \<Rightarrow> bool \<Rightarrow> OperationContextCandidate" where
  "sample_candidate i tier sensitivity content mandatory =
     \<lparr>occ_id = i, occ_source_ref = i, occ_source_hash = ''h'', occ_source_commit_id = ''c'', occ_tier = tier,
      occ_status = ''canonical'', occ_authority = ''user_confirmed'', occ_sensitivity = sensitivity,
      occ_render_mode = ''verbatim'', occ_reason_codes = [''R''], occ_content = content, occ_mandatory = mandatory,
      occ_selected_by_user = mandatory,
      occ_signals = \<lparr>ocs_relevance = 1, ocs_structural_proximity = 1, ocs_freshness = 1, ocs_risk = 0\<rparr>\<rparr>"

definition sample_candidates :: "OperationContextCandidate list" where
  "sample_candidates =
     [sample_candidate ''t'' ''L0_TARGET'' ''local'' ''abcd'' True,
      sample_candidate ''s'' ''L4_STYLE_GLOBAL'' ''never_send'' ''x'' False,
      sample_candidate ''l'' ''L1_LOCAL'' ''local'' ''abcdef'' False,
      sample_candidate ''m'' ''L1_LOCAL'' ''local'' ''a'' False]"

definition sample_compilation :: "(string + ExpectedCompilation) option" where
  "sample_compilation = expected_compilation (\<lambda>x. x) sample_candidates ''remote'' ''polish'' 4"

theorem compiled_context_follows_policy_witness:
  "\<exists>ec. sample_compilation = Some (Inr ec) \<and> compilation_ok sample_candidates ''remote'' 4 ec
     \<and> ec_selected_order ec = map (\<lambda>i. identity i ''h'') [''t'', ''m'']
     \<and> ec_exclusion_order ec = map (\<lambda>i. identity i ''h'') [''l'', ''s'']"
proof -
  have run: "map_option (map_sum (\<lambda>e. e) (\<lambda>ec. (ec_selected_order ec, ec_exclusion_order ec))) sample_compilation
      = Some (Inr (map (\<lambda>i. identity i ''h'') [''t'', ''m''], map (\<lambda>i. identity i ''h'') [''l'', ''s'']))"
    by code_simp
  then obtain r where r: "sample_compilation = Some r" by (cases sample_compilation) auto
  from run [unfolded r] obtain ec where "r = Inr ec" by (cases r) auto
  with r have ec: "sample_compilation = Some (Inr ec)" by simp
  have "distinct (map candidate_key sample_candidates)" by code_simp
  from compiled_context_follows_policy [OF this _ ec [unfolded sample_compilation_def]]
  have "compilation_ok sample_candidates ''remote'' 4 ec" by simp
  moreover from run have "ec_selected_order ec = map (\<lambda>i. identity i ''h'') [''t'', ''m'']
      \<and> ec_exclusion_order ec = map (\<lambda>i. identity i ''h'') [''l'', ''s'']"
    unfolding ec by simp
  ultimately show ?thesis using ec by blast
qed

end
