(* ===== verification/OperationContext.thy ===== *)
theory OperationContext
  imports ContextPacket Projects
begin

text \<open>
  The candidates for the context of an operation (\<open>operation_context.rs\<close>, with
  \<open>summary_context\<close> of \<open>summary_worker.rs\<close> and \<open>knowledge_context\<close> and \<open>list_style_samples\<close> of
  \<open>workspace_commands_items.rs\<close>): the target of the operation, its neighbourhood in the document,
  summaries, knowledge and style. Positions in a text are counted in UTF-16 units by the
  desktop and in bytes here; a window never cuts a character. Slices of a text are taken at the
  boundaries that \<open>utf16_to_byte\<close> returns. The Chinese labels are written as UTF-8 bytes.
\<close>

section \<open>UTF-16 positions and windows\<close>

definition LOCAL_CONTEXT_UTF16_UNITS :: nat where "LOCAL_CONTEXT_UTF16_UNITS = 2000"

text \<open>\<open>char::len_utf16\<close>: a character of four bytes is a surrogate pair.\<close>

definition utf16_units :: "string \<Rightarrow> nat" where
  "utf16_units c = (if length c = 4 then 2 else 1)"

abbreviation units :: "string list \<Rightarrow> nat" where
  "units cs \<equiv> sum_list (map utf16_units cs)"

fun utf16_scan :: "string list \<Rightarrow> nat \<Rightarrow> nat \<Rightarrow> nat \<Rightarrow> nat option" where
  "utf16_scan [] byte utf16 target = (if utf16 = target then Some byte else None)"
| "utf16_scan (c # cs) byte utf16 target =
     (if utf16 = target then Some byte
      else if utf16 + utf16_units c > target then None
      else utf16_scan cs (byte + length c) (utf16 + utf16_units c) target)"

definition utf16_to_byte :: "string \<Rightarrow> nat \<Rightarrow> nat option" where
  "utf16_to_byte v target = (if target = 0 then Some 0 else utf16_scan (utf8_chars v) 0 0 target)"

fun window :: "nat \<Rightarrow> string list \<Rightarrow> string list" where
  "window maximum [] = []"
| "window maximum (c # cs) =
     (if utf16_units c > maximum then [] else c # window (maximum - utf16_units c) cs)"

definition prefix_window :: "string \<Rightarrow> nat \<Rightarrow> nat \<Rightarrow> string" where
  "prefix_window v stop maximum = concat (rev (window maximum (rev (utf8_chars (take stop v)))))"

definition suffix_window :: "string \<Rightarrow> nat \<Rightarrow> nat \<Rightarrow> string" where
  "suffix_window v start maximum = concat (window maximum (utf8_chars (drop start v)))"

section \<open>Candidates\<close>

record OperationContextSpec =
  ocx_base_commit_id :: string
  ocx_target_block_id :: string
  ocx_target_block_revision :: int
  ocx_target_block_hash :: string
  ocx_from :: nat
  ocx_to :: nat

text \<open>The literals of the signals are doubles.\<close>

definition signals :: "(rat \<Rightarrow> rat) \<Rightarrow> rat \<Rightarrow> rat \<Rightarrow> rat \<Rightarrow> rat \<Rightarrow> OperationContextSignals" where
  "signals rnd relevance proximity freshness risk =
     \<lparr>ocs_relevance = rnd relevance, ocs_structural_proximity = rnd proximity, ocs_freshness = rnd freshness,
      ocs_risk = rnd risk\<rparr>"

text \<open>What varies between the candidates.\<close>

record CandidateOrigin =
  cor_id :: string
  cor_source_ref :: string
  cor_commit_id :: string
  cor_tier :: string
  cor_status :: string
  cor_authority :: string
  cor_sensitivity :: string
  cor_render_mode :: string
  cor_reason :: "string list"

definition candidate ::
  "(string \<Rightarrow> string) \<Rightarrow> CandidateOrigin \<Rightarrow> string \<Rightarrow> bool \<Rightarrow> bool \<Rightarrow> OperationContextSignals
     \<Rightarrow> OperationContextCandidate" where
  "candidate sha origin content mandatory selected_by_user s =
     \<lparr>occ_id = cor_id origin, occ_source_ref = cor_source_ref origin, occ_source_hash = sha content,
      occ_source_commit_id = cor_commit_id origin, occ_tier = cor_tier origin, occ_status = cor_status origin,
      occ_authority = cor_authority origin, occ_sensitivity = cor_sensitivity origin,
      occ_render_mode = cor_render_mode origin, occ_reason_codes = cor_reason origin, occ_content = content,
      occ_mandatory = mandatory, occ_selected_by_user = selected_by_user, occ_signals = s\<rparr>"

definition store_result :: "'a StoreResult \<Rightarrow> WorkspaceCommandError + 'a" where
  "store_result r = map_sum WorkspaceStore (\<lambda>x. x) r"

definition revision_suffix :: "string \<Rightarrow> int \<Rightarrow> string" where
  "revision_suffix i revision = i @ ''-r'' @ show_int revision"

definition block_ref :: "BlockRecord \<Rightarrow> string" where
  "block_ref b = ''block:'' @ blk_id b @ ''@r'' @ show_int (blk_revision b)"

section \<open>Summaries\<close>

definition summary_candidate :: "SummaryRecord \<Rightarrow> string \<Rightarrow> string \<Rightarrow> CandidateOrigin" where
  "summary_candidate r tier reason =
     \<lparr>cor_id = ''summary-'' @ sum_scope_type r @ ''-'' @ revision_suffix (sum_scope_id r) (sum_revision r),
      cor_source_ref = ''summary:'' @ sum_scope_type r @ '':'' @ sum_scope_id r @ ''@'' @ sum_source_commit_id r,
      cor_commit_id = sum_source_commit_id r, cor_tier = tier, cor_status = ''canonical'',
      cor_authority = (if sum_provider_id r = ''optimizer-local'' then ''source_derived'' else ''model_inferred''),
      cor_sensitivity = ''local_sensitive'', cor_render_mode = ''summary'', cor_reason = [reason]\<rparr>"

lemma fewer_unvisited:
  assumes "find_by doc_id i documents = Some d" and "i \<notin> set visited"
  shows "length (filter (\<lambda>d. doc_id d \<noteq> i \<and> doc_id d \<notin> set visited) documents)
    < length (filter (\<lambda>d. doc_id d \<notin> set visited) documents)"
proof -
  have "d \<in> set documents" "doc_id d = i" using assms(1) by (auto simp: find_by_Some_iff dest: find_by_SomeD)
  then have "length (filter (\<lambda>d. doc_id d \<noteq> i) (filter (\<lambda>d. doc_id d \<notin> set visited) documents))
      < length (filter (\<lambda>d. doc_id d \<notin> set visited) documents)"
    using assms(2) by (intro length_filter_less [of d]) auto
  then show ?thesis by (simp add: conj_commute)
qed

text \<open>
  The walk from the document of the target to its root, each step with the summary of the
  document; \<open>visited\<close> guards against a cycle. It ends because a step visits a new document.
\<close>

function summary_walk ::
  "Database \<Rightarrow> string \<Rightarrow> DocumentRecord list \<Rightarrow> string list \<Rightarrow> string option
     \<Rightarrow> WorkspaceCommandError + (CandidateOrigin \<times> string) list" where
  "summary_walk db project_id documents visited None = Inr []"
| "summary_walk db project_id documents visited (Some i) =
     (if i \<in> set visited then Inl (WorkspaceValidation ''Document hierarchy contains a cycle'')
      else case find_by doc_id i documents of
        None \<Rightarrow> Inl (WorkspaceValidation ''Summary context target document is not active'')
      | Some d \<Rightarrow>
          rbind (store_result (get_ready_summary_record project_id ''document'' i db)) (\<lambda>r.
          rbind (summary_walk db project_id documents (i # visited) (doc_parent_id d)) (\<lambda>later.
          Inr ((case r of None \<Rightarrow> []
                | Some s \<Rightarrow> [(summary_candidate s ''L2_STRUCTURAL''
                     (if visited = [] then ''CURRENT_DOCUMENT_SUMMARY'' else ''ANCESTOR_DOCUMENT_SUMMARY''),
                     sum_summary s)]) @ later))))"
  by pat_completeness auto

termination
  by (relation "measure (\<lambda>(db, project_id, documents, visited, cursor).
        length (filter (\<lambda>d. doc_id d \<notin> set visited) documents))")
    (auto dest: fewer_unvisited)

text \<open>The checks that the two context queries of the workspace repeat.\<close>

definition context_target ::
  "(string \<Rightarrow> WorkspaceCommandError) \<Rightarrow> string \<Rightarrow> Database \<Rightarrow> string \<Rightarrow> OperationContextSpec
     \<Rightarrow> WorkspaceCommandError + (ProjectRecord \<times> BlockRecord)" where
  "context_target failed name db project_id spec =
     rbind (store_result (get_project project_id db)) (\<lambda>project.
     rbind (require (\<not> blank (ocx_base_commit_id spec) \<and> ocx_base_commit_id spec = pj_head_commit_id project)
              (failed (name @ '' context must bind to the current project HEAD''))) (\<lambda>_.
     rbind (store_result (get_project_block project_id (ocx_target_block_id spec) db)) (\<lambda>target.
     rbind (require (blk_revision target = ocx_target_block_revision spec
                      \<and> blk_content_hash target = ocx_target_block_hash spec)
              (failed (name @ '' context target changed before collection''))) (\<lambda>_.
     Inr (project, target)))))"

definition summary_context ::
  "Database \<Rightarrow> string \<Rightarrow> OperationContextSpec \<Rightarrow> WorkspaceCommandError + (CandidateOrigin \<times> string) list" where
  "summary_context db project_id spec =
     rbind (context_target WorkspaceValidation ''Summary'' db project_id spec) (\<lambda>(project, target).
     rbind (store_result (list_documents project_id db)) (\<lambda>documents.
     rbind (summary_walk db project_id documents [] (Some (blk_document_id target))) (\<lambda>walk.
     rbind (store_result (get_ready_summary_record project_id ''project'' project_id db)) (\<lambda>r.
     Inr (walk @ (case r of None \<Rightarrow> []
        | Some s \<Rightarrow> [(summary_candidate s ''L3_KNOWLEDGE'' ''PROJECT_SUMMARY'', sum_summary s)]))))))"

section \<open>Knowledge and style\<close>

definition valid_stored_knowledge :: "(string \<Rightarrow> string) \<Rightarrow> KnowledgeItemRecord \<Rightarrow> bool" where
  "valid_stored_knowledge sha k \<longleftrightarrow>
     \<not> blank (kn_id k) \<and> \<not> blank (kn_project_id k) \<and> \<not> blank (kn_title k) \<and> \<not> blank (kn_content k)
     \<and> \<not> blank (kn_created_at k) \<and> \<not> blank (kn_updated_at k) \<and> kn_revision k \<ge> 0
     \<and> kn_content_hash k = sha (kn_content k)
     \<and> kn_status k \<in> set [''canonical'', ''archived'', ''rejected'']
     \<and> kn_authority k \<in> set [''user_confirmed'', ''source_derived'', ''model_inferred'', ''external_untrusted'']
     \<and> kn_sensitivity k \<in> set [''public'', ''local'', ''local_sensitive'', ''never_send'']
     \<and> (if kn_kind k = ''fact'' then kn_severity k = None
        else kn_kind k = ''constraint'' \<and> kn_severity k \<in> set [Some ''hard'', Some ''soft''])"

definition validate_stored_knowledge_item ::
  "(string \<Rightarrow> string) \<Rightarrow> KnowledgeItemRecord \<Rightarrow> WorkspaceCommandError + unit" where
  "validate_stored_knowledge_item sha k =
     require (valid_stored_knowledge sha k)
       (WorkspaceStore (InvariantViolation ''stored knowledge policy is invalid''))"

definition knowledge_label :: "KnowledgeItemRecord \<Rightarrow> (string \<times> string) option" where
  "knowledge_label k =
     (if kn_kind k = ''fact'' \<and> kn_severity k = None
      then Some ([CHR 0xE4, CHR 0xBA, CHR 0x8B, CHR 0xE5, CHR 0xAE, CHR 0x9E], ''CANONICAL_FACT'')
      else if kn_kind k = ''constraint'' \<and> kn_severity k = Some ''hard''
      then Some ([CHR 0xE7, CHR 0xA1, CHR 0xAC, CHR 0xE7, CHR 0xBA, CHR 0xA6, CHR 0xE6, CHR 0x9D, CHR 0x9F],
        ''PROJECT_HARD_CONSTRAINT'')
      else if kn_kind k = ''constraint'' \<and> kn_severity k = Some ''soft''
      then Some ([CHR 0xE8, CHR 0xBD, CHR 0xAF, CHR 0xE7, CHR 0xBA, CHR 0xA6, CHR 0xE6, CHR 0x9D, CHR 0x9F],
        ''PROJECT_SOFT_CONSTRAINT'')
      else None)"

definition knowledge_context_candidate ::
  "(string \<Rightarrow> string) \<Rightarrow> string \<Rightarrow> KnowledgeItemRecord \<Rightarrow> WorkspaceCommandError + CandidateOrigin \<times> string" where
  "knowledge_context_candidate sha commit_id k =
     rbind (validate_stored_knowledge_item sha k) (\<lambda>_.
     rbind (ok_or (knowledge_label k) (WorkspaceStore (InvariantViolation ''stored knowledge type is invalid''))) (\<lambda>(label, reason).
     Inr (\<lparr>cor_id = ''knowledge-'' @ revision_suffix (kn_id k) (kn_revision k),
           cor_source_ref = ''knowledge:'' @ kn_kind k @ '':'' @ kn_id k @ ''@r'' @ show_int (kn_revision k),
           cor_commit_id = commit_id, cor_tier = ''L3_KNOWLEDGE'', cor_status = kn_status k,
           cor_authority = kn_authority k, cor_sensitivity = kn_sensitivity k, cor_render_mode = ''constraint'',
           cor_reason = [reason]\<rparr>,
          label @ [CHR 0xE3, CHR 0x80, CHR 0x90] @ kn_title k
            @ [CHR 0xE3, CHR 0x80, CHR 0x91, CHR 0xEF, CHR 0xBC, CHR 0x9A] @ kn_content k)))"

definition knowledge_context ::
  "(string \<Rightarrow> string) \<Rightarrow> Database \<Rightarrow> string \<Rightarrow> OperationContextSpec
     \<Rightarrow> WorkspaceCommandError + (CandidateOrigin \<times> string) list" where
  "knowledge_context sha db project_id spec =
     rbind (context_target KnowledgeValidation ''Knowledge'' db project_id spec) (\<lambda>(project, target).
     rbind (store_result (list_knowledge_items project_id db)) (\<lambda>items.
     mapM (knowledge_context_candidate sha (pj_head_commit_id project)) (filter (\<lambda>k. kn_status k = ''canonical'') items)))"

definition valid_style_sample :: "(string \<Rightarrow> string) \<Rightarrow> StyleSampleRecord \<Rightarrow> bool" where
  "valid_style_sample sha s \<longleftrightarrow>
     \<not> blank (sty_id s) \<and> \<not> blank (sty_title s) \<and> \<not> blank (sty_content s) \<and> sty_revision s \<ge> 0
     \<and> sty_content_hash s = sha (sty_content s) \<and> sty_status s \<in> set [''canonical'', ''archived'']
     \<and> sty_sensitivity s \<in> set [''local_sensitive'', ''never_send'']"

definition workspace_style_samples ::
  "(string \<Rightarrow> string) \<Rightarrow> Database \<Rightarrow> string \<Rightarrow> WorkspaceCommandError + StyleSampleRecord list" where
  "workspace_style_samples sha db project_id =
     rbind (store_result (list_style_samples project_id db))
       (mapM (\<lambda>s. rbind (require (valid_style_sample sha s)
            (WorkspaceStore (InvariantViolation ''stored style sample policy is invalid''))) (\<lambda>_. Inr s)))"

section \<open>The collection\<close>

definition local_origin :: "string \<Rightarrow> string \<Rightarrow> string \<Rightarrow> string \<Rightarrow> CandidateOrigin" where
  "local_origin i source_ref commit_id reason =
     \<lparr>cor_id = i, cor_source_ref = source_ref, cor_commit_id = commit_id, cor_tier = ''L1_LOCAL'',
      cor_status = ''canonical'', cor_authority = ''source_derived'', cor_sensitivity = ''local_sensitive'',
      cor_render_mode = ''verbatim'', cor_reason = [reason]\<rparr>"

definition target_candidate ::
  "ContextEnv \<Rightarrow> string \<Rightarrow> BlockRecord \<Rightarrow> nat \<Rightarrow> nat \<Rightarrow> string \<Rightarrow> OperationContextCandidate" where
  "target_candidate env commit_id target from16 to16 content =
     candidate (ce_sha256 env)
       \<lparr>cor_id = ''target-'' @ revision_suffix (blk_id target) (blk_revision target),
        cor_source_ref = block_ref target @ ''#'' @ show_nat from16 @ ''-'' @ show_nat to16,
        cor_commit_id = commit_id, cor_tier = ''L0_TARGET'', cor_status = ''canonical'',
        cor_authority = ''user_confirmed'', cor_sensitivity = ''local_sensitive'', cor_render_mode = ''verbatim'',
        cor_reason = [''USER_TARGET'']\<rparr>
       content True True (signals (ce_rnd env) 1 1 1 0)"

definition neighbour_candidates ::
  "ContextEnv \<Rightarrow> string \<Rightarrow> BlockRecord option \<Rightarrow> string \<Rightarrow> bool \<Rightarrow> OperationContextCandidate list" where
  "neighbour_candidates env commit_id neighbour reason take_suffix =
     (case neighbour of
        None \<Rightarrow> []
      | Some b \<Rightarrow>
          (let text = blk_plain_text b;
               content = (if take_suffix then prefix_window text (length text) LOCAL_CONTEXT_UTF16_UNITS
                          else suffix_window text 0 LOCAL_CONTEXT_UTF16_UNITS)
           in if content = [] then []
              else [candidate (ce_sha256 env)
                (local_origin (''local-'' @ revision_suffix (blk_id b) (blk_revision b)) (block_ref b) commit_id reason)
                content False False (signals (ce_rnd env) (3/4) 1 1 0)]))"

definition surrounding_candidates ::
  "ContextEnv \<Rightarrow> string \<Rightarrow> BlockRecord \<Rightarrow> string \<Rightarrow> string \<Rightarrow> string \<Rightarrow> OperationContextCandidate list" where
  "surrounding_candidates env commit_id target side reason content =
     (if content = [] then []
      else [candidate (ce_sha256 env)
        (local_origin (''local-'' @ blk_id target @ ''-'' @ side @ ''-r'' @ show_int (blk_revision target))
          (block_ref target @ ''#'' @ side) commit_id reason)
        content False False (signals (ce_rnd env) (9/10) 1 1 0)])"

definition structure_candidate ::
  "ContextEnv \<Rightarrow> ProjectRecord \<Rightarrow> DocumentRecord \<Rightarrow> OperationContextCandidate" where
  "structure_candidate env project d =
     candidate (ce_sha256 env)
       \<lparr>cor_id = ''structure-'' @ revision_suffix (doc_id d) (doc_revision d),
        cor_source_ref = ''document:'' @ doc_id d @ ''@r'' @ show_int (doc_revision d),
        cor_commit_id = pj_head_commit_id project, cor_tier = ''L2_STRUCTURAL'', cor_status = ''canonical'',
        cor_authority = ''source_derived'', cor_sensitivity = ''local_sensitive'', cor_render_mode = ''summary'',
        cor_reason = [''DOCUMENT_STRUCTURE'']\<rparr>
       ([CHR 0xE9, CHR 0xA1, CHR 0xB9, CHR 0xE7, CHR 0x9B, CHR 0xAE, CHR 0xEF, CHR 0xBC, CHR 0x9A] @ pj_title project
         @ [CHR 0x0A, CHR 0xE6, CHR 0x96, CHR 0x87, CHR 0xE6, CHR 0xA1, CHR 0xA3, CHR 0xEF, CHR 0xBC, CHR 0x9A] @ doc_title d
         @ [CHR 0x0A, CHR 0xE6, CHR 0x96, CHR 0x87, CHR 0xE6, CHR 0xA1, CHR 0xA3, CHR 0xE7, CHR 0xB1, CHR 0xBB, CHR 0xE5, CHR 0x9E, CHR 0x8B, CHR 0xEF, CHR 0xBC, CHR 0x9A] @ doc_kind d)
       False False (signals (ce_rnd env) (8/10) 1 1 0)"

definition style_candidate :: "ContextEnv \<Rightarrow> string \<Rightarrow> StyleSampleRecord \<Rightarrow> OperationContextCandidate" where
  "style_candidate env commit_id s =
     candidate (ce_sha256 env)
       \<lparr>cor_id = ''style-'' @ revision_suffix (sty_id s) (sty_revision s),
        cor_source_ref = ''style:'' @ sty_id s @ ''@r'' @ show_int (sty_revision s),
        cor_commit_id = commit_id, cor_tier = ''L4_STYLE_GLOBAL'', cor_status = sty_status s,
        cor_authority = ''user_confirmed'', cor_sensitivity = sty_sensitivity s, cor_render_mode = ''verbatim'',
        cor_reason = [''PINNED_STYLE_SAMPLE'']\<rparr>
       (sty_content s) False (sty_status s = ''canonical'') (signals (ce_rnd env) (8/10) (1/4) 1 0)"

definition utf16_position :: "string \<Rightarrow> nat \<Rightarrow> string \<Rightarrow> WorkspaceCommandError + nat" where
  "utf16_position v target name =
     ok_or (utf16_to_byte v target) (invalid (''Operation context '' @ name @ '' is not a UTF-16 boundary''))"

definition neighbour :: "BlockRecord list \<Rightarrow> nat \<Rightarrow> bool \<Rightarrow> BlockRecord option" where
  "neighbour blocks index previous =
     (if previous then (if index = 0 then None else nth_opt blocks (index - 1)) else nth_opt blocks (index + 1))"

definition collect_operation_context ::
  "ContextEnv \<Rightarrow> Database \<Rightarrow> string \<Rightarrow> OperationContextSpec
     \<Rightarrow> WorkspaceCommandError + OperationContextCandidate list" where
  "collect_operation_context env db project_id spec =
     rbind (context_target invalid ''Operation'' db project_id spec) (\<lambda>(project, target).
     rbind (require (ocx_from spec \<le> ocx_to spec) (invalid ''Operation context selection is reversed'')) (\<lambda>_.
     rbind (utf16_position (blk_plain_text target) (ocx_from spec) ''start'') (\<lambda>from_byte.
     rbind (utf16_position (blk_plain_text target) (ocx_to spec) ''end'') (\<lambda>to_byte.
     rbind (store_result (list_documents project_id db)) (\<lambda>documents.
     rbind (ok_or (find_by doc_id (blk_document_id target) documents)
              (invalid ''Operation context target document is not active'')) (\<lambda>d.
     rbind (store_result (list_blocks project_id db)) (\<lambda>blocks.
     let document_blocks = sort_key (\<lambda>b. (blk_order_key b, blk_id b))
           (filter (\<lambda>b. blk_document_id b = blk_document_id target) blocks);
         before = takeWhile (\<lambda>b. blk_id b \<noteq> blk_id target) document_blocks;
         index = length before;
         text = blk_plain_text target;
         head = pj_head_commit_id project
     in
     rbind (require (index < length document_blocks) (invalid ''Operation context target is not active'')) (\<lambda>_.
     rbind (summary_context db project_id spec) (\<lambda>summaries.
     rbind (knowledge_context (ce_sha256 env) db project_id spec) (\<lambda>knowledge.
     rbind (workspace_style_samples (ce_sha256 env) db project_id) (\<lambda>styles.
     Inr (target_candidate env head target (ocx_from spec) (ocx_to spec) (drop from_byte (take to_byte text))
        # neighbour_candidates env head (neighbour document_blocks index True) ''PREVIOUS_BLOCK'' True
        @ neighbour_candidates env head (neighbour document_blocks index False) ''NEXT_BLOCK'' False
        @ surrounding_candidates env head target ''prefix'' ''TARGET_PREFIX''
            (prefix_window text from_byte LOCAL_CONTEXT_UTF16_UNITS)
        @ surrounding_candidates env head target ''suffix'' ''TARGET_SUFFIX''
            (suffix_window text to_byte LOCAL_CONTEXT_UTF16_UNITS)
        @ structure_candidate env project d
        # map (\<lambda>(origin, content). candidate (ce_sha256 env) origin content False False
            (if cor_tier origin = ''L2_STRUCTURAL'' then signals (ce_rnd env) (9/10) (9/10) 1 0
             else signals (ce_rnd env) (65/100) (35/100) 1 0)) summaries
        @ map (\<lambda>(origin, content). candidate (ce_sha256 env) origin content False
            (cor_authority origin = ''user_confirmed'') (signals (ce_rnd env) (92/100) (1/2) 1 0)) knowledge
        @ map (style_candidate env head) styles))))))))))))"

section \<open>Positions and windows\<close>

lemma utf16_units_pos: "0 < utf16_units c"
  by (simp add: utf16_units_def)

lemma units_take_pos: "0 < k \<Longrightarrow> k \<le> length cs \<Longrightarrow> 0 < units (take k cs)"
  by (cases cs; cases k) (auto simp: utf16_units_pos)

lemma utf16_scan_iff:
  "utf16_scan cs byte u t = Some b \<longleftrightarrow>
     (\<exists>k \<le> length cs. b = byte + length (concat (take k cs)) \<and> t = u + units (take k cs))"
proof (induction cs arbitrary: byte u)
  case (Cons c cs)
  have split: "(\<exists>k \<le> length (c # cs). P k) \<longleftrightarrow> P 0 \<or> (\<exists>k \<le> length cs. P (Suc k))" for P :: "nat \<Rightarrow> bool"
    by (metis Suc_le_mono le0 length_Cons not0_implies_Suc)
  show ?case
  proof (cases "u = t")
    case True
    then show ?thesis using utf16_units_pos [of c] by (subst split) auto
  next
    case False
    then show ?thesis using Cons.IH [of "byte + length c" "u + utf16_units c"] by (subst split) (auto simp: add.assoc)
  qed
qed auto

lemma utf16_to_byte_iff:
  "utf16_to_byte v t = Some b \<longleftrightarrow>
     (\<exists>k \<le> length (utf8_chars v). b = length (concat (take k (utf8_chars v))) \<and> t = units (take k (utf8_chars v)))"
proof (cases "t = 0")
  case True
  have "k = 0" if "k \<le> length (utf8_chars v)" "units (take k (utf8_chars v)) = 0" for k
    using units_take_pos [of k "utf8_chars v"] that by auto
  with True show ?thesis by (fastforce simp: utf16_to_byte_def)
qed (simp add: utf16_to_byte_def utf16_scan_iff)

lemma window_take:
  "\<exists>k \<le> length cs. window m cs = take k cs \<and> units (take k cs) \<le> m
     \<and> (k < length cs \<longrightarrow> m < units (take (Suc k) cs))"
proof (induction cs arbitrary: m)
  case (Cons c cs)
  show ?case
  proof (cases "utf16_units c > m")
    case True
    then show ?thesis by (intro exI [of _ 0]) simp
  next
    case False
    obtain k where "k \<le> length cs" "window (m - utf16_units c) cs = take k cs"
      "units (take k cs) \<le> m - utf16_units c" "k < length cs \<longrightarrow> m - utf16_units c < units (take (Suc k) cs)"
      using Cons.IH by blast
    with False show ?thesis by (intro exI [of _ "Suc k"]) auto
  qed
qed simp

text \<open>
  C40. The local context of an operation is bounded in UTF-16 units and never splits a
  character: the window after a position is made of the first characters after it, the window
  before a position of the last ones before it, within the limit, and it stops only at the end
  of the text or where the next character would exceed the limit.
\<close>

theorem context_windows_bounded:
  "(\<exists>k \<le> length (utf8_chars (drop start v)).
      suffix_window v start m = concat (take k (utf8_chars (drop start v)))
      \<and> units (take k (utf8_chars (drop start v))) \<le> m
      \<and> (k = length (utf8_chars (drop start v)) \<or> m < units (take (Suc k) (utf8_chars (drop start v)))))
   \<and> (\<exists>k \<le> length (utf8_chars (take stop v)).
      prefix_window v stop m = concat (drop k (utf8_chars (take stop v)))
      \<and> units (drop k (utf8_chars (take stop v))) \<le> m
      \<and> (k = 0 \<or> m < units (drop (k - 1) (utf8_chars (take stop v)))))"
proof
  show "\<exists>k \<le> length (utf8_chars (drop start v)).
      suffix_window v start m = concat (take k (utf8_chars (drop start v)))
      \<and> units (take k (utf8_chars (drop start v))) \<le> m
      \<and> (k = length (utf8_chars (drop start v)) \<or> m < units (take (Suc k) (utf8_chars (drop start v))))"
    using window_take [of "utf8_chars (drop start v)" m] by (auto simp: suffix_window_def)
  let ?cs = "utf8_chars (take stop v)"
  obtain k where k: "k \<le> length ?cs" "window m (rev ?cs) = take k (rev ?cs)" "units (take k (rev ?cs)) \<le> m"
    "k < length ?cs \<longrightarrow> m < units (take (Suc k) (rev ?cs))"
    using window_take [of "rev ?cs" m] by auto
  have units_rev: "units (take i (rev ?cs)) = units (drop (length ?cs - i) ?cs)" for i
    by (simp add: take_rev rev_map [symmetric] sum_list_rev)
  have "prefix_window v stop m = concat (drop (length ?cs - k) ?cs)"
    using k(2) by (simp add: prefix_window_def take_rev)
  then show "\<exists>k \<le> length ?cs. prefix_window v stop m = concat (drop k ?cs) \<and> units (drop k ?cs) \<le> m
      \<and> (k = 0 \<or> m < units (drop (k - 1) ?cs))"
    using k by (intro exI [of _ "length ?cs - k"]) (auto simp: units_rev Suc_diff_Suc)
qed

section \<open>What is collected\<close>

text \<open>A candidate that is well formed for the compiler.\<close>

definition source_ok :: "ContextEnv \<Rightarrow> OperationContextCandidate \<Rightarrow> bool" where
  "source_ok env c \<longleftrightarrow> tier_index (occ_tier c) < 5 \<and> occ_source_hash c = ce_sha256 env (occ_content c)"

definition optional_ok :: "ContextEnv \<Rightarrow> OperationContextCandidate \<Rightarrow> bool" where
  "optional_ok env c \<longleftrightarrow> source_ok env c \<and> occ_tier c \<noteq> ''L0_TARGET'' \<and> \<not> occ_mandatory c"

lemma candidate_optional:
  "cor_tier origin \<in> set [''L1_LOCAL'', ''L2_STRUCTURAL'', ''L3_KNOWLEDGE'', ''L4_STYLE_GLOBAL'']
    \<Longrightarrow> optional_ok env (candidate (ce_sha256 env) origin content False user s)"
  by (auto simp: optional_ok_def source_ok_def candidate_def tier_index_def)

lemma optional_parts:
  "\<forall>c \<in> set (neighbour_candidates env commit_id b reason side). optional_ok env c"
  "\<forall>c \<in> set (surrounding_candidates env commit_id target name reason content). optional_ok env c"
  "optional_ok env (structure_candidate env project d)"
  "optional_ok env (style_candidate env commit_id s)"
  by (auto simp: neighbour_candidates_def surrounding_candidates_def structure_candidate_def style_candidate_def
      local_origin_def Let_def intro!: candidate_optional split: option.splits)

lemma summary_walk_tiers:
  "summary_walk db project_id documents visited cursor = Inr walk \<Longrightarrow> (origin, content) \<in> set walk
    \<Longrightarrow> cor_tier origin = ''L2_STRUCTURAL''"
proof (induction db project_id documents visited cursor arbitrary: walk rule: summary_walk.induct)
  case (2 db project_id documents visited i)
  then obtain d r later where step: "i \<notin> set visited" "find_by doc_id i documents = Some d"
    "store_result (get_ready_summary_record project_id ''document'' i db) = Inr r"
    "summary_walk db project_id documents (i # visited) (doc_parent_id d) = Inr later"
    "walk = (case r of None \<Rightarrow> [] | Some s \<Rightarrow> [(summary_candidate s ''L2_STRUCTURAL''
        (if visited = [] then ''CURRENT_DOCUMENT_SUMMARY'' else ''ANCESTOR_DOCUMENT_SUMMARY''), sum_summary s)]) @ later"
    by (auto simp: result_simps split: if_splits option.splits)
  from 2(1) [OF step(1,2,4)] 2(3) step(5) show ?case
    by (auto simp: summary_candidate_def split: option.splits)
qed simp

lemma summary_context_tiers:
  assumes "summary_context db project_id spec = Inr summaries" and "(origin, content) \<in> set summaries"
  shows "cor_tier origin = ''L2_STRUCTURAL'' \<or> cor_tier origin = ''L3_KNOWLEDGE''"
  using assms by (auto simp: summary_context_def result_simps summary_candidate_def dest!: summary_walk_tiers split: option.splits)

lemma knowledge_context_tiers:
  assumes "knowledge_context sha db project_id spec = Inr knowledge" and "(origin, content) \<in> set knowledge"
  shows "cor_tier origin = ''L3_KNOWLEDGE''"
proof -
  obtain commit_id items where "mapM (knowledge_context_candidate sha commit_id) items = Inr knowledge"
    using assms(1) by (auto simp: knowledge_context_def rbind_Inr_iff)
  from this [unfolded mapM_Inr_iff] obtain k where "knowledge_context_candidate sha commit_id k = Inr (origin, content)"
    using assms(2) by (auto simp: list_all2_conv_all_nth in_set_conv_nth)
  then show ?thesis by (auto simp: knowledge_context_candidate_def result_simps)
qed

text \<open>The target of a collection, and the rest of what it returns.\<close>

lemma collected_cases:
  assumes "collect_operation_context env db project_id spec = Inr cs"
  obtains project target from_byte to_byte others where
    "get_project project_id db = Inr project" and "pj_head_commit_id project = ocx_base_commit_id spec"
    and "get_project_block project_id (ocx_target_block_id spec) db = Inr target"
    and "blk_revision target = ocx_target_block_revision spec"
    and "blk_content_hash target = ocx_target_block_hash spec"
    and "utf16_to_byte (blk_plain_text target) (ocx_from spec) = Some from_byte"
    and "utf16_to_byte (blk_plain_text target) (ocx_to spec) = Some to_byte"
    and "ocx_from spec \<le> ocx_to spec"
    and "cs = target_candidate env (ocx_base_commit_id spec) target (ocx_from spec) (ocx_to spec)
        (drop from_byte (take to_byte (blk_plain_text target))) # others"
    and "\<forall>c \<in> set others. optional_ok env c"
proof -
  obtain project target where t: "context_target invalid ''Operation'' db project_id spec = Inr (project, target)"
    using assms by (auto simp: collect_operation_context_def rbind_Inr_iff)
  then have target: "get_project project_id db = Inr project" "pj_head_commit_id project = ocx_base_commit_id spec"
    "get_project_block project_id (ocx_target_block_id spec) db = Inr target"
    "blk_revision target = ocx_target_block_revision spec" "blk_content_hash target = ocx_target_block_hash spec"
    by (auto simp: context_target_def result_simps store_result_def map_sum_def split: sum.splits)
  from assms t obtain from_byte to_byte d blocks summaries knowledge styles where parts:
    "ocx_from spec \<le> ocx_to spec"
    "utf16_to_byte (blk_plain_text target) (ocx_from spec) = Some from_byte"
    "utf16_to_byte (blk_plain_text target) (ocx_to spec) = Some to_byte"
    "summary_context db project_id spec = Inr summaries"
    "knowledge_context (ce_sha256 env) db project_id spec = Inr knowledge"
    and cs: "\<exists>before after. cs = target_candidate env (pj_head_commit_id project) target (ocx_from spec) (ocx_to spec)
        (drop from_byte (take to_byte (blk_plain_text target)))
        # neighbour_candidates env (pj_head_commit_id project) before ''PREVIOUS_BLOCK'' True
        @ neighbour_candidates env (pj_head_commit_id project) after ''NEXT_BLOCK'' False
        @ surrounding_candidates env (pj_head_commit_id project) target ''prefix'' ''TARGET_PREFIX''
            (prefix_window (blk_plain_text target) from_byte LOCAL_CONTEXT_UTF16_UNITS)
        @ surrounding_candidates env (pj_head_commit_id project) target ''suffix'' ''TARGET_SUFFIX''
            (suffix_window (blk_plain_text target) to_byte LOCAL_CONTEXT_UTF16_UNITS)
        @ structure_candidate env project d
        # map (\<lambda>(origin, content). candidate (ce_sha256 env) origin content False False
            (if cor_tier origin = ''L2_STRUCTURAL'' then signals (ce_rnd env) (9/10) (9/10) 1 0
             else signals (ce_rnd env) (65/100) (35/100) 1 0)) summaries
        @ map (\<lambda>(origin, content). candidate (ce_sha256 env) origin content False
            (cor_authority origin = ''user_confirmed'') (signals (ce_rnd env) (92/100) (1/2) 1 0)) knowledge
        @ map (style_candidate env (pj_head_commit_id project)) styles"
    by (simp add: collect_operation_context_def rbind_Inr_iff Let_def require_Inr_iff utf16_position_def ok_or_Inr_iff)
      blast
  have "cor_tier (fst p) = ''L2_STRUCTURAL'' \<or> cor_tier (fst p) = ''L3_KNOWLEDGE''" if "p \<in> set summaries" for p
    using summary_context_tiers [OF parts(4), of "fst p" "snd p"] that by simp
  moreover have "cor_tier (fst p) = ''L3_KNOWLEDGE''" if "p \<in> set knowledge" for p
    using knowledge_context_tiers [OF parts(5), of "fst p" "snd p"] that by simp
  ultimately have "\<exists>others. cs = target_candidate env (pj_head_commit_id project) target (ocx_from spec) (ocx_to spec)
        (drop from_byte (take to_byte (blk_plain_text target))) # others \<and> (\<forall>c \<in> set others. optional_ok env c)"
    using cs optional_parts by (fastforce simp: split_beta intro!: candidate_optional)
  then show thesis using that target parts(1-3) by auto
qed

lemma slice_chars:
  assumes "i \<le> j" and "j \<le> length cs"
  shows "drop (length (concat (take i cs))) (take (length (concat (take j cs))) (concat cs)) = concat (drop i (take j cs))"
proof -
  have "concat cs = concat (take j cs) @ concat (drop j cs)" by (metis append_take_drop_id concat_append)
  then have "take (length (concat (take j cs))) (concat cs) = concat (take j cs)" by simp
  also have "\<dots> = concat (take i cs) @ concat (drop i (take j cs))"
    using assms(1) by (metis append_take_drop_id concat_append min.absorb1 take_take)
  finally show ?thesis by simp
qed

lemma units_take_mono:
  assumes "units (take i cs) \<le> units (take j cs)" and "i \<le> length cs"
  shows "i \<le> j"
proof (rule ccontr)
  assume "\<not> i \<le> j"
  then have split: "take i cs = take j cs @ take (i - j) (drop j cs)" by (metis le_add_diff_inverse nat_le_linear take_add)
  have "0 < units (take (i - j) (drop j cs))"
    using \<open>\<not> i \<le> j\<close> assms(2) by (intro units_take_pos) auto
  moreover have "units (take i cs) = units (take j cs) + units (take (i - j) (drop j cs))"
    unfolding split by simp
  ultimately show False using assms(1) by linarith
qed

lemma target_candidate_tier: "tier_index (occ_tier (target_candidate env commit_id target from16 to16 content)) < 5"
  by (simp add: target_candidate_def candidate_def tier_index_def)

lemma compilation_no_panic:
  assumes "\<forall>c \<in> set cs. tier_index (occ_tier c) < 5"
  shows "expected_compilation rnd cs locality operation_type budget \<noteq> None"
proof -
  have "score_candidate rnd c \<noteq> None" if "c \<in> set cs" for c
    using assms that by (auto simp: score_candidate_def rounded_score_def)
  then have "map_opt (score_candidate rnd) (filter (\<lambda>c. required_exclusion c locality = None) cs)
      = Some (map (the \<circ> score_candidate rnd) (filter (\<lambda>c. required_exclusion c locality = None) cs))"
    by (intro map_opt_Some) auto
  then show ?thesis by (auto simp: expected_compilation_def Let_def split: sum.splits option.splits)
qed

text \<open>
  C15. The context of an operation is collected for what the user selected. A collection that
  succeeds is bound to the current head of the project and to the current revision and hash of
  the block; its first candidate is the selected text, cut at character boundaries at the UTF-16
  positions of the selection; it is the only mandatory one, and every other candidate belongs to a
  tier below the target, so that the compiler never panics on what was collected.
\<close>

theorem collected_context_target:
  assumes "collect_operation_context env db project_id spec = Inr cs"
  shows "\<exists>project target i j others. get_project project_id db = Inr project
    \<and> pj_head_commit_id project = ocx_base_commit_id spec
    \<and> get_project_block project_id (ocx_target_block_id spec) db = Inr target
    \<and> blk_revision target = ocx_target_block_revision spec \<and> blk_content_hash target = ocx_target_block_hash spec
    \<and> i \<le> j \<and> j \<le> length (utf8_chars (blk_plain_text target))
    \<and> units (take i (utf8_chars (blk_plain_text target))) = ocx_from spec
    \<and> units (take j (utf8_chars (blk_plain_text target))) = ocx_to spec
    \<and> cs = target_candidate env (ocx_base_commit_id spec) target (ocx_from spec) (ocx_to spec)
        (concat (drop i (take j (utf8_chars (blk_plain_text target))))) # others
    \<and> list_all (\<lambda>c. \<not> occ_mandatory c \<and> occ_tier c \<noteq> ''L0_TARGET'') others
    \<and> expected_compilation (ce_rnd env) cs locality operation_type budget \<noteq> None"
proof (rule collected_cases [OF assms])
  fix project :: ProjectRecord and target :: BlockRecord and from_byte to_byte others
  let ?cs = "utf8_chars (blk_plain_text target)"
  assume found: "get_project project_id db = Inr project" "pj_head_commit_id project = ocx_base_commit_id spec"
      "get_project_block project_id (ocx_target_block_id spec) db = Inr target"
      "blk_revision target = ocx_target_block_revision spec" "blk_content_hash target = ocx_target_block_hash spec"
    and bytes: "utf16_to_byte (blk_plain_text target) (ocx_from spec) = Some from_byte"
      "utf16_to_byte (blk_plain_text target) (ocx_to spec) = Some to_byte" "ocx_from spec \<le> ocx_to spec"
    and cs: "cs = target_candidate env (ocx_base_commit_id spec) target (ocx_from spec) (ocx_to spec)
        (drop from_byte (take to_byte (blk_plain_text target))) # others"
    and others: "\<forall>c \<in> set others. optional_ok env c"
  obtain i where i: "i \<le> length ?cs" "from_byte = length (concat (take i ?cs))" "ocx_from spec = units (take i ?cs)"
    using bytes(1) by (auto simp: utf16_to_byte_iff)
  obtain j where j: "j \<le> length ?cs" "to_byte = length (concat (take j ?cs))" "ocx_to spec = units (take j ?cs)"
    using bytes(2) by (auto simp: utf16_to_byte_iff)
  have "i \<le> j" using units_take_mono [of i ?cs j] bytes(3) i j by simp
  with slice_chars [of i j ?cs] i(2) j(1,2)
  have content: "drop from_byte (take to_byte (blk_plain_text target)) = concat (drop i (take j ?cs))" by simp
  have rest: "list_all (\<lambda>c. \<not> occ_mandatory c \<and> occ_tier c \<noteq> ''L0_TARGET'') others"
    using others by (simp add: list_all_iff optional_ok_def)
  have tiers: "\<forall>c \<in> set others. tier_index (occ_tier c) < 5"
    using others by (simp add: optional_ok_def source_ok_def)
  have "\<forall>c \<in> set cs. tier_index (occ_tier c) < 5"
    using tiers target_candidate_tier unfolding cs by simp
  then have compiled: "expected_compilation (ce_rnd env) cs locality operation_type budget \<noteq> None"
    by (rule compilation_no_panic)
  have target: "cs = target_candidate env (ocx_base_commit_id spec) target (ocx_from spec) (ocx_to spec)
      (concat (drop i (take j ?cs))) # others"
    using cs unfolding content .
  show ?thesis
    by (rule exI [of _ project], rule exI [of _ target], rule exI [of _ i], rule exI [of _ j], rule exI [of _ others])
      (intro conjI found \<open>i \<le> j\<close> j(1) i(3) [symmetric] j(3) [symmetric] target rest compiled)
qed

end
