(* ===== verification/ConfirmedContext.thy ===== *)
theory ConfirmedContext
  imports OperationContext StoreReachable GatewayHost
begin

text \<open>
  \<open>confirm_context_packet\<close> of \<open>confirmed_context.rs\<close>, the check a packet of context and the model
  request built from it have to pass before the host authorizes the request. It composes the
  candidates of \<open>OperationContext\<close>, the compiler of \<open>ContextCompiler\<close> and the checks of
  \<open>ContextPacket\<close>. \<open>None\<close> is a panic of the compiler on a tier it does not know.
\<close>

section \<open>The trusted operation and the request\<close>

record ConfirmContextPacketInput =
  cci_operation_context :: OperationContextSpec
  cci_operation_intent_id :: string
  cci_provider_locality :: string
  cci_payload :: json
  cci_request :: ModelExecutionRequest

definition expected_output_kind :: "string \<Rightarrow> string option" where
  "expected_output_kind operation_type =
     (if operation_type = ''continue_scene'' then Some ''insert_proposal''
      else if operation_type = ''critique'' then Some ''findings''
      else if operation_type \<in> set [''polish'', ''compress'', ''expand''] then Some ''patch_proposal''
      else None)"

text \<open>The two rules of the prompt, in UTF-8.\<close>

definition expected_constraints :: "PromptConstraintDto list" where
  "expected_constraints =
     [\<lparr>pco_severity = ''hard'', pco_rule =
      [CHR 0xE4, CHR 0xBF, CHR 0x9D, CHR 0xE6, CHR 0x8C, CHR 0x81, CHR 0xE5, CHR 0x8E, CHR 0x9F, CHR 0xE6,
      CHR 0x96, CHR 0x87, CHR 0xE8, CHR 0xAF, CHR 0xAD, CHR 0xE8, CHR 0xA8, CHR 0x80, CHR 0xE3, CHR 0x80,
      CHR 0x81, CHR 0xE5, CHR 0xB7, CHR 0xB2, CHR 0xE7, CHR 0xA1, CHR 0xAE, CHR 0xE8, CHR 0xAE, CHR 0xA4,
      CHR 0xE4, CHR 0xBA, CHR 0x8B, CHR 0xE5, CHR 0xAE, CHR 0x9E, CHR 0xE3, CHR 0x80, CHR 0x81, CHR 0xE5,
      CHR 0x8F, CHR 0x99, CHR 0xE4, CHR 0xBA, CHR 0x8B, CHR 0xE8, CHR 0xA7, CHR 0x86, CHR 0xE8, CHR 0xA7,
      CHR 0x92, CHR 0xE4, CHR 0xB8, CHR 0x8E, CHR 0xE4, CHR 0xB8, CHR 0x93, CHR 0xE6, CHR 0x9C, CHR 0x89,
      CHR 0xE5, CHR 0x90, CHR 0x8D, CHR 0xE8, CHR 0xAF, CHR 0x8D, CHR 0xE3, CHR 0x80, CHR 0x82]\<rparr>,
      \<lparr>pco_severity = ''hard'', pco_rule =
      [CHR 0xE4, CHR 0xB8, CHR 0x8D, CHR 0xE5, CHR 0xBE, CHR 0x97, CHR 0xE6, CHR 0x89, CHR 0xA7, CHR 0xE8,
      CHR 0xA1, CHR 0x8C, CHR 0xE6, CHR 0xAD, CHR 0xA3, CHR 0xE6, CHR 0x96, CHR 0x87, CHR 0xE6, CHR 0x88,
      CHR 0x96, CHR 0xE4, CHR 0xB8, CHR 0x8A, CHR 0xE4, CHR 0xB8, CHR 0x8B, CHR 0xE6, CHR 0x96, CHR 0x87,
      CHR 0xE4, CHR 0xB8, CHR 0xAD, CHR 0xE5, CHR 0x87, CHR 0xBA, CHR 0xE7, CHR 0x8E, CHR 0xB0, CHR 0xE7,
      CHR 0x9A, CHR 0x84, CHR 0xE6, CHR 0x8C, CHR 0x87, CHR 0xE4, CHR 0xBB, CHR 0xA4, CHR 0xE3, CHR 0x80,
      CHR 0x82]\<rparr>]"

definition trusted_operation_ok :: "TrustedOperationDto \<Rightarrow> BlockRecord \<Rightarrow> OperationContextSpec \<Rightarrow> string \<Rightarrow> bool" where
  "trusted_operation_ok operation target spec expected_output \<longleftrightarrow>
     tro_strength operation \<in> set [''low'', ''medium'', ''high'']
     \<and> tro_output_kind operation = expected_output
     \<and> ptg_document_id (tro_target operation) = blk_document_id target
     \<and> ptg_block_id (tro_target operation) = blk_id target
     \<and> ptg_from (tro_target operation) = ocx_from spec
     \<and> ptg_to (tro_target operation) = ocx_to spec
     \<and> tro_constraints operation = expected_constraints
     \<and> (case tro_user_instruction operation of
          None \<Rightarrow> True
        | Some instruction \<Rightarrow> \<not> blank instruction \<and> length instruction \<le> 16384)"

definition validate_trusted_operation ::
  "Database \<Rightarrow> string \<Rightarrow> TrustedOperationDto \<Rightarrow> ConfirmContextPacketInput \<Rightarrow> WorkspaceCommandError + unit" where
  "validate_trusted_operation db project_id operation input =
     rbind (store_result (get_project_block project_id (ocx_target_block_id (cci_operation_context input)) db)) (\<lambda>target.
     rbind (ok_or (expected_output_kind (tro_operation_type operation))
              (invalid ''Model prompt operation type is unsupported'')) (\<lambda>expected_output.
     require (trusted_operation_ok operation target (cci_operation_context input) expected_output)
       (invalid ''Model trusted operation differs from the authorized target'')))"

definition reserved_output_of :: "string \<Rightarrow> nat" where
  "reserved_output_of output_kind = (if output_kind = ''findings'' then 1500 else 2000)"

definition json_object_supported :: "ModelProviderConfiguration \<Rightarrow> bool" where
  "json_object_supported c =
     (case mpc_provider_id c of
        Minimax \<Rightarrow> False
      | OpenAICompatible \<Rightarrow>
          (case mpc_openai_compatible c of None \<Rightarrow> False | Some configuration \<Rightarrow> ocp_json_object configuration)
      | _ \<Rightarrow> True)"

definition request_parameters_ok :: "ModelExecutionRequest \<Rightarrow> nat \<Rightarrow> bool" where
  "request_parameters_ok r reserved_output \<longleftrightarrow>
     mr_max_output_tokens (mer_request r) = Some reserved_output
     \<and> mr_model (mer_request r) = Some (mpc_default_model (mer_configuration r))
     \<and> mr_response_format (mer_request r)
         = Some (if json_object_supported (mer_configuration r) then JsonObject else TextFormat)"

definition validate_model_prompt ::
  "Database \<Rightarrow> string \<Rightarrow> ContextPacketDto \<Rightarrow> PromptEnvelopeDto \<Rightarrow> ConfirmContextPacketInput
     \<Rightarrow> WorkspaceCommandError + unit" where
  "validate_model_prompt db project_id packet prompt input =
     (let operation = pen_trusted_operation prompt;
          reserved_output = reserved_output_of (tro_output_kind operation)
      in
     rbind (validate_trusted_operation db project_id operation input) (\<lambda>_.
     rbind (require (cbu_reserved_output (cpk_budget packet) = reserved_output)
              (invalid ''Context Packet output budget differs from the trusted operation'')) (\<lambda>_.
     rbind (require (request_parameters_ok (cci_request input) reserved_output)
              (invalid ''Model request parameters differ from the controlled operation'')) (\<lambda>_.
     rbind (validate_prompt_context packet (pen_context_packet prompt)) (\<lambda>_.
     rbind (validate_output_contract (tro_output_kind operation) (pen_output_contract prompt)) (\<lambda>_.
     require (pen_protocol prompt = ''optimizer-model-output-v1'')
       (invalid ''Model prompt protocol is unsupported'')))))))"

section \<open>The confirmation\<close>

definition binding_of :: "string \<Rightarrow> ConfirmContextPacketInput \<Rightarrow> PacketBinding" where
  "binding_of project_id input =
     \<lparr>bnd_project_id = project_id, bnd_operation_intent_id = cci_operation_intent_id input,
      bnd_base_commit_id = ocx_base_commit_id (cci_operation_context input),
      bnd_provider_locality = cci_provider_locality input\<rparr>"

definition decode_packet ::
  "ContextEnv \<Rightarrow> string \<Rightarrow> ConfirmContextPacketInput \<Rightarrow> WorkspaceCommandError + (bytes \<times> ContextPacketDto)" where
  "decode_packet env project_id input =
     rbind (ok_or (to_vec (ce_gateway env) (cci_payload input)) (invalid ''Context Packet JSON is invalid'')) (\<lambda>encoded.
     rbind (require (length encoded \<le> MAX_PACKET_BYTES) (invalid ''Context Packet exceeds the Host size limit'')) (\<lambda>_.
     rbind (ok_or (ce_packet env (cci_payload input)) (invalid ''Context Packet schema is invalid'')) (\<lambda>packet.
     rbind (validate_packet_binding env packet (binding_of project_id input)) (\<lambda>_.
     rbind (validate_packet_hash env (cci_payload input) (cpk_packet_hash packet)) (\<lambda>_.
     Inr (encoded, packet))))))"

definition confirm_context_packet ::
  "ContextEnv \<Rightarrow> Database \<Rightarrow> string \<Rightarrow> ConfirmContextPacketInput
     \<Rightarrow> (WorkspaceCommandError + ConfirmedContextPacket) option" where
  "confirm_context_packet env db project_id input =
     (case rbind (decode_packet env project_id input) (\<lambda>(encoded, packet).
           rbind (parse_model_prompt env (mer_request (cci_request input))) (\<lambda>prompt.
           rbind (collect_operation_context env db project_id (cci_operation_context input)) (\<lambda>candidates.
           Inr (encoded, packet, prompt, candidates)))) of
        Inl e \<Rightarrow> Some (Inl e)
      | Inr (encoded, packet, prompt, candidates) \<Rightarrow>
          map_option (\<lambda>covered.
            rbind covered (\<lambda>_.
            rbind (validate_budget packet) (\<lambda>_.
            rbind (validate_model_prompt db project_id packet prompt input) (\<lambda>_.
            rbind (require (utf8_valid encoded) (invalid ''Context Packet JSON is not UTF-8'')) (\<lambda>_.
            Inr \<lparr>ccp_id = cpk_id packet, ccp_hash = cpk_packet_hash packet, ccp_payload_json = encoded\<rparr>)))))
            (validate_candidate_coverage env packet candidates (tro_operation_type (pen_trusted_operation prompt))))"

section \<open>What a confirmation guarantees\<close>

lemma confirmed_cases:
  assumes "confirm_context_packet env db project_id input = Some (Inr ccp)"
  obtains encoded packet prompt candidates where
    "to_vec (ce_gateway env) (cci_payload input) = Some encoded" and "ce_packet env (cci_payload input) = Some packet"
    and "packet_binds env packet (binding_of project_id input)"
    and "parse_model_prompt env (mer_request (cci_request input)) = Inr prompt"
    and "collect_operation_context env db project_id (cci_operation_context input) = Inr candidates"
    and "validate_candidate_coverage env packet candidates (tro_operation_type (pen_trusted_operation prompt)) = Some (Inr ())"
    and "validate_budget packet = Inr ()" and "validate_model_prompt db project_id packet prompt input = Inr ()"
    and "ccp = \<lparr>ccp_id = cpk_id packet, ccp_hash = cpk_packet_hash packet, ccp_payload_json = encoded\<rparr>"
  using assms
  by (auto simp: confirm_context_packet_def decode_packet_def validate_packet_binding_def result_simps split: sum.splits)

lemma selected_item_source:
  assumes "compilation_ok candidates locality budget ec" and "item_ok env candidates ec i"
  obtains c where "c \<in> set candidates" and "candidate_key c = item_key i" and "item_of_candidate (ce_sha256 env) i c"
    and "required_exclusion c locality = None" and "context_selected ec c"
    and "cit_estimated_tokens i = estimate_tokens (occ_content c)"
proof -
  obtain c d where c: "c \<in> set candidates" "candidate_key c = item_key i" "item_of_candidate (ce_sha256 env) i c"
    and d: "ec_disposition ec (item_key i) = Some d" "item_scored (ce_rnd env) i d"
    using assms(2) by (auto simp: item_ok_def)
  then have not_excluded: "\<not> context_excluded ec c reason" for reason
    by (auto simp: context_excluded_def item_scored_def)
  with assms(1) c(1) have "required_exclusion c locality = None" "context_selected ec c"
    by (auto simp: compilation_ok_def split: option.splits)
  with c d that show thesis by (auto simp: context_selected_def item_scored_def)
qed

lemma compiled_packet_safe:
  assumes "packet_compiled env packet candidates ec"
    and "compilation_ok candidates (cpk_provider_locality packet) budget ec"
  shows "\<forall>i \<in> set (cpk_items packet). \<exists>c \<in> set candidates.
      item_of_candidate (ce_sha256 env) i c \<and> required_exclusion c (cpk_provider_locality packet) = None"
    and "sum_list (map (\<lambda>i. estimate_tokens (cit_content i)) (cpk_items packet)) = cbu_estimated_input (cpk_budget packet)"
proof -
  have source: "\<exists>c \<in> set candidates. item_of_candidate (ce_sha256 env) i c
      \<and> required_exclusion c (cpk_provider_locality packet) = None
      \<and> cit_estimated_tokens i = estimate_tokens (occ_content c)" if "i \<in> set (cpk_items packet)" for i
    using assms(1) that by (auto simp: packet_compiled_def elim!: selected_item_source [OF assms(2)])
  then show "\<forall>i \<in> set (cpk_items packet). \<exists>c \<in> set candidates.
      item_of_candidate (ce_sha256 env) i c \<and> required_exclusion c (cpk_provider_locality packet) = None"
    by blast
  have "map (\<lambda>i. estimate_tokens (cit_content i)) (cpk_items packet) = map cit_estimated_tokens (cpk_items packet)"
    using source by (fastforce simp: item_of_candidate_def)
  then show "sum_list (map (\<lambda>i. estimate_tokens (cit_content i)) (cpk_items packet)) = cbu_estimated_input (cpk_budget packet)"
    using assms(1) by (simp only: packet_compiled_def)
qed

lemma confirmed_compilation:
  assumes "validate_candidate_coverage env packet candidates operation_type = Some (Inr ())"
    and "validate_budget packet = Inr ()"
  obtains ec where "packet_compiled env packet candidates ec"
    and "compilation_ok candidates (cpk_provider_locality packet) (cbu_input_budget (cpk_budget packet)) ec"
proof -
  have budget: "cbu_input_budget (cpk_budget packet) < 2 ^ 64 - 1"
    "cbu_estimated_input (cpk_budget packet) < 2 ^ 64"
    using assms(2) by (auto simp: validate_budget_def result_simps valid_budget_def MODEL_LIMIT_def RESERVED_OVERHEAD_def)
  obtain m where m: "index_candidates candidates Map.empty = Inr m"
    using assms(1) by (auto simp: validate_candidate_coverage_def split: sum.splits)
  have distinct: "distinct (map candidate_key candidates)" using index_candidates_Inr [OF m] by blast
  from assms(1) m obtain ec where ec: "expected_compilation (ce_rnd env) candidates (cpk_provider_locality packet)
      operation_type (cbu_input_budget (cpk_budget packet)) = Some (Inr ec)"
    "check_coverage env packet candidates m ec = Inr ()"
    by (auto simp: validate_candidate_coverage_def split: sum.splits) (metis obj_sumE)
  show thesis
    using that [of ec] check_coverage_iff [OF m distinct budget ec(1)] ec(2)
      compilation_is_ok [OF distinct budget(1) ec(1)] by blast
qed

text \<open>
  C4. What leaves the machine is what the project says. When a packet is confirmed, it is bound
  to the project, the operation and the current head; each of its items is one of the candidates
  that the host itself collected, unaltered and with the hash of its content; none is archived,
  rejected or deleted, none is a draft nobody chose, and for a remote provider none is marked
  never to be sent; their estimated tokens fit in the model's limit beside the reserved output and
  overhead; and the prompt of the request has the fixed system message and carries exactly these items.
\<close>

theorem confirmed_packet_is_safe:
  assumes "confirm_context_packet env db project_id input = Some (Inr ccp)"
  shows "\<exists>packet prompt candidates project.
    ccp_id ccp = cpk_id packet \<and> ccp_hash ccp = cpk_packet_hash packet
    \<and> packet_binds env packet (binding_of project_id input)
    \<and> get_project project_id db = Inr project \<and> cpk_base_commit_id packet = pj_head_commit_id project
    \<and> collect_operation_context env db project_id (cci_operation_context input) = Inr candidates
    \<and> (\<forall>i \<in> set (cpk_items packet). \<exists>c \<in> set candidates. item_of_candidate (ce_sha256 env) i c
        \<and> required_exclusion c (cci_provider_locality input) = None)
    \<and> sum_list (map (\<lambda>i. estimate_tokens (cit_content i)) (cpk_items packet))
        + reserved_output_of (tro_output_kind (pen_trusted_operation prompt)) + RESERVED_OVERHEAD \<le> MODEL_LIMIT
    \<and> map mm_content (mr_messages (mer_request (cci_request input)))
        = [SYSTEM_PROMPT, mm_content (mr_messages (mer_request (cci_request input)) ! 1)]
    \<and> ce_prompt env (mm_content (mr_messages (mer_request (cci_request input)) ! 1)) = Some prompt
    \<and> pcp_items (pen_context_packet prompt) = map prompt_item (cpk_items packet)"
proof (rule confirmed_cases [OF assms])
  fix encoded packet prompt candidates
  assume bound: "packet_binds env packet (binding_of project_id input)"
    and prompt: "parse_model_prompt env (mer_request (cci_request input)) = Inr prompt"
    and collected: "collect_operation_context env db project_id (cci_operation_context input) = Inr candidates"
    and coverage: "validate_candidate_coverage env packet candidates (tro_operation_type (pen_trusted_operation prompt)) = Some (Inr ())"
    and budget: "validate_budget packet = Inr ()" and model: "validate_model_prompt db project_id packet prompt input = Inr ()"
    and ccp: "ccp = \<lparr>ccp_id = cpk_id packet, ccp_hash = cpk_packet_hash packet, ccp_payload_json = encoded\<rparr>"
  obtain ec where ec: "packet_compiled env packet candidates ec"
    "compilation_ok candidates (cpk_provider_locality packet) (cbu_input_budget (cpk_budget packet)) ec"
    using confirmed_compilation [OF coverage budget] .
  have locality: "cpk_provider_locality packet = cci_provider_locality input"
    using bound by (simp add: packet_binds_def binding_of_def)
  obtain project where project: "get_project project_id db = Inr project"
    "pj_head_commit_id project = ocx_base_commit_id (cci_operation_context input)"
    by (rule collected_cases [OF collected])
  have head: "cpk_base_commit_id packet = pj_head_commit_id project"
    using bound project(2) by (simp add: packet_binds_def binding_of_def)
  have reserved: "cbu_reserved_output (cpk_budget packet) = reserved_output_of (tro_output_kind (pen_trusted_operation prompt))"
    and items: "pcp_items (pen_context_packet prompt) = map prompt_item (cpk_items packet)"
    using model by (auto simp: validate_model_prompt_def Let_def validate_prompt_context_def result_simps)
  have tokens: "sum_list (map (\<lambda>i. estimate_tokens (cit_content i)) (cpk_items packet))
      + reserved_output_of (tro_output_kind (pen_trusted_operation prompt)) + RESERVED_OVERHEAD \<le> MODEL_LIMIT"
    unfolding compiled_packet_safe(2) [OF ec] reserved [symmetric]
    using budget by (auto simp: validate_budget_def result_simps valid_budget_def MODEL_LIMIT_def RESERVED_OVERHEAD_def)
  have messages: "map mm_content (mr_messages (mer_request (cci_request input)))
        = [SYSTEM_PROMPT, mm_content (mr_messages (mer_request (cci_request input)) ! 1)]"
    and parsed: "ce_prompt env (mm_content (mr_messages (mer_request (cci_request input)) ! 1)) = Some prompt"
    using prompt by (auto simp: parse_model_prompt_def controlled_envelope_def result_simps split: list.splits)
  show ?thesis
    by (rule exI [of _ packet], rule exI [of _ prompt], rule exI [of _ candidates], rule exI [of _ project])
      (intro conjI bound project(1) head collected compiled_packet_safe(1) [OF ec, unfolded locality] tokens messages
        parsed items, simp_all add: ccp)
qed

text \<open>A polishing of the one block of the small store, with the packet the compiler makes of it.\<close>

definition confirmed_spec :: OperationContextSpec where
  "confirmed_spec =
     \<lparr>ocx_base_commit_id = ''c0'', ocx_target_block_id = ''blk'', ocx_target_block_revision = 0,
      ocx_target_block_hash = ''hx'', ocx_from = 0, ocx_to = 1\<rparr>"

definition confirmed_candidates :: "OperationContextCandidate list" where
  "confirmed_candidates = projr (collect_operation_context sample_context_env small_store ''p'' confirmed_spec)"

theorem collected_context_target_witness:
  "collect_operation_context sample_context_env small_store ''p'' confirmed_spec = Inr confirmed_candidates
   \<and> expected_compilation (\<lambda>x. x) confirmed_candidates ''remote'' ''polish'' 29968 \<noteq> None"
proof -
  have "isl (collect_operation_context sample_context_env small_store ''p'' confirmed_spec) = False" by code_simp
  then have collected: "collect_operation_context sample_context_env small_store ''p'' confirmed_spec = Inr confirmed_candidates"
    unfolding confirmed_candidates_def by (simp add: sum.collapse(2))
  from collected_context_target [OF collected, of "''remote''" "''polish''" 29968]
  have "expected_compilation (ce_rnd sample_context_env) confirmed_candidates ''remote'' ''polish'' 29968 \<noteq> None"
    by blast
  with collected show ?thesis by (simp add: sample_context_env_def)
qed

definition confirmed_items :: "ContextItemDto list" where
  "confirmed_items =
     [\<lparr>cit_id = ''target-blk-r0'', cit_source_ref = ''block:blk@r0#0-1'', cit_source_hash = sample_hash,
       cit_tier = ''L0_TARGET'', cit_status = ''canonical'', cit_authority = ''user_confirmed'',
       cit_sensitivity = ''local_sensitive'', cit_render_mode = ''verbatim'', cit_reason_codes = [''USER_TARGET''],
       cit_estimated_tokens = 1, cit_score = Finite 200, cit_mandatory = True, cit_content = ''x''\<rparr>,
      \<lparr>cit_id = ''structure-doc-r0'', cit_source_ref = ''document:doc@r0'', cit_source_hash = sample_hash,
       cit_tier = ''L2_STRUCTURAL'', cit_status = ''canonical'', cit_authority = ''source_derived'',
       cit_sensitivity = ''local_sensitive'', cit_render_mode = ''summary'', cit_reason_codes = [''DOCUMENT_STRUCTURE''],
       cit_estimated_tokens = 11, cit_score = Finite (521 / 4), cit_mandatory = False,
       cit_content = [CHR 0xE9, CHR 0xA1, CHR 0xB9, CHR 0xE7, CHR 0x9B, CHR 0xAE, CHR 0xEF, CHR 0xBC, CHR 0x9A] @ ''t'' @
         [CHR 0x0A, CHR 0xE6, CHR 0x96, CHR 0x87, CHR 0xE6, CHR 0xA1, CHR 0xA3, CHR 0xEF, CHR 0xBC, CHR 0x9A] @ ''t'' @
         [CHR 0x0A, CHR 0xE6, CHR 0x96, CHR 0x87, CHR 0xE6, CHR 0xA1, CHR 0xA3, CHR 0xE7, CHR 0xB1, CHR 0xBB,
          CHR 0xE5, CHR 0x9E, CHR 0x8B, CHR 0xEF, CHR 0xBC, CHR 0x9A] @ ''chapter''\<rparr>]"

definition confirmed_packet :: ContextPacketDto where
  "confirmed_packet = sample_packet\<lparr>cpk_base_commit_id := ''c0'', cpk_items := confirmed_items, cpk_exclusions := [],
     cpk_budget := \<lparr>cbu_model_limit = 32768, cbu_reserved_output = 2000, cbu_reserved_overhead = 800,
        cbu_input_budget = 29968, cbu_estimated_input = 12,
        cbu_tokenizer = ''desktop:unicode-half-v1''\<rparr>\<rparr>"

definition confirmed_prompt :: PromptEnvelopeDto where
  "confirmed_prompt =
     \<lparr>pen_protocol = ''optimizer-model-output-v1'',
      pen_trusted_operation =
        \<lparr>tro_operation_type = ''polish'', tro_strength = ''low'', tro_output_kind = ''patch_proposal'',
         tro_user_instruction = None, tro_constraints = expected_constraints,
         tro_target = \<lparr>ptg_document_id = ''doc'', ptg_block_id = ''blk'', ptg_from = 0, ptg_to = 1\<rparr>\<rparr>,
      pen_context_packet =
        \<lparr>pcp_id = ''x'', pcp_packet_hash = sample_hash, pcp_items = map prompt_item confirmed_items\<rparr>,
      pen_output_contract = JObject (rev (contract_entries ''patch_proposal''))\<rparr>"

definition confirmed_env :: ContextEnv where
  "confirmed_env = sample_context_env\<lparr>ce_packet := (\<lambda>_. Some confirmed_packet), ce_prompt := (\<lambda>_. Some confirmed_prompt)\<rparr>"

definition plain_message :: "ModelMessageRole \<Rightarrow> string \<Rightarrow> ModelMessage" where
  "plain_message r content =
     \<lparr>mm_role = r, mm_content = content, mm_name = None, mm_reasoning_content = None,
      mm_tool_call_id = None, mm_tool_calls = None\<rparr>"

definition confirmed_input :: ConfirmContextPacketInput where
  "confirmed_input =
     (let r = sample_request ''r1'' in
     \<lparr>cci_operation_context = confirmed_spec, cci_operation_intent_id = ''o'', cci_provider_locality = ''remote'',
      cci_payload = JObject [(''packetHash'', JString sample_hash)],
      cci_request = r\<lparr>mer_request := (mer_request r)\<lparr>mr_model := Some ''k2'',
        mr_messages := [plain_message System SYSTEM_PROMPT, plain_message User ''prompt''],
        mr_max_output_tokens := Some 2000, mr_response_format := Some JsonObject\<rparr>\<rparr>\<rparr>)"

definition confirmed_result :: ConfirmedContextPacket where
  "confirmed_result = \<lparr>ccp_id = ''x'', ccp_hash = sample_hash, ccp_payload_json = ''{}''\<rparr>"

theorem confirmed_packet_is_safe_witness:
  "confirm_context_packet confirmed_env small_store ''p'' confirmed_input = Some (Inr confirmed_result)
   \<and> (\<exists>packet. packet_binds confirmed_env packet (binding_of ''p'' confirmed_input))"
proof -
  have confirmed: "confirm_context_packet confirmed_env small_store ''p'' confirmed_input = Some (Inr confirmed_result)"
    by code_simp
  from confirmed confirmed_packet_is_safe [OF confirmed] show ?thesis by blast
qed

end
