(* ===== verification/ProposalText.thy ===== *)
theory ProposalText
  imports OperationContext TrustedEndpoints "HOL-Library.AList"
begin

text \<open>
  The text of a reviewed proposal (\<open>workspace_commands_review.rs\<close>): its hunks and their
  validation against the block, the decisions of the review log replayed over them, and the
  application of the accepted hunks. Positions are UTF-16 units. A \<open>BTreeMap\<close> that is only
  looked up and counted is an association list. \<open>source.get(from..to)\<close> and \<open>replace_range\<close> are
  used at the boundaries that \<open>utf16_to_byte\<close> returns; a range that is reversed, where
  \<open>replace_range\<close> would panic, is refused by the validation before.
\<close>

section \<open>Proposals\<close>

record StoredTextAnchor =
  sta_block_id :: string
  sta_offset :: nat

record StoredProposalTarget =
  spt_document_id :: string
  spt_block_id :: string
  spt_base_revision :: int
  spt_base_hash :: string
  spt_from :: StoredTextAnchor
  spt_to :: StoredTextAnchor

record StoredProposalHunk =
  sph_id :: string
  sph_from :: StoredTextAnchor
  sph_to :: StoredTextAnchor
  sph_original :: string
  sph_replacement :: string
  sph_atomic_group :: "string option"

record StoredPatchProposal =
  spp_schema_version :: nat
  spp_id :: string
  spp_operation_run_id :: string
  spp_base_commit_id :: string
  spp_target :: StoredProposalTarget
  spp_hunks :: "StoredProposalHunk list"
  spp_status :: string
  spp_proposal_hash :: string

abbreviation h_from :: "StoredProposalHunk \<Rightarrow> nat" where "h_from h \<equiv> sta_offset (sph_from h)"
abbreviation h_to :: "StoredProposalHunk \<Rightarrow> nat" where "h_to h \<equiv> sta_offset (sph_to h)"

section \<open>Validation of the hunks\<close>

record HunkScan =
  hsc_ids :: "string list"
  hsc_previous_end :: nat
  hsc_previous_insertion :: "nat option"

definition boundary :: "string \<Rightarrow> nat \<Rightarrow> string \<Rightarrow> WorkspaceCommandError + nat" where
  "boundary v target name =
     ok_or (utf16_to_byte v target) (WorkspaceValidation (name @ '' is not a UTF-16 boundary''))"

definition hunk_placed :: "StoredProposalTarget \<Rightarrow> HunkScan \<Rightarrow> StoredProposalHunk \<Rightarrow> bool" where
  "hunk_placed target st h \<longleftrightarrow>
     sta_block_id (sph_from h) = spt_block_id target \<and> sta_block_id (sph_to h) = spt_block_id target
     \<and> h_from h \<le> h_to h \<and> sta_offset (spt_from target) \<le> h_from h \<and> h_to h \<le> sta_offset (spt_to target)
     \<and> hsc_previous_end st \<le> h_from h
     \<and> \<not> (h_from h = h_to h \<and> hsc_previous_insertion st = Some (h_from h))"

definition hunk_step ::
  "(string \<Rightarrow> string) \<Rightarrow> string \<Rightarrow> StoredProposalTarget \<Rightarrow> StoredProposalHunk \<Rightarrow> HunkScan
     \<Rightarrow> WorkspaceCommandError + HunkScan" where
  "hunk_step sha source target h st =
     rbind (require (\<not> blank (sph_id h) \<and> sph_id h \<notin> set (hsc_ids st))
              (WorkspaceValidation ''Proposal hunk ids must be non-empty and unique'')) (\<lambda>_.
     rbind (require (hunk_placed target st h)
              (WorkspaceValidation ''Proposal hunks are outside the target, ambiguous or overlapping'')) (\<lambda>_.
     rbind (boundary source (h_from h) ''Hunk start'') (\<lambda>from_byte.
     rbind (boundary source (h_to h) ''Hunk end'') (\<lambda>to_byte.
     let actual = drop from_byte (take to_byte source) in
     rbind (require (actual = sph_original h)
              (WorkspaceStore (StoreError.Conflict ''proposal_hunk'' (sph_id h) (spt_base_revision target)
                 (spt_base_revision target) (sha (sph_original h)) (sha actual)))) (\<lambda>_.
     Inr \<lparr>hsc_ids = sph_id h # hsc_ids st, hsc_previous_end = h_to h,
          hsc_previous_insertion = (if h_from h = h_to h then Some (h_from h) else None)\<rparr>)))))"

definition validate_proposal_hunks ::
  "(string \<Rightarrow> string) \<Rightarrow> string \<Rightarrow> StoredProposalTarget \<Rightarrow> StoredProposalHunk list
     \<Rightarrow> WorkspaceCommandError + unit" where
  "validate_proposal_hunks sha source target hunks =
     rbind (require (hunks \<noteq> [] \<and> length hunks \<le> 500)
              (WorkspaceValidation ''Stored proposal must contain 1..=500 hunks'')) (\<lambda>_.
     rbind (boundary source (sta_offset (spt_from target)) ''Proposal target start'') (\<lambda>_.
     rbind (boundary source (sta_offset (spt_to target)) ''Proposal target end'') (\<lambda>_.
     rbind (foldM (hunk_step sha source target) hunks
              \<lparr>hsc_ids = [], hsc_previous_end = sta_offset (spt_from target), hsc_previous_insertion = None\<rparr>) (\<lambda>_.
     Inr ()))))"

section \<open>Decisions\<close>

type_synonym pending_decisions = "(string \<times> ReviewDecision option) list"

definition selected_hunks :: "StoredProposalHunk list \<Rightarrow> StoredProposalHunk \<Rightarrow> WorkspaceCommandError + StoredProposalHunk list" where
  "selected_hunks hunks selected =
     (case sph_atomic_group selected of
        None \<Rightarrow> Inr [selected]
      | Some grp \<Rightarrow>
          rbind (require (\<not> blank grp) (WorkspaceValidation ''Atomic proposal group cannot be empty'')) (\<lambda>_.
          Inr (filter (\<lambda>h. sph_atomic_group h = Some grp) hunks)))"

definition replay_event ::
  "StoredProposalHunk list \<Rightarrow> ReviewEventRecord \<Rightarrow> pending_decisions \<Rightarrow> WorkspaceCommandError + pending_decisions" where
  "replay_event hunks event decisions =
     (if rev_kind event \<noteq> ReviewEventKind.Decision then Inr decisions else
     rbind (ok_or (rev_hunk_id event) (WorkspaceValidation ''Decision event has no hunk id'')) (\<lambda>hunk_id.
     rbind (ok_or (rev_decision event) (WorkspaceValidation ''Decision event has no decision'')) (\<lambda>decision.
     rbind (ok_or (find_by sph_id hunk_id hunks)
              (WorkspaceValidation ''Decision event references an unknown hunk'')) (\<lambda>selected.
     rbind (selected_hunks hunks selected) (\<lambda>decided.
     Inr (fold (\<lambda>h. AList.update (sph_id h) (Some decision)) decided decisions))))))"

definition replay_review_decisions ::
  "StoredProposalHunk list \<Rightarrow> ReviewEventRecord list \<Rightarrow> WorkspaceCommandError + pending_decisions" where
  "replay_review_decisions hunks events =
     foldM (replay_event hunks) events (fold (\<lambda>h. AList.update (sph_id h) None) hunks [])"

definition complete_review_decisions ::
  "StoredProposalHunk list \<Rightarrow> pending_decisions \<Rightarrow> WorkspaceCommandError + (string \<times> ReviewDecision) list" where
  "complete_review_decisions hunks decisions =
     rbind (require (\<not> (length decisions \<noteq> length hunks
                        \<or> list_ex (\<lambda>h. case map_of decisions (sph_id h) of Some (Some _) \<Rightarrow> False | _ \<Rightarrow> True) hunks))
              (WorkspaceValidation ''Review decisions do not cover exactly every proposal hunk'')) (\<lambda>_.
     mapM (\<lambda>(i, decision). map_sum id (Pair i)
         (ok_or decision (WorkspaceValidation ''Review decision is still pending''))) decisions)"

definition atomic_step ::
  "(string \<times> ReviewDecision) list \<Rightarrow> StoredProposalHunk \<Rightarrow> (string \<times> ReviewDecision) list
     \<Rightarrow> WorkspaceCommandError + (string \<times> ReviewDecision) list" where
  "atomic_step decisions h groups =
     (case sph_atomic_group h of
        None \<Rightarrow> Inr groups
      | Some grp \<Rightarrow>
          rbind (require (\<not> blank grp) (WorkspaceValidation ''Atomic proposal group cannot be empty'')) (\<lambda>_.
          let decision = the (map_of decisions (sph_id h)) in
          rbind (require (case map_of groups grp of None \<Rightarrow> True | Some prior \<Rightarrow> prior = decision)
                   (WorkspaceValidation ''Atomic proposal group has inconsistent decisions'')) (\<lambda>_.
          Inr (AList.update grp decision groups))))"

definition validate_atomic_decisions ::
  "StoredProposalHunk list \<Rightarrow> (string \<times> ReviewDecision) list \<Rightarrow> WorkspaceCommandError + unit" where
  "validate_atomic_decisions hunks decisions =
     rbind (foldM (atomic_step decisions) hunks []) (\<lambda>_. Inr ())"

section \<open>Application\<close>

definition apply_hunk :: "StoredProposalHunk \<Rightarrow> string \<Rightarrow> WorkspaceCommandError + string" where
  "apply_hunk h out =
     rbind (boundary out (h_from h) ''Hunk start'') (\<lambda>from_byte.
     rbind (boundary out (h_to h) ''Hunk end'') (\<lambda>to_byte.
     Inr (take from_byte out @ sph_replacement h @ drop to_byte out)))"

text \<open>From the last position to the first, so that the positions before stay valid.\<close>

definition apply_proposal_hunks :: "string \<Rightarrow> StoredProposalHunk list \<Rightarrow> WorkspaceCommandError + string" where
  "apply_proposal_hunks source accepted =
     foldM apply_hunk (sort_key (\<lambda>h. (- int (h_from h), - int (h_to h))) accepted) source"

section \<open>What the application returns\<close>

text \<open>A text does not start inside a character; every \<open>String\<close> satisfies this.\<close>

definition text_start :: "string \<Rightarrow> bool" where
  "text_start s \<longleftrightarrow> s = [] \<or> \<not> cont_byte (hd s)"

definition byte_of :: "string \<Rightarrow> nat \<Rightarrow> nat" where
  "byte_of s t = the (utf16_to_byte s t)"

text \<open>The reference: one pass from left to right that copies the text between the hunks.\<close>

fun merge_hunks :: "string \<Rightarrow> nat \<Rightarrow> StoredProposalHunk list \<Rightarrow> string" where
  "merge_hunks s p [] = drop p s"
| "merge_hunks s p (h # hs) =
     drop p (take (byte_of s (h_from h)) s) @ sph_replacement h @ merge_hunks s (byte_of s (h_to h)) hs"

fun placed :: "string \<Rightarrow> nat \<Rightarrow> StoredProposalHunk list \<Rightarrow> bool" where
  "placed s pos [] \<longleftrightarrow> True"
| "placed s pos (h # hs) \<longleftrightarrow> pos \<le> h_from h \<and> h_from h \<le> h_to h \<and> utf16_to_byte s (h_from h) \<noteq> None
     \<and> utf16_to_byte s (h_to h) \<noteq> None \<and> placed s (h_to h) hs"

lemma boundary_chars:
  assumes "utf16_to_byte s t = Some b"
  obtains k where "k \<le> length (utf8_chars s)" and "take b s = concat (take k (utf8_chars s))"
    and "drop b s = concat (drop k (utf8_chars s))" and "t = units (take k (utf8_chars s))" and "b \<le> length s"
    and "b = length (concat (take k (utf8_chars s)))"
proof -
  obtain k where k: "k \<le> length (utf8_chars s)" "b = length (concat (take k (utf8_chars s)))"
    "t = units (take k (utf8_chars s))"
    using assms by (auto simp: utf16_to_byte_iff)
  have s: "s = concat (take k (utf8_chars s)) @ concat (drop k (utf8_chars s))"
    by (metis append_take_drop_id concat_append concat_utf8_chars)
  then have "take b s = concat (take k (utf8_chars s))" "drop b s = concat (drop k (utf8_chars s))"
    using k(2) by (metis append_eq_conv_conj)+
  moreover have "b \<le> length s" using k(2) s by (metis le_add1 length_append)
  ultimately show thesis using that k by blast
qed

lemma boundary_mono:
  assumes "utf16_to_byte s t = Some b" and "utf16_to_byte s t' = Some b'" and "t \<le> t'"
  shows "b \<le> b'"
proof -
  obtain k where k: "k \<le> length (utf8_chars s)" "t = units (take k (utf8_chars s))" "b = length (concat (take k (utf8_chars s)))"
    by (rule boundary_chars [OF assms(1)])
  obtain k' where k': "k' \<le> length (utf8_chars s)" "t' = units (take k' (utf8_chars s))" "b' = length (concat (take k' (utf8_chars s)))"
    by (rule boundary_chars [OF assms(2)])
  have "k \<le> k'" by (rule units_take_mono [where cs = "utf8_chars s"]) (use assms(3) k k' in simp_all)
  then have "take k' (utf8_chars s) = take k (utf8_chars s) @ take (k' - k) (drop k (utf8_chars s))"
    by (metis le_add_diff_inverse take_add)
  with k(3) k'(3) show ?thesis by simp
qed

lemma text_start_append: "text_start x \<Longrightarrow> text_start y \<Longrightarrow> text_start (x @ y)"
  by (cases x) (auto simp: text_start_def)

lemma text_start_take: "text_start x \<Longrightarrow> text_start (take n x)"
  by (cases x; cases n) (auto simp: text_start_def)

lemma text_start_drop:
  assumes "text_start s" and "utf16_to_byte s t = Some b"
  shows "text_start (drop b s)"
proof -
  let ?cs = "utf8_chars s"
  obtain k where k: "k \<le> length ?cs" "drop b s = concat (drop k ?cs)" "b = length (concat (take k ?cs))"
    by (rule boundary_chars [OF assms(2)])
  show ?thesis
  proof (cases "k = 0 \<or> drop k ?cs = []")
    case True
    then show ?thesis
    proof
      assume "k = 0"
      with k(3) assms(1) show ?thesis by simp
    next
      assume "drop k ?cs = []"
      then have "drop b s = []" unfolding k(2) by simp
      then show ?thesis by (simp add: text_start_def)
    qed
  next
    case False
    then obtain c rest where rest: "drop k ?cs = c # rest" and "0 < k" by (cases "drop k ?cs") auto
    then have c: "c \<in> set (tl ?cs)"
      by (metis drop_Suc gr0_conv_Suc in_set_dropD list.set_intros(1))
    then have "\<not> cont_byte (hd c)" "c \<noteq> []"
      using chars_wf_utf8 [of s] by (auto simp: chars_wf_def list_all_iff) (metis list.sel(2) list.set_sel(2) utf8_chars_nonempty)
    moreover have "drop b s = c @ concat rest" unfolding k(2) rest by simp
    ultimately show ?thesis by (simp add: text_start_def)
  qed
qed

lemma boundary_after:
  assumes "utf16_to_byte s t' = Some b'" and "utf16_to_byte s t = Some b" and "t \<le> t'" and "text_start x"
  shows "utf16_to_byte (take b' s @ x) t = Some b"
proof -
  let ?cs = "utf8_chars s"
  obtain k where k: "k \<le> length ?cs" "t = units (take k ?cs)" "b = length (concat (take k ?cs))"
    by (rule boundary_chars [OF assms(2)])
  obtain k' where k': "k' \<le> length ?cs" "t' = units (take k' ?cs)" "take b' s = concat (take k' ?cs)"
    by (rule boundary_chars [OF assms(1)])
  have "k \<le> k'" by (rule units_take_mono [where cs = "?cs"]) (use assms(3) k k' in simp_all)
  have "chars_wf (take k' ?cs)"
    using chars_wf_infix [of "[]" "take k' ?cs" "drop k' ?cs"] chars_wf_utf8 [of s] by simp
  moreover have "list_all (\<lambda>c. \<not> cont_byte (hd c)) (utf8_chars x)"
    using chars_wf_utf8 [of x] assms(4) by (cases x) (auto simp: chars_wf_def text_start_def)
  ultimately have "chars_wf (take k' ?cs @ utf8_chars x)"
    using chars_wf_utf8 [of x] by (cases "take k' ?cs") (auto simp: chars_wf_def)
  from utf8_chars_concat [OF this] k'(3) have "utf8_chars (take b' s @ x) = take k' ?cs @ utf8_chars x" by simp
  with \<open>k \<le> k'\<close> k k'(1) show ?thesis
    by (auto simp: utf16_to_byte_iff min_def intro!: exI [of _ k])
qed

lemma placed_weaken: "placed s pos hs \<Longrightarrow> pos' \<le> pos \<Longrightarrow> placed s pos' hs"
  by (cases hs) auto

lemma placed_filter: "placed s pos hs \<Longrightarrow> placed s pos (filter P hs)"
  by (induction hs arbitrary: pos) (auto intro: placed_weaken)

lemma merge_text_start:
  assumes "placed s pos hs" and "utf16_to_byte s pos = Some p" and "text_start s"
    and "\<forall>h \<in> set hs. text_start (sph_replacement h)"
  shows "text_start (merge_hunks s p hs)"
  using assms
proof (induction hs arbitrary: pos p)
  case (Cons h hs)
  obtain q where q: "utf16_to_byte s (h_to h) = Some q" using Cons.prems(1) by auto
  have "text_start (merge_hunks s q hs)" by (rule Cons.IH [OF _ q]) (use Cons.prems in auto)
  moreover have "text_start (drop p (take n s))" for n
    using text_start_take [OF text_start_drop [OF Cons.prems(3,2)], of "n - p"] by (simp add: drop_take)
  ultimately show ?case using Cons.prems(4) q by (auto simp: byte_of_def intro!: text_start_append)
qed (auto intro: text_start_drop)

lemma apply_descending:
  assumes "placed s pos hs" and "utf16_to_byte s pos = Some p" and "text_start s"
    and "\<forall>h \<in> set hs. text_start (sph_replacement h)"
  shows "foldM apply_hunk (rev hs) s = Inr (take p s @ merge_hunks s p hs)"
  using assms
proof (induction hs arbitrary: pos p)
  case (Cons h hs)
  obtain a q where a: "utf16_to_byte s (h_from h) = Some a" and q: "utf16_to_byte s (h_to h) = Some q"
    using Cons.prems(1) by auto
  let ?rest = "merge_hunks s q hs"
  have rest: "text_start ?rest" by (rule merge_text_start [OF _ q Cons.prems(3)]) (use Cons.prems in auto)
  have so_far: "foldM apply_hunk (rev hs) s = Inr (take q s @ ?rest)"
    by (rule Cons.IH [OF _ q Cons.prems(3)]) (use Cons.prems in auto)
  have "utf16_to_byte (take q s @ ?rest) (h_from h) = Some a" "utf16_to_byte (take q s @ ?rest) (h_to h) = Some q"
    using Cons.prems(1) by (auto intro: boundary_after [OF q a _ rest] boundary_after [OF q q _ rest])
  moreover have le: "p \<le> a" "a \<le> q" using Cons.prems(1) by (auto intro: boundary_mono [OF Cons.prems(2) a] boundary_mono [OF a q])
  moreover have "q \<le> length s" by (rule boundary_chars [OF q])
  moreover have "take a s = take p s @ drop p (take a s)"
    using le(1) by (metis append_take_drop_id min.absorb1 take_take)
  ultimately have "apply_hunk h (take q s @ ?rest) = Inr (take p s @ drop p (take a s) @ sph_replacement h @ ?rest)"
    by (simp add: apply_hunk_def boundary_def)
  with so_far show ?case using a q by (simp add: foldM_append byte_of_def)
qed simp

section \<open>What the validation accepts\<close>

definition before_hunk :: "StoredProposalHunk \<Rightarrow> StoredProposalHunk \<Rightarrow> bool" where
  "before_hunk h h' \<longleftrightarrow> (h_from h, h_to h) < (h_from h', h_to h')"

text \<open>The range of a hunk in the text is its original.\<close>

definition hunk_original :: "string \<Rightarrow> StoredProposalHunk \<Rightarrow> bool" where
  "hunk_original s h \<longleftrightarrow> drop (byte_of s (h_from h)) (take (byte_of s (h_to h)) s) = sph_original h"

definition hunks_valid :: "string \<Rightarrow> StoredProposalTarget \<Rightarrow> HunkScan \<Rightarrow> StoredProposalHunk list \<Rightarrow> bool" where
  "hunks_valid s target st hunks \<longleftrightarrow>
     placed s (hsc_previous_end st) hunks
     \<and> (\<forall>h \<in> set hunks. hunk_original s h \<and> h_to h \<le> sta_offset (spt_to target))
     \<and> distinct (map sph_id hunks) \<and> set (map sph_id hunks) \<inter> set (hsc_ids st) = {}
     \<and> sorted_wrt before_hunk hunks
     \<and> (\<forall>h \<in> set hunks. hsc_previous_end st \<le> h_from h \<and> h_from h \<le> h_to h
         \<and> \<not> (h_from h = h_to h \<and> hsc_previous_insertion st = Some (h_from h)))"

lemma hunk_step_facts:
  assumes "hunk_step sha s target h st = Inr st'"
  shows "hunk_placed target st h" and "sph_id h \<notin> set (hsc_ids st)"
    and "utf16_to_byte s (h_from h) \<noteq> None" and "utf16_to_byte s (h_to h) \<noteq> None" and "hunk_original s h"
    and "st' = \<lparr>hsc_ids = sph_id h # hsc_ids st, hsc_previous_end = h_to h,
          hsc_previous_insertion = (if h_from h = h_to h then Some (h_from h) else None)\<rparr>"
  using assms by (auto simp: hunk_step_def Let_def result_simps boundary_def hunk_original_def byte_of_def)

lemma validated_hunks:
  assumes "foldM (hunk_step sha s target) hunks st = Inr st'"
    and "\<forall>p. hsc_previous_insertion st = Some p \<longrightarrow> hsc_previous_end st = p"
  shows "hunks_valid s target st hunks"
  using assms
proof (induction hunks arbitrary: st)
  case (Cons h hs)
  obtain st1 where step: "hunk_step sha s target h st = Inr st1" and later: "foldM (hunk_step sha s target) hs st1 = Inr st'"
    using Cons.prems(1) by (auto simp: result_simps)
  note f = hunk_step_facts [OF step]
  have at: "hsc_previous_end st \<le> h_from h" "h_from h \<le> h_to h" "h_to h \<le> sta_offset (spt_to target)"
    "\<not> (h_from h = h_to h \<and> hsc_previous_insertion st = Some (h_from h))"
    using f(1) by (auto simp: hunk_placed_def)
  have "hunks_valid s target st1 hs" by (rule Cons.IH [OF later]) (simp add: f(6))
  then have rest: "placed s (h_to h) hs" "\<forall>h \<in> set hs. hunk_original s h \<and> h_to h \<le> sta_offset (spt_to target)"
    "distinct (map sph_id hs)" "set (map sph_id hs) \<inter> set (sph_id h # hsc_ids st) = {}" "sorted_wrt before_hunk hs"
    and after: "\<And>h'. h' \<in> set hs \<Longrightarrow> h_to h \<le> h_from h' \<and> h_from h' \<le> h_to h'
      \<and> \<not> (h_from h' = h_to h' \<and> h_from h = h_to h \<and> h_from h = h_from h')"
    by (auto simp: hunks_valid_def f(6) split: if_splits)
  have "\<forall>h' \<in> set hs. before_hunk h h'" using after at(2) by (fastforce simp: before_hunk_def)
  moreover have "\<not> (h_from h' = h_to h' \<and> hsc_previous_insertion st = Some (h_from h'))" if "h' \<in> set hs" for h'
  proof
    assume p: "h_from h' = h_to h' \<and> hsc_previous_insertion st = Some (h_from h')"
    then have "hsc_previous_end st = h_from h'" using Cons.prems(2) by blast
    with p at after [OF that] show False by auto
  qed
  moreover have "hsc_previous_end st \<le> h_from h'" if "h' \<in> set hs" for h'
    using at(1,2) after [OF that] by linarith
  ultimately show ?case
    using rest at f(2,3,4,5) after by (auto simp: hunks_valid_def)
qed (simp add: hunks_valid_def)

lemma validate_hunks_facts:
  assumes "validate_proposal_hunks sha s target hunks = Inr ()"
  obtains a b where "utf16_to_byte s (sta_offset (spt_from target)) = Some a"
    and "utf16_to_byte s (sta_offset (spt_to target)) = Some b"
    and "placed s (sta_offset (spt_from target)) hunks" and "sorted_wrt before_hunk hunks" and "distinct (map sph_id hunks)"
    and "\<forall>h \<in> set hunks. hunk_original s h \<and> h_to h \<le> sta_offset (spt_to target)"
proof -
  obtain a b st where "utf16_to_byte s (sta_offset (spt_from target)) = Some a"
    "utf16_to_byte s (sta_offset (spt_to target)) = Some b"
    "foldM (hunk_step sha s target) hunks
       \<lparr>hsc_ids = [], hsc_previous_end = sta_offset (spt_from target), hsc_previous_insertion = None\<rparr> = Inr st"
    using assms by (auto simp: validate_proposal_hunks_def result_simps boundary_def)
  with validated_hunks [OF this(3)] that show thesis by (auto simp: hunks_valid_def)
qed

lemma sorted_hunks_descend:
  assumes "sorted_wrt before_hunk hs"
  shows "sort_key (\<lambda>h. (- int (h_from h), - int (h_to h))) hs = rev hs"
proof (rule properties_for_sort_key)
  let ?f = "\<lambda>h. (- int (h_from h), - int (h_to h))"
  show "mset (rev hs) = mset hs" by simp
  show "sorted (map ?f (rev hs))"
    by (simp add: sorted_wrt_map rev_map [symmetric] sorted_wrt_rev)
      (rule sorted_wrt_mono_rel [OF _ assms], auto simp: before_hunk_def)
  have "distinct (map ?f hs)"
    using assms by (induction hs) (auto simp: before_hunk_def)
  then show "filter (\<lambda>x. ?f k = ?f x) (rev hs) = filter (\<lambda>x. ?f k = ?f x) hs" if "k \<in> set (rev hs)" for k
  proof -
    have "length (filter (\<lambda>x. ?f k = ?f x) hs) \<le> 1" using \<open>distinct (map ?f hs)\<close>
      by (induction hs) (auto simp: filter_empty_conv image_iff)
    then show ?thesis by (simp add: rev_filter [symmetric]) (cases "filter (\<lambda>x. ?f k = ?f x) hs"; auto)
  qed
qed

section \<open>Properties of the application\<close>

lemma drop_cut: "p \<le> q \<Longrightarrow> drop p s = drop p (take q s) @ drop q s"
  unfolding drop_take by (metis append_take_drop_id drop_drop le_add_diff_inverse2)

lemma slice_split: "p \<le> q \<Longrightarrow> q \<le> a \<Longrightarrow> drop p (take a s) = drop p (take q s) @ drop q (take a s)"
  using drop_cut [of p q "take a s"] by (simp add: min_absorb1)

lemma merge_skip:
  assumes "placed s pos hs" and "utf16_to_byte s pos = Some q" and "p \<le> q"
  shows "merge_hunks s p hs = drop p (take q s) @ merge_hunks s q hs"
proof (cases hs)
  case Nil
  have "drop p s = drop p (take q s) @ drop q s" by (rule drop_cut [OF assms(3)])
  with Nil show ?thesis by simp
next
  case (Cons h hs')
  obtain a where a: "utf16_to_byte s (h_from h) = Some a" using assms(1) Cons by auto
  have "q \<le> a" using assms(1) Cons by (auto intro: boundary_mono [OF assms(2) a])
  from slice_split [OF assms(3) this] have "drop p (take a s) = drop p (take q s) @ drop q (take a s)" .
  with Cons a show ?thesis by (simp add: byte_of_def)
qed

text \<open>A rejected hunk keeps its original.\<close>

definition keep_original :: "(StoredProposalHunk \<Rightarrow> bool) \<Rightarrow> StoredProposalHunk \<Rightarrow> StoredProposalHunk" where
  "keep_original accepted h = (if accepted h then h else h\<lparr>sph_replacement := sph_original h\<rparr>)"

lemma merge_rejected:
  assumes "placed s pos hs" and "utf16_to_byte s pos = Some p" and "\<forall>h \<in> set hs. hunk_original s h"
  shows "merge_hunks s p (filter accepted hs) = merge_hunks s p (map (keep_original accepted) hs)"
  using assms
proof (induction hs arbitrary: pos p)
  case (Cons h hs)
  obtain a q where a: "utf16_to_byte s (h_from h) = Some a" and q: "utf16_to_byte s (h_to h) = Some q"
    using Cons.prems(1) by auto
  have le: "p \<le> a" "a \<le> q" using Cons.prems(1) by (auto intro: boundary_mono [OF Cons.prems(2) a] boundary_mono [OF a q])
  have IH: "merge_hunks s q (filter accepted hs) = merge_hunks s q (map (keep_original accepted) hs)"
    by (rule Cons.IH [OF _ q]) (use Cons.prems in auto)
  have skip: "merge_hunks s p (filter accepted hs) = drop p (take q s) @ merge_hunks s q (filter accepted hs)"
    by (rule merge_skip [OF _ q]) (use Cons.prems(1) le in \<open>auto intro: placed_filter\<close>)
  have "drop p (take q s) @ x = drop p (take a s) @ drop a (take q s) @ x" for x
    using slice_split [OF le] by simp
  then show ?case
    using a q IH skip Cons.prems(3) by (auto simp: keep_original_def [of accepted h] byte_of_def hunk_original_def)
qed simp

lemma merge_tail:
  assumes "placed s pos hs" and "utf16_to_byte s stop = Some b" and "\<forall>h \<in> set hs. h_to h \<le> stop"
    and "utf16_to_byte s pos = Some p" and "pos \<le> stop"
  shows "\<exists>middle. merge_hunks s p hs = middle @ drop b s"
  using assms
proof (induction hs arbitrary: pos p)
  case Nil
  have "p \<le> b" by (rule boundary_mono [OF Nil.prems(4,2,5)])
  then have "drop p s = take (b - p) (drop p s) @ drop b s"
    by (metis append_take_drop_id drop_drop le_add_diff_inverse2)
  then show ?case by auto
next
  case (Cons h hs)
  obtain q where q: "utf16_to_byte s (h_to h) = Some q" using Cons.prems(1) by auto
  obtain middle where "merge_hunks s q hs = middle @ drop b s"
    using Cons.IH [OF _ Cons.prems(2) _ q] Cons.prems by auto
  with q show ?case by (auto simp: byte_of_def)
qed

lemma applied_hunks:
  assumes "validate_proposal_hunks sha source target hunks = Inr ()"
    and "text_start source" and "\<forall>h \<in> set hunks. text_start (sph_replacement h)"
  shows "apply_proposal_hunks source (filter accepted hunks) = Inr (merge_hunks source 0 (filter accepted hunks))
    \<and> merge_hunks source 0 (filter accepted hunks) = merge_hunks source 0 (map (keep_original accepted) hunks)
    \<and> (\<exists>middle. merge_hunks source 0 (filter accepted hunks)
         = take (byte_of source (sta_offset (spt_from target))) source @ middle
           @ drop (byte_of source (sta_offset (spt_to target))) source)"
proof -
  obtain a b where a: "utf16_to_byte source (sta_offset (spt_from target)) = Some a"
    and b: "utf16_to_byte source (sta_offset (spt_to target)) = Some b"
    and placed: "placed source (sta_offset (spt_from target)) hunks" and sorted: "sorted_wrt before_hunk hunks"
    and original: "\<forall>h \<in> set hunks. hunk_original source h \<and> h_to h \<le> sta_offset (spt_to target)"
    by (rule validate_hunks_facts [OF assms(1)])
  have zero: "utf16_to_byte source 0 = Some 0" by (simp add: utf16_to_byte_def)
  have placed0: "placed source 0 hunks" by (rule placed_weaken [OF placed]) simp
  have "sorted_wrt before_hunk (filter accepted hunks)" using sorted by (rule sorted_wrt_filter)
  from sorted_hunks_descend [OF this] apply_descending [OF placed_filter [OF placed0] zero assms(2), of accepted] assms(3)
  have applied: "apply_proposal_hunks source (filter accepted hunks) = Inr (merge_hunks source 0 (filter accepted hunks))"
    by (simp add: apply_proposal_hunks_def)
  have rejected: "merge_hunks source 0 (filter accepted hunks) = merge_hunks source 0 (map (keep_original accepted) hunks)"
    by (rule merge_rejected [OF placed0 zero]) (use original in blast)
  have skip: "merge_hunks source 0 (filter accepted hunks) = take a source @ merge_hunks source a (filter accepted hunks)"
    using merge_skip [OF placed_filter [OF placed, of accepted] a, of 0] by simp
  have "hunks \<noteq> []" using assms(1) by (auto simp: validate_proposal_hunks_def result_simps)
  then have "sta_offset (spt_from target) \<le> sta_offset (spt_to target)"
    using placed original by (cases hunks) force+
  from merge_tail [OF placed_filter [OF placed, of accepted] b _ a this] original
  obtain middle where "merge_hunks source a (filter accepted hunks) = middle @ drop b source" by auto
  with skip have "merge_hunks source 0 (filter accepted hunks) = take a source @ middle @ drop b source" by simp
  with applied rejected a b show ?thesis unfolding byte_of_def by (metis option.sel)
qed

lemmas applied_hunks_merge = applied_hunks [THEN conjunct1]

text \<open>
  C11. A proposal that was validated against the text of its block is applied exactly as it was
  reviewed. For every choice of accepted hunks the application succeeds and returns what one pass
  from left to right makes of the text: the range of each accepted hunk is its replacement, the
  range of each rejected one keeps its original, and everything between and around them, in
  particular everything outside the target, is copied. That the code replaces from the end, and
  looks positions up in the partly replaced text, makes no difference.
\<close>

theorem applied_hunks_exact:
  assumes "validate_proposal_hunks sha source target hunks = Inr ()"
    and "text_start source" and "\<forall>h \<in> set hunks. text_start (sph_replacement h)"
  shows "apply_proposal_hunks source (filter accepted hunks) = Inr (merge_hunks source 0 (filter accepted hunks))
    \<and> merge_hunks source 0 (filter accepted hunks) = merge_hunks source 0 (map (keep_original accepted) hunks)
    \<and> (\<exists>middle. merge_hunks source 0 (filter accepted hunks)
         = take (byte_of source (sta_offset (spt_from target))) source @ middle
           @ drop (byte_of source (sta_offset (spt_to target))) source)"
  by (rule applied_hunks [OF assms])

section \<open>Properties of the decisions\<close>

text \<open>An event decides the hunk it names and the hunks of the same atomic group.\<close>

definition decides :: "StoredProposalHunk list \<Rightarrow> StoredProposalHunk \<Rightarrow> ReviewEventRecord \<Rightarrow> bool" where
  "decides hunks h e \<longleftrightarrow> rev_kind e = ReviewEventKind.Decision
     \<and> (\<exists>s \<in> set hunks. rev_hunk_id e = Some (sph_id s)
          \<and> (s = h \<or> (sph_atomic_group s \<noteq> None \<and> sph_atomic_group s = sph_atomic_group h)))"

definition last_decision :: "StoredProposalHunk list \<Rightarrow> ReviewEventRecord list \<Rightarrow> StoredProposalHunk \<Rightarrow> ReviewDecision option" where
  "last_decision hunks events h =
     (let es = filter (decides hunks h) events in if es = [] then None else rev_decision (last es))"

lemma map_of_fold_update:
  "map_of (fold (\<lambda>h. AList.update (sph_id h) v) hs d) k = (if k \<in> sph_id ` set hs then Some v else map_of d k)"
  by (induction hs arbitrary: d) (auto simp: update_conv')

lemma replay_event_facts:
  assumes "replay_event hunks e d = Inr d'" and "distinct (map sph_id hunks)" and "h \<in> set hunks"
  shows "map_of d' (sph_id h) = (if decides hunks h e then Some (rev_decision e) else map_of d (sph_id h))"
    and "decides hunks h e \<Longrightarrow> rev_decision e \<noteq> None \<and> (\<forall>g. sph_atomic_group h = Some g \<longrightarrow> \<not> blank g)"
proof -
  have same: "s = h'" if "s \<in> set hunks" "h' \<in> set hunks" "sph_id s = sph_id h'" for s h'
    using assms(2) that by (auto simp: distinct_map inj_on_def)
  have "map_of d' (sph_id h) = (if decides hunks h e then Some (rev_decision e) else map_of d (sph_id h))
    \<and> (decides hunks h e \<longrightarrow> rev_decision e \<noteq> None \<and> (\<forall>g. sph_atomic_group h = Some g \<longrightarrow> \<not> blank g))"
  proof (cases "rev_kind e = ReviewEventKind.Decision")
    case False
    with assms(1) show ?thesis by (simp add: replay_event_def decides_def)
  next
    case True
    then obtain i v s decided where event: "rev_hunk_id e = Some i" "rev_decision e = Some v"
      "find_by sph_id i hunks = Some s" "selected_hunks hunks s = Inr decided"
      and d': "d' = fold (\<lambda>h. AList.update (sph_id h) (Some v)) decided d"
      using assms(1) by (auto simp: replay_event_def result_simps)
    have s: "s \<in> set hunks" "sph_id s = i" using event(3) by (auto simp: find_by_Some_iff dest: find_by_SomeD)
    have decided: "decided = (case sph_atomic_group s of None \<Rightarrow> [s] | Some g \<Rightarrow> filter (\<lambda>h. sph_atomic_group h = Some g) hunks)"
      and marked: "\<forall>g. sph_atomic_group s = Some g \<longrightarrow> \<not> blank g"
      using event(4) by (auto simp: selected_hunks_def result_simps split: option.splits)
    have "decides hunks h e \<longleftrightarrow> s = h \<or> (sph_atomic_group s \<noteq> None \<and> sph_atomic_group s = sph_atomic_group h)"
      using True event(1) s same by (auto simp: decides_def)
    moreover have "sph_id h \<in> sph_id ` set decided \<longleftrightarrow> s = h \<or> (sph_atomic_group s \<noteq> None \<and> sph_atomic_group s = sph_atomic_group h)"
      using assms(3) s(1) by (auto simp: decided split: option.splits dest: same [OF assms(3)] same [OF s(1)])
    ultimately show ?thesis using marked by (auto simp: d' map_of_fold_update event(2))
  qed
  then show "map_of d' (sph_id h) = (if decides hunks h e then Some (rev_decision e) else map_of d (sph_id h))"
    "decides hunks h e \<Longrightarrow> rev_decision e \<noteq> None \<and> (\<forall>g. sph_atomic_group h = Some g \<longrightarrow> \<not> blank g)"
    by auto
qed

lemma replay_facts:
  assumes "replay_review_decisions hunks events = Inr d" and "distinct (map sph_id hunks)" and "h \<in> set hunks"
  shows "map_of d (sph_id h) = Some (last_decision hunks events h)"
    and "last_decision hunks events h \<noteq> None \<Longrightarrow> sph_atomic_group h = Some g \<Longrightarrow> \<not> blank g"
proof -
  have "map_of d (sph_id h) = Some (last_decision hunks events h)
    \<and> (last_decision hunks events h \<noteq> None \<longrightarrow> sph_atomic_group h = Some g \<longrightarrow> \<not> blank g)"
    using assms(1) unfolding replay_review_decisions_def
  proof (induction events arbitrary: d rule: rev_induct)
    case Nil
    then show ?case using assms(3) by (auto simp: last_decision_def map_of_fold_update)
  next
    case (snoc e es)
    then obtain d1 where d1: "foldM (replay_event hunks) es (fold (\<lambda>h. AList.update (sph_id h) None) hunks []) = Inr d1"
      and step: "replay_event hunks e d1 = Inr d"
      by (auto simp: foldM_append result_simps)
    show ?case using snoc.IH [OF d1] replay_event_facts [OF step assms(2,3)] by (auto simp: last_decision_def Let_def)
  qed
  then show "map_of d (sph_id h) = Some (last_decision hunks events h)"
    "last_decision hunks events h \<noteq> None \<Longrightarrow> sph_atomic_group h = Some g \<Longrightarrow> \<not> blank g" by auto
qed

lemma completed_decisions:
  assumes "mapM (\<lambda>(i, decision). map_sum id (Pair i) (ok_or decision err)) pending = Inr decisions"
  shows "map_option Some (map_of decisions k) = map_of pending k"
  using assms unfolding mapM_Inr_iff
proof (induction pending decisions rule: list_all2_induct)
  case (Cons x xs y ys)
  then show ?case by (cases x; cases "snd x") (auto simp: ok_or_def)
qed simp

lemma atomic_steps_succeed:
  assumes "\<forall>h \<in> set hs. \<forall>g. sph_atomic_group h = Some g \<longrightarrow> \<not> blank g"
    and "\<forall>h g. h \<in> set hs \<longrightarrow> sph_atomic_group h = Some g \<longrightarrow> the (map_of decisions (sph_id h)) = v g"
    and "\<forall>g d. map_of groups g = Some d \<longrightarrow> d = v g"
  shows "\<exists>groups'. foldM (atomic_step decisions) hs groups = Inr groups'"
  using assms
proof (induction hs arbitrary: groups)
  case (Cons h hs)
  show ?case
  proof (cases "sph_atomic_group h")
    case None
    with Cons show ?thesis by (auto simp: atomic_step_def)
  next
    case (Some g)
    have "atomic_step decisions h groups = Inr (AList.update g (v g) groups)"
      using Some Cons.prems by (auto simp: atomic_step_def Let_def require_def split: option.splits)
    moreover have "\<exists>groups'. foldM (atomic_step decisions) hs (AList.update g (v g) groups) = Inr groups'"
      by (rule Cons.IH) (use Cons.prems in \<open>auto simp: update_conv'\<close>)
    ultimately show ?thesis by simp
  qed
qed simp

lemma replayed_decisions:
  assumes "replay_review_decisions hunks events = Inr pending" and "distinct (map sph_id hunks)"
    and "complete_review_decisions hunks pending = Inr decisions"
  shows "(\<forall>h \<in> set hunks. map_of decisions (sph_id h) = last_decision hunks events h \<and> last_decision hunks events h \<noteq> None)
    \<and> (\<forall>h \<in> set hunks. \<forall>h' \<in> set hunks. sph_atomic_group h \<noteq> None \<and> sph_atomic_group h = sph_atomic_group h'
        \<longrightarrow> map_of decisions (sph_id h) = map_of decisions (sph_id h'))
    \<and> validate_atomic_decisions hunks decisions = Inr ()"
proof -
  have total: "\<exists>v. map_of pending (sph_id h) = Some (Some v)" if "h \<in> set hunks" for h
    using assms(3) that by (auto simp: complete_review_decisions_def result_simps list_ex_iff split: option.splits) metis
  have final: "map_of decisions (sph_id h) = last_decision hunks events h \<and> last_decision hunks events h \<noteq> None"
    if "h \<in> set hunks" for h
  proof -
    have "map_option Some (map_of decisions (sph_id h)) = map_of pending (sph_id h)"
      using assms(3) by (auto simp: complete_review_decisions_def rbind_Inr_iff intro: completed_decisions)
    with total [OF that] replay_facts(1) [OF assms(1,2) that] show ?thesis by auto
  qed
  have same: "last_decision hunks events h = last_decision hunks events h'"
    if "sph_atomic_group h \<noteq> None" "sph_atomic_group h = sph_atomic_group h'" "h \<in> set hunks" "h' \<in> set hunks" for h h'
  proof -
    have "decides hunks h = decides hunks h'" using that by (auto simp: decides_def fun_eq_iff)
    then show ?thesis by (simp add: last_decision_def)
  qed
  have marked: "\<forall>h \<in> set hunks. \<forall>g. sph_atomic_group h = Some g \<longrightarrow> \<not> blank g"
    using replay_facts(2) [OF assms(1,2)] final by blast
  define v where "v g = the (last_decision hunks events (SOME h. h \<in> set hunks \<and> sph_atomic_group h = Some g))" for g
  have "the (map_of decisions (sph_id h)) = v g" if "h \<in> set hunks" "sph_atomic_group h = Some g" for h g
  proof -
    let ?r = "SOME h. h \<in> set hunks \<and> sph_atomic_group h = Some g"
    have "?r \<in> set hunks \<and> sph_atomic_group ?r = Some g" using that by (rule_tac someI [of _ h]) simp
    then show ?thesis using final [OF that(1)] same [of h ?r] that by (simp add: v_def)
  qed
  with atomic_steps_succeed [OF marked, of decisions v "[]"]
  have "validate_atomic_decisions hunks decisions = Inr ()" by (auto simp: validate_atomic_decisions_def)
  moreover have "map_of decisions (sph_id h) = map_of decisions (sph_id h')"
    if "h \<in> set hunks" "h' \<in> set hunks" "sph_atomic_group h \<noteq> None" "sph_atomic_group h = sph_atomic_group h'" for h h'
    using same [OF that(3,4,1,2)] final that(1,2) by simp
  ultimately show ?thesis using final by blast
qed

lemmas decisions_are_last = replayed_decisions [THEN conjunct1]

text \<open>
  C12. The decisions that are applied are the ones the review log records. When the replay of the log
  decides every hunk of a proposal with distinct hunk ids, the decision of a hunk is the one of the
  last event that names it or a hunk of its atomic group; so the hunks of an atomic group are
  decided alike, and the separate check of the groups never refuses what the replay produced.
\<close>

theorem replayed_decisions_final:
  assumes "replay_review_decisions hunks events = Inr pending" and "distinct (map sph_id hunks)"
    and "complete_review_decisions hunks pending = Inr decisions"
  shows "(\<forall>h \<in> set hunks. map_of decisions (sph_id h) = last_decision hunks events h \<and> last_decision hunks events h \<noteq> None)
    \<and> (\<forall>h \<in> set hunks. \<forall>h' \<in> set hunks. sph_atomic_group h \<noteq> None \<and> sph_atomic_group h = sph_atomic_group h'
        \<longrightarrow> map_of decisions (sph_id h) = map_of decisions (sph_id h'))
    \<and> validate_atomic_decisions hunks decisions = Inr ()"
  by (rule replayed_decisions [OF assms])

text \<open>An insertion and an atomic group of two replacements, in a text with a surrogate pair.\<close>

definition sample_anchor :: "nat \<Rightarrow> StoredTextAnchor" where
  "sample_anchor offset = \<lparr>sta_block_id = ''blk'', sta_offset = offset\<rparr>"

definition sample_hunk :: "string \<Rightarrow> nat \<Rightarrow> nat \<Rightarrow> string \<Rightarrow> string \<Rightarrow> string option \<Rightarrow> StoredProposalHunk" where
  "sample_hunk i start stop original content grp =
     \<lparr>sph_id = i, sph_from = sample_anchor start, sph_to = sample_anchor stop, sph_original = original,
      sph_replacement = content, sph_atomic_group = grp\<rparr>"

definition sample_pair :: string where
  "sample_pair = [CHR 0xF0, CHR 0x9F, CHR 0x98, CHR 0x80]"

definition sample_text :: string where
  "sample_text = ''a'' @ sample_pair @ ''bc''"

definition sample_hunks :: "StoredProposalHunk list" where
  "sample_hunks = [sample_hunk ''1'' 1 1 [] ''x'' None, sample_hunk ''2'' 1 3 sample_pair ''yz'' (Some ''g''),
     sample_hunk ''3'' 3 5 ''bc'' [] (Some ''g'')]"

definition sample_target :: StoredProposalTarget where
  "sample_target = \<lparr>spt_document_id = ''doc'', spt_block_id = ''blk'', spt_base_revision = 0, spt_base_hash = ''h'',
     spt_from = sample_anchor 1, spt_to = sample_anchor 5\<rparr>"

definition sample_decision :: "string \<Rightarrow> ReviewDecision \<Rightarrow> ReviewEventRecord" where
  "sample_decision i decision =
     \<lparr>rev_id = ''e'', rev_proposal_id = ''p'', rev_sequence = 1, rev_base_revision = 0, rev_new_revision = 1,
      rev_kind = ReviewEventKind.Decision, rev_previous_status = ReviewSessionStatus.Review,
      rev_next_status = ReviewSessionStatus.Review, rev_hunk_id = Some i, rev_decision = Some decision,
      rev_payload_json = None, rev_occurred_at = ''t''\<rparr>"

definition sample_events :: "ReviewEventRecord list" where
  "sample_events = [sample_decision ''1'' ReviewDecision.Rejected, sample_decision ''3'' ReviewDecision.Accepted]"

theorem applied_hunks_exact_witness:
  "apply_proposal_hunks sample_text (filter (\<lambda>h. sph_id h \<noteq> ''1'') sample_hunks) = Inr ''ayz''"
proof -
  have valid: "validate_proposal_hunks (\<lambda>x. x) sample_text sample_target sample_hunks = Inr ()" by code_simp
  have start: "text_start sample_text" by code_simp
  have starts: "\<forall>h \<in> set sample_hunks. text_start (sph_replacement h)" by code_simp
  have merged: "merge_hunks sample_text 0 (filter (\<lambda>h. sph_id h \<noteq> ''1'') sample_hunks) = ''ayz''" by code_simp
  from applied_hunks_exact [OF valid start starts, of "\<lambda>h. sph_id h \<noteq> ''1''"] merged show ?thesis by simp
qed

theorem replayed_decisions_final_witness:
  "\<exists>decisions. map_of decisions ''2'' = Some ReviewDecision.Accepted \<and> validate_atomic_decisions sample_hunks decisions = Inr ()"
proof -
  define pending where "pending = projr (replay_review_decisions sample_hunks sample_events)"
  define decisions where "decisions = projr (complete_review_decisions sample_hunks pending)"
  have replayed: "replay_review_decisions sample_hunks sample_events = Inr pending"
    unfolding pending_def by code_simp
  have completed: "complete_review_decisions sample_hunks pending = Inr decisions"
    unfolding decisions_def pending_def by code_simp
  have ids: "distinct (map sph_id sample_hunks)" by code_simp
  have last: "last_decision sample_hunks sample_events (sample_hunks ! 1) = Some ReviewDecision.Accepted"
    "sph_id (sample_hunks ! 1) = ''2''" "sample_hunks ! 1 \<in> set sample_hunks" by code_simp+
  from replayed_decisions_final [OF replayed ids completed] last show ?thesis by metis
qed

end
