(* ===== verification/Workspace.thy ===== *)
theory Workspace
  imports OperationContext StoreReachable
begin

text \<open>
  The workspace commands of the host (\<open>workspace_commands.rs\<close>): the hashes of a block, a
  document and a project, loading a workspace, saving a block and creating a document. A command
  first reads and checks, then runs one command of the store, then reads its answer; an error
  while reading the answer comes after the store has committed. The clock, the random ids, SHA-256
  and JSON text are the record \<open>WorkspaceEnv\<close>, one value of it for each command; the entries of a
  JSON object have no order.
\<close>

section \<open>The environment of a command\<close>

record WorkspaceEnv =
  we_store :: Env
  we_sha256 :: "string \<Rightarrow> string"
  we_to_string :: "json \<Rightarrow> string option"
  we_from_str :: "string \<Rightarrow> json option"
  we_uuid :: "string \<Rightarrow> string"
  we_now :: "string option"

definition MAX_CONTENT_JSON_BYTES :: nat where "MAX_CONTENT_JSON_BYTES = 4 * 1024 * 1024"
definition MAX_PLAIN_TEXT_BYTES :: nat where "MAX_PLAIN_TEXT_BYTES = 2 * 1024 * 1024"

definition now :: "WorkspaceEnv \<Rightarrow> WorkspaceCommandError + string" where
  "now env = ok_or (we_now env) ClockFailed"

definition generated_id :: "WorkspaceEnv \<Rightarrow> string \<Rightarrow> string" where
  "generated_id env prefix = prefix @ ''-'' @ we_uuid env prefix"

definition serialize :: "WorkspaceEnv \<Rightarrow> json \<Rightarrow> WorkspaceCommandError + string" where
  "serialize env v = ok_or (we_to_string env v) WorkspaceJson"

text \<open>Checks on the store as it is, one command of the store, and what is read after it.\<close>

definition after_store ::
  "'a StoreResult \<times> Database \<Rightarrow> ('a \<Rightarrow> Database \<Rightarrow> WorkspaceCommandError + 'b)
     \<Rightarrow> (WorkspaceCommandError + 'b) \<times> Database" where
  "after_store p answer =
     (case p of (Inl e, db) \<Rightarrow> (Inl (WorkspaceStore e), db) | (Inr x, db) \<Rightarrow> (answer x db, db))"

definition checked_command ::
  "WorkspaceCommandError + 'c \<Rightarrow> Database \<Rightarrow> ('c \<Rightarrow> Database \<Rightarrow> 'a StoreResult \<times> Database)
     \<Rightarrow> ('a \<Rightarrow> Database \<Rightarrow> WorkspaceCommandError + 'b) \<Rightarrow> (WorkspaceCommandError + 'b) \<times> Database" where
  "checked_command command db run answer =
     (case command of Inl e \<Rightarrow> (Inl e, db) | Inr c \<Rightarrow> after_store (run c db) answer)"

section \<open>Hashes\<close>

definition append_hash_field :: "string \<Rightarrow> string" where
  "append_hash_field v = show_nat (length v) @ '':'' @ v"

definition block_content_hash ::
  "WorkspaceEnv \<Rightarrow> string \<Rightarrow> json \<Rightarrow> string \<Rightarrow> bool \<Rightarrow> WorkspaceCommandError + string" where
  "block_content_hash env kind content plain_text locked =
     rbind (serialize env (JObject [(''content'', content), (''kind'', JString kind), (''locked'', JBool locked),
              (''plainText'', JString plain_text)])) (\<lambda>payload.
     Inr (we_sha256 env payload))"

definition document_state_payload :: "DocumentRecord \<Rightarrow> bool \<Rightarrow> string" where
  "document_state_payload d active =
     ''optimizer-document-state-v1'' @ [CHR 0x00] @ append_hash_field (doc_id d)
     @ (case doc_parent_id d of None \<Rightarrow> [CHR 0x00] | Some parent_id \<Rightarrow> CHR 0x01 # append_hash_field parent_id)
     @ append_hash_field (doc_kind d) @ append_hash_field (doc_title d) @ append_hash_field (doc_order_key d)
     @ [if active then CHR 0x01 else CHR 0x00]"

definition document_state_hash :: "(string \<Rightarrow> string) \<Rightarrow> DocumentRecord \<Rightarrow> bool \<Rightarrow> string" where
  "document_state_hash sha d active = sha (document_state_payload d active)"

definition root_entries ::
  "(string \<Rightarrow> string) \<Rightarrow> DocumentRecord list \<Rightarrow> (string \<times> string) list \<Rightarrow> (string \<times> string) list" where
  "root_entries sha documents blocks =
     map (\<lambda>d. (''document:'' @ doc_id d, document_state_hash sha d True)) documents
     @ map (\<lambda>(i, h). (''block:'' @ i, h)) blocks"

definition root_payload :: "(string \<times> string) list \<Rightarrow> string" where
  "root_payload entries =
     ''optimizer-project-root-v2'' @ [CHR 0x00]
     @ concat (map (\<lambda>(i, h). append_hash_field i @ append_hash_field h) (sort_key fst entries))"

definition project_root_hash ::
  "(string \<Rightarrow> string) \<Rightarrow> DocumentRecord list \<Rightarrow> (string \<times> string) list \<Rightarrow> string" where
  "project_root_hash sha documents blocks = sha (root_payload (root_entries sha documents blocks))"

abbreviation block_hashes :: "BlockRecord list \<Rightarrow> (string \<times> string) list" where
  "block_hashes blocks \<equiv> map (\<lambda>b. (blk_id b, blk_content_hash b)) blocks"

section \<open>The workspace\<close>

record WorkspaceDocument =
  wdo_id :: string
  wdo_parent_id :: "string option"
  wdo_kind :: string
  wdo_title :: string
  wdo_order_key :: string
  wdo_revision :: int

record WorkspaceBlock =
  wbl_id :: string
  wbl_document_id :: string
  wbl_kind :: string
  wbl_order_key :: string
  wbl_content :: json
  wbl_plain_text :: string
  wbl_content_hash :: string
  wbl_revision :: int
  wbl_locked :: bool

record ProjectWorkspace =
  pws_project_id :: string
  pws_main_branch_id :: string
  pws_head_commit_id :: string
  pws_revision :: int
  pws_documents :: "WorkspaceDocument list"
  pws_blocks :: "WorkspaceBlock list"

definition workspace_document :: "DocumentRecord \<Rightarrow> WorkspaceDocument" where
  "workspace_document d =
     \<lparr>wdo_id = doc_id d, wdo_parent_id = doc_parent_id d, wdo_kind = doc_kind d, wdo_title = doc_title d,
      wdo_order_key = doc_order_key d, wdo_revision = doc_revision d\<rparr>"

definition workspace_block :: "WorkspaceEnv \<Rightarrow> BlockRecord \<Rightarrow> WorkspaceCommandError + WorkspaceBlock" where
  "workspace_block env b =
     rbind (ok_or (we_from_str env (blk_content_json b)) (StoredContent (blk_id b))) (\<lambda>content.
     Inr \<lparr>wbl_id = blk_id b, wbl_document_id = blk_document_id b, wbl_kind = blk_kind b,
          wbl_order_key = blk_order_key b, wbl_content = content, wbl_plain_text = blk_plain_text b,
          wbl_content_hash = blk_content_hash b, wbl_revision = blk_revision b, wbl_locked = blk_locked b\<rparr>)"

definition load_project_workspace ::
  "WorkspaceEnv \<Rightarrow> string \<Rightarrow> string \<Rightarrow> Database \<Rightarrow> WorkspaceCommandError + ProjectWorkspace" where
  "load_project_workspace env project_id main_branch_id db =
     rbind (store_result (get_project project_id db)) (\<lambda>project.
     rbind (store_result (get_branch main_branch_id db)) (\<lambda>branch.
     rbind (require (br_project_id branch = pj_id project \<and> br_head_commit_id branch = pj_head_commit_id project)
              (WorkspaceStore (InvariantViolation ''main branch and project head diverged''))) (\<lambda>_.
     rbind (store_result (list_documents project_id db)) (\<lambda>documents.
     rbind (store_result (list_blocks project_id db)) (\<lambda>blocks.
     rbind (mapM (workspace_block env) blocks) (\<lambda>workspace_blocks.
     Inr \<lparr>pws_project_id = pj_id project, pws_main_branch_id = br_id branch,
          pws_head_commit_id = pj_head_commit_id project, pws_revision = pj_revision project,
          pws_documents = map workspace_document documents, pws_blocks = workspace_blocks\<rparr>))))))"

section \<open>Saving a block\<close>

record SaveBlockSpec =
  svs_block_id :: string
  svs_expected_revision :: int
  svs_expected_hash :: string
  svs_content :: json
  svs_plain_text :: string

record SaveBlockResponse =
  svr_edit_id :: string
  svr_commit_id :: string
  svr_previous_head_commit_id :: string
  svr_head_commit_id :: string
  svr_project_revision :: int
  svr_block :: WorkspaceBlock

definition validate_save_spec :: "SaveBlockSpec \<Rightarrow> WorkspaceCommandError + unit" where
  "validate_save_spec spec =
     rbind (require (\<not> (blank (svs_block_id spec) \<or> length (svs_block_id spec) > 200
                        \<or> blank (svs_expected_hash spec) \<or> svs_expected_revision spec < 0))
              (WorkspaceValidation ''Block id, expected revision and expected hash are invalid'')) (\<lambda>_.
     rbind (require (json_as_object (svs_content spec) \<noteq> None)
              (WorkspaceValidation ''Block content must be a JSON object'')) (\<lambda>_.
     require (length (svs_plain_text spec) \<le> MAX_PLAIN_TEXT_BYTES)
       (WorkspaceValidation (''Block plain text exceeds '' @ show_nat MAX_PLAIN_TEXT_BYTES @ '' bytes''))))"

text \<open>The hash of the project once a block has a new content.\<close>

definition edited_root_hash :: "WorkspaceEnv \<Rightarrow> string \<Rightarrow> string \<Rightarrow> string \<Rightarrow> Database \<Rightarrow> WorkspaceCommandError + string" where
  "edited_root_hash env project_id block_id content_hash db =
     rbind (store_result (list_documents project_id db)) (\<lambda>documents.
     rbind (store_result (list_blocks project_id db)) (\<lambda>blocks.
     Inr (project_root_hash (we_sha256 env) documents
            (map (\<lambda>b. (blk_id b, if blk_id b = block_id then content_hash else blk_content_hash b)) blocks))))"

definition save_command ::
  "WorkspaceEnv \<Rightarrow> string \<Rightarrow> string \<Rightarrow> SaveBlockSpec \<Rightarrow> Database \<Rightarrow> WorkspaceCommandError + ApplyBlockEdit" where
  "save_command env project_id main_branch_id spec db =
     rbind (validate_save_spec spec) (\<lambda>_.
     rbind (store_result (get_project project_id db)) (\<lambda>project.
     rbind (store_result (get_project_block project_id (svs_block_id spec) db)) (\<lambda>current.
     rbind (require (blk_revision current = svs_expected_revision spec
                      \<and> blk_content_hash current = svs_expected_hash spec)
              (WorkspaceStore (StoreError.Conflict ''block'' (blk_id current) (svs_expected_revision spec)
                 (blk_revision current) (svs_expected_hash spec) (blk_content_hash current)))) (\<lambda>_.
     rbind (serialize env (svs_content spec)) (\<lambda>content_json.
     rbind (require (length content_json \<le> MAX_CONTENT_JSON_BYTES)
              (WorkspaceValidation (''Block content exceeds '' @ show_nat MAX_CONTENT_JSON_BYTES @ '' bytes''))) (\<lambda>_.
     rbind (block_content_hash env (blk_kind current) (svs_content spec) (svs_plain_text spec) (blk_locked current))
       (\<lambda>content_hash.
     rbind (require (\<not> (content_hash = blk_content_hash current \<and> content_json = blk_content_json current
                        \<and> svs_plain_text spec = blk_plain_text current)) NoChanges) (\<lambda>_.
     rbind (edited_root_hash env project_id (blk_id current) content_hash db) (\<lambda>root_hash.
     rbind (now env) (\<lambda>occurred_at.
     Inr \<lparr>abe_edit_id = generated_id env ''edit'', abe_commit_id = generated_id env ''commit'',
          abe_branch_id = main_branch_id, abe_expected_head_commit_id = pj_head_commit_id project,
          abe_expected_project_revision = pj_revision project, abe_block_id = svs_block_id spec,
          abe_expected_revision = svs_expected_revision spec, abe_expected_hash = svs_expected_hash spec,
          abe_new_content_json = content_json, abe_new_plain_text = svs_plain_text spec,
          abe_new_content_hash = content_hash, abe_new_root_hash = root_hash, abe_reason = ''autosave'',
          abe_actor_type = ''user'', abe_actor_id = None, abe_occurred_at = occurred_at,
          abe_review_event = None\<rparr>))))))))))"

definition save_response ::
  "WorkspaceEnv \<Rightarrow> string \<Rightarrow> EditReceipt \<Rightarrow> Database \<Rightarrow> WorkspaceCommandError + SaveBlockResponse" where
  "save_response env project_id receipt db =
     rbind (store_result (get_project project_id db)) (\<lambda>project.
     rbind (store_result (get_project_block project_id (er_block_id receipt) db)) (\<lambda>record.
     rbind (workspace_block env record) (\<lambda>block.
     Inr \<lparr>svr_edit_id = er_edit_id receipt, svr_commit_id = er_commit_id receipt,
          svr_previous_head_commit_id = er_previous_head_commit_id receipt,
          svr_head_commit_id = pj_head_commit_id project, svr_project_revision = pj_revision project,
          svr_block = block\<rparr>)))"

definition save_block ::
  "WorkspaceEnv \<Rightarrow> string \<Rightarrow> string \<Rightarrow> SaveBlockSpec \<Rightarrow> Database
     \<Rightarrow> (WorkspaceCommandError + SaveBlockResponse) \<times> Database" where
  "save_block env project_id main_branch_id spec db =
     checked_command (save_command env project_id main_branch_id spec db) db
       (apply_block_edit (we_store env)) (save_response env project_id)"

end
