(* ===== verification/WorkspaceEdits.thy ===== *)
theory WorkspaceEdits
  imports Workspace "HOL-Library.Multiset"
begin

text \<open>
  What an edit that the host issues leaves in the store: the rows of documents, blocks, commits
  and projects after \<open>apply_block_edit\<close>, and the relation between the root hash of the head commit
  and the stored documents and blocks.
\<close>

section \<open>Answers of the store\<close>

lemma store_result_Inr_iff [result_simps]: "store_result r = Inr x \<longleftrightarrow> r = Inr x"
  by (cases r) (auto simp: store_result_def)

section \<open>Statements that leave the content alone\<close>

definition same_content :: "Database \<Rightarrow> Database \<Rightarrow> bool" where
  "same_content db db' \<longleftrightarrow> document_t db' = document_t db \<and> block_t db' = block_t db
     \<and> commit_node_t db' = commit_node_t db \<and> project_t db' = project_t db"

lemma same_content_refl [simp]: "same_content db db"
  by (simp add: same_content_def)

lemma same_content_trans [trans]: "same_content db db' \<Longrightarrow> same_content db' db'' \<Longrightarrow> same_content db db''"
  by (simp add: same_content_def)

lemma same_content_statements:
  "insert_edit_journal env e db = Inr db' \<Longrightarrow> same_content db db'"
  "insert_commit_parent cp db = Inr db' \<Longrightarrow> same_content db db'"
  "insert_change_set ch db = Inr db' \<Longrightarrow> same_content db db'"
  "enqueue_summary_invalidation pid ty i cid reason tm db = Inr db' \<Longrightarrow> same_content db db'"
  "update_branch_head cid tm bhit db = Inr (n, db') \<Longrightarrow> same_content db db'"
  "insert_review_event env ev db = Inr db' \<Longrightarrow> same_content db db'"
  "update_review_head rv st tm i orv ost db = Inr (n, db') \<Longrightarrow> same_content db db'"
  "insert_lifecycle lc db = Inr db' \<Longrightarrow> same_content db db'"
  "update_run_state nst tm i ost db = Inr (n, db') \<Longrightarrow> same_content db db'"
  by (auto simp: same_content_def insert_edit_journal_def insert_commit_parent_def insert_change_set_def
      enqueue_summary_invalidation_def upsert_invalidation_def update_branch_head_def insert_review_event_def
      update_review_head_def insert_lifecycle_def update_run_state_def constrain_Inr_iff Let_def result_simps)

lemma same_content_fold:
  assumes "foldM f xs db = Inr db'" and "\<And>x db db'. f x db = Inr db' \<Longrightarrow> same_content db db'"
  shows "same_content db db'"
  by (rule foldM_rel [OF assms]) (assumption, simp, rule same_content_trans)

lemma move_run_content:
  assumes "update_operation_state_for_review i st tm reason db = Inr db'"
  shows "same_content db db'"
proof -
  have "db' = db \<or> (\<exists>lc d a b n. insert_lifecycle lc db = Inr d \<and> update_run_state a tm i b d = Inr (n, db'))"
    using assms by (auto simp: update_operation_state_for_review_def Let_def result_simps split: if_splits)
  then show ?thesis
    using same_content_statements(8,9) same_content_trans same_content_refl by blast
qed

lemma append_event_content:
  assumes "append_review_event_in_transaction env e db = Inr (s, db')"
  shows "same_content db db'"
proof -
  obtain ev d1 a b i k st n d2 run where s1: "insert_review_event env ev db = Inr d1"
    and s2: "update_review_head a b (are_occurred_at e) i k st d1 = Inr (n, d2)"
    and s3: "update_operation_state_for_review run (are_next_status e) (are_occurred_at e)
      (review_event_kind_as_str (are_kind e)) d2 = Inr db'"
    using assms
    by (auto simp: append_review_event_in_transaction_def Let_def result_simps split: if_splits)
  from same_content_statements(6) [OF s1] same_content_statements(7) [OF s2] move_run_content [OF s3]
  show ?thesis by (rule same_content_trans [OF same_content_trans])
qed

lemma apply_review_content: "apply_review env c db = Inr db' \<Longrightarrow> same_content db db'"
  by (cases "abe_review_event c") (auto simp: apply_review_def result_simps dest: append_event_content)

section \<open>The rows after an edit\<close>

abbreviation bumped :: "DocumentRecord \<Rightarrow> DocumentRecord" where
  "bumped d \<equiv> d\<lparr>doc_revision := doc_revision d + 1\<rparr>"

lemma edit_tables:
  assumes "keys_ok db" and "apply_block_edit env c db = (Inr r, db')"
  obtains e where "read_block_for_edit (abe_block_id c) db = Inr e"
    and "er_block_id r = abe_block_id c" and "er_commit_id r = abe_commit_id c"
    and "block_t db' = update_where (\<lambda>b. blk_id b = abe_block_id c) (edited_block c (abe_expected_revision c + 1)) (block_t db)"
    and "document_t db' = update_where (\<lambda>d. doc_id d = eb_document_id e \<and> doc_deleted_at d = None) bumped (document_t db)"
    and "commit_node_t db' = commit_node_t db @ [edit_commit c (eb_project_id e)]"
    and "abe_commit_id c \<notin> cn_id ` set (commit_node_t db)"
    and "project_t db' = update_where (\<lambda>p. pr_id p = eb_project_id e)
        (\<lambda>p. p\<lparr>pr_head_commit_id := Some (abe_commit_id c), pr_revision := pr_revision p + 1,
               pr_updated_at := abe_occurred_at c\<rparr>) (project_t db)"
proof -
  obtain e b d1 d2 d3 d4 d5 d6 d7 d8 d9 pa where
    e: "read_block_for_edit (abe_block_id c) db = Inr e" "eb_revision e = abe_expected_revision c"
    and s1: "update_block env (edited_block c (eb_revision e + 1)) (edit_hits c) db = Inr (1, d1)"
    and s2: "insert_edit_journal env (edit_entry c e) d1 = Inr d2"
    and s3: "bump_document (eb_document_id e) d2 = Inr (1, d3)"
    and s4: "insert_commit (edit_commit c (eb_project_id e)) d3 = Inr d4"
    and s5: "foldM (\<lambda>(scope_type, scope_id). enqueue_summary_invalidation (eb_project_id e)
        scope_type scope_id (abe_commit_id c) (abe_reason c) (abe_occurred_at c))
        [(''project'', eb_project_id e), (''document'', eb_document_id e), (''block'', abe_block_id c)]
        d4 = Inr d5"
    and s6: "insert_commit_parent pa d5 = Inr d6"
    and s7: "insert_change_set (edit_change c) d6 = Inr d7"
    and s8: "update_branch_head (abe_commit_id c) (abe_occurred_at c) (\<lambda>b. br_id b = abe_branch_id c
        \<and> br_head_commit_id b = abe_expected_head_commit_id c) d7 = Inr (1, d8)"
    and s9: "update_project_head (abe_commit_id c) (\<lambda>r. r + 1) (abe_occurred_at c)
        (\<lambda>q. pr_id q = eb_project_id e) d8 = Inr (1, d9)"
    and s10: "apply_review env c d9 = Inr db'"
    by (rule apply_block_edit_steps [OF assms(2)])
  have r: "er_block_id r = abe_block_id c" "er_commit_id r = abe_commit_id c"
    using assms(2) unfolding apply_block_edit_def by (auto simp: result_simps split_beta)
  have hits: "edit_hits c b \<longleftrightarrow> blk_id b = abe_block_id c" if "b \<in> set (block_t db)" for b
  proof -
    have "rows_where (edit_hits c) (block_t db) = 1" using update_block_frame(5) [OF s1] by simp
    then have "filter (edit_hits c) (block_t db) \<noteq> []" by (auto simp: rows_where_def)
    then obtain x where x: "x \<in> set (block_t db)" "edit_hits c x" by (auto simp: filter_empty_conv)
    then have "blk_id b = abe_block_id c \<Longrightarrow> b = x"
      using key_eqD [of blk_id "block_t db" b x] that assms(1) by (simp add: keys_ok_def edit_hits_def)
    with x show ?thesis by (auto simp: edit_hits_def)
  qed
  have 1: "block_t d1 = update_where (\<lambda>b. blk_id b = abe_block_id c) (edited_block c (abe_expected_revision c + 1)) (block_t db)"
    unfolding update_block_frame(4) [OF s1] e(2) update_where_def by (rule map_cong) (auto simp: hits)
  have d1: "document_t d1 = document_t db" "project_t d1 = project_t db" "commit_node_t d1 = commit_node_t db"
    using s1 by (auto simp: update_block_def Let_def constrain_Inr_iff)
  have 2: "same_content d1 d2" by (rule same_content_statements(1) [OF s2])
  have 3: "document_t d3 = update_where (\<lambda>d. doc_id d = eb_document_id e \<and> doc_deleted_at d = None) bumped (document_t d2)"
    "block_t d3 = block_t d2" "project_t d3 = project_t d2" "commit_node_t d3 = commit_node_t d2"
    using s3 by (auto simp: bump_document_def update_document_def Let_def constrain_Inr_iff)
  have 4: "document_t d4 = document_t d3" "block_t d4 = block_t d3" "project_t d4 = project_t d3"
    "commit_node_t d4 = commit_node_t d3 @ [edit_commit c (eb_project_id e)]"
    "abe_commit_id c \<notin> cn_id ` set (commit_node_t d3)"
    using s4 by (auto simp: insert_commit_def edit_commit_def constrain_Inr_iff)
  have "same_content d4 d5" by (rule same_content_fold [OF s5]) (auto intro: same_content_statements(4))
  also have "same_content d5 d6" by (rule same_content_statements(2) [OF s6])
  also have "same_content d6 d7" by (rule same_content_statements(3) [OF s7])
  also have "same_content d7 d8" by (rule same_content_statements(5) [OF s8])
  finally have 8: "same_content d4 d8" .
  have 9: "document_t d9 = document_t d8" "block_t d9 = block_t d8" "commit_node_t d9 = commit_node_t d8"
    "project_t d9 = update_where (\<lambda>p. pr_id p = eb_project_id e)
        (\<lambda>p. p\<lparr>pr_head_commit_id := Some (abe_commit_id c), pr_revision := pr_revision p + 1,
               pr_updated_at := abe_occurred_at c\<rparr>) (project_t d8)"
    using s9 by (auto simp: update_project_head_def constrain_Inr_iff)
  have 10: "same_content d9 db'" by (rule apply_review_content [OF s10])
  show thesis
    by (rule that [OF e(1) r]) (use 1 d1 2 3 4 8 9 10 in \<open>simp_all add: same_content_def\<close>)
qed

section \<open>The root hash of the head\<close>

text \<open>The head commit of the project carries the root hash of the stored documents and blocks.\<close>

definition head_rooted :: "(string \<Rightarrow> string) \<Rightarrow> string \<Rightarrow> Database \<Rightarrow> bool" where
  "head_rooted sha project_id db \<longleftrightarrow>
     (\<exists>project commit documents blocks. get_project project_id db = Inr project
        \<and> find_by cn_id (pj_head_commit_id project) (commit_node_t db) = Some commit
        \<and> list_documents project_id db = Inr documents \<and> list_blocks project_id db = Inr blocks
        \<and> cn_root_hash commit = project_root_hash sha documents (block_hashes blocks))"

lemma root_payload_mset:
  assumes "mset xs = mset ys" and "distinct (map fst xs)"
  shows "root_payload xs = root_payload ys"
proof -
  have "sort_key fst xs = sort_key fst ys"
    by (rule sort_key_inj_key_eq) (use assms in \<open>simp_all add: distinct_map\<close>)
  then show ?thesis by (simp add: root_payload_def)
qed

lemma project_root_hash_mset:
  assumes "mset (map (\<lambda>d. (doc_id d, document_state_hash sha d True)) ds)
      = mset (map (\<lambda>d. (doc_id d, document_state_hash sha d True)) ds')"
    and "mset bs = mset bs'" and "distinct (map doc_id ds)" and "distinct (map fst bs)"
  shows "project_root_hash sha ds bs = project_root_hash sha ds' bs'"
  unfolding project_root_hash_def
proof (rule arg_cong [of _ _ sha], rule root_payload_mset)
  let ?name = "\<lambda>(i, h). (''document:'' @ i, h :: string)"
  have "map (\<lambda>d. (''document:'' @ doc_id d, document_state_hash sha d True)) xs
      = map ?name (map (\<lambda>d. (doc_id d, document_state_hash sha d True)) xs)" for xs by simp
  with assms(1,2) show "mset (root_entries sha ds bs) = mset (root_entries sha ds' bs')"
    unfolding root_entries_def mset_append by (simp only: mset_map)
  show "distinct (map fst (root_entries sha ds bs))"
  proof -
    have "map fst (root_entries sha ds bs) = map ((@) ''document:'') (map doc_id ds) @ map ((@) ''block:'') (map fst bs)"
      by (simp add: root_entries_def split_beta comp_def)
    moreover have "distinct (map ((@) p) xs) \<longleftrightarrow> distinct xs" for p :: string and xs
      by (simp add: distinct_map inj_on_def)
    ultimately show ?thesis using assms(3,4) by (auto simp del: map_map)
  qed
qed

lemma document_state_bumped [simp]: "document_state_hash sha (bumped d) active = document_state_hash sha d active"
  by (simp add: document_state_hash_def document_state_payload_def)

lemma joined_blocks_map:
  assumes "document_t db' = map f (document_t db)" and "block_t db' = map g (block_t db)"
    and "\<And>d. doc_id (f d) = doc_id d" and "\<And>b. blk_document_id (g b) = blk_document_id b"
  shows "joined_blocks db' = map (map_prod f g) (joined_blocks db)"
proof -
  have find: "find_by doc_id i (map f ds) = map_option f (find_by doc_id i ds)" for i ds
    by (induction ds) (auto simp: find_by_def assms(3))
  have "List.map_filter (\<lambda>b. map_option (\<lambda>d. (d, b)) (find_by doc_id (blk_document_id b) (map f ds))) (map g bs)
      = map (map_prod f g) (List.map_filter (\<lambda>b. map_option (\<lambda>d. (d, b)) (find_by doc_id (blk_document_id b) ds)) bs)" for ds bs
    by (induction bs) (auto simp: List.map_filter_simps find assms(4) split: option.splits)
  then show ?thesis unfolding joined_blocks_def assms(1,2) .
qed

lemma mset_list_blocks:
  "list_blocks project_id db = Inr blocks \<Longrightarrow>
     mset blocks = mset (map (\<lambda>(d, b). block_record b) (filter (\<lambda>(d, b). doc_project_id d = project_id
        \<and> doc_deleted_at d = None \<and> blk_deleted_at b = None) (joined_blocks db)))"
  by (auto simp: list_blocks_def)

lemma mset_list_documents:
  "list_documents project_id db = Inr documents \<Longrightarrow>
     mset documents = mset (filter (\<lambda>d. doc_project_id d = project_id \<and> doc_deleted_at d = None) (document_t db))"
  by (auto simp: list_documents_def)

lemma joined_block_ids: "distinct (map blk_id (block_t db)) \<Longrightarrow> distinct (map (\<lambda>(d, b). blk_id b) (joined_blocks db))"
  (is "_ \<Longrightarrow> ?thesis")
proof -
  have "map (\<lambda>(d, b). blk_id b) (List.map_filter (\<lambda>b. map_option (\<lambda>d. (d, b)) (f b)) bs)
      = map blk_id (filter (\<lambda>b. f b \<noteq> None) bs)" for f :: "BlockRow \<Rightarrow> DocumentRecord option" and bs
    by (induction bs) (auto simp: List.map_filter_simps)
  then show "distinct (map blk_id (block_t db)) \<Longrightarrow> ?thesis" by (simp add: joined_blocks_def distinct_map_filter)
qed

lemma list_documents_distinct:
  assumes "distinct (map doc_id (document_t db))" and "list_documents project_id db = Inr documents"
  shows "distinct (map doc_id documents)"
proof -
  have "mset (map doc_id documents) = mset (map doc_id (filter (\<lambda>d. doc_project_id d = project_id
      \<and> doc_deleted_at d = None) (document_t db)))"
    using mset_list_documents [OF assms(2)] by (simp only: mset_map)
  then show ?thesis
    using distinct_map_filter [OF assms(1)] mset_eq_imp_distinct_iff by metis
qed

lemma list_blocks_distinct:
  assumes "distinct (map blk_id (block_t db))" and "list_blocks project_id db = Inr blocks"
  shows "distinct (map blk_id blocks)"
proof -
  let ?rows = "filter (\<lambda>(d, b). doc_project_id d = project_id \<and> doc_deleted_at d = None
      \<and> blk_deleted_at b = None) (joined_blocks db)"
  have "map blk_id (map (\<lambda>(d, b). block_record b) ?rows) = map (\<lambda>(d, b). blk_id b) ?rows"
    by (simp add: split_beta block_record_def BlockRecord.defs)
  moreover have "mset (map blk_id blocks) = mset (map blk_id (map (\<lambda>(d, b). block_record b) ?rows))"
    using mset_list_blocks [OF assms(2)] by (simp only: mset_map)
  ultimately have "mset (map blk_id blocks) = mset (map (\<lambda>(d, b). blk_id b) ?rows)" by (simp only:)
  from mset_eq_imp_distinct_iff [OF this] distinct_map_filter [OF joined_block_ids [OF assms(1)]]
  show ?thesis by (rule iffD2)
qed

lemma find_map_same: "(\<And>x. P (h x) = P x) \<Longrightarrow> List.find P (map h xs) = map_option h (List.find P xs)"
  by (induction xs) auto

text \<open>The block as the edit leaves it.\<close>

definition edited_record :: "ApplyBlockEdit \<Rightarrow> BlockRecord \<Rightarrow> BlockRecord" where
  "edited_record c b = b\<lparr>blk_content_json := abe_new_content_json c, blk_plain_text := abe_new_plain_text c,
     blk_content_hash := abe_new_content_hash c, blk_revision := abe_expected_revision c + 1\<rparr>"

lemma get_project_block_facts:
  assumes "keys_ok db" and "get_project_block project_id i db = Inr b"
  obtains d x where "d \<in> set (document_t db)" and "x \<in> set (block_t db)" and "b = block_record x" and "blk_id x = i"
    and "doc_id d = blk_document_id x" and "doc_project_id d = project_id" and "doc_deleted_at d = None"
    and "blk_deleted_at x = None"
proof -
  obtain d x where found: "List.find (\<lambda>(d, b). doc_project_id d = project_id \<and> blk_id b = i
        \<and> doc_deleted_at d = None \<and> blk_deleted_at b = None) (joined_blocks db) = Some (d, x)" and b: "b = block_record x"
    using assms(2) by (auto simp: get_project_block_def result_simps)
  note f = find_joined [where P = "\<lambda>d b. doc_project_id d = project_id \<and> blk_id b = i
        \<and> doc_deleted_at d = None \<and> blk_deleted_at b = None", OF assms(1) found]
  show thesis by (rule that [of d x]) (use f b in auto)
qed

lemma edit_head_rooted:
  assumes keys: "keys_ok db" and edit: "apply_block_edit env c db = (Inr r, db')"
    and project: "get_project project_id db = Inr project"
    and current: "get_project_block project_id (abe_block_id c) db = Inr current"
    and documents: "list_documents project_id db = Inr documents" and blocks: "list_blocks project_id db = Inr blocks"
    and root: "abe_new_root_hash c = project_root_hash sha documents
        (map (\<lambda>b. (blk_id b, if blk_id b = abe_block_id c then abe_new_content_hash c else blk_content_hash b)) blocks)"
  shows "head_rooted sha project_id db'"
    and "get_project_block project_id (abe_block_id c) db' = Inr (edited_record c current)"
    and "\<exists>project'. get_project project_id db' = Inr project' \<and> pj_head_commit_id project' = abe_commit_id c
      \<and> pj_revision project' = pj_revision project + 1"
proof -
  obtain e where e: "read_block_for_edit (abe_block_id c) db = Inr e"
    and block_t: "block_t db' = update_where (\<lambda>b. blk_id b = abe_block_id c) (edited_block c (abe_expected_revision c + 1)) (block_t db)"
    and document_t: "document_t db' = update_where (\<lambda>d. doc_id d = eb_document_id e \<and> doc_deleted_at d = None) bumped (document_t db)"
    and commit_t: "commit_node_t db' = commit_node_t db @ [edit_commit c (eb_project_id e)]"
    and fresh: "abe_commit_id c \<notin> cn_id ` set (commit_node_t db)"
    and project_t: "project_t db' = update_where (\<lambda>p. pr_id p = eb_project_id e)
        (\<lambda>p. p\<lparr>pr_head_commit_id := Some (abe_commit_id c), pr_revision := pr_revision p + 1,
               pr_updated_at := abe_occurred_at c\<rparr>) (project_t db)"
    by (rule edit_tables [OF keys edit])
  let ?f = "\<lambda>d. if doc_id d = eb_document_id e \<and> doc_deleted_at d = None then bumped d else d"
  let ?g = "\<lambda>b :: BlockRow. if blk_id b = abe_block_id c then edited_block c (abe_expected_revision c + 1) b else b"
  have "eb_project_id e = project_id"
    by (rule get_project_block_facts [OF keys current], rule read_block_for_edit_facts [OF keys e])
      (use keys key_eqD [of blk_id "block_t db"] key_eqD [of doc_id "document_t db"] in \<open>fastforce simp: keys_ok_def\<close>)
  obtain p where p: "find_by pr_id project_id (project_t db) = Some p" "pj_revision project = pr_revision p"
    using project by (auto simp: get_project_def result_simps)
  then have "pr_id p = project_id" by (auto dest: find_by_SomeD)
  have "find_by pr_id project_id (project_t db') = Some (p\<lparr>pr_head_commit_id := Some (abe_commit_id c),
      pr_revision := pr_revision p + 1, pr_updated_at := abe_occurred_at c\<rparr>)"
    using p(1) \<open>pr_id p = project_id\<close> \<open>eb_project_id e = project_id\<close> by (simp add: project_t find_by_update_where)
  then show project': "\<exists>project'. get_project project_id db' = Inr project'
      \<and> pj_head_commit_id project' = abe_commit_id c \<and> pj_revision project' = pj_revision project + 1"
    using p(2) by (simp add: get_project_def)
  have joined: "joined_blocks db' = map (map_prod ?f ?g) (joined_blocks db)"
    by (rule joined_blocks_map) (simp_all add: document_t block_t update_where_def edited_block_def)
  let ?here = "\<lambda>(d, b). doc_project_id d = project_id \<and> doc_deleted_at d = None \<and> blk_deleted_at b = None"
  have kept: "?here (map_prod ?f ?g p) = ?here p" for p by (cases p) (simp add: edited_block_def)
  obtain documents' where documents': "list_documents project_id db' = Inr documents'" by (simp add: list_documents_def)
  obtain blocks' where blocks': "list_blocks project_id db' = Inr blocks'" by (simp add: list_blocks_def)
  have states: "mset (map (\<lambda>d. (doc_id d, document_state_hash sha d True)) documents')
      = mset (map (\<lambda>d. (doc_id d, document_state_hash sha d True)) documents)"
  proof -
    let ?P = "\<lambda>d. doc_project_id d = project_id \<and> doc_deleted_at d = None"
    have "filter ?P (map ?f ds) = map ?f (filter ?P ds)" for ds by (induction ds) auto
    then have "mset documents' = image_mset ?f (mset documents)"
      unfolding mset_list_documents [OF documents'] mset_list_documents [OF documents] document_t update_where_def
      by (simp only: mset_map)
    then have "mset (map (\<lambda>d. (doc_id d, document_state_hash sha d True)) documents')
        = {#(doc_id (?f d), document_state_hash sha (?f d) True). d \<in># mset documents#}"
      by (simp only: mset_map multiset.map_comp comp_def)
    also have "\<dots> = {#(doc_id d, document_state_hash sha d True). d \<in># mset documents#}"
      by (rule image_mset_cong) simp
    finally show ?thesis by simp
  qed
  have hashes: "mset (block_hashes blocks')
      = mset (map (\<lambda>b. (blk_id b, if blk_id b = abe_block_id c then abe_new_content_hash c else blk_content_hash b)) blocks)"
  proof -
    let ?rows = "filter ?here (joined_blocks db)" and ?rec = "\<lambda>(d :: DocumentRecord, b :: BlockRow). block_record b"
    let ?hash = "\<lambda>b. (blk_id b, if blk_id b = abe_block_id c then abe_new_content_hash c else blk_content_hash b)"
    have "filter ?here (map (map_prod ?f ?g) ps) = map (map_prod ?f ?g) (filter ?here ps)" for ps
      by (induction ps) (simp_all add: kept)
    then have "mset (block_hashes blocks') = mset (block_hashes (map ?rec (map (map_prod ?f ?g) ?rows)))"
      using mset_list_blocks [OF blocks'] unfolding joined by (simp only: mset_map)
    also have "block_hashes (map ?rec (map (map_prod ?f ?g) ?rows)) = map ?hash (map ?rec ?rows)"
      by (auto simp: block_record_def edited_block_def BlockRecord.defs)
    also have "mset (map ?hash (map ?rec ?rows)) = mset (map ?hash blocks)"
      using mset_list_blocks [OF blocks] by (simp only: mset_map)
    finally show ?thesis .
  qed
  have "map doc_id (document_t db') = map doc_id (document_t db)" "map blk_id (block_t db') = map blk_id (block_t db)"
    by (simp_all add: document_t block_t edited_block_def)
  then have distinct: "distinct (map doc_id documents')" "distinct (map fst (block_hashes blocks'))"
    using list_documents_distinct [OF _ documents'] list_blocks_distinct [OF _ blocks'] keys
    by (simp_all add: keys_ok_def comp_def)
  have "project_root_hash sha documents' (block_hashes blocks') = abe_new_root_hash c"
    unfolding root by (rule project_root_hash_mset [OF states hashes distinct])
  moreover have "find_by cn_id (abe_commit_id c) (commit_node_t db') = Some (edit_commit c (eb_project_id e))"
    using fresh by (simp add: commit_t find_by_None_iff [THEN iffD2] edit_commit_def)
  ultimately show "head_rooted sha project_id db'"
    using project' documents' blocks' by (auto simp: head_rooted_def edit_commit_def)
  let ?the = "\<lambda>(d, b). doc_project_id d = project_id \<and> blk_id b = abe_block_id c
      \<and> doc_deleted_at d = None \<and> blk_deleted_at b = None"
  obtain d x where x: "List.find ?the (joined_blocks db) = Some (d, x)" "current = block_record x"
    using current by (auto simp: get_project_block_def result_simps)
  then have "blk_id x = abe_block_id c" by (auto simp: find_Some_iff)
  moreover have "List.find ?the (joined_blocks db') = map_option (map_prod ?f ?g) (List.find ?the (joined_blocks db))"
    unfolding joined by (rule find_map_same) (simp add: edited_block_def split: prod.split)
  ultimately show "get_project_block project_id (abe_block_id c) db' = Inr (edited_record c current)"
    using x by (simp add: get_project_block_def edited_record_def block_record_def edited_block_def BlockRecord.defs)
qed

section \<open>Saving a block\<close>

lemma save_command_facts:
  assumes "save_command env project_id main_branch_id spec db = Inr c"
  obtains project current documents blocks where
    "get_project project_id db = Inr project" and "get_project_block project_id (abe_block_id c) db = Inr current"
    and "list_documents project_id db = Inr documents" and "list_blocks project_id db = Inr blocks"
    and "abe_new_root_hash c = project_root_hash (we_sha256 env) documents
        (map (\<lambda>b. (blk_id b, if blk_id b = blk_id current then abe_new_content_hash c else blk_content_hash b)) blocks)"
    and "abe_block_id c = svs_block_id spec" and "abe_new_plain_text c = svs_plain_text spec"
    and "we_to_string env (svs_content spec) = Some (abe_new_content_json c)"
    and "block_content_hash env (blk_kind current) (svs_content spec) (svs_plain_text spec) (blk_locked current)
        = Inr (abe_new_content_hash c)"
    and "abe_expected_revision c = blk_revision current" and "svs_expected_revision spec = blk_revision current"
    and "svs_expected_hash spec = blk_content_hash current" and "abe_branch_id c = main_branch_id"
    and "abe_expected_head_commit_id c = pj_head_commit_id project"
proof -
  obtain project current content_json content_hash root_hash occurred_at where
    facts: "get_project project_id db = Inr project" "get_project_block project_id (svs_block_id spec) db = Inr current"
      "blk_revision current = svs_expected_revision spec" "blk_content_hash current = svs_expected_hash spec"
      "we_to_string env (svs_content spec) = Some content_json"
      "block_content_hash env (blk_kind current) (svs_content spec) (svs_plain_text spec) (blk_locked current) = Inr content_hash"
      "edited_root_hash env project_id (blk_id current) content_hash db = Inr root_hash"
    and c: "c = \<lparr>abe_edit_id = generated_id env ''edit'', abe_commit_id = generated_id env ''commit'',
          abe_branch_id = main_branch_id, abe_expected_head_commit_id = pj_head_commit_id project,
          abe_expected_project_revision = pj_revision project, abe_block_id = svs_block_id spec,
          abe_expected_revision = svs_expected_revision spec, abe_expected_hash = svs_expected_hash spec,
          abe_new_content_json = content_json, abe_new_plain_text = svs_plain_text spec,
          abe_new_content_hash = content_hash, abe_new_root_hash = root_hash, abe_reason = ''autosave'',
          abe_actor_type = ''user'', abe_actor_id = None, abe_occurred_at = occurred_at,
          abe_review_event = None\<rparr>"
    using assms by (auto simp: save_command_def result_simps serialize_def store_result_def map_sum_def split: sum.splits)
  obtain documents blocks where "list_documents project_id db = Inr documents" "list_blocks project_id db = Inr blocks"
    "root_hash = project_root_hash (we_sha256 env) documents
        (map (\<lambda>b. (blk_id b, if blk_id b = blk_id current then content_hash else blk_content_hash b)) blocks)"
    using facts(7) by (auto simp: edited_root_hash_def result_simps store_result_def map_sum_def split: sum.splits)
  with facts c show thesis by (intro that [of project current documents blocks]) (simp_all cong: if_cong)
qed

lemma project_block_id: "get_project_block project_id i db = Inr b \<Longrightarrow> blk_id b = i"
  by (auto simp: get_project_block_def result_simps find_Some_iff block_record_def BlockRecord.defs)

lemma failed_store_command:
  assumes "apply_block_edit env c db = (Inl e, db')"
  shows "db' = db"
  using assms by (simp add: apply_block_edit_def checked_transaction_Inl_iff)

text \<open>
  C2. Saving a block stores what was sent and keeps the history verifiable. A save that succeeds was
  made for the current revision and hash of the block; afterwards the block has the text, the
  content and the content hash that were sent and the next revision, and the root hash of the new
  head commit is the hash of the documents and blocks that are now stored. A save that fails, at
  whatever step, leaves the store as it was, provided that JSON text that was printed can be read.
\<close>

theorem save_block_outcome:
  assumes "store_reachable (we_store env) cdc db"
    and "\<And>v text. we_to_string env v = Some text \<Longrightarrow> we_from_str env text \<noteq> None"
  shows "case save_block env project_id main_branch_id spec db of
      (Inl e, db') \<Rightarrow> db' = db
    | (Inr response, db') \<Rightarrow> head_rooted (we_sha256 env) project_id db'
        \<and> svr_head_commit_id response = svr_commit_id response
        \<and> (\<exists>old new. get_project_block project_id (svs_block_id spec) db = Inr old
            \<and> blk_revision old = svs_expected_revision spec \<and> blk_content_hash old = svs_expected_hash spec
            \<and> get_project_block project_id (svs_block_id spec) db' = Inr new
            \<and> blk_plain_text new = svs_plain_text spec \<and> blk_revision new = blk_revision old + 1
            \<and> we_to_string env (svs_content spec) = Some (blk_content_json new)
            \<and> block_content_hash env (blk_kind new) (svs_content spec) (blk_plain_text new) (blk_locked new)
                = Inr (blk_content_hash new))"
proof -
  have keys: "keys_ok db"
    using store_okD(1) [OF store_reachable_ok [OF assms(1)]] by (simp add: project_ok_def)
  show ?thesis
  proof (cases "save_command env project_id main_branch_id spec db")
    case (Inl e)
    then show ?thesis by (simp add: save_block_def checked_command_def)
  next
    case (Inr c)
    obtain project current documents blocks where facts: "get_project project_id db = Inr project"
      "get_project_block project_id (abe_block_id c) db = Inr current"
      "list_documents project_id db = Inr documents" "list_blocks project_id db = Inr blocks"
      "abe_new_root_hash c = project_root_hash (we_sha256 env) documents
        (map (\<lambda>b. (blk_id b, if blk_id b = blk_id current then abe_new_content_hash c else blk_content_hash b)) blocks)"
      and spec: "abe_block_id c = svs_block_id spec" "abe_new_plain_text c = svs_plain_text spec"
      "we_to_string env (svs_content spec) = Some (abe_new_content_json c)"
      "block_content_hash env (blk_kind current) (svs_content spec) (svs_plain_text spec) (blk_locked current)
        = Inr (abe_new_content_hash c)"
      "abe_expected_revision c = blk_revision current" "svs_expected_revision spec = blk_revision current"
      "svs_expected_hash spec = blk_content_hash current"
      by (rule save_command_facts [OF Inr])
    show ?thesis
    proof (cases "apply_block_edit (we_store env) c db")
      case (Pair r db')
      show ?thesis
      proof (cases r)
        case (Inl e)
        with Pair Inr failed_store_command show ?thesis
          by (auto simp: save_block_def checked_command_def \<open>save_command _ _ _ _ _ = _\<close> after_store_def)
      next
        case (Inr receipt)
        have edit: "apply_block_edit (we_store env) c db = (Inr receipt, db')" using Pair Inr by simp
        have receipt: "er_block_id receipt = abe_block_id c" "er_commit_id receipt = abe_commit_id c"
          by (rule edit_tables [OF keys edit], assumption)+
        have root: "abe_new_root_hash c = project_root_hash (we_sha256 env) documents
            (map (\<lambda>b. (blk_id b, if blk_id b = abe_block_id c then abe_new_content_hash c else blk_content_hash b)) blocks)"
          using facts(5) project_block_id [OF facts(2)] by simp
        note after = edit_head_rooted [OF keys edit facts(1-4) root]
        obtain content where "we_from_str env (abe_new_content_json c) = Some content" using assms(2) [OF spec(3)] by blast
        moreover obtain project' where "get_project project_id db' = Inr project'" "pj_head_commit_id project' = abe_commit_id c"
          using after(3) by blast
        ultimately have "\<exists>response. save_response env project_id receipt db' = Inr response
            \<and> svr_head_commit_id response = svr_commit_id response"
          using after(2) by (simp add: save_response_def store_result_def workspace_block_def receipt edited_record_def)
        then show ?thesis
          using edit \<open>save_command _ _ _ _ _ = _\<close> after(1,2) facts(2) spec
          by (auto simp: save_block_def checked_command_def after_store_def edited_record_def)
      qed
    qed
  qed
qed

text \<open>A save of the one block of the small store.\<close>

definition save_env :: WorkspaceEnv where
  "save_env =
     \<lparr>we_store = small_env, we_sha256 = (\<lambda>v. ''s'' @ take 3 v), we_to_string = (\<lambda>_. Some ''{}''),
      we_from_str = (\<lambda>_. Some (JObject [])), we_uuid = (\<lambda>_. ''1''), we_now = Some ''d1''\<rparr>"

definition save_spec :: SaveBlockSpec where
  "save_spec =
     \<lparr>svs_block_id = ''blk'', svs_expected_revision = 0, svs_expected_hash = ''hx'',
      svs_content = JObject [], svs_plain_text = ''y''\<rparr>"

theorem save_block_outcome_witness:
  "\<exists>response db'. save_block save_env ''p'' ''main'' save_spec small_store = (Inr response, db')
     \<and> head_rooted (we_sha256 save_env) ''p'' db'"
proof -
  have reachable: "store_reachable (we_store save_env) small_codec small_store"
    using small_store_reachable by (simp add: save_env_def)
  have reads: "\<And>v text. we_to_string save_env v = Some text \<Longrightarrow> we_from_str save_env text \<noteq> None"
    by (simp add: save_env_def)
  have "isl (fst (save_block save_env ''p'' ''main'' save_spec small_store)) = False" by code_simp
  then obtain response db' where "save_block save_env ''p'' ''main'' save_spec small_store = (Inr response, db')"
    by (cases "save_block save_env ''p'' ''main'' save_spec small_store"; cases "fst (save_block save_env ''p'' ''main'' save_spec small_store)") auto
  with save_block_outcome [where env = save_env and db = small_store and project_id = "''p''" and main_branch_id = "''main''"
      and spec = save_spec, OF reachable reads]
  show ?thesis by auto
qed

end
