(* ===== verification/ProposalReview.thy ===== *)
theory ProposalReview
  imports ProposalText WorkspaceEdits ReviewCandidates
begin

text \<open>
  The review of a proposal (\<open>workspace_commands_review.rs\<close>): loading the stored proposal with its
  hash and its decisions, applying it to the main line, and turning it into a candidate branch.
  \<open>serde_json::from_value\<close> of a stored proposal is the parameter \<open>parse\<close>.
\<close>

section \<open>The stored proposal\<close>

definition verify_stored_proposal_hash :: "WorkspaceEnv \<Rightarrow> json \<Rightarrow> string \<Rightarrow> WorkspaceCommandError + unit" where
  "verify_stored_proposal_hash env payload binding_hash =
     rbind (ok_or (json_as_object payload) (WorkspaceValidation ''Stored proposal payload must be an object'')) (\<lambda>entries.
     rbind (ok_or (Option.bind (map_of entries ''proposalHash'') json_as_str)
              (WorkspaceValidation ''Stored proposal has no proposalHash'')) (\<lambda>declared.
     rbind (serialize env (JObject (filter (\<lambda>(k, _). k \<noteq> ''proposalHash'') entries))) (\<lambda>encoded.
     require (declared = binding_hash \<and> we_sha256 env encoded = binding_hash)
       (WorkspaceValidation ''Stored proposal hash verification failed''))))"

definition proposal_bound :: "StoredPatchProposal \<Rightarrow> string \<Rightarrow> OperationRunRecord \<Rightarrow> OperationArtifactRecord \<Rightarrow> bool" where
  "proposal_bound proposal proposal_id run artifact \<longleftrightarrow>
     spp_schema_version proposal = 2 \<and> spp_id proposal = proposal_id \<and> spp_operation_run_id proposal = orr_id run
     \<and> spp_base_commit_id proposal = orr_base_commit_id run \<and> spp_proposal_hash proposal = art_binding_hash artifact
     \<and> spp_status proposal = ''review''"

definition read_proposal ::
  "WorkspaceEnv \<Rightarrow> (json \<Rightarrow> StoredPatchProposal option) \<Rightarrow> OperationArtifactRecord
     \<Rightarrow> WorkspaceCommandError + (json \<times> StoredPatchProposal)" where
  "read_proposal env parse artifact =
     rbind (ok_or (we_from_str env (art_payload_json artifact)) WorkspaceJson) (\<lambda>payload.
     rbind (verify_stored_proposal_hash env payload (art_binding_hash artifact)) (\<lambda>_.
     rbind (ok_or (parse payload) WorkspaceJson) (\<lambda>proposal.
     Inr (payload, proposal))))"

record LoadedStoredReviewCandidate =
  lrc_summary :: ReviewCandidateSummaryRecord
  lrc_session :: ReviewSessionRecord
  lrc_run :: OperationRunRecord
  lrc_payload :: json
  lrc_proposal :: StoredPatchProposal
  lrc_decisions :: pending_decisions

definition load_stored_review_candidate ::
  "WorkspaceEnv \<Rightarrow> (json \<Rightarrow> StoredPatchProposal option) \<Rightarrow> string \<Rightarrow> string \<Rightarrow> Database
     \<Rightarrow> WorkspaceCommandError + LoadedStoredReviewCandidate" where
  "load_stored_review_candidate env parse project_id proposal_id db =
     rbind (store_result (get_review_candidate_summary (we_store env) proposal_id db)) (\<lambda>summary.
     rbind (require (rcs_project_id summary = project_id)
              (WorkspaceValidation ''Proposal belongs to another project'')) (\<lambda>_.
     rbind (store_result (get_review_session proposal_id db)) (\<lambda>session.
     rbind (store_result (get_operation_run (rsr_run_id session) db)) (\<lambda>run.
     rbind (store_result (get_operation_artifact_by_id proposal_id db)) (\<lambda>artifact.
     rbind (require (rsr_run_id session = rcs_run_id summary \<and> orr_id run = rcs_run_id summary
                      \<and> orr_project_id run = project_id \<and> art_run_id artifact = orr_id run
                      \<and> art_kind artifact = OperationArtifactKind.PatchProposal)
              (WorkspaceStore (InvariantViolation ''review candidate store bindings are inconsistent''))) (\<lambda>_.
     rbind (read_proposal env parse artifact) (\<lambda>(payload, proposal).
     rbind (require (proposal_bound proposal proposal_id run artifact
                      \<and> spt_document_id (spp_target proposal) = rcs_target_document_id summary
                      \<and> spt_block_id (spp_target proposal) = rcs_target_block_id summary
                      \<and> int (length (spp_hunks proposal)) = rcs_hunk_count summary)
              (WorkspaceValidation ''Stored proposal metadata is not bound to its candidate summary'')) (\<lambda>_.
     rbind (store_result (list_review_events proposal_id db)) (\<lambda>events.
     rbind (replay_review_decisions (spp_hunks proposal) events) (\<lambda>decisions.
     let all_decided = list_all (\<lambda>(_, decision). decision \<noteq> None) decisions in
     rbind (require (\<not> (rsr_status session \<in> set [ReviewSessionStatus.Ready, ReviewSessionStatus.Applied] \<and> \<not> all_decided
                        \<or> rsr_status session = ReviewSessionStatus.Review \<and> all_decided))
              (WorkspaceStore (InvariantViolation ''review candidate status disagrees with replayed decisions''))) (\<lambda>_.
     Inr \<lparr>lrc_summary = summary, lrc_session = session, lrc_run = run, lrc_payload = payload,
          lrc_proposal = proposal, lrc_decisions = decisions\<rparr>)))))))))))"

section \<open>The text and content after the accepted hunks\<close>

text \<open>The accepted hunks, the rejected ids and the new text of the block.\<close>

definition decide_hunks ::
  "StoredProposalHunk list \<Rightarrow> (string \<times> ReviewDecision) list \<Rightarrow> StoredProposalHunk list \<times> string list" where
  "decide_hunks hunks decisions =
     (filter (\<lambda>h. map_of decisions (sph_id h) = Some ReviewDecision.Accepted) hunks,
      map sph_id (filter (\<lambda>h. map_of decisions (sph_id h) = Some ReviewDecision.Rejected) hunks))"

definition accepted_text ::
  "StoredPatchProposal \<Rightarrow> BlockRecord \<Rightarrow> pending_decisions \<Rightarrow> string
     \<Rightarrow> WorkspaceCommandError + (StoredProposalHunk list \<times> string list \<times> string)" where
  "accepted_text proposal current pending nothing_accepted =
     rbind (complete_review_decisions (spp_hunks proposal) pending) (\<lambda>decisions.
     rbind (validate_atomic_decisions (spp_hunks proposal) decisions) (\<lambda>_.
     let (accepted, rejected) = decide_hunks (spp_hunks proposal) decisions in
     rbind (require (accepted \<noteq> []) (WorkspaceValidation nothing_accepted)) (\<lambda>_.
     rbind (apply_proposal_hunks (blk_plain_text current) accepted) (\<lambda>next_plain_text.
     rbind (require (length next_plain_text \<le> MAX_PLAIN_TEXT_BYTES)
              (WorkspaceValidation (''Block plain text exceeds '' @ show_nat MAX_PLAIN_TEXT_BYTES @ '' bytes''))) (\<lambda>_.
     Inr (accepted, rejected, next_plain_text))))))"

definition text_content :: "string \<Rightarrow> json" where
  "text_content text =
     (if text = [] then JArray []
      else JArray [JObject [(''type'', JString ''text''), (''text'', JString text)]])"

definition next_content ::
  "WorkspaceEnv \<Rightarrow> BlockRecord \<Rightarrow> string \<Rightarrow> WorkspaceCommandError + (string \<times> string)" where
  "next_content env current next_plain_text =
     rbind (ok_or (we_from_str env (blk_content_json current)) WorkspaceJson) (\<lambda>stored.
     rbind (ok_or (json_as_object stored) (WorkspaceValidation ''Stored Block content must be an object'')) (\<lambda>entries.
     let content = JObject ((''content'', text_content next_plain_text)
           # filter (\<lambda>(k, _). k \<noteq> ''text'' \<and> k \<noteq> ''content'') entries) in
     rbind (serialize env content) (\<lambda>content_json.
     rbind (block_content_hash env (blk_kind current) content next_plain_text (blk_locked current)) (\<lambda>content_hash.
     Inr (content_json, content_hash)))))"

definition target_unchanged :: "StoredProposalTarget \<Rightarrow> BlockRecord \<Rightarrow> bool" where
  "target_unchanged target current \<longleftrightarrow>
     blk_document_id current = spt_document_id target \<and> blk_revision current = spt_base_revision target
     \<and> blk_content_hash current = spt_base_hash target \<and> \<not> blk_locked current"

definition target_conflict :: "string \<Rightarrow> StoredProposalTarget \<Rightarrow> BlockRecord \<Rightarrow> WorkspaceCommandError" where
  "target_conflict what target current =
     WorkspaceStore (StoreError.Conflict what (blk_id current) (spt_base_revision target) (blk_revision current)
       (spt_base_hash target) (blk_content_hash current))"

section \<open>Applying a reviewed proposal\<close>

record ApplyReviewedProposalSpec =
  ars_proposal_id :: string
  ars_expected_review_revision :: int

record ApplyReviewedProposalResponse =
  arr_proposal_id :: string
  arr_run_id :: string
  arr_review_revision :: int
  arr_accepted_hunks :: nat
  arr_rejected_hunks :: nat
  arr_save :: SaveBlockResponse

text \<open>The proposal of a session that is ready, bound to its run and to the current head.\<close>

record ReadyProposal =
  rdp_run :: OperationRunRecord
  rdp_proposal :: StoredPatchProposal
  rdp_project :: ProjectRecord
  rdp_current :: BlockRecord

definition review_ready :: "ApplyReviewedProposalSpec \<Rightarrow> ReviewSessionRecord \<Rightarrow> bool" where
  "review_ready spec session \<longleftrightarrow> rsr_revision session = ars_expected_review_revision spec
     \<and> rsr_status session = ReviewSessionStatus.Ready"

definition ready_proposal ::
  "WorkspaceEnv \<Rightarrow> (json \<Rightarrow> StoredPatchProposal option) \<Rightarrow> string \<Rightarrow> ApplyReviewedProposalSpec \<Rightarrow> Database
     \<Rightarrow> WorkspaceCommandError + ReadyProposal" where
  "ready_proposal env parse project_id spec db =
     (let proposal_id = ars_proposal_id spec; expected = ars_expected_review_revision spec in
     rbind (require (\<not> (blank proposal_id \<or> length proposal_id > 200 \<or> expected < 0))
              (WorkspaceValidation ''Proposal id and expected review revision are invalid'')) (\<lambda>_.
     rbind (store_result (get_review_session proposal_id db)) (\<lambda>session.
     rbind (require (review_ready spec session)
              (WorkspaceStore (StateConflict ''patch_review'' proposal_id expected (rsr_revision session)
                 (review_session_status_as_str ReviewSessionStatus.Ready)
                 (review_session_status_as_str (rsr_status session))))) (\<lambda>_.
     rbind (store_result (get_operation_run (rsr_run_id session) db)) (\<lambda>run.
     rbind (require (orr_project_id run = project_id)
              (WorkspaceValidation ''Proposal belongs to another project'')) (\<lambda>_.
     rbind (store_result (get_operation_artifact (orr_id run) db)) (\<lambda>artifact.
     rbind (require (art_id artifact = proposal_id \<and> art_kind artifact = OperationArtifactKind.PatchProposal)
              (WorkspaceValidation ''Proposal artifact binding is invalid'')) (\<lambda>_.
     rbind (read_proposal env parse artifact) (\<lambda>(payload, proposal).
     rbind (require (proposal_bound proposal proposal_id run artifact)
              (WorkspaceValidation ''Stored proposal metadata is not bound to its operation'')) (\<lambda>_.
     rbind (store_result (get_project project_id db)) (\<lambda>project.
     rbind (require (pj_head_commit_id project = orr_base_commit_id run)
              (WorkspaceStore (StateConflict ''operation_base_commit'' (orr_id run) expected (rsr_revision session)
                 (orr_base_commit_id run) (pj_head_commit_id project)))) (\<lambda>_.
     let target = spp_target proposal in
     rbind (store_result (get_project_block project_id (spt_block_id target) db)) (\<lambda>current.
     rbind (require (target_unchanged target current \<and> sta_block_id (spt_from target) = blk_id current
                      \<and> sta_block_id (spt_to target) = blk_id current
                      \<and> sta_offset (spt_from target) \<le> sta_offset (spt_to target))
              (target_conflict ''proposal_target'' target current)) (\<lambda>_.
     Inr \<lparr>rdp_run = run, rdp_proposal = proposal, rdp_project = project, rdp_current = current\<rparr>))))))))))))))"

definition apply_event ::
  "WorkspaceEnv \<Rightarrow> ApplyReviewedProposalSpec \<Rightarrow> string \<Rightarrow> string list \<Rightarrow> string list \<Rightarrow> string
     \<Rightarrow> WorkspaceCommandError + AppendReviewEvent" where
  "apply_event env spec commit_id accepted_ids rejected occurred_at =
     rbind (serialize env (JObject [(''commitId'', JString commit_id),
              (''acceptedHunkIds'', JArray (map JString accepted_ids)),
              (''rejectedHunkIds'', JArray (map JString rejected))])) (\<lambda>payload_json.
     Inr \<lparr>are_id = generated_id env ''review-event'', are_proposal_id = ars_proposal_id spec,
          are_expected_revision = ars_expected_review_revision spec,
          are_expected_status = ReviewSessionStatus.Ready, are_kind = ReviewEventKind.Apply,
          are_next_status = ReviewSessionStatus.Applied, are_hunk_id = None, are_decision = None,
          are_payload_json = Some payload_json, are_occurred_at = occurred_at\<rparr>)"

definition apply_command ::
  "WorkspaceEnv \<Rightarrow> (json \<Rightarrow> StoredPatchProposal option) \<Rightarrow> string \<Rightarrow> string \<Rightarrow> ApplyReviewedProposalSpec \<Rightarrow> Database
     \<Rightarrow> WorkspaceCommandError + (string \<times> nat \<times> nat \<times> ApplyBlockEdit)" where
  "apply_command env parse project_id main_branch_id spec db =
     rbind (ready_proposal env parse project_id spec db) (\<lambda>ready.
     let run = rdp_run ready; proposal = rdp_proposal ready; current = rdp_current ready in
     rbind (store_result (list_review_events (ars_proposal_id spec) db)) (\<lambda>events.
     rbind (validate_proposal_hunks (we_sha256 env) (blk_plain_text current) (spp_target proposal) (spp_hunks proposal)) (\<lambda>_.
     rbind (replay_review_decisions (spp_hunks proposal) events) (\<lambda>pending.
     rbind (accepted_text proposal current pending
              ''A proposal with no accepted hunks must be rejected, not applied'') (\<lambda>(accepted, rejected, next_plain_text).
     rbind (next_content env current next_plain_text) (\<lambda>(content_json, content_hash).
     rbind (edited_root_hash env project_id (blk_id current) content_hash db) (\<lambda>root_hash.
     rbind (now env) (\<lambda>occurred_at.
     let commit_id = generated_id env ''commit'' in
     rbind (apply_event env spec commit_id (map sph_id accepted) rejected occurred_at) (\<lambda>review_event.
     Inr (orr_id run, length accepted, length rejected,
       \<lparr>abe_edit_id = generated_id env ''edit'', abe_commit_id = commit_id, abe_branch_id = main_branch_id,
        abe_expected_head_commit_id = orr_base_commit_id run,
        abe_expected_project_revision = pj_revision (rdp_project ready), abe_block_id = blk_id current,
        abe_expected_revision = blk_revision current, abe_expected_hash = blk_content_hash current,
        abe_new_content_json = content_json, abe_new_plain_text = next_plain_text,
        abe_new_content_hash = content_hash, abe_new_root_hash = root_hash, abe_reason = ''ai_accept'',
        abe_actor_type = ''model'', abe_actor_id = Some (orr_id run), abe_occurred_at = occurred_at,
        abe_review_event = Some review_event\<rparr>))))))))))"

definition apply_reviewed_proposal ::
  "WorkspaceEnv \<Rightarrow> (json \<Rightarrow> StoredPatchProposal option) \<Rightarrow> string \<Rightarrow> string \<Rightarrow> ApplyReviewedProposalSpec \<Rightarrow> Database
     \<Rightarrow> (WorkspaceCommandError + ApplyReviewedProposalResponse) \<times> Database" where
  "apply_reviewed_proposal env parse project_id main_branch_id spec db =
     (case apply_command env parse project_id main_branch_id spec db of
        Inl e \<Rightarrow> (Inl e, db)
      | Inr (run_id, accepted, rejected, c) \<Rightarrow>
          after_store (apply_block_edit (we_store env) c db) (\<lambda>receipt db.
            rbind (save_response env project_id receipt db) (\<lambda>save.
            Inr \<lparr>arr_proposal_id = ars_proposal_id spec, arr_run_id = run_id,
                 arr_review_revision = ars_expected_review_revision spec + 1,
                 arr_accepted_hunks = accepted, arr_rejected_hunks = rejected, arr_save = save\<rparr>)))"

section \<open>A candidate branch\<close>

record CreateReviewCandidateBranchSpec =
  cbs_proposal_id :: string
  cbs_expected_review_revision :: int
  cbs_branch_name :: string

definition candidate_command ::
  "WorkspaceEnv \<Rightarrow> (json \<Rightarrow> StoredPatchProposal option) \<Rightarrow> string \<Rightarrow> CreateReviewCandidateBranchSpec \<Rightarrow> Database
     \<Rightarrow> WorkspaceCommandError + (string \<times> CreateReviewCandidateBranch)" where
  "candidate_command env parse project_id spec db =
     (let branch_name = trim (cbs_branch_name spec); proposal_id = cbs_proposal_id spec;
          expected = cbs_expected_review_revision spec
      in
     rbind (require (\<not> (blank proposal_id \<or> length proposal_id > 200 \<or> expected < 0
                        \<or> branch_name = [] \<or> chars_count branch_name > 120))
              (WorkspaceValidation ''Candidate proposal, review revision and branch name are invalid'')) (\<lambda>_.
     rbind (load_stored_review_candidate env parse project_id proposal_id db) (\<lambda>loaded.
     let session = lrc_session loaded; target = spp_target (lrc_proposal loaded) in
     rbind (require (rsr_revision session = expected \<and> rsr_status session = ReviewSessionStatus.Ready)
              (WorkspaceStore (StateConflict ''patch_review'' proposal_id expected (rsr_revision session)
                 (review_session_status_as_str ReviewSessionStatus.Ready)
                 (review_session_status_as_str (rsr_status session))))) (\<lambda>_.
     rbind (require (rcs_candidate_branch (lrc_summary loaded) = None)
              (WorkspaceValidation ''Candidate already has a branch'')) (\<lambda>_.
     rbind (store_result (get_project project_id db)) (\<lambda>project.
     rbind (require (pj_head_commit_id project = orr_base_commit_id (lrc_run loaded))
              (WorkspaceStore (StateConflict ''candidate_branch_base'' proposal_id expected (rsr_revision session)
                 (orr_base_commit_id (lrc_run loaded)) (pj_head_commit_id project)))) (\<lambda>_.
     rbind (store_result (get_project_block project_id (spt_block_id target) db)) (\<lambda>current.
     rbind (require (target_unchanged target current)
              (target_conflict ''candidate_branch_target'' target current)) (\<lambda>_.
     rbind (validate_proposal_hunks (we_sha256 env) (blk_plain_text current) target (spp_hunks (lrc_proposal loaded))) (\<lambda>_.
     rbind (accepted_text (lrc_proposal loaded) current (lrc_decisions loaded)
              ''A candidate branch requires at least one accepted hunk'') (\<lambda>(accepted, rejected, next_plain_text).
     rbind (next_content env current next_plain_text) (\<lambda>(content_json, content_hash).
     rbind (edited_root_hash env project_id (blk_id current) content_hash db) (\<lambda>root_hash.
     rbind (now env) (\<lambda>occurred_at.
     Inr (pj_head_commit_id project,
       \<lparr>crb_proposal_id = proposal_id, crb_expected_review_revision = expected, crb_project_id = project_id,
        crb_expected_project_head_commit_id = pj_head_commit_id project,
        crb_branch_id = generated_id env ''branch'', crb_branch_name = branch_name,
        crb_commit_id = generated_id env ''commit'', crb_snapshot_id = generated_id env ''snapshot'',
        crb_target_document_id = blk_document_id current, crb_target_block_id = blk_id current,
        crb_expected_block_revision = blk_revision current, crb_expected_block_hash = blk_content_hash current,
        crb_new_content_json = content_json, crb_new_plain_text = next_plain_text,
        crb_new_content_hash = content_hash, crb_new_root_hash = root_hash,
        crb_occurred_at = occurred_at\<rparr>)))))))))))))))"

definition host_create_candidate_branch ::
  "WorkspaceEnv \<Rightarrow> Codec \<Rightarrow> (json \<Rightarrow> StoredPatchProposal option) \<Rightarrow> string \<Rightarrow> CreateReviewCandidateBranchSpec \<Rightarrow> Database
     \<Rightarrow> (WorkspaceCommandError + (ReviewCandidateBranchRecord \<times> string)) \<times> Database" where
  "host_create_candidate_branch env cdc parse project_id spec db =
     (case candidate_command env parse project_id spec db of
        Inl e \<Rightarrow> (Inl e, db)
      | Inr (main_head_commit_id, c) \<Rightarrow>
          after_store (create_review_candidate_branch (we_store env) cdc c db)
            (\<lambda>branch db. Inr (branch, main_head_commit_id)))"

section \<open>What an applied proposal leaves\<close>

text \<open>The proposal is what the artifact of the session's run stores, under its verified hash.\<close>

definition session_proposal ::
  "WorkspaceEnv \<Rightarrow> (json \<Rightarrow> StoredPatchProposal option) \<Rightarrow> ReviewSessionRecord \<Rightarrow> StoredPatchProposal \<Rightarrow> Database \<Rightarrow> bool" where
  "session_proposal env parse session proposal db \<longleftrightarrow>
     (\<exists>run artifact payload. get_operation_run (rsr_run_id session) db = Inr run
        \<and> get_operation_artifact (orr_id run) db = Inr artifact
        \<and> read_proposal env parse artifact = Inr (payload, proposal))"

lemma session_proposal_parsed:
  assumes "session_proposal env parse session proposal db"
  obtains payload where "parse payload = Some proposal"
  using assms by (auto simp: session_proposal_def read_proposal_def result_simps)

lemma ready_proposal_facts:
  assumes "ready_proposal env parse project_id spec db = Inr rdy"
  obtains session where "get_review_session (ars_proposal_id spec) db = Inr session" and "review_ready spec session"
    and "get_project project_id db = Inr (rdp_project rdy)"
    and "pj_head_commit_id (rdp_project rdy) = orr_base_commit_id (rdp_run rdy)"
    and "spp_base_commit_id (rdp_proposal rdy) = orr_base_commit_id (rdp_run rdy)"
    and "session_proposal env parse session (rdp_proposal rdy) db"
    and "get_project_block project_id (spt_block_id (spp_target (rdp_proposal rdy))) db = Inr (rdp_current rdy)"
    and "target_unchanged (spp_target (rdp_proposal rdy)) (rdp_current rdy)"
  using assms by (auto simp: ready_proposal_def Let_def result_simps proposal_bound_def session_proposal_def)

lemma accepted_text_facts:
  assumes "accepted_text proposal current pending message = Inr (accepted, rejected, text)"
  obtains decisions where "complete_review_decisions (spp_hunks proposal) pending = Inr decisions"
    and "accepted = filter (\<lambda>h. map_of decisions (sph_id h) = Some ReviewDecision.Accepted) (spp_hunks proposal)"
    and "apply_proposal_hunks (blk_plain_text current) accepted = Inr text" and "accepted \<noteq> []"
  using assms by (auto simp: accepted_text_def decide_hunks_def Let_def result_simps)

lemma apply_command_facts:
  assumes "apply_command env parse project_id main_branch_id spec db = Inr (run_id, n, m, c)"
  obtains rdy events pending accepted rejected documents blocks where
    "ready_proposal env parse project_id spec db = Inr rdy"
    and "list_review_events (ars_proposal_id spec) db = Inr events"
    and "validate_proposal_hunks (we_sha256 env) (blk_plain_text (rdp_current rdy))
        (spp_target (rdp_proposal rdy)) (spp_hunks (rdp_proposal rdy)) = Inr ()"
    and "replay_review_decisions (spp_hunks (rdp_proposal rdy)) events = Inr pending"
    and "accepted_text (rdp_proposal rdy) (rdp_current rdy) pending
        ''A proposal with no accepted hunks must be rejected, not applied'' = Inr (accepted, rejected, abe_new_plain_text c)"
    and "list_documents project_id db = Inr documents" and "list_blocks project_id db = Inr blocks"
    and "abe_new_root_hash c = project_root_hash (we_sha256 env) documents
        (map (\<lambda>b. (blk_id b, if blk_id b = abe_block_id c then abe_new_content_hash c else blk_content_hash b)) blocks)"
    and "abe_block_id c = blk_id (rdp_current rdy)"
proof -
  from assms obtain rdy events pending accepted rejected next_plain_text content_json content_hash root_hash occurred_at event where
    facts: "ready_proposal env parse project_id spec db = Inr rdy"
      "list_review_events (ars_proposal_id spec) db = Inr events"
      "validate_proposal_hunks (we_sha256 env) (blk_plain_text (rdp_current rdy))
        (spp_target (rdp_proposal rdy)) (spp_hunks (rdp_proposal rdy)) = Inr ()"
      "replay_review_decisions (spp_hunks (rdp_proposal rdy)) events = Inr pending"
      "accepted_text (rdp_proposal rdy) (rdp_current rdy) pending
        ''A proposal with no accepted hunks must be rejected, not applied'' = Inr (accepted, rejected, next_plain_text)"
      "edited_root_hash env project_id (blk_id (rdp_current rdy)) content_hash db = Inr root_hash"
    and c: "c = \<lparr>abe_edit_id = generated_id env ''edit'', abe_commit_id = generated_id env ''commit'',
        abe_branch_id = main_branch_id, abe_expected_head_commit_id = orr_base_commit_id (rdp_run rdy),
        abe_expected_project_revision = pj_revision (rdp_project rdy), abe_block_id = blk_id (rdp_current rdy),
        abe_expected_revision = blk_revision (rdp_current rdy), abe_expected_hash = blk_content_hash (rdp_current rdy),
        abe_new_content_json = content_json, abe_new_plain_text = next_plain_text,
        abe_new_content_hash = content_hash, abe_new_root_hash = root_hash, abe_reason = ''ai_accept'',
        abe_actor_type = ''model'', abe_actor_id = Some (orr_id (rdp_run rdy)), abe_occurred_at = occurred_at,
        abe_review_event = Some event\<rparr>"
    unfolding apply_command_def Let_def
    by (auto simp: rbind_Inr_iff store_result_Inr_iff split_beta)
  obtain documents blocks where "list_documents project_id db = Inr documents" "list_blocks project_id db = Inr blocks"
    "root_hash = project_root_hash (we_sha256 env) documents
        (map (\<lambda>b. (blk_id b, if blk_id b = blk_id (rdp_current rdy) then content_hash else blk_content_hash b)) blocks)"
    using facts(6) by (auto simp: edited_root_hash_def result_simps)
  with facts(1-5) c show thesis
    by (intro that [of rdy events pending accepted rejected documents blocks]) (simp_all cong: if_cong)
qed

text \<open>
  C3. What reaches the text is what was reviewed. An application that succeeds took a session that was
  ready at the expected revision, whose proposal, read under its hash, was made on the current head and whose target block
  is unlocked and has the revision and hash that the proposal was made for. The new text of the block
  is the old one with the range of each hunk replaced whose last decision in the review log, its own
  or its group's, was to accept; every hunk was decided and at least one accepted. The head
  commit afterwards carries the root hash of the stored documents and blocks.
\<close>

theorem applied_proposal_stored:
  assumes "store_reachable (we_store env) cdc db"
    and "apply_reviewed_proposal env parse project_id main_branch_id spec db = (Inr response, db')"
    and "\<forall>i b. get_project_block project_id i db = Inr b \<longrightarrow> text_start (blk_plain_text b)"
    and "\<forall>v p. parse v = Some p \<longrightarrow> (\<forall>h \<in> set (spp_hunks p). text_start (sph_replacement h))"
  shows "\<exists>session project proposal events old new.
    get_review_session (ars_proposal_id spec) db = Inr session \<and> review_ready spec session
    \<and> session_proposal env parse session proposal db
    \<and> get_project project_id db = Inr project \<and> spp_base_commit_id proposal = pj_head_commit_id project
    \<and> get_project_block project_id (spt_block_id (spp_target proposal)) db = Inr old
    \<and> target_unchanged (spp_target proposal) old
    \<and> list_review_events (ars_proposal_id spec) db = Inr events
    \<and> (\<forall>h \<in> set (spp_hunks proposal). last_decision (spp_hunks proposal) events h \<noteq> None)
    \<and> (\<exists>h \<in> set (spp_hunks proposal). last_decision (spp_hunks proposal) events h = Some ReviewDecision.Accepted)
    \<and> get_project_block project_id (spt_block_id (spp_target proposal)) db' = Inr new
    \<and> blk_plain_text new = merge_hunks (blk_plain_text old) 0
        (filter (\<lambda>h. last_decision (spp_hunks proposal) events h = Some ReviewDecision.Accepted) (spp_hunks proposal))
    \<and> head_rooted (we_sha256 env) project_id db'"
proof -
  have keys: "keys_ok db"
    using store_okD(1) [OF store_reachable_ok [OF assms(1)]] by (simp add: project_ok_def)
  obtain run_id n m c receipt where command: "apply_command env parse project_id main_branch_id spec db = Inr (run_id, n, m, c)"
    and edit: "apply_block_edit (we_store env) c db = (Inr receipt, db')"
    using assms(2)
    by (auto simp: apply_reviewed_proposal_def after_store_def split: sum.splits prod.splits)
  obtain rdy events pending accepted rejected documents blocks where
    rdy: "ready_proposal env parse project_id spec db = Inr rdy"
    and events: "list_review_events (ars_proposal_id spec) db = Inr events"
    and valid: "validate_proposal_hunks (we_sha256 env) (blk_plain_text (rdp_current rdy))
        (spp_target (rdp_proposal rdy)) (spp_hunks (rdp_proposal rdy)) = Inr ()"
    and replayed: "replay_review_decisions (spp_hunks (rdp_proposal rdy)) events = Inr pending"
    and written: "accepted_text (rdp_proposal rdy) (rdp_current rdy) pending
        ''A proposal with no accepted hunks must be rejected, not applied'' = Inr (accepted, rejected, abe_new_plain_text c)"
    and lists: "list_documents project_id db = Inr documents" "list_blocks project_id db = Inr blocks"
    and root: "abe_new_root_hash c = project_root_hash (we_sha256 env) documents
        (map (\<lambda>b. (blk_id b, if blk_id b = abe_block_id c then abe_new_content_hash c else blk_content_hash b)) blocks)"
    and block: "abe_block_id c = blk_id (rdp_current rdy)"
    by (rule apply_command_facts [OF command])
  obtain session where session: "get_review_session (ars_proposal_id spec) db = Inr session" "review_ready spec session"
    and project: "get_project project_id db = Inr (rdp_project rdy)"
      "spp_base_commit_id (rdp_proposal rdy) = pj_head_commit_id (rdp_project rdy)"
    and stored: "session_proposal env parse session (rdp_proposal rdy) db"
    and current: "get_project_block project_id (spt_block_id (spp_target (rdp_proposal rdy))) db = Inr (rdp_current rdy)"
      "target_unchanged (spp_target (rdp_proposal rdy)) (rdp_current rdy)"
    using ready_proposal_facts [OF rdy] by metis
  obtain payload where parsed: "parse payload = Some (rdp_proposal rdy)" by (rule session_proposal_parsed [OF stored])
  let ?hunks = "spp_hunks (rdp_proposal rdy)"
  let ?accepted = "\<lambda>h. last_decision ?hunks events h = Some ReviewDecision.Accepted"
  have id: "abe_block_id c = spt_block_id (spp_target (rdp_proposal rdy))"
    using block project_block_id [OF current(1)] by simp
  obtain decisions where decisions: "complete_review_decisions ?hunks pending = Inr decisions"
    and accepted: "accepted = filter (\<lambda>h. map_of decisions (sph_id h) = Some ReviewDecision.Accepted) ?hunks"
    and applied: "apply_proposal_hunks (blk_plain_text (rdp_current rdy)) accepted = Inr (abe_new_plain_text c)"
      "accepted \<noteq> []"
    by (rule accepted_text_facts [OF written])
  have "distinct (map sph_id ?hunks)" by (rule validate_hunks_facts [OF valid])
  then have final: "\<forall>h \<in> set ?hunks. map_of decisions (sph_id h) = last_decision ?hunks events h \<and> last_decision ?hunks events h \<noteq> None"
    using decisions_are_last [OF replayed _ decisions] by blast
  then have filtered: "accepted = filter ?accepted ?hunks" unfolding accepted by (intro filter_cong) auto
  have "apply_proposal_hunks (blk_plain_text (rdp_current rdy)) (filter ?accepted ?hunks)
      = Inr (merge_hunks (blk_plain_text (rdp_current rdy)) 0 (filter ?accepted ?hunks))"
    using assms(3,4) current(1) parsed by (intro applied_hunks_merge [OF valid]) blast+
  then have merged: "abe_new_plain_text c = merge_hunks (blk_plain_text (rdp_current rdy)) 0 (filter ?accepted ?hunks)"
    using applied(1) unfolding filtered by simp
  note after = edit_head_rooted [OF keys edit project(1) _ lists root, unfolded id, OF current(1)]
  from merged have new: "blk_plain_text (edited_record c (rdp_current rdy))
      = merge_hunks (blk_plain_text (rdp_current rdy)) 0 (filter ?accepted ?hunks)"
    by (simp add: edited_record_def)
  have some: "\<exists>h \<in> set ?hunks. ?accepted h" using applied(2) unfolding filtered by (auto simp: filter_empty_conv)
  show ?thesis
    by (rule exI [of _ session], rule exI [of _ "rdp_project rdy"], rule exI [of _ "rdp_proposal rdy"],
        rule exI [of _ events], rule exI [of _ "rdp_current rdy"], rule exI [of _ "edited_record c (rdp_current rdy)"])
      (use session stored project current events final some new after(1,2) in auto)
qed

lemma project_block_stored:
  assumes "get_project_block project_id i db = Inr b"
  obtains r where "r \<in> set (block_t db)" and "blk_plain_text r = blk_plain_text b"
proof -
  from assms obtain d r where found: "(d, r) \<in> set (joined_blocks db)" and b: "b = block_record r"
    by (auto simp: get_project_block_def result_simps find_Some_iff) (metis nth_mem)
  from found have "r \<in> set (block_t db)" by (auto simp: joined_blocks_def List.map_filter_def)
  then show thesis by (rule that) (simp add: b block_record_def BlockRecord.truncate_def)
qed

definition ready_env :: WorkspaceEnv where
  "ready_env = save_env\<lparr>we_sha256 := (\<lambda>_. ''h''),
     we_from_str := (\<lambda>_. Some (JObject [(''proposalHash'', JString ''h'')]))\<rparr>"

definition stored_proposal :: StoredPatchProposal where
  "stored_proposal =
     \<lparr>spp_schema_version = 2, spp_id = ''a'', spp_operation_run_id = ''run'', spp_base_commit_id = ''c0'',
      spp_target = \<lparr>spt_document_id = ''doc'', spt_block_id = ''blk'', spt_base_revision = 0, spt_base_hash = ''hx'',
         spt_from = sample_anchor 0, spt_to = sample_anchor 1\<rparr>,
      spp_hunks = [sample_hunk ''u'' 0 1 ''x'' ''yz'' None], spp_status = ''review'', spp_proposal_hash = ''h''\<rparr>"

definition ready_spec :: ApplyReviewedProposalSpec where
  "ready_spec = \<lparr>ars_proposal_id = ''a'', ars_expected_review_revision = 1\<rparr>"

lemma reviewed_store_reachable: "store_reachable small_env small_codec reviewed_store"
proof -
  have "store_reachable small_env small_codec (snd (persist_operation_bundle small_env sample_bundle small_store))"
    by (rule store_reachable.step [OF small_store_reachable store_step.operation]) (rule prod.collapse [symmetric])
  then show ?thesis unfolding reviewed_store_def
    by (rule store_reachable.step [OF _ store_step.review]) (rule prod.collapse [symmetric])
qed

theorem applied_proposal_stored_witness:
  "\<exists>response db'. apply_reviewed_proposal ready_env (\<lambda>_. Some stored_proposal) ''p'' ''main'' ready_spec reviewed_store
       = (Inr response, db') \<and> head_rooted (we_sha256 ready_env) ''p'' db'"
proof -
  let ?run = "apply_reviewed_proposal ready_env (\<lambda>_. Some stored_proposal) ''p'' ''main'' ready_spec reviewed_store"
  have reachable: "store_reachable (we_store ready_env) small_codec reviewed_store"
    using reviewed_store_reachable by (simp add: ready_env_def save_env_def)
  have "list_all (\<lambda>b. text_start (blk_plain_text b)) (block_t reviewed_store)" by code_simp
  then have texts: "\<forall>i b. get_project_block ''p'' i reviewed_store = Inr b \<longrightarrow> text_start (blk_plain_text b)"
    by (metis project_block_stored list_all_iff)
  have "list_all (\<lambda>h. text_start (sph_replacement h)) (spp_hunks stored_proposal)" by code_simp
  then have replacements: "\<forall>v p. Some stored_proposal = Some p \<longrightarrow> (\<forall>h \<in> set (spp_hunks p). text_start (sph_replacement h))"
    by (auto simp: list_all_iff)
  have "isl (fst ?run) = False" by code_simp
  then obtain response db' where applied: "?run = (Inr response, db')"
    by (cases ?run; cases "fst ?run") auto
  from applied_proposal_stored [OF reachable applied texts replacements]
  have "head_rooted (we_sha256 ready_env) ''p'' db'" by blast
  with applied show ?thesis by blast
qed

end
