(* ===== verification/Spec2Isabelle.thy ===== *)
theory Spec2Isabelle
  imports OperationProperties Metrics LcsTable Maintenance ReviewCandidates Migration EditReady HostRuns ConfirmedContext ProposalReview
begin

text \<open>
  A verification development for the Rust core of the Optimizer workspace: the SQLite store of
  a writing project (\<open>crates/optimizer-store\<close>) and the host that guards it
  (\<open>crates/optimizer-host\<close>).

  \<^bold>\<open>The program.\<close> The store keeps projects, a tree of documents, blocks of text, a history of
  commits and snapshots, knowledge, style samples and summaries, and the audit log of model
  operations and of the reviews of their proposals. Every command is one transaction on the
  tables; the head of a branch and the revision of a project are its optimistic locks. The
  host talks to model providers: it authorizes requests, sends each one with the credential of
  its provider, decodes the streamed answer, and keeps small registries in files.

  \<^bold>\<open>Shared theories.\<close> \<open>Prelude\<close>: the result type of fallible code, strings as UTF-8 bytes,
  machine integers, list operations behind SQL, the lemma collections. \<open>Model\<close>: the structs and
  enums of \<open>model.rs\<close> and \<open>error.rs\<close>. \<open>Schema\<close>: one record with a list of rows per table of
  \<open>migration.rs\<close>; every INSERT checks CHECK, key and foreign-key constraints, an UPDATE also its
  triggers. \<open>OperationTables\<close> and \<open>ProjectTables\<close> hold those statements. \<open>HostText\<close>: the string
  functions that the host uses.

  \<^bold>\<open>Texts and documents\<close> (\<open>snapshot.rs\<close>, \<open>store.rs\<close>). \<open>TextDiff\<close>: the Myers diff over a flat
  array; it returns, rebuilds both texts and is minimal. \<open>BlockDiff\<close>, \<open>Patience\<close>, \<open>LcsTable\<close>:
  the alignment of blocks by patience sorting or by the table, and \<open>compare_documents\<close>; both
  paths return a longest alignment. \<open>SnapshotCodec\<close>: encoding and decoding of snapshots and the
  export format. \<open>DocumentTree\<close>: the check of the document hierarchy against its specification
  as a forest. Array accesses out of range are \<open>None\<close>, so that a theorem that a routine returns
  includes that it does not panic; loops are bounded by fuel that is proved to be enough.

  \<^bold>\<open>Operations and reviews\<close> (\<open>operation.rs\<close>). \<open>Validation\<close>: the checks of a bundle and of a
  review event. \<open>Operations\<close>: persisting bundles, review events, reads and the audit.
  \<open>ReviewCandidates\<close> and \<open>Metrics\<close>: the queries and the aggregates. \<open>OperationInvariants\<close>,
  \<open>ReviewLog\<close> and \<open>OperationProperties\<close>: the invariant of these tables, exactly when an event
  succeeds and what it leaves, and that the triggers and the code allow the same transitions.

  \<^bold>\<open>The rest of the store\<close> (\<open>store.rs\<close>, \<open>store/*.rs\<close>, \<open>migration.rs\<close>). \<open>CommandChecks\<close>: the
  pure checks of commands. \<open>Knowledge\<close>: knowledge items, style samples, summaries and their
  queue, a refinement of a cache. \<open>Projects\<close>, \<open>Documents\<close>, \<open>Commits\<close>, \<open>Maintenance\<close>: the
  remaining commands, queries, search and the audit of a database that is opened. \<open>Migration\<close>:
  the version check and the migration driver.

  \<^bold>\<open>The store as a whole.\<close> \<open>StoreInvariant\<close> states the invariant of all tables,
  \<open>StoreStatements\<close> that each statement keeps its parts, \<open>StoreRuns\<close>, \<open>StoreOperations\<close>,
  \<open>StoreCommands\<close> and \<open>StoreBatches\<close> that each command does, and \<open>StoreReachable\<close> that the
  audit accepts every database that the commands reach, in any order and with any outcome.
  \<open>EditReady\<close> says exactly when a block edit succeeds.

  \<^bold>\<open>The host\<close> (\<open>model_gateway.rs\<close>, \<open>model_gateway/*.rs\<close>, \<open>trusted_model_endpoints.rs\<close>,
  \<open>recent_projects.rs\<close>, \<open>user_config.rs\<close>). \<open>GatewayModel\<close>: its data. \<open>SseDecoder\<close> and
  \<open>GatewayStream\<close>: from the bytes of a provider to stream events, the summary and redacted errors.
  \<open>RegistryFile\<close>: saving a registry as a run of file operations, each of which may fail or be the
  last before a crash; the locale \<open>replacement\<close> is its contract. \<open>TrustedEndpoints\<close>: the registry
  of endpoints. \<open>GatewayPrepare\<close>: checks, host, path and body of a request. \<open>GatewayHost\<close>: the
  operations of \<open>ModelExecutionHost\<close> as steps on the state behind its mutexes. \<open>HostRuns\<close>: what
  holds over sequences of them.

  \<^bold>\<open>The context of a request\<close> (\<open>operation_context.rs\<close>, \<open>summary_worker.rs\<close>,
  \<open>confirmed_context.rs\<close>). \<open>OperationContext\<close>: the candidates that the host collects for a
  target, with the arithmetic between UTF-16 units and bytes. \<open>ContextCompiler\<close>: which of them
  are sent under the policy of the provider, the token budget and the caps of the tiers.
  \<open>ContextPacket\<close> and \<open>ConfirmedContext\<close>: the check of a packet that the desktop hands in against
  what the host collects itself, and of the prompt made from it. Scores are rationals with a
  rounding function as parameter; a panic of the code is \<open>None\<close>.

  \<^bold>\<open>The workspace\<close> (\<open>workspace_commands.rs\<close>, \<open>workspace_commands/*.rs\<close>). \<open>Workspace\<close>: loading a
  project, the hashes of documents, blocks and the root, saving a block. \<open>WorkspaceEdits\<close>: the root
  hash of the head commit stays the hash of the stored rows. \<open>ProposalText\<close>: the hunks of a stored
  proposal, their validation, the replay of the decisions and their application, which is a merge
  from the front. \<open>ProposalReview\<close>: applying a reviewed proposal and making a candidate branch of
  it, from the checks of the stored artifact to the edit of the store.

  \<^bold>\<open>Bounds.\<close> The limits of the code (bytes of a packet, characters of a diff, entries of a
  registry, events of a run) are kept as its constants. Integers of the database are \<open>int\<close> with
  the range of \<open>i64\<close> checked where a value is stored; sums that wrap are written with \<open>mod\<close>.

  \<^bold>\<open>Parameters.\<close> JSON printing and parsing, zstd, SHA-256, clocks, random ids, FTS5 ranking, the
  integrity check of SQLite and the network are parameters with named laws where a theorem needs
  one.

  \<^bold>\<open>Not modelled.\<close> The connection handling, pragmas and online backup of SQLite, whose effects
  are inside the library; the platform secret store and the HTTP transport (\<open>secrets.rs\<close>,
  \<open>model_transport.rs\<close>), which call the operating system; the desktop shell and the TypeScript
  packages. Of the host's command adapters: the commands on the document tree and the wrappers of
  style samples, knowledge items and checkpoints in \<open>workspace_commands\<close>, which check their
  arguments and call modelled commands of the store; \<open>operation_commands.rs\<close>; the refresh of
  summaries in \<open>summary_worker.rs\<close>; project packages and backups, which move files.
\<close>

end
